(* ===== verification/Prelude.thy ===== *)
theory Prelude
  imports Main "HOL-Library.Word"
begin

unbundle bit_operations_syntax

text \<open>
  Shared vocabulary of the development.

  Types: \<open>byte\<close> is an element of a \<open>Uint8Array\<close>; \<open>millis\<close> is the integer a valid
  \<open>Date\<close> returns from \<open>getTime()\<close>. A TypeScript \<open>number\<close> is an \<open>int\<close>: every number the
  code accepts from outside is first tested with \<open>Number.isSafeInteger\<close> or zod's
  \<open>.int()\<close>, and a fractional or non-finite number takes the same branch as an integer
  outside the safe range. A string is a HOL \<open>string\<close>; a \<open>char\<close> stands for a UTF-16
  code unit up to U+00FF.

  Fallible code returns \<open>'e + 'a\<close>, the thrown error on the left. Loops over arrays that
  may throw are \<open>fold_result\<close> and \<open>parse_all\<close>.

  Interfaces: \<open>invariant_system\<close> (a state machine with an invariant) and \<open>codec\<close>
  (an encoder with the decoder that accepts exactly its image).
\<close>

type_synonym byte = "8 word"
type_synonym bytes = "byte list"
type_synonym millis = int

named_theorems parse_simps \<open>what a successful parse returns\<close>
named_theorems guard_simps \<open>unfolding of guards and schema predicates\<close>
named_theorems result_simps \<open>case analysis of results\<close>

section \<open>Numbers\<close>

definition max_safe_integer :: int where
  "max_safe_integer = 9007199254740991"

definition is_safe_integer :: "int \<Rightarrow> bool" where
  "is_safe_integer n \<longleftrightarrow> - max_safe_integer \<le> n \<and> n \<le> max_safe_integer"

section \<open>Character classes and string operations\<close>

definition lower_hex_chars :: string where
  "lower_hex_chars = ''0123456789abcdef''"

definition all_in :: "string \<Rightarrow> string \<Rightarrow> bool" where
  "all_in cs s \<longleftrightarrow> list_all (\<lambda>c. c \<in> set cs) s"

definition js_whitespace :: string where
  "js_whitespace = [CHR 0x09, CHR 0x0A, CHR 0x0B, CHR 0x0C, CHR 0x0D, CHR 0x20, CHR 0xA0]"

definition js_trim :: "string \<Rightarrow> string" where
  "js_trim s = rev (dropWhile (\<lambda>c. c \<in> set js_whitespace)
                (rev (dropWhile (\<lambda>c. c \<in> set js_whitespace) s)))"

lemma all_in_Nil [simp]: "all_in cs []"
  by (simp add: all_in_def)

lemma all_in_Cons [simp]: "all_in cs (c # s) \<longleftrightarrow> c \<in> set cs \<and> all_in cs s"
  by (simp add: all_in_def)

lemma all_in_append [simp]: "all_in cs (s @ t) \<longleftrightarrow> all_in cs s \<and> all_in cs t"
  by (simp add: all_in_def)

lemma all_in_iff: "all_in cs s \<longleftrightarrow> set s \<subseteq> set cs"
  by (auto simp: all_in_def list_all_iff)

lemma dropWhile_rev_dropWhile:
  "dropWhile P xs = xs \<Longrightarrow> dropWhile P (rev (dropWhile P (rev xs))) = rev (dropWhile P (rev xs))"
proof (cases "rev (dropWhile P (rev xs))")
  case (Cons y ys)
  assume fix_xs: "dropWhile P xs = xs"
  have "xs = rev (takeWhile P (rev xs) @ dropWhile P (rev xs))"
    by simp
  then have "xs = (y # ys) @ rev (takeWhile P (rev xs))"
    using Cons by (metis rev_append)
  then have "\<not> P y"
    using fix_xs by (metis append_Cons dropWhile_eq_Cons_conv)
  then show ?thesis
    using Cons by simp
next
  case Nil
  then show ?thesis by (simp only: dropWhile.simps)
qed

lemma js_trim_trim [simp]: "js_trim (js_trim s) = js_trim s"
  by (simp add: js_trim_def dropWhile_rev_dropWhile)

section \<open>Results\<close>

definition bind_result :: "'e + 'a \<Rightarrow> ('a \<Rightarrow> 'e + 'b) \<Rightarrow> 'e + 'b" where
  "bind_result r f = (case r of Inl e \<Rightarrow> Inl e | Inr x \<Rightarrow> f x)"

lemma bind_result_simps [simp]:
  "bind_result (Inl e) f = Inl e"
  "bind_result (Inr x) f = f x"
  by (simp_all add: bind_result_def)

lemma bind_result_Inr_iff [result_simps]:
  "bind_result r f = Inr y \<longleftrightarrow> (\<exists>x. r = Inr x \<and> f x = Inr y)"
  by (cases r) auto

fun fold_result :: "('s \<Rightarrow> 'a \<Rightarrow> 'e + 's) \<Rightarrow> 's \<Rightarrow> 'a list \<Rightarrow> 'e + 's" where
  "fold_result f s [] = Inr s"
| "fold_result f s (x # xs) = bind_result (f s x) (\<lambda>s'. fold_result f s' xs)"

lemma fold_result_append:
  "fold_result f s (xs @ ys) = bind_result (fold_result f s xs) (\<lambda>s'. fold_result f s' ys)"
proof (induction xs arbitrary: s)
  case (Cons x xs)
  then show ?case by (cases "f s x") simp_all
qed simp

lemma fold_result_invariant:
  assumes "fold_result f s xs = Inr t" and "P s"
    and "\<And>s x s'. x \<in> set xs \<Longrightarrow> P s \<Longrightarrow> f s x = Inr s' \<Longrightarrow> P s'"
  shows "P t"
  using assms
proof (induction xs arbitrary: s)
  case (Cons x xs)
  then show ?case by (auto simp: result_simps)
qed simp

fun parse_all :: "('a \<Rightarrow> 'b option) \<Rightarrow> 'a list \<Rightarrow> 'b list option" where
  "parse_all f [] = Some []"
| "parse_all f (x # xs) =
     (case f x of None \<Rightarrow> None | Some y \<Rightarrow> map_option ((#) y) (parse_all f xs))"

lemma parse_all_length: "parse_all f xs = Some ys \<Longrightarrow> length ys = length xs"
  by (induction xs arbitrary: ys) (auto split: option.splits)

lemma parse_all_append [simp]:
  "parse_all f (xs @ ys) =
     (case parse_all f xs of None \<Rightarrow> None
      | Some as \<Rightarrow> (case parse_all f ys of None \<Rightarrow> None | Some bs \<Rightarrow> Some (as @ bs)))"
  by (induction xs) (auto split: option.splits)

lemma parse_all_fixed:
  "(\<And>x. x \<in> set xs \<Longrightarrow> f x = Some x) \<Longrightarrow> parse_all f xs = Some xs"
  by (induction xs) auto

lemma parse_all_result:
  "parse_all f xs = Some ys \<Longrightarrow> y \<in> set ys \<Longrightarrow> \<exists>x\<in>set xs. f x = Some y"
  by (induction xs arbitrary: ys) (auto split: option.splits)

lemma parse_all_idem:
  assumes "\<And>x y. f x = Some y \<Longrightarrow> f y = Some y" and "parse_all f xs = Some ys"
  shows "parse_all f ys = Some ys"
  using assms by (metis parse_all_fixed parse_all_result)

fun map_result :: "('a \<Rightarrow> 'e + 'b) \<Rightarrow> 'a list \<Rightarrow> 'e + 'b list" where
  "map_result f [] = Inr []"
| "map_result f (x # xs) =
     bind_result (f x) (\<lambda>y. bind_result (map_result f xs) (\<lambda>ys. Inr (y # ys)))"

lemma map_result_Inr_iff: "map_result f xs = Inr ys \<longleftrightarrow> list_all2 (\<lambda>x y. f x = Inr y) xs ys"
  by (induction xs arbitrary: ys) (auto simp: result_simps list_all2_Cons1)

lemma map_result_map: "(\<And>x. x \<in> set xs \<Longrightarrow> f x = Inr (g x)) \<Longrightarrow> map_result f xs = Inr (map g xs)"
  by (induction xs) auto

lemma find_SomeD: "find P xs = Some x \<Longrightarrow> x \<in> set xs \<and> P x"
  by (auto simp: find_Some_iff)

lemma find_append_last:
  "\<forall>x\<in>set xs. \<not> P x \<Longrightarrow> P y \<Longrightarrow> find P (xs @ [y]) = Some y"
  by (induction xs) auto

section \<open>Interfaces\<close>

text \<open>A machine whose steps keep an invariant: the invariant holds in every reachable state.\<close>

locale invariant_system =
  fixes init :: "'s \<Rightarrow> bool"
    and step :: "'s \<Rightarrow> 's \<Rightarrow> bool"
    and inv :: "'s \<Rightarrow> bool"
  assumes inv_init: "init s \<Longrightarrow> inv s"
    and inv_step: "inv s \<Longrightarrow> step s t \<Longrightarrow> inv t"
begin

lemma inv_steps: "step\<^sup>*\<^sup>* s t \<Longrightarrow> inv s \<Longrightarrow> inv t"
  by (induction rule: rtranclp_induct) (auto intro: inv_step)

lemma inv_reachable: "init s \<Longrightarrow> step\<^sup>*\<^sup>* s t \<Longrightarrow> inv t"
  using inv_steps inv_init by blast

end

text \<open>
  An encoder and the decoder that accepts exactly its image: the two together are a
  bijection between the valid values and the accepted encodings.
\<close>

locale codec =
  fixes enc :: "'a \<Rightarrow> 'b"
    and dec :: "'b \<Rightarrow> 'e + 'a"
    and valid :: "'a \<Rightarrow> bool"
  assumes dec_enc: "valid x \<Longrightarrow> dec (enc x) = Inr x"
    and dec_exact: "dec y = Inr x \<Longrightarrow> valid x \<and> enc x = y"
begin

lemma dec_eq_iff: "dec y = Inr x \<longleftrightarrow> valid x \<and> enc x = y"
  using dec_enc dec_exact by blast

lemma enc_inj: "valid x \<Longrightarrow> valid x' \<Longrightarrow> enc x = enc x' \<Longrightarrow> x = x'"
  by (metis dec_enc sum.inject(2))

lemma dec_inj: "dec y = Inr x \<Longrightarrow> dec y' = Inr x \<Longrightarrow> y = y'"
  by (metis dec_exact)

end

end
