(* ===== verification/Primitives.thy ===== *)
theory Primitives
  imports Prelude
begin

text \<open>
  The shared schemas of \<open>packages/domain/src/primitives.ts\<close>: predicates for the ones that
  only test, \<open>parse_identifier\<close> for the one that also trims. zod's own grammar of
  \<open>z.string().uuid()\<close> is not in the repository, so it is the parameter \<open>uuid\<close> of every
  schema that uses it. \<open>Clock\<close> and \<open>IdGenerator\<close> are the values they return, in the
  \<open>dependencies\<close> record: each operation of \<open>attempt.ts\<close> reads the clock once and draws at
  most one id.
\<close>

definition git_sha_ok :: "string \<Rightarrow> bool" where
  "git_sha_ok s \<longleftrightarrow> (length s = 40 \<or> length s = 64) \<and> all_in lower_hex_chars s"

definition sha256_ok :: "string \<Rightarrow> bool" where
  "sha256_ok s \<longleftrightarrow> length s = 64 \<and> all_in lower_hex_chars s"

definition parse_identifier :: "string \<Rightarrow> string option" where
  "parse_identifier s =
     (let t = js_trim s in if 1 \<le> length t \<and> length t \<le> 200 then Some t else None)"

definition idempotency_chars :: string where
  "idempotency_chars =
     ''ABCDEFGHIJKLMNOPQRSTUVWXYZabcdefghijklmnopqrstuvwxyz0123456789._:-''"

definition idempotency_key_ok :: "string \<Rightarrow> bool" where
  "idempotency_key_ok s \<longleftrightarrow> 8 \<le> length s \<and> length s \<le> 200 \<and> all_in idempotency_chars s"

record dependencies =
  dep_now :: millis
  dep_nextId :: string
  dep_maxAuthorizationAgeMs :: "int option"

lemma parse_identifier_idem [simp]:
  "parse_identifier s = Some t \<Longrightarrow> parse_identifier t = Some t"
  by (auto simp: parse_identifier_def Let_def split: if_splits)

end
