(* ===== verification/Attempt.thy ===== *)
theory Attempt
  imports Primitives
begin

text \<open>
  The proof-attempt state machine of \<open>packages/domain/src/attempt.ts\<close>.

  \<open>attempt\<close>, \<open>attempt_receipt\<close>, \<open>authorized_actor\<close> and \<open>transition_command\<close> are the
  objects the schemas describe, with their fields in the source's order. An object that
  reaches these functions is typed, so unknown keys and wrong JSON types do not occur;
  what is left of \<open>Schema.parse\<close> is the \<open>parse_*\<close> functions: they test the
  refinements, trim the identifiers and return \<open>None\<close> where zod throws. The artifact
  references are a map from their keys to \<open>artifact_field\<close>, which keeps the difference
  between a key that is absent and a key that is present with the value \<open>undefined\<close>:
  the spread that merges two of them copies the second.
\<close>

section \<open>Data\<close>

datatype attempt_status =
    Preparing | Ready | Active | Uploading | Processing | ReviewRequired
  | Passed | RetryRequired | TechnicalRetry | Expired | Invalidated

definition all_attempt_statuses :: "attempt_status list" where
  "all_attempt_statuses =
     [Preparing, Ready, Active, Uploading, Processing, ReviewRequired,
      Passed, RetryRequired, TechnicalRetry, Expired, Invalidated]"

definition nonterminal_attempt_statuses :: "attempt_status list" where
  "nonterminal_attempt_statuses =
     [Preparing, Ready, Active, Uploading, Processing, ReviewRequired]"

definition terminal_attempt_statuses :: "attempt_status list" where
  "terminal_attempt_statuses =
     [Passed, RetryRequired, TechnicalRetry, Expired, Invalidated]"

fun allowed_attempt_transitions :: "attempt_status \<Rightarrow> attempt_status list" where
  "allowed_attempt_transitions Preparing = [Ready, TechnicalRetry, Expired, Invalidated]"
| "allowed_attempt_transitions Ready = [Active, TechnicalRetry, Expired, Invalidated]"
| "allowed_attempt_transitions Active = [Uploading, TechnicalRetry, Expired, Invalidated]"
| "allowed_attempt_transitions Uploading = [Processing, TechnicalRetry, Expired, Invalidated]"
| "allowed_attempt_transitions Processing =
     [ReviewRequired, TechnicalRetry, Expired, Invalidated]"
| "allowed_attempt_transitions ReviewRequired =
     [Passed, RetryRequired, TechnicalRetry, Expired, Invalidated]"
| "allowed_attempt_transitions Passed = []"
| "allowed_attempt_transitions RetryRequired = []"
| "allowed_attempt_transitions TechnicalRetry = []"
| "allowed_attempt_transitions Expired = []"
| "allowed_attempt_transitions Invalidated = []"

datatype artifact_key =
    HandoffTokenId | MobileSessionId | UploadSessionId | RecordingManifestId
  | RecordingObjectId | WrappedKeyRef | TranscriptId | EvaluationId
  | ReviewDecisionId | TechnicalEventId

definition artifact_keys :: "artifact_key list" where
  "artifact_keys =
     [HandoffTokenId, MobileSessionId, UploadSessionId, RecordingManifestId,
      RecordingObjectId, WrappedKeyRef, TranscriptId, EvaluationId,
      ReviewDecisionId, TechnicalEventId]"

datatype artifact_field = Absent | Undefined | Present string

type_synonym artifact_refs = "artifact_key \<Rightarrow> artifact_field"

datatype actor_role = Author | Maintainer | Worker | System

datatype authorization_scope =
    AttemptPrepare | AttemptStart | AttemptUpload | AttemptProcess
  | AttemptRequestReview | AttemptDecide | AttemptMarkTechnicalRetry
  | AttemptExpire | AttemptInvalidate

record authorization =
  auth_authorized :: bool
  auth_repositoryId :: string
  auth_scopes :: "authorization_scope list"
  auth_checkedAt :: millis
  auth_expiresAt :: millis

record authorized_actor =
  act_actorId :: string
  act_role :: actor_role
  act_authorization :: authorization

record attempt_receipt =
  rc_id :: string
  rc_attemptId :: string
  rc_idempotencyKey :: string
  rc_from :: attempt_status
  rc_to :: attempt_status
  rc_expectedHeadSha :: string
  rc_currentHeadSha :: string
  rc_actorId :: string
  rc_actorRole :: actor_role
  rc_occurredAt :: millis

record attempt =
  att_id :: string
  att_repositoryId :: string
  att_revisionId :: string
  att_proofPlanId :: string
  att_authorId :: string
  att_headSha :: string
  att_status :: attempt_status
  att_expiresAt :: millis
  att_createdAt :: millis
  att_updatedAt :: millis
  att_startedAt :: "millis option"
  att_completedAt :: "millis option"
  att_invalidatedAt :: "millis option"
  att_artifacts :: artifact_refs
  att_transitionReceipts :: "attempt_receipt list"

record create_attempt_input =
  ca_repositoryId :: string
  ca_revisionId :: string
  ca_proofPlanId :: string
  ca_authorId :: string
  ca_headSha :: string
  ca_expiresAt :: millis

record transition_command =
  cmd_attempt :: attempt
  cmd_expectedStatus :: attempt_status
  cmd_targetStatus :: attempt_status
  cmd_expectedHeadSha :: string
  cmd_currentHeadSha :: string
  cmd_actor :: authorized_actor
  cmd_artifacts :: artifact_refs
  cmd_idempotencyKey :: string

datatype transition_error_code =
    IDEMPOTENCY_CONFLICT | TERMINAL_STATUS | INVALID_TRANSITION | STALE_STATUS
  | EXPECTED_SHA_MISMATCH | REVISION_INVALIDATED | INVALIDATION_REQUIRES_NEW_SHA
  | ATTEMPT_EXPIRED | EXPIRATION_NOT_DUE | AUTHORIZATION_REPOSITORY_MISMATCH
  | AUTHORIZATION_NOT_YET_VALID | AUTHORIZATION_EXPIRED | AUTHORIZATION_STALE
  | ACTOR_NOT_ALLOWED | AUTHOR_MISMATCH | MISSING_SCOPE | MISSING_ARTIFACT

text \<open>What these functions throw: a zod error, or an \<open>AttemptTransitionError\<close>.\<close>

datatype attempt_error = AttemptSchemaError | TransitionError transition_error_code

record transition_result =
  res_attempt :: attempt
  res_receipt :: attempt_receipt
  res_replayed :: bool

section \<open>Tables\<close>

definition five_minutes_ms :: int where
  "five_minutes_ms = 5 * 60 * 1000"

fun required_artifacts :: "attempt_status \<Rightarrow> artifact_key list" where
  "required_artifacts Preparing = []"
| "required_artifacts Ready = []"
| "required_artifacts Active = [HandoffTokenId, MobileSessionId]"
| "required_artifacts Uploading = [UploadSessionId]"
| "required_artifacts Processing = [RecordingManifestId, RecordingObjectId, WrappedKeyRef]"
| "required_artifacts ReviewRequired = [TranscriptId, EvaluationId]"
| "required_artifacts Passed = [ReviewDecisionId]"
| "required_artifacts RetryRequired = [ReviewDecisionId]"
| "required_artifacts TechnicalRetry = [TechnicalEventId]"
| "required_artifacts Expired = []"
| "required_artifacts Invalidated = []"

fun transition_authorization ::
  "attempt_status \<Rightarrow> actor_role list \<times> authorization_scope" where
  "transition_authorization Preparing = ([Worker, System], AttemptPrepare)"
| "transition_authorization Ready = ([Worker, System], AttemptPrepare)"
| "transition_authorization Active = ([Author], AttemptStart)"
| "transition_authorization Uploading = ([Author], AttemptUpload)"
| "transition_authorization Processing = ([Worker, System], AttemptProcess)"
| "transition_authorization ReviewRequired = ([Worker, System], AttemptRequestReview)"
| "transition_authorization Passed = ([Maintainer], AttemptDecide)"
| "transition_authorization RetryRequired = ([Maintainer], AttemptDecide)"
| "transition_authorization TechnicalRetry = ([Worker, System], AttemptMarkTechnicalRetry)"
| "transition_authorization Expired = ([Worker, System], AttemptExpire)"
| "transition_authorization Invalidated = ([Worker, System], AttemptInvalidate)"

definition is_terminal_attempt_status :: "attempt_status \<Rightarrow> bool" where
  "is_terminal_attempt_status s \<longleftrightarrow> s \<in> set terminal_attempt_statuses"

definition can_transition_attempt :: "attempt_status \<Rightarrow> attempt_status \<Rightarrow> bool" where
  "can_transition_attempt s t \<longleftrightarrow> t \<in> set (allowed_attempt_transitions s)"

section \<open>Schemas\<close>

instantiation artifact_key :: enum
begin

definition enum_artifact_key :: "artifact_key list" where
  "enum_artifact_key = artifact_keys"

definition enum_all_artifact_key :: "(artifact_key \<Rightarrow> bool) \<Rightarrow> bool" where
  "enum_all_artifact_key P \<longleftrightarrow> list_all P artifact_keys"

definition enum_ex_artifact_key :: "(artifact_key \<Rightarrow> bool) \<Rightarrow> bool" where
  "enum_ex_artifact_key P \<longleftrightarrow> list_ex P artifact_keys"

lemma artifact_keys_UNIV: "set artifact_keys = UNIV"
proof -
  have "k \<in> set artifact_keys" for k
    by (cases k) (simp_all add: artifact_keys_def)
  then show ?thesis by auto
qed

instance
proof
  show "(UNIV :: artifact_key set) = set enum_class.enum"
    by (simp add: enum_artifact_key_def artifact_keys_UNIV)
  show "distinct (enum_class.enum :: artifact_key list)"
    by (simp add: enum_artifact_key_def artifact_keys_def)
  show "enum_class.enum_all P \<longleftrightarrow> Ball UNIV P" for P :: "artifact_key \<Rightarrow> bool"
    by (simp add: enum_all_artifact_key_def list_all_iff artifact_keys_UNIV)
  show "enum_class.enum_ex P \<longleftrightarrow> Bex UNIV P" for P :: "artifact_key \<Rightarrow> bool"
    by (simp add: enum_ex_artifact_key_def list_ex_iff artifact_keys_UNIV)
qed

end

definition parse_artifact_refs ::
  "(string \<Rightarrow> bool) \<Rightarrow> artifact_refs \<Rightarrow> artifact_refs option" where
  "parse_artifact_refs uuid refs =
     (if list_all (\<lambda>k. case refs k of Present s \<Rightarrow> uuid s | _ \<Rightarrow> True) artifact_keys
      then Some refs else None)"

definition parse_authorized_actor ::
  "(string \<Rightarrow> bool) \<Rightarrow> authorized_actor \<Rightarrow> authorized_actor option" where
  "parse_authorized_actor uuid a =
     (let z = act_authorization a in
      case parse_identifier (act_actorId a) of
        None \<Rightarrow> None
      | Some actorId \<Rightarrow>
          if auth_authorized z \<and> uuid (auth_repositoryId z) \<and> auth_scopes z \<noteq> []
          then Some (a\<lparr>act_actorId := actorId\<rparr>) else None)"

definition parse_attempt_receipt ::
  "(string \<Rightarrow> bool) \<Rightarrow> attempt_receipt \<Rightarrow> attempt_receipt option" where
  "parse_attempt_receipt uuid r =
     (case parse_identifier (rc_actorId r) of
        None \<Rightarrow> None
      | Some actorId \<Rightarrow>
          if uuid (rc_id r) \<and> uuid (rc_attemptId r)
             \<and> idempotency_key_ok (rc_idempotencyKey r)
             \<and> git_sha_ok (rc_expectedHeadSha r) \<and> git_sha_ok (rc_currentHeadSha r)
          then Some (r\<lparr>rc_actorId := actorId\<rparr>) else None)"

definition parse_attempt :: "(string \<Rightarrow> bool) \<Rightarrow> attempt \<Rightarrow> attempt option" where
  "parse_attempt uuid a =
     (case (parse_identifier (att_authorId a),
            parse_artifact_refs uuid (att_artifacts a),
            parse_all (parse_attempt_receipt uuid) (att_transitionReceipts a)) of
        (Some authorId, Some artifacts, Some receipts) \<Rightarrow>
          if uuid (att_id a) \<and> uuid (att_repositoryId a) \<and> uuid (att_revisionId a)
             \<and> uuid (att_proofPlanId a) \<and> git_sha_ok (att_headSha a)
          then Some (a\<lparr>att_authorId := authorId, att_artifacts := artifacts,
                       att_transitionReceipts := receipts\<rparr>)
          else None
      | _ \<Rightarrow> None)"

definition parse_create_attempt_input ::
  "(string \<Rightarrow> bool) \<Rightarrow> create_attempt_input \<Rightarrow> create_attempt_input option" where
  "parse_create_attempt_input uuid i =
     (case parse_identifier (ca_authorId i) of
        None \<Rightarrow> None
      | Some authorId \<Rightarrow>
          if uuid (ca_repositoryId i) \<and> uuid (ca_revisionId i) \<and> uuid (ca_proofPlanId i)
             \<and> git_sha_ok (ca_headSha i)
          then Some (i\<lparr>ca_authorId := authorId\<rparr>) else None)"

definition parse_transition_command ::
  "(string \<Rightarrow> bool) \<Rightarrow> transition_command \<Rightarrow> transition_command option" where
  "parse_transition_command uuid c =
     (case (parse_attempt uuid (cmd_attempt c), parse_authorized_actor uuid (cmd_actor c),
            parse_artifact_refs uuid (cmd_artifacts c)) of
        (Some a, Some act, Some refs) \<Rightarrow>
          if git_sha_ok (cmd_expectedHeadSha c) \<and> git_sha_ok (cmd_currentHeadSha c)
             \<and> idempotency_key_ok (cmd_idempotencyKey c)
          then Some (c\<lparr>cmd_attempt := a, cmd_actor := act, cmd_artifacts := refs\<rparr>)
          else None
      | _ \<Rightarrow> None)"

section \<open>Operations\<close>

definition create_attempt ::
  "(string \<Rightarrow> bool) \<Rightarrow> create_attempt_input \<Rightarrow> dependencies \<Rightarrow> attempt_error + attempt" where
  "create_attempt uuid rawInput deps =
     (case parse_create_attempt_input uuid rawInput of
        None \<Rightarrow> Inl AttemptSchemaError
      | Some input \<Rightarrow>
          (let now = dep_now deps in
           if ca_expiresAt input \<le> now then Inl (TransitionError ATTEMPT_EXPIRED)
           else if \<not> uuid (dep_nextId deps) then Inl AttemptSchemaError
           else case parse_attempt uuid
                  \<lparr>att_id = dep_nextId deps,
                   att_repositoryId = ca_repositoryId input,
                   att_revisionId = ca_revisionId input,
                   att_proofPlanId = ca_proofPlanId input,
                   att_authorId = ca_authorId input,
                   att_headSha = ca_headSha input,
                   att_status = Preparing,
                   att_expiresAt = ca_expiresAt input,
                   att_createdAt = now,
                   att_updatedAt = now,
                   att_startedAt = None,
                   att_completedAt = None,
                   att_invalidatedAt = None,
                   att_artifacts = (\<lambda>_. Absent),
                   att_transitionReceipts = []\<rparr> of
                  None \<Rightarrow> Inl AttemptSchemaError
                | Some a \<Rightarrow> Inr a))"

definition assert_authorization ::
  "attempt \<Rightarrow> attempt_status \<Rightarrow> authorized_actor \<Rightarrow> millis \<Rightarrow> int \<Rightarrow> attempt_error + unit" where
  "assert_authorization a target actor now maxAge =
     (let z = act_authorization actor; rule = transition_authorization target in
      if auth_repositoryId z \<noteq> att_repositoryId a then
        Inl (TransitionError AUTHORIZATION_REPOSITORY_MISMATCH)
      else if auth_checkedAt z > now then
        Inl (TransitionError AUTHORIZATION_NOT_YET_VALID)
      else if auth_expiresAt z \<le> now then
        Inl (TransitionError AUTHORIZATION_EXPIRED)
      else if now - auth_checkedAt z > maxAge then
        Inl (TransitionError AUTHORIZATION_STALE)
      else if act_role actor \<notin> set (fst rule) then
        Inl (TransitionError ACTOR_NOT_ALLOWED)
      else if snd rule \<notin> set (auth_scopes z) then
        Inl (TransitionError MISSING_SCOPE)
      else if act_role actor = Author \<and> act_actorId actor \<noteq> att_authorId a then
        Inl (TransitionError AUTHOR_MISMATCH)
      else Inr ())"

definition artifact_missing :: "artifact_refs \<Rightarrow> artifact_key \<Rightarrow> bool" where
  "artifact_missing refs k \<longleftrightarrow> (case refs k of Present _ \<Rightarrow> False | _ \<Rightarrow> True)"

definition assert_artifacts :: "attempt_status \<Rightarrow> artifact_refs \<Rightarrow> attempt_error + unit" where
  "assert_artifacts target refs =
     (if list_ex (artifact_missing refs) (required_artifacts target)
      then Inl (TransitionError MISSING_ARTIFACT) else Inr ())"

definition merge_artifacts :: "artifact_refs \<Rightarrow> artifact_refs \<Rightarrow> artifact_refs" where
  "merge_artifacts stored new = (\<lambda>k. case new k of Absent \<Rightarrow> stored k | f \<Rightarrow> f)"

definition receipt_matches_command :: "attempt_receipt \<Rightarrow> transition_command \<Rightarrow> bool" where
  "receipt_matches_command r c \<longleftrightarrow>
     rc_attemptId r = att_id (cmd_attempt c)
     \<and> rc_from r = cmd_expectedStatus c
     \<and> rc_to r = cmd_targetStatus c
     \<and> rc_expectedHeadSha r = cmd_expectedHeadSha c
     \<and> rc_currentHeadSha r = cmd_currentHeadSha c
     \<and> rc_actorId r = act_actorId (cmd_actor c)
     \<and> rc_actorRole r = act_role (cmd_actor c)"

definition find_idempotent_replay ::
  "transition_command \<Rightarrow> attempt_error + attempt_receipt option" where
  "find_idempotent_replay c =
     (case find (\<lambda>r. rc_idempotencyKey r = cmd_idempotencyKey c)
             (att_transitionReceipts (cmd_attempt c)) of
        None \<Rightarrow> Inr None
      | Some r \<Rightarrow>
          if receipt_matches_command r c then Inr (Some r)
          else Inl (TransitionError IDEMPOTENCY_CONFLICT))"

definition next_attempt ::
  "attempt \<Rightarrow> attempt_status \<Rightarrow> millis \<Rightarrow> artifact_refs \<Rightarrow> attempt_receipt \<Rightarrow> attempt" where
  "next_attempt a target now refs receipt =
     a\<lparr>att_status := target,
       att_updatedAt := now,
       att_startedAt := (if target = Active \<and> att_startedAt a = None
                         then Some now else att_startedAt a),
       att_completedAt := (if is_terminal_attempt_status target
                           then Some now else att_completedAt a),
       att_invalidatedAt := (if target = Invalidated then Some now else att_invalidatedAt a),
       att_artifacts := refs,
       att_transitionReceipts := att_transitionReceipts a @ [receipt]\<rparr>"

definition transition_guards :: "transition_command \<Rightarrow> millis \<Rightarrow> attempt_error + unit" where
  "transition_guards c now =
     (let a = cmd_attempt c; target = cmd_targetStatus c;
          currentShaMatches = (cmd_currentHeadSha c = att_headSha a);
          hasExpired = (now \<ge> att_expiresAt a) in
      if is_terminal_attempt_status (att_status a) then
        Inl (TransitionError TERMINAL_STATUS)
      else if att_status a \<noteq> cmd_expectedStatus c then
        Inl (TransitionError STALE_STATUS)
      else if \<not> can_transition_attempt (att_status a) target then
        Inl (TransitionError INVALID_TRANSITION)
      else if cmd_expectedHeadSha c \<noteq> att_headSha a then
        Inl (TransitionError EXPECTED_SHA_MISMATCH)
      else if target = Invalidated \<and> currentShaMatches then
        Inl (TransitionError INVALIDATION_REQUIRES_NEW_SHA)
      else if target \<noteq> Invalidated \<and> \<not> currentShaMatches then
        Inl (TransitionError REVISION_INVALIDATED)
      else if target = Expired \<and> \<not> hasExpired then
        Inl (TransitionError EXPIRATION_NOT_DUE)
      else if target \<noteq> Expired \<and> hasExpired \<and> target \<noteq> Invalidated then
        Inl (TransitionError ATTEMPT_EXPIRED)
      else Inr ())"

definition transition_attempt ::
  "(string \<Rightarrow> bool) \<Rightarrow> transition_command \<Rightarrow> dependencies
     \<Rightarrow> attempt_error + transition_result" where
  "transition_attempt uuid rawCommand deps =
     (case parse_transition_command uuid rawCommand of
        None \<Rightarrow> Inl AttemptSchemaError
      | Some c \<Rightarrow>
     bind_result (find_idempotent_replay c) (\<lambda>replay.
     case replay of
       Some r \<Rightarrow> Inr \<lparr>res_attempt = cmd_attempt c, res_receipt = r, res_replayed = True\<rparr>
     | None \<Rightarrow>
     (let a = cmd_attempt c; target = cmd_targetStatus c; now = dep_now deps in
     bind_result (transition_guards c now) (\<lambda>_.
     bind_result (assert_authorization a target (cmd_actor c) now
        (case dep_maxAuthorizationAgeMs deps of None \<Rightarrow> five_minutes_ms | Some m \<Rightarrow> m)) (\<lambda>_.
     case parse_artifact_refs uuid (merge_artifacts (att_artifacts a) (cmd_artifacts c)) of
       None \<Rightarrow> Inl AttemptSchemaError
     | Some refs \<Rightarrow>
     bind_result (assert_artifacts target refs) (\<lambda>_.
     case parse_attempt_receipt uuid
        \<lparr>rc_id = dep_nextId deps,
         rc_attemptId = att_id a,
         rc_idempotencyKey = cmd_idempotencyKey c,
         rc_from = att_status a,
         rc_to = target,
         rc_expectedHeadSha = cmd_expectedHeadSha c,
         rc_currentHeadSha = cmd_currentHeadSha c,
         rc_actorId = act_actorId (cmd_actor c),
         rc_actorRole = act_role (cmd_actor c),
         rc_occurredAt = now\<rparr> of
       None \<Rightarrow> Inl AttemptSchemaError
     | Some receipt \<Rightarrow>
     case parse_attempt uuid (next_attempt a target now refs receipt) of
       None \<Rightarrow> Inl AttemptSchemaError
     | Some nxt \<Rightarrow>
         Inr \<lparr>res_attempt = nxt, res_receipt = receipt, res_replayed = False\<rparr>))))))"

section \<open>The order of the life cycle\<close>

fun status_rank :: "attempt_status \<Rightarrow> nat" where
  "status_rank Preparing = 0"
| "status_rank Ready = 1"
| "status_rank Active = 2"
| "status_rank Uploading = 3"
| "status_rank Processing = 4"
| "status_rank ReviewRequired = 5"
| "status_rank Passed = 6"
| "status_rank RetryRequired = 7"
| "status_rank TechnicalRetry = 8"
| "status_rank Expired = 9"
| "status_rank Invalidated = 10"

lemma status_rank_inj: "status_rank s = status_rank t \<Longrightarrow> s = t"
  by (cases s; cases t; simp)

instantiation attempt_status :: linorder
begin

definition less_eq_attempt_status :: "attempt_status \<Rightarrow> attempt_status \<Rightarrow> bool" where
  "less_eq_attempt_status s t \<longleftrightarrow> status_rank s \<le> status_rank t"

definition less_attempt_status :: "attempt_status \<Rightarrow> attempt_status \<Rightarrow> bool" where
  "less_attempt_status s t \<longleftrightarrow> status_rank s < status_rank t"

instance
  by standard (auto simp: less_eq_attempt_status_def less_attempt_status_def
      intro: status_rank_inj)

end

lemmas status_defs =
  is_terminal_attempt_status_def terminal_attempt_statuses_def can_transition_attempt_def

lemma can_transition_increases: "can_transition_attempt s t \<Longrightarrow> s < t"
  by (cases s) (auto simp: can_transition_attempt_def less_attempt_status_def)

lemma terminal_iff_no_transition:
  "is_terminal_attempt_status s \<longleftrightarrow> allowed_attempt_transitions s = []"
  by (cases s) (auto simp: status_defs)

lemma terminal_xor_nonterminal:
  "is_terminal_attempt_status s \<longleftrightarrow> s \<notin> set nonterminal_attempt_statuses"
  by (cases s) (auto simp: status_defs nonterminal_attempt_statuses_def)

section \<open>Parsing keeps what it returns\<close>

lemma parse_artifact_refs_Some [parse_simps]:
  "parse_artifact_refs uuid refs = Some refs' \<longleftrightarrow>
     refs' = refs \<and> list_all (\<lambda>k. case refs k of Present s \<Rightarrow> uuid s | _ \<Rightarrow> True) artifact_keys"
  by (auto simp: parse_artifact_refs_def)

lemma parse_attempt_receipt_Some [parse_simps]:
  "parse_attempt_receipt uuid r = Some r' \<longleftrightarrow>
     (\<exists>i. parse_identifier (rc_actorId r) = Some i \<and> r' = r\<lparr>rc_actorId := i\<rparr>
        \<and> uuid (rc_id r) \<and> uuid (rc_attemptId r) \<and> idempotency_key_ok (rc_idempotencyKey r)
        \<and> git_sha_ok (rc_expectedHeadSha r) \<and> git_sha_ok (rc_currentHeadSha r))"
  by (auto simp: parse_attempt_receipt_def split: option.splits)

lemma parse_attempt_receipt_idem:
  "parse_attempt_receipt uuid r = Some r' \<Longrightarrow> parse_attempt_receipt uuid r' = Some r'"
  by (auto simp: parse_simps)

lemma parse_authorized_actor_Some [parse_simps]:
  "parse_authorized_actor uuid a = Some a' \<longleftrightarrow>
     (\<exists>i. parse_identifier (act_actorId a) = Some i \<and> a' = a\<lparr>act_actorId := i\<rparr>
        \<and> auth_authorized (act_authorization a) \<and> uuid (auth_repositoryId (act_authorization a))
        \<and> auth_scopes (act_authorization a) \<noteq> [])"
  by (auto simp: parse_authorized_actor_def Let_def split: option.splits)

lemma parse_attempt_Some [parse_simps]:
  "parse_attempt uuid a = Some a' \<longleftrightarrow>
     (\<exists>i refs rs. parse_identifier (att_authorId a) = Some i
        \<and> parse_artifact_refs uuid (att_artifacts a) = Some refs
        \<and> parse_all (parse_attempt_receipt uuid) (att_transitionReceipts a) = Some rs
        \<and> uuid (att_id a) \<and> uuid (att_repositoryId a) \<and> uuid (att_revisionId a)
        \<and> uuid (att_proofPlanId a) \<and> git_sha_ok (att_headSha a)
        \<and> a' = a\<lparr>att_authorId := i, att_artifacts := refs, att_transitionReceipts := rs\<rparr>)"
  by (auto simp: parse_attempt_def split: option.splits)

lemma parse_attempt_idem:
  "parse_attempt uuid a = Some a' \<Longrightarrow> parse_attempt uuid a' = Some a'"
proof -
  assume a: "parse_attempt uuid a = Some a'"
  then obtain rs where rs: "parse_all (parse_attempt_receipt uuid) (att_transitionReceipts a) = Some rs"
    by (auto simp: parse_simps)
  have "parse_all (parse_attempt_receipt uuid) rs = Some rs"
    by (rule parse_all_idem [OF parse_attempt_receipt_idem rs])
  with a rs show ?thesis by (auto simp: parse_simps)
qed

lemma parse_attempt_fixed:
  "parse_attempt uuid a = Some a \<longleftrightarrow>
     parse_identifier (att_authorId a) = Some (att_authorId a)
     \<and> parse_artifact_refs uuid (att_artifacts a) = Some (att_artifacts a)
     \<and> parse_all (parse_attempt_receipt uuid) (att_transitionReceipts a)
         = Some (att_transitionReceipts a)
     \<and> uuid (att_id a) \<and> uuid (att_repositoryId a) \<and> uuid (att_revisionId a)
     \<and> uuid (att_proofPlanId a) \<and> git_sha_ok (att_headSha a)"
  by (cases a) (auto simp: parse_attempt_def split: option.splits)

lemma parse_transition_command_Some [parse_simps]:
  "parse_transition_command uuid c = Some c' \<longleftrightarrow>
     (\<exists>a act refs. parse_attempt uuid (cmd_attempt c) = Some a
        \<and> parse_authorized_actor uuid (cmd_actor c) = Some act
        \<and> parse_artifact_refs uuid (cmd_artifacts c) = Some refs
        \<and> git_sha_ok (cmd_expectedHeadSha c) \<and> git_sha_ok (cmd_currentHeadSha c)
        \<and> idempotency_key_ok (cmd_idempotencyKey c)
        \<and> c' = c\<lparr>cmd_attempt := a, cmd_actor := act, cmd_artifacts := refs\<rparr>)"
  by (auto simp: parse_transition_command_def split: option.splits)

section \<open>What a successful transition did\<close>

definition command_max_age :: "dependencies \<Rightarrow> int" where
  "command_max_age deps =
     (case dep_maxAuthorizationAgeMs deps of None \<Rightarrow> five_minutes_ms | Some m \<Rightarrow> m)"

definition fresh_receipt :: "transition_command \<Rightarrow> dependencies \<Rightarrow> attempt_receipt" where
  "fresh_receipt c deps =
     \<lparr>rc_id = dep_nextId deps,
      rc_attemptId = att_id (cmd_attempt c),
      rc_idempotencyKey = cmd_idempotencyKey c,
      rc_from = att_status (cmd_attempt c),
      rc_to = cmd_targetStatus c,
      rc_expectedHeadSha = cmd_expectedHeadSha c,
      rc_currentHeadSha = cmd_currentHeadSha c,
      rc_actorId = act_actorId (cmd_actor c),
      rc_actorRole = act_role (cmd_actor c),
      rc_occurredAt = dep_now deps\<rparr>"

definition merged_artifacts :: "transition_command \<Rightarrow> artifact_refs" where
  "merged_artifacts c = merge_artifacts (att_artifacts (cmd_attempt c)) (cmd_artifacts c)"

definition no_receipt_for :: "transition_command \<Rightarrow> bool" where
  "no_receipt_for c \<longleftrightarrow>
     cmd_idempotencyKey c \<notin> rc_idempotencyKey ` set (att_transitionReceipts (cmd_attempt c))"

text \<open>
  The whole guard of a fresh transition, as one condition on the parsed command, the
  clock and the freshness limit.
\<close>

definition transition_permitted :: "transition_command \<Rightarrow> millis \<Rightarrow> int \<Rightarrow> bool" where
  "transition_permitted c now maxAge \<longleftrightarrow>
     (let a = cmd_attempt c; t = cmd_targetStatus c; act = cmd_actor c;
          z = act_authorization act in
      can_transition_attempt (att_status a) t
      \<and> cmd_expectedStatus c = att_status a
      \<and> cmd_expectedHeadSha c = att_headSha a
      \<and> (cmd_currentHeadSha c = att_headSha a \<longleftrightarrow> t \<noteq> Invalidated)
      \<and> (t \<noteq> Invalidated \<longrightarrow> (t = Expired \<longleftrightarrow> att_expiresAt a \<le> now))
      \<and> auth_repositoryId z = att_repositoryId a
      \<and> now - maxAge \<le> auth_checkedAt z \<and> auth_checkedAt z \<le> now \<and> now < auth_expiresAt z
      \<and> act_role act \<in> set (fst (transition_authorization t))
      \<and> snd (transition_authorization t) \<in> set (auth_scopes z)
      \<and> (act_role act = Author \<longrightarrow> act_actorId act = att_authorId a)
      \<and> (\<forall>k\<in>set (required_artifacts t). \<not> artifact_missing (merged_artifacts c) k))"

lemma can_transition_not_terminal:
  "can_transition_attempt s t \<Longrightarrow> \<not> is_terminal_attempt_status s"
  by (cases s) (auto simp: status_defs)

lemma transition_guards_Inr [guard_simps]:
  "transition_guards c now = Inr u \<longleftrightarrow>
     (let a = cmd_attempt c; t = cmd_targetStatus c in
      can_transition_attempt (att_status a) t
      \<and> cmd_expectedStatus c = att_status a
      \<and> cmd_expectedHeadSha c = att_headSha a
      \<and> (cmd_currentHeadSha c = att_headSha a \<longleftrightarrow> t \<noteq> Invalidated)
      \<and> (t \<noteq> Invalidated \<longrightarrow> (t = Expired \<longleftrightarrow> att_expiresAt a \<le> now)))"
  by (auto simp: transition_guards_def Let_def dest: can_transition_not_terminal)

lemma assert_authorization_Inr [guard_simps]:
  "assert_authorization a t act now maxAge = Inr u \<longleftrightarrow>
     (let z = act_authorization act in
      auth_repositoryId z = att_repositoryId a
      \<and> now - maxAge \<le> auth_checkedAt z \<and> auth_checkedAt z \<le> now \<and> now < auth_expiresAt z
      \<and> act_role act \<in> set (fst (transition_authorization t))
      \<and> snd (transition_authorization t) \<in> set (auth_scopes z)
      \<and> (act_role act = Author \<longrightarrow> act_actorId act = att_authorId a))"
  by (auto simp: assert_authorization_def Let_def)

lemma not_artifact_missing: "\<not> artifact_missing refs k \<longleftrightarrow> (\<exists>v. refs k = Present v)"
  by (cases "refs k") (auto simp: artifact_missing_def)

lemma assert_artifacts_Inr [guard_simps]:
  "assert_artifacts t refs = Inr u \<longleftrightarrow>
     (\<forall>k\<in>set (required_artifacts t). \<not> artifact_missing refs k)"
  by (simp add: assert_artifacts_def list_ex_iff)

lemma find_idempotent_replay_None [guard_simps]:
  "find_idempotent_replay c = Inr None \<longleftrightarrow> no_receipt_for c"
  by (auto simp: find_idempotent_replay_def no_receipt_for_def find_None_iff
      intro: rev_image_eqI dest!: find_SomeD split: option.splits)

lemma merged_artifacts_parse:
  assumes "parse_transition_command uuid raw = Some c"
  shows "parse_artifact_refs uuid (merged_artifacts c) = Some (merged_artifacts c)"
  using assms
  by (auto simp: parse_simps merged_artifacts_def merge_artifacts_def list_all_iff
      split: artifact_field.splits)

lemma fresh_receipt_parse:
  assumes "parse_transition_command uuid raw = Some c"
  shows "parse_attempt_receipt uuid (fresh_receipt c deps) =
     (if uuid (dep_nextId deps) then Some (fresh_receipt c deps) else None)"
  using assms
  by (auto simp: parse_attempt_receipt_def parse_simps fresh_receipt_def
      dest: parse_identifier_idem split: option.splits)

lemma next_attempt_parse:
  assumes "parse_transition_command uuid raw = Some c" and "uuid (dep_nextId deps)"
  shows "parse_attempt uuid (next_attempt (cmd_attempt c) t now (merged_artifacts c) (fresh_receipt c deps))
    = Some (next_attempt (cmd_attempt c) t now (merged_artifacts c) (fresh_receipt c deps))"
proof -
  from assms(1) obtain a where "parse_attempt uuid a = Some (cmd_attempt c)"
    by (auto simp: parse_transition_command_Some)
  then have "parse_attempt uuid (cmd_attempt c) = Some (cmd_attempt c)"
    by (rule parse_attempt_idem)
  then show ?thesis
    using fresh_receipt_parse [OF assms(1), of deps] merged_artifacts_parse [OF assms(1)] assms(2)
    by (simp add: parse_attempt_fixed next_attempt_def)
qed

text \<open>
  The operation in closed form: a parsed command is replayed, or refused as a conflict, or
  succeeds exactly when it is permitted and the id generator returns a UUID.
\<close>

lemma transition_attempt_fresh:
  assumes c: "parse_transition_command uuid raw = Some c" and new: "no_receipt_for c"
  shows "transition_attempt uuid raw deps = Inr r \<longleftrightarrow>
     transition_permitted c (dep_now deps) (command_max_age deps) \<and> uuid (dep_nextId deps)
     \<and> r = \<lparr>res_attempt = next_attempt (cmd_attempt c) (cmd_targetStatus c) (dep_now deps)
                            (merged_artifacts c) (fresh_receipt c deps),
            res_receipt = fresh_receipt c deps, res_replayed = False\<rparr>"
proof -
  have f: "find_idempotent_replay c = Inr None"
    using new by (simp add: guard_simps)
  have g: "transition_permitted c (dep_now deps) (command_max_age deps) \<longleftrightarrow>
      transition_guards c (dep_now deps) = Inr ()
      \<and> assert_authorization (cmd_attempt c) (cmd_targetStatus c) (cmd_actor c) (dep_now deps)
           (command_max_age deps) = Inr ()
      \<and> assert_artifacts (cmd_targetStatus c) (merged_artifacts c) = Inr ()"
    by (simp only: guard_simps transition_permitted_def Let_def conj_assoc)
  have "transition_attempt uuid raw deps =
    bind_result (transition_guards c (dep_now deps)) (\<lambda>_.
    bind_result (assert_authorization (cmd_attempt c) (cmd_targetStatus c) (cmd_actor c)
       (dep_now deps) (command_max_age deps)) (\<lambda>_.
    bind_result (assert_artifacts (cmd_targetStatus c) (merged_artifacts c)) (\<lambda>_.
      if uuid (dep_nextId deps)
      then Inr \<lparr>res_attempt = next_attempt (cmd_attempt c) (cmd_targetStatus c) (dep_now deps)
                            (merged_artifacts c) (fresh_receipt c deps),
               res_receipt = fresh_receipt c deps, res_replayed = False\<rparr>
      else Inl AttemptSchemaError)))"
    unfolding transition_attempt_def command_max_age_def
    using c f merged_artifacts_parse [OF c] fresh_receipt_parse [OF c, of deps]
      next_attempt_parse [OF c, of deps]
    by (simp add: Let_def merged_artifacts_def fresh_receipt_def cong: option.case_cong if_cong)
  then show ?thesis
    unfolding g by (auto simp: result_simps split: if_splits)
qed

lemma transition_attempt_cases:
  assumes "transition_attempt uuid raw deps = Inr r"
  obtains (replay) c where "parse_transition_command uuid raw = Some c"
      and "find_idempotent_replay c = Inr (Some (res_receipt r))"
      and "res_attempt r = cmd_attempt c" and "res_replayed r"
    | (fresh) c where "parse_transition_command uuid raw = Some c" and "no_receipt_for c"
      and "transition_permitted c (dep_now deps) (command_max_age deps)"
      and "res_receipt r = fresh_receipt c deps" and "\<not> res_replayed r"
      and "res_attempt r = next_attempt (cmd_attempt c) (cmd_targetStatus c) (dep_now deps)
             (merged_artifacts c) (fresh_receipt c deps)"
      and "parse_attempt uuid (res_attempt r) = Some (res_attempt r)"
proof -
  from assms obtain c where c: "parse_transition_command uuid raw = Some c"
    by (auto simp: transition_attempt_def split: option.splits)
  show ?thesis
  proof (cases "no_receipt_for c")
    case True
    then show ?thesis
      using assms transition_attempt_fresh [OF c True, of deps r] next_attempt_parse [OF c]
        fresh [OF c True] by auto
  next
    case False
    then obtain x where "find_idempotent_replay c = Inr (Some x)"
      using assms c find_idempotent_replay_None [of c]
      by (cases "find_idempotent_replay c") (auto simp: transition_attempt_def result_simps)
    then show ?thesis
      using assms c replay [OF c] by (auto simp: transition_attempt_def)
  qed
qed

section \<open>The life cycle as a transition system\<close>

text \<open>
  A step is one successful call of \<open>transition_attempt\<close> on the current attempt, with any
  command, clock, id and freshness limit; the start states are what \<open>create_attempt\<close>
  returns. The parameter is zod's UUID grammar.
\<close>

definition attempt_created :: "(string \<Rightarrow> bool) \<Rightarrow> attempt \<Rightarrow> bool" where
  "attempt_created uuid a \<longleftrightarrow> (\<exists>i deps. create_attempt uuid i deps = Inr a)"

inductive attempt_step :: "(string \<Rightarrow> bool) \<Rightarrow> attempt \<Rightarrow> attempt \<Rightarrow> bool"
  for uuid :: "string \<Rightarrow> bool" where
  transition: "transition_attempt uuid c deps = Inr r \<Longrightarrow> cmd_attempt c = a \<Longrightarrow>
     attempt_step uuid a (res_attempt r)"

inductive_cases attempt_stepE: "attempt_step uuid a b"

fun receipt_path :: "attempt_status \<Rightarrow> attempt_receipt list \<Rightarrow> attempt_status \<Rightarrow> bool" where
  "receipt_path s [] t \<longleftrightarrow> s = t"
| "receipt_path s (r # rs) t \<longleftrightarrow>
     rc_from r = s \<and> can_transition_attempt s (rc_to r) \<and> receipt_path (rc_to r) rs t"

definition receipt_bound :: "attempt \<Rightarrow> attempt_receipt \<Rightarrow> bool" where
  "receipt_bound a r \<longleftrightarrow>
     rc_attemptId r = att_id a \<and> rc_expectedHeadSha r = att_headSha a
     \<and> (rc_currentHeadSha r = att_headSha a \<longleftrightarrow> rc_to r \<noteq> Invalidated)
     \<and> rc_actorRole r \<in> set (fst (transition_authorization (rc_to r)))
     \<and> (rc_actorRole r = Author \<longrightarrow> rc_actorId r = att_authorId a)"

definition attempt_inv :: "(string \<Rightarrow> bool) \<Rightarrow> attempt \<Rightarrow> bool" where
  "attempt_inv uuid a \<longleftrightarrow>
     parse_attempt uuid a = Some a
     \<and> receipt_path Preparing (att_transitionReceipts a) (att_status a)
     \<and> distinct (map rc_idempotencyKey (att_transitionReceipts a))
     \<and> (\<forall>r\<in>set (att_transitionReceipts a). receipt_bound a r)
     \<and> (att_startedAt a \<noteq> None \<longleftrightarrow> Active \<in> rc_to ` set (att_transitionReceipts a))
     \<and> (att_completedAt a \<noteq> None \<longleftrightarrow> is_terminal_attempt_status (att_status a))
     \<and> (att_invalidatedAt a \<noteq> None \<longleftrightarrow> att_status a = Invalidated)"

lemma receipt_path_snoc:
  "receipt_path s (rs @ [r]) t \<longleftrightarrow>
     receipt_path s rs (rc_from r) \<and> can_transition_attempt (rc_from r) (rc_to r) \<and> rc_to r = t"
  by (induction rs arbitrary: s) auto

lemma create_attempt_inv:
  assumes "create_attempt uuid i deps = Inr a" shows "attempt_inv uuid a"
  using assms
  by (auto simp: create_attempt_def Let_def attempt_inv_def parse_simps status_defs
      split: option.splits if_splits)

lemma next_attempt_simps [simp]:
  "att_id (next_attempt a t now refs r) = att_id a"
  "att_headSha (next_attempt a t now refs r) = att_headSha a"
  "att_authorId (next_attempt a t now refs r) = att_authorId a"
  "att_status (next_attempt a t now refs r) = t"
  "att_artifacts (next_attempt a t now refs r) = refs"
  "att_transitionReceipts (next_attempt a t now refs r) = att_transitionReceipts a @ [r]"
  by (simp_all add: next_attempt_def)

lemma fresh_transition_inv:
  assumes inv: "attempt_inv uuid (cmd_attempt c)"
    and new: "no_receipt_for c"
    and ok: "transition_permitted c (dep_now deps) m"
    and fix_next: "parse_attempt uuid b = Some b"
    and b: "b = next_attempt (cmd_attempt c) (cmd_targetStatus c) (dep_now deps) refs
                  (fresh_receipt c deps)"
  shows "attempt_inv uuid b"
proof -
  let ?a = "cmd_attempt c"
  have can: "can_transition_attempt (att_status ?a) (cmd_targetStatus c)"
    using ok by (simp add: transition_permitted_def Let_def)
  then have not_term: "\<not> is_terminal_attempt_status (att_status ?a)"
    by (rule can_transition_not_terminal)
  have bound: "receipt_bound b (fresh_receipt c deps)"
    using ok by (simp add: b receipt_bound_def fresh_receipt_def transition_permitted_def Let_def)
  have old: "\<And>r. receipt_bound ?a r \<Longrightarrow> receipt_bound b r"
    by (simp add: b receipt_bound_def)
  have path: "receipt_path Preparing (att_transitionReceipts b) (att_status b)"
    using inv can by (simp add: b attempt_inv_def receipt_path_snoc fresh_receipt_def)
  have keys: "distinct (map rc_idempotencyKey (att_transitionReceipts b))"
    using inv new by (simp add: b attempt_inv_def no_receipt_for_def fresh_receipt_def)
  have times: "(att_startedAt b \<noteq> None \<longleftrightarrow> Active \<in> rc_to ` set (att_transitionReceipts b))
     \<and> (att_completedAt b \<noteq> None \<longleftrightarrow> is_terminal_attempt_status (att_status b))
     \<and> (att_invalidatedAt b \<noteq> None \<longleftrightarrow> att_status b = Invalidated)"
    using inv not_term
    by (auto simp: b attempt_inv_def next_attempt_def fresh_receipt_def status_defs)
  show ?thesis
    using inv bound old path keys times fix_next
    by (auto simp: attempt_inv_def b)
qed

lemma attempt_step_inv:
  assumes inv: "attempt_inv uuid a" and step: "attempt_step uuid a b"
  shows "attempt_inv uuid b"
  using step
proof (rule attempt_stepE)
  fix c deps r
  assume b: "b = res_attempt r" and t: "transition_attempt uuid c deps = Inr r"
    and a: "cmd_attempt c = a"
  have same: "parse_transition_command uuid c = Some d \<Longrightarrow> cmd_attempt d = a" for d
    using inv by (auto simp: a attempt_inv_def parse_transition_command_Some)
  show "attempt_inv uuid b"
    using t
  proof (cases rule: transition_attempt_cases)
    case (replay d)
    then show ?thesis using inv same by (simp add: b)
  next
    case (fresh d)
    then show ?thesis
      using fresh_transition_inv [OF _ fresh(2) fresh(3) _ fresh(6)] inv same b by auto
  qed
qed

interpretation attempt_life:
  invariant_system "attempt_created uuid" "attempt_step uuid" "attempt_inv uuid" for uuid
  by unfold_locales (auto simp: attempt_created_def intro: create_attempt_inv attempt_step_inv)

text \<open>A run of several commands, each applied to the attempt the one before returned.\<close>

definition run_commands ::
  "(string \<Rightarrow> bool) \<Rightarrow> attempt \<Rightarrow> (transition_command \<times> dependencies) list
     \<Rightarrow> attempt_error + attempt" where
  "run_commands uuid = fold_result (\<lambda>a (c, deps).
     case transition_attempt uuid (c\<lparr>cmd_attempt := a\<rparr>) deps of
       Inl e \<Rightarrow> Inl e | Inr r \<Rightarrow> Inr (res_attempt r))"

lemma run_commands_steps:
  "run_commands uuid a cs = Inr b \<Longrightarrow> (attempt_step uuid)\<^sup>*\<^sup>* a b"
proof (induction cs arbitrary: a)
  case (Cons x cs)
  obtain c deps where x: "x = (c, deps)" by (cases x)
  from Cons.prems obtain r where "transition_attempt uuid (c\<lparr>cmd_attempt := a\<rparr>) deps = Inr r"
    and "run_commands uuid (res_attempt r) cs = Inr b"
    by (auto simp: run_commands_def result_simps x split: sum.splits)
  then have "attempt_step uuid a (res_attempt r)" and "(attempt_step uuid)\<^sup>*\<^sup>* (res_attempt r) b"
    by (auto intro: attempt_step.transition Cons.IH)
  then show ?case by (rule converse_rtranclp_into_rtranclp)
qed (simp add: run_commands_def)

section \<open>Facts about reachable attempts\<close>

lemma receipt_path_terminal:
  "receipt_path s rs t \<Longrightarrow> is_terminal_attempt_status s \<Longrightarrow> rs = [] \<and> s = t"
  by (cases rs) (auto dest: can_transition_not_terminal)

lemma receipt_path_passed:
  "receipt_path s rs Passed \<Longrightarrow> status_rank s \<le> 6 \<Longrightarrow>
     map rc_to rs = drop (status_rank s) [Ready, Active, Uploading, Processing, ReviewRequired, Passed]"
proof (induction rs arbitrary: s)
  case Nil
  then show ?case by simp
next
  case (Cons r rs)
  have can: "can_transition_attempt s (rc_to r)" and path: "receipt_path (rc_to r) rs Passed"
    using Cons.prems by auto
  have "rc_to r = Passed \<and> rs = [] \<or> \<not> is_terminal_attempt_status (rc_to r)"
    using receipt_path_terminal [OF path] by auto
  then show ?case
    using can Cons.IH [OF path] Cons.prems(2)
    by (cases s) (auto simp: can_transition_attempt_def status_defs)
qed

lemma receipt_path_length: "receipt_path s rs t \<Longrightarrow> length rs + min 6 (status_rank s) \<le> 6"
proof (induction rs arbitrary: s)
  case (Cons r rs)
  then have "length rs + min 6 (status_rank (rc_to r)) \<le> 6"
    and "can_transition_attempt s (rc_to r)" by auto
  then show ?case by (cases s) (auto simp: can_transition_attempt_def)
qed simp

lemma receipt_path_sorted: "receipt_path s rs t \<Longrightarrow> sorted_wrt (<) (s # map rc_to rs)"
proof (induction rs arbitrary: s)
  case (Cons r rs)
  then have "s < rc_to r" and "sorted_wrt (<) (rc_to r # map rc_to rs)"
    by (auto intro: can_transition_increases)
  then show ?case by auto
qed simp

lemma attempt_step_cases:
  assumes inv: "attempt_inv uuid a" and step: "attempt_step uuid a b"
  obtains (unchanged) "b = a"
    | (moved) c deps m refs where "cmd_attempt c = a" and "no_receipt_for c"
      and "transition_permitted c (dep_now deps) m"
      and "b = next_attempt a (cmd_targetStatus c) (dep_now deps) refs (fresh_receipt c deps)"
  using step
proof (rule attempt_stepE)
  fix c deps r
  assume b: "b = res_attempt r" and t: "transition_attempt uuid c deps = Inr r"
    and a: "cmd_attempt c = a"
  have same: "parse_transition_command uuid c = Some d \<Longrightarrow> cmd_attempt d = a" for d
    using inv by (auto simp: a attempt_inv_def parse_transition_command_Some)
  show thesis
    using t
  proof (cases rule: transition_attempt_cases)
    case (replay d)
    then show ?thesis using same unchanged b by auto
  next
    case (fresh d)
    then show ?thesis using same moved b by metis
  qed
qed

end
