(* ===== verification/Attempt_Life.thy ===== *)
theory Attempt_Life
  imports Attempt
begin

text \<open>
  Properties of the attempt life cycle that \<open>Attempt\<close> models, each with a concrete
  instance of its hypotheses taken from one worked run.
\<close>

section \<open>A worked life cycle\<close>

text \<open>
  One pull-request attempt from creation to \<open>passed\<close>, used to evaluate the properties at
  a concrete input. The UUID grammar is instantiated by the length test.
\<close>

definition demo_uuid :: "string \<Rightarrow> bool" where
  "demo_uuid s \<longleftrightarrow> length s = 36"

definition demo_id :: "char \<Rightarrow> string" where
  "demo_id c = replicate 36 c"

definition demo_sha :: string where
  "demo_sha = replicate 40 (CHR ''0'')"

definition demo_deps :: "char \<Rightarrow> dependencies" where
  "demo_deps c = \<lparr>dep_now = 1000, dep_nextId = demo_id c, dep_maxAuthorizationAgeMs = None\<rparr>"

definition demo_input :: create_attempt_input where
  "demo_input = \<lparr>ca_repositoryId = demo_id (CHR ''1''), ca_revisionId = demo_id (CHR ''2''),
     ca_proofPlanId = demo_id (CHR ''3''), ca_authorId = ''octocat'', ca_headSha = demo_sha,
     ca_expiresAt = 5000\<rparr>"

definition demo_attempt :: attempt where
  "demo_attempt = \<lparr>att_id = demo_id (CHR ''0''), att_repositoryId = demo_id (CHR ''1''),
     att_revisionId = demo_id (CHR ''2''), att_proofPlanId = demo_id (CHR ''3''),
     att_authorId = ''octocat'', att_headSha = demo_sha, att_status = Preparing,
     att_expiresAt = 5000, att_createdAt = 1000, att_updatedAt = 1000, att_startedAt = None,
     att_completedAt = None, att_invalidatedAt = None, att_artifacts = (\<lambda>_. Absent),
     att_transitionReceipts = []\<rparr>"

definition demo_actor :: "actor_role \<Rightarrow> string \<Rightarrow> authorization_scope \<Rightarrow> authorized_actor" where
  "demo_actor role name scope = \<lparr>act_actorId = name, act_role = role,
     act_authorization = \<lparr>auth_authorized = True, auth_repositoryId = demo_id (CHR ''1''),
       auth_scopes = [scope], auth_checkedAt = 900, auth_expiresAt = 2000\<rparr>\<rparr>"

definition demo_command ::
  "attempt_status \<Rightarrow> attempt_status \<Rightarrow> authorized_actor \<Rightarrow> string \<Rightarrow> transition_command" where
  "demo_command from_st to_st actor key = \<lparr>cmd_attempt = demo_attempt,
     cmd_expectedStatus = from_st, cmd_targetStatus = to_st, cmd_expectedHeadSha = demo_sha,
     cmd_currentHeadSha = demo_sha, cmd_actor = actor,
     cmd_artifacts = (\<lambda>k. if k \<in> set (required_artifacts to_st)
                          then Present (demo_id (CHR ''5'')) else Absent),
     cmd_idempotencyKey = key\<rparr>"

definition demo_run :: "(transition_command \<times> dependencies) list" where
  "demo_run =
    [(demo_command Preparing Ready (demo_actor Worker ''worker'' AttemptPrepare) ''AAAAAAAA'',
        demo_deps (CHR ''a'')),
     (demo_command Ready Active (demo_actor Author ''octocat'' AttemptStart) ''AAAAAAAB'',
        demo_deps (CHR ''b'')),
     (demo_command Active Uploading (demo_actor Author ''octocat'' AttemptUpload) ''AAAAAAAC'',
        demo_deps (CHR ''c'')),
     (demo_command Uploading Processing (demo_actor Worker ''worker'' AttemptProcess) ''AAAAAAAD'',
        demo_deps (CHR ''d'')),
     (demo_command Processing ReviewRequired
        (demo_actor System ''worker'' AttemptRequestReview) ''AAAAAAAE'', demo_deps (CHR ''e'')),
     (demo_command ReviewRequired Passed
        (demo_actor Maintainer ''boss'' AttemptDecide) ''AAAAAAAF'', demo_deps (CHR ''f''))]"

definition demo_passed :: attempt where
  "demo_passed = (case run_commands demo_uuid demo_attempt demo_run of
     Inr a \<Rightarrow> a | Inl _ \<Rightarrow> demo_attempt)"

lemma demo_created: "create_attempt demo_uuid demo_input (demo_deps (CHR ''0'')) = Inr demo_attempt"
  by code_simp

lemma demo_attempt_created: "attempt_created demo_uuid demo_attempt"
  using demo_created by (auto simp: attempt_created_def)

lemma demo_run_passes: "run_commands demo_uuid demo_attempt demo_run = Inr demo_passed"
  by code_simp

lemma demo_passed_reachable: "(attempt_step demo_uuid)\<^sup>*\<^sup>* demo_attempt demo_passed"
  using demo_run_passes by (rule run_commands_steps)

lemma demo_passed_status: "att_status demo_passed = Passed"
  by code_simp

text \<open>The maintainer's decision, sent a second time with the attempt it produced.\<close>

definition demo_decision :: transition_command where
  "demo_decision = (demo_command ReviewRequired Passed
     (demo_actor Maintainer ''boss'' AttemptDecide) ''AAAAAAAF'')\<lparr>cmd_attempt := demo_passed\<rparr>"

definition demo_replay :: transition_result where
  "demo_replay = (case transition_attempt demo_uuid demo_decision (demo_deps (CHR ''z'')) of
     Inr r \<Rightarrow> r | Inl _ \<Rightarrow> undefined)"

lemma demo_replayed:
  "transition_attempt demo_uuid demo_decision (demo_deps (CHR ''z'')) = Inr demo_replay"
  by code_simp

section \<open>Properties\<close>

text \<open>C1: An attempt that was created and then only changed by successful calls of
  transitionAttempt can be Passed only after the complete sequence Ready, Active, Uploading,
  Processing, ReviewRequired, Passed; its author alone started and uploaded, a maintainer
  alone decided, and every step was bound to the attempt's own head SHA.\<close>

theorem passed_only_after_full_review:
  assumes "attempt_created uuid a" and "(attempt_step uuid)\<^sup>*\<^sup>* a b" and "att_status b = Passed"
  shows "map rc_to (att_transitionReceipts b)
           = [Ready, Active, Uploading, Processing, ReviewRequired, Passed]
     \<and> (\<forall>r\<in>set (att_transitionReceipts b).
          rc_attemptId r = att_id b \<and> rc_expectedHeadSha r = att_headSha b
          \<and> rc_currentHeadSha r = att_headSha b
          \<and> (rc_to r \<in> {Active, Uploading} \<longrightarrow>
               rc_actorRole r = Author \<and> rc_actorId r = att_authorId b)
          \<and> (rc_to r = Passed \<longrightarrow> rc_actorRole r = Maintainer))"
proof -
  have inv: "attempt_inv uuid b"
    using assms(1,2) by (rule attempt_life.inv_reachable)
  then have path: "map rc_to (att_transitionReceipts b)
      = [Ready, Active, Uploading, Processing, ReviewRequired, Passed]"
    using receipt_path_passed [of Preparing "att_transitionReceipts b"] assms(3)
    by (simp add: attempt_inv_def)
  have "rc_to r \<noteq> Invalidated" if "r \<in> set (att_transitionReceipts b)" for r
  proof -
    have "rc_to r \<in> set (map rc_to (att_transitionReceipts b))" using that by simp
    then show ?thesis unfolding path by auto
  qed
  then show ?thesis
    using inv path by (auto simp: attempt_inv_def receipt_bound_def)
qed

theorem passed_only_after_full_review_witness:
  "att_status demo_passed = Passed \<and> map rc_to (att_transitionReceipts demo_passed)
     = [Ready, Active, Uploading, Processing, ReviewRequired, Passed]"
  using passed_only_after_full_review
    [OF demo_attempt_created demo_passed_reachable demo_passed_status] demo_passed_status
  by blast

text \<open>A terminal attempt is final: no sequence of successful transition calls, with any
  commands, clocks and actors, changes any field of it.\<close>

theorem terminal_attempt_is_final:
  assumes "attempt_created uuid a" and "(attempt_step uuid)\<^sup>*\<^sup>* a b"
    and "is_terminal_attempt_status (att_status b)" and "(attempt_step uuid)\<^sup>*\<^sup>* b c"
  shows "c = b"
  using assms(4)
proof (induction rule: rtranclp_induct)
  case (step c d)
  have "attempt_inv uuid c"
    using attempt_life.inv_reachable [OF assms(1)] assms(2) step by simp
  then show ?case
    using step(2)
  proof (cases rule: attempt_step_cases)
    case (moved e deps m refs)
    then have "can_transition_attempt (att_status b) (cmd_targetStatus e)"
      using step by (simp add: transition_permitted_def Let_def)
    then show ?thesis
      using can_transition_not_terminal assms(3) by blast
  qed (use step in simp)
qed simp

theorem terminal_attempt_is_final_witness:
  "is_terminal_attempt_status (att_status demo_passed)
     \<and> (attempt_step demo_uuid)\<^sup>*\<^sup>* demo_passed (res_attempt demo_replay)
     \<and> res_attempt demo_replay = demo_passed"
proof -
  have t: "is_terminal_attempt_status (att_status demo_passed)"
    by (simp add: demo_passed_status status_defs)
  have r: "(attempt_step demo_uuid)\<^sup>*\<^sup>* demo_passed (res_attempt demo_replay)"
    using demo_replayed
    by (auto intro!: r_into_rtranclp attempt_step.transition simp: demo_decision_def)
  show ?thesis
    using terminal_attempt_is_final
      [OF demo_attempt_created demo_passed_reachable t r] t r by blast
qed

text \<open>C2: Retrying a transition is idempotent: the command of any successful call, sent again
  with the attempt that call returned, returns the same attempt and the same receipt as a
  replay, whatever the clock and the id generator say by then.\<close>

theorem transition_retry_is_replayed:
  assumes "transition_attempt uuid c deps = Inr r"
  shows "transition_attempt uuid (c\<lparr>cmd_attempt := res_attempt r\<rparr>) deps'
     = Inr \<lparr>res_attempt = res_attempt r, res_receipt = res_receipt r, res_replayed = True\<rparr>"
  using assms
proof (cases rule: transition_attempt_cases)
  case (replay d)
  then have "parse_transition_command uuid (c\<lparr>cmd_attempt := res_attempt r\<rparr>) = Some d"
    by (auto simp: parse_transition_command_Some dest: parse_attempt_idem)
  with replay show ?thesis by (simp add: transition_attempt_def)
next
  case (fresh d)
  have parsed: "parse_transition_command uuid (c\<lparr>cmd_attempt := res_attempt r\<rparr>)
      = Some (d\<lparr>cmd_attempt := res_attempt r\<rparr>)"
    using fresh(1,7) by (auto simp: parse_transition_command_Some)
  have "find (\<lambda>x. rc_idempotencyKey x = cmd_idempotencyKey d)
          (att_transitionReceipts (cmd_attempt d) @ [fresh_receipt d deps])
        = Some (fresh_receipt d deps)"
    using fresh(2)
    by (intro find_append_last) (auto simp: no_receipt_for_def fresh_receipt_def image_iff)
  moreover have "receipt_matches_command (fresh_receipt d deps) (d\<lparr>cmd_attempt := res_attempt r\<rparr>)"
    using fresh(3,6)
    by (simp add: receipt_matches_command_def fresh_receipt_def transition_permitted_def Let_def)
  ultimately have "find_idempotent_replay (d\<lparr>cmd_attempt := res_attempt r\<rparr>)
      = Inr (Some (res_receipt r))"
    using fresh(4,6) by (simp add: find_idempotent_replay_def)
  with parsed show ?thesis by (simp add: transition_attempt_def)
qed

theorem transition_retry_is_replayed_witness:
  "transition_attempt demo_uuid (demo_decision\<lparr>cmd_attempt := res_attempt demo_replay\<rparr>)
     (demo_deps (CHR ''y''))
   = Inr \<lparr>res_attempt = res_attempt demo_replay, res_receipt = res_receipt demo_replay,
          res_replayed = True\<rparr>"
  by (rule transition_retry_is_replayed [OF demo_replayed])

text \<open>C3: A parsed command whose idempotency key is new succeeds exactly when the transition is
  allowed from the attempt's status, the command is bound to that status and to the head SHA,
  the pull request still points to it (or no longer does, for an invalidation), the attempt
  has not expired (or has, for an expiration), the actor holds a fresh authorization for this
  repository with the role and scope of the target, and every required artifact is there; it
  then returns the next attempt with exactly one new receipt.\<close>

theorem transition_succeeds_iff_permitted:
  assumes "parse_transition_command uuid raw = Some c" and "no_receipt_for c"
    and "uuid (dep_nextId deps)"
  shows "(transition_attempt uuid raw deps =
            Inr \<lparr>res_attempt = next_attempt (cmd_attempt c) (cmd_targetStatus c) (dep_now deps)
                    (merged_artifacts c) (fresh_receipt c deps),
                 res_receipt = fresh_receipt c deps, res_replayed = False\<rparr>
          \<longleftrightarrow> transition_permitted c (dep_now deps) (command_max_age deps))
     \<and> ((\<exists>r. transition_attempt uuid raw deps = Inr r)
          \<longleftrightarrow> transition_permitted c (dep_now deps) (command_max_age deps))"
  using transition_attempt_fresh [OF assms(1,2), of deps] assms(3) by blast

theorem transition_succeeds_iff_permitted_witness:
  "transition_permitted (demo_command Preparing Ready
       (demo_actor Worker ''worker'' AttemptPrepare) ''AAAAAAAA'') 1000 300000
   \<and> (\<exists>r. transition_attempt demo_uuid (demo_command Preparing Ready
       (demo_actor Worker ''worker'' AttemptPrepare) ''AAAAAAAA'') (demo_deps (CHR ''a'')) = Inr r)"
proof -
  let ?c = "demo_command Preparing Ready (demo_actor Worker ''worker'' AttemptPrepare) ''AAAAAAAA''"
  have p: "parse_transition_command demo_uuid ?c = Some ?c" by code_simp
  have n: "no_receipt_for ?c" by code_simp
  have i: "demo_uuid (dep_nextId (demo_deps (CHR ''a'')))" by code_simp
  have ok: "transition_permitted ?c (dep_now (demo_deps (CHR ''a'')))
      (command_max_age (demo_deps (CHR ''a'')))" by code_simp
  show ?thesis
    using transition_succeeds_iff_permitted [OF p n i] ok
    by (simp add: demo_deps_def command_max_age_def five_minutes_ms_def)
qed

text \<open>C4: Every life cycle is short and never goes back: the statuses an attempt goes through
  strictly increase in the order of the status enum, so it has at most six transitions; its
  idempotency keys are pairwise distinct; it is completed exactly in the terminal statuses
  and marked invalidated exactly when Invalidated.\<close>

theorem lifecycle_is_bounded:
  assumes "attempt_created uuid a" and "(attempt_step uuid)\<^sup>*\<^sup>* a b"
  shows "sorted_wrt (<) (Preparing # map rc_to (att_transitionReceipts b))
     \<and> length (att_transitionReceipts b) \<le> 6
     \<and> distinct (map rc_idempotencyKey (att_transitionReceipts b))
     \<and> (att_completedAt b \<noteq> None \<longleftrightarrow> is_terminal_attempt_status (att_status b))
     \<and> (att_invalidatedAt b \<noteq> None \<longleftrightarrow> att_status b = Invalidated)"
  using attempt_life.inv_reachable [OF assms] receipt_path_sorted receipt_path_length
  by (fastforce simp: attempt_inv_def)

theorem lifecycle_is_bounded_witness:
  "length (att_transitionReceipts demo_passed) \<le> 6
     \<and> sorted_wrt (<) (Preparing # map rc_to (att_transitionReceipts demo_passed))"
  using lifecycle_is_bounded [OF demo_attempt_created demo_passed_reachable] by blast

text \<open>C5: The audit trail only grows and the identity of an attempt is immutable: whatever
  transitions succeed, the receipts it had stay a prefix of its receipts, and its id,
  repository, revision, proof plan, author, head SHA, expiry and creation time stay the same.\<close>

theorem audit_trail_append_only:
  assumes "attempt_created uuid a" and "(attempt_step uuid)\<^sup>*\<^sup>* a b" and "(attempt_step uuid)\<^sup>*\<^sup>* b c"
  shows "(\<exists>rs. att_transitionReceipts c = att_transitionReceipts b @ rs)
     \<and> att_id c = att_id b \<and> att_repositoryId c = att_repositoryId b
     \<and> att_revisionId c = att_revisionId b \<and> att_proofPlanId c = att_proofPlanId b
     \<and> att_authorId c = att_authorId b \<and> att_headSha c = att_headSha b
     \<and> att_expiresAt c = att_expiresAt b \<and> att_createdAt c = att_createdAt b"
  using assms(3)
proof (induction rule: rtranclp_induct)
  case (step c d)
  have "attempt_inv uuid c"
    using attempt_life.inv_reachable [OF assms(1)] assms(2) step(1) by (meson rtranclp_trans)
  then show ?case
    using step(2)
    by (cases rule: attempt_step_cases) (use step(3) in \<open>auto simp: next_attempt_def\<close>)
qed simp

theorem audit_trail_append_only_witness:
  "\<exists>rs. att_transitionReceipts demo_passed = att_transitionReceipts demo_attempt @ rs"
  using audit_trail_append_only
    [OF demo_attempt_created rtranclp.rtrancl_refl demo_passed_reachable] by blast

end
