(* ===== verification/Policy.thy ===== *)
theory Policy
  imports Attempt
begin

text \<open>
  Repository policy (\<open>packages/policy/src/index.ts\<close>): the recording limits and the evidence
  retention a repository may set, and the routing of a provider evaluation to a human.
  A \<open>Date\<close> is a \<open>js_date\<close>: \<open>None\<close> is an invalid date, which the constructor returns for a
  time value outside the range ECMAScript allows.
\<close>

section \<open>Data\<close>

type_synonym js_date = "millis option"

definition max_time_value :: int where
  "max_time_value = 8640000000000000"

definition js_new_date :: "int \<Rightarrow> js_date" where
  "js_new_date t = (if \<bar>t\<bar> \<le> max_time_value then Some t else None)"

record proof_policy =
  pp_minimumQuestions :: int
  pp_maximumQuestions :: int
  pp_maximumDurationSeconds :: int
  pp_maximumUploadBytes :: int

record evidence_policy =
  ep_retentionHours :: int
  ep_deleteAfterMaintainerPass :: bool

record repository_policy =
  pol_schemaVersion :: string
  pol_decisionMode :: string
  pol_proof :: proof_policy
  pol_evidence :: evidence_policy

record recording_protocol_limits =
  rl_maximumDurationMs :: int
  rl_maximumUploadBytes :: int

record effective_recording_limits = recording_protocol_limits +
  rl_retentionHours :: int
  rl_deleteAfterMaintainerPass :: bool

datatype provider_recommendation = Recommend_pass | Recommend_review | Recommend_retry

record apply_policy_input =
  ap_attemptId :: string
  ap_revisionId :: string
  ap_evaluationId :: string
  ap_expectedHeadSha :: string
  ap_currentHeadSha :: string
  ap_recommendation :: provider_recommendation
  ap_evaluatedQuestionIds :: "string list"

datatype check_mutation = NoCheckMutation

record policy_decision =
  pd_schemaVersion :: string
  pd_kind :: string
  pd_attemptStatus :: attempt_status
  pd_checkMutation :: check_mutation
  pd_attemptId :: string
  pd_revisionId :: string
  pd_evaluationId :: string
  pd_headSha :: string
  pd_providerRecommendation :: provider_recommendation

datatype policy_error =
    PolicySchemaError | ProtocolLimitsInvalid | RetentionInputsInvalid | PolicyHeadShaMismatch

section \<open>Schemas\<close>

definition repository_policy_ok :: "repository_policy \<Rightarrow> bool" where
  "repository_policy_ok p \<longleftrightarrow>
     (let q = pol_proof p; e = pol_evidence p in
      pol_schemaVersion p = ''1'' \<and> pol_decisionMode p = ''maintainer_review''
      \<and> 1 \<le> pp_minimumQuestions q \<and> pp_minimumQuestions q \<le> 5
      \<and> 1 \<le> pp_maximumQuestions q \<and> pp_maximumQuestions q \<le> 5
      \<and> 30 \<le> pp_maximumDurationSeconds q \<and> pp_maximumDurationSeconds q \<le> 30 * 60
      \<and> 1 \<le> pp_maximumUploadBytes q \<and> pp_maximumUploadBytes q \<le> 2000000000
      \<and> 1 \<le> ep_retentionHours e \<and> ep_retentionHours e \<le> 24
      \<and> \<not> pp_minimumQuestions q > pp_maximumQuestions q)"

definition apply_policy_input_ok :: "(string \<Rightarrow> bool) \<Rightarrow> apply_policy_input \<Rightarrow> bool" where
  "apply_policy_input_ok uuid i \<longleftrightarrow>
     uuid (ap_attemptId i) \<and> uuid (ap_revisionId i) \<and> uuid (ap_evaluationId i)
     \<and> git_sha_ok (ap_expectedHeadSha i) \<and> git_sha_ok (ap_currentHeadSha i)
     \<and> list_all uuid (ap_evaluatedQuestionIds i) \<and> ap_evaluatedQuestionIds i \<noteq> []
     \<and> card (set (ap_evaluatedQuestionIds i)) = length (ap_evaluatedQuestionIds i)"

definition policy_decision_ok :: "(string \<Rightarrow> bool) \<Rightarrow> policy_decision \<Rightarrow> bool" where
  "policy_decision_ok uuid d \<longleftrightarrow>
     pd_schemaVersion d = ''1'' \<and> pd_kind d = ''maintainer_review''
     \<and> pd_attemptStatus d = ReviewRequired \<and> pd_checkMutation d = NoCheckMutation
     \<and> uuid (pd_attemptId d) \<and> uuid (pd_revisionId d) \<and> uuid (pd_evaluationId d)
     \<and> git_sha_ok (pd_headSha d)"

section \<open>Operations\<close>

definition resolve_effective_recording_limits ::
  "repository_policy \<Rightarrow> recording_protocol_limits \<Rightarrow> policy_error + effective_recording_limits" where
  "resolve_effective_recording_limits p protocol =
     (if \<not> repository_policy_ok p then Inl PolicySchemaError
      else if \<not> is_safe_integer (rl_maximumDurationMs protocol)
              \<or> rl_maximumDurationMs protocol < 1
              \<or> \<not> is_safe_integer (rl_maximumUploadBytes protocol)
              \<or> rl_maximumUploadBytes protocol < 1
      then Inl ProtocolLimitsInvalid
      else Inr \<lparr>rl_maximumDurationMs =
                  min (rl_maximumDurationMs protocol)
                      (pp_maximumDurationSeconds (pol_proof p) * 1000),
                rl_maximumUploadBytes =
                  min (rl_maximumUploadBytes protocol) (pp_maximumUploadBytes (pol_proof p)),
                rl_retentionHours = ep_retentionHours (pol_evidence p),
                rl_deleteAfterMaintainerPass = ep_deleteAfterMaintainerPass (pol_evidence p)\<rparr>)"

definition calculate_evidence_delete_after :: "js_date \<Rightarrow> int \<Rightarrow> policy_error + js_date" where
  "calculate_evidence_delete_after acceptedAt retentionHours =
     (case acceptedAt of
        None \<Rightarrow> Inl RetentionInputsInvalid
      | Some t \<Rightarrow>
          if \<not> is_safe_integer retentionHours \<or> retentionHours < 1 \<or> retentionHours > 24
          then Inl RetentionInputsInvalid
          else Inr (js_new_date (t + retentionHours * 60 * 60000)))"

definition default_repository_policy :: repository_policy where
  "default_repository_policy =
     \<lparr>pol_schemaVersion = ''1'', pol_decisionMode = ''maintainer_review'',
      pol_proof = \<lparr>pp_minimumQuestions = 1, pp_maximumQuestions = 5,
                   pp_maximumDurationSeconds = 10 * 60, pp_maximumUploadBytes = 500000000\<rparr>,
      pol_evidence = \<lparr>ep_retentionHours = 24, ep_deleteAfterMaintainerPass = True\<rparr>\<rparr>"

definition apply_repository_policy ::
  "(string \<Rightarrow> bool) \<Rightarrow> repository_policy \<Rightarrow> apply_policy_input
     \<Rightarrow> policy_error + policy_decision" where
  "apply_repository_policy uuid p i =
     (if \<not> repository_policy_ok p then Inl PolicySchemaError
      else if \<not> apply_policy_input_ok uuid i then Inl PolicySchemaError
      else if ap_expectedHeadSha i \<noteq> ap_currentHeadSha i then Inl PolicyHeadShaMismatch
      else (let d = \<lparr>pd_schemaVersion = ''1'', pd_kind = ''maintainer_review'',
                     pd_attemptStatus = ReviewRequired, pd_checkMutation = NoCheckMutation,
                     pd_attemptId = ap_attemptId i, pd_revisionId = ap_revisionId i,
                     pd_evaluationId = ap_evaluationId i, pd_headSha = ap_currentHeadSha i,
                     pd_providerRecommendation = ap_recommendation i\<rparr>
            in if policy_decision_ok uuid d then Inr d else Inl PolicySchemaError))"

section \<open>Properties\<close>

lemma default_policy_ok: "repository_policy_ok default_repository_policy"
  by (simp add: repository_policy_ok_def default_repository_policy_def)

text \<open>A repository policy can only tighten the recording protocol: the effective limits
  are positive, never above the protocol's and never above the policy's own, the retention
  stays between 1 and 24 hours, and evidence accepted at t is due for deletion after t and
  at most 24 hours later.\<close>

theorem policy_only_tightens_limits:
  assumes "resolve_effective_recording_limits p protocol = Inr lim"
    and "\<bar>t\<bar> \<le> max_time_value - 24 * 3600000"
  shows "1 \<le> rl_maximumDurationMs lim
     \<and> rl_maximumDurationMs lim \<le> rl_maximumDurationMs protocol
     \<and> rl_maximumDurationMs lim \<le> 1000 * pp_maximumDurationSeconds (pol_proof p)
     \<and> 1 \<le> rl_maximumUploadBytes lim
     \<and> rl_maximumUploadBytes lim \<le> rl_maximumUploadBytes protocol
     \<and> rl_maximumUploadBytes lim \<le> pp_maximumUploadBytes (pol_proof p)
     \<and> (\<exists>due. calculate_evidence_delete_after (Some t) (rl_retentionHours lim) = Inr (Some due)
            \<and> t < due \<and> due \<le> t + 24 * 3600000)"
  using assms
  by (auto simp: resolve_effective_recording_limits_def repository_policy_ok_def Let_def
      calculate_evidence_delete_after_def js_new_date_def is_safe_integer_def
      max_safe_integer_def max_time_value_def split: if_splits)

theorem policy_only_tightens_limits_witness:
  "\<exists>lim. resolve_effective_recording_limits default_repository_policy
            \<lparr>rl_maximumDurationMs = 480000, rl_maximumUploadBytes = 134217728\<rparr> = Inr lim
     \<and> rl_maximumDurationMs lim \<le> 480000
     \<and> (\<exists>due. calculate_evidence_delete_after (Some 0) (rl_retentionHours lim) = Inr (Some due)
            \<and> 0 < due \<and> due \<le> 24 * 3600000)"
proof -
  let ?protocol = "\<lparr>rl_maximumDurationMs = 480000, rl_maximumUploadBytes = 134217728\<rparr>"
  obtain lim where lim: "resolve_effective_recording_limits default_repository_policy ?protocol = Inr lim"
    by (auto simp: resolve_effective_recording_limits_def default_policy_ok is_safe_integer_def
        max_safe_integer_def)
  then show ?thesis
    using policy_only_tightens_limits [OF lim, of 0] by (auto simp: max_time_value_def)
qed

text \<open>C6: A provider evaluation never decides anything: whatever it recommends, the policy
  either refuses the input or returns the same maintainer-review decision for the current head
  SHA, with no change to the GitHub check and an attempt status from which only a maintainer
  can reach Passed.\<close>

theorem provider_never_decides:
  assumes "apply_repository_policy uuid p i = Inr d"
  shows "pd_checkMutation d = NoCheckMutation \<and> pd_attemptStatus d = ReviewRequired
     \<and> \<not> is_terminal_attempt_status (pd_attemptStatus d)
     \<and> can_transition_attempt (pd_attemptStatus d) Passed
     \<and> fst (transition_authorization Passed) = [Maintainer]
     \<and> pd_headSha d = ap_currentHeadSha i \<and> ap_expectedHeadSha i = ap_currentHeadSha i
     \<and> distinct (ap_evaluatedQuestionIds i)
     \<and> (\<forall>rec. apply_repository_policy uuid p (i\<lparr>ap_recommendation := rec\<rparr>)
              = Inr (d\<lparr>pd_providerRecommendation := rec\<rparr>))"
  using assms
  by (auto simp: apply_repository_policy_def apply_policy_input_ok_def policy_decision_ok_def
      Let_def status_defs card_distinct split: if_splits)

definition demo_policy_input :: apply_policy_input where
  "demo_policy_input =
     \<lparr>ap_attemptId = ''a'', ap_revisionId = ''b'', ap_evaluationId = ''c'',
      ap_expectedHeadSha = replicate 40 (CHR ''0''), ap_currentHeadSha = replicate 40 (CHR ''0''),
      ap_recommendation = Recommend_pass, ap_evaluatedQuestionIds = [''q'']\<rparr>"

theorem provider_never_decides_witness:
  "\<exists>d. apply_repository_policy (\<lambda>s. s \<noteq> []) default_repository_policy demo_policy_input = Inr d
     \<and> pd_checkMutation d = NoCheckMutation \<and> pd_headSha d = replicate 40 (CHR ''0'')"
proof -
  have "\<not> isl (apply_repository_policy (\<lambda>s. s \<noteq> []) default_repository_policy demo_policy_input)"
    by code_simp
  then obtain d where d:
    "apply_repository_policy (\<lambda>s. s \<noteq> []) default_repository_policy demo_policy_input = Inr d"
    by (cases "apply_repository_policy (\<lambda>s. s \<noteq> []) default_repository_policy demo_policy_input") auto
  show ?thesis
    using d provider_never_decides [OF d] by (auto simp: demo_policy_input_def)
qed

end
