(* ===== verification/Encoding.thy ===== *)
theory Encoding
  imports Prelude
begin

text \<open>
  Byte and text encodings of the recording protocol (\<open>packages/media/src/encoding.ts\<close>,
  \<open>errors.ts\<close>): UTF-8, unpadded base64url, lower-case hex, and the comparison of two byte
  arrays that does not stop early. JavaScript's bitwise operators work on 32-bit integers,
  so the accumulators are \<open>32 word\<close>s; in particular the decoder's \<open>buffer\<close> is never masked
  and loses its oldest bits on the left. Base64url and hex are interpretations of \<open>codec\<close>.
\<close>

section \<open>Errors\<close>

datatype protocol_error_code =
    Invalid_schema | Invalid_key | Invalid_nonce | Invalid_record
  | Authentication_failed | Invalid_manifest | Limit_exceeded | Multipart_mismatch

text \<open>What the media package throws: its own error, a zod error, or whatever the platform's
  Web Crypto throws where the code does not catch it.\<close>

datatype media_error = Protocol protocol_error_code | MediaSchemaError | ProviderFailure

abbreviation throw :: "protocol_error_code \<Rightarrow> media_error + 'a" where
  "throw e \<equiv> Inl (Protocol e)"

section \<open>Definitions\<close>

definition base64url_alphabet :: string where
  "base64url_alphabet =
     ''ABCDEFGHIJKLMNOPQRSTUVWXYZabcdefghijklmnopqrstuvwxyz0123456789-_''"

definition base64url_lookup :: "char \<Rightarrow> nat option" where
  "base64url_lookup = map_of (zip base64url_alphabet [0..<64])"

definition utf8_char :: "char \<Rightarrow> bytes" where
  "utf8_char c =
     (let n = (of_char c :: nat) in
      if n < 128 then [of_nat n] else [of_nat (192 + n div 64), of_nat (128 + n mod 64)])"

definition utf8_bytes :: "string \<Rightarrow> bytes" where
  "utf8_bytes s = concat (map utf8_char s)"

definition concat_bytes :: "bytes list \<Rightarrow> bytes" where
  "concat_bytes values = concat values"

definition base64url_char :: "32 word \<Rightarrow> nat \<Rightarrow> char" where
  "base64url_char aggregate shift =
     base64url_alphabet ! unat (drop_bit shift aggregate AND 63)"

definition base64url_aggregate :: "byte \<Rightarrow> byte \<Rightarrow> byte \<Rightarrow> 32 word" where
  "base64url_aggregate x y z = push_bit 16 (ucast x) OR push_bit 8 (ucast y) OR ucast z"

fun encode_base64url :: "bytes \<Rightarrow> string" where
  "encode_base64url [] = []"
| "encode_base64url [x] =
     (let g = base64url_aggregate x 0 0 in [base64url_char g 18, base64url_char g 12])"
| "encode_base64url [x, y] =
     (let g = base64url_aggregate x y 0
      in [base64url_char g 18, base64url_char g 12, base64url_char g 6])"
| "encode_base64url (x # y # z # rest) =
     (let g = base64url_aggregate x y z
      in base64url_char g 18 # base64url_char g 12 # base64url_char g 6 # base64url_char g 0
         # encode_base64url rest)"

record base64url_state =
  b64_buffer :: "32 word"
  b64_bits :: nat
  b64_output :: bytes

definition base64url_push :: "base64url_state \<Rightarrow> 32 word \<Rightarrow> base64url_state" where
  "base64url_push s decoded =
     (let buffer = push_bit 6 (b64_buffer s) OR decoded; bits = b64_bits s + 6
      in if bits \<ge> 8
         then \<lparr>b64_buffer = buffer, b64_bits = bits - 8,
               b64_output = b64_output s @ [ucast (drop_bit (bits - 8) buffer AND 255)]\<rparr>
         else \<lparr>b64_buffer = buffer, b64_bits = bits, b64_output = b64_output s\<rparr>)"

definition base64url_step :: "base64url_state \<Rightarrow> char \<Rightarrow> media_error + base64url_state" where
  "base64url_step s c =
     (case base64url_lookup c of
        None \<Rightarrow> throw Invalid_schema
      | Some decoded \<Rightarrow> Inr (base64url_push s (of_nat decoded)))"

definition decode_base64url :: "string \<Rightarrow> media_error + bytes" where
  "decode_base64url value =
     (if length value mod 4 = 1 \<or> CHR ''='' \<in> set value
         \<or> list_ex (\<lambda>c. base64url_lookup c = None) value
      then throw Invalid_schema
      else bind_result
        (fold_result base64url_step \<lparr>b64_buffer = 0, b64_bits = 0, b64_output = []\<rparr> value)
        (\<lambda>s. if b64_bits s > 0 \<and> b64_buffer s AND (push_bit (b64_bits s) 1 - 1) \<noteq> 0
             then throw Invalid_schema
             else Inr (b64_output s)))"

text \<open>\<open>Number.prototype.toString(16)\<close> of a byte, \<open>padStart\<close>, and \<open>parseInt(_, 16)\<close> of two
  hex digits.\<close>

definition hex_digit :: "nat \<Rightarrow> char" where
  "hex_digit n = lower_hex_chars ! n"

definition to_string_16 :: "byte \<Rightarrow> string" where
  "to_string_16 b =
     (if unat b < 16 then [hex_digit (unat b)]
      else [hex_digit (unat b div 16), hex_digit (unat b mod 16)])"

definition pad_start :: "nat \<Rightarrow> char \<Rightarrow> string \<Rightarrow> string" where
  "pad_start n c s = replicate (n - length s) c @ s"

definition encode_hex :: "bytes \<Rightarrow> string" where
  "encode_hex value = concat (map (\<lambda>b. pad_start 2 (CHR ''0'') (to_string_16 b)) value)"

definition hex_value :: "char \<Rightarrow> nat" where
  "hex_value c = length (takeWhile (\<lambda>d. d \<noteq> c) lower_hex_chars)"

fun hex_pairs :: "string \<Rightarrow> bytes" where
  "hex_pairs (c # d # rest) = of_nat (16 * hex_value c + hex_value d) # hex_pairs rest"
| "hex_pairs _ = []"

definition decode_hex :: "string \<Rightarrow> media_error + bytes" where
  "decode_hex value =
     (if \<not> (even (length value) \<and> all_in lower_hex_chars value) then throw Invalid_schema
      else Inr (hex_pairs value))"

definition byte_at :: "bytes \<Rightarrow> nat \<Rightarrow> 32 word" where
  "byte_at xs i = (if i < length xs then ucast (xs ! i) else 0)"

definition bytes_equal :: "bytes \<Rightarrow> bytes \<Rightarrow> bool" where
  "bytes_equal left right \<longleftrightarrow>
     foldl (\<lambda>difference i. difference OR (byte_at left i XOR byte_at right i))
       (of_nat (length left) XOR of_nat (length right))
       [0..<max (length left) (length right)] = 0"

section \<open>The base64url alphabet\<close>

lemma base64url_alphabet_length: "length base64url_alphabet = 64"
  by (simp add: base64url_alphabet_def)

lemma base64url_alphabet_distinct: "distinct base64url_alphabet"
  by (simp add: base64url_alphabet_def)

lemma base64url_lookup_iff:
  "base64url_lookup c = Some n \<longleftrightarrow> n < 64 \<and> base64url_alphabet ! n = c"
proof -
  have "distinct (map fst (zip base64url_alphabet [0..<64]))"
    by (simp add: base64url_alphabet_length base64url_alphabet_distinct)
  then have "base64url_lookup c = Some n \<longleftrightarrow> (c, n) \<in> set (zip base64url_alphabet [0..<64])"
    unfolding base64url_lookup_def by (rule map_of_eq_Some_iff)
  then show ?thesis
    by (auto simp: in_set_zip base64url_alphabet_length)
qed

lemma base64url_lookup_char:
  "base64url_lookup (base64url_char g k) = Some (unat (drop_bit k g AND 63))"
proof -
  have "drop_bit k g AND 63 \<le> (63 :: 32 word)" by (rule word_and_le1)
  then have "unat (drop_bit k g AND 63) < 64" by (simp add: word_le_nat_alt)
  then show ?thesis by (simp add: base64url_lookup_iff base64url_char_def)
qed

lemma base64url_char_not_pad: "base64url_lookup c \<noteq> None \<Longrightarrow> c \<noteq> CHR ''=''"
  by (auto simp: base64url_lookup_def base64url_alphabet_def upt_rec)


section \<open>Base64url: groups of three bytes and four characters\<close>

text \<open>A sextet is a 32-bit word below 64: the value of one character.\<close>

definition sextet :: "char \<Rightarrow> 32 word" where
  "sextet c = of_nat (case base64url_lookup c of None \<Rightarrow> 0 | Some n \<Rightarrow> n)"

definition is_sextet :: "32 word \<Rightarrow> bool" where
  "is_sextet d \<longleftrightarrow> take_bit 6 d = d"

lemma is_sextet_bit: "is_sextet d \<Longrightarrow> 6 \<le> n \<Longrightarrow> \<not> bit d n"
  by (metis is_sextet_def bit_take_bit_iff linorder_not_less)

lemma is_sextet_bitD: "bit d n \<Longrightarrow> is_sextet d \<Longrightarrow> n < 6"
  using is_sextet_bit not_le by blast

lemma is_sextet_eqI:
  "is_sextet d \<Longrightarrow> is_sextet e \<Longrightarrow> (\<And>n. n < 6 \<Longrightarrow> bit d n = bit e n) \<Longrightarrow> d = e"
  by (rule bit_word_eqI) (metis is_sextet_bitD)

lemma bit_shift_back [simp]: "2 \<le> n \<Longrightarrow> Suc (Suc (n - 2)) = n"
  by simp

lemma byte_bit_high: "8 \<le> n \<Longrightarrow> \<not> bit (x :: byte) n"
  using bit_imp_le_length [of x n] by auto

lemma and_63_take_bit: "w AND 63 = take_bit 6 (w :: 32 word)"
  by (simp add: take_bit_eq_mask mask_eq_exp_minus_1)

lemma and_255_take_bit: "w AND 255 = take_bit 8 (w :: 32 word)"
  by (simp add: take_bit_eq_mask mask_eq_exp_minus_1)

lemmas group_simps = and_63_take_bit and_255_take_bit base64url_aggregate_def
  byte_bit_high is_sextet_bit

text \<open>The three bytes of four sextets, and the aggregate of the three bytes.\<close>

definition group_byte1 :: "32 word \<Rightarrow> 32 word \<Rightarrow> byte" where
  "group_byte1 d1 d2 = ucast (push_bit 2 d1 OR drop_bit 4 d2)"

definition group_byte2 :: "32 word \<Rightarrow> 32 word \<Rightarrow> byte" where
  "group_byte2 d2 d3 = ucast (push_bit 4 d2 OR drop_bit 2 d3)"

definition group_byte3 :: "32 word \<Rightarrow> 32 word \<Rightarrow> byte" where
  "group_byte3 d3 d4 = ucast (push_bit 6 d3 OR d4)"

lemmas group_byte_defs = group_byte1_def group_byte2_def group_byte3_def

lemma push_byte1:
  assumes "is_sextet d1" and "is_sextet d2"
  shows "(ucast (drop_bit 4 (push_bit 6 (push_bit 6 b OR d1) OR d2) AND 255) :: byte) = group_byte1 d1 d2"
  by (rule bit_word_eqI) (use assms in \<open>auto simp: group_simps group_byte_defs bit_simps\<close>)

lemma push_byte2:
  assumes "is_sextet d2" and "is_sextet d3"
  shows "(ucast (drop_bit 2 (push_bit 6 (push_bit 6 b OR d2) OR d3) AND 255) :: byte) = group_byte2 d2 d3"
  by (rule bit_word_eqI) (use assms in \<open>auto simp: group_simps group_byte_defs bit_simps\<close>)

lemma push_byte3:
  assumes "is_sextet d3" and "is_sextet d4"
  shows "(ucast ((push_bit 6 (push_bit 6 b OR d3) OR d4) AND 255) :: byte) = group_byte3 d3 d4"
  by (rule bit_word_eqI) (use assms in \<open>auto simp: group_simps group_byte_defs bit_simps\<close>)

lemma sextet_of_aggregate: "is_sextet (take_bit 6 w)"
  by (simp add: is_sextet_def)

lemma aggregate_bytes:
  "group_byte1 (take_bit 6 (drop_bit 18 (base64url_aggregate x y z)))
     (take_bit 6 (drop_bit 12 (base64url_aggregate x y z))) = x"
  "group_byte2 (take_bit 6 (drop_bit 12 (base64url_aggregate x y z)))
     (take_bit 6 (drop_bit 6 (base64url_aggregate x y z))) = y"
  "group_byte3 (take_bit 6 (drop_bit 6 (base64url_aggregate x y z)))
     (take_bit 6 (drop_bit 0 (base64url_aggregate x y z))) = z"
  by (rule bit_word_eqI; auto simp: group_simps group_byte_defs bit_simps)+

lemma aggregate_sextets:
  assumes "is_sextet d1" and "is_sextet d2" and "is_sextet d3" and "is_sextet d4"
  defines "g \<equiv> base64url_aggregate (group_byte1 d1 d2) (group_byte2 d2 d3) (group_byte3 d3 d4)"
  shows "take_bit 6 (drop_bit 18 g) = d1" and "take_bit 6 (drop_bit 12 g) = d2"
    and "take_bit 6 (drop_bit 6 g) = d3" and "take_bit 6 (drop_bit 0 g) = d4"
proof -
  show "take_bit 6 (drop_bit 18 g) = d1" unfolding g_def
    by (rule is_sextet_eqI [OF sextet_of_aggregate assms(1)])
      (use assms in \<open>simp add: group_simps group_byte_defs bit_simps\<close>)
  show "take_bit 6 (drop_bit 12 g) = d2" unfolding g_def
    by (rule is_sextet_eqI [OF sextet_of_aggregate assms(2)])
      (use assms in \<open>auto simp: group_simps group_byte_defs bit_simps\<close>)
  show "take_bit 6 (drop_bit 6 g) = d3" unfolding g_def
    by (rule is_sextet_eqI [OF sextet_of_aggregate assms(3)])
      (use assms in \<open>auto simp: group_simps group_byte_defs bit_simps\<close>)
  show "take_bit 6 (drop_bit 0 g) = d4" unfolding g_def
    by (rule is_sextet_eqI [OF sextet_of_aggregate assms(4)])
      (use assms in \<open>simp add: group_simps group_byte_defs bit_simps\<close>)
qed

text \<open>Trailing bits: the leftover of a last group of one or two bytes.\<close>

lemma and_15_take_bit: "b AND 15 = take_bit 4 (b :: 32 word)"
  by (simp add: take_bit_eq_mask mask_eq_exp_minus_1)

lemma and_3_take_bit: "b AND 3 = take_bit 2 (b :: 32 word)"
  by (simp add: take_bit_eq_mask mask_eq_exp_minus_1)

lemmas trailing_simps = and_15_take_bit and_3_take_bit take_bit_push_bit

lemma group_zero:
  "take_bit 4 d2 = 0 \<Longrightarrow> group_byte2 d2 0 = 0"
  "take_bit 2 d3 = 0 \<Longrightarrow> group_byte3 d3 0 = 0"
  by (rule bit_word_eqI; auto simp: group_byte_defs bit_simps bit_eq_iff)+

lemma aggregate_trailing:
  "take_bit 4 (drop_bit 12 (base64url_aggregate x 0 0)) = 0"
  "take_bit 2 (drop_bit 6 (base64url_aggregate x y 0)) = 0"
  by (rule bit_word_eqI; auto simp: group_simps bit_simps)+

section \<open>Base64url: the loop\<close>

text \<open>What the decoder computes on sextets, group by group.\<close>

fun group_decode :: "32 word list \<Rightarrow> bytes" where
  "group_decode (d1 # d2 # d3 # d4 # ds) =
     group_byte1 d1 d2 # group_byte2 d2 d3 # group_byte3 d3 d4 # group_decode ds"
| "group_decode [d1, d2, d3] = [group_byte1 d1 d2, group_byte2 d2 d3]"
| "group_decode [d1, d2] = [group_byte1 d1 d2]"
| "group_decode _ = []"

text \<open>The trailing bits of a list of sextets, as the final test reads them.\<close>

fun group_trailing :: "32 word list \<Rightarrow> 32 word" where
  "group_trailing (d1 # d2 # d3 # d4 # ds) = group_trailing ds"
| "group_trailing [d1, d2, d3] = take_bit 2 d3"
| "group_trailing [d1, d2] = take_bit 4 d2"
| "group_trailing _ = 0"

lemma push_group:
  assumes "is_sextet d1" "is_sextet d2" "is_sextet d3" "is_sextet d4"
  shows "\<exists>b'. foldl base64url_push \<lparr>b64_buffer = b, b64_bits = 0, b64_output = out\<rparr> [d1, d2, d3, d4]
     = \<lparr>b64_buffer = b', b64_bits = 0,
        b64_output = out @ [group_byte1 d1 d2, group_byte2 d2 d3, group_byte3 d3 d4]\<rparr>"
  using push_byte1 [OF assms(1,2), of b] push_byte2 [OF assms(2,3), of "push_bit 6 b OR d1"]
    push_byte3 [OF assms(3,4), of "push_bit 6 (push_bit 6 b OR d1) OR d2"]
  by (simp add: base64url_push_def Let_def)

lemma push_groups:
  assumes "\<forall>d\<in>set ds. is_sextet d" and "length ds mod 4 \<noteq> 1"
  shows "\<exists>s. foldl base64url_push \<lparr>b64_buffer = b, b64_bits = 0, b64_output = out\<rparr> ds = s
     \<and> b64_output s = out @ group_decode ds
     \<and> (b64_bits s > 0 \<and> b64_buffer s AND (push_bit (b64_bits s) 1 - 1) \<noteq> 0
          \<longleftrightarrow> group_trailing ds \<noteq> 0)"
  using assms
proof (induction ds arbitrary: b out rule: group_decode.induct)
  case (1 d1 d2 d3 d4 ds)
  obtain b' where step: "foldl base64url_push \<lparr>b64_buffer = b, b64_bits = 0, b64_output = out\<rparr>
      [d1, d2, d3, d4] = \<lparr>b64_buffer = b', b64_bits = 0,
        b64_output = out @ [group_byte1 d1 d2, group_byte2 d2 d3, group_byte3 d3 d4]\<rparr>"
    using push_group 1(2) by (metis list.set_intros)
  have "length ds mod 4 \<noteq> 1"
    using 1(3) by simp
  then show ?case
    using 1(1) [of b' "out @ [group_byte1 d1 d2, group_byte2 d2 d3, group_byte3 d3 d4]"] 1(2) step
    by simp
next
  case (2 d1 d2 d3)
  then show ?case
    using push_byte1 [of d1 d2 b] push_byte2 [of d2 d3 "push_bit 6 b OR d1"]
    by (simp add: base64url_push_def Let_def trailing_simps)
next
  case (3 d1 d2)
  then show ?case
    using push_byte1 [of d1 d2 b]
    by (simp add: base64url_push_def Let_def trailing_simps)
qed simp_all

section \<open>Base64url is exact\<close>

definition sextet_char :: "32 word \<Rightarrow> char" where
  "sextet_char d = base64url_alphabet ! unat d"

lemma sextet_is_sextet: "is_sextet (sextet c)"
proof (cases "base64url_lookup c")
  case (Some n)
  then have "take_bit 6 n = n" by (simp add: base64url_lookup_iff take_bit_nat_eq_self)
  then show ?thesis
    using Some by (simp add: is_sextet_def sextet_def take_bit_of_nat)
qed (simp add: sextet_def is_sextet_def)

lemma sextet_char_sextet:
  assumes "base64url_lookup c \<noteq> None" shows "sextet_char (sextet c) = c"
proof -
  obtain n where n: "base64url_lookup c = Some n" using assms by auto
  then have "n < 64" and "base64url_alphabet ! n = c" by (simp_all add: base64url_lookup_iff)
  with n show ?thesis by (simp add: sextet_char_def sextet_def unat_of_nat)
qed

lemma sextet_base64url_char: "sextet (base64url_char g k) = take_bit 6 (drop_bit k g)"
  by (simp add: sextet_def base64url_lookup_char and_63_take_bit)

lemma base64url_char_sextet_char: "base64url_char g k = sextet_char (take_bit 6 (drop_bit k g))"
  by (simp add: sextet_char_def base64url_char_def and_63_take_bit)

lemma fold_base64url_step:
  "(\<forall>c\<in>set cs. base64url_lookup c \<noteq> None) \<Longrightarrow>
     fold_result base64url_step s cs = Inr (foldl base64url_push s (map sextet cs))"
  by (induction cs arbitrary: s) (auto simp: base64url_step_def sextet_def)

lemma decode_base64url_iff:
  "decode_base64url v = Inr xs \<longleftrightarrow>
     length v mod 4 \<noteq> 1 \<and> (\<forall>c\<in>set v. base64url_lookup c \<noteq> None)
     \<and> group_trailing (map sextet v) = 0 \<and> xs = group_decode (map sextet v)"
proof (cases "length v mod 4 \<noteq> 1 \<and> (\<forall>c\<in>set v. base64url_lookup c \<noteq> None)")
  case True
  obtain s where "foldl base64url_push \<lparr>b64_buffer = 0, b64_bits = 0, b64_output = []\<rparr> (map sextet v) = s"
    and "b64_output s = group_decode (map sextet v)"
    and "b64_bits s > 0 \<and> b64_buffer s AND (push_bit (b64_bits s) 1 - 1) \<noteq> 0
           \<longleftrightarrow> group_trailing (map sextet v) \<noteq> 0"
    using push_groups [of "map sextet v" 0 "[]"] sextet_is_sextet True by auto
  moreover have "CHR ''='' \<notin> set v"
    using True base64url_char_not_pad by blast
  ultimately show ?thesis
    using True fold_base64url_step [of v]
    by (auto simp: decode_base64url_def list_ex_iff)
next
  case False
  then show ?thesis
    by (auto simp: decode_base64url_def list_ex_iff)
qed

lemma encode_base64url_groups:
  "length (encode_base64url xs) mod 4 \<noteq> 1
   \<and> (\<forall>c\<in>set (encode_base64url xs). base64url_lookup c \<noteq> None)
   \<and> group_trailing (map sextet (encode_base64url xs)) = 0
   \<and> group_decode (map sextet (encode_base64url xs)) = xs"
  by (induction xs rule: encode_base64url.induct)
    (simp_all add: Let_def base64url_lookup_char sextet_base64url_char aggregate_trailing
      aggregate_bytes aggregate_bytes(3) [simplified])

lemma encode_group_decode:
  assumes "\<forall>d\<in>set ds. is_sextet d" and "length ds mod 4 \<noteq> 1" and "group_trailing ds = 0"
  shows "encode_base64url (group_decode ds) = map sextet_char ds"
  using assms
proof (induction ds rule: group_decode.induct)
  case (1 d1 d2 d3 d4 ds)
  have "length ds mod 4 \<noteq> 1" using 1(3) by simp
  then show ?case
    using 1 aggregate_sextets [of d1 d2 d3 d4]
    by (simp add: Let_def base64url_char_sextet_char)
next
  case (2 d1 d2 d3)
  then show ?case
    using aggregate_sextets [of d1 d2 d3 0]
    by (simp add: Let_def base64url_char_sextet_char group_zero is_sextet_def)
next
  case (3 d1 d2)
  have "group_byte3 0 0 = 0" by (simp add: group_byte3_def)
  with 3 show ?case
    using aggregate_sextets [of d1 d2 0 0]
    by (simp add: Let_def base64url_char_sextet_char group_zero is_sextet_def)
qed simp_all

interpretation base64url: codec encode_base64url decode_base64url "\<lambda>_. True"
proof
  fix x show "decode_base64url (encode_base64url x) = Inr x"
    using encode_base64url_groups [of x] by (simp add: decode_base64url_iff)
next
  fix y x assume "decode_base64url y = Inr x"
  then have y: "length y mod 4 \<noteq> 1" "\<forall>c\<in>set y. base64url_lookup c \<noteq> None"
    "group_trailing (map sextet y) = 0" and x: "x = group_decode (map sextet y)"
    by (auto simp: decode_base64url_iff)
  have "encode_base64url x = map sextet_char (map sextet y)"
    unfolding x using y by (intro encode_group_decode) (auto simp: sextet_is_sextet)
  also have "\<dots> = y"
    using y(2) by (simp add: map_idI sextet_char_sextet)
  finally show "True \<and> encode_base64url x = y" by simp
qed

lemma encode_base64url_length: "length (encode_base64url xs) = (4 * length xs + 2) div 3"
  by (induction xs rule: encode_base64url.induct) (simp_all add: Let_def)

lemma decode_base64url_length:
  "decode_base64url v = Inr xs \<Longrightarrow> length xs = (length v * 6) div 8"
proof -
  assume "decode_base64url v = Inr xs"
  then have "length v = (4 * length xs + 2) div 3"
    using base64url.dec_exact encode_base64url_length by metis
  then show ?thesis by presburger
qed

section \<open>Hex is exact\<close>

lemma lower_hex_length: "length lower_hex_chars = 16"
  by (simp add: lower_hex_chars_def)

lemma hex_value_digit:
  assumes "n < 16" shows "hex_value (hex_digit n) = n \<and> hex_digit n \<in> set lower_hex_chars"
proof -
  have "\<forall>m\<in>set [0..<16]. hex_value (hex_digit m) = m \<and> hex_digit m \<in> set lower_hex_chars"
    by code_simp
  with assms show ?thesis by simp
qed

lemma hex_digit_value: "c \<in> set lower_hex_chars \<Longrightarrow> hex_digit (hex_value c) = c \<and> hex_value c < 16"
  by (auto simp: hex_value_def hex_digit_def lower_hex_chars_def)

definition hex_byte :: "byte \<Rightarrow> string" where
  "hex_byte b = [hex_digit (unat b div 16), hex_digit (unat b mod 16)]"

lemma padded_hex: "pad_start 2 (CHR ''0'') (to_string_16 b) = hex_byte b"
  by (auto simp: pad_start_def to_string_16_def hex_byte_def hex_digit_def lower_hex_chars_def)

lemma encode_hex_eq: "encode_hex xs = concat (map hex_byte xs)"
  by (simp add: encode_hex_def padded_hex)

lemma byte_div_16: "unat (b :: byte) div 16 < 16"
  using unsigned_less [of b, where ?'a = nat] by (simp add: less_mult_imp_div_less)

lemma encode_hex_ok: "even (length (encode_hex xs)) \<and> all_in lower_hex_chars (encode_hex xs)
    \<and> hex_pairs (encode_hex xs) = xs"
  by (induction xs) (simp_all add: encode_hex_eq hex_byte_def hex_value_digit byte_div_16)

lemma hex_pairs_encode:
  "even (length s) \<Longrightarrow> all_in lower_hex_chars s \<Longrightarrow> encode_hex (hex_pairs s) = s"
proof (induction s rule: hex_pairs.induct)
  case (1 c d rest)
  then have c: "hex_digit (hex_value c) = c" "hex_value c < 16"
    and d: "hex_digit (hex_value d) = d" "hex_value d < 16"
    using hex_digit_value by auto
  then have "(16 * hex_value c + hex_value d) mod 2 ^ 8 = 16 * hex_value c + hex_value d"
    by simp
  then have "unat (of_nat (16 * hex_value c + hex_value d) :: byte) = 16 * hex_value c + hex_value d"
    by (simp only: unat_of_nat len_bit0 len_num1) simp
  with 1 c d show ?case by (simp add: encode_hex_eq hex_byte_def)
qed (simp_all add: encode_hex_eq)

interpretation hex: codec encode_hex decode_hex "\<lambda>_. True"
  by unfold_locales
    (auto simp: decode_hex_def encode_hex_ok hex_pairs_encode split: if_splits)

section \<open>Comparison of byte arrays\<close>

lemma foldl_or_zero:
  "foldl (\<lambda>d i. d OR f i) (z :: 32 word) xs = 0 \<longleftrightarrow> z = 0 \<and> (\<forall>i\<in>set xs. f i = 0)"
  by (induction xs arbitrary: z) (auto simp: or_eq_0_iff)

lemma ucast_byte_back: "ucast (ucast (x :: byte) :: 32 word) = x"
  by (rule bit_word_eqI) (simp add: bit_simps)

lemma ucast_byte_inj: "(ucast (x :: byte) :: 32 word) = ucast y \<longleftrightarrow> x = y"
  by (metis ucast_byte_back)

lemma xor_zero_iff: "x XOR y = 0 \<longleftrightarrow> x = (y :: 32 word)"
  by (auto simp: bit_eq_iff bit_simps)

lemma of_nat_word32_inj:
  "m < 2 ^ 32 \<Longrightarrow> n < 2 ^ 32 \<Longrightarrow> (of_nat m :: 32 word) = of_nat n \<longleftrightarrow> m = n"
  by (simp add: word_of_nat_eq_iff take_bit_nat_eq_self)

lemma bytes_equal_iff:
  assumes "length xs < 2 ^ 32" and "length ys < 2 ^ 32"
  shows "bytes_equal xs ys \<longleftrightarrow> xs = ys"
proof -
  have "(of_nat (length xs) :: 32 word) = of_nat (length ys) \<longleftrightarrow> length xs = length ys"
    using assms by (rule of_nat_word32_inj)
  then have "bytes_equal xs ys \<longleftrightarrow> length xs = length ys
      \<and> (\<forall>i<max (length xs) (length ys). byte_at xs i = byte_at ys i)"
    by (auto simp: bytes_equal_def foldl_or_zero xor_zero_iff)
  then show ?thesis
    by (auto simp: byte_at_def ucast_byte_inj list_eq_iff_nth_eq)
qed

section \<open>The encoder's alphabet\<close>

lemma base64url_char_alphabet: "base64url_char a n \<in> set base64url_alphabet"
proof -
  have "unat (drop_bit n a AND 63) \<le> unat (63 :: 32 word)"
    by (rule word_le_nat_alt [THEN iffD1]) (rule word_and_le1)
  then show ?thesis
    by (simp add: base64url_char_def base64url_alphabet_length)
qed

lemma encode_base64url_alphabet: "all_in base64url_alphabet (encode_base64url xs)"
  by (induction xs rule: encode_base64url.induct)
    (simp_all add: Let_def base64url_char_alphabet)

section \<open>Properties\<close>

text \<open>The base64url decoder accepts exactly the canonical unpadded encodings: a string
  decodes to some bytes if and only if it is the encoding of those bytes, so decoding an
  encoding returns the bytes, no byte string has two accepted spellings, and the decoder's
  output has exactly the length the code allocates for it.\<close>

theorem base64url_exact:
  "(decode_base64url s = Inr xs \<longleftrightarrow> encode_base64url xs = s)
   \<and> decode_base64url (encode_base64url xs) = Inr xs
   \<and> length (encode_base64url xs) = (4 * length xs + 2) div 3
   \<and> length xs = (length (encode_base64url xs) * 6) div 8"
proof (intro conjI)
  show "decode_base64url s = Inr xs \<longleftrightarrow> encode_base64url xs = s"
    using base64url.dec_eq_iff [of s xs] by blast
  show d: "decode_base64url (encode_base64url xs) = Inr xs"
    by (rule base64url.dec_enc) simp
  show "length (encode_base64url xs) = (4 * length xs + 2) div 3"
    by (rule encode_base64url_length)
  show "length xs = (length (encode_base64url xs) * 6) div 8"
    by (rule decode_base64url_length [OF d])
qed

text \<open>The hex decoder accepts exactly the lower-case encodings of byte strings, and the
  comparison of two byte arrays, which reads every byte whatever it finds, agrees with
  equality for all arrays below four gigabytes.\<close>

theorem hex_exact_and_compare_correct:
  assumes "length xs < 2 ^ 32" and "length ys < 2 ^ 32"
  shows "(decode_hex s = Inr xs \<longleftrightarrow> encode_hex xs = s) \<and> (bytes_equal xs ys \<longleftrightarrow> xs = ys)"
  using hex.dec_eq_iff [of s xs] bytes_equal_iff [OF assms] by blast

theorem hex_exact_and_compare_correct_witness:
  "decode_hex ''ff00'' = Inr [255, 0] \<and> bytes_equal [255, 0] [255, 0]
     \<and> \<not> bytes_equal [255, 0] [255]"
proof -
  have e: "encode_hex [255, 0] = ''ff00''" by code_simp
  show ?thesis
    using hex_exact_and_compare_correct [of "[255, 0]" "[255, 0]" "''ff00''"]
      hex_exact_and_compare_correct [of "[255, 0]" "[255]" "''ff00''"] e by simp
qed

end
