(* ===== verification/Records.thy ===== *)
theory Records
  imports Encoding
begin

text \<open>
  The SPC1 record format (\<open>packages/media/src/constants.ts\<close>, \<open>nonce.ts\<close>, \<open>records.ts\<close>): a
  32-byte header (magic, version, flags, header length, chunk index, nonce, plaintext and
  sealed length, all big-endian) followed by the sealed chunk. The main facts say that
  building and parsing a record are exact inverses and that the sequence parser accepts
  exactly the concatenations of consecutive records under one nonce prefix. The parser's
  loop terminates because a record it accepts is not empty.
\<close>

section \<open>Byte arrays\<close>

text \<open>\<open>slice xs a b\<close> is \<open>slice(a, b)\<close> of a typed array, \<open>set_bytes\<close> is \<open>set\<close>, and the
  big-endian accessors of a \<open>DataView\<close> are \<open>be_bytes\<close> and \<open>be_value\<close>.\<close>

definition slice :: "'a list \<Rightarrow> nat \<Rightarrow> nat \<Rightarrow> 'a list" where
  "slice xs a b = take (b - a) (drop a xs)"

definition set_bytes :: "nat \<Rightarrow> bytes \<Rightarrow> bytes \<Rightarrow> bytes" where
  "set_bytes i v xs = take i xs @ v @ drop (i + length v) xs"

primrec be_bytes :: "nat \<Rightarrow> int \<Rightarrow> bytes" where
  "be_bytes 0 n = []"
| "be_bytes (Suc k) n = be_bytes k (n div 256) @ [word_of_int n]"

definition be_value :: "bytes \<Rightarrow> int" where
  "be_value bs = foldl (\<lambda>n b. n * 256 + uint b) 0 bs"

lemma slice_length: "b \<le> length xs \<Longrightarrow> length (slice xs a b) = b - a"
  by (simp add: slice_def)

lemma slice_join: "a \<le> b \<Longrightarrow> b \<le> c \<Longrightarrow> slice xs a b @ slice xs b c = slice xs a c"
proof -
  assume "a \<le> b" and "b \<le> c"
  then have "take (c - a) (drop a xs) = take (b - a) (drop a xs) @ take (c - b) (drop (b - a) (drop a xs))"
    by (metis Nat.add_diff_assoc2 le_add_diff_inverse take_add)
  then show ?thesis
    using \<open>a \<le> b\<close> by (simp add: slice_def)
qed

lemma slice_all: "slice xs 0 (length xs) = xs"
  by (simp add: slice_def)

lemma slice_slice: "b' \<le> b - a \<Longrightarrow> slice (slice xs a b) a' b' = slice xs (a + a') (a + b')"
proof -
  assume b: "b' \<le> b - a"
  have "take (b' - a') (drop a' (take (b - a) (drop a xs)))
      = take (min (b' - a') (b - a - a')) (drop a' (drop a xs))"
    by (simp add: drop_take)
  also have "min (b' - a') (b - a - a') = b' - a'"
    using b by simp
  finally show ?thesis
    by (simp add: slice_def add.commute)
qed

lemma be_bytes_length [simp]: "length (be_bytes k n) = k"
  by (induction k arbitrary: n) simp_all

lemma be_value_Nil [simp]: "be_value [] = 0"
  by (simp add: be_value_def)

lemma be_value_snoc [simp]: "be_value (bs @ [b]) = be_value bs * 256 + uint b"
  by (simp add: be_value_def)

lemma uint_byte_bounds: "0 \<le> uint (b :: byte)" "uint (b :: byte) < 256"
  using uint_lt2p [of b] by simp_all

lemma be_value_bounds: "0 \<le> be_value bs \<and> be_value bs < 256 ^ length bs"
proof (induction bs rule: rev_induct)
  case (snoc b bs)
  then show ?case
    using uint_byte_bounds [of b] by simp
qed simp

lemma be_value_bytes: "0 \<le> n \<Longrightarrow> n < 256 ^ k \<Longrightarrow> be_value (be_bytes k n) = n"
proof (induction k arbitrary: n)
  case (Suc k)
  have "n div 256 < 256 ^ k"
    using Suc.prems by (simp add: div_less_iff_less_mult)
  then have "be_value (be_bytes k (n div 256)) = n div 256"
    using Suc by simp
  then show ?case
    by (simp add: uint_word_of_int)
qed simp

lemma be_bytes_value: "be_bytes (length bs) (be_value bs) = bs"
proof (induction bs rule: rev_induct)
  case (snoc b bs)
  have "(be_value bs * 256 + uint b) div 256 = be_value bs"
    using uint_byte_bounds [of b] by simp
  moreover have "(word_of_int (be_value bs * 256 + uint b) :: byte) = b"
    by (rule word_uint_eqI, simp only: uint_word_of_int)
      (use uint_byte_bounds [of b] in simp)
  ultimately show ?case
    using snoc by simp
qed simp

lemma be_bytes_inj:
  "0 \<le> m \<Longrightarrow> m < 256 ^ k \<Longrightarrow> 0 \<le> n \<Longrightarrow> n < 256 ^ k \<Longrightarrow> be_bytes k m = be_bytes k n \<longleftrightarrow> m = n"
  by (metis be_value_bytes)

section \<open>Constants\<close>

definition record_magic :: bytes where
  "record_magic = utf8_bytes ''SPC1''"

definition record_version :: int where "record_version = 1"
definition record_header_bytes :: nat where "record_header_bytes = 32"
definition aes_gcm_tag_bytes :: nat where "aes_gcm_tag_bytes = 16"
definition aes_gcm_nonce_bytes :: nat where "aes_gcm_nonce_bytes = 12"
definition nonce_prefix_bytes :: nat where "nonce_prefix_bytes = 8"
definition max_uint32 :: int where "max_uint32 = 0xffffffff"
definition s3_minimum_nonfinal_part_bytes :: nat where
  "s3_minimum_nonfinal_part_bytes = 5 * 1024 * 1024"
definition multipart_target_bytes :: nat where "multipart_target_bytes = 8 * 1024 * 1024"
definition max_plaintext_chunk_bytes :: nat where
  "max_plaintext_chunk_bytes = 4 * 1024 * 1024"
definition max_encrypted_buffer_bytes :: nat where
  "max_encrypted_buffer_bytes = 16 * 1024 * 1024"
definition max_recording_chunks :: nat where "max_recording_chunks = 1024"
definition max_multipart_parts :: nat where "max_multipart_parts = 32"
definition max_recording_object_bytes :: nat where
  "max_recording_object_bytes = 128 * 1024 * 1024"

lemmas protocol_limits = record_version_def record_header_bytes_def aes_gcm_tag_bytes_def
  aes_gcm_nonce_bytes_def nonce_prefix_bytes_def max_uint32_def
  s3_minimum_nonfinal_part_bytes_def multipart_target_bytes_def max_plaintext_chunk_bytes_def
  max_encrypted_buffer_bytes_def max_recording_chunks_def max_multipart_parts_def
  max_recording_object_bytes_def

lemma record_magic_bytes: "record_magic = [83, 80, 67, 49]"
  by code_simp

section \<open>Nonces\<close>

definition in_uint32 :: "int \<Rightarrow> bool" where
  "in_uint32 n \<longleftrightarrow> is_safe_integer n \<and> \<not> n < 0 \<and> \<not> n > max_uint32"

lemma in_uint32_iff [simp]: "in_uint32 n \<longleftrightarrow> 0 \<le> n \<and> n < 256 ^ 4"
  by (auto simp: in_uint32_def is_safe_integer_def max_safe_integer_def max_uint32_def)

definition build_chunk_nonce :: "bytes \<Rightarrow> int \<Rightarrow> media_error + bytes" where
  "build_chunk_nonce noncePrefix chunkIndex =
     (if length noncePrefix \<noteq> nonce_prefix_bytes then throw Invalid_nonce
      else if \<not> in_uint32 chunkIndex then throw Invalid_nonce
      else Inr (set_bytes nonce_prefix_bytes (be_bytes 4 chunkIndex)
        (set_bytes 0 noncePrefix (replicate aes_gcm_nonce_bytes 0))))"

lemma build_chunk_nonce_iff:
  "build_chunk_nonce p i = Inr n
     \<longleftrightarrow> length p = 8 \<and> 0 \<le> i \<and> i < 256 ^ 4 \<and> n = p @ be_bytes 4 i"
  by (auto simp: build_chunk_nonce_def set_bytes_def protocol_limits)

lemma build_chunk_nonce_ok:
  "length p = 8 \<Longrightarrow> 0 \<le> i \<Longrightarrow> i < 256 ^ 4 \<Longrightarrow> build_chunk_nonce p i = Inr (p @ be_bytes 4 i)"
  by (simp only: build_chunk_nonce_iff)

section \<open>Records\<close>

record record_fields =
  rf_chunkIndex :: int
  rf_nonce :: bytes
  rf_plaintextLength :: int
  rf_sealed :: bytes

record chunk_record =
  cr_chunkIndex :: int
  cr_nonce :: bytes
  cr_plaintextLength :: int
  cr_sealedLength :: int
  cr_sealed :: bytes
  cr_bytes :: bytes

definition nonce_matches_index :: "bytes \<Rightarrow> int \<Rightarrow> media_error + bool" where
  "nonce_matches_index nonce i =
     bind_result (build_chunk_nonce (slice nonce 0 8) i) (\<lambda>n. Inr (bytes_equal nonce n))"

definition validate_record_fields :: "record_fields \<Rightarrow> media_error + unit" where
  "validate_record_fields f =
     (if \<not> in_uint32 (rf_chunkIndex f) then throw Invalid_record
      else if length (rf_nonce f) \<noteq> 12 then throw Invalid_record
      else bind_result (nonce_matches_index (rf_nonce f) (rf_chunkIndex f)) (\<lambda>same.
        if \<not> same then throw Invalid_nonce
        else if \<not> is_safe_integer (rf_plaintextLength f) \<or> rf_plaintextLength f < 1
            \<or> rf_plaintextLength f > int max_plaintext_chunk_bytes then throw Limit_exceeded
        else if int (length (rf_sealed f)) \<noteq> rf_plaintextLength f + int aes_gcm_tag_bytes
          then throw Invalid_record
        else Inr ()))"

definition record_header :: "record_fields \<Rightarrow> bytes" where
  "record_header f =
     set_bytes 28 (be_bytes 4 (int (length (rf_sealed f))))
      (set_bytes 24 (be_bytes 4 (rf_plaintextLength f))
        (set_bytes 12 (rf_nonce f)
          (set_bytes 8 (be_bytes 4 (rf_chunkIndex f))
            (set_bytes 6 (be_bytes 2 (int record_header_bytes))
              (set_bytes 5 (be_bytes 1 0)
                (set_bytes 4 (be_bytes 1 record_version)
                  (set_bytes 0 record_magic (replicate record_header_bytes 0))))))))"

definition build_chunk_record :: "record_fields \<Rightarrow> media_error + bytes" where
  "build_chunk_record f =
     bind_result (validate_record_fields f)
       (\<lambda>_. Inr (concat_bytes [record_header f, rf_sealed f]))"

definition parse_record_at :: "bytes \<Rightarrow> nat \<Rightarrow> media_error + chunk_record" where
  "parse_record_at bs offset =
     (if int (length bs) - int offset < int record_header_bytes then throw Invalid_record
      else let header = slice bs offset (offset + record_header_bytes) in
      if \<not> bytes_equal (slice header 0 4) record_magic then throw Invalid_record
      else if be_value (slice header 4 5) \<noteq> record_version \<or> be_value (slice header 5 6) \<noteq> 0
          \<or> be_value (slice header 6 8) \<noteq> int record_header_bytes then throw Invalid_record
      else let chunkIndex = be_value (slice header 8 12); nonce = slice header 12 24 in
      bind_result (nonce_matches_index nonce chunkIndex) (\<lambda>same.
      if \<not> same then throw Invalid_nonce
      else let plaintextLength = be_value (slice header 24 28);
               sealedLength = be_value (slice header 28 32);
               recordLength = int record_header_bytes + sealedLength in
      if plaintextLength < 1 \<or> plaintextLength > int max_plaintext_chunk_bytes
          \<or> sealedLength \<noteq> plaintextLength + int aes_gcm_tag_bytes then throw Invalid_record
      else if int (length bs) - int offset < recordLength then throw Invalid_record
      else let recordBytes = slice bs offset (offset + nat recordLength) in
      Inr \<lparr>cr_chunkIndex = chunkIndex, cr_nonce = nonce, cr_plaintextLength = plaintextLength,
           cr_sealedLength = sealedLength,
           cr_sealed = drop record_header_bytes recordBytes, cr_bytes = recordBytes\<rparr>))"

definition parse_chunk_record :: "bytes \<Rightarrow> media_error + chunk_record" where
  "parse_chunk_record bs =
     bind_result (parse_record_at bs 0) (\<lambda>record.
       if length (cr_bytes record) \<noteq> length bs then throw Invalid_record else Inr record)"

section \<open>The layout of a record\<close>

text \<open>The values a record can carry, and the bytes it has on disk.\<close>

definition nonce_ok :: "bytes \<Rightarrow> int \<Rightarrow> bool" where
  "nonce_ok n i \<longleftrightarrow> length n = 12 \<and> 0 \<le> i \<and> i < 256 ^ 4 \<and> drop 8 n = be_bytes 4 i"

definition record_fields_ok :: "record_fields \<Rightarrow> bool" where
  "record_fields_ok f \<longleftrightarrow> nonce_ok (rf_nonce f) (rf_chunkIndex f)
     \<and> 1 \<le> rf_plaintextLength f \<and> rf_plaintextLength f \<le> 4194304
     \<and> int (length (rf_sealed f)) = rf_plaintextLength f + 16"

definition record_layout :: "record_fields \<Rightarrow> bytes" where
  "record_layout f = record_magic @ be_bytes 1 1 @ be_bytes 1 0 @ be_bytes 2 32
     @ be_bytes 4 (rf_chunkIndex f) @ rf_nonce f @ be_bytes 4 (rf_plaintextLength f)
     @ be_bytes 4 (int (length (rf_sealed f)))"

definition record_encoding :: "record_fields \<Rightarrow> bytes" where
  "record_encoding f = record_layout f @ rf_sealed f"

definition record_of :: "record_fields \<Rightarrow> chunk_record" where
  "record_of f = \<lparr>cr_chunkIndex = rf_chunkIndex f, cr_nonce = rf_nonce f,
     cr_plaintextLength = rf_plaintextLength f, cr_sealedLength = int (length (rf_sealed f)),
     cr_sealed = rf_sealed f, cr_bytes = record_encoding f\<rparr>"

definition fields_of :: "chunk_record \<Rightarrow> record_fields" where
  "fields_of r = \<lparr>rf_chunkIndex = cr_chunkIndex r, rf_nonce = cr_nonce r,
     rf_plaintextLength = cr_plaintextLength r, rf_sealed = cr_sealed r\<rparr>"

lemma fields_of_record_of [simp]: "fields_of (record_of f) = f"
  by (simp add: fields_of_def record_of_def)

lemma record_of_sel [simp]:
  "cr_chunkIndex (record_of f) = rf_chunkIndex f" "cr_nonce (record_of f) = rf_nonce f"
  "cr_plaintextLength (record_of f) = rf_plaintextLength f"
  "cr_sealed (record_of f) = rf_sealed f" "cr_bytes (record_of f) = record_encoding f"
  by (simp_all add: record_of_def)

lemma nonce_matches_index_iff:
  assumes "length n = 12" and "0 \<le> i" and "i < 256 ^ 4"
  shows "nonce_matches_index n i = Inr (drop 8 n = be_bytes 4 i)"
proof -
  have eq: "slice n 0 8 @ be_bytes 4 i = n \<longleftrightarrow> drop 8 n = be_bytes 4 i"
    using append_take_drop_id [of 8 n] by (metis append_eq_conv_conj slice_def drop_0 diff_zero
        append_same_eq same_append_eq)
  have l: "length (slice n 0 8) = 8"
    using assms by (simp add: slice_def)
  then have "bytes_equal n (slice n 0 8 @ be_bytes 4 i) = (n = slice n 0 8 @ be_bytes 4 i)"
    using assms by (intro bytes_equal_iff) simp_all
  then show ?thesis
    using assms l eq by (auto simp: nonce_matches_index_def build_chunk_nonce_ok)
qed

lemma validate_record_fields_iff: "validate_record_fields f = Inr () \<longleftrightarrow> record_fields_ok f"
proof (cases "length (rf_nonce f) = 12 \<and> 0 \<le> rf_chunkIndex f \<and> rf_chunkIndex f < 256 ^ 4")
  case True
  then have "nonce_matches_index (rf_nonce f) (rf_chunkIndex f)
      = Inr (drop 8 (rf_nonce f) = be_bytes 4 (rf_chunkIndex f))"
    by (intro nonce_matches_index_iff) simp_all
  then show ?thesis
    using True by (auto simp: validate_record_fields_def record_fields_ok_def nonce_ok_def
        is_safe_integer_def max_safe_integer_def protocol_limits)
next
  case False
  then show ?thesis
    by (auto simp: validate_record_fields_def record_fields_ok_def nonce_ok_def)
qed

lemma set_bytes_next:
  "length xs = i \<Longrightarrow> length v \<le> length ys \<Longrightarrow> set_bytes i v (xs @ ys) = xs @ v @ drop (length v) ys"
  by (simp add: set_bytes_def)

lemma record_header_layout: "length (rf_nonce f) = 12 \<Longrightarrow> record_header f = record_layout f"
proof -
  assume n: "length (rf_nonce f) = 12"
  let ?z = "\<lambda>k. replicate k (0 :: byte)"
  have m: "length record_magic = 4"
    by (simp add: record_magic_bytes)
  show ?thesis
    unfolding record_header_def record_layout_def
    using n m by (simp add: set_bytes_def protocol_limits del: be_bytes.simps)
qed

lemma build_chunk_record_iff:
  "build_chunk_record f = Inr bs \<longleftrightarrow> record_fields_ok f \<and> bs = record_encoding f"
proof (cases "record_fields_ok f")
  case True
  then have "length (rf_nonce f) = 12"
    by (simp add: record_fields_ok_def nonce_ok_def)
  then show ?thesis
    using True validate_record_fields_iff [of f]
    by (auto simp: build_chunk_record_def concat_bytes_def record_encoding_def
        record_header_layout)
next
  case False
  then have "validate_record_fields f \<noteq> Inr ()"
    by (simp add: validate_record_fields_iff)
  then show ?thesis
    using False by (cases "validate_record_fields f") (auto simp: build_chunk_record_def)
qed

section \<open>Parsing is exact\<close>

lemma record_layout_length: "length (rf_nonce f) = 12 \<Longrightarrow> length (record_layout f) = 32"
  by (simp add: record_layout_def record_magic_bytes del: be_bytes.simps)

lemma record_fields_ok_nonce: "record_fields_ok f \<Longrightarrow> length (rf_nonce f) = 12"
  by (simp add: record_fields_ok_def nonce_ok_def)

lemma record_encoding_length:
  "record_fields_ok f \<Longrightarrow> length (record_encoding f) = 32 + length (rf_sealed f)"
  by (simp add: record_encoding_def record_layout_length record_fields_ok_nonce)

lemma slice_append_skip:
  "length xs \<le> a \<Longrightarrow> slice (xs @ ys) a b = slice ys (a - length xs) (b - length xs)"
  by (auto simp: slice_def)

lemma slice_append_here: "length xs = b \<Longrightarrow> slice (xs @ ys) 0 b = xs"
  by (simp add: slice_def)

lemma record_layout_fields:
  assumes "length (rf_nonce f) = 12"
  shows "slice (record_layout f) 0 4 = record_magic"
    and "slice (record_layout f) 4 5 = be_bytes 1 1"
    and "slice (record_layout f) 5 6 = be_bytes 1 0"
    and "slice (record_layout f) 6 8 = be_bytes 2 32"
    and "slice (record_layout f) 8 12 = be_bytes 4 (rf_chunkIndex f)"
    and "slice (record_layout f) 12 24 = rf_nonce f"
    and "slice (record_layout f) 24 28 = be_bytes 4 (rf_plaintextLength f)"
    and "slice (record_layout f) 28 32 = be_bytes 4 (int (length (rf_sealed f)))"
proof -
  have m: "length record_magic = 4"
    by (simp add: record_magic_bytes)
  note simps = record_layout_def slice_append_skip slice_append_here slice_def m assms
  show "slice (record_layout f) 0 4 = record_magic" by (simp add: simps del: be_bytes.simps)
  show "slice (record_layout f) 4 5 = be_bytes 1 1" by (simp add: simps del: be_bytes.simps)
  show "slice (record_layout f) 5 6 = be_bytes 1 0" by (simp add: simps del: be_bytes.simps)
  show "slice (record_layout f) 6 8 = be_bytes 2 32" by (simp add: simps del: be_bytes.simps)
  show "slice (record_layout f) 8 12 = be_bytes 4 (rf_chunkIndex f)"
    by (simp add: simps del: be_bytes.simps)
  show "slice (record_layout f) 12 24 = rf_nonce f" by (simp add: simps del: be_bytes.simps)
  show "slice (record_layout f) 24 28 = be_bytes 4 (rf_plaintextLength f)"
    by (simp add: simps del: be_bytes.simps)
  show "slice (record_layout f) 28 32 = be_bytes 4 (int (length (rf_sealed f)))"
    by (simp add: simps del: be_bytes.simps)
qed

lemma magic_equal_iff: "length xs = 4 \<Longrightarrow> bytes_equal xs record_magic \<longleftrightarrow> xs = record_magic"
  by (rule bytes_equal_iff) (simp_all add: record_magic_bytes)

lemma be_value_small: "be_value (be_bytes 1 1) = 1" "be_value (be_bytes 1 0) = 0"
  "be_value (be_bytes 2 32) = 32"
  by (rule be_value_bytes; simp)+

lemma parse_record_at_encoding:
  assumes ok: "record_fields_ok f" and at: "drop offset bs = record_encoding f @ rest"
  shows "parse_record_at bs offset = Inr (record_of f)"
proof -
  have n: "length (rf_nonce f) = 12"
    using ok by (rule record_fields_ok_nonce)
  have i: "0 \<le> rf_chunkIndex f" "rf_chunkIndex f < 256 ^ 4"
    and d: "drop 8 (rf_nonce f) = be_bytes 4 (rf_chunkIndex f)"
    and p: "1 \<le> rf_plaintextLength f" "rf_plaintextLength f \<le> 4194304"
    and s: "int (length (rf_sealed f)) = rf_plaintextLength f + 16"
    using ok by (simp_all add: record_fields_ok_def nonce_ok_def)
  have len: "length (record_encoding f) = 32 + length (rf_sealed f)"
    using ok by (rule record_encoding_length)
  have total: "int (length bs) - int offset \<ge> 32 + int (length (rf_sealed f))"
    using arg_cong [OF at, of length] len by simp
  have header: "slice bs offset (offset + 32) = record_layout f"
    using at n by (simp add: slice_def record_encoding_def record_layout_length)
  have whole: "slice bs offset (offset + nat (32 + int (length (rf_sealed f)))) = record_encoding f"
    using at len by (simp add: slice_def nat_add_distrib)
  have idx: "be_value (be_bytes 4 (rf_chunkIndex f)) = rf_chunkIndex f"
    using i by (rule be_value_bytes)
  have pl: "be_value (be_bytes 4 (rf_plaintextLength f)) = rf_plaintextLength f"
    using p by (intro be_value_bytes) simp_all
  have sl: "be_value (be_bytes 4 (rf_plaintextLength f + 16)) = rf_plaintextLength f + 16"
    using p by (intro be_value_bytes) simp_all
  have mg: "bytes_equal [83, 80, 67, 49] [83, 80, 67, 49]"
    using magic_equal_iff [of record_magic] by (simp add: record_magic_bytes)
  have tl: "drop 32 (record_encoding f) = rf_sealed f"
    using n by (simp add: record_encoding_def record_layout_length)
  note nm = nonce_matches_index_iff [OF n i]
  show ?thesis
    using total p s d whole tl
    unfolding parse_record_at_def Let_def protocol_limits
    by (simp add: header record_layout_fields [OF n] magic_equal_iff record_magic_bytes
        be_value_small idx pl sl mg nm record_of_def del: be_bytes.simps One_nat_def)
qed


lemma header_layout:
  assumes len: "length h = 32" and nonce: "n = slice h 12 24"
    and m: "slice h 0 4 = record_magic" and v: "be_value (slice h 4 5) = 1"
    and fl: "be_value (slice h 5 6) = 0" and hl: "be_value (slice h 6 8) = 32"
  shows "h = record_magic @ be_bytes 1 1 @ be_bytes 1 0 @ be_bytes 2 32
     @ be_bytes 4 (be_value (slice h 8 12)) @ n @ be_bytes 4 (be_value (slice h 24 28))
     @ be_bytes 4 (be_value (slice h 28 32))"
proof -
  have b: "be_bytes (b - a) (be_value (slice h a b)) = slice h a b" if "b \<le> 32" for a b
    using be_bytes_value [of "slice h a b"] that len by (simp add: slice_length)
  have "h = slice h 0 4 @ slice h 4 5 @ slice h 5 6 @ slice h 6 8 @ slice h 8 12
      @ slice h 12 24 @ slice h 24 28 @ slice h 28 32"
    using slice_all [of h] len by (simp add: slice_join)
  then show ?thesis
    using b [of 5 4] b [of 6 5] b [of 8 6] b [of 12 8] b [of 28 24] b [of 32 28] m v fl hl nonce
    by (simp del: be_bytes.simps)
qed

lemma parse_record_at_exact:
  assumes "parse_record_at bs offset = Inr r"
  shows "record_fields_ok (fields_of r) \<and> r = record_of (fields_of r)
    \<and> (\<exists>rest. drop offset bs = cr_bytes r @ rest)"
proof -
  define h where "h = slice bs offset (offset + 32)"
  define i where "i = be_value (slice h 8 12)"
  define n where "n = slice h 12 24"
  define pl where "pl = be_value (slice h 24 28)"
  define sl where "sl = be_value (slice h 28 32)"
  define whole where "whole = slice bs offset (offset + nat (32 + sl))"
  have len: "32 \<le> int (length bs) - int offset"
    using assms by (auto simp: parse_record_at_def protocol_limits split: if_splits)
  then have hlen: "length h = 32"
    by (simp add: h_def slice_length)
  have n12: "length n = 12"
    using hlen by (simp add: n_def slice_length)
  have ib: "0 \<le> i" "i < 256 ^ 4"
    using be_value_bounds [of "slice h 8 12"] hlen by (simp_all add: i_def slice_length)
  note nm = nonce_matches_index_iff [OF n12 ib]
  have sl0: "0 \<le> sl"
    using be_value_bounds [of "slice h 28 32"] by (simp add: sl_def)
  have mlen: "length (slice h 0 4) = 4"
    using hlen by (simp add: slice_length)
  have all: "slice h 0 4 = record_magic \<and> be_value (slice h 4 5) = 1 \<and> be_value (slice h 5 6) = 0
    \<and> be_value (slice h 6 8) = 32 \<and> drop 8 n = be_bytes 4 i \<and> 1 \<le> pl \<and> pl \<le> 4194304
    \<and> sl = pl + 16 \<and> 32 + sl \<le> int (length bs) - int offset
    \<and> r = \<lparr>cr_chunkIndex = i, cr_nonce = n, cr_plaintextLength = pl, cr_sealedLength = sl,
        cr_sealed = drop 32 whole, cr_bytes = whole\<rparr>"
    using assms len nm magic_equal_iff [OF mlen]
    unfolding parse_record_at_def Let_def protocol_limits
    by (simp add: h_def [symmetric] i_def [symmetric] n_def [symmetric] pl_def [symmetric]
        sl_def [symmetric] whole_def del: be_bytes.simps split: if_splits)
  have layout: "h = record_magic @ be_bytes 1 1 @ be_bytes 1 0 @ be_bytes 2 32 @ be_bytes 4 i
      @ n @ be_bytes 4 pl @ be_bytes 4 sl"
    unfolding i_def pl_def sl_def
    by (rule header_layout [OF hlen n_def]) (use all in simp_all)
  have "offset + nat (32 + sl) \<le> length bs"
    using all sl0 by linarith
  then have wlen: "length whole = nat (32 + sl)"
    by (simp only: whole_def slice_length)
  have split: "whole = h @ drop 32 whole"
  proof -
    have "take 32 whole = h"
      using sl0 by (simp add: whole_def h_def slice_def nat_add_distrib min_def)
    then show ?thesis
      by (metis append_take_drop_id)
  qed
  have slen: "int (length (drop 32 whole)) = sl"
    using wlen sl0 by simp
  have ok: "record_fields_ok (fields_of r)"
    using all n12 ib slen by (simp add: record_fields_ok_def nonce_ok_def fields_of_def)
  have "record_encoding (fields_of r) = whole"
    unfolding record_encoding_def record_layout_def
    using all slen split layout by (simp add: fields_of_def del: be_bytes.simps)
  then have eq: "r = record_of (fields_of r)"
    using all slen by (simp add: record_of_def fields_of_def)
  have "drop offset bs = whole @ drop (nat (32 + sl)) (drop offset bs)"
    by (simp only: whole_def slice_def diff_add_inverse append_take_drop_id)
  then have "\<exists>rest. drop offset bs = cr_bytes r @ rest"
    using all by (metis chunk_record.select_convs(6))
  then show ?thesis
    using ok eq by blast
qed


text \<open>The parser at an offset accepts exactly the encodings of valid fields there.\<close>

lemma parse_record_at_iff:
  "parse_record_at bs offset = Inr r \<longleftrightarrow>
     (\<exists>f rest. record_fields_ok f \<and> r = record_of f \<and> drop offset bs = record_encoding f @ rest)"
proof
  assume "parse_record_at bs offset = Inr r"
  from parse_record_at_exact [OF this] show "\<exists>f rest. record_fields_ok f \<and> r = record_of f
      \<and> drop offset bs = record_encoding f @ rest"
    by (metis record_of_sel(5))
qed (auto simp: parse_record_at_encoding)

lemma parse_chunk_record_iff:
  "parse_chunk_record bs = Inr r \<longleftrightarrow> record_fields_ok (fields_of r)
     \<and> r = record_of (fields_of r) \<and> bs = cr_bytes r"
proof
  assume "parse_chunk_record bs = Inr r"
  then have at: "parse_record_at bs 0 = Inr r" and l: "length (cr_bytes r) = length bs"
    by (auto simp: parse_chunk_record_def result_simps split: if_splits)
  from parse_record_at_exact [OF at] l show "record_fields_ok (fields_of r)
     \<and> r = record_of (fields_of r) \<and> bs = cr_bytes r"
    by auto
next
  assume r: "record_fields_ok (fields_of r) \<and> r = record_of (fields_of r) \<and> bs = cr_bytes r"
  then have "drop 0 bs = record_encoding (fields_of r) @ []"
    by (metis append_Nil2 drop0 record_of_sel(5))
  then have "parse_record_at bs 0 = Inr r"
    using r parse_record_at_encoding [of "fields_of r" 0 bs "[]"] by metis
  then show "parse_chunk_record bs = Inr r"
    using r by (simp add: parse_chunk_record_def)
qed

definition encode_record :: "record_fields \<Rightarrow> bytes" where
  "encode_record f = (case build_chunk_record f of Inl _ \<Rightarrow> [] | Inr bs \<Rightarrow> bs)"

definition decode_record :: "bytes \<Rightarrow> media_error + record_fields" where
  "decode_record bs = bind_result (parse_chunk_record bs) (\<lambda>r. Inr (fields_of r))"

interpretation spc1: codec encode_record decode_record record_fields_ok
proof
  fix f assume ok: "record_fields_ok f"
  then have "build_chunk_record f = Inr (record_encoding f)"
    by (simp add: build_chunk_record_iff)
  moreover have "parse_chunk_record (record_encoding f) = Inr (record_of f)"
    using ok by (simp add: parse_chunk_record_iff)
  ultimately show "decode_record (encode_record f) = Inr f"
    by (simp add: encode_record_def decode_record_def)
next
  fix bs f assume "decode_record bs = Inr f"
  then have ok: "record_fields_ok f" and bs: "bs = record_encoding f"
    by (auto simp: decode_record_def result_simps parse_chunk_record_iff)
      (metis fields_of_record_of record_of_sel(5))
  then have "build_chunk_record f = Inr (record_encoding f)"
    by (simp add: build_chunk_record_iff)
  then show "record_fields_ok f \<and> encode_record f = bs"
    using ok bs by (simp add: encode_record_def)
qed


section \<open>Sequences of records\<close>

lemma parse_record_at_progress:
  assumes "parse_record_at bs offset = Inr r"
  shows "0 < length (cr_bytes r) \<and> offset + length (cr_bytes r) \<le> length bs"
proof -
  from parse_record_at_exact [OF assms] obtain rest where ok: "record_fields_ok (fields_of r)"
    and r: "r = record_of (fields_of r)" and d: "drop offset bs = cr_bytes r @ rest" by blast
  then have "0 < length (cr_bytes r)"
    using record_encoding_length [OF ok] by (metis add_gr_0 record_of_sel(5) zero_less_numeral)
  moreover have "length (cr_bytes r) \<le> length bs - offset"
    using arg_cong [OF d, of length] by simp
  ultimately show ?thesis by linarith
qed

lemma parse_record_at_decreases:
  "parse_record_at bs offset = Inr r \<Longrightarrow>
     length bs - (offset + length (cr_bytes r)) < length bs - offset"
  using parse_record_at_progress [of bs offset r] by linarith

text \<open>The loop's state: the records so far, the nonce prefix once there is one, the offset and
  the index the next record must have.\<close>

function parse_sequence_loop ::
  "bytes \<Rightarrow> chunk_record list \<Rightarrow> bytes option \<Rightarrow> nat \<Rightarrow> int \<Rightarrow> media_error + chunk_record list"
where
  "parse_sequence_loop bs records noncePrefix offset expectedIndex =
     (if offset < length bs then
        (case parse_record_at bs offset of
           Inl e \<Rightarrow> Inl e
         | Inr r \<Rightarrow>
           (let prefix = (case noncePrefix of None \<Rightarrow> slice (cr_nonce r) 0 8 | Some p \<Rightarrow> p) in
            if cr_chunkIndex r \<noteq> expectedIndex then throw Invalid_record
            else if \<not> bytes_equal (slice (cr_nonce r) 0 8) prefix then throw Invalid_nonce
            else if length (records @ [r]) > max_recording_chunks then throw Limit_exceeded
            else parse_sequence_loop bs (records @ [r]) (Some prefix)
                   (offset + length (cr_bytes r)) (expectedIndex + 1)))
      else Inr records)"
  by pat_completeness auto
termination
  by (relation "measure (\<lambda>(bs, _, _, offset, _). length bs - offset)")
    (auto intro: parse_record_at_decreases)

declare parse_sequence_loop.simps [simp del]

definition parse_chunk_record_sequence :: "bytes \<Rightarrow> int \<Rightarrow> media_error + chunk_record list" where
  "parse_chunk_record_sequence bs expectedFirstIndex =
     (if \<not> in_uint32 expectedFirstIndex then throw Invalid_record
      else if length bs > max_recording_object_bytes then throw Limit_exceeded
      else bind_result (parse_sequence_loop bs [] None 0 expectedFirstIndex) (\<lambda>records.
        if length records = 0 then throw Invalid_record else Inr records))"

text \<open>What a recording is: consecutive records under one nonce prefix.\<close>

fun consecutive_records :: "int \<Rightarrow> bytes option \<Rightarrow> record_fields list \<Rightarrow> bool" where
  "consecutive_records k p [] \<longleftrightarrow> True"
| "consecutive_records k p (f # fs) \<longleftrightarrow> record_fields_ok f \<and> rf_chunkIndex f = k
     \<and> (\<forall>q\<in>set_option p. take 8 (rf_nonce f) = q)
     \<and> consecutive_records (k + 1) (Some (take 8 (rf_nonce f))) fs"

lemma parse_sequence_loop_complete:
  assumes "consecutive_records k p fs" and "drop offset bs = concat (map record_encoding fs)"
    and "length records + length fs \<le> max_recording_chunks"
    and "\<forall>q\<in>set_option p. length q = 8"
  shows "parse_sequence_loop bs records p offset k = Inr (records @ map record_of fs)"
  using assms
proof (induction fs arbitrary: k p records offset)
  case Nil
  then show ?case by (simp add: parse_sequence_loop.simps)
next
  case (Cons f fs)
  have ok: "record_fields_ok f"
    using Cons.prems by simp
  have d: "drop offset bs = record_encoding f @ concat (map record_encoding fs)"
    using Cons.prems by simp
  have at: "parse_record_at bs offset = Inr (record_of f)"
    using ok d by (rule parse_record_at_encoding)
  have l8: "length (take 8 (rf_nonce f)) = 8"
    using record_fields_ok_nonce [OF ok] by simp
  have eq: "bytes_equal (take 8 (rf_nonce f)) (take 8 (rf_nonce f))"
    by (subst bytes_equal_iff) simp_all
  have d': "drop (offset + length (record_encoding f)) bs = concat (map record_encoding fs)"
    using d by (metis append_eq_conv_conj drop_drop add.commute)
  have "parse_sequence_loop bs (records @ [record_of f]) (Some (take 8 (rf_nonce f)))
      (offset + length (record_encoding f)) (k + 1)
      = Inr ((records @ [record_of f]) @ map record_of fs)"
    by (rule Cons.IH) (use Cons.prems d' l8 in simp_all)
  moreover have "offset < length bs"
    using parse_record_at_progress [OF at] by linarith
  ultimately show ?case
    using Cons.prems at eq
    by (subst parse_sequence_loop.simps) (auto simp: slice_def split: option.splits)
qed


lemma parse_sequence_loop_sound:
  assumes "parse_sequence_loop bs records p offset k = Inr rs" and "offset \<le> length bs"
    and "length records \<le> max_recording_chunks" and "\<forall>q\<in>set_option p. length q = 8"
  shows "\<exists>fs. consecutive_records k p fs \<and> drop offset bs = concat (map record_encoding fs)
    \<and> rs = records @ map record_of fs \<and> length rs \<le> max_recording_chunks"
  using assms
proof (induction bs records p offset k rule: parse_sequence_loop.induct)
  case (1 bs records p offset k)
  show ?case
  proof (cases "offset < length bs")
    case False
    then have "rs = records" and "drop offset bs = []"
      using "1.prems" by (simp_all add: parse_sequence_loop.simps)
    then show ?thesis
      using "1.prems" by (intro exI [of _ "[]"]) simp
  next
    case True
    from "1.prems"(1) True obtain r where at: "parse_record_at bs offset = Inr r"
      by (subst (asm) parse_sequence_loop.simps) (auto split: sum.splits)
    define q where "q = (case p of None \<Rightarrow> slice (cr_nonce r) 0 8 | Some q \<Rightarrow> q)"
    from parse_record_at_exact [OF at] obtain rest where ok: "record_fields_ok (fields_of r)"
      and r: "r = record_of (fields_of r)" and d: "drop offset bs = cr_bytes r @ rest" by blast
    have n12: "length (cr_nonce r) = 12"
      using record_fields_ok_nonce [OF ok] by (simp add: fields_of_def)
    have q8: "length q = 8"
      using n12 "1.prems"(4) by (auto simp: q_def slice_def split: option.splits)
    have "bytes_equal (slice (cr_nonce r) 0 8) q \<longleftrightarrow> slice (cr_nonce r) 0 8 = q"
      using n12 q8 by (intro bytes_equal_iff) (simp_all add: slice_def)
    then have steps: "cr_chunkIndex r = k" "take 8 (cr_nonce r) = q"
      "\<not> length (records @ [r]) > max_recording_chunks"
      and rec: "parse_sequence_loop bs (records @ [r]) (Some q) (offset + length (cr_bytes r))
        (k + 1) = Inr rs"
      using "1.prems"(1) True at
      by (subst (asm) parse_sequence_loop.simps,
          simp add: Let_def q_def [symmetric] slice_def split: if_splits)+
    have "\<exists>fs. consecutive_records (k + 1) (Some q) fs
        \<and> drop (offset + length (cr_bytes r)) bs = concat (map record_encoding fs)
        \<and> rs = (records @ [r]) @ map record_of fs \<and> length rs \<le> max_recording_chunks"
      using rec steps q8 n12 parse_record_at_progress [OF at]
      by (intro "1.IH" [OF True at q_def]) (auto simp: slice_def bytes_equal_iff)
    then obtain fs where fs: "consecutive_records (k + 1) (Some q) fs"
      "drop (offset + length (cr_bytes r)) bs = concat (map record_encoding fs)"
      "rs = (records @ [r]) @ map record_of fs" "length rs \<le> max_recording_chunks" by blast
    have "drop offset bs = record_encoding (fields_of r) @ concat (map record_encoding fs)"
      using d fs(2) r by (metis append_eq_conv_conj drop_drop add.commute record_of_sel(5))
    moreover have "consecutive_records k p (fields_of r # fs)"
      using ok steps fs(1) by (auto simp: fields_of_def q_def)
    moreover have "rs = records @ map record_of (fields_of r # fs)"
      using fs(3) r by simp
    ultimately show ?thesis
      using fs(4) by (intro exI [of _ "fields_of r # fs"]) simp
  qed
qed


lemma consecutive_records_bounds:
  "consecutive_records k p fs \<Longrightarrow> f \<in> set fs \<Longrightarrow> k \<le> rf_chunkIndex f \<and> rf_chunkIndex f < 256 ^ 4
     \<and> record_fields_ok f"
proof (induction k p fs rule: consecutive_records.induct)
  case (2 k p g gs)
  show ?case
  proof (cases "f = g")
    case True
    then show ?thesis
      using "2.prems" by (simp add: record_fields_ok_def nonce_ok_def)
  next
    case False
    then have "k + 1 \<le> rf_chunkIndex f \<and> rf_chunkIndex f < 256 ^ 4 \<and> record_fields_ok f"
      using "2.prems" by (intro "2.IH") simp_all
    then show ?thesis by simp
  qed
qed simp

lemma consecutive_records_index:
  "consecutive_records k p fs \<Longrightarrow> i < length fs \<Longrightarrow> rf_chunkIndex (fs ! i) = k + int i"
proof (induction k p fs arbitrary: i rule: consecutive_records.induct)
  case (2 k p g gs)
  then show ?case by (cases i) auto
qed simp

lemma record_nonce_distinct:
  assumes "record_fields_ok f" and "record_fields_ok g" and "rf_chunkIndex f \<noteq> rf_chunkIndex g"
  shows "rf_nonce f \<noteq> rf_nonce g"
  using assms unfolding record_fields_ok_def nonce_ok_def by (metis be_bytes_inj)

lemma consecutive_records_nonces: "consecutive_records k p fs \<Longrightarrow> distinct (map rf_nonce fs)"
proof (induction k p fs rule: consecutive_records.induct)
  case (2 k p g gs)
  then have c: "consecutive_records (k + 1) (Some (take 8 (rf_nonce g))) gs"
    and g: "record_fields_ok g" "rf_chunkIndex g = k" by simp_all
  have "rf_nonce g \<noteq> rf_nonce f" if "f \<in> set gs" for f
    using consecutive_records_bounds [OF c that] g by (intro record_nonce_distinct) simp_all
  then show ?case
    using 2 c by auto
qed simp

lemma map_record_of: "map cr_bytes (map record_of fs) = map record_encoding fs"
  by simp

lemma parse_chunk_record_sequence_iff:
  "parse_chunk_record_sequence bs k = Inr rs \<longleftrightarrow> in_uint32 k
     \<and> length bs \<le> max_recording_object_bytes \<and> rs \<noteq> [] \<and> length rs \<le> max_recording_chunks
     \<and> bs = concat (map cr_bytes rs) \<and> rs = map record_of (map fields_of rs)
     \<and> consecutive_records k None (map fields_of rs)" (is "?l \<longleftrightarrow> ?r")
proof
  assume l: ?l
  then have loop: "parse_sequence_loop bs [] None 0 k = Inr rs" and rs: "rs \<noteq> []"
    and k: "in_uint32 k" and size: "length bs \<le> max_recording_object_bytes"
    by (auto simp: parse_chunk_record_sequence_def result_simps split: if_splits)
  from parse_sequence_loop_sound [OF loop] obtain fs where "consecutive_records k None fs"
    "bs = concat (map record_encoding fs)" "rs = map record_of fs"
    "length rs \<le> max_recording_chunks" by auto
  then show ?r
    using rs k size by (simp add: comp_def)
next
  assume r: ?r
  then have b: "bs = concat (map cr_bytes rs)" and rs: "rs = map record_of (map fields_of rs)"
    and c: "consecutive_records k None (map fields_of rs)"
    and l: "length rs \<le> max_recording_chunks" by blast+
  have e: "map record_encoding (map fields_of rs) = map cr_bytes rs"
    using rs by (metis map_record_of)
  have "drop 0 bs = concat (map record_encoding (map fields_of rs))"
    unfolding e drop0 by (rule b)
  then have "parse_sequence_loop bs [] None 0 k = Inr ([] @ map record_of (map fields_of rs))"
    using c l by (intro parse_sequence_loop_complete) simp_all
  then have loop: "parse_sequence_loop bs [] None 0 k = Inr rs"
    using rs by simp
  have "in_uint32 k" and "length bs \<le> max_recording_object_bytes" and "rs \<noteq> []"
    using r by blast+
  then show ?l
    by (simp add: parse_chunk_record_sequence_def loop)
qed

section \<open>Properties\<close>

text \<open>Building and parsing a record are exact inverses: the fields build to some bytes if
  and only if those bytes parse back to the same fields, and every record the parser accepts
  is the one spelling the builder has for its fields, so the header cannot be malleable.\<close>

theorem record_build_parse_inverse:
  "(build_chunk_record f = Inr bs \<longleftrightarrow> parse_chunk_record bs = Inr (record_of f))
   \<and> (parse_chunk_record bs = Inr r \<longrightarrow> build_chunk_record (fields_of r) = Inr bs)"
proof -
  have "build_chunk_record f = Inr bs \<longleftrightarrow> parse_chunk_record bs = Inr (record_of f)"
    by (auto simp: build_chunk_record_iff parse_chunk_record_iff)
  moreover have "parse_chunk_record bs = Inr r \<longrightarrow> build_chunk_record (fields_of r) = Inr bs"
    unfolding build_chunk_record_iff parse_chunk_record_iff by (metis record_of_sel(5))
  ultimately show ?thesis by blast
qed

definition demo_fields :: "int \<Rightarrow> record_fields" where
  "demo_fields i = \<lparr>rf_chunkIndex = i, rf_nonce = [1, 2, 3, 4, 5, 6, 7, 8] @ be_bytes 4 i,
     rf_plaintextLength = 2, rf_sealed = replicate 18 9\<rparr>"

lemma demo_fields_ok: "0 \<le> i \<Longrightarrow> i < 256 ^ 4 \<Longrightarrow> record_fields_ok (demo_fields i)"
  by (simp add: record_fields_ok_def nonce_ok_def demo_fields_def)

theorem record_build_parse_inverse_witness:
  "build_chunk_record (demo_fields 7) = Inr (record_encoding (demo_fields 7))
   \<and> parse_chunk_record (record_encoding (demo_fields 7)) = Inr (record_of (demo_fields 7))"
proof -
  have "build_chunk_record (demo_fields 7) = Inr (record_encoding (demo_fields 7))"
    by (simp add: build_chunk_record_iff demo_fields_ok)
  then show ?thesis
    using record_build_parse_inverse [of "demo_fields 7" "record_encoding (demo_fields 7)"] by blast
qed

text \<open>The sequence parser accepts exactly the recordings: an accepted object, of at most
  128 MiB, is the concatenation of one to 1024 well-formed records whose indices count up
  from the expected first index under a single nonce prefix, and no nonce occurs twice in it;
  conversely every such concatenation is accepted and split at the record boundaries.\<close>

theorem record_sequence_exact:
  "parse_chunk_record_sequence bs k = Inr rs \<longleftrightarrow>
     0 \<le> k \<and> k < 2 ^ 32 \<and> length bs \<le> 134217728 \<and> 1 \<le> length rs \<and> length rs \<le> 1024
     \<and> bs = concat (map cr_bytes rs) \<and> distinct (map cr_nonce rs)
     \<and> map cr_chunkIndex rs = map (\<lambda>i. k + int i) [0..<length rs]
     \<and> rs = map record_of (map fields_of rs) \<and> consecutive_records k None (map fields_of rs)"
proof -
  have nonces: "map rf_nonce (map fields_of rs) = map cr_nonce rs"
    by (simp add: fields_of_def)
  have "distinct (map cr_nonce rs)
      \<and> map cr_chunkIndex rs = map (\<lambda>i. k + int i) [0..<length rs]"
    if c: "consecutive_records k None (map fields_of rs)"
  proof
    show "distinct (map cr_nonce rs)"
      using consecutive_records_nonces [OF c] unfolding nonces .
    have "cr_chunkIndex (rs ! i) = k + int i" if "i < length rs" for i
      using consecutive_records_index [OF c, of i] that by (simp add: fields_of_def)
    then show "map cr_chunkIndex rs = map (\<lambda>i. k + int i) [0..<length rs]"
      by (intro nth_equalityI) simp_all
  qed
  then show ?thesis
    unfolding parse_chunk_record_sequence_iff max_recording_object_bytes_def
      max_recording_chunks_def in_uint32_iff
    by (auto simp: Suc_le_eq)
qed

end
