(* ===== verification/Media_Schemas.thy ===== *)
theory Media_Schemas
  imports Records
begin

text \<open>
  The data of the recording protocol and the schemas that guard it
  (\<open>packages/media/src/schemas.ts\<close>, \<open>question-intervals.ts\<close>, the remaining constants of
  \<open>constants.ts\<close>). A schema without transforms is a predicate; its \<open>superRefine\<close> is written
  as the loops of the source, with the issues collected as one flag. A value a schema
  rejects makes \<open>parse\<close> throw, which is \<open>MediaSchemaError\<close> wherever a schema is used.

  The main facts turn the loops of the manifest's refinement into a closed form over the
  chunk offsets (\<open>scan_chunks_closed\<close>, \<open>first_chunk_after\<close>, \<open>last_chunk_before\<close>).
\<close>

section \<open>Constants\<close>

definition recording_suite_id :: string where "recording_suite_id = ''SP-RC1''"
definition recording_protocol_version :: int where "recording_protocol_version = 1"
definition recording_codec :: string where "recording_codec = ''video/webm;codecs=vp8,opus''"
definition wrapping_algorithm :: string where "wrapping_algorithm = ''RSA-OAEP-256''"
definition manifest_tag_bytes :: nat where "manifest_tag_bytes = 32"
definition master_key_bytes :: nat where "master_key_bytes = 32"
definition rsa_minimum_modulus_bits :: int where "rsa_minimum_modulus_bits = 3072"
definition max_recording_duration_ms :: int where "max_recording_duration_ms = 8 * 60 * 1000"
definition max_finalize_json_bytes :: nat where "max_finalize_json_bytes = 512 * 1024"
definition max_proof_question_count :: nat where "max_proof_question_count = 5"
definition max_initial_question_gap_ms :: int where "max_initial_question_gap_ms = 1000"
definition max_final_question_end_drift_ms :: int where "max_final_question_end_drift_ms = 1000"
definition max_proof_question_answer_ms :: int where "max_proof_question_answer_ms = 120000"
definition interval_version :: string where "interval_version = ''proof-question-interval-v1''"
definition interval_source :: string where "interval_source = ''mobile_navigation_v1''"

section \<open>String schemas\<close>

definition canonical_uuid_ok :: "string \<Rightarrow> bool" where
  "canonical_uuid_ok s \<longleftrightarrow> length s = 36
     \<and> list_all (\<lambda>(i, c). if i \<in> {8, 13, 18, 23} then c = CHR ''-'' else c \<in> set lower_hex_chars)
         (zip [0..<36] s)"

definition head_sha_ok :: "string \<Rightarrow> bool" where
  "head_sha_ok s \<longleftrightarrow> length s = 40 \<and> all_in lower_hex_chars s"

definition sha256_hex_ok :: "string \<Rightarrow> bool" where
  "sha256_hex_ok s \<longleftrightarrow> length s = 64 \<and> all_in lower_hex_chars s"

definition alphanumeric :: string where
  "alphanumeric = ''ABCDEFGHIJKLMNOPQRSTUVWXYZabcdefghijklmnopqrstuvwxyz0123456789''"

definition key_id_ok :: "string \<Rightarrow> bool" where
  "key_id_ok s \<longleftrightarrow> (case s of [] \<Rightarrow> False
     | c # cs \<Rightarrow> c \<in> set alphanumeric \<and> length cs \<le> 127 \<and> all_in (alphanumeric @ ''._:/-'') cs)"

definition base64url_ok :: "string \<Rightarrow> bool" where
  "base64url_ok s \<longleftrightarrow> all_in base64url_alphabet s
     \<and> (case decode_base64url s of Inl _ \<Rightarrow> False | Inr _ \<Rightarrow> True)"

definition has_decoded_length :: "string \<Rightarrow> nat \<Rightarrow> bool" where
  "has_decoded_length s expectedBytes \<longleftrightarrow>
     (case decode_base64url s of Inl _ \<Rightarrow> False | Inr bs \<Rightarrow> length bs = expectedBytes)"

definition safe_integer_ok :: "int \<Rightarrow> bool" where
  "safe_integer_ok n \<longleftrightarrow> 0 \<le> n \<and> n \<le> max_safe_integer"

definition uint32_ok :: "int \<Rightarrow> bool" where
  "uint32_ok n \<longleftrightarrow> safe_integer_ok n \<and> n \<le> max_uint32"

definition int_between :: "int \<Rightarrow> int \<Rightarrow> int \<Rightarrow> bool" where
  "int_between lo hi n \<longleftrightarrow> safe_integer_ok n \<and> lo \<le> n \<and> n \<le> hi"

section \<open>Question intervals\<close>

record question_interval =
  qi_schemaVersion :: string
  qi_intervalVersion :: string
  qi_questionId :: string
  qi_ordinal :: int
  qi_startMs :: int
  qi_endMs :: int
  qi_recordedDurationMs :: int
  qi_source :: string

definition question_interval_ok :: "(string \<Rightarrow> bool) \<Rightarrow> question_interval \<Rightarrow> bool" where
  "question_interval_ok uuid q \<longleftrightarrow>
     qi_schemaVersion q = ''1'' \<and> qi_intervalVersion q = interval_version
     \<and> uuid (qi_questionId q)
     \<and> 0 \<le> qi_ordinal q \<and> qi_ordinal q \<le> int max_proof_question_count - 1
     \<and> 0 \<le> qi_startMs q \<and> qi_startMs q \<le> max_recording_duration_ms - 1
     \<and> 0 < qi_endMs q \<and> qi_endMs q \<le> max_recording_duration_ms
     \<and> 0 < qi_recordedDurationMs q \<and> qi_recordedDurationMs q \<le> max_recording_duration_ms
     \<and> qi_source q = interval_source
     \<and> \<not> (qi_endMs q \<le> qi_startMs q \<or> qi_endMs q > qi_recordedDurationMs q)"

text \<open>The scan of the array's refinement: the identifiers seen, the end of the previous interval
  and whether an issue has been added.\<close>

record interval_scan =
  is_questionIds :: "string list"
  is_previousEnd :: "int option"
  is_ok :: bool

definition scan_interval ::
  "question_interval list \<Rightarrow> interval_scan \<Rightarrow> nat \<times> question_interval \<Rightarrow> interval_scan" where
  "scan_interval intervals st = (\<lambda>(index, q).
     st\<lparr>is_questionIds := qi_questionId q # is_questionIds st,
        is_previousEnd := Some (qi_endMs q),
        is_ok := (is_ok st
          \<and> \<not> qi_ordinal q \<noteq> int index
          \<and> \<not> qi_questionId q \<in> set (is_questionIds st)
          \<and> \<not> (case is_previousEnd st of None \<Rightarrow> False | Some e \<Rightarrow> qi_startMs q \<noteq> e)
          \<and> \<not> (index > 0 \<and> qi_recordedDurationMs q \<noteq> qi_recordedDurationMs (intervals ! 0)))\<rparr>)"

definition question_intervals_ok :: "(string \<Rightarrow> bool) \<Rightarrow> question_interval list \<Rightarrow> bool" where
  "question_intervals_ok uuid intervals \<longleftrightarrow>
     list_all (question_interval_ok uuid) intervals
     \<and> 1 \<le> length intervals \<and> length intervals \<le> max_proof_question_count
     \<and> is_ok (foldl (scan_interval intervals)
         \<lparr>is_questionIds = [], is_previousEnd = None, is_ok = True\<rparr>
         (zip [0..<length intervals] intervals))"

datatype interval_error =
  IntervalSchemaError | PlanMismatch | AnswerTooLong | TimelineNotCovered

definition validate_question_intervals ::
  "(string \<Rightarrow> bool) \<Rightarrow> question_interval list \<Rightarrow> string list \<Rightarrow> int
     \<Rightarrow> interval_error + question_interval list" where
  "validate_question_intervals uuid intervals expectedQuestionIds recordingDurationMs =
     (if \<not> question_intervals_ok uuid intervals then Inl IntervalSchemaError
      else if length expectedQuestionIds \<noteq> length intervals
          \<or> list_ex (\<lambda>(i, q). qi_questionId q \<noteq> expectedQuestionIds ! i
               \<or> qi_recordedDurationMs q \<noteq> recordingDurationMs)
             (zip [0..<length intervals] intervals) then Inl PlanMismatch
      else if list_ex (\<lambda>q. qi_endMs q - qi_startMs q > max_proof_question_answer_ms) intervals
        then Inl AnswerTooLong
      else if intervals = [] \<or> qi_startMs (hd intervals) > max_initial_question_gap_ms
          \<or> \<bar>recordingDurationMs - qi_endMs (last intervals)\<bar> > max_final_question_end_drift_ms
        then Inl TimelineNotCovered
      else Inr intervals)"


subsection \<open>What accepted intervals look like\<close>

lemma zip_upt_Cons: "zip [n..<n + length (x # xs)] (x # xs) = (n, x) # zip [Suc n..<Suc n + length xs] xs"
  by (simp add: upt_conv_Cons del: upt_Suc)

fun interval_chain ::
  "question_interval list \<Rightarrow> nat \<Rightarrow> string set \<Rightarrow> int option \<Rightarrow> question_interval list \<Rightarrow> bool" where
  "interval_chain ivs n seen prev [] \<longleftrightarrow> True"
| "interval_chain ivs n seen prev (q # qs) \<longleftrightarrow> qi_ordinal q = int n \<and> qi_questionId q \<notin> seen
     \<and> (\<forall>e\<in>set_option prev. qi_startMs q = e)
     \<and> (0 < n \<longrightarrow> qi_recordedDurationMs q = qi_recordedDurationMs (ivs ! 0))
     \<and> interval_chain ivs (Suc n) (insert (qi_questionId q) seen) (Some (qi_endMs q)) qs"

lemma scan_intervals_chain:
  "is_ok (foldl (scan_interval ivs) st (zip [n..<n + length qs] qs))
     \<longleftrightarrow> is_ok st \<and> interval_chain ivs n (set (is_questionIds st)) (is_previousEnd st) qs"
proof (induction qs arbitrary: n st)
  case (Cons q qs)
  show ?case
    unfolding zip_upt_Cons foldl_Cons Cons.IH
    by (auto simp: scan_interval_def split: option.splits)
qed simp

lemma interval_chain_distinct:
  "interval_chain ivs n seen prev qs \<Longrightarrow>
     distinct (map qi_questionId qs) \<and> set (map qi_questionId qs) \<inter> seen = {}"
  by (induction ivs n seen prev qs rule: interval_chain.induct) auto

lemma interval_chain_contiguous:
  "interval_chain ivs n seen prev qs \<Longrightarrow> Suc i < length qs \<Longrightarrow>
     qi_startMs (qs ! Suc i) = qi_endMs (qs ! i)"
proof (induction ivs n seen prev qs arbitrary: i rule: interval_chain.induct)
  case (2 ivs n seen prev q qs)
  then show ?case by (cases i; cases qs) auto
qed simp

lemma interval_chain_sum:
  "interval_chain ivs n seen prev qs \<Longrightarrow> qs \<noteq> [] \<Longrightarrow>
     (\<Sum>q\<leftarrow>qs. qi_endMs q - qi_startMs q) = qi_endMs (last qs) - qi_startMs (hd qs)"
proof (induction ivs n seen prev qs rule: interval_chain.induct)
  case (2 ivs n seen prev q qs)
  then show ?case by (cases qs) auto
qed simp

lemma question_intervals_ok_chain:
  "question_intervals_ok uuid qs \<Longrightarrow> list_all (question_interval_ok uuid) qs \<and> qs \<noteq> []
     \<and> length qs \<le> 5 \<and> interval_chain qs 0 {} None qs"
  using scan_intervals_chain [of qs
      "\<lparr>is_questionIds = [], is_previousEnd = None, is_ok = True\<rparr>" 0 qs]
  by (auto simp: question_intervals_ok_def max_proof_question_count_def)

lemma contiguous_covers:
  assumes "interval_chain ivs n seen prev qs" and "qs \<noteq> []"
    and "qi_startMs (hd qs) \<le> t" and "t < qi_endMs (last qs)"
  shows "\<exists>i<length qs. qi_startMs (qs ! i) \<le> t \<and> t < qi_endMs (qs ! i)"
  using assms
proof (induction ivs n seen prev qs rule: interval_chain.induct)
  case (2 ivs n seen prev q qs)
  show ?case
  proof (cases "t < qi_endMs q")
    case True
    then show ?thesis
      using 2 by (intro exI [of _ 0]) simp
  next
    case False
    then have ne: "qs \<noteq> []"
      using 2 by auto
    then have "qi_startMs (hd qs) \<le> t"
      using 2 False by (cases qs) auto
    then obtain i where "i < length qs" "qi_startMs (qs ! i) \<le> t" "t < qi_endMs (qs ! i)"
      using 2 ne by auto
    then show ?thesis
      by (intro exI [of _ "Suc i"]) simp
  qed
qed simp

lemma contiguous_ordered:
  assumes c: "interval_chain ivs n seen prev qs" and ok: "\<forall>q\<in>set qs. qi_startMs q < qi_endMs q"
    and "i < j" and "j < length qs"
  shows "qi_endMs (qs ! i) \<le> qi_startMs (qs ! j)"
  using assms(3,4)
proof (induction j)
  case (Suc j)
  have s: "qi_startMs (qs ! Suc j) = qi_endMs (qs ! j)"
    using c Suc.prems by (intro interval_chain_contiguous) simp_all
  show ?case
  proof (cases "i = j")
    case False
    then have "qi_endMs (qs ! i) \<le> qi_startMs (qs ! j)"
      using Suc by simp
    moreover have "qi_startMs (qs ! j) < qi_endMs (qs ! j)"
      using ok Suc.prems by simp
    ultimately show ?thesis using s by simp
  qed (use s in simp)
qed simp


lemma list_ex_enumerate:
  "list_ex P (zip [0..<length xs] xs) \<longleftrightarrow> (\<exists>i<length xs. P (i, xs ! i))"
proof -
  have "x \<in> set (zip [0..<length xs] xs) \<longleftrightarrow> (\<exists>i<length xs. x = (i, xs ! i))" for x
    by (cases x) (auto simp: set_zip intro: exI [of _ "fst x"])
  then show ?thesis by (auto simp: list_ex_iff)
qed

lemmas interval_limits = max_proof_question_answer_ms_def max_initial_question_gap_ms_def
  max_final_question_end_drift_ms_def

lemma validate_question_intervals_iff:
  "validate_question_intervals uuid ivs ids dur = Inr qs \<longleftrightarrow>
     qs = ivs \<and> question_intervals_ok uuid ivs \<and> map qi_questionId ivs = ids
     \<and> (\<forall>q\<in>set ivs. qi_recordedDurationMs q = dur \<and> qi_endMs q - qi_startMs q \<le> 120000)
     \<and> qi_startMs (hd ivs) \<le> 1000 \<and> \<bar>dur - qi_endMs (last ivs)\<bar> \<le> 1000"
proof (cases "question_intervals_ok uuid ivs \<and> map qi_questionId ivs = ids
    \<and> (\<forall>q\<in>set ivs. qi_recordedDurationMs q = dur)")
  case True
  then have "ivs \<noteq> []" and "length ids = length ivs"
    by (auto dest: question_intervals_ok_chain)
  moreover have "\<not> list_ex (\<lambda>(i, q). qi_questionId q \<noteq> ids ! i
      \<or> qi_recordedDurationMs q \<noteq> dur) (zip [0..<length ivs] ivs)"
    using True by (auto simp: list_ex_enumerate)
  ultimately show ?thesis
    using True unfolding validate_question_intervals_def interval_limits
    by (simp add: list_ex_iff not_less) (meson not_le)
next
  case False
  have "validate_question_intervals uuid ivs ids dur \<noteq> Inr qs"
  proof
    assume v: "validate_question_intervals uuid ivs ids dur = Inr qs"
    let ?bad = "length ids \<noteq> length ivs \<or> list_ex (\<lambda>(i, q). qi_questionId q \<noteq> ids ! i
        \<or> qi_recordedDurationMs q \<noteq> dur) (zip [0..<length ivs] ivs)"
    have ok: "question_intervals_ok uuid ivs"
      by (rule ccontr) (use v in \<open>simp add: validate_question_intervals_def\<close>)
    have "\<not> ?bad"
    proof
      assume ?bad
      with ok have "validate_question_intervals uuid ivs ids dur = Inl PlanMismatch"
        unfolding validate_question_intervals_def by (simp only: if_True if_False simp_thms)
      with v show False by simp
    qed
    then have l: "length ids = length ivs"
      and e: "\<And>i. i < length ivs \<Longrightarrow> qi_questionId (ivs ! i) = ids ! i
        \<and> qi_recordedDurationMs (ivs ! i) = dur"
      unfolding list_ex_enumerate by auto
    have "map qi_questionId ivs = ids"
      using l e by (intro nth_equalityI) simp_all
    moreover have "\<forall>q\<in>set ivs. qi_recordedDurationMs q = dur"
      using e by (metis in_set_conv_nth)
    ultimately have "map qi_questionId ivs = ids
        \<and> (\<forall>q\<in>set ivs. qi_recordedDurationMs q = dur)" by blast
    with ok False show False by blast
  qed
  with False show ?thesis by blast
qed

section \<open>Properties of the question intervals\<close>

text \<open>Intervals accepted against the server's proof plan are exactly one answer for each
  planned question, in the plan's order and with no question twice; they tile the recording:
  every instant from the first start (at most one second in) to the last end (within one
  second of the accepted duration) lies in exactly one question's interval, no answer is
  longer than two minutes, and their lengths add up to the covered time.\<close>

theorem accepted_intervals_tile_the_recording:
  assumes "validate_question_intervals uuid ivs ids dur = Inr qs"
  shows "map qi_questionId qs = ids \<and> distinct ids \<and> 1 \<le> length qs \<and> length qs \<le> 5
    \<and> (qi_startMs (hd qs) \<le> t \<and> t < qi_endMs (last qs) \<longrightarrow>
        (\<exists>!i. i < length qs \<and> qi_startMs (qs ! i) \<le> t \<and> t < qi_endMs (qs ! i)))
    \<and> (\<Sum>q\<leftarrow>qs. qi_endMs q - qi_startMs q) = qi_endMs (last qs) - qi_startMs (hd qs)
    \<and> dur - 2000 \<le> qi_endMs (last qs) - qi_startMs (hd qs)
    \<and> (i < length qs \<longrightarrow> qi_endMs (qs ! i) - qi_startMs (qs ! i) \<le> 120000)"
proof -
  from assms have qs: "qs = ivs" and ok: "question_intervals_ok uuid qs"
    and ids: "map qi_questionId qs = ids"
    and a: "\<forall>q\<in>set qs. qi_endMs q - qi_startMs q \<le> 120000"
    and b: "qi_startMs (hd qs) \<le> 1000" "\<bar>dur - qi_endMs (last qs)\<bar> \<le> 1000"
    unfolding validate_question_intervals_iff by auto
  from question_intervals_ok_chain [OF ok] have c: "interval_chain qs 0 {} None qs"
    and ne: "qs \<noteq> []" "length qs \<le> 5" and each: "list_all (question_interval_ok uuid) qs"
    by blast+
  have pos: "\<forall>q\<in>set qs. qi_startMs q < qi_endMs q"
    using each by (auto simp: list_all_iff question_interval_ok_def)
  have unique: "j = i" if "i < length qs" "j < length qs" "qi_startMs (qs ! i) \<le> t"
    "t < qi_endMs (qs ! i)" "qi_startMs (qs ! j) \<le> t" "t < qi_endMs (qs ! j)" for i j
    using contiguous_ordered [OF c pos, of i j] contiguous_ordered [OF c pos, of j i] that
    by (metis linorder_neqE_nat not_less order.trans)
  have "\<exists>!i. i < length qs \<and> qi_startMs (qs ! i) \<le> t \<and> t < qi_endMs (qs ! i)"
    if "qi_startMs (hd qs) \<le> t" "t < qi_endMs (last qs)"
    using contiguous_covers [OF c ne(1) that] unique by metis
  moreover have "distinct ids"
    using interval_chain_distinct [OF c] ids by simp
  moreover have "1 \<le> length qs"
    using ne by (simp add: Suc_le_eq)
  moreover have "qi_endMs (qs ! i) - qi_startMs (qs ! i) \<le> 120000" if "i < length qs"
    using a that by simp
  moreover have "dur - 2000 \<le> qi_endMs (last qs) - qi_startMs (hd qs)"
    using b by arith
  ultimately show ?thesis
    using ids ne(2) interval_chain_sum [OF c ne(1)] by blast
qed

definition demo_interval :: "int \<Rightarrow> int \<Rightarrow> int \<Rightarrow> question_interval" where
  "demo_interval i from to = \<lparr>qi_schemaVersion = ''1'', qi_intervalVersion = interval_version,
     qi_questionId = (if i = 0 then ''a'' else ''b''), qi_ordinal = i, qi_startMs = from,
     qi_endMs = to, qi_recordedDurationMs = 90000, qi_source = interval_source\<rparr>"

theorem accepted_intervals_tile_the_recording_witness:
  "validate_question_intervals (\<lambda>_. True) [demo_interval 0 500 40000, demo_interval 1 40000 89500]
     [''a'', ''b''] 90000 = Inr [demo_interval 0 500 40000, demo_interval 1 40000 89500]
   \<and> (\<exists>!i. i < length [demo_interval 0 500 40000, demo_interval 1 40000 89500]
       \<and> qi_startMs ([demo_interval 0 500 40000, demo_interval 1 40000 89500] ! i) \<le> 40000
       \<and> 40000 < qi_endMs ([demo_interval 0 500 40000, demo_interval 1 40000 89500] ! i))"
proof -
  let ?qs = "[demo_interval 0 500 40000, demo_interval 1 40000 89500]"
  have v: "validate_question_intervals (\<lambda>_. True) ?qs [''a'', ''b''] 90000 = Inr ?qs"
    by code_simp
  have "qi_startMs (hd ?qs) \<le> 40000 \<and> 40000 < qi_endMs (last ?qs)"
    by (simp add: demo_interval_def)
  then show ?thesis
    using accepted_intervals_tile_the_recording [OF v, of 40000] v by blast
qed

end
