(* ===== verification/Json.thy ===== *)
theory Json
  imports Encoding
begin

text \<open>
  The part of \<open>JSON.stringify\<close> the sources use: strings, integers, booleans, null, arrays and objects, with
  the escapes ECMAScript prescribes for the characters the model has. The theory shows that
  the text determines the value (\<open>stringify_inj\<close>): the protocol signs and hashes such texts,
  so two values with one text would be interchangeable under a signature.
\<close>

section \<open>Definitions\<close>

datatype json = JStr string | JNum int | JBool bool | JNull | JArr "json list" | JObj "(string \<times> json) list"

definition json_escape :: "char \<Rightarrow> string" where
  "json_escape c =
     (let n = (of_char c :: nat) in
      if n = 34 then [CHR 0x5C, CHR 0x22]
      else if n = 92 then [CHR 0x5C, CHR 0x5C]
      else if n = 8 then [CHR 0x5C, CHR ''b'']
      else if n = 9 then [CHR 0x5C, CHR ''t'']
      else if n = 10 then [CHR 0x5C, CHR ''n'']
      else if n = 12 then [CHR 0x5C, CHR ''f'']
      else if n = 13 then [CHR 0x5C, CHR ''r'']
      else if n < 32 then [CHR 0x5C, CHR ''u'', CHR ''0'', CHR ''0'',
        hex_digit (n div 16), hex_digit (n mod 16)]
      else [c])"

definition json_quote :: "string \<Rightarrow> string" where
  "json_quote s = CHR 0x22 # concat (map json_escape s) @ [CHR 0x22]"

fun decimal :: "nat \<Rightarrow> string" where
  "decimal n = (if n < 10 then [char_of (48 + n)]
     else decimal (n div 10) @ [char_of (48 + n mod 10)])"

declare decimal.simps [simp del]

definition json_number :: "int \<Rightarrow> string" where
  "json_number n = (if n < 0 then CHR ''-'' # decimal (nat (- n)) else decimal (nat n))"

definition json_join :: "string list \<Rightarrow> string" where
  "json_join ts = (case ts of [] \<Rightarrow> [] | t # us \<Rightarrow> t @ concat (map (\<lambda>u. CHR '','' # u) us))"

fun stringify :: "json \<Rightarrow> string" where
  "stringify (JStr s) = json_quote s"
| "stringify (JNum n) = json_number n"
| "stringify (JBool b) = (if b then ''true'' else ''false'')"
| "stringify JNull = ''null''"
| "stringify (JArr js) = CHR ''['' # json_join (map stringify js) @ [CHR '']'']"
| "stringify (JObj ms) =
     CHR ''{'' # json_join (map (\<lambda>(k, j). json_quote k @ CHR '':'' # stringify j) ms) @ [CHR ''}'']"

section \<open>Strings\<close>

definition json_unescape :: "string \<Rightarrow> (char \<times> string) option" where
  "json_unescape t = (case t of [] \<Rightarrow> None
     | c # r \<Rightarrow> if c \<noteq> CHR 0x5C then Some (c, r)
        else (case r of [] \<Rightarrow> None
          | d # q \<Rightarrow> if d = CHR ''b'' then Some (CHR 0x08, q)
             else if d = CHR ''t'' then Some (CHR 0x09, q)
             else if d = CHR ''n'' then Some (CHR 0x0A, q)
             else if d = CHR ''f'' then Some (CHR 0x0C, q)
             else if d = CHR ''r'' then Some (CHR 0x0D, q)
             else if d = CHR ''u''
               then Some (char_of (16 * hex_value (q ! 2) + hex_value (q ! 3)), drop 4 q)
             else Some (d, q)))"

lemma special_chars:
  "char_of (34 :: nat) = CHR 0x22" "char_of (92 :: nat) = CHR 0x5C" "char_of (8 :: nat) = CHR 0x08"
  "char_of (9 :: nat) = CHR 0x09" "char_of (10 :: nat) = CHR 0x0A" "char_of (12 :: nat) = CHR 0x0C"
  "char_of (13 :: nat) = CHR 0x0D"
  by code_simp+

lemma special_escapes:
  "json_escape (CHR 0x22) = [CHR 0x5C, CHR 0x22]" "json_escape (CHR 0x5C) = [CHR 0x5C, CHR 0x5C]"
  "json_escape (CHR 0x08) = [CHR 0x5C, CHR ''b'']" "json_escape (CHR 0x09) = [CHR 0x5C, CHR ''t'']"
  "json_escape (CHR 0x0A) = [CHR 0x5C, CHR ''n'']" "json_escape (CHR 0x0C) = [CHR 0x5C, CHR ''f'']"
  "json_escape (CHR 0x0D) = [CHR 0x5C, CHR ''r'']"
  by code_simp+

lemma json_unescape_escape: "json_unescape (json_escape c @ r) = Some (c, r)"
proof -
  define n where "n = (of_char c :: nat)"
  have c: "c = char_of n"
    by (simp add: n_def)
  consider "n \<in> {34, 92, 8, 9, 10, 12, 13}"
    | "n < 32" "n \<notin> {8, 9, 10, 12, 13}" | "32 \<le> n" "n \<noteq> 34" "n \<noteq> 92"
    by force
  then show ?thesis
  proof cases
    case 1
    then have "c \<in> {CHR 0x22, CHR 0x5C, CHR 0x08, CHR 0x09, CHR 0x0A, CHR 0x0C, CHR 0x0D}"
      using c special_chars by auto
    then show ?thesis
      by (auto simp: special_escapes json_unescape_def)
  next
    case 2
    then have "json_escape c = [CHR 0x5C, CHR ''u'', CHR ''0'', CHR ''0'',
        hex_digit (n div 16), hex_digit (n mod 16)]"
      by (simp add: json_escape_def n_def [symmetric] Let_def)
    then show ?thesis
      using 2 by (simp add: json_unescape_def c hex_value_digit)
  next
    case 3
    then have "json_escape c = [c]"
      by (simp add: json_escape_def n_def [symmetric] Let_def)
    moreover have "c \<noteq> CHR 0x5C"
      using 3 by (auto simp: n_def)
    ultimately show ?thesis
      by (simp add: json_unescape_def)
  qed
qed


lemma json_escape_unique:
  "json_escape c @ r = json_escape d @ q \<longleftrightarrow> c = d \<and> r = q"
  by (metis json_unescape_escape option.inject prod.inject)

lemma json_escape_Cons: "\<exists>d t. json_escape c = d # t \<and> d \<noteq> CHR 0x22"
  by (auto simp: json_escape_def Let_def)

lemma json_quote_unique:
  "json_quote s @ r = json_quote t @ q \<longleftrightarrow> s = t \<and> r = q"
proof -
  have "concat (map json_escape s) @ CHR 0x22 # r = concat (map json_escape t) @ CHR 0x22 # q
      \<longleftrightarrow> s = t \<and> r = q"
  proof (induction s arbitrary: t)
    case Nil
    then show ?case
      by (cases t) (use json_escape_Cons in \<open>auto, metis append_Cons list.inject\<close>)
  next
    case (Cons c s)
    show ?case
    proof (cases t)
      case Nil
      then show ?thesis
        using json_escape_Cons [of c] by auto
    next
      case (Cons d t')
      then show ?thesis
        using Cons.IH [of t'] by (simp add: json_escape_unique)
    qed
  qed
  then show ?thesis
    by (simp add: json_quote_def)
qed

section \<open>Numbers\<close>

definition is_digit :: "char \<Rightarrow> bool" where
  "is_digit c \<longleftrightarrow> c \<in> set ''0123456789-''"

definition decimal_value :: "string \<Rightarrow> nat" where
  "decimal_value s = foldl (\<lambda>n c. 10 * n + (of_char c - 48)) 0 s"

lemma digit_chars:
  assumes "d < (10 :: nat)"
  shows "char_of (48 + d) \<in> set ''0123456789'' \<and> of_char (char_of (48 + d) :: char) = 48 + d"
  (is "?P d")
proof -
  have "list_all ?P [0..<10]"
    by code_simp
  then show ?thesis
    using assms unfolding list_all_iff by (metis atLeastLessThan_iff le0 set_upt)
qed

lemma decimal_digits: "decimal n \<noteq> [] \<and> set (decimal n) \<subseteq> set ''0123456789''"
proof (induction n rule: decimal.induct)
  case (1 n)
  show ?case
  proof (cases "n < 10")
    case True
    then show ?thesis
      using digit_chars [of n] by (subst (1 2) decimal.simps) simp
  next
    case False
    then show ?thesis
      using 1 digit_chars [of "n mod 10"] by (subst (1 2) decimal.simps) simp
  qed
qed

lemma decimal_value_decimal: "decimal_value (decimal n) = n"
proof (induction n rule: decimal.induct)
  case (1 n)
  show ?case
  proof (cases "n < 10")
    case True
    then show ?thesis
      using digit_chars [of n] by (subst decimal.simps) (simp add: decimal_value_def)
  next
    case False
    then have "decimal_value (decimal n) = 10 * decimal_value (decimal (n div 10)) + n mod 10"
      using digit_chars [of "n mod 10"] by (subst decimal.simps) (simp add: decimal_value_def)
    then show ?thesis
      using 1 False by simp
  qed
qed


definition delimited :: "string \<Rightarrow> bool" where
  "delimited r \<longleftrightarrow> (case r of [] \<Rightarrow> True | c # _ \<Rightarrow> c \<in> {CHR '','', CHR '']'', CHR ''}''})"

lemma delimited_simps [simp]:
  "delimited []" "delimited (CHR '','' # r)" "delimited (CHR '']'' # r)" "delimited (CHR ''}'' # r)"
  by (simp_all add: delimited_def)

lemma delimited_not_digit: "delimited r \<Longrightarrow> takeWhile is_digit r = []"
  by (cases r) (auto simp: delimited_def is_digit_def)

lemma decimal_char: "c \<in> set (decimal k) \<Longrightarrow> is_digit c \<and> c \<noteq> CHR ''-''"
proof -
  assume "c \<in> set (decimal k)"
  then have "c \<in> set ''0123456789''"
    using decimal_digits by blast
  then show ?thesis by (auto simp: is_digit_def)
qed

lemma json_number_digits: "\<forall>c\<in>set (json_number n). is_digit c"
  using decimal_char by (auto simp: json_number_def) (simp add: is_digit_def)

lemma json_number_takeWhile: "delimited r \<Longrightarrow> takeWhile is_digit (json_number n @ r) = json_number n"
  using json_number_digits [of n] delimited_not_digit [of r] by (simp add: takeWhile_append2)

lemma json_number_inj: "json_number m = json_number n \<longleftrightarrow> m = n"
proof
  assume eq: "json_number m = json_number n"
  have h: "hd (decimal k) \<noteq> CHR ''-''" "decimal k \<noteq> []" for k
    using decimal_digits [of k] hd_in_set [of "decimal k"] decimal_char by blast+
  have "(m < 0) = (n < 0)"
    using eq h by (auto simp: json_number_def split: if_splits) (metis list.sel(1))+
  moreover have d: "decimal a = decimal b \<longleftrightarrow> a = b" for a b
    by (metis decimal_value_decimal)
  ultimately show "m = n"
    using eq by (auto simp: json_number_def d split: if_splits)
qed simp

lemma json_number_unique:
  assumes "delimited r" and "delimited q"
  shows "json_number m @ r = json_number n @ q \<longleftrightarrow> m = n \<and> r = q"
  using assms json_number_takeWhile json_number_inj by (metis append_same_eq same_append_eq)

section \<open>Values\<close>

text \<open>\<open>settled f x\<close>: the text \<open>f x\<close>, when something a value cannot continue with follows, is
  no other value's text.\<close>

definition settled :: "('a \<Rightarrow> string) \<Rightarrow> 'a \<Rightarrow> bool" where
  "settled f x \<longleftrightarrow> (\<forall>y r q. delimited r \<longrightarrow> delimited q \<longrightarrow> f x @ r = f y @ q \<longrightarrow> x = y \<and> r = q)"

definition rest_text :: "('a \<Rightarrow> string) \<Rightarrow> char \<Rightarrow> 'a list \<Rightarrow> string" where
  "rest_text f close xs = concat (map (\<lambda>x. CHR '','' # f x) xs) @ [close]"

lemma rest_text_simps [simp]:
  "rest_text f close [] = [close]"
  "rest_text f close (x # xs) = CHR '','' # f x @ rest_text f close xs"
  by (simp_all add: rest_text_def)

lemma rest_text_delimited:
  "close \<in> {CHR '']'', CHR ''}''} \<Longrightarrow> delimited (rest_text f close xs @ r)"
  by (cases xs) auto

lemma rest_text_unique:
  assumes close: "close \<in> {CHR '']'', CHR ''}''}" and "\<forall>x\<in>set xs. settled f x"
    and "rest_text f close xs @ r = rest_text f close ys @ q"
  shows "xs = ys \<and> r = q"
  using assms(2,3)
proof (induction xs arbitrary: ys)
  case Nil
  then show ?case using close by (cases ys) auto
next
  case (Cons x xs)
  show ?case
  proof (cases ys)
    case Nil
    then show ?thesis using Cons.prems close by auto
  next
    case (Cons y ys')
    then have "f x @ (rest_text f close xs @ r) = f y @ (rest_text f close ys' @ q)"
      using Cons.prems by simp
    moreover have "settled f x"
      using Cons.prems by simp
    ultimately have "x = y \<and> rest_text f close xs @ r = rest_text f close ys' @ q"
      using rest_text_delimited [OF close] unfolding settled_def by blast
    then show ?thesis
      using Cons Cons.prems(1) Cons.IH [of ys'] by simp
  qed
qed

lemma json_join_text: "json_join (map f (x # xs)) @ [close] = f x @ rest_text f close xs"
  by (simp add: json_join_def rest_text_def comp_def)

lemma join_unique:
  assumes close: "close \<in> {CHR '']'', CHR ''}''}" and ok: "\<forall>x\<in>set xs. settled f x"
    and start: "\<And>x r. f x \<noteq> [] \<and> hd (f x) \<noteq> close"
    and eq: "json_join (map f xs) @ close # r = json_join (map f ys) @ close # q"
  shows "xs = ys \<and> r = q"
proof (cases xs; cases ys)
  assume "xs = []" and "ys = []"
  then show ?thesis using eq by (simp add: json_join_def)
next
  fix y ys' assume "xs = []" and "ys = y # ys'"
  then show ?thesis
    using eq start [of y] by (cases "f y") (auto simp: json_join_def)
next
  fix x xs' assume "xs = x # xs'" and "ys = []"
  then show ?thesis
    using eq start [of x] by (cases "f x") (auto simp: json_join_def)
next
  fix x xs' y ys' assume xs: "xs = x # xs'" and ys: "ys = y # ys'"
  have "f x @ (rest_text f close xs' @ r) = f y @ (rest_text f close ys' @ q)"
    using eq json_join_text [of f x xs' close] json_join_text [of f y ys' close]
    unfolding xs ys by (metis append_Cons append_assoc self_append_conv2)
  then have "x = y \<and> rest_text f close xs' @ r = rest_text f close ys' @ q"
    using ok rest_text_delimited [OF close] unfolding xs settled_def by (metis list.set_intros(1))
  then show ?thesis
    using rest_text_unique [OF close, of xs' f r ys' q] ok unfolding xs ys by simp
qed


definition member_text :: "string \<times> json \<Rightarrow> string" where
  "member_text m = json_quote (fst m) @ CHR '':'' # stringify (snd m)"

lemma stringify_JObj: "stringify (JObj ms) = CHR ''{'' # json_join (map member_text ms) @ [CHR ''}'']"
  by (simp add: member_text_def case_prod_unfold cong: map_cong)

lemma json_quote_Cons: "json_quote s = CHR 0x22 # tl (json_quote s)"
  by (simp add: json_quote_def)

lemma json_number_start: "json_number n \<noteq> [] \<and> is_digit (hd (json_number n))"
proof -
  have "json_number n \<noteq> []"
    using decimal_digits by (simp add: json_number_def)
  then show ?thesis
    using json_number_digits [of n] hd_in_set by blast
qed

text \<open>The first character tells the kinds of value apart.\<close>

fun first_char :: "json \<Rightarrow> char \<Rightarrow> bool" where
  "first_char (JStr s) c \<longleftrightarrow> c = CHR 0x22"
| "first_char (JNum n) c \<longleftrightarrow> is_digit c"
| "first_char (JBool b) c \<longleftrightarrow> c = (if b then CHR ''t'' else CHR ''f'')"
| "first_char JNull c \<longleftrightarrow> c = CHR ''n''"
| "first_char (JArr js) c \<longleftrightarrow> c = CHR ''[''"
| "first_char (JObj ms) c \<longleftrightarrow> c = CHR ''{''"

lemma stringify_first: "stringify j \<noteq> [] \<and> first_char j (hd (stringify j))"
  using json_number_start by (cases j) (auto simp: json_quote_def)

lemma first_char_close: "first_char j c \<Longrightarrow> c \<noteq> CHR '']'' \<and> c \<noteq> CHR ''}''"
  by (cases j) (auto simp: is_digit_def split: if_splits)

lemma stringify_start: "stringify j \<noteq> [] \<and> hd (stringify j) \<noteq> CHR '']''"
  using stringify_first [of j] first_char_close by blast

lemma member_text_start: "member_text m \<noteq> [] \<and> hd (member_text m) \<noteq> CHR ''}''"
  by (simp add: member_text_def json_quote_def)

lemma stringify_same_kind:
  assumes "stringify j @ r = stringify k @ q"
  shows "\<exists>c. first_char j c \<and> first_char k c"
  using assms stringify_first [of j] stringify_first [of k]
  by (metis hd_append2)

lemma settled_member:
  assumes "settled stringify (snd m)"
  shows "settled member_text m"
  unfolding settled_def
proof (intro allI impI)
  fix n r q
  assume dr: "delimited r" and dq: "delimited q" and "member_text m @ r = member_text n @ q"
  then have "json_quote (fst m) @ CHR '':'' # stringify (snd m) @ r
      = json_quote (fst n) @ CHR '':'' # stringify (snd n) @ q"
    by (simp add: member_text_def)
  then have "fst m = fst n" and "stringify (snd m) @ r = stringify (snd n) @ q"
    by (simp_all add: json_quote_unique)
  then show "m = n \<and> r = q"
    using assms dr dq unfolding settled_def by (metis prod.expand)
qed

lemma stringify_settled: "settled stringify j"
proof (induction j)
  case (JStr s)
  show ?case
    unfolding settled_def
  proof (intro allI impI)
    fix k r q assume eq: "stringify (JStr s) @ r = stringify k @ q"
    from stringify_same_kind [OF eq] obtain t where "k = JStr t"
      by (cases k) (auto simp: is_digit_def split: if_splits)
    then show "JStr s = k \<and> r = q"
      using eq json_quote_unique by simp
  qed
next
  case (JNum n)
  show ?case
    unfolding settled_def
  proof (intro allI impI)
    fix k r q
    assume d: "delimited r" "delimited q" and eq: "stringify (JNum n) @ r = stringify k @ q"
    from stringify_same_kind [OF eq] obtain m where "k = JNum m"
      by (cases k) (auto simp: is_digit_def split: if_splits)
    then show "JNum n = k \<and> r = q"
      using eq json_number_unique [OF d] by simp
  qed
next
  case (JBool b)
  show ?case
    unfolding settled_def
  proof (intro allI impI)
    fix k r q assume eq: "stringify (JBool b) @ r = stringify k @ q"
    from stringify_same_kind [OF eq] have "k = JBool b"
      by (cases k) (auto simp: is_digit_def split: if_splits)
    then show "JBool b = k \<and> r = q"
      using eq by simp
  qed
next
  case JNull
  show ?case
    unfolding settled_def
  proof (intro allI impI)
    fix k r q assume eq: "stringify JNull @ r = stringify k @ q"
    from stringify_same_kind [OF eq] have "k = JNull"
      by (cases k) (auto simp: is_digit_def split: if_splits)
    then show "JNull = k \<and> r = q"
      using eq by simp
  qed
next
  case (JArr js)
  then have ok: "\<forall>j\<in>set js. settled stringify j" by simp
  show ?case
    unfolding settled_def
  proof (intro allI impI)
    fix k r q assume eq: "stringify (JArr js) @ r = stringify k @ q"
    from stringify_same_kind [OF eq] obtain ks where k: "k = JArr ks"
      by (cases k) (auto simp: is_digit_def split: if_splits)
    have "js = ks \<and> r = q"
      by (rule join_unique [OF _ ok stringify_start]) (use eq k in simp_all)
    then show "JArr js = k \<and> r = q"
      using k by simp
  qed
next
  case (JObj ms)
  have ok: "\<forall>m\<in>set ms. settled member_text m"
  proof
    fix m assume "m \<in> set ms"
    then show "settled member_text m"
      using JObj [of m "snd m"] by (intro settled_member) (cases m, simp)
  qed
  show ?case
    unfolding settled_def
  proof (intro allI impI)
    fix k r q assume eq: "stringify (JObj ms) @ r = stringify k @ q"
    from stringify_same_kind [OF eq] obtain ns where k: "k = JObj ns"
      by (cases k) (auto simp: is_digit_def split: if_splits)
    have "ms = ns \<and> r = q"
      by (rule join_unique [OF _ ok member_text_start])
        (use eq k in \<open>simp_all add: stringify_JObj del: stringify.simps\<close>)
    then show "JObj ms = k \<and> r = q"
      using k by simp
  qed
qed

lemma stringify_inj: "stringify j = stringify k \<longleftrightarrow> j = k"
  using stringify_settled [of j] unfolding settled_def
  by (metis append_Nil2 delimited_simps(1))

section \<open>UTF-8\<close>

definition utf8_take :: "bytes \<Rightarrow> char \<times> bytes" where
  "utf8_take bs = (if unat (hd bs) < 128 then (char_of (unat (hd bs)), tl bs)
     else (char_of ((unat (hd bs) - 192) * 64 + (unat (hd (tl bs)) - 128)), tl (tl bs)))"

lemma utf8_take_char: "utf8_take (utf8_char c @ xs) = (c, xs)"
proof -
  define n where "n = (of_char c :: nat)"
  have n: "n < 256" and c: "c = char_of n"
    by (simp_all add: n_def)
  have u: "unat (of_nat m :: byte) = m" if "m < 256" for m
    using that by (simp add: unat_of_nat)
  show ?thesis
  proof (cases "n < 128")
    case True
    then show ?thesis
      unfolding utf8_char_def n_def [symmetric] utf8_take_def using u [OF n] by (simp add: c)
  next
    case False
    have "unat (of_nat (192 + n div 64) :: byte) = 192 + n div 64"
      and "unat (of_nat (128 + n mod 64) :: byte) = 128 + n mod 64"
      using n by (intro u; simp)+
    moreover have "n div 64 * 64 + n mod 64 = n"
      by simp
    ultimately show ?thesis
      unfolding utf8_char_def n_def [symmetric] utf8_take_def Let_def
      using False by (simp add: c del: of_nat_add)
  qed
qed

lemma utf8_char_unique: "utf8_char c @ xs = utf8_char d @ ys \<longleftrightarrow> c = d \<and> xs = ys"
  by (metis utf8_take_char prod.inject)

lemma utf8_char_ne: "utf8_char c \<noteq> []"
  by (simp add: utf8_char_def Let_def)

lemma utf8_bytes_inj: "utf8_bytes s = utf8_bytes t \<longleftrightarrow> s = t"
proof
  assume "utf8_bytes s = utf8_bytes t"
  then show "s = t"
  proof (induction s arbitrary: t)
    case Nil
    then show ?case by (cases t) (auto simp: utf8_bytes_def utf8_char_ne)
  next
    case (Cons c s)
    then show ?case
      by (cases t) (auto simp: utf8_bytes_def utf8_char_ne utf8_char_unique)
  qed
qed simp

end
