(* ===== verification/Manifest.thy ===== *)
theory Manifest
  imports Media_Schemas Json
begin

text \<open>
  The recording manifest and everything the client sends to finalise a recording
  (\<open>packages/media/src/schemas.ts\<close> from \<open>RecordingBindingSchema\<close> on) and the canonical bytes
  that are hashed and signed (\<open>canonical.ts\<close>). \<open>manifest_ok\<close> runs the two loops of the
  manifest's refinement; \<open>scan_chunks_closed\<close> and \<open>scan_parts_closed\<close> give them in closed form
  over the offsets of the records. \<open>canonical_manifest_inj\<close>: two accepted manifests with the
  same canonical bytes are equal.
\<close>

section \<open>Data\<close>

record recording_binding =
  bd_attemptId :: string
  bd_headSha :: string
  bd_objectId :: string

record chunk_aad_context = recording_binding +
  ca_codec :: string
  ca_chunkIndex :: int
  ca_nonceBase64url :: string
  ca_plaintextBytes :: int

record manifest_chunk =
  mc_index :: int
  mc_nonce :: string
  mc_plaintextBytes :: int
  mc_sealedBytes :: int
  mc_ciphertextSha256 :: string

record manifest_part =
  mp_partNumber :: int
  mp_firstChunkIndex :: int
  mp_lastChunkIndex :: int
  mp_byteLength :: int
  mp_sha256 :: string

record manifest_wrapping =
  mw_materialId :: string
  mw_keyId :: string
  mw_algorithm :: string
  mw_wrappedKeySha256 :: string

record recording_manifest =
  mf_protocolVersion :: int
  mf_suiteId :: string
  mf_attemptId :: string
  mf_headSha :: string
  mf_objectId :: string
  mf_codec :: string
  mf_noncePrefixBase64url :: string
  mf_wrapping :: manifest_wrapping
  mf_durationMs :: int
  mf_totalPlaintextBytes :: int
  mf_totalObjectBytes :: int
  mf_questionIntervals :: "question_interval list option"
  mf_chunks :: "manifest_chunk list"
  mf_parts :: "manifest_part list"

record public_wrapping_material = recording_binding +
  pm_protocolVersion :: int
  pm_suiteId :: string
  pm_materialId :: string
  pm_keyId :: string
  pm_algorithm :: string
  pm_spkiBase64url :: string
  pm_usableUntil :: string

record wrapped_master_key =
  wk_materialId :: string
  wk_keyId :: string
  wk_algorithm :: string
  wk_wrappedKeyBase64url :: string
  wk_wrappedKeySha256 :: string

record uploaded_part_receipt =
  up_partNumber :: int
  up_etag :: string

record provider_listed_part =
  pp_partNumber :: int
  pp_byteLength :: int
  pp_etag :: string

record finalize_recording =
  fr_manifest :: recording_manifest
  fr_manifestTagBase64url :: string
  fr_manifestDigest :: string
  fr_wrappedKey :: wrapped_master_key
  fr_uploadedParts :: "uploaded_part_receipt list"

section \<open>Schemas without refinement\<close>

definition recording_binding_ok :: "'a recording_binding_scheme \<Rightarrow> bool" where
  "recording_binding_ok b \<longleftrightarrow> canonical_uuid_ok (bd_attemptId b) \<and> head_sha_ok (bd_headSha b)
     \<and> canonical_uuid_ok (bd_objectId b)"

definition nonce_text_ok :: "nat \<Rightarrow> string \<Rightarrow> bool" where
  "nonce_text_ok n s \<longleftrightarrow> base64url_ok s \<and> has_decoded_length s n"

definition plaintext_bytes_ok :: "int \<Rightarrow> bool" where
  "plaintext_bytes_ok n \<longleftrightarrow> int_between 1 (int max_plaintext_chunk_bytes) n"

definition chunk_aad_ok :: "chunk_aad_context \<Rightarrow> bool" where
  "chunk_aad_ok c \<longleftrightarrow> recording_binding_ok c \<and> ca_codec c = recording_codec
     \<and> uint32_ok (ca_chunkIndex c) \<and> nonce_text_ok 12 (ca_nonceBase64url c)
     \<and> plaintext_bytes_ok (ca_plaintextBytes c)"

definition manifest_chunk_ok :: "manifest_chunk \<Rightarrow> bool" where
  "manifest_chunk_ok c \<longleftrightarrow> uint32_ok (mc_index c) \<and> nonce_text_ok 12 (mc_nonce c)
     \<and> plaintext_bytes_ok (mc_plaintextBytes c)
     \<and> int_between (int aes_gcm_tag_bytes + 1)
         (int max_plaintext_chunk_bytes + int aes_gcm_tag_bytes) (mc_sealedBytes c)
     \<and> sha256_hex_ok (mc_ciphertextSha256 c)"

definition part_number_ok :: "int \<Rightarrow> bool" where
  "part_number_ok n \<longleftrightarrow> int_between 1 (int max_multipart_parts) n"

definition object_bytes_ok :: "int \<Rightarrow> bool" where
  "object_bytes_ok n \<longleftrightarrow> int_between 1 (int max_recording_object_bytes) n"

definition manifest_part_ok :: "manifest_part \<Rightarrow> bool" where
  "manifest_part_ok p \<longleftrightarrow> part_number_ok (mp_partNumber p) \<and> uint32_ok (mp_firstChunkIndex p)
     \<and> uint32_ok (mp_lastChunkIndex p) \<and> object_bytes_ok (mp_byteLength p)
     \<and> sha256_hex_ok (mp_sha256 p)"

definition manifest_wrapping_ok :: "manifest_wrapping \<Rightarrow> bool" where
  "manifest_wrapping_ok w \<longleftrightarrow> canonical_uuid_ok (mw_materialId w) \<and> key_id_ok (mw_keyId w)
     \<and> mw_algorithm w = wrapping_algorithm \<and> sha256_hex_ok (mw_wrappedKeySha256 w)"

definition etag_ok :: "string \<Rightarrow> bool" where
  "etag_ok s \<longleftrightarrow> 1 \<le> length s \<and> length s \<le> 512"

definition uploaded_part_receipt_ok :: "uploaded_part_receipt \<Rightarrow> bool" where
  "uploaded_part_receipt_ok r \<longleftrightarrow> part_number_ok (up_partNumber r) \<and> etag_ok (up_etag r)"

definition provider_listed_part_ok :: "provider_listed_part \<Rightarrow> bool" where
  "provider_listed_part_ok p \<longleftrightarrow> part_number_ok (pp_partNumber p)
     \<and> object_bytes_ok (pp_byteLength p) \<and> etag_ok (pp_etag p)"

text \<open>A timestamp matches the pattern and denotes a real instant: \<open>parse_date\<close> is the
  platform's \<open>Date.parse\<close>, \<open>None\<close> for \<open>NaN\<close>.\<close>

definition digits_at :: "string \<Rightarrow> nat list \<Rightarrow> bool" where
  "digits_at s is \<longleftrightarrow> list_all (\<lambda>i. s ! i \<in> set ''0123456789'') is"

definition iso_timestamp_pattern :: "string \<Rightarrow> bool" where
  "iso_timestamp_pattern s \<longleftrightarrow> (length s = 20 \<or> length s = 24)
     \<and> digits_at s [0, 1, 2, 3, 5, 6, 8, 9, 11, 12, 14, 15, 17, 18]
     \<and> s ! 4 = CHR ''-'' \<and> s ! 7 = CHR ''-'' \<and> s ! 10 = CHR ''T'' \<and> s ! 13 = CHR '':''
     \<and> s ! 16 = CHR '':''
     \<and> (if length s = 20 then s ! 19 = CHR ''Z''
        else s ! 19 = CHR ''.'' \<and> digits_at s [20, 21, 22] \<and> s ! 23 = CHR ''Z'')"

definition canonical_timestamp_ok :: "(string \<Rightarrow> millis option) \<Rightarrow> string \<Rightarrow> bool" where
  "canonical_timestamp_ok parse_date s \<longleftrightarrow> iso_timestamp_pattern s \<and> parse_date s \<noteq> None"

definition public_wrapping_material_ok ::
  "(string \<Rightarrow> millis option) \<Rightarrow> public_wrapping_material \<Rightarrow> bool" where
  "public_wrapping_material_ok parse_date m \<longleftrightarrow> recording_binding_ok m
     \<and> pm_protocolVersion m = recording_protocol_version \<and> pm_suiteId m = recording_suite_id
     \<and> canonical_uuid_ok (pm_materialId m) \<and> key_id_ok (pm_keyId m)
     \<and> pm_algorithm m = wrapping_algorithm \<and> base64url_ok (pm_spkiBase64url m)
     \<and> 1 \<le> length (pm_spkiBase64url m) \<and> length (pm_spkiBase64url m) \<le> 16 * 1024
     \<and> canonical_timestamp_ok parse_date (pm_usableUntil m)"

definition wrapped_master_key_ok :: "wrapped_master_key \<Rightarrow> bool" where
  "wrapped_master_key_ok w \<longleftrightarrow> canonical_uuid_ok (wk_materialId w) \<and> key_id_ok (wk_keyId w)
     \<and> wk_algorithm w = wrapping_algorithm \<and> base64url_ok (wk_wrappedKeyBase64url w)
     \<and> 1 \<le> length (wk_wrappedKeyBase64url w) \<and> length (wk_wrappedKeyBase64url w) \<le> 2048
     \<and> sha256_hex_ok (wk_wrappedKeySha256 w)"


section \<open>The refinement of the manifest\<close>

text \<open>First loop: over the chunks, with both totals, the nonces seen and the offset at which
  every record of the object starts.\<close>

record chunk_scan =
  cs_plaintextTotal :: int
  cs_objectTotal :: int
  cs_nonces :: "string list"
  cs_offsets :: "int list"
  cs_ok :: bool

definition scan_chunk :: "bytes \<Rightarrow> chunk_scan \<Rightarrow> nat \<times> manifest_chunk \<Rightarrow> chunk_scan" where
  "scan_chunk prefix st = (\<lambda>(index, chunk).
     let objectTotal = cs_objectTotal st + (int record_header_bytes + mc_sealedBytes chunk) in
     \<lparr>cs_plaintextTotal = cs_plaintextTotal st + mc_plaintextBytes chunk,
      cs_objectTotal = objectTotal,
      cs_nonces = mc_nonce chunk # cs_nonces st,
      cs_offsets = cs_offsets st @ [objectTotal],
      cs_ok = (cs_ok st
        \<and> \<not> mc_index chunk \<noteq> int index
        \<and> \<not> mc_sealedBytes chunk \<noteq> mc_plaintextBytes chunk + int aes_gcm_tag_bytes
        \<and> (case build_chunk_nonce prefix (mc_index chunk) of
             Inl _ \<Rightarrow> False | Inr nonce \<Rightarrow> \<not> mc_nonce chunk \<noteq> encode_base64url nonce)
        \<and> \<not> mc_nonce chunk \<in> set (cs_nonces st))\<rparr>)"

definition scan_chunks :: "bytes \<Rightarrow> manifest_chunk list \<Rightarrow> chunk_scan" where
  "scan_chunks prefix chunks = foldl (scan_chunk prefix)
     \<lparr>cs_plaintextTotal = 0, cs_objectTotal = 0, cs_nonces = [], cs_offsets = [0], cs_ok = True\<rparr>
     (zip [0..<length chunks] chunks)"

text \<open>Second loop: over the parts, with the bytes of the parts before.\<close>

definition expected_first_chunk :: "nat \<Rightarrow> int list \<Rightarrow> int \<Rightarrow> int" where
  "expected_first_chunk n offsets partStart =
     (case find (\<lambda>i. i < n
        \<and> (if Suc i < length offsets then offsets ! Suc i else offsets ! i) > partStart)
        [0..<length offsets] of None \<Rightarrow> -1 | Some i \<Rightarrow> int i)"

definition expected_last_chunk :: "nat \<Rightarrow> int list \<Rightarrow> int \<Rightarrow> int" where
  "expected_last_chunk n offsets partEnd =
     foldl (\<lambda>l i. if i < length offsets \<and> offsets ! i < partEnd then int i else l) (-1) [0..<n]"

record part_scan =
  ps_byteTotal :: int
  ps_ok :: bool

definition scan_part ::
  "nat \<Rightarrow> int list \<Rightarrow> int \<Rightarrow> nat \<Rightarrow> part_scan \<Rightarrow> nat \<times> manifest_part \<Rightarrow> part_scan" where
  "scan_part chunkCount offsets objectTotal partCount st = (\<lambda>(index, part).
     let partStart = ps_byteTotal st;
         partEnd = partStart + mp_byteLength part;
         expectedFirst = expected_first_chunk chunkCount offsets partStart;
         expectedLast = expected_last_chunk chunkCount offsets partEnd in
     \<lparr>ps_byteTotal = ps_byteTotal st + mp_byteLength part,
      ps_ok = (ps_ok st
        \<and> \<not> mp_partNumber part \<noteq> int index + 1
        \<and> \<not> (partEnd > objectTotal \<or> expectedFirst < 0 \<or> expectedLast < expectedFirst
             \<or> mp_firstChunkIndex part \<noteq> expectedFirst \<or> mp_lastChunkIndex part \<noteq> expectedLast)
        \<and> \<not> (int index < int partCount - 1
             \<and> (mp_byteLength part < int s3_minimum_nonfinal_part_bytes
                \<or> mp_byteLength part \<noteq> int multipart_target_bytes)))\<rparr>)"

definition scan_parts :: "nat \<Rightarrow> int list \<Rightarrow> int \<Rightarrow> manifest_part list \<Rightarrow> part_scan" where
  "scan_parts chunkCount offsets objectTotal parts =
     foldl (scan_part chunkCount offsets objectTotal (length parts))
       \<lparr>ps_byteTotal = 0, ps_ok = True\<rparr> (zip [0..<length parts] parts)"

definition manifest_refinement_ok :: "recording_manifest \<Rightarrow> bool" where
  "manifest_refinement_ok m =
     (case decode_base64url (mf_noncePrefixBase64url m) of
        Inl _ \<Rightarrow> False
      | Inr prefix \<Rightarrow>
        (let cs = scan_chunks prefix (mf_chunks m);
             ps = scan_parts (length (mf_chunks m)) (cs_offsets cs) (cs_objectTotal cs)
                    (mf_parts m) in
         cs_ok cs
         \<and> \<not> mf_totalPlaintextBytes m \<noteq> cs_plaintextTotal cs
         \<and> \<not> mf_totalObjectBytes m \<noteq> cs_objectTotal cs
         \<and> ps_ok ps
         \<and> \<not> ps_byteTotal ps \<noteq> mf_totalObjectBytes m))"

definition manifest_ok :: "(string \<Rightarrow> bool) \<Rightarrow> recording_manifest \<Rightarrow> bool" where
  "manifest_ok uuid m \<longleftrightarrow>
     mf_protocolVersion m = recording_protocol_version \<and> mf_suiteId m = recording_suite_id
     \<and> canonical_uuid_ok (mf_attemptId m) \<and> head_sha_ok (mf_headSha m)
     \<and> canonical_uuid_ok (mf_objectId m) \<and> mf_codec m = recording_codec
     \<and> nonce_text_ok nonce_prefix_bytes (mf_noncePrefixBase64url m)
     \<and> manifest_wrapping_ok (mf_wrapping m)
     \<and> int_between 0 max_recording_duration_ms (mf_durationMs m)
     \<and> object_bytes_ok (mf_totalPlaintextBytes m) \<and> object_bytes_ok (mf_totalObjectBytes m)
     \<and> (case mf_questionIntervals m of None \<Rightarrow> True | Some qs \<Rightarrow> question_intervals_ok uuid qs)
     \<and> list_all manifest_chunk_ok (mf_chunks m)
     \<and> 1 \<le> length (mf_chunks m) \<and> length (mf_chunks m) \<le> max_recording_chunks
     \<and> list_all manifest_part_ok (mf_parts m)
     \<and> 1 \<le> length (mf_parts m) \<and> length (mf_parts m) \<le> max_multipart_parts
     \<and> manifest_refinement_ok m"

section \<open>The loops in closed form\<close>

definition record_size :: "manifest_chunk \<Rightarrow> int" where
  "record_size c = 32 + mc_sealedBytes c"

definition chunk_offset :: "manifest_chunk list \<Rightarrow> nat \<Rightarrow> int" where
  "chunk_offset cs i = (\<Sum>c\<leftarrow>take i cs. record_size c)"

definition chunk_entry_ok :: "bytes \<Rightarrow> nat \<Rightarrow> manifest_chunk \<Rightarrow> bool" where
  "chunk_entry_ok prefix i c \<longleftrightarrow> mc_index c = int i
     \<and> mc_sealedBytes c = mc_plaintextBytes c + 16
     \<and> (\<exists>nonce. build_chunk_nonce prefix (int i) = Inr nonce \<and> mc_nonce c = encode_base64url nonce)"

lemma chunk_offset_simps [simp]:
  "chunk_offset cs 0 = 0" "chunk_offset [] i = 0"
  by (simp_all add: chunk_offset_def)

lemma chunk_offset_Suc: "i < length cs \<Longrightarrow> chunk_offset cs (Suc i) = chunk_offset cs i + record_size (cs ! i)"
  by (simp add: chunk_offset_def take_Suc_conv_app_nth)

lemma chunk_offset_all: "length cs \<le> i \<Longrightarrow> chunk_offset cs i = (\<Sum>c\<leftarrow>cs. record_size c)"
  by (simp add: chunk_offset_def)

lemma chunk_offset_snoc: "i \<le> length cs \<Longrightarrow> chunk_offset (cs @ ds) i = chunk_offset cs i"
  by (simp add: chunk_offset_def)

lemma chunk_offset_mono:
  assumes "\<forall>c\<in>set cs. 0 < record_size c" and "i < j" and "j \<le> length cs"
  shows "chunk_offset cs i < chunk_offset cs j"
  using assms(2,3)
proof (induction j)
  case (Suc j)
  have pos: "0 < record_size (cs ! j)"
    using assms(1) Suc.prems by simp
  show ?case
    using Suc pos chunk_offset_Suc [of j cs] by (cases "i = j") auto
qed simp

lemma scan_chunks_snoc:
  "scan_chunks prefix (cs @ [c]) = scan_chunk prefix (scan_chunks prefix cs) (length cs, c)"
  by (simp add: scan_chunks_def)

lemma scan_chunks_closed:
  "cs_plaintextTotal (scan_chunks prefix cs) = (\<Sum>c\<leftarrow>cs. mc_plaintextBytes c)
   \<and> cs_objectTotal (scan_chunks prefix cs) = chunk_offset cs (length cs)
   \<and> cs_nonces (scan_chunks prefix cs) = rev (map mc_nonce cs)
   \<and> cs_offsets (scan_chunks prefix cs) = map (chunk_offset cs) [0..<Suc (length cs)]
   \<and> (cs_ok (scan_chunks prefix cs) \<longleftrightarrow>
        (\<forall>i<length cs. chunk_entry_ok prefix i (cs ! i)) \<and> distinct (map mc_nonce cs))"
proof (induction cs rule: rev_induct)
  case Nil
  show ?case by (simp add: scan_chunks_def)
next
  case (snoc c cs)
  have off: "chunk_offset (cs @ [c]) (Suc (length cs)) = chunk_offset cs (length cs) + record_size c"
    by (simp add: chunk_offset_def)
  have entry: "(\<forall>i<length (cs @ [c]). chunk_entry_ok prefix i ((cs @ [c]) ! i))
      \<longleftrightarrow> (\<forall>i<length cs. chunk_entry_ok prefix i (cs ! i)) \<and> chunk_entry_ok prefix (length cs) c"
    by (auto simp: nth_append less_Suc_eq)
  have one: "(\<not> mc_index c \<noteq> int (length cs)
        \<and> \<not> mc_sealedBytes c \<noteq> mc_plaintextBytes c + int aes_gcm_tag_bytes
        \<and> (case build_chunk_nonce prefix (mc_index c) of
             Inl _ \<Rightarrow> False | Inr nonce \<Rightarrow> \<not> mc_nonce c \<noteq> encode_base64url nonce))
      \<longleftrightarrow> chunk_entry_ok prefix (length cs) c"
    by (auto simp: chunk_entry_ok_def aes_gcm_tag_bytes_def split: sum.splits)
  have offs: "map (chunk_offset (cs @ [c])) [0..<Suc (length (cs @ [c]))]
      = map (chunk_offset cs) [0..<Suc (length cs)] @ [chunk_offset cs (length cs) + record_size c]"
    using off by (simp add: chunk_offset_snoc)
  show ?case
    unfolding scan_chunks_snoc entry offs
    using snoc.IH one off
    by (auto simp: scan_chunk_def Let_def record_size_def record_header_bytes_def
        simp del: upt_Suc)
qed


definition record_offsets :: "manifest_chunk list \<Rightarrow> int list" where
  "record_offsets cs = map (chunk_offset cs) [0..<Suc (length cs)]"

lemma record_offsets_nth: "i \<le> length cs \<Longrightarrow> record_offsets cs ! i = chunk_offset cs i"
  unfolding record_offsets_def by (subst nth_map) (simp_all del: upt_Suc)

lemma record_offsets_length: "length (record_offsets cs) = Suc (length cs)"
  by (simp add: record_offsets_def)

lemma chunk_offset_mono_le:
  assumes "\<forall>c\<in>set cs. 0 < record_size c" and "i \<le> j" and "j \<le> length cs"
  shows "chunk_offset cs i \<le> chunk_offset cs j"
  using chunk_offset_mono [OF assms(1), of i j] assms(2,3) by (cases "i = j") auto

lemma find_upt_least:
  assumes "P f" and "f < n" and "\<And>i. i < f \<Longrightarrow> \<not> P i"
  shows "find P [0..<n] = Some f"
  using assms by (auto simp: find_Some_iff intro!: exI [of _ f])

lemma expected_first_chunk_eq:
  assumes pos: "\<forall>c\<in>set cs. 0 < record_size c" and f: "f < length cs"
    and a: "chunk_offset cs f \<le> a" "a < chunk_offset cs (Suc f)"
  shows "expected_first_chunk (length cs) (record_offsets cs) a = int f"
proof -
  let ?P = "\<lambda>i. i < length cs \<and> (if Suc i < length (record_offsets cs)
      then record_offsets cs ! Suc i else record_offsets cs ! i) > a"
  have "find ?P [0..<length (record_offsets cs)] = Some f"
  proof (rule find_upt_least)
    show "?P f"
      using f a by (simp add: record_offsets_length record_offsets_nth)
    show "f < length (record_offsets cs)"
      using f by (simp add: record_offsets_length)
    show "\<not> ?P i" if "i < f" for i
      using chunk_offset_mono_le [OF pos, of "Suc i" f] that f a
      by (simp add: record_offsets_length record_offsets_nth)
  qed
  then show ?thesis
    by (simp add: expected_first_chunk_def)
qed

lemma foldl_last_index:
  assumes "l < n" and "P l" and "\<And>i. l < i \<Longrightarrow> i < n \<Longrightarrow> \<not> P i"
  shows "foldl (\<lambda>r i. if P i then int i else r) z [0..<n] = int l"
  using assms
proof (induction n)
  case (Suc n)
  then show ?case by (cases "l = n") auto
qed simp

lemma expected_last_chunk_eq:
  assumes pos: "\<forall>c\<in>set cs. 0 < record_size c" and l: "l < length cs"
    and b: "chunk_offset cs l < b" "b \<le> chunk_offset cs (Suc l)"
  shows "expected_last_chunk (length cs) (record_offsets cs) b = int l"
  unfolding expected_last_chunk_def
proof (rule foldl_last_index [OF l])
  show "l < length (record_offsets cs) \<and> record_offsets cs ! l < b"
    using l b by (simp add: record_offsets_length record_offsets_nth)
  show "\<not> (i < length (record_offsets cs) \<and> record_offsets cs ! i < b)"
    if "l < i" "i < length cs" for i
    using chunk_offset_mono_le [OF pos, of "Suc l" i] that b
    by (simp add: record_offsets_length record_offsets_nth)
qed

lemma chunk_at:
  assumes "0 \<le> a" and "a < chunk_offset cs (length cs)"
  shows "\<exists>f<length cs. chunk_offset cs f \<le> a \<and> a < chunk_offset cs (Suc f)"
proof -
  define f where "f = (LEAST f. a < chunk_offset cs (Suc f))"
  have ne: "length cs \<noteq> 0"
    using assms by (intro notI) simp
  then have ex: "a < chunk_offset cs (Suc (length cs - 1))"
    using assms by simp
  then have up: "a < chunk_offset cs (Suc f)" and "f \<le> length cs - 1"
    unfolding f_def by (rule LeastI, intro Least_le)
  moreover have "chunk_offset cs f \<le> a"
  proof (cases f)
    case (Suc g)
    then have "\<not> a < chunk_offset cs (Suc g)"
      using not_less_Least [of g "\<lambda>f. a < chunk_offset cs (Suc f)"] by (simp add: f_def)
    then show ?thesis using Suc by simp
  qed (use assms in simp)
  ultimately have "f < length cs \<and> chunk_offset cs f \<le> a \<and> a < chunk_offset cs (Suc f)"
    using ne by linarith
  then show ?thesis by blast
qed

lemma chunk_before:
  assumes "0 < b" and "b \<le> chunk_offset cs (length cs)"
  shows "\<exists>l<length cs. chunk_offset cs l < b \<and> b \<le> chunk_offset cs (Suc l)"
  using chunk_at [of "b - 1" cs] assms by (metis diff_ge_0_iff_ge diff_less_eq zle_diff1_eq
      less_add_one order.strict_trans1 int_one_le_iff_zero_less zless_imp_add1_zle add_le_cancel_right
      diff_add_cancel zle_add1_eq_le)

text \<open>A part that starts at \<open>a\<close> and ends at \<open>b\<close> meets exactly the records \<open>f\<close> to \<open>l\<close>.\<close>

definition part_meets :: "manifest_chunk list \<Rightarrow> int \<Rightarrow> int \<Rightarrow> nat \<Rightarrow> nat \<Rightarrow> bool" where
  "part_meets cs a b f l \<longleftrightarrow> f \<le> l \<and> l < length cs
     \<and> chunk_offset cs f \<le> a \<and> a < chunk_offset cs (Suc f)
     \<and> chunk_offset cs l < b \<and> b \<le> chunk_offset cs (Suc l)"

lemma part_meets_iff:
  assumes pos: "\<forall>c\<in>set cs. 0 < record_size c" and "part_meets cs a b f l" and i: "i < length cs"
  shows "f \<le> i \<and> i \<le> l \<longleftrightarrow> chunk_offset cs i < b \<and> a < chunk_offset cs (Suc i)"
proof -
  have "chunk_offset cs i < b" if "i \<le> l"
    using chunk_offset_mono_le [OF pos that] assms by (simp add: part_meets_def)
  moreover have "a < chunk_offset cs (Suc i)" if "f \<le> i"
    using chunk_offset_mono_le [OF pos, of "Suc f" "Suc i"] that assms
    by (simp add: part_meets_def)
  moreover have "i \<le> l" if "chunk_offset cs i < b"
  proof (rule ccontr)
    assume "\<not> i \<le> l"
    then show False
      using chunk_offset_mono_le [OF pos, of "Suc l" i] that assms by (simp add: part_meets_def)
  qed
  moreover have "f \<le> i" if "a < chunk_offset cs (Suc i)"
  proof (rule ccontr)
    assume "\<not> f \<le> i"
    then show False
      using chunk_offset_mono_le [OF pos, of "Suc i" f] that assms by (simp add: part_meets_def)
  qed
  ultimately show ?thesis by blast
qed


definition part_start :: "manifest_part list \<Rightarrow> nat \<Rightarrow> int" where
  "part_start ps k = (\<Sum>p\<leftarrow>take k ps. mp_byteLength p)"

definition part_entry_ok :: "manifest_chunk list \<Rightarrow> nat \<Rightarrow> int \<Rightarrow> nat \<Rightarrow> manifest_part \<Rightarrow> bool" where
  "part_entry_ok cs partCount start k p \<longleftrightarrow> mp_partNumber p = int k + 1
     \<and> (\<exists>f l. part_meets cs start (start + mp_byteLength p) f l
          \<and> mp_firstChunkIndex p = int f \<and> mp_lastChunkIndex p = int l)
     \<and> (Suc k < partCount \<longrightarrow> mp_byteLength p = 8388608)"

lemma part_range_iff:
  assumes pos: "\<forall>c\<in>set cs. 0 < record_size c" and a: "0 \<le> a" and ab: "a < b"
  shows "\<not> (b > chunk_offset cs (length cs)
        \<or> expected_first_chunk (length cs) (record_offsets cs) a < 0
        \<or> expected_last_chunk (length cs) (record_offsets cs) b
            < expected_first_chunk (length cs) (record_offsets cs) a
        \<or> x \<noteq> expected_first_chunk (length cs) (record_offsets cs) a
        \<or> y \<noteq> expected_last_chunk (length cs) (record_offsets cs) b)
     \<longleftrightarrow> (\<exists>f l. part_meets cs a b f l \<and> x = int f \<and> y = int l)" (is "?l \<longleftrightarrow> ?r")
proof
  assume l: ?l
  then have b: "b \<le> chunk_offset cs (length cs)" by simp
  then obtain f where f: "f < length cs" "chunk_offset cs f \<le> a" "a < chunk_offset cs (Suc f)"
    using chunk_at [of a cs] a ab by auto
  from b a ab obtain k where k: "k < length cs" "chunk_offset cs k < b" "b \<le> chunk_offset cs (Suc k)"
    using chunk_before [of b cs] by auto
  have "x = int f" "y = int k" "f \<le> k"
    using l expected_first_chunk_eq [OF pos f] expected_last_chunk_eq [OF pos k] by simp_all
  then show ?r
    using f k by (auto simp: part_meets_def)
next
  assume ?r
  then obtain f k where m: "part_meets cs a b f k" and xy: "x = int f" "y = int k" by blast
  have "b \<le> chunk_offset cs (length cs)"
    using m chunk_offset_mono_le [OF pos, of "Suc k" "length cs"] by (simp add: part_meets_def)
  moreover have "expected_first_chunk (length cs) (record_offsets cs) a = int f"
    using m by (intro expected_first_chunk_eq [OF pos]) (simp_all add: part_meets_def)
  moreover have "expected_last_chunk (length cs) (record_offsets cs) b = int k"
    using m by (intro expected_last_chunk_eq [OF pos]) (simp_all add: part_meets_def)
  ultimately show ?l
    using m xy by (simp add: part_meets_def)
qed

lemma part_start_simps [simp]: "part_start ps 0 = 0" "part_start [] k = 0"
  by (simp_all add: part_start_def)

lemma part_start_nonneg: "\<forall>p\<in>set ps. 0 < mp_byteLength p \<Longrightarrow> 0 \<le> part_start ps k"
  unfolding part_start_def by (intro sum_list_nonneg) (auto dest!: in_set_takeD)

lemma part_start_snoc: "k \<le> length ps \<Longrightarrow> part_start (ps @ qs) k = part_start ps k"
  by (simp add: part_start_def)

lemma part_start_last: "part_start (ps @ [p]) (Suc (length ps)) = part_start ps (length ps) + mp_byteLength p"
  by (simp add: part_start_def)

lemma scan_parts_closed_prefix:
  assumes pos: "\<forall>c\<in>set cs. 0 < record_size c"
  shows "\<forall>p\<in>set ps. 0 < mp_byteLength p \<Longrightarrow>
    (let st = foldl (scan_part (length cs) (record_offsets cs) (chunk_offset cs (length cs)) N)
        \<lparr>ps_byteTotal = 0, ps_ok = True\<rparr> (zip [0..<length ps] ps) in
     ps_byteTotal st = part_start ps (length ps)
     \<and> (ps_ok st \<longleftrightarrow> (\<forall>k<length ps. part_entry_ok cs N (part_start ps k) k (ps ! k))))"
proof (induction ps rule: rev_induct)
  case (snoc p ps)
  let ?st = "foldl (scan_part (length cs) (record_offsets cs) (chunk_offset cs (length cs)) N)
        \<lparr>ps_byteTotal = 0, ps_ok = True\<rparr> (zip [0..<length ps] ps)"
  have st: "ps_byteTotal ?st = part_start ps (length ps)"
    "ps_ok ?st \<longleftrightarrow> (\<forall>k<length ps. part_entry_ok cs N (part_start ps k) k (ps ! k))"
    using snoc by (simp_all add: Let_def)
  have fold: "foldl (scan_part (length cs) (record_offsets cs) (chunk_offset cs (length cs)) N)
        \<lparr>ps_byteTotal = 0, ps_ok = True\<rparr> (zip [0..<length (ps @ [p])] (ps @ [p]))
      = scan_part (length cs) (record_offsets cs) (chunk_offset cs (length cs)) N ?st (length ps, p)"
    by simp
  have a: "0 \<le> part_start ps (length ps)"
    using snoc.prems by (intro part_start_nonneg) simp
  have ab: "part_start ps (length ps) < part_start ps (length ps) + mp_byteLength p"
    using snoc.prems by simp
  have size: "\<not> (int (length ps) < int N - 1 \<and> (mp_byteLength p < int s3_minimum_nonfinal_part_bytes
             \<or> mp_byteLength p \<noteq> int multipart_target_bytes))
      \<longleftrightarrow> (Suc (length ps) < N \<longrightarrow> mp_byteLength p = 8388608)"
    by (auto simp: s3_minimum_nonfinal_part_bytes_def multipart_target_bytes_def)
  have split: "(\<forall>k<length (ps @ [p]). part_entry_ok cs N (part_start (ps @ [p]) k) k ((ps @ [p]) ! k))
      \<longleftrightarrow> (\<forall>k<length ps. part_entry_ok cs N (part_start ps k) k (ps ! k))
        \<and> part_entry_ok cs N (part_start ps (length ps)) (length ps) p"
    by (auto simp: nth_append less_Suc_eq part_start_snoc)
  have entry: "part_entry_ok cs N (part_start ps (length ps)) (length ps) p
      \<longleftrightarrow> mp_partNumber p = int (length ps) + 1
        \<and> (\<exists>f l. part_meets cs (part_start ps (length ps))
             (part_start ps (length ps) + mp_byteLength p) f l
             \<and> mp_firstChunkIndex p = int f \<and> mp_lastChunkIndex p = int l)
        \<and> (Suc (length ps) < N \<longrightarrow> mp_byteLength p = 8388608)"
    by (simp add: part_entry_ok_def)
  show ?case
    unfolding fold Let_def split entry
    unfolding part_range_iff [OF pos a ab, symmetric] size [symmetric]
    by (simp add: scan_part_def Let_def st part_start_last)
qed (simp add: Let_def)


lemma manifest_refinement_iff:
  assumes pos: "\<forall>c\<in>set (mf_chunks m). 0 < record_size c"
    and ppos: "\<forall>p\<in>set (mf_parts m). 0 < mp_byteLength p"
    and prefix: "decode_base64url (mf_noncePrefixBase64url m) = Inr prefix"
  shows "manifest_refinement_ok m \<longleftrightarrow>
    (\<forall>i<length (mf_chunks m). chunk_entry_ok prefix i (mf_chunks m ! i))
    \<and> distinct (map mc_nonce (mf_chunks m))
    \<and> mf_totalPlaintextBytes m = (\<Sum>c\<leftarrow>mf_chunks m. mc_plaintextBytes c)
    \<and> mf_totalObjectBytes m = chunk_offset (mf_chunks m) (length (mf_chunks m))
    \<and> (\<forall>k<length (mf_parts m). part_entry_ok (mf_chunks m) (length (mf_parts m))
         (part_start (mf_parts m) k) k (mf_parts m ! k))
    \<and> part_start (mf_parts m) (length (mf_parts m)) = mf_totalObjectBytes m"
proof -
  have cs: "cs_offsets (scan_chunks prefix (mf_chunks m)) = record_offsets (mf_chunks m)"
    "cs_objectTotal (scan_chunks prefix (mf_chunks m))
      = chunk_offset (mf_chunks m) (length (mf_chunks m))"
    using scan_chunks_closed [of prefix "mf_chunks m"] by (simp_all add: record_offsets_def)
  show ?thesis
    unfolding manifest_refinement_ok_def prefix sum.case Let_def cs scan_parts_def
    using scan_chunks_closed [of prefix "mf_chunks m"]
      scan_parts_closed_prefix [OF pos ppos, of "length (mf_parts m)"]
    by (auto simp: Let_def)
qed

lemma manifest_ok_chunk: "manifest_ok uuid m \<Longrightarrow> c \<in> set (mf_chunks m) \<Longrightarrow> manifest_chunk_ok c"
  by (simp add: manifest_ok_def list_all_iff)

lemma manifest_ok_part: "manifest_ok uuid m \<Longrightarrow> p \<in> set (mf_parts m) \<Longrightarrow> manifest_part_ok p"
  by (simp add: manifest_ok_def list_all_iff)

lemma manifest_ok_refinement: "manifest_ok uuid m \<Longrightarrow> manifest_refinement_ok m"
  by (simp add: manifest_ok_def)

lemma manifest_chunk_ok_size: "manifest_chunk_ok c \<Longrightarrow> 0 < record_size c"
  by (simp add: manifest_chunk_ok_def int_between_def safe_integer_ok_def record_size_def)

lemma manifest_part_ok_size: "manifest_part_ok p \<Longrightarrow> 0 < mp_byteLength p"
  by (simp add: manifest_part_ok_def int_between_def object_bytes_ok_def)

lemma manifest_ok_prefix:
  assumes "manifest_ok uuid m"
  shows "\<exists>prefix. decode_base64url (mf_noncePrefixBase64url m) = Inr prefix \<and> length prefix = 8"
proof -
  have "has_decoded_length (mf_noncePrefixBase64url m) 8"
    using assms by (simp add: manifest_ok_def nonce_text_ok_def nonce_prefix_bytes_def)
  then show ?thesis
    by (auto simp: has_decoded_length_def split: sum.splits)
qed

lemma manifest_ok_positive:
  assumes "manifest_ok uuid m"
  shows "\<forall>c\<in>set (mf_chunks m). 0 < record_size c"
    and "\<forall>p\<in>set (mf_parts m). 0 < mp_byteLength p"
  using manifest_ok_chunk [OF assms] manifest_ok_part [OF assms]
  by (blast intro: manifest_chunk_ok_size manifest_part_ok_size)+

section \<open>Finalisation\<close>

text \<open>The value as \<open>JSON.stringify\<close> sees it.\<close>

definition interval_json :: "question_interval \<Rightarrow> json" where
  "interval_json q = JObj [(''schemaVersion'', JStr (qi_schemaVersion q)),
     (''intervalVersion'', JStr (qi_intervalVersion q)),
     (''questionId'', JStr (qi_questionId q)), (''ordinal'', JNum (qi_ordinal q)),
     (''startMs'', JNum (qi_startMs q)), (''endMs'', JNum (qi_endMs q)),
     (''recordedDurationMs'', JNum (qi_recordedDurationMs q)), (''source'', JStr (qi_source q))]"

definition chunk_json :: "manifest_chunk \<Rightarrow> json" where
  "chunk_json c = JObj [(''index'', JNum (mc_index c)), (''nonce'', JStr (mc_nonce c)),
     (''plaintextBytes'', JNum (mc_plaintextBytes c)), (''sealedBytes'', JNum (mc_sealedBytes c)),
     (''ciphertextSha256'', JStr (mc_ciphertextSha256 c))]"

definition part_json :: "manifest_part \<Rightarrow> json" where
  "part_json p = JObj [(''partNumber'', JNum (mp_partNumber p)),
     (''firstChunkIndex'', JNum (mp_firstChunkIndex p)),
     (''lastChunkIndex'', JNum (mp_lastChunkIndex p)),
     (''byteLength'', JNum (mp_byteLength p)), (''sha256'', JStr (mp_sha256 p))]"

definition wrapping_json :: "manifest_wrapping \<Rightarrow> json" where
  "wrapping_json w = JObj [(''materialId'', JStr (mw_materialId w)), (''keyId'', JStr (mw_keyId w)),
     (''algorithm'', JStr (mw_algorithm w)), (''wrappedKeySha256'', JStr (mw_wrappedKeySha256 w))]"

definition manifest_json :: "recording_manifest \<Rightarrow> json" where
  "manifest_json m = JObj (
     [(''protocolVersion'', JNum (mf_protocolVersion m)), (''suiteId'', JStr (mf_suiteId m)),
      (''attemptId'', JStr (mf_attemptId m)), (''headSha'', JStr (mf_headSha m)),
      (''objectId'', JStr (mf_objectId m)), (''codec'', JStr (mf_codec m)),
      (''noncePrefixBase64url'', JStr (mf_noncePrefixBase64url m)),
      (''wrapping'', wrapping_json (mf_wrapping m)), (''durationMs'', JNum (mf_durationMs m)),
      (''totalPlaintextBytes'', JNum (mf_totalPlaintextBytes m)),
      (''totalObjectBytes'', JNum (mf_totalObjectBytes m))]
     @ (case mf_questionIntervals m of None \<Rightarrow> []
        | Some qs \<Rightarrow> [(''questionIntervals'', JArr (map interval_json qs))])
     @ [(''chunks'', JArr (map chunk_json (mf_chunks m))),
        (''parts'', JArr (map part_json (mf_parts m)))])"

definition wrapped_key_json :: "wrapped_master_key \<Rightarrow> json" where
  "wrapped_key_json w = JObj [(''materialId'', JStr (wk_materialId w)),
     (''keyId'', JStr (wk_keyId w)), (''algorithm'', JStr (wk_algorithm w)),
     (''wrappedKeyBase64url'', JStr (wk_wrappedKeyBase64url w)),
     (''wrappedKeySha256'', JStr (wk_wrappedKeySha256 w))]"

definition receipt_json :: "uploaded_part_receipt \<Rightarrow> json" where
  "receipt_json r = JObj [(''partNumber'', JNum (up_partNumber r)), (''etag'', JStr (up_etag r))]"

definition finalize_json :: "finalize_recording \<Rightarrow> json" where
  "finalize_json f = JObj [(''manifest'', manifest_json (fr_manifest f)),
     (''manifestTagBase64url'', JStr (fr_manifestTagBase64url f)),
     (''manifestDigest'', JStr (fr_manifestDigest f)),
     (''wrappedKey'', wrapped_key_json (fr_wrappedKey f)),
     (''uploadedParts'', JArr (map receipt_json (fr_uploadedParts f)))]"

definition json_bytes :: "json \<Rightarrow> bytes" where
  "json_bytes j = utf8_bytes (stringify j)"

definition finalize_recording_ok :: "(string \<Rightarrow> bool) \<Rightarrow> finalize_recording \<Rightarrow> bool" where
  "finalize_recording_ok uuid f \<longleftrightarrow>
     manifest_ok uuid (fr_manifest f)
     \<and> nonce_text_ok manifest_tag_bytes (fr_manifestTagBase64url f)
     \<and> sha256_hex_ok (fr_manifestDigest f)
     \<and> wrapped_master_key_ok (fr_wrappedKey f)
     \<and> list_all uploaded_part_receipt_ok (fr_uploadedParts f)
     \<and> 1 \<le> length (fr_uploadedParts f) \<and> length (fr_uploadedParts f) \<le> max_multipart_parts
     \<and> (let wrapping = mf_wrapping (fr_manifest f); w = fr_wrappedKey f in
        \<not> (wk_materialId w \<noteq> mw_materialId wrapping \<or> wk_keyId w \<noteq> mw_keyId wrapping
           \<or> wk_algorithm w \<noteq> mw_algorithm wrapping
           \<or> wk_wrappedKeySha256 w \<noteq> mw_wrappedKeySha256 wrapping))
     \<and> \<not> length (fr_uploadedParts f) \<noteq> length (mf_parts (fr_manifest f))
     \<and> list_all (\<lambda>(index, part). \<not> up_partNumber part \<noteq> int index + 1)
         (zip [0..<length (fr_uploadedParts f)] (fr_uploadedParts f))
     \<and> \<not> length (json_bytes (finalize_json f)) > max_finalize_json_bytes"

section \<open>Canonical bytes\<close>

definition canonical_kdf_context_bytes :: "'a recording_binding_scheme \<Rightarrow> media_error + bytes" where
  "canonical_kdf_context_bytes b =
     (if \<not> recording_binding_ok b then Inl MediaSchemaError
      else Inr (json_bytes (JArr [JStr ''slopproof-recording-kdf'', JNum recording_protocol_version,
        JStr (bd_attemptId b), JStr (bd_headSha b), JStr (bd_objectId b)])))"

definition canonical_chunk_aad_bytes :: "chunk_aad_context \<Rightarrow> media_error + bytes" where
  "canonical_chunk_aad_bytes c =
     (if \<not> chunk_aad_ok c then Inl MediaSchemaError
      else Inr (json_bytes (JArr [JStr ''slopproof-recording-chunk'',
        JNum recording_protocol_version, JStr recording_suite_id,
        JStr (bd_attemptId c), JStr (bd_headSha c), JStr (bd_objectId c), JStr (ca_codec c),
        JNum (ca_chunkIndex c), JStr (ca_nonceBase64url c), JNum (ca_plaintextBytes c)])))"

definition canonical_chunk :: "manifest_chunk \<Rightarrow> json" where
  "canonical_chunk c = JArr [JNum (mc_index c), JStr (mc_nonce c), JNum (mc_plaintextBytes c),
     JNum (mc_sealedBytes c), JStr (mc_ciphertextSha256 c)]"

definition canonical_part :: "manifest_part \<Rightarrow> json" where
  "canonical_part p = JArr [JNum (mp_partNumber p), JNum (mp_firstChunkIndex p),
     JNum (mp_lastChunkIndex p), JNum (mp_byteLength p), JStr (mp_sha256 p)]"

definition canonical_interval :: "question_interval \<Rightarrow> json" where
  "canonical_interval q = JArr [JStr (qi_schemaVersion q), JStr (qi_intervalVersion q),
     JStr (qi_questionId q), JNum (qi_ordinal q), JNum (qi_startMs q), JNum (qi_endMs q),
     JNum (qi_recordedDurationMs q), JStr (qi_source q)]"

definition canonical_manifest_json :: "recording_manifest \<Rightarrow> json" where
  "canonical_manifest_json m = JArr (
     [JStr ''slopproof-recording-manifest'', JNum recording_protocol_version,
      JStr recording_suite_id, JStr (mf_attemptId m), JStr (mf_headSha m), JStr (mf_objectId m),
      JStr (mf_codec m), JStr (mf_noncePrefixBase64url m),
      JStr (mw_materialId (mf_wrapping m)), JStr (mw_keyId (mf_wrapping m)),
      JStr wrapping_algorithm, JStr (mw_wrappedKeySha256 (mf_wrapping m)),
      JNum (mf_durationMs m), JNum (mf_totalPlaintextBytes m), JNum (mf_totalObjectBytes m),
      JArr (map canonical_chunk (mf_chunks m)), JArr (map canonical_part (mf_parts m))]
     @ (case mf_questionIntervals m of None \<Rightarrow> []
        | Some qs \<Rightarrow> [JArr [JStr ''proof-question-intervals-v1'',
            JArr (map canonical_interval qs)]]))"

definition canonical_manifest_bytes ::
  "(string \<Rightarrow> bool) \<Rightarrow> recording_manifest \<Rightarrow> media_error + bytes" where
  "canonical_manifest_bytes uuid m =
     (if \<not> manifest_ok uuid m then Inl MediaSchemaError
      else Inr (json_bytes (canonical_manifest_json m)))"


section \<open>Canonical bytes determine what is signed\<close>

lemma json_bytes_inj [simp]: "json_bytes j = json_bytes k \<longleftrightarrow> j = k"
  by (simp add: json_bytes_def utf8_bytes_inj stringify_inj)

lemma canonical_chunk_inj: "canonical_chunk c = canonical_chunk d \<longleftrightarrow> c = d"
  by (auto simp: canonical_chunk_def intro!: manifest_chunk.equality)

lemma canonical_part_inj: "canonical_part p = canonical_part q \<longleftrightarrow> p = q"
  by (auto simp: canonical_part_def intro!: manifest_part.equality)

lemma canonical_interval_inj: "canonical_interval p = canonical_interval q \<longleftrightarrow> p = q"
  by (auto simp: canonical_interval_def intro!: question_interval.equality)

lemma map_inj_iff: "(\<And>x y. f x = f y \<longleftrightarrow> x = y) \<Longrightarrow> map f xs = map f ys \<longleftrightarrow> xs = ys"
  by (rule inj_map_eq_map) (simp add: inj_def)

lemmas canonical_lists_inj = map_inj_iff [OF canonical_chunk_inj] map_inj_iff [OF canonical_part_inj]
  map_inj_iff [OF canonical_interval_inj]

lemma canonical_manifest_json_inj:
  assumes "manifest_ok uuid m" and "manifest_ok uuid n"
  shows "canonical_manifest_json m = canonical_manifest_json n \<longleftrightarrow> m = n"
proof
  assume eq: "canonical_manifest_json m = canonical_manifest_json n"
  have lit: "mf_protocolVersion m = mf_protocolVersion n" "mf_suiteId m = mf_suiteId n"
    "mw_algorithm (mf_wrapping m) = mw_algorithm (mf_wrapping n)"
    using assms by (simp_all add: manifest_ok_def manifest_wrapping_ok_def)
  have w: "mf_wrapping m = mf_wrapping n"
    using eq lit by (intro manifest_wrapping.equality) (simp_all add: canonical_manifest_json_def)
  have q: "mf_questionIntervals m = mf_questionIntervals n"
    using eq by (auto simp: canonical_manifest_json_def canonical_lists_inj split: option.splits)
  show "m = n"
    using eq lit w q
    by (intro recording_manifest.equality)
      (simp_all add: canonical_manifest_json_def canonical_lists_inj)
qed simp

section \<open>Properties\<close>

text \<open>C10: The canonical bytes that are hashed and authenticated determine the manifest: two
  manifests the schema accepts have the same canonical bytes only if they are the same
  manifest, chunk by chunk, part by part and with the same question intervals, so a valid
  tag on the bytes cannot be moved to another manifest. The key-derivation context and the
  additional data of a chunk bind their attempt, commit, object, index, nonce and length in
  the same way.\<close>

theorem canonical_bytes_bind_everything:
  "(canonical_manifest_bytes uuid m = Inr bs \<and> canonical_manifest_bytes uuid n = Inr bs \<longrightarrow> m = n)
   \<and> (canonical_chunk_aad_bytes c = Inr bs \<and> canonical_chunk_aad_bytes d = Inr bs \<longrightarrow> c = d)
   \<and> (canonical_kdf_context_bytes (b :: recording_binding) = Inr bs
       \<and> canonical_kdf_context_bytes (b' :: recording_binding) = Inr bs \<longrightarrow> b = b')"
proof (intro conjI impI; elim conjE)
  assume m: "canonical_manifest_bytes uuid m = Inr bs" and n: "canonical_manifest_bytes uuid n = Inr bs"
  then have ok: "manifest_ok uuid m" "manifest_ok uuid n"
    by (simp_all add: canonical_manifest_bytes_def split: if_splits)
  with m n have "json_bytes (canonical_manifest_json m) = json_bytes (canonical_manifest_json n)"
    by (simp add: canonical_manifest_bytes_def)
  then show "m = n"
    using canonical_manifest_json_inj [OF ok] by simp
next
  assume "canonical_chunk_aad_bytes c = Inr bs" and "canonical_chunk_aad_bytes d = Inr bs"
  then show "c = d"
    by (intro chunk_aad_context.equality)
      (auto simp: canonical_chunk_aad_bytes_def split: if_splits)
next
  assume "canonical_kdf_context_bytes b = Inr bs" and "canonical_kdf_context_bytes b' = Inr bs"
  then show "b = b'"
    by (intro recording_binding.equality)
      (auto simp: canonical_kdf_context_bytes_def split: if_splits)
qed

text \<open>C9: An accepted manifest is an exact description of the stored object: the records
  are numbered from zero, lie end to end and fill it, each sealed 16 bytes longer than its plaintext and
  together with the total of plaintext stated; every nonce is the prefix with its index and occurs once; the
  parts are numbered from one, lie end to end and fill the object too, every part but the
  last has exactly 8 MiB, and a part's chunk range names exactly the records the part's
  byte range meets.\<close>

theorem accepted_manifest_describes_object:
  assumes "manifest_ok uuid m"
  shows "chunk_offset (mf_chunks m) (length (mf_chunks m)) = mf_totalObjectBytes m
    \<and> part_start (mf_parts m) (length (mf_parts m)) = mf_totalObjectBytes m
    \<and> distinct (map mc_nonce (mf_chunks m))
    \<and> (\<exists>prefix. decode_base64url (mf_noncePrefixBase64url m) = Inr prefix \<and> length prefix = 8
        \<and> (\<forall>j<length (mf_chunks m). mc_index (mf_chunks m ! j) = int j
            \<and> mc_nonce (mf_chunks m ! j) = encode_base64url (prefix @ be_bytes 4 (int j))
            \<and> mc_sealedBytes (mf_chunks m ! j) = mc_plaintextBytes (mf_chunks m ! j) + 16))
    \<and> mf_totalPlaintextBytes m = (\<Sum>c\<leftarrow>mf_chunks m. mc_plaintextBytes c)
    \<and> (k < length (mf_parts m) \<longrightarrow> mp_partNumber (mf_parts m ! k) = int k + 1)
    \<and> (Suc k < length (mf_parts m) \<longrightarrow> mp_byteLength (mf_parts m ! k) = 8388608)
    \<and> (k < length (mf_parts m) \<and> i < length (mf_chunks m) \<longrightarrow>
        (mp_firstChunkIndex (mf_parts m ! k) \<le> int i \<and> int i \<le> mp_lastChunkIndex (mf_parts m ! k)
         \<longleftrightarrow> chunk_offset (mf_chunks m) i < part_start (mf_parts m) (Suc k)
           \<and> part_start (mf_parts m) k < chunk_offset (mf_chunks m) (Suc i)))"
proof -
  note pos = manifest_ok_positive [OF assms]
  obtain prefix where prefix: "decode_base64url (mf_noncePrefixBase64url m) = Inr prefix" and len: "length prefix = 8"
    using manifest_ok_prefix [OF assms] by blast
  note r = manifest_refinement_iff [OF pos prefix, THEN iffD1, OF manifest_ok_refinement [OF assms]]
  have chunk: "mc_index (mf_chunks m ! j) = int j
      \<and> mc_nonce (mf_chunks m ! j) = encode_base64url (prefix @ be_bytes 4 (int j))
      \<and> mc_sealedBytes (mf_chunks m ! j) = mc_plaintextBytes (mf_chunks m ! j) + 16" if "j < length (mf_chunks m)" for j
    using conjunct1 [OF r] that
    by (auto simp: chunk_entry_ok_def build_chunk_nonce_iff simp del: be_bytes.simps)
  have entry: "part_entry_ok (mf_chunks m) (length (mf_parts m)) (part_start (mf_parts m) k) k
      (mf_parts m ! k)" if "k < length (mf_parts m)"
    using r that by blast
  have next_start: "part_start (mf_parts m) (Suc k)
      = part_start (mf_parts m) k + mp_byteLength (mf_parts m ! k)" if "k < length (mf_parts m)"
    using that by (simp add: part_start_def take_Suc_conv_app_nth)
  have "mp_firstChunkIndex (mf_parts m ! k) \<le> int i \<and> int i \<le> mp_lastChunkIndex (mf_parts m ! k)
         \<longleftrightarrow> chunk_offset (mf_chunks m) i < part_start (mf_parts m) (Suc k)
           \<and> part_start (mf_parts m) k < chunk_offset (mf_chunks m) (Suc i)"
    if k: "k < length (mf_parts m)" and i: "i < length (mf_chunks m)"
  proof -
    from entry [OF k] obtain f l where meets: "part_meets (mf_chunks m) (part_start (mf_parts m) k)
        (part_start (mf_parts m) k + mp_byteLength (mf_parts m ! k)) f l"
      and fl: "mp_firstChunkIndex (mf_parts m ! k) = int f"
        "mp_lastChunkIndex (mf_parts m ! k) = int l"
      by (auto simp: part_entry_ok_def)
    show ?thesis
      using part_meets_iff [OF pos(1) meets i] by (simp add: fl next_start [OF k])
  qed
  then show ?thesis
    using r entry prefix len chunk by (auto simp: part_entry_ok_def intro!: exI [of _ prefix] simp del: be_bytes.simps)
qed


section \<open>A concrete manifest\<close>

definition demo_sha256 :: string where
  "demo_sha256 = replicate 64 (CHR ''a'')"

definition demo_uuid_text :: string where
  "demo_uuid_text = ''00000000-0000-4000-8000-000000000001''"

definition demo_prefix :: bytes where
  "demo_prefix = [1, 2, 3, 4, 5, 6, 7, 8]"

definition demo_manifest :: recording_manifest where
  "demo_manifest = \<lparr>mf_protocolVersion = 1, mf_suiteId = ''SP-RC1'',
     mf_attemptId = demo_uuid_text, mf_headSha = replicate 40 (CHR ''b''),
     mf_objectId = demo_uuid_text, mf_codec = recording_codec,
     mf_noncePrefixBase64url = encode_base64url demo_prefix,
     mf_wrapping = \<lparr>mw_materialId = demo_uuid_text, mw_keyId = ''key-1'',
       mw_algorithm = wrapping_algorithm, mw_wrappedKeySha256 = demo_sha256\<rparr>,
     mf_durationMs = 1000, mf_totalPlaintextBytes = 2, mf_totalObjectBytes = 50,
     mf_questionIntervals = None,
     mf_chunks = [\<lparr>mc_index = 0, mc_nonce = encode_base64url (demo_prefix @ be_bytes 4 0),
       mc_plaintextBytes = 2, mc_sealedBytes = 18, mc_ciphertextSha256 = demo_sha256\<rparr>],
     mf_parts = [\<lparr>mp_partNumber = 1, mp_firstChunkIndex = 0, mp_lastChunkIndex = 0,
       mp_byteLength = 50, mp_sha256 = demo_sha256\<rparr>]\<rparr>"

lemma nonce_text_ok_encode: "length xs = n \<Longrightarrow> nonce_text_ok n (encode_base64url xs)"
proof -
  assume n: "length xs = n"
  have d: "decode_base64url (encode_base64url xs) = Inr xs"
    by (rule base64url.dec_enc) simp
  have "all_in base64url_alphabet (encode_base64url xs)"
    by (rule encode_base64url_alphabet)
  then show ?thesis
    using n d by (simp add: nonce_text_ok_def base64url_ok_def has_decoded_length_def)
qed

lemma demo_manifest_ok: "manifest_ok (\<lambda>_. True) demo_manifest"
proof -
  let ?c = "hd (mf_chunks demo_manifest)"
  have prefix: "decode_base64url (mf_noncePrefixBase64url demo_manifest) = Inr demo_prefix"
    by (simp add: demo_manifest_def) (rule base64url.dec_enc, simp)
  have l8: "length demo_prefix = 8"
    by (simp add: demo_prefix_def)
  have strings: "canonical_uuid_ok demo_uuid_text" "head_sha_ok (replicate 40 (CHR ''b''))"
    "sha256_hex_ok demo_sha256" "key_id_ok ''key-1''"
    by code_simp+
  have nonces: "nonce_text_ok 8 (encode_base64url demo_prefix)"
    "nonce_text_ok 12 (encode_base64url (demo_prefix @ be_bytes 4 0))"
    using l8 by (intro nonce_text_ok_encode; simp)+
  have refinement: "manifest_refinement_ok demo_manifest"
    by (subst manifest_refinement_iff [OF _ _ prefix])
      (auto simp: demo_manifest_def record_size_def chunk_entry_ok_def build_chunk_nonce_ok l8
        chunk_offset_def part_start_def part_entry_ok_def part_meets_def
        simp del: be_bytes.simps intro!: exI [of _ "0 :: nat"])
  show ?thesis
    using refinement strings nonces unfolding manifest_ok_def
    by (simp add: demo_manifest_def recording_protocol_version_def recording_suite_id_def
        nonce_prefix_bytes_def manifest_wrapping_ok_def int_between_def object_bytes_ok_def
        safe_integer_ok_def max_safe_integer_def max_recording_duration_ms_def
        max_recording_object_bytes_def manifest_chunk_ok_def uint32_ok_def max_uint32_def
        plaintext_bytes_ok_def max_plaintext_chunk_bytes_def aes_gcm_tag_bytes_def
        max_recording_chunks_def manifest_part_ok_def part_number_ok_def
        max_multipart_parts_def del: be_bytes.simps)
qed

theorem canonical_bytes_bind_everything_witness:
  "canonical_manifest_bytes (\<lambda>_. True) demo_manifest
     = Inr (json_bytes (canonical_manifest_json demo_manifest))
   \<and> canonical_manifest_bytes (\<lambda>_. True) (demo_manifest\<lparr>mf_durationMs := 2000\<rparr>)
     \<noteq> Inr (json_bytes (canonical_manifest_json demo_manifest))"
proof -
  have ok: "canonical_manifest_bytes (\<lambda>_. True) demo_manifest
      = Inr (json_bytes (canonical_manifest_json demo_manifest))"
    using demo_manifest_ok by (simp add: canonical_manifest_bytes_def)
  have "demo_manifest\<lparr>mf_durationMs := 2000\<rparr> \<noteq> demo_manifest"
    by (simp add: demo_manifest_def)
  then show ?thesis
    using ok canonical_bytes_bind_everything [of "\<lambda>_. True" "demo_manifest\<lparr>mf_durationMs := 2000\<rparr>"
      "json_bytes (canonical_manifest_json demo_manifest)" demo_manifest] by blast
qed

theorem accepted_manifest_describes_object_witness:
  "manifest_ok (\<lambda>_. True) demo_manifest
   \<and> part_start (mf_parts demo_manifest) (length (mf_parts demo_manifest)) = 50
   \<and> mp_partNumber (mf_parts demo_manifest ! 0) = 1"
  using accepted_manifest_describes_object [OF demo_manifest_ok, of 0 0] demo_manifest_ok
  by (simp add: demo_manifest_def)

end
