(* ===== verification/Multipart.thy ===== *)
theory Multipart
  imports Manifest
begin

text \<open>
  Packing records into the parts of a multipart upload and checking what the storage
  provider lists (\<open>packages/media/src/multipart.ts\<close>). The packer is its private state; every
  operation returns its result together with the state it leaves, also when it throws. The
  digest of the platform's Web Crypto is the parameter \<open>sha\<close>; calls are sequential, as in
  \<open>packChunkRecords\<close>, which awaits each push.

  The invariant \<open>packer_inv\<close> relates the state to the records pushed (\<open>rs\<close>) and the parts
  emitted (\<open>ps\<close>): the emitted bytes and the live bytes of the pending segments together are
  the recording. \<open>push_ok\<close> and \<open>finish_ok\<close> say that the operations succeed within the limits
  and keep it.
\<close>

section \<open>Definitions\<close>

definition sha256_hex :: "(bytes \<Rightarrow> bytes) \<Rightarrow> bytes \<Rightarrow> string" where
  "sha256_hex sha bs = encode_hex (sha bs)"

record packed_part = manifest_part +
  pb_bytes :: bytes

record segment =
  sg_chunkIndex :: int
  sg_bytes :: bytes
  sg_offset :: nat

record packer =
  pk_pending :: "segment list"
  pk_pendingBytes :: nat
  pk_chunkCount :: nat
  pk_partCount :: nat
  pk_objectBytes :: nat
  pk_finished :: bool

definition new_packer :: packer where
  "new_packer = \<lparr>pk_pending = [], pk_pendingBytes = 0, pk_chunkCount = 0, pk_partCount = 0,
     pk_objectBytes = 0, pk_finished = False\<rparr>"

text \<open>The copy loop of \<open>#flush\<close>: \<open>need\<close> is \<open>byteLength - outputOffset\<close>. A segment that is not
  exhausted by a step has given all that was still needed, so the loop ends with it.\<close>

fun copy_segments ::
  "segment list \<Rightarrow> nat \<Rightarrow> bytes \<Rightarrow> int \<Rightarrow> (media_error + bytes \<times> int) \<times> segment list" where
  "copy_segments [] need out lastIndex =
     (if need = 0 then (Inr (out, lastIndex), []) else (throw Invalid_record, []))"
| "copy_segments (s # ss) need out lastIndex =
     (if need = 0 then (Inr (out, lastIndex), s # ss)
      else let available = length (sg_bytes s) - sg_offset s;
               taken = min available need;
               out' = out @ slice (sg_bytes s) (sg_offset s) (sg_offset s + taken);
               s' = s\<lparr>sg_bytes := set_bytes (sg_offset s) (replicate taken 0) (sg_bytes s),
                      sg_offset := sg_offset s + taken\<rparr> in
           if sg_offset s' = length (sg_bytes s')
           then copy_segments ss (need - taken) out' (sg_chunkIndex s)
           else (Inr (out', sg_chunkIndex s), s' # ss))"

definition flush :: "(bytes \<Rightarrow> bytes) \<Rightarrow> nat \<Rightarrow> bool \<Rightarrow> packer \<Rightarrow> (media_error + packed_part) \<times> packer"
where
  "flush sha byteLength finalPart p =
     (if pk_pending p = [] \<or> byteLength < 1 \<or> byteLength > pk_pendingBytes p
        then (throw Invalid_record, p)
      else if byteLength > max_encrypted_buffer_bytes
          \<or> (\<not> finalPart \<and> (byteLength < s3_minimum_nonfinal_part_bytes
                            \<or> byteLength \<noteq> multipart_target_bytes))
        then (throw Limit_exceeded, p)
      else if pk_partCount p \<ge> max_multipart_parts then (throw Limit_exceeded, p)
      else let firstChunkIndex = sg_chunkIndex (hd (pk_pending p)) in
      (case copy_segments (pk_pending p) byteLength [] firstChunkIndex of
         (Inl e, pending) \<Rightarrow> (Inl e, p\<lparr>pk_pending := pending\<rparr>)
       | (Inr (bs, lastChunkIndex), pending) \<Rightarrow>
         (let p' = p\<lparr>pk_pending := pending, pk_pendingBytes := pk_pendingBytes p - byteLength\<rparr>;
              metadata = \<lparr>mp_partNumber = int (pk_partCount p) + 1,
                mp_firstChunkIndex = firstChunkIndex, mp_lastChunkIndex = lastChunkIndex,
                mp_byteLength = int (length bs), mp_sha256 = sha256_hex sha bs\<rparr> in
          if \<not> manifest_part_ok metadata then (Inl MediaSchemaError, p')
          else (Inr (manifest_part.extend metadata (packed_part.fields bs)),
                p'\<lparr>pk_partCount := pk_partCount p + 1\<rparr>))))"

lemma flush_pendingBytes:
  "flush sha n final p = (Inr part, p') \<Longrightarrow> 1 \<le> n \<and> n \<le> pk_pendingBytes p
     \<and> pk_pendingBytes p' = pk_pendingBytes p - n"
  by (auto simp: flush_def Let_def split: if_splits prod.splits sum.splits)

function flush_targets ::
  "(bytes \<Rightarrow> bytes) \<Rightarrow> packed_part list \<Rightarrow> packer \<Rightarrow> (media_error + packed_part list) \<times> packer"
where
  "flush_targets sha ready p =
     (if pk_pendingBytes p \<ge> multipart_target_bytes
      then (case flush sha multipart_target_bytes False p of
              (Inl e, p') \<Rightarrow> (Inl e, p')
            | (Inr part, p') \<Rightarrow> flush_targets sha (ready @ [part]) p')
      else (Inr ready, p))"
  by pat_completeness auto
termination
  by (relation "measure (\<lambda>(_, _, p). pk_pendingBytes p)")
    (auto dest!: flush_pendingBytes sym [of "(_, _)"])

declare flush_targets.simps [simp del]

definition push :: "(bytes \<Rightarrow> bytes) \<Rightarrow> bytes \<Rightarrow> packer \<Rightarrow> (media_error + packed_part list) \<times> packer"
where
  "push sha recordBytes p =
     (if pk_finished p then (throw Invalid_record, p)
      else if pk_chunkCount p \<ge> max_recording_chunks then (throw Limit_exceeded, p)
      else (case parse_chunk_record recordBytes of
         Inl e \<Rightarrow> (Inl e, p)
       | Inr r \<Rightarrow>
         if cr_chunkIndex r \<noteq> int (pk_chunkCount p) then (throw Invalid_record, p)
         else if pk_objectBytes p + length (cr_bytes r) > max_recording_object_bytes
           then (throw Limit_exceeded, p)
         else if pk_pendingBytes p + length (cr_bytes r) > max_encrypted_buffer_bytes
           then (throw Limit_exceeded, p)
         else flush_targets sha []
           (p\<lparr>pk_pending := pk_pending p @ [\<lparr>sg_chunkIndex = cr_chunkIndex r,
                sg_bytes = cr_bytes r, sg_offset = 0\<rparr>],
              pk_pendingBytes := pk_pendingBytes p + length (cr_bytes r),
              pk_objectBytes := pk_objectBytes p + length (cr_bytes r),
              pk_chunkCount := pk_chunkCount p + 1\<rparr>)))"

definition finish :: "(bytes \<Rightarrow> bytes) \<Rightarrow> packer \<Rightarrow> (media_error + packed_part list) \<times> packer" where
  "finish sha p =
     (if pk_finished p then (throw Invalid_record, p)
      else let p' = p\<lparr>pk_finished := True\<rparr> in
      if pk_chunkCount p' = 0 then (throw Limit_exceeded, p')
      else if pk_pending p' = [] then (Inr [], p')
      else (case flush sha (pk_pendingBytes p') True p' of
              (Inl e, q) \<Rightarrow> (Inl e, q) | (Inr part, q) \<Rightarrow> (Inr [part], q)))"

fun push_all ::
  "(bytes \<Rightarrow> bytes) \<Rightarrow> bytes list \<Rightarrow> packed_part list \<Rightarrow> packer
     \<Rightarrow> (media_error + packed_part list) \<times> packer" where
  "push_all sha [] acc p = (Inr acc, p)"
| "push_all sha (r # rs) acc p =
     (case push sha r p of
        (Inl e, p') \<Rightarrow> (Inl e, p')
      | (Inr ready, p') \<Rightarrow> push_all sha rs (acc @ ready) p')"

definition pack_chunk_records :: "(bytes \<Rightarrow> bytes) \<Rightarrow> bytes list \<Rightarrow> media_error + packed_part list" where
  "pack_chunk_records sha records =
     (if length records < 1 \<or> length records > max_recording_chunks then throw Limit_exceeded
      else (case push_all sha records [] new_packer of
              (Inl e, _) \<Rightarrow> Inl e
            | (Inr acc, p) \<Rightarrow> (case finish sha p of
                 (Inl e, _) \<Rightarrow> Inl e | (Inr ready, _) \<Rightarrow> Inr (acc @ ready))))"


section \<open>The copy loop\<close>

text \<open>\<open>boff rs i\<close> is the offset at which the \<open>i\<close>-th record starts. \<open>seg_chain j off rs\<close>:
  the pending segments are the records \<open>rs\<close>, numbered from \<open>j\<close>, the first one consumed up
  to \<open>off\<close>.\<close>

definition boff :: "bytes list \<Rightarrow> nat \<Rightarrow> nat" where
  "boff rs i = length (concat (take i rs))"

fun seg_chain :: "nat \<Rightarrow> nat \<Rightarrow> bytes list \<Rightarrow> segment list \<Rightarrow> bool" where
  "seg_chain j off [] [] \<longleftrightarrow> off = 0"
| "seg_chain j off (r # rs) (s # ss) \<longleftrightarrow> sg_chunkIndex s = int j \<and> sg_offset s = off
     \<and> off < length r \<and> length (sg_bytes s) = length r \<and> drop off (sg_bytes s) = drop off r
     \<and> seg_chain (Suc j) 0 rs ss"
| "seg_chain j off _ _ \<longleftrightarrow> False"

lemma boff_simps [simp]:
  "boff rs 0 = 0" "boff [] i = 0" "boff (r # rs) (Suc i) = length r + boff rs i"
  by (simp_all add: boff_def)

lemma boff_all: "boff rs (length rs) = length (concat rs)"
  by (simp add: boff_def)

lemma boff_append: "i \<le> length rs \<Longrightarrow> boff (rs @ qs) i = boff rs i"
  by (simp add: boff_def)

lemma boff_mono: "i \<le> j \<Longrightarrow> boff rs i \<le> boff rs j"
proof -
  assume "i \<le> j"
  then have "take j rs = take i rs @ take (j - i) (drop i rs)"
    by (metis le_add_diff_inverse take_add)
  then show ?thesis by (simp add: boff_def)
qed

lemma boff_drop: "boff rs (j + i) = boff rs j + boff (drop j rs) i"
  by (simp add: boff_def take_add)

lemma boff_Suc: "i < length rs \<Longrightarrow> boff rs (Suc i) = boff rs i + length (rs ! i)"
  by (simp add: boff_def take_Suc_conv_app_nth)

lemma seg_chain_append:
  "seg_chain j off rs ss \<Longrightarrow> r \<noteq> [] \<Longrightarrow>
     seg_chain j off (rs @ [r])
       (ss @ [\<lparr>sg_chunkIndex = int (j + length rs), sg_bytes = r, sg_offset = 0\<rparr>])"
  by (induction j off rs ss rule: seg_chain.induct) auto

lemma seg_chain_length: "seg_chain j off rs ss \<Longrightarrow> length ss = length rs"
  by (induction j off rs ss rule: seg_chain.induct) auto

text \<open>What one run of the loop does: it copies the next \<open>need\<close> bytes, leaves a chain again,
  and reports the record in which the last byte lies.\<close>

definition copied ::
  "nat \<Rightarrow> nat \<Rightarrow> bytes list \<Rightarrow> nat \<Rightarrow> bytes
     \<Rightarrow> (media_error + bytes \<times> int) \<times> segment list \<Rightarrow> nat \<Rightarrow> nat \<Rightarrow> nat \<Rightarrow> bool" where
  "copied j off rs need out res k l off' \<longleftrightarrow>
     fst res = Inr (out @ take need (drop off (concat rs)), int (j + l))
     \<and> k \<le> length rs \<and> seg_chain (j + k) off' (drop k rs) (snd res)
     \<and> off + need = boff rs k + off'
     \<and> l < length rs \<and> boff rs l < off + need \<and> off + need \<le> boff rs (Suc l)"

lemma copy_segments_done: "copy_segments ss 0 out i = (Inr (out, i), ss)"
  by (cases ss) simp_all

lemma set_bytes_wipe:
  "a + k \<le> length xs \<Longrightarrow> length (set_bytes a (replicate k 0) xs) = length xs
     \<and> drop (a + k) (set_bytes a (replicate k 0) xs) = drop (a + k) xs"
  by (simp add: set_bytes_def)

lemma drop_append_first: "off < length r \<Longrightarrow> drop off (r @ xs) = drop off r @ xs"
  by simp

lemma copy_segments_copied:
  assumes "seg_chain j off rs ss" and "0 < need" and "off + need \<le> length (concat rs)"
  shows "\<exists>k l off'. copied j off rs need out (copy_segments ss need out i) k l off'"
  using assms
proof (induction j off rs ss arbitrary: need out i rule: seg_chain.induct)
  case (2 j off r rs s ss)
  then have s: "sg_chunkIndex s = int j" "sg_offset s = off" "off < length r"
    "length (sg_bytes s) = length r" "drop off (sg_bytes s) = drop off r"
    and chain: "seg_chain (Suc j) 0 rs ss" by simp_all
  have step: "slice (sg_bytes s) off (off + n) = take n (drop off r)" for n
    using s by (simp add: slice_def)
  show ?case
  proof (cases "need < length r - off")
    case True
    define s' where "s' = s\<lparr>sg_bytes := set_bytes off (replicate need 0) (sg_bytes s),
        sg_offset := off + need\<rparr>"
    have wipe: "length (set_bytes off (replicate need 0) (sg_bytes s)) = length (sg_bytes s)"
      "drop (off + need) (set_bytes off (replicate need 0) (sg_bytes s)) = drop (off + need) (sg_bytes s)"
      using set_bytes_wipe [of off need "sg_bytes s"] True s by simp_all
    have "off + need \<noteq> length r"
      using True s(3) by linarith
    then have "copy_segments (s # ss) need out i = (Inr (out @ take need (drop off r), int j), s' # ss)"
      using True "2.prems"(2) s wipe step by (simp add: Let_def min_def s'_def)
    moreover have "drop (off + need) (sg_bytes s) = drop (off + need) r"
      using s(5) by (metis add.commute drop_drop)
    then have "seg_chain j (off + need) (r # rs) (s' # ss)"
      using s chain True wipe by (simp add: s'_def)
    ultimately have "copied j off (r # rs) need out (copy_segments (s # ss) need out i) 0 0 (off + need)"
      using True "2.prems"(2) by (simp add: copied_def)
    then show ?thesis by blast
  next
    case False
    have step2: "copy_segments (s # ss) need out i
        = copy_segments ss (need - (length r - off)) (out @ drop off r) (int j)"
      using False "2.prems"(2) s set_bytes_wipe [of off "length r - off" "sg_bytes s"]
        step [of "length r - off"] by (simp add: Let_def min_def)
    show ?thesis
    proof (cases "need = length r - off")
      case True
      then have e: "copy_segments (s # ss) need out i = (Inr (out @ drop off r, int j), ss)"
        unfolding step2 by (simp only: copy_segments_done diff_self_eq_0)
      have "copied j off (r # rs) need out (copy_segments (s # ss) need out i) 1 0 0"
        using s(3) chain "2.prems"(2) True unfolding copied_def e by auto
      then show ?thesis by blast
    next
      case neq: False
      let ?need = "need - (length r - off)"
      have "0 < ?need" and "0 + ?need \<le> length (concat rs)"
        using False neq "2.prems"(3) s(3) by auto
      from "2.IH" [OF chain this] obtain k l off' where
        IH: "copied (Suc j) 0 rs ?need (out @ drop off r)
          (copy_segments ss ?need (out @ drop off r) (int j)) k l off'" by blast
      have "take need (drop off (concat (r # rs))) = drop off r @ take ?need (concat rs)"
        using False s(3) by simp
      then have "copied j off (r # rs) need out (copy_segments (s # ss) need out i) (Suc k) (Suc l) off'"
        using IH False s(3) unfolding copied_def step2 by auto
      then show ?thesis by blast
    qed
  qed
qed simp_all


section \<open>The invariant\<close>

text \<open>A part \<open>p\<close> emitted as number \<open>k\<close> at byte \<open>start\<close> of the recording \<open>rs\<close>.\<close>

definition emitted_part ::
  "(bytes \<Rightarrow> bytes) \<Rightarrow> bytes list \<Rightarrow> nat \<Rightarrow> nat \<Rightarrow> packed_part \<Rightarrow> bool" where
  "emitted_part sha rs start k p \<longleftrightarrow>
     mp_partNumber p = int k + 1 \<and> mp_byteLength p = int (length (pb_bytes p))
     \<and> mp_sha256 p = sha256_hex sha (pb_bytes p)
     \<and> pb_bytes p = take (length (pb_bytes p)) (drop start (concat rs))
     \<and> (\<exists>f l. f \<le> l \<and> l < length rs \<and> mp_firstChunkIndex p = int f \<and> mp_lastChunkIndex p = int l
          \<and> boff rs f \<le> start \<and> start < boff rs (Suc f)
          \<and> boff rs l < start + length (pb_bytes p) \<and> start + length (pb_bytes p) \<le> boff rs (Suc l))"

abbreviation target :: nat where "target \<equiv> 8388608"

definition packer_inv :: "(bytes \<Rightarrow> bytes) \<Rightarrow> bytes list \<Rightarrow> packed_part list \<Rightarrow> packer \<Rightarrow> bool" where
  "packer_inv sha rs ps p \<longleftrightarrow>
     \<not> pk_finished p \<and> pk_chunkCount p = length rs \<and> pk_objectBytes p = length (concat rs)
     \<and> length (concat rs) \<le> 134217728 \<and> pk_partCount p = length ps
     \<and> target * length ps + pk_pendingBytes p = length (concat rs)
     \<and> (\<exists>j off. j \<le> length rs \<and> seg_chain j off (drop j rs) (pk_pending p)
          \<and> target * length ps = boff rs j + off)
     \<and> (\<forall>k<length ps. length (pb_bytes (ps ! k)) = target
          \<and> emitted_part sha rs (target * k) k (ps ! k))"

lemma encode_hex_length: "length (encode_hex xs) = 2 * length xs"
  by (induction xs) (simp_all add: encode_hex_eq hex_byte_def)

lemma sha256_hex_ok_digest: "length (sha bs) = 32 \<Longrightarrow> sha256_hex_ok (sha256_hex sha bs)"
  using encode_hex_ok [of "sha bs"] encode_hex_length [of "sha bs"]
  by (simp add: sha256_hex_ok_def sha256_hex_def)

lemma emitted_part_snoc:
  "emitted_part sha rs start k p \<Longrightarrow> start + length (pb_bytes p) \<le> length (concat rs) \<Longrightarrow>
     emitted_part sha (rs @ [r]) start k p"
proof -
  assume e: "emitted_part sha rs start k p" and b: "start + length (pb_bytes p) \<le> length (concat rs)"
  from e obtain f l where fl: "f \<le> l" "l < length rs" "mp_firstChunkIndex p = int f"
    "mp_lastChunkIndex p = int l" "boff rs f \<le> start" "start < boff rs (Suc f)"
    "boff rs l < start + length (pb_bytes p)" "start + length (pb_bytes p) \<le> boff rs (Suc l)"
    by (auto simp: emitted_part_def)
  then have b2: "boff (rs @ [r]) f \<le> start \<and> start < boff (rs @ [r]) (Suc f)
      \<and> boff (rs @ [r]) l < start + length (pb_bytes p)
      \<and> start + length (pb_bytes p) \<le> boff (rs @ [r]) (Suc l)"
    by (simp add: boff_append)
  have same: "take (length (pb_bytes p)) (drop start (concat (rs @ [r])))
      = take (length (pb_bytes p)) (drop start (concat rs))"
    using b by simp
  have "l < length (rs @ [r])"
    using fl(2) by simp
  with b2 have "\<exists>f l. f \<le> l \<and> l < length (rs @ [r]) \<and> mp_firstChunkIndex p = int f
      \<and> mp_lastChunkIndex p = int l \<and> boff (rs @ [r]) f \<le> start
      \<and> start < boff (rs @ [r]) (Suc f) \<and> boff (rs @ [r]) l < start + length (pb_bytes p)
      \<and> start + length (pb_bytes p) \<le> boff (rs @ [r]) (Suc l)"
    using fl by blast
  then show ?thesis
    using e same unfolding emitted_part_def by simp
qed

lemma new_packer_inv: "packer_inv sha [] [] new_packer"
  by (simp add: packer_inv_def new_packer_def)

text \<open>Flushing \<open>n\<close> bytes of a chain that starts at byte \<open>start\<close> of the recording.\<close>

lemma flush_emits:
  assumes digest: "\<And>bs. length (sha bs) = 32"
    and chain: "seg_chain j off (drop j rs) (pk_pending p)" and j: "j \<le> length rs"
    and start: "start = boff rs j + off"
    and n: "0 < n" "n \<le> 16777216" "start + n \<le> length (concat rs)"
    and total: "length (concat rs) \<le> 134217728" and count: "length rs \<le> 1024"
    and pending: "pk_pendingBytes p = length (concat rs) - start"
    and parts: "pk_partCount p < 32" and size: "final \<or> n = target"
  shows "\<exists>part p' j' off'. flush sha n final p = (Inr part, p')
    \<and> p' = p\<lparr>pk_pending := pk_pending p', pk_pendingBytes := pk_pendingBytes p - n,
              pk_partCount := pk_partCount p + 1\<rparr>
    \<and> length (pb_bytes part) = n \<and> emitted_part sha rs start (pk_partCount p) part
    \<and> j' \<le> length rs \<and> seg_chain j' off' (drop j' rs) (pk_pending p')
    \<and> start + n = boff rs j' + off'"
proof -
  have tail: "boff rs j + length (concat (drop j rs)) = length (concat rs)"
    using boff_drop [of rs j "length rs - j"] j boff_all [of rs] boff_all [of "drop j rs"]
    by simp
  then have fits: "off + n \<le> length (concat (drop j rs))"
    using n start by linarith
  from copy_segments_copied [OF chain n(1) fits] obtain k l off' where
    c: "copied j off (drop j rs) n [] (copy_segments (pk_pending p) n [] (int j)) k l off'" by blast
  define bs where "bs = take n (drop off (concat (drop j rs)))"
  define pend where "pend = snd (copy_segments (pk_pending p) n [] (int j))"
  have copy: "copy_segments (pk_pending p) n [] (int j) = (Inr (bs, int (j + l)), pend)"
    using c by (cases "copy_segments (pk_pending p) n [] (int j)")
      (simp add: copied_def bs_def pend_def)
  have rest: "k \<le> length (drop j rs)" "seg_chain (j + k) off' (drop (j + k) rs) pend"
    "off + n = boff (drop j rs) k + off'" "l < length (drop j rs)"
    "boff (drop j rs) l < off + n" "off + n \<le> boff (drop j rs) (Suc l)"
    using c by (simp_all add: copied_def pend_def add.commute)
  have ne: "drop j rs \<noteq> []"
    using rest(4) by auto
  then obtain s ss where pnd: "pk_pending p = s # ss" and s: "sg_chunkIndex s = int j"
    and off: "off < length (hd (drop j rs))"
    using chain by (cases "drop j rs"; cases "pk_pending p") auto
  have jl: "j < length rs"
    using ne by simp
  have len: "length bs = n"
    using fits by (simp add: bs_def)
  have bytes: "bs = take n (drop start (concat rs))"
  proof -
    have "concat rs = concat (take j rs) @ concat (drop j rs)"
      by (metis append_take_drop_id concat_append)
    then have "drop start (concat rs) = drop off (concat (drop j rs))"
      using start by (simp add: boff_def)
    then show ?thesis by (simp add: bs_def)
  qed
  have jl': "int j + int l \<le> 1024"
    using rest(4) count by simp
  define part where "part = manifest_part.extend \<lparr>mp_partNumber = int (pk_partCount p) + 1,
      mp_firstChunkIndex = int j, mp_lastChunkIndex = int (j + l),
      mp_byteLength = int (length bs), mp_sha256 = sha256_hex sha bs\<rparr> (packed_part.fields bs)"
  have ok: "manifest_part_ok \<lparr>mp_partNumber = int (pk_partCount p) + 1,
      mp_firstChunkIndex = int j, mp_lastChunkIndex = int (j + l),
      mp_byteLength = int (length bs), mp_sha256 = sha256_hex sha bs\<rparr>"
    using parts len n total count jl jl' sha256_hex_ok_digest [of sha bs, OF digest]
    by (simp add: manifest_part_ok_def part_number_ok_def int_between_def safe_integer_ok_def
        uint32_ok_def object_bytes_ok_def max_safe_integer_def max_uint32_def
        max_multipart_parts_def max_recording_object_bytes_def)
  have fl: "flush sha n final p = (Inr part, p\<lparr>pk_pending := pend,
      pk_pendingBytes := pk_pendingBytes p - n, pk_partCount := pk_partCount p + 1\<rparr>)"
    unfolding flush_def part_def using n size parts pending pnd s copy ok
    by (auto simp: Let_def protocol_limits)
  have first: "boff rs j \<le> start \<and> start < boff rs (Suc j)"
    using start off jl by (simp add: boff_Suc hd_drop_conv_nth)
  have last: "boff rs (j + l) < start + n \<and> start + n \<le> boff rs (Suc (j + l))"
    using rest boff_drop [of rs j l] boff_drop [of rs j "Suc l"] start by simp
  have emitted: "emitted_part sha rs start (pk_partCount p) part"
    unfolding emitted_part_def using len bytes first last rest(4) jl
    by (auto simp: part_def manifest_part.defs packed_part.defs intro!: exI [of _ j]
        exI [of _ "j + l"])
  have "start + n = boff rs (j + k) + off'"
    using rest(3) boff_drop [of rs j k] start by simp
  moreover have "j + k \<le> length rs"
    using rest(1) j by simp
  moreover have "length (pb_bytes part) = n"
    using len by (simp add: part_def manifest_part.defs packed_part.defs)
  ultimately show ?thesis
    using fl emitted rest(2) by (intro exI conjI) (assumption | simp)+
qed


section \<open>Pushing a record\<close>

definition numbered_record :: "nat \<Rightarrow> bytes \<Rightarrow> bool" where
  "numbered_record i r \<longleftrightarrow> (\<exists>f. record_fields_ok f \<and> rf_chunkIndex f = int i \<and> r = record_encoding f)"

lemma numbered_record_length: "numbered_record i r \<Longrightarrow> 0 < length r \<and> length r \<le> 4194352"
proof -
  assume "numbered_record i r"
  then obtain f where ok: "record_fields_ok f" and r: "r = record_encoding f"
    by (auto simp: numbered_record_def)
  have "int (length (rf_sealed f)) \<le> 4194320"
    using ok by (simp add: record_fields_ok_def)
  then show ?thesis
    using record_encoding_length [OF ok] r by simp
qed

lemma parse_numbered_record:
  "numbered_record i r \<longleftrightarrow> (\<exists>c. parse_chunk_record r = Inr c \<and> cr_chunkIndex c = int i \<and> cr_bytes c = r)"
proof
  assume "numbered_record i r"
  then obtain f where f: "record_fields_ok f" "rf_chunkIndex f = int i" "r = record_encoding f"
    by (auto simp: numbered_record_def)
  then have "parse_chunk_record r = Inr (record_of f)"
    by (simp add: parse_chunk_record_iff)
  then show "\<exists>c. parse_chunk_record r = Inr c \<and> cr_chunkIndex c = int i \<and> cr_bytes c = r"
    using f by (intro exI [of _ "record_of f"]) simp
next
  assume "\<exists>c. parse_chunk_record r = Inr c \<and> cr_chunkIndex c = int i \<and> cr_bytes c = r"
  then obtain c where c: "record_fields_ok (fields_of c)" "c = record_of (fields_of c)"
    "cr_chunkIndex c = int i" "cr_bytes c = r"
    by (auto simp: parse_chunk_record_iff)
  then show "numbered_record i r"
    unfolding numbered_record_def
    by (intro exI [of _ "fields_of c"]) (metis record_of_sel(1,5))
qed

lemma flush_targets_inv:
  assumes digest: "\<And>bs. length (sha bs) = 32" and count: "length rs \<le> 1024"
    and inv: "packer_inv sha rs ps p"
  shows "\<exists>more p'. flush_targets sha ready p = (Inr (ready @ more), p')
    \<and> packer_inv sha rs (ps @ more) p' \<and> pk_pendingBytes p' < target"
  using inv
proof (induction "pk_pendingBytes p" arbitrary: p ps ready rule: less_induct)
  case less
  note inv = less.prems
  show ?case
  proof (cases "target \<le> pk_pendingBytes p")
    case False
    then have "flush_targets sha ready p = (Inr ready, p)"
      by (simp add: flush_targets.simps multipart_target_bytes_def)
    then show ?thesis
      using inv False by (intro exI [of _ "[]"]) simp
  next
    case True
    let ?start = "target * length ps"
    from inv obtain j off where j: "j \<le> length rs"
      and chain: "seg_chain j off (drop j rs) (pk_pending p)" and st: "?start = boff rs j + off"
      and total: "length (concat rs) \<le> 134217728" and parts: "pk_partCount p = length ps"
      and sum: "?start + pk_pendingBytes p = length (concat rs)"
      unfolding packer_inv_def by blast
    have few: "pk_partCount p < 32"
      using sum total True parts by linarith
    have fits: "?start + target \<le> length (concat rs)" and pend: "pk_pendingBytes p = length (concat rs) - ?start"
      using sum True by linarith+
    from flush_emits [where sha = sha, OF digest chain j st _ _ fits total count pend few, of False]
    obtain part p' j' off' where f: "flush sha target False p = (Inr part, p')"
      and p': "p' = p\<lparr>pk_pending := pk_pending p', pk_pendingBytes := pk_pendingBytes p - target,
        pk_partCount := pk_partCount p + 1\<rparr>"
      and part: "length (pb_bytes part) = target" "emitted_part sha rs ?start (pk_partCount p) part"
      and next_chain: "j' \<le> length rs" "seg_chain j' off' (drop j' rs) (pk_pending p')"
        "?start + target = boff rs j' + off'" by auto
    have sel: "pk_pendingBytes p' = pk_pendingBytes p - target" "pk_partCount p' = pk_partCount p + 1"
      "pk_finished p' = pk_finished p" "pk_chunkCount p' = pk_chunkCount p"
      "pk_objectBytes p' = pk_objectBytes p"
      by (subst p', simp)+
    have each: "length (pb_bytes ((ps @ [part]) ! k)) = target
        \<and> emitted_part sha rs (target * k) k ((ps @ [part]) ! k)" if "k < length (ps @ [part])" for k
      using inv part parts that unfolding packer_inv_def
      by (cases "k < length ps") (auto simp: nth_append less_Suc_eq)
    have inv': "packer_inv sha rs (ps @ [part]) p'"
      unfolding packer_inv_def
    proof (intro conjI)
      show "\<exists>j off. j \<le> length rs \<and> seg_chain j off (drop j rs) (pk_pending p')
          \<and> target * length (ps @ [part]) = boff rs j + off"
        using next_chain by (intro exI [of _ j'] exI [of _ off']) simp
      show "\<forall>k<length (ps @ [part]). length (pb_bytes ((ps @ [part]) ! k)) = target
          \<and> emitted_part sha rs (target * k) k ((ps @ [part]) ! k)"
        using each by blast
    qed (use inv sum True in \<open>simp_all add: packer_inv_def sel\<close>)
    have "pk_pendingBytes p' < pk_pendingBytes p"
      using sel True by simp
    from less.hyps [OF this inv', of "ready @ [part]"] obtain more q where
      "flush_targets sha (ready @ [part]) p' = (Inr ((ready @ [part]) @ more), q)"
      "packer_inv sha rs ((ps @ [part]) @ more) q" "pk_pendingBytes q < target" by blast
    moreover have "flush_targets sha ready p = flush_targets sha (ready @ [part]) p'"
      using True f by (subst flush_targets.simps) (simp add: multipart_target_bytes_def)
    ultimately show ?thesis
      by (intro exI [of _ "part # more"] exI [of _ q]) simp
  qed
qed

lemma push_ok:
  assumes digest: "\<And>bs. length (sha bs) = 32" and inv: "packer_inv sha rs ps p"
    and small: "pk_pendingBytes p < target" and r: "numbered_record (length rs) r"
    and count: "length rs < 1024" and total: "length (concat rs) + length r \<le> 134217728"
  shows "\<exists>ready p'. push sha r p = (Inr ready, p') \<and> packer_inv sha (rs @ [r]) (ps @ ready) p'
    \<and> pk_pendingBytes p' < target"
proof -
  from r obtain c where c: "parse_chunk_record r = Inr c" "cr_chunkIndex c = int (length rs)"
    "cr_bytes c = r" by (auto simp: parse_numbered_record)
  note len = numbered_record_length [OF r]
  have p: "\<not> pk_finished p" "pk_chunkCount p = length rs" "pk_objectBytes p = length (concat rs)"
    "pk_partCount p = length ps" "target * length ps + pk_pendingBytes p = length (concat rs)"
    using inv by (simp_all add: packer_inv_def)
  from inv obtain j off where j: "j \<le> length rs" "seg_chain j off (drop j rs) (pk_pending p)"
    "target * length ps = boff rs j + off" by (auto simp: packer_inv_def)
  define q where "q = p\<lparr>pk_pending := pk_pending p @ [\<lparr>sg_chunkIndex = int (length rs),
      sg_bytes = r, sg_offset = 0\<rparr>], pk_pendingBytes := pk_pendingBytes p + length r,
      pk_objectBytes := pk_objectBytes p + length r, pk_chunkCount := pk_chunkCount p + 1\<rparr>"
  have "push sha r p = flush_targets sha [] q"
    using p c len small count total unfolding push_def q_def by (simp add: protocol_limits)
  moreover have "packer_inv sha (rs @ [r]) ps q"
    unfolding packer_inv_def
  proof (intro conjI)
    have "seg_chain j off (drop j rs @ [r])
        (pk_pending p @ [\<lparr>sg_chunkIndex = int (j + length (drop j rs)), sg_bytes = r, sg_offset = 0\<rparr>])"
      using len by (intro seg_chain_append [OF j(2)]) auto
    then have "seg_chain j off (drop j (rs @ [r])) (pk_pending q)"
      using j(1) by (simp add: q_def)
    then show "\<exists>j off. j \<le> length (rs @ [r]) \<and> seg_chain j off (drop j (rs @ [r])) (pk_pending q)
        \<and> target * length ps = boff (rs @ [r]) j + off"
      using j by (intro exI [of _ j] exI [of _ off]) (simp add: boff_append)
    show "\<forall>k<length ps. length (pb_bytes (ps ! k)) = target
        \<and> emitted_part sha (rs @ [r]) (target * k) k (ps ! k)"
    proof (intro allI impI)
      fix k assume k: "k < length ps"
      then have e: "length (pb_bytes (ps ! k)) = target" "emitted_part sha rs (target * k) k (ps ! k)"
        using inv by (simp_all add: packer_inv_def)
      have "target * Suc k \<le> target * length ps"
        using k by (intro mult_le_mono2) simp
      then show "length (pb_bytes (ps ! k)) = target
          \<and> emitted_part sha (rs @ [r]) (target * k) k (ps ! k)"
        using e p(5) by (intro conjI emitted_part_snoc) simp_all
    qed
  qed (use p total in \<open>simp_all add: q_def\<close>)
  ultimately show ?thesis
    using flush_targets_inv [where sha = sha and rs = "rs @ [r]" and ready = "[]", OF digest] count
    by auto
qed


lemma push_all_ok:
  assumes digest: "\<And>bs. length (sha bs) = 32"
  shows "packer_inv sha done acc p \<Longrightarrow> pk_pendingBytes p < target \<Longrightarrow>
    \<forall>i<length rs. numbered_record (length done + i) (rs ! i) \<Longrightarrow>
    length done + length rs \<le> 1024 \<Longrightarrow> length (concat done) + length (concat rs) \<le> 134217728 \<Longrightarrow>
    \<exists>acc' p'. push_all sha rs acc p = (Inr acc', p') \<and> packer_inv sha (done @ rs) acc' p'
      \<and> pk_pendingBytes p' < target"
proof (induction rs arbitrary: "done" acc p)
  case (Cons r rs)
  have r: "numbered_record (length done) r"
    using Cons.prems(3) by (metis add_0_right length_greater_0_conv list.distinct(1) nth_Cons_0)
  have later: "\<forall>i<length rs. numbered_record (length (done @ [r]) + i) (rs ! i)"
    using Cons.prems(3) by (auto simp: nth_Cons_Suc dest: spec [of _ "Suc _"])
  obtain ready p' where push: "push sha r p = (Inr ready, p')"
    "packer_inv sha (done @ [r]) (acc @ ready) p'" "pk_pendingBytes p' < target"
    using push_ok [where sha = sha, OF digest Cons.prems(1,2) r] Cons.prems(4,5) by auto
  then show ?case
    using Cons.IH [OF push(2,3) later] Cons.prems(4,5) by simp
qed simp

text \<open>What the packed parts are.\<close>

definition packed_recording :: "(bytes \<Rightarrow> bytes) \<Rightarrow> bytes list \<Rightarrow> packed_part list \<Rightarrow> bool" where
  "packed_recording sha rs ps \<longleftrightarrow>
     concat (map pb_bytes ps) = concat rs
     \<and> (\<forall>k<length ps. emitted_part sha rs (target * k) k (ps ! k)
          \<and> 0 < length (pb_bytes (ps ! k))
          \<and> (Suc k < length ps \<longrightarrow> length (pb_bytes (ps ! k)) = target))
     \<and> 1 \<le> length ps \<and> length ps \<le> 17"

lemma concat_emitted:
  assumes "\<forall>k<length ps. length (pb_bytes (ps ! k)) = target
    \<and> emitted_part sha rs (target * k) k (ps ! k)"
  shows "concat (map pb_bytes ps) = take (target * length ps) (concat rs)"
  using assms
proof (induction ps rule: rev_induct)
  case (snoc p ps)
  have "\<forall>k<length ps. length (pb_bytes (ps ! k)) = target
      \<and> emitted_part sha rs (target * k) k (ps ! k)"
    using snoc.prems by (auto simp: nth_append dest: spec less_SucI)
  then have IH: "concat (map pb_bytes ps) = take (target * length ps) (concat rs)"
    by (rule snoc.IH)
  have "length (pb_bytes p) = target \<and> emitted_part sha rs (target * length ps) (length ps) p"
    using snoc.prems by (metis length_append_singleton lessI nth_append_length)
  then have "pb_bytes p = take target (drop (target * length ps) (concat rs))"
    by (auto simp: emitted_part_def)
  then show ?case
    using IH take_add [of "target * length ps" target "concat rs"] by (simp add: add.commute)
qed simp

lemma finish_ok:
  assumes digest: "\<And>bs. length (sha bs) = 32" and inv: "packer_inv sha rs ps p"
    and small: "pk_pendingBytes p < target" and rs: "rs \<noteq> []" "length rs \<le> 1024"
    and ne: "concat rs \<noteq> []"
  shows "\<exists>more p'. finish sha p = (Inr more, p') \<and> packed_recording sha rs (ps @ more)"
proof -
  let ?start = "target * length ps"
  have p: "\<not> pk_finished p" "pk_chunkCount p = length rs" "pk_partCount p = length ps"
    "?start + pk_pendingBytes p = length (concat rs)" "length (concat rs) \<le> 134217728"
    using inv by (simp_all add: packer_inv_def)
  have old: "\<forall>k<length ps. length (pb_bytes (ps ! k)) = target
      \<and> emitted_part sha rs (target * k) k (ps ! k)"
    using inv by (simp add: packer_inv_def)
  note emitted = concat_emitted [OF old]
  from inv obtain j off where j: "j \<le> length rs" "seg_chain j off (drop j rs) (pk_pending p)"
    "?start = boff rs j + off" by (auto simp: packer_inv_def)
  have tail: "boff rs j + length (concat (drop j rs)) = length (concat rs)"
    using boff_drop [of rs j "length rs - j"] j boff_all [of rs] boff_all [of "drop j rs"] by simp
  define q where "q = p\<lparr>pk_finished := True\<rparr>"
  have q: "pk_pending q = pk_pending p" "pk_pendingBytes q = pk_pendingBytes p"
    "pk_partCount q = pk_partCount p" "pk_chunkCount q = pk_chunkCount p"
    by (simp_all add: q_def)
  show ?thesis
  proof (cases "pk_pending p = []")
    case True
    then have "drop j rs = []" and "off = 0"
      using j(2) by (cases "drop j rs"; simp)+
    then have "?start = length (concat rs)"
      using j(3) tail by simp
    moreover have "ps \<noteq> []"
      using calculation ne by auto
    ultimately have "packed_recording sha rs ps"
      using emitted old p(5) unfolding packed_recording_def by (auto simp: Suc_le_eq)
    moreover have "finish sha p = (Inr [], q)"
      using True p rs by (simp add: finish_def q_def Let_def)
    ultimately show ?thesis
      by (intro exI [of _ "[]"] exI [of _ q]) simp
  next
    case False
    then have "off < length (concat (drop j rs))"
      using j(2) by (cases "drop j rs"; cases "pk_pending p") auto
    then have pos: "0 < pk_pendingBytes p"
      using j(3) tail p(4) by linarith
    have few: "pk_partCount q < 32"
      using p small q by linarith
    have chain: "seg_chain j off (drop j rs) (pk_pending q)"
      using j(2) q by simp
    have fits: "?start + pk_pendingBytes p \<le> length (concat rs)"
      and pend: "pk_pendingBytes q = length (concat rs) - ?start" and sz: "pk_pendingBytes p \<le> 16777216"
      using p(4) q small by linarith+
    from flush_emits [where sha = sha, OF digest chain j(1,3) pos sz fits p(5) rs(2) pend few, of True]
    obtain part p' where f: "flush sha (pk_pendingBytes p) True q = (Inr part, p')"
      and part: "length (pb_bytes part) = pk_pendingBytes p"
        "emitted_part sha rs ?start (length ps) part"
      using p(3) q by auto
    have "finish sha p = (Inr [part], p')"
      using False p rs f q by (simp add: finish_def q_def [symmetric] Let_def)
    moreover have "packed_recording sha rs (ps @ [part])"
      unfolding packed_recording_def
    proof (intro conjI)
      have "pb_bytes part = drop ?start (concat rs)"
        using part p(4) by (simp add: emitted_part_def)
      then show "concat (map pb_bytes (ps @ [part])) = concat rs"
        using emitted by simp
      show "\<forall>k<length (ps @ [part]). emitted_part sha rs (target * k) k ((ps @ [part]) ! k)
          \<and> 0 < length (pb_bytes ((ps @ [part]) ! k))
          \<and> (Suc k < length (ps @ [part]) \<longrightarrow> length (pb_bytes ((ps @ [part]) ! k)) = target)"
        using old part pos by (auto simp: nth_append less_Suc_eq)
      show "length (ps @ [part]) \<le> 17"
        using p(4,5) pos by simp
    qed simp
    ultimately show ?thesis
      by (intro exI [of _ "[part]"] exI [of _ p']) simp
  qed
qed


section \<open>Packing succeeds exactly on recordings\<close>

lemma flush_counts:
  "flush sha n final p = (Inr part, p') \<Longrightarrow> pk_chunkCount p' = pk_chunkCount p
     \<and> pk_objectBytes p' = pk_objectBytes p"
  by (auto simp: flush_def Let_def split: if_splits prod.splits sum.splits)

lemma flush_targets_counts:
  "flush_targets sha ready p = (Inr parts, p') \<Longrightarrow> pk_chunkCount p' = pk_chunkCount p
     \<and> pk_objectBytes p' = pk_objectBytes p"
proof (induction sha ready p rule: flush_targets.induct)
  case (1 sha ready p)
  then show ?case
    by (subst (asm) (2) flush_targets.simps)
      (auto split: if_splits prod.splits sum.splits dest!: flush_counts)
qed

lemma push_sound:
  assumes "push sha r p = (Inr ready, p')"
  shows "numbered_record (pk_chunkCount p) r \<and> pk_chunkCount p' = pk_chunkCount p + 1
    \<and> pk_objectBytes p' = pk_objectBytes p + length r \<and> pk_objectBytes p' \<le> 134217728"
proof -
  from assms obtain c where c: "parse_chunk_record r = Inr c" "cr_chunkIndex c = int (pk_chunkCount p)"
    "pk_objectBytes p + length (cr_bytes c) \<le> 134217728"
    and fl: "flush_targets sha [] (p\<lparr>pk_pending := pk_pending p @ [\<lparr>sg_chunkIndex = cr_chunkIndex c,
                sg_bytes = cr_bytes c, sg_offset = 0\<rparr>],
              pk_pendingBytes := pk_pendingBytes p + length (cr_bytes c),
              pk_objectBytes := pk_objectBytes p + length (cr_bytes c),
              pk_chunkCount := pk_chunkCount p + 1\<rparr>) = (Inr ready, p')"
    unfolding push_def max_recording_object_bytes_def by (auto split: if_splits sum.splits)
  have "cr_bytes c = r"
    using c(1) by (simp add: parse_chunk_record_iff)
  then show ?thesis
    using c flush_targets_counts [OF fl] by (auto simp: parse_numbered_record)
qed

lemma push_all_sound:
  "push_all sha rs acc p = (Inr acc', p') \<Longrightarrow> pk_objectBytes p \<le> 134217728 \<Longrightarrow>
     (\<forall>i<length rs. numbered_record (pk_chunkCount p + i) (rs ! i))
     \<and> pk_objectBytes p + length (concat rs) \<le> 134217728"
proof (induction rs arbitrary: acc p)
  case (Cons r rs)
  from Cons.prems obtain ready q where push: "push sha r p = (Inr ready, q)"
    and rest: "push_all sha rs (acc @ ready) q = (Inr acc', p')"
    by (auto split: prod.splits sum.splits)
  note s = push_sound [OF push]
  have IH: "(\<forall>i<length rs. numbered_record (pk_chunkCount q + i) (rs ! i))
      \<and> pk_objectBytes q + length (concat rs) \<le> 134217728"
    using s by (intro Cons.IH [OF rest]) simp
  have "numbered_record (pk_chunkCount p + i) ((r # rs) ! i)" if "i < length (r # rs)" for i
    using that IH s by (cases i) simp_all
  then show ?case
    using IH s by simp
qed simp

definition recording_records :: "bytes list \<Rightarrow> bool" where
  "recording_records rs \<longleftrightarrow> 1 \<le> length rs \<and> length rs \<le> 1024
     \<and> (\<forall>i<length rs. numbered_record i (rs ! i)) \<and> length (concat rs) \<le> 134217728"

lemma pack_complete:
  assumes digest: "\<And>bs. length (sha bs) = 32" and rs: "recording_records rs"
  shows "\<exists>ps. pack_chunk_records sha rs = Inr ps \<and> packed_recording sha rs ps"
proof -
  have ne: "concat rs \<noteq> []"
    using rs numbered_record_length [of 0 "rs ! 0"]
    by (cases rs) (auto simp: recording_records_def)
  obtain acc p where all: "push_all sha rs [] new_packer = (Inr acc, p)"
    and inv: "packer_inv sha rs acc p" "pk_pendingBytes p < target"
    using push_all_ok [where sha = sha, OF digest new_packer_inv, of rs] rs
    by (auto simp: recording_records_def new_packer_def)
  have "rs \<noteq> []" and "length rs \<le> 1024"
    using rs by (auto simp: recording_records_def)
  from finish_ok [where sha = sha, OF digest inv this ne]
  obtain more p' where "finish sha p = (Inr more, p')" "packed_recording sha rs (acc @ more)"
    by blast
  then show ?thesis
    using all rs by (simp add: pack_chunk_records_def recording_records_def max_recording_chunks_def
        not_less Suc_le_eq)
qed

lemma pack_sound: "pack_chunk_records sha rs = Inr ps \<Longrightarrow> recording_records rs"
  using push_all_sound [of sha rs "[]" new_packer]
  by (auto simp: pack_chunk_records_def recording_records_def new_packer_def
      max_recording_chunks_def Suc_le_eq split: if_splits prod.splits sum.splits)

section \<open>Packed parts and the manifest\<close>

lemma packed_sizes:
  assumes "packed_recording sha rs ps" and "k < length ps"
  shows "mp_byteLength (ps ! k) = int (length (pb_bytes (ps ! k)))"
    and "0 < mp_byteLength (ps ! k)"
    and "Suc k < length ps \<Longrightarrow> mp_byteLength (ps ! k) = 8388608"
  using assms by (auto simp: packed_recording_def emitted_part_def)

text \<open>The manifest entry of a record, as \<open>encryptRecordingChunk\<close> returns it.\<close>

definition record_manifest_chunk :: "(bytes \<Rightarrow> bytes) \<Rightarrow> record_fields \<Rightarrow> manifest_chunk" where
  "record_manifest_chunk sha f =
     \<lparr>mc_index = rf_chunkIndex f, mc_nonce = encode_base64url (rf_nonce f),
      mc_plaintextBytes = rf_plaintextLength f, mc_sealedBytes = int (length (rf_sealed f)),
      mc_ciphertextSha256 = sha256_hex sha (rf_sealed f)\<rparr>"

lemma chunk_offset_boff:
  "\<forall>f\<in>set fs. record_fields_ok f \<Longrightarrow>
     chunk_offset (map (record_manifest_chunk sha) fs) i = int (boff (map record_encoding fs) i)"
proof (induction fs arbitrary: i)
  case (Cons f fs)
  then show ?case
    by (cases i) (simp_all add: chunk_offset_def record_size_def record_manifest_chunk_def
        record_encoding_length)
qed simp

lemma record_manifest_chunk_ok:
  assumes "\<And>bs. length (sha bs) = 32" and "record_fields_ok f"
  shows "manifest_chunk_ok (record_manifest_chunk sha f)"
  using assms sha256_hex_ok_digest [of sha "rf_sealed f"] nonce_text_ok_encode [of "rf_nonce f" 12]
  by (simp add: manifest_chunk_ok_def record_manifest_chunk_def record_fields_ok_def nonce_ok_def
      uint32_ok_def safe_integer_ok_def max_safe_integer_def max_uint32_def plaintext_bytes_ok_def
      int_between_def max_plaintext_chunk_bytes_def aes_gcm_tag_bytes_def)

lemma consecutive_records_prefix:
  "consecutive_records k (Some p) fs \<Longrightarrow> i < length fs \<Longrightarrow>
     rf_nonce (fs ! i) = p @ be_bytes 4 (k + int i)"
proof (induction fs arbitrary: k p i)
  case (Cons f fs)
  have f: "rf_nonce f = take 8 (rf_nonce f) @ be_bytes 4 (rf_chunkIndex f)"
    using Cons.prems(1) append_take_drop_id [of 8 "rf_nonce f"]
    by (simp add: record_fields_ok_def nonce_ok_def del: be_bytes.simps append_take_drop_id)
  show ?case
  proof (cases i)
    case 0
    then show ?thesis using f Cons.prems(1) by (simp del: be_bytes.simps)
  next
    case (Suc n)
    then have "rf_nonce (fs ! n) = take 8 (rf_nonce f) @ be_bytes 4 (k + 1 + int n)"
      using Cons.prems by (intro Cons.IH) auto
    then show ?thesis
      using Suc Cons.prems(1) by (simp add: algebra_simps del: be_bytes.simps)
  qed
qed simp

lemma part_start_packed:
  assumes "packed_recording sha rs ps" and "k < length ps"
  shows "part_start (map manifest_part.truncate ps) k = int (target * k)"
  using assms(2)
proof (induction k)
  case (Suc k)
  have e: "emitted_part sha rs (target * k) k (ps ! k)" "length (pb_bytes (ps ! k)) = target"
    using assms(1) Suc.prems by (simp_all add: packed_recording_def)
  have "part_start (map manifest_part.truncate ps) (Suc k)
      = part_start (map manifest_part.truncate ps) k + mp_byteLength (ps ! k)"
    using Suc.prems by (simp add: part_start_def take_Suc_conv_app_nth manifest_part.defs)
  then show ?case
    using Suc e by (simp add: emitted_part_def)
qed simp


lemma part_start_packed_all:
  assumes "packed_recording sha rs ps"
  shows "part_start (map manifest_part.truncate ps) (length ps) = int (length (concat rs))"
proof -
  have "(\<Sum>p\<leftarrow>ps. mp_byteLength p) = int (length (concat (map pb_bytes ps)))"
    if "\<forall>k<length ps. mp_byteLength (ps ! k) = int (length (pb_bytes (ps ! k)))" for ps :: "packed_part list"
    using that
  proof (induction ps)
    case (Cons p ps)
    have "\<forall>k<length ps. mp_byteLength (ps ! k) = int (length (pb_bytes (ps ! k)))"
      using Cons.prems by (auto dest: spec [of _ "Suc _"])
    then show ?case
      using Cons by (auto dest: spec [of _ 0])
  qed simp
  then have "(\<Sum>p\<leftarrow>ps. mp_byteLength p) = int (length (concat (map pb_bytes ps)))"
    using packed_sizes(1) [OF assms] by blast
  moreover have "concat (map pb_bytes ps) = concat rs"
    using assms by (simp add: packed_recording_def)
  ultimately show ?thesis
    by (simp add: part_start_def manifest_part.defs comp_def)
qed

lemma packed_part_entry_ok:
  assumes packed: "packed_recording sha (map record_encoding fs) ps"
    and fs: "\<forall>f\<in>set fs. record_fields_ok f" and k: "k < length ps"
  shows "part_entry_ok (map (record_manifest_chunk sha) fs) (length ps)
    (part_start (map manifest_part.truncate ps) k) k (manifest_part.truncate (ps ! k))"
proof -
  have e: "emitted_part sha (map record_encoding fs) (target * k) k (ps ! k)"
    using packed k by (simp add: packed_recording_def)
  note sizes = packed_sizes [OF packed k]
  from e obtain f l where fl: "f \<le> l" "l < length fs" "mp_firstChunkIndex (ps ! k) = int f"
    "mp_lastChunkIndex (ps ! k) = int l"
    "boff (map record_encoding fs) f \<le> target * k" "target * k < boff (map record_encoding fs) (Suc f)"
    "boff (map record_encoding fs) l < target * k + length (pb_bytes (ps ! k))"
    "target * k + length (pb_bytes (ps ! k)) \<le> boff (map record_encoding fs) (Suc l)"
    by (auto simp: emitted_part_def)
  have "part_meets (map (record_manifest_chunk sha) fs) (int (target * k))
      (int (target * k) + mp_byteLength (ps ! k)) f l"
    unfolding part_meets_def chunk_offset_boff [OF fs] sizes(1) using fl by simp
  then show ?thesis
    unfolding part_entry_ok_def part_start_packed [OF packed k]
    using e fl sizes(3) by (auto simp: manifest_part.defs emitted_part_def)
qed

lemma packed_manifest_part_ok:
  assumes digest: "\<And>bs. length (sha bs) = 32" and packed: "packed_recording sha rs ps"
    and rs: "length rs \<le> 1024" "length (concat rs) \<le> 134217728" and k: "k < length ps"
  shows "manifest_part_ok (manifest_part.truncate (ps ! k))"
proof -
  have e: "emitted_part sha rs (target * k) k (ps ! k)"
    using packed k by (simp add: packed_recording_def)
  then obtain f l where fl: "f \<le> l" "l < length rs" "mp_firstChunkIndex (ps ! k) = int f"
    "mp_lastChunkIndex (ps ! k) = int l" "mp_partNumber (ps ! k) = int k + 1"
    "mp_sha256 (ps ! k) = sha256_hex sha (pb_bytes (ps ! k))"
    unfolding emitted_part_def by blast
  have "pb_bytes (ps ! k) = take (length (pb_bytes (ps ! k))) (drop (target * k) (concat rs))"
    using e unfolding emitted_part_def by blast
  then have "length (pb_bytes (ps ! k)) \<le> length (drop (target * k) (concat rs))"
    by (metis length_take min.cobounded1)
  then have "length (pb_bytes (ps ! k)) \<le> 134217728"
    using rs(2) unfolding length_drop by linarith
  then have size: "1 \<le> mp_byteLength (ps ! k)" "mp_byteLength (ps ! k) \<le> 134217728"
    using packed_sizes(1,2) [OF packed k] by linarith+
  have "k < 17"
    using packed k by (simp add: packed_recording_def)
  then have "int k + 1 \<le> 32" and "int f \<le> 1024" and "int l \<le> 1024"
    using fl(1,2) rs(1) by linarith+
  then show ?thesis
    using fl(3-6) size sha256_hex_ok_digest [of sha, OF digest, of "pb_bytes (ps ! k)"]
    by (simp add: manifest_part_ok_def manifest_part.defs part_number_ok_def int_between_def
        safe_integer_ok_def uint32_ok_def object_bytes_ok_def max_safe_integer_def max_uint32_def
        max_multipart_parts_def max_recording_object_bytes_def)
qed

section \<open>The ledger and the provider's list\<close>

datatype registration = Accepted | Duplicate

type_synonym part_ledger = "int \<Rightarrow> packed_part option"

definition ledger_register ::
  "packed_part \<Rightarrow> part_ledger \<Rightarrow> (media_error + registration) \<times> part_ledger" where
  "ledger_register part parts =
     (let metadata = manifest_part.truncate part in
      if \<not> manifest_part_ok metadata then (Inl MediaSchemaError, parts)
      else if mp_byteLength metadata \<noteq> int (length (pb_bytes part))
        then (throw Multipart_mismatch, parts)
      else (case parts (mp_partNumber metadata) of
         None \<Rightarrow> (Inr Accepted, parts(mp_partNumber metadata \<mapsto>
                    manifest_part.extend metadata (packed_part.fields (pb_bytes part))))
       | Some existing \<Rightarrow>
           if mp_sha256 existing = mp_sha256 metadata
              \<and> mp_firstChunkIndex existing = mp_firstChunkIndex metadata
              \<and> mp_lastChunkIndex existing = mp_lastChunkIndex metadata
              \<and> bytes_equal (pb_bytes existing) (pb_bytes part)
           then (Inr Duplicate, parts)
           else (throw Multipart_mismatch, parts)))"

definition verify_provider_part_list ::
  "manifest_part list \<Rightarrow> uploaded_part_receipt list \<Rightarrow> provider_listed_part list \<Rightarrow> media_error + unit"
where
  "verify_provider_part_list manifestParts receipts providerParts =
     (if \<not> (list_all manifest_part_ok manifestParts \<and> list_all uploaded_part_receipt_ok receipts
             \<and> list_all provider_listed_part_ok providerParts) then Inl MediaSchemaError
      else if length manifestParts \<noteq> length receipts \<or> length manifestParts \<noteq> length providerParts
        then throw Multipart_mismatch
      else if list_ex (\<lambda>(index, manifestPart).
          let receipt = receipts ! index; providerPart = providerParts ! index in
          mp_partNumber manifestPart \<noteq> int index + 1
          \<or> up_partNumber receipt \<noteq> mp_partNumber manifestPart
          \<or> pp_partNumber providerPart \<noteq> mp_partNumber manifestPart
          \<or> pp_byteLength providerPart \<noteq> mp_byteLength manifestPart
          \<or> pp_etag providerPart \<noteq> up_etag receipt)
          (zip [0..<length manifestParts] manifestParts)
        then throw Multipart_mismatch
      else Inr ())"

end
