(* ===== verification/Recording_Crypto.thy ===== *)
theory Recording_Crypto
  imports Multipart
begin

text \<open>
  The cryptographic operations of the recording protocol (\<open>packages/media/src/crypto.ts\<close>) and
  the authenticated manifest (\<open>manifest.ts\<close>). The platform's Web Crypto is a parameter, the
  record \<open>webcrypto\<close> of functions; \<open>None\<close> is a rejected promise, and a missing provider is
  \<open>None\<close> in place of the record. What the code relies on is stated by name: \<open>aead_exact\<close>
  (AES-GCM: the sealed text is determined by key, nonce, additional data and plaintext,
  16 bytes longer than the plaintext, and opens to it alone), \<open>mac_exact\<close> (HMAC-SHA-256:
  verification recomputes a 32-byte tag), \<open>digest_size\<close> (SHA-256 has 32 bytes) and
  \<open>rsa_pair\<close> (a private key opens what its public key sealed).
\<close>

section \<open>The provider\<close>

record rsa_algorithm =
  alg_modulusLength :: "int option"
  alg_publicExponent :: "bytes option"

record 'k webcrypto =
  wc_digest :: "bytes \<Rightarrow> bytes"
  wc_hkdf :: "bytes \<Rightarrow> bytes \<Rightarrow> bytes \<Rightarrow> bytes"
  wc_import_aes :: "bytes \<Rightarrow> 'k"
  wc_import_hmac :: "bytes \<Rightarrow> 'k"
  wc_encrypt :: "'k \<Rightarrow> bytes \<Rightarrow> bytes \<Rightarrow> bytes \<Rightarrow> bytes option"
  wc_decrypt :: "'k \<Rightarrow> bytes \<Rightarrow> bytes \<Rightarrow> bytes \<Rightarrow> bytes option"
  wc_sign :: "'k \<Rightarrow> bytes \<Rightarrow> bytes"
  wc_verify :: "'k \<Rightarrow> bytes \<Rightarrow> bytes \<Rightarrow> bool"
  wc_import_spki :: "bytes \<Rightarrow> 'k option"
  wc_import_pkcs8 :: "bytes \<Rightarrow> 'k option"
  wc_algorithm :: "'k \<Rightarrow> rsa_algorithm"
  wc_rsa_encrypt :: "'k \<Rightarrow> bytes \<Rightarrow> bytes option"
  wc_rsa_decrypt :: "'k \<Rightarrow> bytes \<Rightarrow> bytes option"

definition digest_size :: "'k webcrypto \<Rightarrow> bool" where
  "digest_size w \<longleftrightarrow> (\<forall>bs. length (wc_digest w bs) = 32)"

definition aead_exact :: "'k webcrypto \<Rightarrow> bool" where
  "aead_exact w \<longleftrightarrow> (\<forall>k iv aad pt ct. wc_decrypt w k iv aad ct = Some pt
     \<longleftrightarrow> wc_encrypt w k iv aad pt = Some ct)
   \<and> (\<forall>k iv aad pt ct. wc_encrypt w k iv aad pt = Some ct \<longrightarrow> length ct = length pt + 16)"

definition mac_exact :: "'k webcrypto \<Rightarrow> bool" where
  "mac_exact w \<longleftrightarrow> (\<forall>k bs. length (wc_sign w k bs) = 32)
     \<and> (\<forall>k tag bs. wc_verify w k tag bs \<longleftrightarrow> tag = wc_sign w k bs)"

definition rsa_pair :: "'k webcrypto \<Rightarrow> bytes \<Rightarrow> bytes \<Rightarrow> bool" where
  "rsa_pair w spki pkcs8 \<longleftrightarrow> (\<exists>pub priv. wc_import_spki w spki = Some pub
     \<and> wc_import_pkcs8 w pkcs8 = Some priv \<and> wc_algorithm w priv = wc_algorithm w pub
     \<and> (\<forall>x y. wc_rsa_encrypt w pub x = Some y \<longrightarrow> wc_rsa_decrypt w priv y = Some x))"

section \<open>Definitions\<close>

definition resolve_crypto :: "'k webcrypto option \<Rightarrow> media_error + 'k webcrypto" where
  "resolve_crypto options = (case options of None \<Rightarrow> throw Invalid_key | Some w \<Rightarrow> Inr w)"

definition require_master_key :: "bytes \<Rightarrow> media_error + unit" where
  "require_master_key masterKey =
     (if length masterKey \<noteq> master_key_bytes then throw Invalid_key else Inr ())"

definition require_rsa_strength :: "rsa_algorithm \<Rightarrow> media_error + unit" where
  "require_rsa_strength algorithm =
     (case (alg_modulusLength algorithm, alg_publicExponent algorithm) of
        (Some modulusLength, Some publicExponent) \<Rightarrow>
          if modulusLength < rsa_minimum_modulus_bits then throw Invalid_key
          else if \<not> bytes_equal publicExponent [1, 0, 1] then throw Invalid_key
          else Inr ()
      | _ \<Rightarrow> throw Invalid_key)"

definition sha256_of :: "'k webcrypto option \<Rightarrow> bytes \<Rightarrow> media_error + bytes" where
  "sha256_of options bs = bind_result (resolve_crypto options) (\<lambda>w. Inr (wc_digest w bs))"

definition sha256_hex_of :: "'k webcrypto option \<Rightarrow> bytes \<Rightarrow> media_error + string" where
  "sha256_hex_of options bs = bind_result (sha256_of options bs) (\<lambda>d. Inr (encode_hex d))"

definition derive_hkdf_bits ::
  "'k webcrypto option \<Rightarrow> bytes \<Rightarrow> bytes \<Rightarrow> string \<Rightarrow> media_error + bytes" where
  "derive_hkdf_bits options masterKey salt info =
     bind_result (resolve_crypto options) (\<lambda>w. Inr (wc_hkdf w masterKey salt (utf8_bytes info)))"

definition derive_recording_key_material ::
  "'k webcrypto option \<Rightarrow> bytes \<Rightarrow> 'b recording_binding_scheme \<Rightarrow> media_error + bytes \<times> bytes"
where
  "derive_recording_key_material options masterKey binding =
     bind_result (require_master_key masterKey) (\<lambda>_.
     if \<not> recording_binding_ok binding then Inl MediaSchemaError else
     bind_result (canonical_kdf_context_bytes binding) (\<lambda>context.
     bind_result (sha256_of options context) (\<lambda>salt.
     bind_result (derive_hkdf_bits options masterKey salt ''slopproof/recording/v1/chunk-aead'')
       (\<lambda>encryptionKeyBytes.
     bind_result (derive_hkdf_bits options masterKey salt ''slopproof/recording/v1/manifest-auth'')
       (\<lambda>manifestKeyBytes. Inr (encryptionKeyBytes, manifestKeyBytes))))))"

definition import_derived_recording_keys ::
  "'k webcrypto option \<Rightarrow> bytes \<times> bytes \<Rightarrow> media_error + 'k \<times> 'k" where
  "import_derived_recording_keys options material =
     (if length (fst material) \<noteq> 32 \<or> length (snd material) \<noteq> 32 then throw Invalid_key
      else bind_result (resolve_crypto options)
        (\<lambda>w. Inr (wc_import_aes w (fst material), wc_import_hmac w (snd material))))"

definition derive_recording_keys ::
  "'k webcrypto option \<Rightarrow> bytes \<Rightarrow> 'b recording_binding_scheme \<Rightarrow> media_error + 'k \<times> 'k" where
  "derive_recording_keys options masterKey binding =
     bind_result (derive_recording_key_material options masterKey binding)
       (import_derived_recording_keys options)"

record encrypted_chunk =
  ec_record :: bytes
  ec_sealed :: bytes
  ec_manifest :: manifest_chunk

definition chunk_aad_of :: "recording_binding \<Rightarrow> int \<Rightarrow> bytes \<Rightarrow> int \<Rightarrow> chunk_aad_context" where
  "chunk_aad_of binding chunkIndex nonce plaintextBytes =
     \<lparr>bd_attemptId = bd_attemptId binding, bd_headSha = bd_headSha binding,
      bd_objectId = bd_objectId binding, ca_codec = recording_codec, ca_chunkIndex = chunkIndex,
      ca_nonceBase64url = encode_base64url nonce, ca_plaintextBytes = plaintextBytes\<rparr>"

text \<open>Everything the \<open>try\<close> block of the encryption throws becomes \<open>authentication_failed\<close>.\<close>

definition encrypt_recording_chunk ::
  "'k webcrypto option \<Rightarrow> bytes \<Rightarrow> int \<Rightarrow> bytes \<Rightarrow> recording_binding \<Rightarrow> 'k
     \<Rightarrow> media_error + encrypted_chunk" where
  "encrypt_recording_chunk options plaintext chunkIndex noncePrefix binding key =
     (if length plaintext < 1 \<or> length plaintext > max_plaintext_chunk_bytes
        then throw Limit_exceeded
      else if \<not> recording_binding_ok binding then Inl MediaSchemaError
      else bind_result (build_chunk_nonce noncePrefix chunkIndex) (\<lambda>nonce.
      bind_result (canonical_chunk_aad_bytes
          (chunk_aad_of binding chunkIndex nonce (int (length plaintext)))) (\<lambda>aad.
      bind_result (case resolve_crypto options of
          Inl _ \<Rightarrow> throw Authentication_failed
        | Inr w \<Rightarrow> (case wc_encrypt w key nonce aad plaintext of
            None \<Rightarrow> throw Authentication_failed | Some ct \<Rightarrow> Inr ct)) (\<lambda>sealed.
      bind_result (build_chunk_record \<lparr>rf_chunkIndex = chunkIndex, rf_nonce = nonce,
          rf_plaintextLength = int (length plaintext), rf_sealed = sealed\<rparr>) (\<lambda>record.
      bind_result (sha256_hex_of options sealed) (\<lambda>digest.
      Inr \<lparr>ec_record = record, ec_sealed = sealed,
           ec_manifest = \<lparr>mc_index = chunkIndex, mc_nonce = encode_base64url nonce,
             mc_plaintextBytes = int (length plaintext), mc_sealedBytes = int (length sealed),
             mc_ciphertextSha256 = digest\<rparr>\<rparr>))))))"

definition decrypt_recording_chunk ::
  "'k webcrypto option \<Rightarrow> bytes \<Rightarrow> int \<Rightarrow> bytes \<Rightarrow> recording_binding \<Rightarrow> 'k \<Rightarrow> media_error + bytes"
where
  "decrypt_recording_chunk options recordBytes expectedChunkIndex expectedNoncePrefix binding key =
     bind_result (parse_chunk_record recordBytes) (\<lambda>r.
     bind_result (build_chunk_nonce expectedNoncePrefix expectedChunkIndex) (\<lambda>expectedNonce.
     if cr_chunkIndex r \<noteq> expectedChunkIndex \<or> \<not> bytes_equal (cr_nonce r) expectedNonce
       then throw Invalid_nonce
     else if \<not> recording_binding_ok binding then Inl MediaSchemaError
     else bind_result (canonical_chunk_aad_bytes
         (chunk_aad_of binding (cr_chunkIndex r) (cr_nonce r) (cr_plaintextLength r))) (\<lambda>aad.
     bind_result (resolve_crypto options) (\<lambda>w.
     case wc_decrypt w key (cr_nonce r) aad (cr_sealed r) of
       None \<Rightarrow> throw Authentication_failed
     | Some plaintext \<Rightarrow>
         if int (length plaintext) \<noteq> cr_plaintextLength r then throw Invalid_record
         else Inr plaintext))))"

definition sign_manifest_bytes :: "'k webcrypto option \<Rightarrow> 'k \<Rightarrow> bytes \<Rightarrow> media_error + bytes" where
  "sign_manifest_bytes options key bs =
     bind_result (resolve_crypto options) (\<lambda>w. Inr (wc_sign w key bs))"

definition verify_manifest_bytes ::
  "'k webcrypto option \<Rightarrow> 'k \<Rightarrow> bytes \<Rightarrow> bytes \<Rightarrow> media_error + bool" where
  "verify_manifest_bytes options key bs signature =
     (if length signature \<noteq> 32 then Inr False
      else bind_result (resolve_crypto options) (\<lambda>w. Inr (wc_verify w key signature bs)))"

definition same_binding ::
  "'a recording_binding_scheme \<Rightarrow> 'b recording_binding_scheme \<Rightarrow> bool" where
  "same_binding material expected \<longleftrightarrow> bd_attemptId material = bd_attemptId expected
     \<and> bd_headSha material = bd_headSha expected \<and> bd_objectId material = bd_objectId expected"

definition wrap_master_key ::
  "(string \<Rightarrow> millis option) \<Rightarrow> 'k webcrypto option \<Rightarrow> millis \<Rightarrow> bytes \<Rightarrow> public_wrapping_material
     \<Rightarrow> recording_binding \<Rightarrow> media_error + wrapped_master_key" where
  "wrap_master_key parse_date options now masterKey material expectedBinding =
     bind_result (require_master_key masterKey) (\<lambda>_.
     if \<not> public_wrapping_material_ok parse_date material then Inl MediaSchemaError
     else if \<not> recording_binding_ok expectedBinding then Inl MediaSchemaError
     else if \<not> same_binding material expectedBinding then throw Invalid_key
     else if (case parse_date (pm_usableUntil material) of None \<Rightarrow> False | Some t \<Rightarrow> t \<le> now)
       then throw Invalid_key
     else bind_result (resolve_crypto options) (\<lambda>w.
     bind_result (case decode_base64url (pm_spkiBase64url material) of
         Inl _ \<Rightarrow> throw Invalid_key
       | Inr spki \<Rightarrow> (case wc_import_spki w spki of None \<Rightarrow> throw Invalid_key | Some k \<Rightarrow> Inr k))
       (\<lambda>key.
     bind_result (require_rsa_strength (wc_algorithm w key)) (\<lambda>_.
     case wc_rsa_encrypt w key masterKey of
       None \<Rightarrow> Inl ProviderFailure
     | Some wrapped \<Rightarrow>
       bind_result (sha256_hex_of options wrapped) (\<lambda>digest.
         let result = \<lparr>wk_materialId = pm_materialId material, wk_keyId = pm_keyId material,
             wk_algorithm = pm_algorithm material,
             wk_wrappedKeyBase64url = encode_base64url wrapped,
             wk_wrappedKeySha256 = digest\<rparr> in
         if \<not> wrapped_master_key_ok result then Inl MediaSchemaError else Inr result)))))"

definition unwrap_master_key ::
  "'k webcrypto option \<Rightarrow> wrapped_master_key \<Rightarrow> bytes \<Rightarrow> string \<Rightarrow> string \<Rightarrow> media_error + bytes" where
  "unwrap_master_key options wrapped privateKeyPkcs8 materialId keyId =
     (if \<not> wrapped_master_key_ok wrapped then Inl MediaSchemaError
      else if wk_materialId wrapped \<noteq> materialId \<or> wk_keyId wrapped \<noteq> keyId then throw Invalid_key
      else bind_result (decode_base64url (wk_wrappedKeyBase64url wrapped)) (\<lambda>wrappedBytes.
      bind_result (sha256_hex_of options wrappedBytes) (\<lambda>digest.
      if digest \<noteq> wk_wrappedKeySha256 wrapped then throw Invalid_key
      else bind_result (resolve_crypto options) (\<lambda>w.
      case wc_import_pkcs8 w privateKeyPkcs8 of
        None \<Rightarrow> throw Invalid_key
      | Some privateKey \<Rightarrow>
        bind_result (require_rsa_strength (wc_algorithm w privateKey)) (\<lambda>_.
        case wc_rsa_decrypt w privateKey wrappedBytes of
          None \<Rightarrow> throw Authentication_failed
        | Some masterKey \<Rightarrow>
            bind_result (require_master_key masterKey) (\<lambda>_. Inr masterKey))))))"

section \<open>The authenticated manifest\<close>

record authenticated_manifest =
  am_manifest :: recording_manifest
  am_manifestTagBase64url :: string
  am_manifestDigest :: string

definition authenticated_json :: "authenticated_manifest \<Rightarrow> json" where
  "authenticated_json a = JObj [(''manifest'', manifest_json (am_manifest a)),
     (''manifestTagBase64url'', JStr (am_manifestTagBase64url a)),
     (''manifestDigest'', JStr (am_manifestDigest a))]"

definition assert_finalize_json_limit :: "json \<Rightarrow> media_error + unit" where
  "assert_finalize_json_limit j =
     (if length (json_bytes j) > max_finalize_json_bytes then throw Limit_exceeded else Inr ())"

definition authenticate_manifest ::
  "(string \<Rightarrow> bool) \<Rightarrow> 'k webcrypto option \<Rightarrow> recording_manifest \<Rightarrow> 'k
     \<Rightarrow> media_error + authenticated_manifest" where
  "authenticate_manifest uuid options manifest key =
     (if \<not> manifest_ok uuid manifest then Inl MediaSchemaError
      else bind_result (canonical_manifest_bytes uuid manifest) (\<lambda>canonicalBytes.
      bind_result (sign_manifest_bytes options key canonicalBytes) (\<lambda>tag.
      bind_result (sha256_of options canonicalBytes) (\<lambda>digest.
      let result = \<lparr>am_manifest = manifest, am_manifestTagBase64url = encode_base64url tag,
                    am_manifestDigest = encode_hex digest\<rparr> in
      bind_result (assert_finalize_json_limit (authenticated_json result)) (\<lambda>_. Inr result)))))"

definition verify_authenticated_manifest ::
  "(string \<Rightarrow> bool) \<Rightarrow> 'k webcrypto option \<Rightarrow> authenticated_manifest \<Rightarrow> 'k
     \<Rightarrow> media_error + recording_manifest" where
  "verify_authenticated_manifest uuid options a key =
     (if \<not> manifest_ok uuid (am_manifest a) then Inl MediaSchemaError
      else if \<not> sha256_hex_ok (am_manifestDigest a) then Inl MediaSchemaError
      else bind_result (canonical_manifest_bytes uuid (am_manifest a)) (\<lambda>canonicalBytes.
      bind_result (sha256_of options canonicalBytes) (\<lambda>calculatedDigest.
      bind_result (decode_hex (am_manifestDigest a)) (\<lambda>supplied.
      if \<not> bytes_equal calculatedDigest supplied then throw Invalid_manifest
      else (case decode_base64url (am_manifestTagBase64url a) of
        Inl _ \<Rightarrow> throw Invalid_manifest
      | Inr tag \<Rightarrow>
        bind_result (verify_manifest_bytes options key canonicalBytes tag) (\<lambda>valid.
        if \<not> valid then throw Authentication_failed else Inr (am_manifest a)))))))"


section \<open>Chunks\<close>

lemma resolve_crypto_Some [simp]: "resolve_crypto (Some w) = Inr w"
  by (simp add: resolve_crypto_def)

lemma resolve_crypto_None [simp]: "resolve_crypto None = throw Invalid_key"
  by (simp add: resolve_crypto_def)

lemma sha256_simps [simp]:
  "sha256_of (Some w) bs = Inr (wc_digest w bs)"
  "sha256_hex_of (Some w) bs = Inr (encode_hex (wc_digest w bs))"
  by (simp_all add: sha256_of_def sha256_hex_of_def)

definition chunk_aad :: "recording_binding \<Rightarrow> record_fields \<Rightarrow> bytes" where
  "chunk_aad binding f = json_bytes (JArr [JStr ''slopproof-recording-chunk'',
     JNum recording_protocol_version, JStr recording_suite_id, JStr (bd_attemptId binding),
     JStr (bd_headSha binding), JStr (bd_objectId binding), JStr recording_codec,
     JNum (rf_chunkIndex f), JStr (encode_base64url (rf_nonce f)), JNum (rf_plaintextLength f)])"

lemma canonical_aad_of_record:
  assumes "recording_binding_ok binding" and "nonce_ok (rf_nonce f) (rf_chunkIndex f)"
    and "1 \<le> rf_plaintextLength f" and "rf_plaintextLength f \<le> 4194304"
  shows "canonical_chunk_aad_bytes
      (chunk_aad_of binding (rf_chunkIndex f) (rf_nonce f) (rf_plaintextLength f))
    = Inr (chunk_aad binding f)"
  using assms nonce_text_ok_encode [of "rf_nonce f" 12]
  by (simp add: canonical_chunk_aad_bytes_def chunk_aad_ok_def chunk_aad_of_def chunk_aad_def
      recording_binding_ok_def uint32_ok_def safe_integer_ok_def max_safe_integer_def max_uint32_def
      plaintext_bytes_ok_def int_between_def max_plaintext_chunk_bytes_def nonce_ok_def)

text \<open>The fields of the record a chunk is stored in.\<close>

definition chunk_fields :: "bytes \<Rightarrow> int \<Rightarrow> bytes \<Rightarrow> bytes \<Rightarrow> record_fields" where
  "chunk_fields plaintext i prefix sealed = \<lparr>rf_chunkIndex = i, rf_nonce = prefix @ be_bytes 4 i,
     rf_plaintextLength = int (length plaintext), rf_sealed = sealed\<rparr>"

definition chunk_input_ok :: "bytes \<Rightarrow> int \<Rightarrow> bytes \<Rightarrow> recording_binding \<Rightarrow> bool" where
  "chunk_input_ok plaintext i prefix binding \<longleftrightarrow> 1 \<le> length plaintext \<and> length plaintext \<le> 4194304
     \<and> recording_binding_ok binding \<and> length prefix = 8 \<and> 0 \<le> i \<and> i < 256 ^ 4"

lemma chunk_fields_ok:
  "chunk_input_ok pt i prefix binding \<Longrightarrow> length sealed = length pt + 16 \<Longrightarrow>
     record_fields_ok (chunk_fields pt i prefix sealed)"
  by (simp add: chunk_input_ok_def record_fields_ok_def chunk_fields_def nonce_ok_def)

lemma chunk_fields_aad:
  "chunk_input_ok pt i prefix binding \<Longrightarrow> canonical_chunk_aad_bytes
      (chunk_aad_of binding i (prefix @ be_bytes 4 i) (int (length pt)))
    = Inr (chunk_aad binding (chunk_fields pt i prefix sealed))"
  using canonical_aad_of_record [of binding "chunk_fields pt i prefix sealed"]
  by (simp add: chunk_input_ok_def chunk_fields_def nonce_ok_def del: be_bytes.simps)

lemma encrypt_recording_chunk_iff:
  assumes "aead_exact w"
  shows "encrypt_recording_chunk (Some w) pt i prefix binding key = Inr e \<longleftrightarrow>
    chunk_input_ok pt i prefix binding
    \<and> (\<exists>sealed. wc_encrypt w key (prefix @ be_bytes 4 i)
          (chunk_aad binding (chunk_fields pt i prefix sealed)) pt = Some sealed
        \<and> e = \<lparr>ec_record = record_encoding (chunk_fields pt i prefix sealed), ec_sealed = sealed,
               ec_manifest = record_manifest_chunk (wc_digest w) (chunk_fields pt i prefix sealed)\<rparr>)"
proof (cases "chunk_input_ok pt i prefix binding")
  case False
  then have "encrypt_recording_chunk (Some w) pt i prefix binding key \<noteq> Inr e"
    by (auto simp: encrypt_recording_chunk_def chunk_input_ok_def max_plaintext_chunk_bytes_def
        build_chunk_nonce_iff bind_result_Inr_iff not_less Suc_le_eq)
  with False show ?thesis by blast
next
  case True
  have aad_any: "chunk_aad binding (chunk_fields pt i prefix s) = chunk_aad binding (chunk_fields pt i prefix [])"
    for s by (simp add: chunk_aad_def chunk_fields_def)
  have len: "length s = length pt + 16"
    if "wc_encrypt w key n aad pt = Some s" for n aad s
    using assms that unfolding aead_exact_def by blast
  have built: "build_chunk_record \<lparr>rf_chunkIndex = i, rf_nonce = prefix @ be_bytes 4 i,
        rf_plaintextLength = int (length pt), rf_sealed = s\<rparr>
      = Inr (record_encoding (chunk_fields pt i prefix s))" if "length s = length pt + 16" for s
    using chunk_fields_ok [OF True that] build_chunk_record_iff [of "chunk_fields pt i prefix s"]
    by (simp add: chunk_fields_def)
  have nonce: "build_chunk_nonce prefix i = Inr (prefix @ be_bytes 4 i)"
    using True by (intro build_chunk_nonce_ok) (simp_all add: chunk_input_ok_def)
  have guards: "\<not> (length pt < 1 \<or> length pt > max_plaintext_chunk_bytes)" "recording_binding_ok binding"
    using True by (auto simp: chunk_input_ok_def max_plaintext_chunk_bytes_def)
  show ?thesis
    unfolding encrypt_recording_chunk_def nonce bind_result_simps chunk_fields_aad [OF True, of "[]"]
    using guards True built len
    by (auto simp: aad_any [of "_ :: bytes"] chunk_fields_def record_manifest_chunk_def sha256_hex_def
        chunk_aad_def split: option.splits simp del: be_bytes.simps)
qed


lemma decrypt_recording_chunk_iff:
  assumes "aead_exact w"
  shows "decrypt_recording_chunk (Some w) bs i prefix binding key = Inr pt \<longleftrightarrow>
    chunk_input_ok pt i prefix binding
    \<and> (\<exists>sealed. length sealed = length pt + 16 \<and> bs = record_encoding (chunk_fields pt i prefix sealed)
        \<and> wc_decrypt w key (prefix @ be_bytes 4 i)
            (chunk_aad binding (chunk_fields pt i prefix sealed)) sealed = Some pt)" (is "?l \<longleftrightarrow> ?r")
proof
  assume l: ?l
  then obtain r where parse: "parse_chunk_record bs = Inr r" and p8: "length prefix = 8"
    and ib: "0 \<le> i" "i < 256 ^ 4" and idx: "cr_chunkIndex r = i"
    and eq: "bytes_equal (cr_nonce r) (prefix @ be_bytes 4 i)" and b: "recording_binding_ok binding"
    unfolding decrypt_recording_chunk_def
    by (auto simp: bind_result_Inr_iff build_chunk_nonce_iff split: if_splits)
  have ok: "record_fields_ok (fields_of r)" and bs: "bs = record_encoding (fields_of r)"
    using parse by (auto simp: parse_chunk_record_iff) (metis record_of_sel(5))
  have n12: "length (cr_nonce r) = 12"
    using ok by (simp add: record_fields_ok_def nonce_ok_def fields_of_def)
  have nonce: "cr_nonce r = prefix @ be_bytes 4 i"
    using eq n12 p8 bytes_equal_iff [of "cr_nonce r" "prefix @ be_bytes 4 i"] by simp
  have aad: "canonical_chunk_aad_bytes (chunk_aad_of binding i (cr_nonce r) (cr_plaintextLength r))
      = Inr (chunk_aad binding (fields_of r))"
    using canonical_aad_of_record [OF b, of "fields_of r"] ok idx
    by (simp add: record_fields_ok_def fields_of_def)
  have bn: "build_chunk_nonce prefix i = Inr (prefix @ be_bytes 4 i)"
    using p8 ib by (rule build_chunk_nonce_ok)
  from l have open_it: "wc_decrypt w key (cr_nonce r) (chunk_aad binding (fields_of r)) (cr_sealed r) = Some pt"
    and size: "int (length pt) = cr_plaintextLength r"
    unfolding decrypt_recording_chunk_def parse bn bind_result_simps idx aad
    using eq b by (auto simp: parse split: option.splits if_splits)
  have f: "fields_of r = chunk_fields pt i prefix (cr_sealed r)"
    using idx nonce size by (simp add: fields_of_def chunk_fields_def)
  have "chunk_input_ok pt i prefix binding" and "length (cr_sealed r) = length pt + 16"
    using ok size b p8 ib by (auto simp: chunk_input_ok_def record_fields_ok_def fields_of_def)
  then show ?r
    using bs open_it nonce f by auto
next
  assume r: ?r
  then obtain sealed where s: "length sealed = length pt + 16"
    "bs = record_encoding (chunk_fields pt i prefix sealed)"
    "wc_decrypt w key (prefix @ be_bytes 4 i)
            (chunk_aad binding (chunk_fields pt i prefix sealed)) sealed = Some pt"
    and ok: "chunk_input_ok pt i prefix binding" by blast
  let ?f = "chunk_fields pt i prefix sealed"
  have parse: "parse_chunk_record bs = Inr (record_of ?f)"
    using chunk_fields_ok [OF ok s(1)] s(2) by (simp add: parse_chunk_record_iff)
  have bn: "build_chunk_nonce prefix i = Inr (prefix @ be_bytes 4 i)"
    using ok by (intro build_chunk_nonce_ok) (simp_all add: chunk_input_ok_def)
  have sel: "rf_chunkIndex ?f = i" "rf_nonce ?f = prefix @ be_bytes 4 i" "rf_sealed ?f = sealed"
    "rf_plaintextLength ?f = int (length pt)"
    by (simp_all add: chunk_fields_def)
  have eq: "bytes_equal (prefix @ be_bytes 4 i) (prefix @ be_bytes 4 i)"
    using ok by (subst bytes_equal_iff) (simp_all add: chunk_input_ok_def)
  show ?l
    unfolding decrypt_recording_chunk_def parse bn bind_result_simps record_of_sel sel
      chunk_fields_aad [OF ok, of sealed]
    using eq ok s(3) by (simp add: chunk_input_ok_def del: be_bytes.simps)
qed

section \<open>The authenticated manifest\<close>

lemma canonical_manifest_ok:
  "manifest_ok uuid m \<Longrightarrow> canonical_manifest_bytes uuid m = Inr (json_bytes (canonical_manifest_json m))"
  by (simp add: canonical_manifest_bytes_def)

definition manifest_tag :: "'k webcrypto \<Rightarrow> 'k \<Rightarrow> recording_manifest \<Rightarrow> authenticated_manifest" where
  "manifest_tag w key m = \<lparr>am_manifest = m,
     am_manifestTagBase64url = encode_base64url (wc_sign w key (json_bytes (canonical_manifest_json m))),
     am_manifestDigest = encode_hex (wc_digest w (json_bytes (canonical_manifest_json m)))\<rparr>"

lemma authenticate_manifest_iff:
  "authenticate_manifest uuid (Some w) m key = Inr a \<longleftrightarrow> manifest_ok uuid m
     \<and> a = manifest_tag w key m \<and> length (json_bytes (authenticated_json a)) \<le> max_finalize_json_bytes"
  by (auto simp: authenticate_manifest_def canonical_manifest_ok sign_manifest_bytes_def Let_def
      manifest_tag_def assert_finalize_json_limit_def not_less)

lemma verify_authenticated_manifest_iff:
  assumes "digest_size w" and "mac_exact w"
  shows "verify_authenticated_manifest uuid (Some w) a key = Inr m
    \<longleftrightarrow> manifest_ok uuid m \<and> a = manifest_tag w key m" (is "?l \<longleftrightarrow> ?r")
proof
  assume l: ?l
  let ?bs = "json_bytes (canonical_manifest_json (am_manifest a))"
  from l have ok: "manifest_ok uuid (am_manifest a)" and m: "m = am_manifest a"
    by (auto simp: verify_authenticated_manifest_def bind_result_Inr_iff split: if_splits sum.splits)
  from l ok obtain supplied tag where d: "decode_hex (am_manifestDigest a) = Inr supplied"
    "bytes_equal (wc_digest w ?bs) supplied" "sha256_hex_ok (am_manifestDigest a)"
    and t: "decode_base64url (am_manifestTagBase64url a) = Inr tag" "wc_verify w key tag ?bs"
    by (auto simp: verify_authenticated_manifest_def canonical_manifest_ok verify_manifest_bytes_def
        bind_result_Inr_iff split: if_splits sum.splits)
  have hexeq: "encode_hex supplied = am_manifestDigest a"
    using d(1) hex.dec_exact by blast
  then have "length supplied = 32"
    using d(3) encode_hex_length [of supplied] by (simp add: sha256_hex_ok_def)
  then have "supplied = wc_digest w ?bs"
    using d(2) assms(1) bytes_equal_iff [of "wc_digest w ?bs" supplied] by (simp add: digest_size_def)
  moreover have "tag = wc_sign w key ?bs"
    using t(2) assms(2) by (simp add: mac_exact_def)
  moreover have "encode_base64url tag = am_manifestTagBase64url a"
    using t(1) base64url.dec_exact by blast
  ultimately show ?r
    using ok m hexeq by (simp add: manifest_tag_def)
next
  assume r: ?r
  let ?bs = "json_bytes (canonical_manifest_json m)"
  have sizes: "length (wc_digest w ?bs) = 32" "length (wc_sign w key ?bs) = 32"
    using assms by (simp_all add: digest_size_def mac_exact_def)
  have hexd: "decode_hex (encode_hex (wc_digest w ?bs)) = Inr (wc_digest w ?bs)"
    by (rule hex.dec_enc) simp
  have b64: "decode_base64url (encode_base64url (wc_sign w key ?bs)) = Inr (wc_sign w key ?bs)"
    by (rule base64url.dec_enc) simp
  have shape: "sha256_hex_ok (encode_hex (wc_digest w ?bs))"
    using sizes encode_hex_ok [of "wc_digest w ?bs"] encode_hex_length [of "wc_digest w ?bs"]
    by (simp add: sha256_hex_ok_def)
  have eq: "bytes_equal (wc_digest w ?bs) (wc_digest w ?bs)"
    using sizes by (subst bytes_equal_iff) simp_all
  have "wc_verify w key (wc_sign w key ?bs) ?bs"
    using assms(2) by (simp add: mac_exact_def)
  then show ?l
    using r sizes hexd b64 shape eq
    by (simp add: verify_authenticated_manifest_def canonical_manifest_ok manifest_tag_def
        verify_manifest_bytes_def)
qed

end
