(* ===== verification/Crypto_Life.thy ===== *)
theory Crypto_Life
  imports Recording_Crypto
begin

text \<open>
  Properties of the cryptographic operations: chunk encryption and decryption are exact
  inverses bound to a position, an authenticated manifest is accepted exactly as it was
  produced, and a wrapped key opens only after the checks on its material. The witnesses run
  on \<open>demo_crypto\<close>, a provider that satisfies every assumption without hiding anything.
\<close>

section \<open>A provider\<close>

definition demo_seal :: "bytes \<Rightarrow> bytes" where
  "demo_seal pt = pt @ replicate 16 0"

definition demo_open :: "bytes \<Rightarrow> bytes option" where
  "demo_open ct = (if demo_seal (take (length ct - 16) ct) = ct
     then Some (take (length ct - 16) ct) else None)"

definition demo_crypto :: "unit webcrypto" where
  "demo_crypto = \<lparr>wc_digest = (\<lambda>bs. take 32 (bs @ replicate 32 0)),
     wc_hkdf = (\<lambda>k s i. replicate 32 1), wc_import_aes = (\<lambda>_. ()), wc_import_hmac = (\<lambda>_. ()),
     wc_encrypt = (\<lambda>k iv aad pt. Some (demo_seal pt)), wc_decrypt = (\<lambda>k iv aad ct. demo_open ct),
     wc_sign = (\<lambda>k bs. take 32 (bs @ replicate 32 0)),
     wc_verify = (\<lambda>k tag bs. tag = take 32 (bs @ replicate 32 0)),
     wc_import_spki = (\<lambda>_. Some ()), wc_import_pkcs8 = (\<lambda>_. Some ()),
     wc_algorithm = (\<lambda>_. \<lparr>alg_modulusLength = Some 3072, alg_publicExponent = Some [1, 0, 1]\<rparr>),
     wc_rsa_encrypt = (\<lambda>_ x. Some x), wc_rsa_decrypt = (\<lambda>_ y. Some y)\<rparr>"

lemma demo_open_iff: "demo_open ct = Some pt \<longleftrightarrow> demo_seal pt = ct"
  by (auto simp: demo_open_def demo_seal_def)

lemma demo_crypto_ok:
  "aead_exact demo_crypto" "mac_exact demo_crypto" "digest_size demo_crypto"
  "rsa_pair demo_crypto spki pkcs8"
  by (auto simp: demo_crypto_def aead_exact_def mac_exact_def digest_size_def rsa_pair_def
      demo_open_iff demo_seal_def min_def)

definition demo_binding :: recording_binding where
  "demo_binding = \<lparr>bd_attemptId = demo_uuid_text, bd_headSha = replicate 40 (CHR ''b''),
     bd_objectId = demo_uuid_text\<rparr>"

lemma demo_binding_ok: "recording_binding_ok demo_binding"
  by code_simp

section \<open>Chunks\<close>

text \<open>C11: Decryption is the exact inverse of encryption: under a given key, binding, index and
  nonce prefix, a record decrypts to a plaintext if and only if encrypting that plaintext
  there produces that very record. A record that decrypts at one index and prefix decrypts
  at no other, whatever the key and binding, so chunks cannot be reordered, duplicated or
  moved into another recording's nonce space.\<close>

theorem chunk_decryption_is_exact_inverse:
  assumes "aead_exact w"
  shows "(decrypt_recording_chunk (Some w) bs i prefix binding key = Inr pt \<longleftrightarrow>
      (\<exists>e. encrypt_recording_chunk (Some w) pt i prefix binding key = Inr e \<and> ec_record e = bs))
    \<and> (decrypt_recording_chunk (Some w) bs i prefix binding key = Inr pt
        \<and> decrypt_recording_chunk (Some w) bs j prefix' binding' key' = Inr pt'
        \<longrightarrow> i = j \<and> prefix = prefix')"
proof (intro conjI impI)
  have exact: "wc_decrypt w k iv aad ct = Some p \<longleftrightarrow> wc_encrypt w k iv aad p = Some ct"
    and len: "wc_encrypt w k iv aad p = Some ct \<Longrightarrow> length ct = length p + 16" for k iv aad p ct
    using assms unfolding aead_exact_def by blast+
  show "decrypt_recording_chunk (Some w) bs i prefix binding key = Inr pt \<longleftrightarrow>
      (\<exists>e. encrypt_recording_chunk (Some w) pt i prefix binding key = Inr e \<and> ec_record e = bs)"
    unfolding decrypt_recording_chunk_iff [OF assms] encrypt_recording_chunk_iff [OF assms] exact
    using len by auto (metis len)
next
  assume both: "decrypt_recording_chunk (Some w) bs i prefix binding key = Inr pt
        \<and> decrypt_recording_chunk (Some w) bs j prefix' binding' key' = Inr pt'"
  then obtain s s' where a: "chunk_input_ok pt i prefix binding" "length s = length pt + 16"
      "bs = record_encoding (chunk_fields pt i prefix s)"
    and b: "chunk_input_ok pt' j prefix' binding'" "length s' = length pt' + 16"
      "bs = record_encoding (chunk_fields pt' j prefix' s')"
    unfolding decrypt_recording_chunk_iff [OF assms] by blast
  have "parse_chunk_record bs = Inr (record_of (chunk_fields pt i prefix s))"
    using chunk_fields_ok [OF a(1,2)] a(3) by (simp add: parse_chunk_record_iff)
  moreover have "parse_chunk_record bs = Inr (record_of (chunk_fields pt' j prefix' s'))"
    using chunk_fields_ok [OF b(1,2)] b(3) by (simp add: parse_chunk_record_iff)
  ultimately have "chunk_fields pt i prefix s = chunk_fields pt' j prefix' s'"
    by (metis fields_of_record_of sum.inject(2))
  then show "i = j" and "prefix = prefix'"
    by (auto simp: chunk_fields_def)
qed

theorem chunk_decryption_is_exact_inverse_witness:
  "\<exists>e. encrypt_recording_chunk (Some demo_crypto) [1, 2, 3] 5 demo_prefix demo_binding () = Inr e
     \<and> decrypt_recording_chunk (Some demo_crypto) (ec_record e) 5 demo_prefix demo_binding ()
       = Inr [1, 2, 3]"
proof -
  have input: "chunk_input_ok [1, 2, 3] 5 demo_prefix demo_binding"
    using demo_binding_ok by (simp add: chunk_input_ok_def demo_prefix_def)
  then obtain e where e: "encrypt_recording_chunk (Some demo_crypto) [1, 2, 3] 5 demo_prefix
      demo_binding () = Inr e"
    unfolding encrypt_recording_chunk_iff [OF demo_crypto_ok(1)]
    by (auto simp: demo_crypto_def)
  then show ?thesis
    using chunk_decryption_is_exact_inverse [OF demo_crypto_ok(1), of "ec_record e" 5 demo_prefix
        demo_binding "()" "[1, 2, 3]"] by blast
qed

section \<open>Manifests\<close>

text \<open>An authenticated manifest verifies exactly in the form it was produced: verification
  under a key returns a manifest if and only if the schema accepts it and its tag and digest
  are the canonical spellings of the MAC and the hash of its canonical bytes; what
  \<open>authenticateManifest\<close> returns verifies; and one envelope verifies to one manifest only.\<close>

theorem manifest_verifies_exactly_as_authenticated:
  assumes "digest_size w" and "mac_exact w"
  shows "(verify_authenticated_manifest uuid (Some w) a key = Inr m \<longleftrightarrow>
      manifest_ok uuid m \<and> am_manifest a = m
      \<and> am_manifestTagBase64url a
          = encode_base64url (wc_sign w key (json_bytes (canonical_manifest_json m)))
      \<and> am_manifestDigest a = encode_hex (wc_digest w (json_bytes (canonical_manifest_json m))))
    \<and> (authenticate_manifest uuid (Some w) m key = Inr a
        \<longrightarrow> verify_authenticated_manifest uuid (Some w) a key = Inr m)"
  unfolding verify_authenticated_manifest_iff [OF assms] authenticate_manifest_iff
  by (cases a) (auto simp: manifest_tag_def)

theorem manifest_verifies_exactly_as_authenticated_witness:
  "\<exists>a. verify_authenticated_manifest (\<lambda>_. True) (Some demo_crypto) a () = Inr demo_manifest"
  using manifest_verifies_exactly_as_authenticated [OF demo_crypto_ok(3,2), of "\<lambda>_. True"
      "manifest_tag demo_crypto () demo_manifest" "()" demo_manifest] demo_manifest_ok
  by (auto simp: manifest_tag_def)

section \<open>Key wrapping\<close>

lemma wrap_master_key_D:
  assumes "wrap_master_key parse_date (Some w) now mk material expected = Inr k"
  shows "length mk = 32 \<and> public_wrapping_material_ok parse_date material
    \<and> same_binding material expected
    \<and> (\<exists>t. parse_date (pm_usableUntil material) = Some t \<and> now < t)
    \<and> (\<exists>spki pub wrapped. decode_base64url (pm_spkiBase64url material) = Inr spki
        \<and> wc_import_spki w spki = Some pub \<and> require_rsa_strength (wc_algorithm w pub) = Inr ()
        \<and> wc_rsa_encrypt w pub mk = Some wrapped
        \<and> k = \<lparr>wk_materialId = pm_materialId material, wk_keyId = pm_keyId material,
             wk_algorithm = pm_algorithm material,
             wk_wrappedKeyBase64url = encode_base64url wrapped,
             wk_wrappedKeySha256 = encode_hex (wc_digest w wrapped)\<rparr>
        \<and> wrapped_master_key_ok k)"
proof -
  have date: "\<exists>t. parse_date (pm_usableUntil material) = Some t"
    if "public_wrapping_material_ok parse_date material"
    using that by (auto simp: public_wrapping_material_ok_def canonical_timestamp_ok_def)
  show ?thesis
    using assms date unfolding wrap_master_key_def
    by (auto simp: bind_result_Inr_iff require_master_key_def master_key_bytes_def Let_def
        split: if_splits option.splits sum.splits)
qed

lemma require_rsa_strength_D:
  assumes "require_rsa_strength alg = Inr ()"
  shows "\<exists>n e. alg_modulusLength alg = Some n \<and> 3072 \<le> n \<and> alg_publicExponent alg = Some e
    \<and> bytes_equal e [1, 0, 1]"
  using assms by (auto simp: require_rsa_strength_def rsa_minimum_modulus_bits_def
      split: option.splits if_splits)

text \<open>C12: A master key is wrapped only for the recording it belongs to and only with material
  that is still usable and strong: the material's attempt, commit and object are the
  expected ones, its expiry lies in the future, and its key is RSA with at least 3072 bits;
  and what was wrapped unwraps, with the matching private key and reference, to the same key.\<close>

theorem wrapping_is_bound_and_reversible:
  assumes "wrap_master_key parse_date (Some w) now mk material expected = Inr k"
    and "decode_base64url (pm_spkiBase64url material) = Inr spki" and "rsa_pair w spki pkcs8"
  shows "bd_attemptId material = bd_attemptId expected \<and> bd_headSha material = bd_headSha expected
    \<and> bd_objectId material = bd_objectId expected
    \<and> (\<exists>t. parse_date (pm_usableUntil material) = Some t \<and> now < t)
    \<and> (\<exists>pub n. wc_import_spki w spki = Some pub
         \<and> alg_modulusLength (wc_algorithm w pub) = Some n \<and> 3072 \<le> n)
    \<and> unwrap_master_key (Some w) k pkcs8 (pm_materialId material) (pm_keyId material) = Inr mk"
proof -
  obtain wrapped pub where d: "length mk = 32" "same_binding material expected"
    "\<exists>t. parse_date (pm_usableUntil material) = Some t \<and> now < t"
    and pub: "wc_import_spki w spki = Some pub" and strong: "require_rsa_strength (wc_algorithm w pub) = Inr ()"
    and enc: "wc_rsa_encrypt w pub mk = Some wrapped"
    and k: "k = \<lparr>wk_materialId = pm_materialId material, wk_keyId = pm_keyId material,
             wk_algorithm = pm_algorithm material,
             wk_wrappedKeyBase64url = encode_base64url wrapped,
             wk_wrappedKeySha256 = encode_hex (wc_digest w wrapped)\<rparr>"
    and ok: "wrapped_master_key_ok k"
    using wrap_master_key_D [OF assms(1)] assms(2) by auto
  obtain priv where priv: "wc_import_pkcs8 w pkcs8 = Some priv"
    "wc_algorithm w priv = wc_algorithm w pub" "wc_rsa_decrypt w priv wrapped = Some mk"
    using assms(3) pub enc unfolding rsa_pair_def by auto
  have b64: "decode_base64url (encode_base64url wrapped) = Inr wrapped"
    by (rule base64url.dec_enc) simp
  have "unwrap_master_key (Some w) k pkcs8 (pm_materialId material) (pm_keyId material) = Inr mk"
    using ok priv strong d(1) b64
    by (simp add: unwrap_master_key_def k require_master_key_def master_key_bytes_def)
  then show ?thesis
    using d pub require_rsa_strength_D [OF strong] by (auto simp: same_binding_def)
qed

definition demo_material :: public_wrapping_material where
  "demo_material = \<lparr>bd_attemptId = demo_uuid_text, bd_headSha = replicate 40 (CHR ''b''),
     bd_objectId = demo_uuid_text, pm_protocolVersion = 1, pm_suiteId = ''SP-RC1'',
     pm_materialId = demo_uuid_text, pm_keyId = ''key-1'', pm_algorithm = wrapping_algorithm,
     pm_spkiBase64url = ''AAAA'', pm_usableUntil = ''2026-01-01T00:00:00Z''\<rparr>"

definition demo_wrapped :: wrapped_master_key where
  "demo_wrapped = \<lparr>wk_materialId = demo_uuid_text, wk_keyId = ''key-1'',
     wk_algorithm = wrapping_algorithm, wk_wrappedKeyBase64url = encode_base64url (replicate 32 7),
     wk_wrappedKeySha256 = encode_hex (wc_digest demo_crypto (replicate 32 7))\<rparr>"

lemma demo_strings: "canonical_uuid_ok demo_uuid_text" "key_id_ok ''key-1''"
  "head_sha_ok (replicate 40 (CHR ''b''))" "base64url_ok ''AAAA''"
  "iso_timestamp_pattern ''2026-01-01T00:00:00Z''"
  by code_simp+

lemma demo_material_ok: "public_wrapping_material_ok (\<lambda>_. Some 1000) demo_material"
  using demo_strings
  by (simp add: public_wrapping_material_ok_def demo_material_def recording_binding_ok_def
      recording_protocol_version_def recording_suite_id_def canonical_timestamp_ok_def)

lemma demo_wrapped_ok: "wrapped_master_key_ok demo_wrapped"
proof -
  have "base64url_ok (encode_base64url (replicate 32 7))"
    using nonce_text_ok_encode [of "replicate 32 7" 32] by (simp add: nonce_text_ok_def)
  moreover have "length (encode_base64url (replicate 32 7)) = 43"
    by (simp add: encode_base64url_length)
  moreover have "length (wc_digest demo_crypto (replicate 32 7)) = 32"
    using demo_crypto_ok(3) by (simp add: digest_size_def)
  then have "sha256_hex_ok (encode_hex (wc_digest demo_crypto (replicate 32 7)))"
    using sha256_hex_ok_digest [of "wc_digest demo_crypto" "replicate 32 7"]
    by (simp add: sha256_hex_def)
  ultimately show ?thesis
    using demo_strings by (simp add: wrapped_master_key_ok_def demo_wrapped_def)
qed

lemma demo_wrap: "wrap_master_key (\<lambda>_. Some 1000) (Some demo_crypto) 999 (replicate 32 7) demo_material
    demo_binding = Inr demo_wrapped"
proof -
  have spki: "decode_base64url ''AAAA'' = Inr [0, 0, 0]"
    by code_simp
  have e: "bytes_equal [1, 0, 1] [1, 0, 1]"
    by (subst bytes_equal_iff) simp_all
  have imp: "wc_import_spki demo_crypto bs = Some ()"
    "wc_algorithm demo_crypto () = \<lparr>alg_modulusLength = Some 3072, alg_publicExponent = Some [1, 0, 1]\<rparr>"
    "wc_rsa_encrypt demo_crypto () x = Some x" for bs x
    by (simp_all add: demo_crypto_def)
  have strong: "require_rsa_strength (wc_algorithm demo_crypto ()) = Inr ()"
    using e by (simp add: require_rsa_strength_def imp rsa_minimum_modulus_bits_def)
  have same: "same_binding demo_material demo_binding"
    "pm_spkiBase64url demo_material = ''AAAA''"
    by (simp_all add: same_binding_def demo_material_def demo_binding_def)
  have result: "\<lparr>wk_materialId = pm_materialId demo_material, wk_keyId = pm_keyId demo_material,
      wk_algorithm = pm_algorithm demo_material,
      wk_wrappedKeyBase64url = encode_base64url (replicate 32 7),
      wk_wrappedKeySha256 = encode_hex (wc_digest demo_crypto (replicate 32 7))\<rparr> = demo_wrapped"
    by (simp add: demo_wrapped_def demo_material_def)
  show ?thesis
    unfolding wrap_master_key_def
    using demo_material_ok demo_binding_ok demo_wrapped_ok same spki imp strong result
    by (simp add: require_master_key_def master_key_bytes_def Let_def)
qed

theorem wrapping_is_bound_and_reversible_witness:
  "wrap_master_key (\<lambda>_. Some 1000) (Some demo_crypto) 999 (replicate 32 7) demo_material demo_binding
     = Inr demo_wrapped
   \<and> unwrap_master_key (Some demo_crypto) demo_wrapped [] demo_uuid_text ''key-1''
     = Inr (replicate 32 7)"
proof -
  have d: "decode_base64url (pm_spkiBase64url demo_material) = Inr [0, 0, 0]"
    by code_simp
  have "pm_materialId demo_material = demo_uuid_text" "pm_keyId demo_material = ''key-1''"
    by (simp_all add: demo_material_def)
  then show ?thesis
    using wrapping_is_bound_and_reversible [OF demo_wrap d demo_crypto_ok(4), of "[]"] demo_wrap
    by metis
qed

end
