(* ===== verification/Multipart_Life.thy ===== *)
theory Multipart_Life
  imports Multipart
begin

text \<open>
  Properties of the multipart upload: the packer, its agreement with the manifest's schema,
  the ledger of registered parts and the check of the provider's list. The ledger is an
  \<open>invariant_system\<close>.
\<close>

section \<open>The ledger\<close>

definition ledger_inv :: "part_ledger \<Rightarrow> bool" where
  "ledger_inv parts \<longleftrightarrow> (\<forall>n p. parts n = Some p \<longrightarrow> mp_partNumber p = n
     \<and> manifest_part_ok (manifest_part.truncate p) \<and> mp_byteLength p = int (length (pb_bytes p)))"

inductive ledger_step :: "part_ledger \<Rightarrow> part_ledger \<Rightarrow> bool" where
  "ledger_register part parts = (res, parts') \<Longrightarrow> ledger_step parts parts'"

inductive_cases ledger_stepE: "ledger_step parts parts'"

lemma truncate_sel [simp]:
  "mp_partNumber (manifest_part.truncate p) = mp_partNumber p"
  "mp_byteLength (manifest_part.truncate p) = mp_byteLength p"
  "mp_sha256 (manifest_part.truncate p) = mp_sha256 p"
  "mp_firstChunkIndex (manifest_part.truncate p) = mp_firstChunkIndex p"
  "mp_lastChunkIndex (manifest_part.truncate p) = mp_lastChunkIndex p"
  by (simp_all add: manifest_part.defs)

lemma extend_truncate [simp]:
  "manifest_part.extend (manifest_part.truncate p) (packed_part.fields (pb_bytes p)) = (p :: packed_part)"
  by (cases p) (simp add: manifest_part.defs packed_part.defs)

lemma ledger_register_cases:
  "ledger_register part parts =
     (if \<not> manifest_part_ok (manifest_part.truncate part) then (Inl MediaSchemaError, parts)
      else if mp_byteLength part \<noteq> int (length (pb_bytes part)) then (throw Multipart_mismatch, parts)
      else (case parts (mp_partNumber part) of
         None \<Rightarrow> (Inr Accepted, parts(mp_partNumber part \<mapsto> part))
       | Some existing \<Rightarrow>
           if mp_sha256 existing = mp_sha256 part
              \<and> mp_firstChunkIndex existing = mp_firstChunkIndex part
              \<and> mp_lastChunkIndex existing = mp_lastChunkIndex part
              \<and> bytes_equal (pb_bytes existing) (pb_bytes part)
           then (Inr Duplicate, parts)
           else (throw Multipart_mismatch, parts)))"
  by (simp add: ledger_register_def Let_def split: option.split)

interpretation ledger: invariant_system "\<lambda>parts. parts = Map.empty" ledger_step ledger_inv
proof
  fix parts :: part_ledger assume "parts = Map.empty"
  then show "ledger_inv parts" by (simp add: ledger_inv_def)
next
  fix parts parts' :: part_ledger
  assume inv: "ledger_inv parts" and "ledger_step parts parts'"
  then obtain part res where r: "ledger_register part parts = (res, parts')"
    by (auto elim: ledger_stepE)
  show "ledger_inv parts'"
    using r inv unfolding ledger_register_cases ledger_inv_def
    by (auto split: if_splits option.splits)
qed

lemma ledger_keeps: "ledger_step parts parts' \<Longrightarrow> parts n = Some p \<Longrightarrow> parts' n = Some p"
  by (elim ledger_stepE) (auto simp: ledger_register_cases split: if_splits option.splits)

lemma ledger_keeps_steps: "ledger_step\<^sup>*\<^sup>* parts parts' \<Longrightarrow> parts n = Some p \<Longrightarrow> parts' n = Some p"
  by (induction rule: rtranclp_induct) (auto intro: ledger_keeps)

lemma part_size_32: "manifest_part_ok p \<Longrightarrow> mp_byteLength p = int n \<Longrightarrow> n < 2 ^ 32"
  by (simp add: manifest_part_ok_def object_bytes_ok_def int_between_def
      max_recording_object_bytes_def)

text \<open>A part registered again gives \<open>Duplicate\<close> exactly when it is the part on record.\<close>

lemma ledger_second:
  assumes inv: "ledger_inv parts" and stored: "parts (mp_partNumber p) = Some q"
  shows "ledger_register p parts = (Inr Duplicate, parts) \<longleftrightarrow> p = q"
proof
  assume dup: "ledger_register p parts = (Inr Duplicate, parts)"
  have q: "mp_partNumber q = mp_partNumber p" "manifest_part_ok (manifest_part.truncate q)"
    "mp_byteLength q = int (length (pb_bytes q))"
    using inv stored unfolding ledger_inv_def by blast+
  have p: "manifest_part_ok (manifest_part.truncate p)" "mp_byteLength p = int (length (pb_bytes p))"
    and same: "mp_sha256 q = mp_sha256 p" "mp_firstChunkIndex q = mp_firstChunkIndex p"
      "mp_lastChunkIndex q = mp_lastChunkIndex p" "bytes_equal (pb_bytes q) (pb_bytes p)"
    using dup stored unfolding ledger_register_cases by (simp_all split: if_splits)
  have "pb_bytes q = pb_bytes p"
    using same(4) bytes_equal_iff [of "pb_bytes q" "pb_bytes p"]
      part_size_32 [OF q(2)] part_size_32 [OF p(1)] q(3) p(2) by simp
  then show "p = q"
    using q p same by (intro packed_part.equality) simp_all
next
  assume pq: "p = q"
  have q: "manifest_part_ok (manifest_part.truncate q)" "mp_byteLength q = int (length (pb_bytes q))"
    using inv stored unfolding ledger_inv_def by blast+
  have "bytes_equal (pb_bytes q) (pb_bytes q)"
    using bytes_equal_iff [of "pb_bytes q" "pb_bytes q"] part_size_32 [OF q(1)] q(2) by simp
  then show "ledger_register p parts = (Inr Duplicate, parts)"
    using q stored pq unfolding ledger_register_cases by simp
qed

section \<open>The provider's list\<close>

lemma verify_provider_iff:
  "verify_provider_part_list ms rs ps = Inr () \<longleftrightarrow>
     list_all manifest_part_ok ms \<and> list_all uploaded_part_receipt_ok rs
     \<and> list_all provider_listed_part_ok ps \<and> length ms = length rs \<and> length ms = length ps
     \<and> (\<forall>i<length ms. mp_partNumber (ms ! i) = int i + 1 \<and> up_partNumber (rs ! i) = int i + 1
         \<and> pp_partNumber (ps ! i) = int i + 1 \<and> pp_byteLength (ps ! i) = mp_byteLength (ms ! i)
         \<and> pp_etag (ps ! i) = up_etag (rs ! i))"
  unfolding verify_provider_part_list_def list_ex_enumerate Let_def by auto


lemma accepted_bytes:
  assumes "manifest_ok uuid m"
  shows "part_start (mf_parts m) (length (mf_parts m)) = mf_totalObjectBytes m"
proof -
  obtain prefix where "decode_base64url (mf_noncePrefixBase64url m) = Inr prefix"
    using manifest_ok_prefix [OF assms] by blast
  from manifest_refinement_iff [OF manifest_ok_positive [OF assms] this] show ?thesis
    using manifest_ok_refinement [OF assms] by blast
qed

section \<open>Properties\<close>

text \<open>C7: Packing is total on recordings and loses nothing: \<open>packChunkRecords\<close> returns parts if
  and only if its input is one to 1024 well-formed records numbered from zero of at most
  128 MiB together (the part count and staging limits are then never hit), and the parts'
  bytes, end to end, are the records' bytes; every part but the last has exactly 8 MiB, the
  last is not empty, and each part carries its number, its length and its own digest.\<close>

theorem packing_is_total_and_lossless:
  assumes digest: "\<And>bs. length (sha bs) = 32"
  shows "((\<exists>ps. pack_chunk_records sha rs = Inr ps) \<longleftrightarrow> recording_records rs)
    \<and> (pack_chunk_records sha rs = Inr ps \<longrightarrow>
        concat (map pb_bytes ps) = concat rs
        \<and> (\<forall>k<length ps. mp_partNumber (ps ! k) = int k + 1
             \<and> mp_byteLength (ps ! k) = int (length (pb_bytes (ps ! k)))
             \<and> mp_sha256 (ps ! k) = sha256_hex sha (pb_bytes (ps ! k))
             \<and> pb_bytes (ps ! k) \<noteq> []
             \<and> (Suc k < length ps \<longrightarrow> length (pb_bytes (ps ! k)) = 8388608)))"
proof (intro conjI impI)
  show "(\<exists>ps. pack_chunk_records sha rs = Inr ps) \<longleftrightarrow> recording_records rs"
    using pack_complete [where sha = sha, OF digest] pack_sound [of sha rs] by blast
  assume ps: "pack_chunk_records sha rs = Inr ps"
  then have packed: "packed_recording sha rs ps"
    using pack_complete [where sha = sha, OF digest pack_sound [OF ps]] by auto
  then show "concat (map pb_bytes ps) = concat rs"
    by (simp add: packed_recording_def)
  show "\<forall>k<length ps. mp_partNumber (ps ! k) = int k + 1
             \<and> mp_byteLength (ps ! k) = int (length (pb_bytes (ps ! k)))
             \<and> mp_sha256 (ps ! k) = sha256_hex sha (pb_bytes (ps ! k))
             \<and> pb_bytes (ps ! k) \<noteq> []
             \<and> (Suc k < length ps \<longrightarrow> length (pb_bytes (ps ! k)) = 8388608)"
    using packed unfolding packed_recording_def emitted_part_def by auto
qed

definition demo_digest :: "bytes \<Rightarrow> bytes" where
  "demo_digest bs = take 32 (bs @ replicate 32 0)"

lemma demo_digest_length: "length (demo_digest bs) = 32"
  by (simp add: demo_digest_def)

definition demo_records :: "record_fields list" where
  "demo_records = [demo_fields 0, demo_fields 1]"

lemma demo_records_recording: "recording_records (map record_encoding demo_records)"
proof -
  have l: "length (record_encoding (demo_fields i)) = 50" if "0 \<le> i" "i < 256 ^ 4" for i
    using record_encoding_length [OF demo_fields_ok [OF that]] by (simp add: demo_fields_def)
  have "numbered_record i (map record_encoding demo_records ! i)" if "i < 2" for i
  proof -
    have "map record_encoding demo_records ! i = record_encoding (demo_fields (int i))"
      using that by (auto simp: demo_records_def less_2_cases_iff)
    moreover have "record_fields_ok (demo_fields (int i))"
      using that by (intro demo_fields_ok) auto
    ultimately show ?thesis
      unfolding numbered_record_def
      by (intro exI [of _ "demo_fields (int i)"]) (simp add: demo_fields_def)
  qed
  then show ?thesis
    using l [of 0] l [of 1] by (simp add: recording_records_def demo_records_def)
qed

theorem packing_is_total_and_lossless_witness:
  "\<exists>ps. pack_chunk_records demo_digest (map record_encoding demo_records) = Inr ps
     \<and> concat (map pb_bytes ps) = concat (map record_encoding demo_records)"
  using packing_is_total_and_lossless [where sha = demo_digest, OF demo_digest_length]
    demo_records_recording by blast

text \<open>C8: What the client packs is what the server accepts: for consecutive records from index
  zero under one nonce prefix, the entries of the records and the metadata of the packed
  parts, put into a manifest with that prefix and the totals, pass the manifest's chunk,
  part and cross-field checks.\<close>

theorem packed_manifest_is_accepted:
  assumes digest: "\<And>bs. length (sha bs) = 32"
    and fs: "consecutive_records 0 (Some prefix) fs"
    and packed: "pack_chunk_records sha (map record_encoding fs) = Inr ps"
    and prefix: "decode_base64url (mf_noncePrefixBase64url m) = Inr prefix"
    and chunks: "mf_chunks m = map (record_manifest_chunk sha) fs"
    and parts: "mf_parts m = map manifest_part.truncate ps"
    and plain: "mf_totalPlaintextBytes m = (\<Sum>f\<leftarrow>fs. rf_plaintextLength f)"
    and total: "mf_totalObjectBytes m = int (length (concat (map record_encoding fs)))"
  shows "list_all manifest_chunk_ok (mf_chunks m)
    \<and> 1 \<le> length (mf_chunks m) \<and> length (mf_chunks m) \<le> max_recording_chunks
    \<and> list_all manifest_part_ok (mf_parts m)
    \<and> 1 \<le> length (mf_parts m) \<and> length (mf_parts m) \<le> max_multipart_parts
    \<and> manifest_refinement_ok m"
proof -
  let ?rs = "map record_encoding fs"
  have rec: "recording_records ?rs"
    using packed by (rule pack_sound)
  have pr: "packed_recording sha ?rs ps"
    using pack_complete [where sha = sha, OF digest rec] packed by auto
  have fields: "\<forall>f\<in>set fs. record_fields_ok f"
    using consecutive_records_bounds [OF fs] by blast
  have chunk_ok: "manifest_chunk_ok c" if "c \<in> set (mf_chunks m)" for c
    using that fields record_manifest_chunk_ok [where sha = sha, OF digest] by (auto simp: chunks)
  have part_ok: "manifest_part_ok (manifest_part.truncate (ps ! k))" if "k < length ps" for k
    using packed_manifest_part_ok [where sha = sha, OF digest pr _ _ that] rec
    by (simp add: recording_records_def)
  then have part_all: "\<forall>p\<in>set (mf_parts m). manifest_part_ok p"
    by (auto simp: parts in_set_conv_nth)
  have pos: "\<forall>c\<in>set (mf_chunks m). 0 < record_size c" "\<forall>p\<in>set (mf_parts m). 0 < mp_byteLength p"
    using chunk_ok part_all by (auto intro: manifest_chunk_ok_size manifest_part_ok_size)
  have entries: "chunk_entry_ok prefix i (mf_chunks m ! i)" if i: "i < length fs" for i
  proof -
    have f: "record_fields_ok (fs ! i)" and n: "rf_nonce (fs ! i) = prefix @ be_bytes 4 (int i)"
      using fields i consecutive_records_prefix [OF fs i] by simp_all
    have idx: "rf_chunkIndex (fs ! i) = int i"
      using consecutive_records_index [OF fs i] by simp
    have "length prefix = 8" and "int i < 256 ^ 4"
      using f n idx by (auto simp: record_fields_ok_def nonce_ok_def simp del: be_bytes.simps)
    then show ?thesis
      using f n idx i by (simp add: chunk_entry_ok_def chunks record_manifest_chunk_def
          build_chunk_nonce_ok record_fields_ok_def del: be_bytes.simps)
  qed
  have "inj_on encode_base64url (set (map rf_nonce fs))"
    by (rule inj_onI) (rule base64url.enc_inj, simp_all)
  then have "distinct (map encode_base64url (map rf_nonce fs))"
    by (subst distinct_map, intro conjI) (rule consecutive_records_nonces [OF fs])
  then have distinct: "distinct (map mc_nonce (mf_chunks m))"
    by (simp add: chunks comp_def record_manifest_chunk_def)
  have entry_all: "\<forall>k<length (mf_parts m). part_entry_ok (mf_chunks m) (length (mf_parts m))
      (part_start (mf_parts m) k) k (mf_parts m ! k)"
    using packed_part_entry_ok [OF pr fields] by (simp add: parts chunks)
  have "manifest_refinement_ok m"
    unfolding manifest_refinement_iff [OF pos prefix]
    using entries distinct entry_all plain total part_start_packed_all [OF pr]
      chunk_offset_boff [OF fields, of sha "length fs"] boff_all [of ?rs]
    by (simp add: chunks parts record_manifest_chunk_def comp_def)
  moreover have "1 \<le> length ps \<and> length ps \<le> 32"
    using pr by (simp add: packed_recording_def)
  ultimately show ?thesis
    using chunk_ok part_all rec
    by (simp add: list_all_iff recording_records_def chunks [symmetric] max_recording_chunks_def
        max_multipart_parts_def) (simp add: chunks parts)
qed


definition demo_packed_manifest :: "packed_part list \<Rightarrow> recording_manifest" where
  "demo_packed_manifest ps = demo_manifest\<lparr>
     mf_chunks := map (record_manifest_chunk demo_digest) demo_records,
     mf_parts := map manifest_part.truncate ps,
     mf_totalPlaintextBytes := 4, mf_totalObjectBytes := 100\<rparr>"

theorem packed_manifest_is_accepted_witness:
  "\<exists>ps. pack_chunk_records demo_digest (map record_encoding demo_records) = Inr ps
     \<and> manifest_refinement_ok (demo_packed_manifest ps)"
proof -
  obtain ps where ps: "pack_chunk_records demo_digest (map record_encoding demo_records) = Inr ps"
    using pack_complete [where sha = demo_digest, OF demo_digest_length demo_records_recording] by blast
  have ok: "record_fields_ok (demo_fields 0)" "record_fields_ok (demo_fields 1)"
    by (rule demo_fields_ok; simp)+
  have l: "length (record_encoding (demo_fields 0)) = 50" "length (record_encoding (demo_fields 1)) = 50"
    using ok record_encoding_length by (simp_all add: demo_fields_def)
  have chain: "consecutive_records 0 (Some demo_prefix) demo_records"
    using ok by (simp add: demo_records_def demo_fields_def demo_prefix_def del: be_bytes.simps)
  have prefix: "decode_base64url (mf_noncePrefixBase64url (demo_packed_manifest ps)) = Inr demo_prefix"
    by (simp add: demo_packed_manifest_def demo_manifest_def) (rule base64url.dec_enc, simp)
  have "manifest_refinement_ok (demo_packed_manifest ps)"
    using packed_manifest_is_accepted [where sha = demo_digest, OF demo_digest_length chain ps prefix] l
    by (simp add: demo_packed_manifest_def demo_records_def demo_fields_def)
  then show ?thesis
    using ps by blast
qed

text \<open>The ledger of uploaded parts never changes what it has accepted: in every ledger that
  registrations can produce, a stored part stays stored under its number through any further
  registrations; registering a part under a taken number answers \<open>duplicate\<close> exactly when it
  is the same part in every field and byte, and is otherwise refused without any effect.\<close>

theorem ledger_never_overwrites:
  assumes reach: "ledger_step\<^sup>*\<^sup>* Map.empty parts" and stored: "parts (mp_partNumber p) = Some q"
  shows "(ledger_step\<^sup>*\<^sup>* parts parts' \<longrightarrow> parts' (mp_partNumber p) = Some q)
    \<and> (ledger_register p parts = (Inr Duplicate, parts) \<longleftrightarrow> p = q)
    \<and> (p \<noteq> q \<longrightarrow> (\<exists>e. ledger_register p parts = (Inl e, parts)))"
proof (intro conjI impI)
  have inv: "ledger_inv parts"
    using reach by (rule ledger.inv_reachable [rotated]) simp
  show "parts' (mp_partNumber p) = Some q" if "ledger_step\<^sup>*\<^sup>* parts parts'"
    using ledger_keeps_steps [OF that stored] .
  show second: "ledger_register p parts = (Inr Duplicate, parts) \<longleftrightarrow> p = q"
    using inv stored by (rule ledger_second)
  show "\<exists>e. ledger_register p parts = (Inl e, parts)" if "p \<noteq> q"
    using second that stored unfolding ledger_register_cases by (auto split: if_splits)
qed

lemmas part_limits = part_number_ok_def int_between_def safe_integer_ok_def uint32_ok_def
  object_bytes_ok_def max_safe_integer_def max_uint32_def max_multipart_parts_def
  max_recording_object_bytes_def etag_ok_def

definition demo_part :: "bytes \<Rightarrow> packed_part" where
  "demo_part bs = \<lparr>mp_partNumber = 1, mp_firstChunkIndex = 0, mp_lastChunkIndex = 0,
     mp_byteLength = int (length bs), mp_sha256 = demo_sha256, pb_bytes = bs\<rparr>"

theorem ledger_never_overwrites_witness:
  "\<exists>parts. ledger_step\<^sup>*\<^sup>* Map.empty parts \<and> parts 1 = Some (demo_part [7])
     \<and> ledger_register (demo_part [7]) parts = (Inr Duplicate, parts)
     \<and> (\<exists>e. ledger_register (demo_part [8]) parts = (Inl e, parts))"
proof -
  let ?parts = "[1 \<mapsto> demo_part [7]] :: part_ledger"
  have "sha256_hex_ok demo_sha256"
    by code_simp
  then have "manifest_part_ok (manifest_part.truncate (demo_part [7]))"
    by (simp add: manifest_part_ok_def part_limits demo_part_def)
  then have "ledger_register (demo_part [7]) Map.empty = (Inr Accepted, ?parts)"
    by (simp add: ledger_register_cases demo_part_def)
  then have reach: "ledger_step\<^sup>*\<^sup>* Map.empty ?parts"
    by (intro r_into_rtranclp ledger_step.intros)
  have n: "mp_partNumber (demo_part bs) = 1" for bs
    by (simp add: demo_part_def)
  have ne: "demo_part [8] \<noteq> demo_part [7]"
    by (simp add: demo_part_def)
  have stored: "?parts (mp_partNumber (demo_part bs)) = Some (demo_part [7])" for bs
    by (simp add: n)
  have "ledger_register (demo_part [7]) ?parts = (Inr Duplicate, ?parts)"
    using ledger_never_overwrites [OF reach stored [of "[7]"]] by blast
  moreover have "\<exists>e. ledger_register (demo_part [8]) ?parts = (Inl e, ?parts)"
    using ledger_never_overwrites [OF reach stored [of "[8]"]] ne by blast
  moreover have "?parts 1 = Some (demo_part [7])" by simp
  ultimately show ?thesis
    using reach by blast
qed

text \<open>An upload whose provider list was verified against an accepted manifest has the size
  the manifest authenticates: the listed parts are numbered from one without gaps, carry the
  entity tags the client reported, and their bytes add up to the object's total.\<close>

theorem verified_upload_matches_manifest:
  assumes m: "manifest_ok uuid m" and v: "verify_provider_part_list (mf_parts m) rs ps = Inr ()"
  shows "(\<Sum>p\<leftarrow>ps. pp_byteLength p) = mf_totalObjectBytes m
    \<and> map pp_partNumber ps = map (\<lambda>i. int i + 1) [0..<length (mf_parts m)]
    \<and> map pp_etag ps = map up_etag rs"
proof -
  note v = v [unfolded verify_provider_iff]
  have "map pp_byteLength ps = map mp_byteLength (mf_parts m)"
    using v by (intro nth_equalityI) simp_all
  moreover have "(\<Sum>p\<leftarrow>mf_parts m. mp_byteLength p) = mf_totalObjectBytes m"
    using accepted_bytes [OF m] by (simp add: part_start_def)
  moreover have "map pp_partNumber ps = map (\<lambda>i. int i + 1) [0..<length (mf_parts m)]"
    using v by (intro nth_equalityI) simp_all
  moreover have "map pp_etag ps = map up_etag rs"
    using v by (intro nth_equalityI) simp_all
  ultimately show ?thesis by simp
qed

theorem verified_upload_matches_manifest_witness:
  "verify_provider_part_list (mf_parts demo_manifest) [\<lparr>up_partNumber = 1, up_etag = ''x''\<rparr>]
     [\<lparr>pp_partNumber = 1, pp_byteLength = 50, pp_etag = ''x''\<rparr>] = Inr ()
   \<and> (\<Sum>p\<leftarrow>[\<lparr>pp_partNumber = 1, pp_byteLength = 50, pp_etag = ''x''\<rparr>]. pp_byteLength p) = 50"
proof -
  have v: "verify_provider_part_list (mf_parts demo_manifest) [\<lparr>up_partNumber = 1, up_etag = ''x''\<rparr>]
     [\<lparr>pp_partNumber = 1, pp_byteLength = 50, pp_etag = ''x''\<rparr>] = Inr ()"
    unfolding verify_provider_iff
    using manifest_ok_part [OF demo_manifest_ok]
    by (simp add: demo_manifest_def uploaded_part_receipt_ok_def provider_listed_part_ok_def
        part_limits list_all_iff)
  then show ?thesis
    using verified_upload_matches_manifest [OF demo_manifest_ok v] by (simp add: demo_manifest_def)
qed

end
