(* ===== verification/Sessions.thy ===== *)
theory Sessions
  imports Policy Encoding
begin

text \<open>
  Browser sessions and desktop-to-mobile handoffs (\<open>packages/auth/src/token.ts\<close>,
  \<open>session.ts\<close>, \<open>handoff.ts\<close>). The state is the tables the SQL statements touch, with the
  unique indexes of \<open>packages/db/src/schema.ts\<close>; a transaction is one step that returns its
  result and the tables, the old ones when it is rolled back. Row locks make transactions on
  one attempt or one token sequential.

  Parameters: \<open>hmac\<close> is Node's HMAC-SHA-256 (key, message), and \<open>env\<close> holds what the n-th
  call of the clock, the id generator and the random source returns.

  \<open>auth_step\<close> is any of these operations or a change of the attempts by the rest of the
  system; the invariant is that the unique indexes hold.
\<close>

section \<open>Opaque credentials\<close>

record auth_env =
  env_clock :: "nat \<Rightarrow> millis"
  env_ids :: "nat \<Rightarrow> string"
  env_random :: "nat \<Rightarrow> bytes"

datatype auth_error =
  InsufficientEntropy | InvalidTtl | RoleSchemaError | HandoffRejected | MaterialSchemaError | DatabaseError

datatype credential_purpose = Session_purpose | Csrf_purpose | Handoff_purpose

fun purpose_name :: "credential_purpose \<Rightarrow> string" where
  "purpose_name Session_purpose = ''session''"
| "purpose_name Csrf_purpose = ''csrf''"
| "purpose_name Handoff_purpose = ''handoff''"

definition credential_message :: "credential_purpose \<Rightarrow> string \<Rightarrow> bytes" where
  "credential_message purpose v =
     utf8_bytes (''slopproof/'' @ purpose_name purpose @ ''/v1'' @ [CHR 0x00]) @ utf8_bytes v"

definition hash_opaque_credential ::
  "(bytes \<Rightarrow> bytes \<Rightarrow> bytes) \<Rightarrow> string \<Rightarrow> credential_purpose \<Rightarrow> string \<Rightarrow> string" where
  "hash_opaque_credential hmac secret purpose v =
     encode_hex (hmac (utf8_bytes secret) (credential_message purpose v))"

text \<open>What \<open>randomBytes\<close> returns is the last argument.\<close>

definition create_opaque_credential ::
  "(bytes \<Rightarrow> bytes \<Rightarrow> bytes) \<Rightarrow> string \<Rightarrow> credential_purpose \<Rightarrow> int \<Rightarrow> bytes
     \<Rightarrow> auth_error + string \<times> string" where
  "create_opaque_credential hmac secret purpose entropyBytes random =
     (if \<not> is_safe_integer entropyBytes \<or> entropyBytes < 16 then Inl InsufficientEntropy
      else let v = encode_base64url random in
        Inr (v, hash_opaque_credential hmac secret purpose v))"

lemma create_opaque_credential_32 [simp]:
  "create_opaque_credential hmac secret purpose 32 random = Inr (encode_base64url random,
     hash_opaque_credential hmac secret purpose (encode_base64url random))"
  by (simp add: create_opaque_credential_def is_safe_integer_def max_safe_integer_def Let_def)

section \<open>Tables\<close>

record session_row =
  se_id :: string
  se_token_hash :: string
  se_actor_id :: string
  se_actor_role :: string
  se_repository_id :: "string option"
  se_csrf_hash :: string
  se_expires_at :: millis
  se_revoked_at :: "millis option"

record handoff_row =
  ho_id :: string
  ho_attempt_id :: string
  ho_desktop_session_id :: string
  ho_token_hash :: string
  ho_expires_at :: millis
  ho_consumed_at :: "millis option"

text \<open>The columns of an attempt joined with its revision.\<close>

record attempt_row =
  at_id :: string
  at_author_id :: string
  at_repository_id :: string
  at_status :: string
  at_expires_at :: millis
  at_head_sha :: string
  at_is_current :: bool

record material_row =
  ma_id :: string
  ma_attempt_id :: string
  ma_object_id :: string
  ma_key_id :: string
  ma_algorithm :: string
  ma_spki_sha256 :: string
  ma_usable_until :: millis

record auth_db =
  db_sessions :: "session_row list"
  db_handoffs :: "handoff_row list"
  db_attempts :: "attempt_row list"
  db_materials :: "material_row list"

definition valid_time :: "int \<Rightarrow> bool" where
  "valid_time t \<longleftrightarrow> - max_time_value \<le> t \<and> t \<le> max_time_value"

definition insert_session :: "session_row \<Rightarrow> auth_db \<Rightarrow> auth_error + auth_db" where
  "insert_session r db =
     (if \<not> valid_time (se_expires_at r)
        \<or> list_ex (\<lambda>s. se_id s = se_id r \<or> se_token_hash s = se_token_hash r) (db_sessions db)
      then Inl DatabaseError else Inr (db\<lparr>db_sessions := db_sessions db @ [r]\<rparr>))"

definition insert_handoff :: "handoff_row \<Rightarrow> auth_db \<Rightarrow> auth_error + auth_db" where
  "insert_handoff r db =
     (if \<not> valid_time (ho_expires_at r)
        \<or> list_ex (\<lambda>h. ho_id h = ho_id r \<or> ho_token_hash h = ho_token_hash r
             \<or> ho_attempt_id h = ho_attempt_id r \<and> ho_consumed_at h = None) (db_handoffs db)
        \<or> \<not> list_ex (\<lambda>s. se_id s = ho_desktop_session_id r) (db_sessions db)
      then Inl DatabaseError else Inr (db\<lparr>db_handoffs := db_handoffs db @ [r]\<rparr>))"

definition insert_material :: "material_row \<Rightarrow> auth_db \<Rightarrow> auth_error + auth_db" where
  "insert_material r db =
     (if list_ex (\<lambda>m. ma_id m = ma_id r
          \<or> ma_attempt_id m = ma_attempt_id r \<and> ma_object_id m = ma_object_id r) (db_materials db)
      then Inl DatabaseError else Inr (db\<lparr>db_materials := db_materials db @ [r]\<rparr>))"

section \<open>Sessions\<close>

record authenticated_session =
  ss_id :: string
  ss_actor_id :: string
  ss_actor_role :: string
  ss_repository_id :: "string option"
  ss_csrf_hash :: string
  ss_expires_at :: millis

record issued_session =
  is_session :: authenticated_session
  is_sessionToken :: string
  is_csrfToken :: string

definition actor_role_ok :: "string \<Rightarrow> bool" where
  "actor_role_ok r \<longleftrightarrow> r \<in> {''author'', ''maintainer'', ''support''}"

text \<open>The calls of the clock, ids and random source before this one are skipped by shifting.\<close>

definition shift_env :: "nat \<Rightarrow> nat \<Rightarrow> nat \<Rightarrow> auth_env \<Rightarrow> auth_env" where
  "shift_env c i r env = \<lparr>env_clock = (\<lambda>n. env_clock env (c + n)),
     env_ids = (\<lambda>n. env_ids env (i + n)), env_random = (\<lambda>n. env_random env (r + n))\<rparr>"

definition issue_session ::
  "(bytes \<Rightarrow> bytes \<Rightarrow> bytes) \<Rightarrow> auth_env \<Rightarrow> string \<Rightarrow> string \<Rightarrow> string \<Rightarrow> string option \<Rightarrow> int
     \<Rightarrow> auth_db \<Rightarrow> auth_error + issued_session \<times> auth_db" where
  "issue_session hmac env secret actorId actorRole repositoryId ttlMs db =
     (if \<not> is_safe_integer ttlMs \<or> ttlMs \<le> 0 then Inl InvalidTtl
      else bind_result
        (create_opaque_credential hmac secret Session_purpose 32 (env_random env 0))
        (\<lambda>(sessionToken, sessionHash). bind_result
        (create_opaque_credential hmac secret Csrf_purpose 32 (env_random env 1))
        (\<lambda>(csrfToken, csrfHash).
      if \<not> actor_role_ok actorRole then Inl RoleSchemaError
      else let session = \<lparr>ss_id = env_ids env 0, ss_actor_id = actorId, ss_actor_role = actorRole,
             ss_repository_id = repositoryId, ss_csrf_hash = csrfHash,
             ss_expires_at = env_clock env 0 + ttlMs\<rparr> in
      bind_result (insert_session \<lparr>se_id = ss_id session, se_token_hash = sessionHash,
          se_actor_id = ss_actor_id session, se_actor_role = ss_actor_role session,
          se_repository_id = ss_repository_id session, se_csrf_hash = ss_csrf_hash session,
          se_expires_at = ss_expires_at session, se_revoked_at = None\<rparr> db)
        (\<lambda>db'. Inr (\<lparr>is_session = session, is_sessionToken = sessionToken,
                    is_csrfToken = csrfToken\<rparr>, db')))))"

definition authenticate_session ::
  "(bytes \<Rightarrow> bytes \<Rightarrow> bytes) \<Rightarrow> auth_db \<Rightarrow> string option \<Rightarrow> string \<Rightarrow> millis
     \<Rightarrow> auth_error + authenticated_session option" where
  "authenticate_session hmac db sessionToken secret now =
     (if sessionToken = None \<or> sessionToken = Some [] then Inr None
      else let tokenHash = hash_opaque_credential hmac secret Session_purpose (the sessionToken) in
      (case find (\<lambda>s. se_token_hash s = tokenHash \<and> se_revoked_at s = None \<and> se_expires_at s > now)
          (db_sessions db) of
         None \<Rightarrow> Inr None
       | Some row \<Rightarrow>
         if \<not> actor_role_ok (se_actor_role row) then Inl RoleSchemaError
         else Inr (Some \<lparr>ss_id = se_id row, ss_actor_id = se_actor_id row,
           ss_actor_role = se_actor_role row, ss_repository_id = se_repository_id row,
           ss_csrf_hash = se_csrf_hash row, ss_expires_at = se_expires_at row\<rparr>)))"

text \<open>\<open>Buffer.from(s, "hex")\<close> stops at the first pair that is not hexadecimal.\<close>

definition hex_nibble :: "char \<Rightarrow> nat option" where
  "hex_nibble c = map_of (zip ''0123456789abcdefABCDEF'' ([0..<16] @ [10..<16])) c"

fun node_hex :: "string \<Rightarrow> bytes" where
  "node_hex (c # d # s) = (case (hex_nibble c, hex_nibble d) of
     (Some h, Some l) \<Rightarrow> of_nat (16 * h + l) # node_hex s | _ \<Rightarrow> [])"
| "node_hex _ = []"

definition verify_csrf ::
  "(bytes \<Rightarrow> bytes \<Rightarrow> bytes) \<Rightarrow> authenticated_session \<Rightarrow> string option \<Rightarrow> string \<Rightarrow> bool" where
  "verify_csrf hmac session csrfToken secret =
     (if csrfToken = None \<or> csrfToken = Some [] then False
      else let supplied = node_hex (hash_opaque_credential hmac secret Csrf_purpose (the csrfToken));
               expected = node_hex (ss_csrf_hash session) in
           length supplied = length expected \<and> supplied = expected)"

definition revoke_session :: "auth_db \<Rightarrow> string \<Rightarrow> millis \<Rightarrow> auth_db" where
  "revoke_session db sessionId now = db\<lparr>db_sessions := map (\<lambda>s.
     if se_id s = sessionId
     then s\<lparr>se_revoked_at := (case se_revoked_at s of None \<Rightarrow> Some now | Some t \<Rightarrow> Some t)\<rparr>
     else s) (db_sessions db)\<rparr>"

end
