(* ===== verification/Handoffs.thy ===== *)
theory Handoffs
  imports Sessions
begin

text \<open>
  Desktop-to-mobile handoffs (\<open>packages/auth/src/handoff.ts\<close>) over the tables of
  \<open>Sessions\<close>, the steps of the authentication state, and the invariant that every step keeps.
\<close>

section \<open>Definitions\<close>

record wrapping_input =
  wi_keyId :: string
  wi_algorithm :: string
  wi_spkiDer :: string
  wi_spkiSha256 :: string

definition wrapping_input_ok :: "wrapping_input \<Rightarrow> bool" where
  "wrapping_input_ok w \<longleftrightarrow>
     1 \<le> length (wi_keyId w) \<and> length (wi_keyId w) \<le> 128
     \<and> all_in (''ABCDEFGHIJKLMNOPQRSTUVWXYZabcdefghijklmnopqrstuvwxyz0123456789._:/-'') (wi_keyId w)
     \<and> wi_algorithm w = ''RSA-OAEP-256''
     \<and> 1 \<le> length (wi_spkiDer w) \<and> all_in base64url_alphabet (wi_spkiDer w)
     \<and> length (wi_spkiSha256 w) = 43 \<and> all_in base64url_alphabet (wi_spkiSha256 w)"

record handoff_grant =
  hg_token :: string
  hg_expiresAt :: millis

record exchanged_handoff =
  eh_mobileSession :: issued_session
  eh_material :: wrapping_input
  eh_materialId :: string
  eh_attemptId :: string
  eh_headSha :: string
  eh_objectId :: string
  eh_usableUntil :: millis

definition consume_open_handoffs :: "string \<Rightarrow> millis \<Rightarrow> auth_db \<Rightarrow> auth_db" where
  "consume_open_handoffs attemptId now db = db\<lparr>db_handoffs := map (\<lambda>h.
     if ho_attempt_id h = attemptId \<and> ho_consumed_at h = None
     then h\<lparr>ho_consumed_at := Some now\<rparr> else h) (db_handoffs db)\<rparr>"

definition consume_handoff :: "string \<Rightarrow> millis \<Rightarrow> auth_db \<Rightarrow> auth_db" where
  "consume_handoff handoffId now db = db\<lparr>db_handoffs := map (\<lambda>h.
     if ho_id h = handoffId then h\<lparr>ho_consumed_at := Some now\<rparr> else h) (db_handoffs db)\<rparr>"

definition create_handoff ::
  "(bytes \<Rightarrow> bytes \<Rightarrow> bytes) \<Rightarrow> auth_env \<Rightarrow> string \<Rightarrow> string \<Rightarrow> authenticated_session \<Rightarrow> int option
     \<Rightarrow> auth_db \<Rightarrow> (auth_error + handoff_grant) \<times> auth_db" where
  "create_handoff hmac env secret attemptId session ttl db =
     (let ttlMs = (case ttl of None \<Rightarrow> 5 * 60000 | Some t \<Rightarrow> t) in
      if ss_actor_role session \<noteq> ''author'' then (Inl HandoffRejected, db)
      else (case find (\<lambda>a. at_id a = attemptId) (db_attempts db) of
        None \<Rightarrow> (Inl HandoffRejected, db)
      | Some row \<Rightarrow>
        if at_author_id row \<noteq> ss_actor_id session
           \<or> Some (at_repository_id row) \<noteq> ss_repository_id session
           \<or> at_status row \<noteq> ''ready'' \<or> \<not> at_is_current row
           \<or> at_expires_at row \<le> env_clock env 0
        then (Inl HandoffRejected, db)
        else
          (let db1 = consume_open_handoffs attemptId (env_clock env 1) db in
           (case create_opaque_credential hmac secret Handoff_purpose 32 (env_random env 0) of
              Inl e \<Rightarrow> (Inl e, db)
            | Inr (token, tokenHash) \<Rightarrow>
              let expiresAt = min (at_expires_at row) (env_clock env 2 + ttlMs) in
              (case insert_handoff \<lparr>ho_id = env_ids env 0, ho_attempt_id = attemptId,
                   ho_desktop_session_id = ss_id session, ho_token_hash = tokenHash,
                   ho_expires_at = expiresAt, ho_consumed_at = None\<rparr> db1 of
                 Inl e \<Rightarrow> (Inl e, db)
               | Inr db2 \<Rightarrow> (Inr \<lparr>hg_token = token, hg_expiresAt = expiresAt\<rparr>, db2))))))"

text \<open>The row the query joins for a token: the handoff, its attempt and its desktop session.\<close>

definition find_grant :: "string \<Rightarrow> auth_db \<Rightarrow> (handoff_row \<times> attempt_row \<times> session_row) option" where
  "find_grant tokenHash db =
     (case find (\<lambda>h. ho_token_hash h = tokenHash) (db_handoffs db) of
        None \<Rightarrow> None
      | Some h \<Rightarrow> (case (find (\<lambda>a. at_id a = ho_attempt_id h) (db_attempts db),
                        find (\<lambda>s. se_id s = ho_desktop_session_id h) (db_sessions db)) of
          (Some a, Some s) \<Rightarrow> Some (h, a, s) | _ \<Rightarrow> None))"

definition grant_usable :: "handoff_row \<Rightarrow> attempt_row \<Rightarrow> session_row \<Rightarrow> millis \<Rightarrow> bool" where
  "grant_usable h a s now \<longleftrightarrow>
     \<not> (ho_consumed_at h \<noteq> None \<or> ho_expires_at h \<le> now \<or> at_expires_at a \<le> now
        \<or> se_expires_at s \<le> now \<or> se_revoked_at s \<noteq> None \<or> se_actor_id s \<noteq> at_author_id a
        \<or> at_status a \<noteq> ''ready'' \<or> \<not> at_is_current a)"

definition exchange_handoff ::
  "(bytes \<Rightarrow> bytes \<Rightarrow> bytes) \<Rightarrow> auth_env \<Rightarrow> string \<Rightarrow> string \<Rightarrow> wrapping_input \<Rightarrow> auth_db
     \<Rightarrow> (auth_error + exchanged_handoff) \<times> auth_db" where
  "exchange_handoff hmac env secret token material db =
     (if \<not> wrapping_input_ok material then (Inl MaterialSchemaError, db)
      else let tokenHash = hash_opaque_credential hmac secret Handoff_purpose token;
               now = env_clock env 0 in
      (case find_grant tokenHash db of
         None \<Rightarrow> (Inl HandoffRejected, db)
       | Some (h, a, s) \<Rightarrow>
         if \<not> grant_usable h a s now then (Inl HandoffRejected, db)
         else
           (case issue_session hmac (shift_env 1 0 0 env) secret (at_author_id a) ''author''
                (Some (at_repository_id a)) (at_expires_at a - now)
                (consume_handoff (ho_id h) now db) of
              Inl e \<Rightarrow> (Inl e, db)
            | Inr (mobileSession, db2) \<Rightarrow>
              (case insert_material \<lparr>ma_id = env_ids env 1, ma_attempt_id = at_id a,
                   ma_object_id = env_ids env 2, ma_key_id = wi_keyId material,
                   ma_algorithm = wi_algorithm material, ma_spki_sha256 = wi_spkiSha256 material,
                   ma_usable_until = at_expires_at a\<rparr> db2 of
                 Inl e \<Rightarrow> (Inl e, db)
               | Inr db3 \<Rightarrow>
                 (Inr \<lparr>eh_mobileSession = mobileSession, eh_material = material,
                    eh_materialId = env_ids env 1, eh_attemptId = at_id a,
                    eh_headSha = at_head_sha a, eh_objectId = env_ids env 2,
                    eh_usableUntil = at_expires_at a\<rparr>, db3)))))"

section \<open>Steps\<close>

inductive auth_step :: "(bytes \<Rightarrow> bytes \<Rightarrow> bytes) \<Rightarrow> string \<Rightarrow> auth_db \<Rightarrow> auth_db \<Rightarrow> bool"
  for hmac :: "bytes \<Rightarrow> bytes \<Rightarrow> bytes" and secret :: string
where
  create: "create_handoff hmac env secret a session ttl db = (res, db') \<Longrightarrow> auth_step hmac secret db db'"
| exchange: "exchange_handoff hmac env secret token material db = (res, db') \<Longrightarrow>
    auth_step hmac secret db db'"
| issue: "issue_session hmac env secret actor role repo ttl db = Inr (i, db') \<Longrightarrow>
    auth_step hmac secret db db'"
| revoke: "auth_step hmac secret db (revoke_session db i now)"
| attempts: "auth_step hmac secret db (db\<lparr>db_attempts := as\<rparr>)"

inductive_cases auth_stepE: "auth_step hmac secret db db'"

definition empty_auth_db :: "auth_db \<Rightarrow> bool" where
  "empty_auth_db db \<longleftrightarrow> db_sessions db = [] \<and> db_handoffs db = [] \<and> db_materials db = []"

definition auth_inv :: "auth_db \<Rightarrow> bool" where
  "auth_inv db \<longleftrightarrow>
     distinct (map se_id (db_sessions db)) \<and> distinct (map se_token_hash (db_sessions db))
     \<and> distinct (map ho_id (db_handoffs db)) \<and> distinct (map ho_token_hash (db_handoffs db))
     \<and> distinct (map ho_attempt_id (filter (\<lambda>h. ho_consumed_at h = None) (db_handoffs db)))"

text \<open>How one step may change the tables: rows are kept in order, a session may become revoked,
  a handoff may become consumed, neither is undone, and rows are appended.\<close>

definition session_later :: "session_row \<Rightarrow> session_row \<Rightarrow> bool" where
  "session_later s t \<longleftrightarrow> t = s\<lparr>se_revoked_at := se_revoked_at t\<rparr>
     \<and> (se_revoked_at s \<noteq> None \<longrightarrow> se_revoked_at t = se_revoked_at s)"

definition handoff_later :: "handoff_row \<Rightarrow> handoff_row \<Rightarrow> bool" where
  "handoff_later h k \<longleftrightarrow> k = h\<lparr>ho_consumed_at := ho_consumed_at k\<rparr>
     \<and> (ho_consumed_at h \<noteq> None \<longrightarrow> ho_consumed_at k \<noteq> None)"

definition tables_later :: "auth_db \<Rightarrow> auth_db \<Rightarrow> bool" where
  "tables_later db db' \<longleftrightarrow>
     (\<exists>ss ns. db_sessions db' = ss @ ns \<and> list_all2 session_later (db_sessions db) ss)
     \<and> (\<exists>hs ns. db_handoffs db' = hs @ ns \<and> list_all2 handoff_later (db_handoffs db) hs)"

lemma session_later_refl [simp]: "session_later s s"
  by (simp add: session_later_def)

lemma handoff_later_refl [simp]: "handoff_later h h"
  by (simp add: handoff_later_def)

lemma session_later_trans: "session_later s t \<Longrightarrow> session_later t u \<Longrightarrow> session_later s u"
  by (cases s; cases t; cases u) (auto simp: session_later_def)

lemma handoff_later_trans: "handoff_later h k \<Longrightarrow> handoff_later k m \<Longrightarrow> handoff_later h m"
  by (cases h; cases k; cases m) (auto simp: handoff_later_def)

lemma list_all2_prefix_trans:
  assumes "\<forall>x y z. R x y \<longrightarrow> R y z \<longrightarrow> R x z"
    and "list_all2 R xs ys" and "list_all2 R (ys @ zs) us"
  shows "\<exists>vs ws. us = vs @ ws \<and> list_all2 R xs vs"
proof -
  from assms(3) obtain vs ws where us: "us = vs @ ws" "list_all2 R ys vs"
    by (auto simp: list_all2_append1)
  then have "list_all2 R xs vs"
    using assms(1,2) list_all2_trans by blast
  then show ?thesis using us by blast
qed

lemma tables_later_refl [simp]: "tables_later db db"
proof -
  have "list_all2 session_later (db_sessions db) (db_sessions db)"
    and "list_all2 handoff_later (db_handoffs db) (db_handoffs db)"
    by (simp_all add: list_all2_refl)
  then show ?thesis
    unfolding tables_later_def by (metis append_Nil2)
qed

lemma tables_later_trans:
  assumes "tables_later a b" and "tables_later b c"
  shows "tables_later a c"
proof -
  from assms(1) obtain ss ns hs ms where 1: "db_sessions b = ss @ ns"
    "list_all2 session_later (db_sessions a) ss" "db_handoffs b = hs @ ms"
    "list_all2 handoff_later (db_handoffs a) hs"
    using assms(1) [unfolded tables_later_def] by (elim conjE exE) (rule that)
  from assms(2) obtain ss' ns' hs' ms' where 2: "db_sessions c = ss' @ ns'"
    "list_all2 session_later (db_sessions b) ss'" "db_handoffs c = hs' @ ms'"
    "list_all2 handoff_later (db_handoffs b) hs'"
    using assms(2) [unfolded tables_later_def] by (elim conjE exE) (rule that)
  note s = 1(1,2) 2(1) 2(2) [unfolded 1(1)] and h = 1(3,4) 2(3) 2(4) [unfolded 1(3)]
  obtain vs ws where v: "ss' = vs @ ws" "list_all2 session_later (db_sessions a) vs"
    using list_all2_prefix_trans [of session_later "db_sessions a" ss ns ss', OF _ s(2,4)] session_later_trans that by blast
  obtain us xs where u: "hs' = us @ xs" "list_all2 handoff_later (db_handoffs a) us"
    using list_all2_prefix_trans [of handoff_later "db_handoffs a" hs ms hs', OF _ h(2,4)] handoff_later_trans that by blast
  have "db_sessions c = vs @ (ws @ ns')" and "db_handoffs c = us @ (xs @ ms')"
    using s(3) h(3) v(1) u(1) by simp_all
  then show ?thesis
    using v(2) u(2) unfolding tables_later_def by blast
qed

lemma tables_later_same:
  assumes "db_sessions db' = db_sessions db" and "db_handoffs db' = db_handoffs db"
  shows "tables_later db db'"
  using tables_later_refl [of db] unfolding tables_later_def assms .

section \<open>Every step keeps the invariant and only moves forward\<close>

lemma insert_session_D:
  "insert_session r db = Inr db' \<Longrightarrow> db' = db\<lparr>db_sessions := db_sessions db @ [r]\<rparr>
     \<and> (\<forall>s\<in>set (db_sessions db). se_id s \<noteq> se_id r \<and> se_token_hash s \<noteq> se_token_hash r)"
  by (auto simp: insert_session_def list_ex_iff split: if_splits)

lemma insert_handoff_D:
  "insert_handoff r db = Inr db' \<Longrightarrow> db' = db\<lparr>db_handoffs := db_handoffs db @ [r]\<rparr>
     \<and> (\<forall>h\<in>set (db_handoffs db). ho_id h \<noteq> ho_id r \<and> ho_token_hash h \<noteq> ho_token_hash r
          \<and> \<not> (ho_attempt_id h = ho_attempt_id r \<and> ho_consumed_at h = None))"
  by (auto simp: insert_handoff_def list_ex_iff split: if_splits)

lemma insert_material_D:
  "insert_material r db = Inr db' \<Longrightarrow> db' = db\<lparr>db_materials := db_materials db @ [r]\<rparr>"
  by (auto simp: insert_material_def split: if_splits)

lemma issue_session_D:
  assumes "issue_session hmac env secret actor role repo ttl db = Inr (i, db')"
  shows "\<exists>r. insert_session r db = Inr db' \<and> se_id r = env_ids env 0 \<and> se_actor_id r = actor
    \<and> se_actor_role r = role \<and> se_repository_id r = repo \<and> se_revoked_at r = None
    \<and> se_expires_at r = env_clock env 0 + ttl \<and> 0 < ttl \<and> actor_role_ok role
    \<and> se_token_hash r = hash_opaque_credential hmac secret Session_purpose (is_sessionToken i)
    \<and> is_sessionToken i = encode_base64url (env_random env 0)
    \<and> is_session i = \<lparr>ss_id = se_id r, ss_actor_id = actor, ss_actor_role = role,
         ss_repository_id = repo, ss_csrf_hash = se_csrf_hash r, ss_expires_at = se_expires_at r\<rparr>
    \<and> se_csrf_hash r = hash_opaque_credential hmac secret Csrf_purpose (is_csrfToken i)"
  using assms
  by (auto simp: issue_session_def Let_def result_simps
      split: if_splits)

lemma tables_later_insert_session: "insert_session r db = Inr db' \<Longrightarrow> tables_later db db'"
  using insert_session_D [of r db db'] tables_later_refl [of db]
  unfolding tables_later_def by (auto simp: list_all2_refl)

lemma tables_later_handoffs:
  assumes "list_all2 handoff_later (db_handoffs db) hs"
  shows "tables_later db (db\<lparr>db_handoffs := hs @ ns\<rparr>)"
proof -
  have "db_sessions db = db_sessions db @ []" "list_all2 session_later (db_sessions db) (db_sessions db)"
    by (simp_all add: list_all2_refl)
  then show ?thesis
    using assms unfolding tables_later_def by (metis (no_types, lifting) auth_db.select_convs(1,2)
        auth_db.surjective auth_db.update_convs(2))
qed

lemma list_all2_map_later: "(\<And>x. R x (f x)) \<Longrightarrow> list_all2 R xs (map f xs)"
  by (simp add: list_all2_conv_all_nth)

lemma consume_open_later: "tables_later db (consume_open_handoffs a now db)"
  unfolding consume_open_handoffs_def
  using tables_later_handoffs [OF list_all2_map_later, of "\<lambda>h. if ho_attempt_id h = a
      \<and> ho_consumed_at h = None then h\<lparr>ho_consumed_at := Some now\<rparr> else h" db "[]"]
  by (simp add: handoff_later_def)

lemma consume_later: "tables_later db (consume_handoff i now db)"
  unfolding consume_handoff_def
  using tables_later_handoffs [OF list_all2_map_later, of "\<lambda>h. if ho_id h = i
      then h\<lparr>ho_consumed_at := Some now\<rparr> else h" db "[]"]
  by (simp add: handoff_later_def)

lemma revoke_later: "tables_later db (revoke_session db i now)"
proof -
  let ?f = "\<lambda>s. if se_id s = i
     then s\<lparr>se_revoked_at := (case se_revoked_at s of None \<Rightarrow> Some now | Some t \<Rightarrow> Some t)\<rparr> else s"
  have "list_all2 session_later (db_sessions db) (map ?f (db_sessions db))"
    by (rule list_all2_map_later) (simp add: session_later_def split: option.split)
  moreover have "db_sessions (revoke_session db i now) = map ?f (db_sessions db) @ []"
    "db_handoffs (revoke_session db i now) = db_handoffs db @ []"
    by (simp_all add: revoke_session_def)
  moreover have "list_all2 handoff_later (db_handoffs db) (db_handoffs db)"
    by (simp add: list_all2_refl)
  ultimately show ?thesis
    unfolding tables_later_def by blast
qed

lemma create_handoff_D:
  assumes "create_handoff hmac env secret a session ttl db = (res, db')"
  shows "(\<exists>e. res = Inl e) \<and> db' = db
    \<or> (\<exists>token expires row. res = Inr \<lparr>hg_token = token, hg_expiresAt = expires\<rparr>
        \<and> insert_handoff \<lparr>ho_id = env_ids env 0, ho_attempt_id = a,
            ho_desktop_session_id = ss_id session,
            ho_token_hash = hash_opaque_credential hmac secret Handoff_purpose token,
            ho_expires_at = expires, ho_consumed_at = None\<rparr>
            (consume_open_handoffs a (env_clock env 1) db) = Inr db'
        \<and> ss_actor_role session = ''author''
        \<and> find (\<lambda>x. at_id x = a) (db_attempts db) = Some row
        \<and> at_author_id row = ss_actor_id session \<and> at_status row = ''ready''
        \<and> at_is_current row \<and> at_expires_at row > env_clock env 0
        \<and> expires \<le> at_expires_at row)"
  using assms
  by (auto simp: create_handoff_def Let_def
      split: if_splits option.splits sum.splits)

lemma exchange_handoff_D:
  assumes "exchange_handoff hmac env secret token material db = (res, db')"
  shows "(\<exists>e. res = Inl e) \<and> db' = db
    \<or> (\<exists>x h a s db2 r. res = Inr x
        \<and> find_grant (hash_opaque_credential hmac secret Handoff_purpose token) db = Some (h, a, s)
        \<and> grant_usable h a s (env_clock env 0)
        \<and> issue_session hmac (shift_env 1 0 0 env) secret (at_author_id a) ''author''
             (Some (at_repository_id a)) (at_expires_at a - env_clock env 0)
             (consume_handoff (ho_id h) (env_clock env 0) db) = Inr (eh_mobileSession x, db2)
        \<and> insert_material r db2 = Inr db' \<and> eh_attemptId x = at_id a
        \<and> eh_headSha x = at_head_sha a \<and> eh_usableUntil x = at_expires_at a)"
  using assms
  by (auto simp: exchange_handoff_def Let_def split: if_splits option.splits sum.splits prod.splits)


lemma auth_step_later: "auth_step hmac secret db db' \<Longrightarrow> tables_later db db'"
proof (elim auth_stepE)
  fix env a session ttl res
  assume "create_handoff hmac env secret a session ttl db = (res, db')"
  from create_handoff_D [OF this] show ?thesis
  proof (elim disjE conjE exE)
    fix r :: handoff_row and now
    assume "insert_handoff r (consume_open_handoffs a now db) = Inr db'"
    then have "db' = (consume_open_handoffs a now db)\<lparr>db_handoffs :=
        db_handoffs (consume_open_handoffs a now db) @ [r]\<rparr>"
      using insert_handoff_D by blast
    then have "tables_later (consume_open_handoffs a now db) db'"
      using tables_later_handoffs [of "consume_open_handoffs a now db" _ "[r]"]
      by (simp add: list_all2_refl)
    then show ?thesis
      using consume_open_later tables_later_trans by blast
  qed simp
next
  fix env token material res
  assume "exchange_handoff hmac env secret token material db = (res, db')"
  from exchange_handoff_D [OF this] show ?thesis
  proof (elim disjE conjE exE)
    fix x h a s db2 r
    assume i: "issue_session hmac (shift_env 1 0 0 env) secret (at_author_id a) ''author''
             (Some (at_repository_id a)) (at_expires_at a - env_clock env 0)
             (consume_handoff (ho_id h) (env_clock env 0) db) = Inr (eh_mobileSession x, db2)"
      and m: "insert_material r db2 = Inr db'"
    have "tables_later (consume_handoff (ho_id h) (env_clock env 0) db) db2"
      using issue_session_D [OF i] tables_later_insert_session by blast
    moreover have "tables_later db2 db'"
      using insert_material_D [OF m] by (intro tables_later_same) simp_all
    ultimately show ?thesis
      using consume_later tables_later_trans by blast
  qed simp
next
  fix env actor role repo ttl i
  assume "issue_session hmac env secret actor role repo ttl db = Inr (i, db')"
  then show ?thesis
    using issue_session_D tables_later_insert_session by blast
next
  fix i now assume "db' = revoke_session db i now"
  then show ?thesis by (simp add: revoke_later)
next
  fix as assume "db' = db\<lparr>db_attempts := as\<rparr>"
  then show ?thesis
    by (intro tables_later_same) simp_all
qed

lemma auth_steps_later: "(auth_step hmac secret)\<^sup>*\<^sup>* db db' \<Longrightarrow> tables_later db db'"
  by (induction rule: rtranclp_induct) (auto intro: auth_step_later tables_later_trans)

lemma map_if_same: "(\<And>x. f (g x) = f x) \<Longrightarrow> map f (map g xs) = map f xs"
  by (induction xs) simp_all

lemma consume_open_inv:
  "auth_inv db \<Longrightarrow> auth_inv (consume_open_handoffs a now db)
     \<and> (\<forall>h\<in>set (db_handoffs (consume_open_handoffs a now db)).
          \<not> (ho_attempt_id h = a \<and> ho_consumed_at h = None))"
proof -
  assume inv: "auth_inv db"
  let ?f = "\<lambda>h. if ho_attempt_id h = a \<and> ho_consumed_at h = None
    then h\<lparr>ho_consumed_at := Some now\<rparr> else h"
  have ids: "map ho_id (map ?f hs) = map ho_id hs"
    "map ho_token_hash (map ?f hs) = map ho_token_hash hs" for hs
    by (rule map_if_same; simp)+
  have flt: "filter (\<lambda>h. ho_consumed_at h = None) (map ?f hs)
      = filter (\<lambda>h. ho_attempt_id h \<noteq> a) (filter (\<lambda>h. ho_consumed_at h = None) hs)" for hs
    by (induction hs) auto
  have "distinct (map ho_attempt_id (filter (\<lambda>h. ho_consumed_at h = None)
      (map ?f (db_handoffs db))))"
    unfolding flt by (rule distinct_map_filter) (use inv in \<open>simp add: auth_inv_def\<close>)
  moreover have tables: "db_sessions (consume_open_handoffs a now db) = db_sessions db"
    "db_handoffs (consume_open_handoffs a now db) = map ?f (db_handoffs db)"
    by (simp_all add: consume_open_handoffs_def)
  ultimately have inv': "auth_inv (consume_open_handoffs a now db)"
    using inv unfolding auth_inv_def tables ids by (elim conjE, intro conjI)
  have n: "\<not> (ho_attempt_id (?f h) = a \<and> ho_consumed_at (?f h) = None)" for h
    by simp
  have none: "\<forall>h\<in>set (map ?f hs). \<not> (ho_attempt_id h = a \<and> ho_consumed_at h = None)" for hs
  proof
    fix k assume "k \<in> set (map ?f hs)"
    then obtain h where "k = ?f h"
      unfolding set_map by (rule imageE)
    then show "\<not> (ho_attempt_id k = a \<and> ho_consumed_at k = None)"
      using n [of h] by (simp only: not_False_eq_True)
  qed
  show ?thesis
    by (intro conjI inv') (unfold tables, rule none)
qed

lemma consume_inv: "auth_inv db \<Longrightarrow> auth_inv (consume_handoff i now db)"
proof -
  assume inv: "auth_inv db"
  let ?f = "\<lambda>h. if ho_id h = i then h\<lparr>ho_consumed_at := Some now\<rparr> else h"
  have ids: "map ho_id (map ?f hs) = map ho_id hs"
    "map ho_token_hash (map ?f hs) = map ho_token_hash hs" for hs
    by (rule map_if_same; simp)+
  have flt: "filter (\<lambda>h. ho_consumed_at h = None) (map ?f hs)
      = filter (\<lambda>h. ho_id h \<noteq> i) (filter (\<lambda>h. ho_consumed_at h = None) hs)" for hs
    by (induction hs) auto
  have "distinct (map ho_attempt_id (filter (\<lambda>h. ho_consumed_at h = None)
      (map ?f (db_handoffs db))))"
    unfolding flt by (rule distinct_map_filter) (use inv in \<open>simp add: auth_inv_def\<close>)
  moreover have tables: "db_sessions (consume_handoff i now db) = db_sessions db"
    "db_handoffs (consume_handoff i now db) = map ?f (db_handoffs db)"
    by (simp_all add: consume_handoff_def)
  ultimately show ?thesis
    using inv unfolding auth_inv_def tables ids by blast
qed

lemma insert_session_inv: "auth_inv db \<Longrightarrow> insert_session r db = Inr db' \<Longrightarrow> auth_inv db'"
  using insert_session_D [of r db db'] by (auto simp: auth_inv_def)

lemma insert_handoff_inv: "auth_inv db \<Longrightarrow> insert_handoff r db = Inr db' \<Longrightarrow> auth_inv db'"
  using insert_handoff_D [of r db db'] by (auto simp: auth_inv_def)

lemma revoke_inv: "auth_inv db \<Longrightarrow> auth_inv (revoke_session db i now)"
proof -
  assume inv: "auth_inv db"
  let ?f = "\<lambda>s. if se_id s = i
     then s\<lparr>se_revoked_at := (case se_revoked_at s of None \<Rightarrow> Some now | Some t \<Rightarrow> Some t)\<rparr> else s"
  have ids: "map se_id (map ?f ss) = map se_id ss"
    "map se_token_hash (map ?f ss) = map se_token_hash ss" for ss
    by (rule map_if_same; simp)+
  have tables: "db_sessions (revoke_session db i now) = map ?f (db_sessions db)"
    "db_handoffs (revoke_session db i now) = db_handoffs db"
    by (simp_all add: revoke_session_def)
  show ?thesis
    using inv unfolding auth_inv_def tables ids .
qed

lemma auth_step_inv: "auth_inv db \<Longrightarrow> auth_step hmac secret db db' \<Longrightarrow> auth_inv db'"
proof (elim auth_stepE)
  assume inv: "auth_inv db"
  fix env a session ttl res
  assume "create_handoff hmac env secret a session ttl db = (res, db')"
  from create_handoff_D [OF this] show "auth_inv db'"
    using inv consume_open_inv insert_handoff_inv by blast
next
  assume inv: "auth_inv db"
  fix env token material res
  assume "exchange_handoff hmac env secret token material db = (res, db')"
  from exchange_handoff_D [OF this] show "auth_inv db'"
  proof (elim disjE conjE exE)
    fix x h a s db2 r
    assume i: "issue_session hmac (shift_env 1 0 0 env) secret (at_author_id a) ''author''
             (Some (at_repository_id a)) (at_expires_at a - env_clock env 0)
             (consume_handoff (ho_id h) (env_clock env 0) db) = Inr (eh_mobileSession x, db2)"
      and m: "insert_material r db2 = Inr db'"
    have "auth_inv db2"
      using issue_session_D [OF i] consume_inv [OF inv] insert_session_inv by blast
    then show "auth_inv db'"
      using insert_material_D [OF m] by (simp add: auth_inv_def)
  qed (use inv in simp)
next
  assume inv: "auth_inv db"
  fix env actor role repo ttl i
  assume "issue_session hmac env secret actor role repo ttl db = Inr (i, db')"
  then show "auth_inv db'"
    using issue_session_D insert_session_inv inv by blast
next
  assume inv: "auth_inv db"
  fix i now assume "db' = revoke_session db i now"
  then show "auth_inv db'" using inv revoke_inv by simp
next
  assume inv: "auth_inv db"
  fix as assume "db' = db\<lparr>db_attempts := as\<rparr>"
  then show "auth_inv db'" using inv by (simp add: auth_inv_def)
qed

interpretation auth: invariant_system empty_auth_db "auth_step hmac secret" auth_inv
  for hmac secret
proof
  show "empty_auth_db db \<Longrightarrow> auth_inv db" for db
    by (simp add: empty_auth_db_def auth_inv_def)
qed (rule auth_step_inv)

end
