(* ===== verification/Auth_Life.thy ===== *)
theory Auth_Life
  imports Handoffs Json
begin

text \<open>
  What the sessions and handoffs promise over any sequence of steps: a handoff token is
  exchanged at most once and at most one is open per attempt, an exchange needs a current ready
  attempt and a live desktop session of its author, and a session authenticates until it
  expires or is revoked.
\<close>

section \<open>Credentials\<close>

lemma purpose_message_inj:
  "credential_message p v = credential_message q w \<longleftrightarrow> p = q \<and> v = w"
proof -
  have m: "credential_message p v =
      utf8_bytes (''slopproof/'' @ purpose_name p @ ''/v1'' @ [CHR 0x00] @ v)" for p v
    by (simp add: credential_message_def utf8_bytes_def)
  show ?thesis
    unfolding m utf8_bytes_inj by (cases p; cases q) simp_all
qed

text \<open>A session, CSRF or handoff credential is hashed as an HMAC of its purpose and its
  value, and no two different purpose-value pairs give the same message: two credentials with
  the same hash are the same value for the same purpose unless the HMAC itself collides.\<close>

theorem credential_hashes_are_purpose_bound:
  "hash_opaque_credential hmac secret p v = hash_opaque_credential hmac secret q w \<longleftrightarrow>
     (p = q \<and> v = w)
     \<or> (credential_message p v \<noteq> credential_message q w
        \<and> hmac (utf8_bytes secret) (credential_message p v)
          = hmac (utf8_bytes secret) (credential_message q w))"
proof -
  have "encode_hex a = encode_hex b \<longleftrightarrow> a = b" for a b
    using encode_hex_ok by metis
  then show ?thesis
    unfolding hash_opaque_credential_def using purpose_message_inj by auto
qed

lemma hex_nibble_digit: "n < 16 \<Longrightarrow> hex_nibble (hex_digit n) = Some n"
proof -
  assume "n < 16"
  then have "n \<in> set [0..<16]" by simp
  moreover have "\<forall>n\<in>set [0..<16]. hex_nibble (hex_digit n) = Some n"
    by code_simp
  ultimately show ?thesis by blast
qed

lemma node_hex_encode [simp]: "node_hex (encode_hex xs) = xs"
  by (induction xs)
    (simp_all add: encode_hex_eq hex_byte_def hex_nibble_digit byte_div_16)

lemma verify_csrf_iff:
  "ss_csrf_hash session = hash_opaque_credential hmac secret Csrf_purpose v \<Longrightarrow>
   verify_csrf hmac session (Some t) secret \<longleftrightarrow>
     t \<noteq> [] \<and> hmac (utf8_bytes secret) (credential_message Csrf_purpose t)
       = hmac (utf8_bytes secret) (credential_message Csrf_purpose v)"
  by (auto simp: verify_csrf_def Let_def hash_opaque_credential_def)

section \<open>Rows over time\<close>

lemma list_all2_find:
  assumes "list_all2 R xs ys" and "\<And>x y. R x y \<Longrightarrow> P x \<longleftrightarrow> P y"
    and "find P xs = Some x"
  shows "\<exists>y. find P (ys @ zs) = Some y \<and> R x y"
  using assms(1,3)
proof (induction rule: list_all2_induct)
  case (Cons a as b bs)
  then show ?case using assms(2) [OF Cons(1)] by (auto split: if_splits)
qed simp

lemma handoff_found_later:
  assumes "tables_later db db'"
    and "find (\<lambda>h. ho_token_hash h = t) (db_handoffs db) = Some h"
  shows "\<exists>k. find (\<lambda>h. ho_token_hash h = t) (db_handoffs db') = Some k \<and> handoff_later h k"
proof -
  obtain hs ns where n: "db_handoffs db' = hs @ ns" "list_all2 handoff_later (db_handoffs db) hs"
    using assms(1) [unfolded tables_later_def] by (elim conjE exE) (rule that)
  show ?thesis
    unfolding n(1)
    by (rule list_all2_find [OF n(2) _ assms(2)])
      (metis handoff_later_def handoff_row.ext_inject handoff_row.surjective handoff_row.update_convs(6))
qed

lemma session_row_later:
  assumes "tables_later db db'" and "s \<in> set (db_sessions db)"
  shows "\<exists>t\<in>set (db_sessions db'). session_later s t"
proof -
  obtain ss ns where n: "db_sessions db' = ss @ ns" "list_all2 session_later (db_sessions db) ss"
    using assms(1) [unfolded tables_later_def] by (elim conjE exE) (rule that)
  then obtain t where "t \<in> set ss" "session_later s t"
    using assms(2) by (metis in_set_conv_nth list_all2_conv_all_nth)
  then show ?thesis
    by (intro bexI [of _ t]) (simp_all add: n(1))
qed

lemma consumed_is_rejected:
  assumes "find (\<lambda>h. ho_token_hash h = hash_opaque_credential hmac secret Handoff_purpose token)
      (db_handoffs db) = Some h" and "ho_consumed_at h \<noteq> None"
  shows "exchange_handoff hmac env secret token material db =
    (Inl (if wrapping_input_ok material then HandoffRejected else MaterialSchemaError), db)"
  using assms
  by (auto simp: exchange_handoff_def find_grant_def grant_usable_def split: option.splits)

lemma consumed_stays_rejected:
  assumes "find (\<lambda>h. ho_token_hash h = hash_opaque_credential hmac secret Handoff_purpose token)
      (db_handoffs db) = Some h" and "ho_consumed_at h \<noteq> None"
    and "(auth_step hmac secret)\<^sup>*\<^sup>* db db'"
  shows "exchange_handoff hmac env secret token material db' =
    (Inl (if wrapping_input_ok material then HandoffRejected else MaterialSchemaError), db')"
  using consumed_is_rejected handoff_found_later [OF auth_steps_later [OF assms(3)] assms(1)]
    assms(2) unfolding handoff_later_def by blast

lemma issue_session_handoffs:
  assumes "issue_session hmac env secret actor role repo ttl db = Inr (i, db')"
  shows "db_handoffs db' = db_handoffs db"
proof -
  obtain r where "insert_session r db = Inr db'"
    using issue_session_D [OF assms] by blast
  then show ?thesis
    using insert_session_D [of r db db'] by simp
qed

lemma find_map_same:
  "(\<And>x. P (f x) \<longleftrightarrow> P x) \<Longrightarrow> find P (map f xs) = map_option f (find P xs)"
  by (induction xs) auto

lemma find_append_Some: "find P xs = Some x \<Longrightarrow> find P (xs @ ys) = Some x"
  by (induction xs) (auto split: if_splits)

lemma consume_open_closes:
  assumes "find (\<lambda>h. ho_token_hash h = t) (db_handoffs db) = Some h" and "ho_attempt_id h = a"
  shows "\<exists>k. find (\<lambda>h. ho_token_hash h = t) (db_handoffs (consume_open_handoffs a now db)) = Some k
    \<and> ho_consumed_at k \<noteq> None"
  unfolding consume_open_handoffs_def
  by (simp add: find_map_same assms)

section \<open>Handoffs\<close>

text \<open>C13: a handoff token is single-use: once an exchange of it succeeded, every later exchange
  of the same token, after any sequence of operations, is refused and changes nothing.\<close>

theorem handoff_token_is_single_use:
  assumes "exchange_handoff hmac env secret token material db = (Inr x, db')"
    and "(auth_step hmac secret)\<^sup>*\<^sup>* db' db''"
  shows "exchange_handoff hmac env' secret token material' db'' =
    (Inl (if wrapping_input_ok material' then HandoffRejected else MaterialSchemaError), db'')"
proof -
  let ?t = "hash_opaque_credential hmac secret Handoff_purpose token"
  from exchange_handoff_D [OF assms(1)] obtain h a s db2 r where
    g: "find_grant ?t db = Some (h, a, s)"
    and i: "issue_session hmac (shift_env 1 0 0 env) secret (at_author_id a) ''author''
             (Some (at_repository_id a)) (at_expires_at a - env_clock env 0)
             (consume_handoff (ho_id h) (env_clock env 0) db) = Inr (eh_mobileSession x, db2)"
    and m: "insert_material r db2 = Inr db'" by auto
  from g have h: "find (\<lambda>h. ho_token_hash h = ?t) (db_handoffs db) = Some h"
    by (auto simp: find_grant_def split: option.splits)
  let ?f = "\<lambda>k. if ho_id k = ho_id h then k\<lparr>ho_consumed_at := Some (env_clock env 0)\<rparr> else k"
  have "find (\<lambda>h. ho_token_hash h = ?t) (map ?f (db_handoffs db)) = Some (?f h)"
    by (subst find_map_same) (simp_all add: h)
  moreover have "db_handoffs db' = map ?f (db_handoffs db)"
    using issue_session_handoffs [OF i] insert_material_D [OF m]
    by (simp add: consume_handoff_def)
  ultimately show ?thesis
    using consumed_stays_rejected [OF _ _ assms(2)] by simp
qed

text \<open>Creating a new handoff for an attempt closes every handoff of that attempt that was
  still open: an older token of the attempt is refused in every later state.\<close>

theorem new_handoff_closes_older_ones:
  assumes "create_handoff hmac env secret attemptId session ttl db = (Inr g, db')"
    and "find_grant (hash_opaque_credential hmac secret Handoff_purpose old) db = Some (h, a, s)"
    and "ho_attempt_id h = attemptId"
    and "(auth_step hmac secret)\<^sup>*\<^sup>* db' db''"
  shows "exchange_handoff hmac env' secret old material db'' =
    (Inl (if wrapping_input_ok material then HandoffRejected else MaterialSchemaError), db'')"
proof -
  let ?t = "hash_opaque_credential hmac secret Handoff_purpose old"
  from create_handoff_D [OF assms(1)] obtain r :: handoff_row where
    i: "insert_handoff r (consume_open_handoffs attemptId (env_clock env 1) db) = Inr db'"
    by blast
  from assms(2) have h: "find (\<lambda>h. ho_token_hash h = ?t) (db_handoffs db) = Some h"
    by (auto simp: find_grant_def split: option.splits)
  obtain k where k: "find (\<lambda>h. ho_token_hash h = ?t)
      (db_handoffs (consume_open_handoffs attemptId (env_clock env 1) db)) = Some k"
    "ho_consumed_at k \<noteq> None"
    using consume_open_closes [OF h assms(3)] by blast
  have t: "db_handoffs db' =
      db_handoffs (consume_open_handoffs attemptId (env_clock env 1) db) @ [r]"
    by (subst insert_handoff_D [OF i, THEN conjunct1]) simp
  have "find (\<lambda>h. ho_token_hash h = ?t) (db_handoffs db') = Some k"
    unfolding t by (rule find_append_Some [OF k(1)])
  then show ?thesis
    by (rule consumed_stays_rejected [OF _ k(2) assms(4)])
qed


section \<open>Who may exchange, and what the exchange grants\<close>

lemma find_map_Some_id:
  "find (\<lambda>x. f x = k) xs = Some x \<Longrightarrow> x \<in> set xs \<and> f x = k"
  by (auto simp: find_Some_iff)

text \<open>C14: an exchange succeeds only for an open, unexpired handoff of a current attempt that is
  ready and unexpired, started by a desktop session of the attempt's author that is neither
  expired nor revoked; the mobile session it issues belongs to that author and repository and
  lasts as long as the attempt still had when the exchange checked it.\<close>

theorem exchange_is_authorised:
  assumes "exchange_handoff hmac env secret token material db = (Inr x, db')"
  shows "\<exists>h\<in>set (db_handoffs db). \<exists>a\<in>set (db_attempts db). \<exists>s\<in>set (db_sessions db).
    ho_token_hash h = hash_opaque_credential hmac secret Handoff_purpose token
    \<and> ho_consumed_at h = None \<and> env_clock env 0 < ho_expires_at h
    \<and> at_id a = ho_attempt_id h \<and> at_status a = ''ready'' \<and> at_is_current a
    \<and> env_clock env 0 < at_expires_at a
    \<and> se_id s = ho_desktop_session_id h \<and> se_actor_id s = at_author_id a
    \<and> se_revoked_at s = None \<and> env_clock env 0 < se_expires_at s
    \<and> ss_actor_id (is_session (eh_mobileSession x)) = at_author_id a
    \<and> ss_actor_role (is_session (eh_mobileSession x)) = ''author''
    \<and> ss_repository_id (is_session (eh_mobileSession x)) = Some (at_repository_id a)
    \<and> ss_expires_at (is_session (eh_mobileSession x))
        = at_expires_at a + (env_clock env 1 - env_clock env 0)
    \<and> eh_attemptId x = at_id a \<and> eh_headSha x = at_head_sha a
    \<and> eh_usableUntil x = at_expires_at a"
proof -
  from exchange_handoff_D [OF assms] obtain h a s db2 r where
    g: "find_grant (hash_opaque_credential hmac secret Handoff_purpose token) db = Some (h, a, s)"
    and u: "grant_usable h a s (env_clock env 0)"
    and i: "issue_session hmac (shift_env 1 0 0 env) secret (at_author_id a) ''author''
             (Some (at_repository_id a)) (at_expires_at a - env_clock env 0)
             (consume_handoff (ho_id h) (env_clock env 0) db) = Inr (eh_mobileSession x, db2)"
    and e: "eh_attemptId x = at_id a" "eh_headSha x = at_head_sha a"
      "eh_usableUntil x = at_expires_at a" by auto
  from g have rows: "h \<in> set (db_handoffs db)" "a \<in> set (db_attempts db)" "s \<in> set (db_sessions db)"
    "ho_token_hash h = hash_opaque_credential hmac secret Handoff_purpose token"
    "at_id a = ho_attempt_id h" "se_id s = ho_desktop_session_id h"
    by (auto simp: find_grant_def split: option.splits dest!: find_SomeD)
  obtain q :: session_row where m: "is_session (eh_mobileSession x) = \<lparr>ss_id = se_id q,
      ss_actor_id = at_author_id a, ss_actor_role = ''author'',
      ss_repository_id = Some (at_repository_id a), ss_csrf_hash = se_csrf_hash q,
      ss_expires_at = se_expires_at q\<rparr>"
    "se_expires_at q = env_clock (shift_env 1 0 0 env) 0 + (at_expires_at a - env_clock env 0)"
    using issue_session_D [OF i] by blast
  show ?thesis
    by (intro bexI [of _ h] bexI [of _ a] bexI [of _ s])
      (use rows u e m in \<open>simp_all add: grant_usable_def shift_env_def\<close>)
qed

section \<open>Sessions\<close>

lemma revoked_row:
  assumes "r \<in> set (db_sessions db)"
  shows "\<exists>q\<in>set (db_sessions (revoke_session db (se_id r) when)).
    se_id q = se_id r \<and> se_revoked_at q \<noteq> None"
proof -
  let ?f = "\<lambda>s. if se_id s = se_id r
     then s\<lparr>se_revoked_at := (case se_revoked_at s of None \<Rightarrow> Some when | Some t \<Rightarrow> Some t)\<rparr> else s"
  have t: "db_sessions (revoke_session db (se_id r) when) = map ?f (db_sessions db)"
    by (simp add: revoke_session_def)
  have "?f r \<in> set (db_sessions (revoke_session db (se_id r) when))"
    unfolding t set_map by (rule imageI [OF assms])
  moreover have "se_id (?f r) = se_id r" "se_revoked_at (?f r) \<noteq> None"
    by (simp_all split: option.split)
  ultimately show ?thesis by blast
qed

lemma session_later_fields:
  assumes "session_later s t"
  shows "se_id t = se_id s" and "se_revoked_at s \<noteq> None \<Longrightarrow> se_revoked_at t \<noteq> None"
proof -
  have t: "t = s\<lparr>se_revoked_at := se_revoked_at t\<rparr>"
    using assms by (simp add: session_later_def)
  show "se_id t = se_id s" by (subst t) simp
  show "se_revoked_at s \<noteq> None \<Longrightarrow> se_revoked_at t \<noteq> None"
    using assms by (simp add: session_later_def)
qed

lemma issued_row:
  assumes "issue_session hmac env secret actor role repo ttl db = Inr (i, db')"
  shows "\<exists>r :: session_row. db_sessions db' = db_sessions db @ [r]
    \<and> (\<forall>s\<in>set (db_sessions db). se_token_hash s \<noteq> se_token_hash r)
    \<and> se_token_hash r = hash_opaque_credential hmac secret Session_purpose (is_sessionToken i)
    \<and> se_revoked_at r = None \<and> actor_role_ok (se_actor_role r)
    \<and> is_session i = \<lparr>ss_id = se_id r, ss_actor_id = se_actor_id r,
         ss_actor_role = se_actor_role r, ss_repository_id = se_repository_id r,
         ss_csrf_hash = se_csrf_hash r, ss_expires_at = se_expires_at r\<rparr>
    \<and> se_csrf_hash r = hash_opaque_credential hmac secret Csrf_purpose (is_csrfToken i)"
proof -
  from issue_session_D [OF assms] obtain r :: session_row where r: "insert_session r db = Inr db'"
    "se_id r = env_ids env 0" "se_actor_id r = actor" "se_actor_role r = role"
    "se_repository_id r = repo" "se_revoked_at r = None" "actor_role_ok role"
    "se_token_hash r = hash_opaque_credential hmac secret Session_purpose (is_sessionToken i)"
    "is_session i = \<lparr>ss_id = se_id r, ss_actor_id = actor, ss_actor_role = role,
         ss_repository_id = repo, ss_csrf_hash = se_csrf_hash r, ss_expires_at = se_expires_at r\<rparr>"
    "se_csrf_hash r = hash_opaque_credential hmac secret Csrf_purpose (is_csrfToken i)"
    by blast
  have "db_sessions db' = db_sessions db @ [r]"
    and "\<forall>s\<in>set (db_sessions db). se_token_hash s \<noteq> se_token_hash r"
    using insert_session_D [OF r(1)] by simp_all
  then show ?thesis
    using r by (intro exI [of _ r]) simp
qed

lemma find_new_row:
  assumes "\<forall>x\<in>set xs. \<not> P x"
  shows "find P (xs @ [y]) = (if P y then Some y else None)"
  using assms by (induction xs) auto

text \<open>The token of a session that was just issued authenticates as exactly that session
  at every time before its expiry and as none from then on, and a CSRF token passes the check if
  and only if it is not empty and has the digest of the one that was issued.\<close>

theorem issued_session_authenticates:
  assumes "issue_session hmac env secret actor role repo ttl db = Inr (i, db')"
    and "is_sessionToken i \<noteq> []"
  shows "authenticate_session hmac db' (Some (is_sessionToken i)) secret now =
      Inr (if now < ss_expires_at (is_session i) then Some (is_session i) else None)
    \<and> (verify_csrf hmac (is_session i) (Some t) secret \<longleftrightarrow> t \<noteq> []
      \<and> hmac (utf8_bytes secret) (credential_message Csrf_purpose t)
        = hmac (utf8_bytes secret) (credential_message Csrf_purpose (is_csrfToken i)))"
proof -
  obtain r :: session_row where t: "db_sessions db' = db_sessions db @ [r]"
    and new: "\<forall>s\<in>set (db_sessions db). se_token_hash s \<noteq> se_token_hash r"
    and r: "se_token_hash r = hash_opaque_credential hmac secret Session_purpose (is_sessionToken i)"
      "se_revoked_at r = None" "actor_role_ok (se_actor_role r)"
      "is_session i = \<lparr>ss_id = se_id r, ss_actor_id = se_actor_id r,
         ss_actor_role = se_actor_role r, ss_repository_id = se_repository_id r,
         ss_csrf_hash = se_csrf_hash r, ss_expires_at = se_expires_at r\<rparr>"
      "se_csrf_hash r = hash_opaque_credential hmac secret Csrf_purpose (is_csrfToken i)"
    using issued_row [OF assms(1)] by blast
  have "find (\<lambda>s. se_token_hash s = se_token_hash r \<and> se_revoked_at s = None \<and> se_expires_at s > now)
      (db_sessions db') = (if now < se_expires_at r then Some r else None)"
    unfolding t using new by (subst find_new_row) (auto simp: r(2))
  then have "authenticate_session hmac db' (Some (is_sessionToken i)) secret now =
      Inr (if now < se_expires_at r then Some (is_session i) else None)"
    using assms(2) r(3) by (simp add: authenticate_session_def Let_def r(1) [symmetric] r(4))
  moreover have "ss_csrf_hash (is_session i)
      = hash_opaque_credential hmac secret Csrf_purpose (is_csrfToken i)"
    using r(4,5) by simp
  ultimately show ?thesis
    using verify_csrf_iff r(4) by simp
qed

text \<open>Revoking a session is final: in every state reached after it, no token at all
  authenticates as that session.\<close>

theorem revoked_session_never_authenticates:
  assumes "empty_auth_db db0" and "(auth_step hmac secret)\<^sup>*\<^sup>* db0 db"
    and "r \<in> set (db_sessions db)"
    and "(auth_step hmac secret)\<^sup>*\<^sup>* (revoke_session db (se_id r) when) db'"
  shows "authenticate_session hmac db' token secret now = Inr (Some session) \<Longrightarrow>
    ss_id session \<noteq> se_id r"
proof
  assume ok: "authenticate_session hmac db' token secret now = Inr (Some session)"
    and same: "ss_id session = se_id r"
  have step: "auth_step hmac secret db (revoke_session db (se_id r) when)"
    by (rule auth_step.revoke)
  have "(auth_step hmac secret)\<^sup>*\<^sup>* db0 db'"
    using assms(2) step assms(4) by (meson rtranclp.rtrancl_into_rtrancl rtranclp_trans)
  then have inv: "auth_inv db'"
    using auth.inv_reachable [OF assms(1)] by blast
  obtain q where q: "q \<in> set (db_sessions (revoke_session db (se_id r) when))"
    "se_id q = se_id r" "se_revoked_at q \<noteq> None"
    using revoked_row [OF assms(3)] by blast
  obtain q' where q': "q' \<in> set (db_sessions db')" "session_later q q'"
    using session_row_later [OF auth_steps_later [OF assms(4)] q(1)] by blast
  obtain p where p: "p \<in> set (db_sessions db')" "se_revoked_at p = None" "ss_id session = se_id p"
    using ok by (auto simp: authenticate_session_def Let_def split: if_splits option.splits
        dest!: find_SomeD)
  have "se_id q' = se_id q" "se_revoked_at q' \<noteq> None"
    using session_later_fields [OF q'(2)] q(3) by auto
  then have "p = q'"
    using inv p q' q(2) same unfolding auth_inv_def by (metis distinct_map inj_on_def)
  then show False
    using p(2) \<open>se_revoked_at q' \<noteq> None\<close> by simp
qed


section \<open>Witnesses\<close>

definition demo_hmac :: "bytes \<Rightarrow> bytes \<Rightarrow> bytes" where
  "demo_hmac key m = drop (length m - 4) m"

definition demo_env :: "string \<Rightarrow> auth_env" where
  "demo_env p = \<lparr>env_clock = (\<lambda>n. 100 + int n), env_ids = (\<lambda>n. p @ replicate n (CHR ''i'')),
     env_random = (\<lambda>n. [of_nat n, of_nat (length p)])\<rparr>"

definition demo_wrapping :: wrapping_input where
  "demo_wrapping = \<lparr>wi_keyId = ''key-1'', wi_algorithm = ''RSA-OAEP-256'', wi_spkiDer = ''AAAA'',
     wi_spkiSha256 = replicate 43 (CHR ''A'')\<rparr>"

definition demo_attempts :: "attempt_row list" where
  "demo_attempts = [\<lparr>at_id = ''a1'', at_author_id = ''u1'', at_repository_id = ''r1'',
     at_status = ''ready'', at_expires_at = 1000, at_head_sha = ''sha'', at_is_current = True\<rparr>]"

definition demo_db0 :: auth_db where
  "demo_db0 = \<lparr>db_sessions = [], db_handoffs = [], db_attempts = demo_attempts, db_materials = []\<rparr>"

definition demo_issue :: "auth_error + issued_session \<times> auth_db" where
  "demo_issue = issue_session demo_hmac (demo_env ''s'') ''k'' ''u1'' ''author'' (Some ''r1'') 5000 demo_db0"

definition demo_session :: issued_session where
  "demo_session = (case demo_issue of Inr x \<Rightarrow> fst x)"

definition demo_db1 :: auth_db where
  "demo_db1 = (case demo_issue of Inr x \<Rightarrow> snd x)"

lemma demo_issue: "demo_issue = Inr (demo_session, demo_db1)"
  by code_simp


theorem issued_session_authenticates_witness:
  "demo_issue = Inr (demo_session, demo_db1)
   \<and> authenticate_session demo_hmac demo_db1 (Some (is_sessionToken demo_session)) ''k'' 5099
     = Inr (Some (is_session demo_session))
   \<and> authenticate_session demo_hmac demo_db1 (Some (is_sessionToken demo_session)) ''k'' 5100 = Inr None
   \<and> verify_csrf demo_hmac (is_session demo_session) (Some (is_csrfToken demo_session)) ''k''"
proof -
  have e: "ss_expires_at (is_session demo_session) = 5100" "is_sessionToken demo_session \<noteq> []"
    "is_csrfToken demo_session \<noteq> []"
    by code_simp+
  note t = issued_session_authenticates [OF demo_issue [unfolded demo_issue_def] e(2)]
  show ?thesis
    using t [of 5099 "is_csrfToken demo_session"] t [of 5100 "is_csrfToken demo_session"]
      demo_issue e by simp
qed

definition demo_create :: "string \<Rightarrow> auth_db \<Rightarrow> (auth_error + handoff_grant) \<times> auth_db" where
  "demo_create p db = create_handoff demo_hmac (demo_env p) ''k'' ''a1'' (is_session demo_session) None db"

definition demo_db2 :: auth_db where "demo_db2 = snd (demo_create ''h'' demo_db1)"

definition demo_grant :: handoff_grant where
  "demo_grant = (case fst (demo_create ''h'' demo_db1) of Inr g \<Rightarrow> g)"

definition demo_grant_again :: handoff_grant where
  "demo_grant_again = (case fst (demo_create ''hh'' demo_db2) of Inr g \<Rightarrow> g)"

definition demo_db3 :: auth_db where "demo_db3 = snd (demo_create ''hh'' demo_db2)"

lemma demo_handoffs_created: "demo_create ''h'' demo_db1 = (Inr demo_grant, demo_db2)"
  "demo_create ''hh'' demo_db2 = (Inr demo_grant_again, demo_db3)"
  by code_simp+

definition demo_exchange :: "string \<Rightarrow> auth_db \<Rightarrow> (auth_error + exchanged_handoff) \<times> auth_db" where
  "demo_exchange p db =
     exchange_handoff demo_hmac (demo_env p) ''k'' (hg_token demo_grant) demo_wrapping db"

definition demo_exchanged :: exchanged_handoff where
  "demo_exchanged = (case fst (demo_exchange ''mob'' demo_db2) of Inr x \<Rightarrow> x)"

definition demo_db4 :: auth_db where "demo_db4 = snd (demo_exchange ''mob'' demo_db2)"

lemma demo_exchanged: "demo_exchange ''mob'' demo_db2 = (Inr demo_exchanged, demo_db4)"
  by code_simp

lemma demo_wrapping_ok: "wrapping_input_ok demo_wrapping"
  by code_simp

theorem handoff_token_is_single_use_witness:
  "fst (demo_exchange ''mob'' demo_db2) = Inr demo_exchanged
   \<and> fst (demo_exchange ''mobile'' demo_db4) = Inl HandoffRejected"
  using handoff_token_is_single_use [OF demo_exchanged [unfolded demo_exchange_def] rtranclp.rtrancl_refl,
      of "demo_env ''mobile''" demo_wrapping] demo_exchanged demo_wrapping_ok
  by (simp add: demo_exchange_def)

theorem exchange_is_authorised_witness:
  "\<exists>h\<in>set (db_handoffs demo_db2). \<exists>a\<in>set (db_attempts demo_db2). ho_consumed_at h = None
     \<and> at_id a = ho_attempt_id h \<and> ss_actor_id (is_session (eh_mobileSession demo_exchanged)) = at_author_id a
     \<and> ss_expires_at (is_session (eh_mobileSession demo_exchanged)) = at_expires_at a + 1"
  using exchange_is_authorised [OF demo_exchanged [unfolded demo_exchange_def]]
  by (auto simp: demo_env_def)

theorem new_handoff_closes_older_ones_witness:
  "fst (demo_create ''hh'' demo_db2) = Inr demo_grant_again
   \<and> fst (demo_exchange ''mobile'' demo_db3) = Inl HandoffRejected"
proof -
  have "\<exists>h a s. find_grant (hash_opaque_credential demo_hmac ''k'' Handoff_purpose (hg_token demo_grant))
      demo_db2 = Some (h, a, s) \<and> ho_attempt_id h = ''a1''"
    by (intro exI conjI) (code_simp, code_simp)
  then obtain h a s where g: "find_grant (hash_opaque_credential demo_hmac ''k'' Handoff_purpose
      (hg_token demo_grant)) demo_db2 = Some (h, a, s)" "ho_attempt_id h = ''a1''" by blast
  show ?thesis
    using new_handoff_closes_older_ones [OF demo_handoffs_created(2) [unfolded demo_create_def] g
        rtranclp.rtrancl_refl, of "demo_env ''mobile''" demo_wrapping] demo_handoffs_created demo_wrapping_ok
    by (simp add: demo_exchange_def)
qed

theorem revoked_session_never_authenticates_witness:
  "authenticate_session demo_hmac demo_db1 (Some (is_sessionToken demo_session)) ''k'' 200
     = Inr (Some (is_session demo_session))
   \<and> authenticate_session demo_hmac
        (revoke_session demo_db1 (ss_id (is_session demo_session)) 300)
        (Some (is_sessionToken demo_session)) ''k'' 200 \<noteq> Inr (Some (is_session demo_session))"
proof -
  have zero: "empty_auth_db demo_db0" by code_simp
  have one: "(auth_step demo_hmac ''k'')\<^sup>*\<^sup>* demo_db0 demo_db1"
    by (rule r_into_rtranclp, rule auth_step.issue, rule demo_issue [unfolded demo_issue_def])
  let ?r = "hd (db_sessions demo_db1)"
  have mem: "?r \<in> set (db_sessions demo_db1)" by code_simp
  have same: "se_id ?r = ss_id (is_session demo_session)" by code_simp
  have live: "authenticate_session demo_hmac demo_db1 (Some (is_sessionToken demo_session)) ''k'' 200
     = Inr (Some (is_session demo_session))" by code_simp
  show ?thesis
    using revoked_session_never_authenticates [OF zero one mem rtranclp.rtrancl_refl,
        of "300" "Some (is_sessionToken demo_session)" 200 "is_session demo_session"] same live
    by auto
qed

end
