(* ===== verification/Quota_Window.thy ===== *)
theory Quota_Window
  imports Prelude "HOL-Library.Product_Lexorder"
begin

text \<open>
  The contract the two request limiters share. Events are admitted into a table that a bounded
  cleanup empties; a class of events (one subject, or everybody) may have at most \<open>limit\<close> events
  in a sliding window. The log is every event ever admitted, whatever the cleanup has deleted
  since, and \<open>hw\<close> is the latest clock any cleanup used: what it removed is older than every
  window that a request with a clock of at least \<open>hw - slack\<close> looks at.
\<close>

section \<open>Selecting rows\<close>

definition oldest_rows :: "nat \<Rightarrow> ('e \<Rightarrow> int) \<Rightarrow> ('e \<Rightarrow> bool) \<Rightarrow> 'e list \<Rightarrow> int list" where
  "oldest_rows n at sel rows = take n (sort (map at (filter sel rows)))"

definition delete_oldest ::
  "nat \<Rightarrow> ('e \<Rightarrow> nat) \<Rightarrow> ('e \<Rightarrow> int) \<Rightarrow> int \<Rightarrow> 'e list \<Rightarrow> 'e list" where
  "delete_oldest n ident expires now rows =
     (let ids = map ident (take n (sort_key (\<lambda>e. (expires e, ident e))
        (filter (\<lambda>e. expires e \<le> now) rows)))
      in filter (\<lambda>e. ident e \<notin> set ids) rows)"

lemma oldest_rows_full: "length (oldest_rows n at sel rows) < n \<longleftrightarrow> length (filter sel rows) < n"
  by (simp add: oldest_rows_def min_less_iff_disj)

lemma length_filter_imp:
  "(\<And>x. x \<in> set xs \<Longrightarrow> P x \<Longrightarrow> Q x) \<Longrightarrow> length (filter P xs) \<le> length (filter Q xs)"
  by (induction xs) (auto simp: le_SucI)

lemma oldest_rows_min:
  assumes "n \<le> length (filter sel rows)" and "0 < n"
  shows "Min (set (oldest_rows n at sel rows)) \<in> at ` set (filter sel rows)"
proof -
  have "oldest_rows n at sel rows \<noteq> []"
  proof -
    have "length (oldest_rows n at sel rows) = n"
      using assms(1) by (simp add: oldest_rows_def)
    then show ?thesis using assms(2) by auto
  qed
  then have "Min (set (oldest_rows n at sel rows)) \<in> set (oldest_rows n at sel rows)"
    by simp
  also have "\<dots> \<subseteq> set (sort (map at (filter sel rows)))"
    unfolding oldest_rows_def by (rule set_take_subset)
  finally show ?thesis by simp
qed

lemma delete_oldest_filter:
  assumes "distinct (map ident rows)"
  shows "\<exists>D. delete_oldest n ident expires now rows = filter (\<lambda>e. \<not> D e) rows
    \<and> (\<forall>e\<in>set rows. D e \<longrightarrow> expires e \<le> now)"
proof -
  define del where "del = take n (sort_key (\<lambda>e. (expires e, ident e))
      (filter (\<lambda>e. expires e \<le> now) rows))"
  have sub: "set del \<subseteq> {e \<in> set rows. expires e \<le> now}"
    using set_take_subset [of n "sort_key (\<lambda>e. (expires e, ident e)) (filter (\<lambda>e. expires e \<le> now) rows)"]
    by (auto simp: del_def)
  have "expires e \<le> now" if m: "e \<in> set rows" and i: "ident e \<in> set (map ident del)" for e
  proof -
    obtain d where d: "d \<in> set del" "ident d = ident e"
      using i unfolding set_map by (metis imageE)
    then have r: "d \<in> set rows" "expires d \<le> now" using sub by auto
    have "d = e"
      using assms d(2) m r(1) unfolding distinct_map inj_on_def by blast
    then show ?thesis using r(2) by simp
  qed
  moreover have "delete_oldest n ident expires now rows = filter (\<lambda>e. ident e \<notin> set (map ident del)) rows"
    by (simp only: delete_oldest_def Let_def del_def)
  ultimately show ?thesis
    by (intro exI [of _ "\<lambda>e. ident e \<in> set (map ident del)"]) blast
qed

section \<open>The contract\<close>

locale quota_window =
  fixes counted :: "'c \<Rightarrow> 'e \<Rightarrow> bool"
    and alive :: "'c \<Rightarrow> int \<Rightarrow> 'e \<Rightarrow> bool"
    and occurred :: "'e \<Rightarrow> int"
    and expires :: "'e \<Rightarrow> int"
    and ident :: "'e \<Rightarrow> nat"
    and limit :: "'c \<Rightarrow> nat"
    and slack :: int
    and lawful :: "'e \<Rightarrow> bool"
    and cleanup :: "int \<Rightarrow> 'e list \<Rightarrow> 'e list"
  assumes alive_earlier: "alive c t e \<Longrightarrow> u \<le> t \<Longrightarrow> alive c u e"
    and alive_expires: "lawful e \<Longrightarrow> counted c e \<Longrightarrow> alive c t e \<Longrightarrow> t < expires e - slack"
    and cleanup_only_expired: "distinct (map ident rows) \<Longrightarrow>
      \<exists>D. cleanup t rows = filter (\<lambda>e. \<not> D e) rows \<and> (\<forall>e\<in>set rows. D e \<longrightarrow> expires e \<le> t)"
begin

definition in_window :: "'c \<Rightarrow> int \<Rightarrow> 'e \<Rightarrow> bool" where
  "in_window c t e \<longleftrightarrow> counted c e \<and> alive c t e \<and> occurred e \<le> t"

definition quota_inv :: "'e list \<Rightarrow> 'e list \<Rightarrow> int \<Rightarrow> nat \<Rightarrow> bool" where
  "quota_inv rows log hw fresh \<longleftrightarrow>
     (\<forall>c t. length (filter (in_window c t) log) \<le> limit c)
     \<and> distinct (map ident log) \<and> (\<forall>e\<in>set log. ident e < fresh \<and> lawful e)
     \<and> (\<exists>P. rows = filter P log \<and> (\<forall>e\<in>set log. \<not> P e \<longrightarrow> expires e \<le> hw))"

lemma quota_init: "quota_inv [] [] hw fresh"
  by (simp add: quota_inv_def)

lemma quota_cleanup:
  assumes "quota_inv rows log hw fresh"
  shows "quota_inv (cleanup t rows) log (max hw t) fresh"
proof -
  obtain P where P: "rows = filter P log" "\<forall>e\<in>set log. \<not> P e \<longrightarrow> expires e \<le> hw"
    using assms by (auto simp: quota_inv_def)
  have "distinct (map ident rows)"
    using assms P(1) by (simp add: quota_inv_def distinct_map_filter)
  then obtain D where D: "cleanup t rows = filter (\<lambda>e. \<not> D e) rows"
    "\<forall>e\<in>set rows. D e \<longrightarrow> expires e \<le> t"
    using cleanup_only_expired by blast
  have "cleanup t rows = filter (\<lambda>e. P e \<and> \<not> D e) log"
    using P(1) D(1) by (simp add: conj_commute)
  moreover have "\<forall>e\<in>set log. \<not> (P e \<and> \<not> D e) \<longrightarrow> expires e \<le> max hw t"
    using P D(2) by (auto simp: le_max_iff_disj)
  ultimately show ?thesis
    using assms unfolding quota_inv_def by (intro conjI exI [of _ "\<lambda>e. P e \<and> \<not> D e"]) auto
qed

lemma alive_in_rows:
  assumes "quota_inv rows log hw fresh" and "hw - slack \<le> t"
  shows "filter (\<lambda>e. counted c e \<and> alive c t e) log = filter (\<lambda>e. counted c e \<and> alive c t e) rows"
proof -
  obtain P where P: "rows = filter P log" "\<forall>e\<in>set log. \<not> P e \<longrightarrow> expires e \<le> hw"
    using assms by (auto simp: quota_inv_def)
  have "P e" if "e \<in> set log" and "counted c e" and "alive c t e" for e
    using alive_expires [of e c t] that P(2) assms by (force simp: quota_inv_def)
  then show ?thesis
    unfolding P(1) filter_filter by (intro filter_cong) auto
qed

lemma quota_admit:
  assumes "quota_inv rows log hw fresh" and "hw - slack \<le> occurred e"
    and "ident e = fresh" and "lawful e"
    and "\<forall>c. counted c e \<longrightarrow>
      length (filter (\<lambda>x. counted c x \<and> alive c (occurred e) x) rows) < limit c"
  shows "quota_inv (rows @ [e]) (log @ [e]) hw (Suc fresh)"
proof -
  obtain P where P: "rows = filter P log" "\<forall>e\<in>set log. \<not> P e \<longrightarrow> expires e \<le> hw"
    using assms(1) by (auto simp: quota_inv_def)
  have "length (filter (in_window c t) (log @ [e])) \<le> limit c" for c t
  proof (cases "in_window c t e")
    case True
    then have "length (filter (in_window c t) log)
        \<le> length (filter (\<lambda>x. counted c x \<and> alive c (occurred e) x) log)"
      using alive_earlier by (intro length_filter_imp) (auto simp: in_window_def)
    also have "\<dots> < limit c"
      using True assms(5) unfolding alive_in_rows [OF assms(1,2)] by (simp add: in_window_def)
    finally show ?thesis using True by simp
  next
    case False
    then show ?thesis using assms(1) by (simp add: quota_inv_def)
  qed
  moreover have "ident e \<notin> ident ` set log"
    using assms(1,3) by (auto simp: quota_inv_def)
  moreover have "rows @ [e] = filter (\<lambda>x. P x \<or> ident x = fresh) (log @ [e])"
    using assms(1,3) P(1) by (auto simp: quota_inv_def intro!: filter_cong)
  ultimately show ?thesis
    using assms(1,3,4) P(2) unfolding quota_inv_def
    by (intro conjI exI [of _ "\<lambda>x. P x \<or> ident x = fresh"]) auto
qed

lemma quota_mono:
  assumes "quota_inv rows log hw fresh" and "hw \<le> hw'" and "fresh \<le> fresh'"
  shows "quota_inv rows log hw' fresh'"
proof -
  obtain P where "rows = filter P log" and P: "\<forall>e\<in>set log. \<not> P e \<longrightarrow> expires e \<le> hw"
    using assms(1) by (auto simp: quota_inv_def)
  moreover have "\<forall>e\<in>set log. \<not> P e \<longrightarrow> expires e \<le> hw'"
    using P assms(2) by fastforce
  moreover have "\<forall>e\<in>set log. ident e < fresh' \<and> lawful e"
    using assms(1,3) by (fastforce simp: quota_inv_def)
  ultimately show ?thesis
    using assms(1) unfolding quota_inv_def by blast
qed

lemma quota_fresh:
  assumes "quota_inv rows log hw fresh" and "fresh \<le> n"
  shows "filter (\<lambda>e. n \<le> ident e) rows = []"
proof -
  have "\<forall>e\<in>set rows. ident e < fresh"
    using assms(1) by (auto simp: quota_inv_def)
  then show ?thesis
    using assms(2) by (fastforce simp: filter_empty_conv)
qed

lemma quota_kept: "quota_inv rows log hw fresh \<Longrightarrow> length (filter (in_window c t) log) \<le> limit c"
  by (simp add: quota_inv_def)

lemma quota_rows:
  assumes "quota_inv rows log hw fresh"
  shows "set rows \<subseteq> set log"
  using assms by (auto simp: quota_inv_def)

end

end
