(* ===== verification/OAuth_Start.thy ===== *)
theory OAuth_Start
  imports Quota_Window Encoding Policy
begin

text \<open>
  The protection of the OAuth start endpoint (\<open>apps/web/lib/oauth-start-protection.ts\<close>): the
  navigation and proxy checks of a request, and the limiter over its table.

  Parameters: \<open>net\<close> is what Node's \<open>isIP\<close> and the \<open>URL\<close> class return (no value when the
  constructor throws), \<open>hmac\<close> is HMAC-SHA-256, \<open>header\<close> is \<open>request.headers.get\<close>, and
  \<open>fault\<close> says where the database fails, if it does. A commit that fails may or may not have
  taken effect.
\<close>

section \<open>Definitions\<close>

record parsed_url =
  url_origin :: string
  url_hostname :: string
  url_username :: string
  url_password :: string

record net_library =
  net_isIP :: "string \<Rightarrow> nat"
  net_URL :: "string \<Rightarrow> parsed_url option"

datatype db_fault = No_fault | Connect_fails | Query_fails | Commit_fails bool

definition trusted_proxy_client_ip_header :: string where
  "trusted_proxy_client_ip_header = ''x-slopproof-client-ip''"

definition trusted_proxy_authenticator_header :: string where
  "trusted_proxy_authenticator_header = ''x-slopproof-proxy-authenticator''"

definition oauth_window_ms :: int where "oauth_window_ms = 5 * 60000"
definition oauth_client_max_starts :: nat where "oauth_client_max_starts = 4"
definition oauth_global_max_starts :: nat where "oauth_global_max_starts = 600"
definition oauth_retention_ms :: int where "oauth_retention_ms = 10 * 60000"
definition oauth_cleanup_batch_size :: nat where "oauth_cleanup_batch_size = 500"

lemmas oauth_constants = oauth_window_ms_def oauth_client_max_starts_def
  oauth_global_max_starts_def oauth_retention_ms_def

datatype oauth_start_error =
  Start_rejected | Start_unavailable | Start_limited int | Start_type_error

definition client_key_hash_ok :: "string \<Rightarrow> bool" where
  "client_key_hash_ok s \<longleftrightarrow> length s = 64 \<and> all_in lower_hex_chars s"

definition proxy_authenticator_ok :: "string \<Rightarrow> bool" where
  "proxy_authenticator_ok s \<longleftrightarrow>
     32 \<le> length s \<and> length s \<le> 256 \<and> all_in base64url_alphabet s"

definition parse_proxy_authenticator :: "string \<Rightarrow> oauth_start_error + string" where
  "parse_proxy_authenticator v =
     (if \<not> proxy_authenticator_ok v
        \<or> list_ex (\<lambda>c. c \<in> {CHR 0x00, CHR 0x0D, CHR 0x0A}) v
      then Inl Start_rejected else Inr v)"

definition canonical_client_address :: "net_library \<Rightarrow> string \<Rightarrow> oauth_start_error + string" where
  "canonical_client_address net v =
     (if length v = 0 \<or> length v > 64 \<or> js_trim v \<noteq> v
        \<or> list_ex (\<lambda>c. c \<in> {CHR 0x00, CHR 0x0D, CHR 0x0A, CHR '',''} \<or> c \<in> set js_whitespace) v
      then Inl Start_rejected
      else if net_isIP net v = 4 then Inr v
      else if net_isIP net v \<noteq> 6 then Inl Start_rejected
      else (case net_URL net (''http://['' @ v @ '']/'') of
          None \<Rightarrow> Inl Start_rejected
        | Some u \<Rightarrow> Inr (butlast (drop 1 (url_hostname u)))))"

definition proxy_safe_text_equal :: "string \<Rightarrow> string \<Rightarrow> bool" where
  "proxy_safe_text_equal left right \<longleftrightarrow>
     proxy_authenticator_ok left
     \<and> length (utf8_bytes left) = length (utf8_bytes right) \<and> utf8_bytes left = utf8_bytes right"

definition trusted_proxy_headers ::
  "net_library \<Rightarrow> string \<Rightarrow> string \<Rightarrow> oauth_start_error + (string \<rightharpoonup> string)" where
  "trusted_proxy_headers net secret clientAddress =
     bind_result (parse_proxy_authenticator secret) (\<lambda>authenticator.
     bind_result (canonical_client_address net clientAddress) (\<lambda>address.
     Inr [trusted_proxy_client_ip_header \<mapsto> address,
          trusted_proxy_authenticator_header \<mapsto> authenticator]))"

definition falsy :: "string option \<Rightarrow> bool" where
  "falsy v \<longleftrightarrow> v = None \<or> v = Some []"

definition exact_origin :: "net_library \<Rightarrow> string \<Rightarrow> string option" where
  "exact_origin net v = (case net_URL net v of
     None \<Rightarrow> None
   | Some u \<Rightarrow> if url_username u \<noteq> [] \<or> url_password u \<noteq> [] then None else Some (url_origin u))"

definition require_same_origin_navigation ::
  "net_library \<Rightarrow> (string \<Rightarrow> string option) \<Rightarrow> string \<Rightarrow> oauth_start_error + unit" where
  "require_same_origin_navigation net header applicationOrigin =
     (if header ''sec-fetch-site'' \<noteq> Some ''same-origin''
        \<or> header ''sec-fetch-mode'' \<noteq> Some ''navigate''
        \<or> header ''sec-fetch-dest'' \<noteq> Some ''document''
      then Inl Start_rejected
      else if list_ex (\<lambda>v. \<not> falsy v \<and> exact_origin net (the v) \<noteq> Some applicationOrigin)
          [header ''origin'', header ''referer'']
      then Inl Start_rejected
      else Inr ())"

definition verify_trusted_proxy_assertion ::
  "net_library \<Rightarrow> (string \<Rightarrow> string option) \<Rightarrow> string \<Rightarrow> oauth_start_error + string" where
  "verify_trusted_proxy_assertion net header secret =
     (let rawAddress = header trusted_proxy_client_ip_header;
          authenticator = header trusted_proxy_authenticator_header in
      if falsy rawAddress \<or> falsy authenticator then Inl Start_rejected
      else bind_result (parse_proxy_authenticator secret) (\<lambda>expected.
        if \<not> proxy_safe_text_equal (the authenticator) expected then Inl Start_rejected
        else canonical_client_address net (the rawAddress)))"

text \<open>\<open>isIP\<close> accepts ASCII only, so the \<open>ascii\<close> encoding of an address is its UTF-8 encoding.\<close>

definition hash_client_key ::
  "(bytes \<Rightarrow> bytes \<Rightarrow> bytes) \<Rightarrow> string \<Rightarrow> string \<Rightarrow> string" where
  "hash_client_key hmac secret clientAddress =
     encode_hex (hmac (utf8_bytes secret)
       (utf8_bytes ''slopproof-oauth-client-key-v1'' @ utf8_bytes [CHR 0x00]
        @ utf8_bytes clientAddress))"

record oauth_event =
  oe_id :: nat
  oe_client :: string
  oe_occurred :: millis
  oe_expires :: millis

record oauth_db =
  od_events :: "oauth_event list"
  od_next :: nat

definition oauth_min :: "int list \<Rightarrow> int option" where
  "oauth_min xs = (case xs of [] \<Rightarrow> None | _ \<Rightarrow> Some (Min (set xs)))"

definition ceil_div :: "int \<Rightarrow> int \<Rightarrow> int" where
  "ceil_div a b = - ((- a) div b)"

text \<open>The three statements of the transaction: what they select and the table they leave.\<close>

definition oauth_cleanup :: "millis \<Rightarrow> oauth_event list \<Rightarrow> oauth_event list" where
  "oauth_cleanup now = delete_oldest oauth_cleanup_batch_size oe_id oe_expires now"

definition oauth_start_queries ::
  "string \<Rightarrow> millis \<Rightarrow> oauth_db \<Rightarrow> (nat \<times> int option \<times> nat \<times> int option) option \<times> oauth_db" where
  "oauth_start_queries clientKeyHash now db =
     (let windowStart = now - oauth_window_ms;
          rows = oauth_cleanup now (od_events db);
          recent_client = oldest_rows oauth_client_max_starts oe_occurred
            (\<lambda>e. oe_client e = clientKeyHash \<and> oe_occurred e \<ge> windowStart) rows;
          recent_global = oldest_rows oauth_global_max_starts oe_occurred
            (\<lambda>e. oe_occurred e \<ge> windowStart) rows in
      if length recent_client < oauth_client_max_starts
         \<and> length recent_global < oauth_global_max_starts
      then (None, \<lparr>od_events = rows @ [\<lparr>oe_id = od_next db, oe_client = clientKeyHash,
                     oe_occurred = now, oe_expires = now + oauth_retention_ms\<rparr>],
                   od_next = Suc (od_next db)\<rparr>)
      else (Some (length recent_client, oauth_min recent_client,
                  length recent_global, oauth_min recent_global),
            db\<lparr>od_events := rows\<rparr>))"

definition oauth_rejection ::
  "millis \<Rightarrow> nat \<times> int option \<times> nat \<times> int option \<Rightarrow> oauth_start_error" where
  "oauth_rejection now rejected = (case rejected of (client_count, client_oldest, _, global_oldest) \<Rightarrow>
     (case (if client_count \<ge> oauth_client_max_starts then client_oldest else global_oldest) of
        None \<Rightarrow> Start_unavailable
      | Some oldest \<Rightarrow> Start_limited (max 1 (min (ceil_div oauth_window_ms 1000)
          (ceil_div (oldest + oauth_window_ms - now) 1000)))))"

definition consume_oauth_start_rate_limit ::
  "db_fault \<Rightarrow> string \<Rightarrow> millis option \<Rightarrow> oauth_db \<Rightarrow> (oauth_start_error + unit) \<times> oauth_db" where
  "consume_oauth_start_rate_limit fault clientKeyHash date db =
     (case date of None \<Rightarrow> (Inl Start_rejected, db) | Some now \<Rightarrow>
      if \<not> client_key_hash_ok clientKeyHash then (Inl Start_rejected, db)
      else if fault = Connect_fails \<or> fault = Query_fails then (Inl Start_unavailable, db)
      else if now - oauth_window_ms < - max_time_value \<or> now + oauth_retention_ms > max_time_value
        then (Inl Start_unavailable, db)
      else (case oauth_start_queries clientKeyHash now db of (rejected, db') \<Rightarrow>
        (case fault of
           Commit_fails applied \<Rightarrow>
             (Inl Start_unavailable, if applied then db' else db\<lparr>od_next := od_next db'\<rparr>)
         | _ \<Rightarrow> (case rejected of
             None \<Rightarrow> (Inr (), db')
           | Some r \<Rightarrow> (Inl (oauth_rejection now r), db')))))"

record oauth_config =
  oc_deploymentProfile :: string
  oc_appBaseUrl :: string
  oc_trustedProxySecret :: "string option"

definition enforce_production_oauth_start_protection ::
  "net_library \<Rightarrow> (bytes \<Rightarrow> bytes \<Rightarrow> bytes) \<Rightarrow> oauth_config \<Rightarrow> (string \<Rightarrow> string option) \<Rightarrow> db_fault
     \<Rightarrow> millis option \<Rightarrow> oauth_db \<Rightarrow> (oauth_start_error + unit) \<times> oauth_db" where
  "enforce_production_oauth_start_protection net hmac config header fault now db =
     (if oc_deploymentProfile config \<noteq> ''production'' then (Inr (), db)
      else if now = None then (Inl Start_rejected, db)
      else (case net_URL net (oc_appBaseUrl config) of
        None \<Rightarrow> (Inl Start_type_error, db)
      | Some u \<Rightarrow>
        (case require_same_origin_navigation net header (url_origin u) of
           Inl e \<Rightarrow> (Inl e, db)
         | Inr _ \<Rightarrow>
           if falsy (oc_trustedProxySecret config) then (Inl Start_rejected, db)
           else let secret = the (oc_trustedProxySecret config) in
             (case verify_trusted_proxy_assertion net header secret of
                Inl e \<Rightarrow> (Inl e, db)
              | Inr clientAddress \<Rightarrow> consume_oauth_start_rate_limit fault
                  (hash_client_key hmac secret clientAddress) now db))))"

section \<open>The table keeps the quota\<close>

text \<open>A class is one client or, with no client, every client.\<close>

definition oauth_counted :: "string option \<Rightarrow> oauth_event \<Rightarrow> bool" where
  "oauth_counted c e \<longleftrightarrow> (case c of None \<Rightarrow> True | Some k \<Rightarrow> oe_client e = k)"

definition oauth_alive :: "string option \<Rightarrow> millis \<Rightarrow> oauth_event \<Rightarrow> bool" where
  "oauth_alive c t e \<longleftrightarrow> oe_occurred e \<ge> t - oauth_window_ms"

definition oauth_limit :: "string option \<Rightarrow> nat" where
  "oauth_limit c = (case c of None \<Rightarrow> oauth_global_max_starts | Some _ \<Rightarrow> oauth_client_max_starts)"

definition oauth_lawful :: "oauth_event \<Rightarrow> bool" where
  "oauth_lawful e \<longleftrightarrow> oe_expires e = oe_occurred e + oauth_retention_ms"

text \<open>A request whose clock is just short of \<open>oauth_retention_ms - oauth_window_ms\<close> behind the
  latest cleanup still sees every event of its window.\<close>

interpretation oauth_quota: quota_window oauth_counted oauth_alive oe_occurred oe_expires oe_id
  oauth_limit "5 * 60000 - 1" oauth_lawful oauth_cleanup
proof
  show "oauth_alive c t e \<Longrightarrow> u \<le> t \<Longrightarrow> oauth_alive c u e" for c t u e
    by (simp add: oauth_alive_def)
  show "oauth_lawful e \<Longrightarrow> oauth_counted c e \<Longrightarrow> oauth_alive c t e \<Longrightarrow> t < oe_expires e - (5 * 60000 - 1)"
    for e c t
    by (simp add: oauth_lawful_def oauth_alive_def oauth_constants)
  show "distinct (map oe_id rows) \<Longrightarrow> \<exists>D. oauth_cleanup t rows = filter (\<lambda>e. \<not> D e) rows
      \<and> (\<forall>e\<in>set rows. D e \<longrightarrow> oe_expires e \<le> t)" for rows t
    unfolding oauth_cleanup_def by (rule delete_oldest_filter)
qed

end
