(* ===== verification/Rate_Limit.thy ===== *)
theory Rate_Limit
  imports OAuth_Start Json
begin

text \<open>
  The limiter of the web endpoints (\<open>apps/web/lib/request-rate-limit.ts\<close>): its policies, the
  keys of its subjects and the transaction over its table. Times of the table are microseconds
  of the database clock; the two readings of that clock in one reservation are arguments. The
  advisory lock makes the reservations of one action sequential.
\<close>

section \<open>Policies\<close>

datatype web_action =
  Closed_beta_signup | Handoff_create | Handoff_exchange | Upload_start | Upload_part_url
| Upload_part_complete | Upload_finalize | Review_queue | Review_detail | Review_context
| Evidence_capability | Evidence_stream | Review_decision

definition web_actions :: "(string \<times> web_action) list" where
  "web_actions = [
     (''closed_beta_signup'', Closed_beta_signup), (''handoff_create'', Handoff_create),
     (''handoff_exchange'', Handoff_exchange), (''upload_start'', Upload_start),
     (''upload_part_url'', Upload_part_url), (''upload_part_complete'', Upload_part_complete),
     (''upload_finalize'', Upload_finalize), (''review_queue'', Review_queue),
     (''review_detail'', Review_detail), (''review_context'', Review_context),
     (''evidence_capability'', Evidence_capability), (''evidence_stream'', Evidence_stream),
     (''review_decision'', Review_decision)]"

fun web_action_name :: "web_action \<Rightarrow> string" where
  "web_action_name Closed_beta_signup = ''closed_beta_signup''"
| "web_action_name Handoff_create = ''handoff_create''"
| "web_action_name Handoff_exchange = ''handoff_exchange''"
| "web_action_name Upload_start = ''upload_start''"
| "web_action_name Upload_part_url = ''upload_part_url''"
| "web_action_name Upload_part_complete = ''upload_part_complete''"
| "web_action_name Upload_finalize = ''upload_finalize''"
| "web_action_name Review_queue = ''review_queue''"
| "web_action_name Review_detail = ''review_detail''"
| "web_action_name Review_context = ''review_context''"
| "web_action_name Evidence_capability = ''evidence_capability''"
| "web_action_name Evidence_stream = ''evidence_stream''"
| "web_action_name Review_decision = ''review_decision''"

definition parse_web_action :: "string \<Rightarrow> web_action option" where
  "parse_web_action s = map_of web_actions s"

record rate_limit_policy =
  rp_maximumEvents :: nat
  rp_globalMaximumEvents :: nat
  rp_windowSeconds :: int
  rp_retentionSeconds :: int

definition rate_policy :: "nat \<Rightarrow> nat \<Rightarrow> int \<Rightarrow> rate_limit_policy" where
  "rate_policy maximumEvents globalMaximumEvents windowSeconds =
     \<lparr>rp_maximumEvents = maximumEvents, rp_globalMaximumEvents = globalMaximumEvents,
      rp_windowSeconds = windowSeconds, rp_retentionSeconds = windowSeconds + 5 * 60\<rparr>"

fun web_request_rate_limit_policies :: "web_action \<Rightarrow> rate_limit_policy" where
  "web_request_rate_limit_policies Closed_beta_signup = rate_policy 5 1000 (10 * 60)"
| "web_request_rate_limit_policies Handoff_create = rate_policy 6 1000 (5 * 60)"
| "web_request_rate_limit_policies Handoff_exchange = rate_policy 20 2000 (5 * 60)"
| "web_request_rate_limit_policies Upload_start = rate_policy 8 1000 (10 * 60)"
| "web_request_rate_limit_policies Upload_part_url = rate_policy 128 20000 (10 * 60)"
| "web_request_rate_limit_policies Upload_part_complete = rate_policy 128 20000 (10 * 60)"
| "web_request_rate_limit_policies Upload_finalize = rate_policy 12 2000 (10 * 60)"
| "web_request_rate_limit_policies Review_queue = rate_policy 60 10000 (5 * 60)"
| "web_request_rate_limit_policies Review_detail = rate_policy 60 10000 (5 * 60)"
| "web_request_rate_limit_policies Review_context = rate_policy 30 5000 (5 * 60)"
| "web_request_rate_limit_policies Evidence_capability = rate_policy 20 3000 (5 * 60)"
| "web_request_rate_limit_policies Evidence_stream = rate_policy 30 3000 (5 * 60)"
| "web_request_rate_limit_policies Review_decision = rate_policy 10 1000 (10 * 60)"

definition cleanup_batch_size :: nat where "cleanup_batch_size = 500"

definition rate_limit_domain :: string where
  "rate_limit_domain = ''slopproof:web-request-rate-limit:v1''"

datatype rate_error =
  Rate_limited int | Rate_unavailable | Rate_schema_error | Rate_secret_error | Proxy_rejected

text \<open>The \<open>retry-after\<close> header of the 429 response.\<close>

definition response_retry_after :: "int \<Rightarrow> int" where
  "response_retry_after s = (if is_safe_integer s \<and> s \<ge> 1 \<and> s \<le> 3600 then s else 60)"

section \<open>Subjects\<close>

definition subject_key_hash_ok :: "string \<Rightarrow> bool" where
  "subject_key_hash_ok s \<longleftrightarrow> length s = 64 \<and> all_in lower_hex_chars s"

definition subject_components_ok :: "string list \<Rightarrow> bool" where
  "subject_components_ok cs \<longleftrightarrow> 1 \<le> length cs \<and> length cs \<le> 8
     \<and> list_all (\<lambda>c. 1 \<le> length c \<and> length c \<le> 256) cs"

definition subject_component_bytes :: "string \<Rightarrow> bytes" where
  "subject_component_bytes component =
     (let encoded = utf8_bytes component in
      utf8_bytes [CHR 0x00] @ utf8_bytes (decimal (length encoded)) @ utf8_bytes '':'' @ encoded)"

definition subject_message :: "web_action \<Rightarrow> string list \<Rightarrow> bytes" where
  "subject_message action components =
     utf8_bytes rate_limit_domain @ utf8_bytes [CHR 0x00] @ utf8_bytes (web_action_name action)
     @ concat (map subject_component_bytes components)"

definition create_web_request_subject_hash ::
  "(bytes \<Rightarrow> bytes \<Rightarrow> bytes) \<Rightarrow> string \<Rightarrow> string \<Rightarrow> string list \<Rightarrow> rate_error + string" where
  "create_web_request_subject_hash hmac secret action rawComponents =
     (case parse_web_action action of None \<Rightarrow> Inl Rate_schema_error
      | Some parsedAction \<Rightarrow>
        if \<not> subject_components_ok rawComponents then Inl Rate_schema_error
        else if length (utf8_bytes secret) < 32 \<or> length secret > 4096 then Inl Rate_secret_error
        else Inr (encode_hex (hmac (utf8_bytes secret)
               (subject_message parsedAction rawComponents))))"

definition rate_safe_text_equal :: "string \<Rightarrow> string \<Rightarrow> bool" where
  "rate_safe_text_equal left right \<longleftrightarrow>
     \<not> (length left < 1 \<or> length left > 256
        \<or> list_ex (\<lambda>c. c \<in> {CHR 0x00, CHR 0x0D, CHR 0x0A}) left)
     \<and> length (utf8_bytes left) = length (utf8_bytes right) \<and> utf8_bytes left = utf8_bytes right"

text \<open>Whatever is thrown inside becomes one rejection.\<close>

definition create_trusted_proxy_subject_hash ::
  "net_library \<Rightarrow> (bytes \<Rightarrow> bytes \<Rightarrow> bytes) \<Rightarrow> (string \<Rightarrow> string option) \<Rightarrow> string \<Rightarrow> string \<Rightarrow> string
     \<Rightarrow> rate_error + string" where
  "create_trusted_proxy_subject_hash net hmac header proxySecret subjectSecret action =
     (let assertedAddress = header trusted_proxy_client_ip_header;
          assertedAuthenticator = header trusted_proxy_authenticator_header in
      if falsy assertedAddress \<or> falsy assertedAuthenticator then Inl Proxy_rejected
      else (case trusted_proxy_headers net proxySecret (the assertedAddress) of
          Inl _ \<Rightarrow> Inl Proxy_rejected
        | Inr expected \<Rightarrow>
          if falsy (expected trusted_proxy_authenticator_header)
             \<or> \<not> rate_safe_text_equal (the assertedAuthenticator)
                  (the (expected trusted_proxy_authenticator_header))
          then Inl Proxy_rejected
          else if falsy (expected trusted_proxy_client_ip_header) then Inl Proxy_rejected
          else (case create_web_request_subject_hash hmac subjectSecret action
                  [''trusted-proxy-client'', the (expected trusted_proxy_client_ip_header)] of
              Inl _ \<Rightarrow> Inl Proxy_rejected
            | Inr h \<Rightarrow> Inr h)))"

section \<open>The table\<close>

record rate_event =
  re_id :: nat
  re_action :: web_action
  re_subject :: string
  re_occurred :: int
  re_expires :: int

record rate_db =
  rd_events :: "rate_event list"
  rd_next :: nat

definition rate_cleanup :: "int \<Rightarrow> rate_event list \<Rightarrow> rate_event list" where
  "rate_cleanup now = delete_oldest cleanup_batch_size re_id re_expires now"

text \<open>The decision: no row when the request is admitted, else the row with the wait.\<close>

definition rate_decision ::
  "web_action \<Rightarrow> string \<Rightarrow> rate_limit_policy \<Rightarrow> int \<Rightarrow> rate_db \<Rightarrow> int option \<times> rate_db" where
  "rate_decision action subject quota now db =
     (let window = rp_windowSeconds quota * 1000000;
          recent_subject = oldest_rows (rp_maximumEvents quota) re_occurred
            (\<lambda>e. re_action e = action \<and> re_subject e = subject \<and> re_occurred e > now - window)
            (rd_events db);
          recent_global = oldest_rows (rp_globalMaximumEvents quota) re_occurred
            (\<lambda>e. re_action e = action \<and> re_occurred e > now - window) (rd_events db) in
      if length recent_subject < rp_maximumEvents quota
         \<and> length recent_global < rp_globalMaximumEvents quota
      then (None, \<lparr>rd_events = rd_events db @ [\<lparr>re_id = rd_next db, re_action = action,
                     re_subject = subject, re_occurred = now,
                     re_expires = now + rp_retentionSeconds quota * 1000000\<rparr>],
                   rd_next = Suc (rd_next db)\<rparr>)
      else (Some (max 1 (min (rp_windowSeconds quota) (ceil_div
              (max (if length recent_subject \<ge> rp_maximumEvents quota
                    then Min (set recent_subject) + window else now)
                   (if length recent_global \<ge> rp_globalMaximumEvents quota
                    then Min (set recent_global) + window else now) - now) 1000000))), db))"

definition reserve_web_request_rate_limit ::
  "int \<Rightarrow> int \<Rightarrow> string \<Rightarrow> string \<Rightarrow> rate_db \<Rightarrow> (rate_error + unit) \<times> rate_db" where
  "reserve_web_request_rate_limit clock0 clock1 rawAction subjectKeyHash db =
     (case parse_web_action rawAction of None \<Rightarrow> (Inl Rate_schema_error, db)
      | Some action \<Rightarrow>
        if \<not> subject_key_hash_ok subjectKeyHash then (Inl Rate_schema_error, db)
        else let quota = web_request_rate_limit_policies action;
                 db1 = db\<lparr>rd_events := rate_cleanup clock0 (rd_events db)\<rparr> in
        (case rate_decision action subjectKeyHash quota clock1 db1 of
           (None, db2) \<Rightarrow> (Inr (), db2)
         | (Some retryAfterSeconds, db2) \<Rightarrow>
           if \<not> is_safe_integer retryAfterSeconds \<or> retryAfterSeconds < 1
              \<or> retryAfterSeconds > rp_windowSeconds quota
           then (Inl Rate_unavailable, db2)
           else (Inl (Rate_limited retryAfterSeconds), db2)))"

text \<open>Roll-back restores the rows, not the sequence of the ids.\<close>

definition rate_rollback :: "rate_db \<Rightarrow> rate_db \<Rightarrow> rate_db" where
  "rate_rollback db db' = db\<lparr>rd_next := rd_next db'\<rparr>"

fun reservation_commits :: "rate_error + unit \<Rightarrow> bool" where
  "reservation_commits (Inr _) = True"
| "reservation_commits (Inl (Rate_limited _)) = True"
| "reservation_commits _ = False"

definition consume_web_request_rate_limit ::
  "db_fault \<Rightarrow> int \<Rightarrow> int \<Rightarrow> string \<Rightarrow> string \<Rightarrow> rate_db \<Rightarrow> (rate_error + unit) \<times> rate_db" where
  "consume_web_request_rate_limit fault clock0 clock1 action subjectKeyHash db =
     (if fault = Connect_fails \<or> fault = Query_fails then (Inl Rate_unavailable, db)
      else (case reserve_web_request_rate_limit clock0 clock1 action subjectKeyHash db of
        (res, db') \<Rightarrow>
        if reservation_commits res
        then (case fault of
                Commit_fails applied \<Rightarrow>
                  (Inl Rate_unavailable, if applied then db' else rate_rollback db db')
              | _ \<Rightarrow> (res, db'))
        else (Inl Rate_unavailable, rate_rollback db db')))"

section \<open>The table keeps the quota\<close>

text \<open>A class is an action with one subject or, with no subject, with every subject.\<close>

definition rate_counted :: "web_action \<times> string option \<Rightarrow> rate_event \<Rightarrow> bool" where
  "rate_counted c e \<longleftrightarrow> re_action e = fst c
     \<and> (case snd c of None \<Rightarrow> True | Some s \<Rightarrow> re_subject e = s)"

definition rate_window :: "web_action \<Rightarrow> int" where
  "rate_window a = rp_windowSeconds (web_request_rate_limit_policies a) * 1000000"

definition rate_alive :: "web_action \<times> string option \<Rightarrow> int \<Rightarrow> rate_event \<Rightarrow> bool" where
  "rate_alive c t e \<longleftrightarrow> re_occurred e > t - rate_window (fst c)"

definition rate_limit :: "web_action \<times> string option \<Rightarrow> nat" where
  "rate_limit c = (case snd c of
     None \<Rightarrow> rp_globalMaximumEvents (web_request_rate_limit_policies (fst c))
   | Some _ \<Rightarrow> rp_maximumEvents (web_request_rate_limit_policies (fst c)))"

definition rate_lawful :: "rate_event \<Rightarrow> bool" where
  "rate_lawful e \<longleftrightarrow> re_expires e = re_occurred e
     + rp_retentionSeconds (web_request_rate_limit_policies (re_action e)) * 1000000"

lemma rate_policy_bounds:
  "0 < rp_maximumEvents (web_request_rate_limit_policies a)"
  "0 < rp_globalMaximumEvents (web_request_rate_limit_policies a)"
  "1 \<le> rp_windowSeconds (web_request_rate_limit_policies a)"
  "rp_windowSeconds (web_request_rate_limit_policies a) \<le> 600"
  "rp_retentionSeconds (web_request_rate_limit_policies a)
     = rp_windowSeconds (web_request_rate_limit_policies a) + 300"
  by (cases a; simp add: rate_policy_def)+

lemma parse_web_action_name: "parse_web_action (web_action_name a) = Some a"
  by (cases a; simp add: parse_web_action_def web_actions_def)

interpretation rate_quota: quota_window rate_counted rate_alive re_occurred re_expires re_id
  rate_limit "300 * 1000000" rate_lawful rate_cleanup
proof
  show "rate_alive c t e \<Longrightarrow> u \<le> t \<Longrightarrow> rate_alive c u e" for c t u e
    by (simp add: rate_alive_def)
  show "rate_lawful e \<Longrightarrow> rate_counted c e \<Longrightarrow> rate_alive c t e \<Longrightarrow> t < re_expires e - 300 * 1000000"
    for e c t
    by (simp add: rate_lawful_def rate_counted_def rate_alive_def rate_window_def
        rate_policy_bounds(5) algebra_simps)
  show "distinct (map re_id rows) \<Longrightarrow> \<exists>D. rate_cleanup t rows = filter (\<lambda>e. \<not> D e) rows
      \<and> (\<forall>e\<in>set rows. D e \<longrightarrow> re_expires e \<le> t)" for rows t
    unfolding rate_cleanup_def by (rule delete_oldest_filter)
qed

end
