(* ===== verification/Limits_Life.thy ===== *)
theory Limits_Life
  imports Rate_Limit
begin

text \<open>
  What the two request limiters promise over any sequence of requests. A run carries the table,
  the log of every event ever admitted, whatever the cleanup has deleted since, and the latest
  clock; its steps are the calls of the code, faults of the database included.
\<close>

section \<open>Runs of the web limiter\<close>

record rate_run =
  rr_db :: rate_db
  rr_log :: "rate_event list"
  rr_clock :: int

definition new_rate_events :: "rate_db \<Rightarrow> rate_db \<Rightarrow> rate_event list" where
  "new_rate_events db db' = filter (\<lambda>e. rd_next db \<le> re_id e) (rd_events db')"

inductive rate_step :: "rate_run \<Rightarrow> rate_run \<Rightarrow> bool" where
  consume: "consume_web_request_rate_limit fault t0 t1 action subject (rr_db r) = (res, db') \<Longrightarrow>
    rr_clock r \<le> t0 \<Longrightarrow> t0 \<le> t1 \<Longrightarrow>
    rate_step r \<lparr>rr_db = db', rr_log = rr_log r @ new_rate_events (rr_db r) db', rr_clock = t1\<rparr>"

inductive_cases rate_stepE: "rate_step r r'"

definition rate_start :: "rate_run \<Rightarrow> bool" where
  "rate_start r \<longleftrightarrow> rd_events (rr_db r) = [] \<and> rr_log r = []"

definition rate_inv :: "rate_run \<Rightarrow> bool" where
  "rate_inv r \<longleftrightarrow>
     rate_quota.quota_inv (rd_events (rr_db r)) (rr_log r) (rr_clock r) (rd_next (rr_db r))
     \<and> (\<forall>e\<in>set (rr_log r). re_occurred e \<le> rr_clock r)"

text \<open>One reservation: refused by a check, refused by a quota, or admitted as a new event.\<close>

definition new_rate_event :: "web_action \<Rightarrow> string \<Rightarrow> int \<Rightarrow> nat \<Rightarrow> rate_event" where
  "new_rate_event a subject t n = \<lparr>re_id = n, re_action = a, re_subject = subject, re_occurred = t,
     re_expires = t + rp_retentionSeconds (web_request_rate_limit_policies a) * 1000000\<rparr>"

definition below_limit :: "web_action \<Rightarrow> string option \<Rightarrow> int \<Rightarrow> rate_event list \<Rightarrow> bool" where
  "below_limit a s t rows \<longleftrightarrow>
     length (filter (\<lambda>x. rate_counted (a, s) x \<and> rate_alive (a, s) t x) rows) < rate_limit (a, s)"

lemma rate_selections:
  "(\<lambda>e. re_action e = a \<and> re_subject e = subject \<and> re_occurred e > t - rate_window a)
     = (\<lambda>x. rate_counted (a, Some subject) x \<and> rate_alive (a, Some subject) t x)"
  "(\<lambda>e. re_action e = a \<and> re_occurred e > t - rate_window a)
     = (\<lambda>x. rate_counted (a, None) x \<and> rate_alive (a, None) t x)"
  by (auto simp: rate_counted_def rate_alive_def)

definition class_rows :: "web_action \<Rightarrow> string option \<Rightarrow> int \<Rightarrow> rate_event list \<Rightarrow> int list" where
  "class_rows a s t rows = oldest_rows (rate_limit (a, s)) re_occurred
     (\<lambda>x. rate_counted (a, s) x \<and> rate_alive (a, s) t x) rows"

text \<open>When a full class next has room.\<close>

definition full_until :: "web_action \<Rightarrow> string option \<Rightarrow> int \<Rightarrow> rate_event list \<Rightarrow> int" where
  "full_until a s t rows =
     (if below_limit a s t rows then t else Min (set (class_rows a s t rows)) + rate_window a)"

lemma class_rows_full: "length (class_rows a s t rows) < rate_limit (a, s) \<longleftrightarrow> below_limit a s t rows"
  by (simp add: class_rows_def below_limit_def oldest_rows_full)

lemma rate_limit_simps:
  "rate_limit (a, Some s) = rp_maximumEvents (web_request_rate_limit_policies a)"
  "rate_limit (a, None) = rp_globalMaximumEvents (web_request_rate_limit_policies a)"
  by (simp_all add: rate_limit_def)

lemma if_not_swap: "(if \<not> P then x else y) = (if P then y else x)"
  by simp

lemma rate_decision_eq:
  "rate_decision a subject (web_request_rate_limit_policies a) t db =
     (if below_limit a (Some subject) t (rd_events db) \<and> below_limit a None t (rd_events db)
      then (None, \<lparr>rd_events = rd_events db @ [new_rate_event a subject t (rd_next db)],
                   rd_next = Suc (rd_next db)\<rparr>)
      else (Some (max 1 (min (rp_windowSeconds (web_request_rate_limit_policies a))
             (ceil_div (max (full_until a (Some subject) t (rd_events db))
                (full_until a None t (rd_events db)) - t) 1000000))), db))"
  unfolding rate_decision_def Let_def rate_window_def [symmetric] rate_selections
    rate_limit_simps(1) [symmetric, where s = subject] rate_limit_simps(2) [symmetric]
    class_rows_def [symmetric] not_less [symmetric] class_rows_full new_rate_event_def [symmetric]
    full_until_def
  by (simp only: if_not_swap)

lemma rate_decision_admits:
  assumes "below_limit a (Some subject) t (rd_events db)" and "below_limit a None t (rd_events db)"
  shows "rate_decision a subject (web_request_rate_limit_policies a) t db = (None,
     \<lparr>rd_events = rd_events db @ [new_rate_event a subject t (rd_next db)], rd_next = Suc (rd_next db)\<rparr>)"
  using assms by (simp add: rate_decision_eq)

lemma rate_decision_refuses:
  assumes "\<not> (below_limit a (Some subject) t (rd_events db) \<and> below_limit a None t (rd_events db))"
  shows "\<exists>n. rate_decision a subject (web_request_rate_limit_policies a) t db = (Some n, db)"
  using assms by (simp only: rate_decision_eq if_False) blast

lemma reserve_cases:
  assumes "reserve_web_request_rate_limit t0 t1 action subject db = (res, db')"
  shows "(res = Inl Rate_schema_error \<and> db' = db)
    \<or> (\<exists>n. (res = Inl (Rate_limited n) \<or> res = Inl Rate_unavailable)
         \<and> db' = db\<lparr>rd_events := rate_cleanup t0 (rd_events db)\<rparr>)
    \<or> (\<exists>a. parse_web_action action = Some a \<and> res = Inr ()
         \<and> db' = \<lparr>rd_events = rate_cleanup t0 (rd_events db) @ [new_rate_event a subject t1 (rd_next db)],
              rd_next = Suc (rd_next db)\<rparr>
         \<and> below_limit a (Some subject) t1 (rate_cleanup t0 (rd_events db))
         \<and> below_limit a None t1 (rate_cleanup t0 (rd_events db)))"
proof (cases "parse_web_action action = None \<or> \<not> subject_key_hash_ok subject")
  case True
  then show ?thesis
    using assms by (auto simp: reserve_web_request_rate_limit_def split: option.splits)
next
  case False
  then obtain a where a: "parse_web_action action = Some a" "subject_key_hash_ok subject" by auto
  define db1 where "db1 = db\<lparr>rd_events := rate_cleanup t0 (rd_events db)\<rparr>"
  have next_rows: "rd_next db1 = rd_next db" "rd_events db1 = rate_cleanup t0 (rd_events db)"
    by (simp_all add: db1_def)
  have run: "(case rate_decision a subject (web_request_rate_limit_policies a) t1 db1 of
        (None, db2) \<Rightarrow> (Inr (), db2)
      | (Some n, db2) \<Rightarrow> if \<not> is_safe_integer n \<or> n < 1
           \<or> n > rp_windowSeconds (web_request_rate_limit_policies a)
          then (Inl Rate_unavailable, db2) else (Inl (Rate_limited n), db2)) = (res, db')"
    using assms a by (simp add: reserve_web_request_rate_limit_def Let_def db1_def)
  show ?thesis
  proof (cases "below_limit a (Some subject) t1 (rd_events db1) \<and> below_limit a None t1 (rd_events db1)")
    case True
    then show ?thesis
      using run rate_decision_admits [of a subject t1 db1] a(1) by (simp add: next_rows)
  next
    case False
    then obtain n where "rate_decision a subject (web_request_rate_limit_policies a) t1 db1 = (Some n, db1)"
      using rate_decision_refuses by blast
    then show ?thesis
      using run by (auto simp: db1_def split: if_splits)
  qed
qed

lemma consume_cases:
  assumes "consume_web_request_rate_limit fault t0 t1 action subject db = (res, db')"
  shows "(res \<noteq> Inr () \<and> rd_events db' = rd_events db \<and> rd_next db \<le> rd_next db')
    \<or> (\<exists>r. reserve_web_request_rate_limit t0 t1 action subject db = (r, db')
        \<and> (res = r \<or> res = Inl Rate_unavailable))"
proof -
  obtain r d where r: "reserve_web_request_rate_limit t0 t1 action subject db = (r, d)"
    by (cases "reserve_web_request_rate_limit t0 t1 action subject db")
  have "rd_next db \<le> rd_next d"
    using reserve_cases [OF r] by (elim disjE exE conjE) simp_all
  then have "rd_events (rate_rollback db d) = rd_events db \<and> rd_next db \<le> rd_next (rate_rollback db d)"
    by (simp add: rate_rollback_def)
  then show ?thesis
    using assms r by (cases fault; cases r rule: reservation_commits.cases)
      (simp_all add: consume_web_request_rate_limit_def split: if_splits, (metis sum.distinct(1))+)
qed

lemma below_limit_all:
  assumes "below_limit a (Some subject) t rows" and "below_limit a None t rows"
    and "rate_counted c (new_rate_event a subject t n)"
  shows "length (filter (\<lambda>x. rate_counted c x \<and> rate_alive c t x) rows) < rate_limit c"
proof -
  have "c = (a, Some subject) \<or> c = (a, None)"
    using assms(3) by (cases c) (auto simp: rate_counted_def new_rate_event_def split: option.splits)
  then show ?thesis
    using assms(1,2) by (auto simp: below_limit_def)
qed

lemma new_rate_event_simps [simp]:
  "re_id (new_rate_event a s t n) = n" "re_occurred (new_rate_event a s t n) = t"
  "rate_lawful (new_rate_event a s t n)"
  by (simp_all add: new_rate_event_def rate_lawful_def)

lemma rate_step_inv:
  assumes "rate_inv r" and "rate_step r r'"
  shows "rate_inv r'"
  using assms(2)
proof (cases rule: rate_step.cases)
  case (consume fault t0 t1 action subject res db')
  let ?rows = "rd_events (rr_db r)" and ?log = "rr_log r" and ?n = "rd_next (rr_db r)"
  have inv: "rate_quota.quota_inv ?rows ?log (rr_clock r) ?n"
    and past: "\<forall>e\<in>set ?log. re_occurred e \<le> t1"
    using assms(1) consume by (force simp: rate_inv_def)+
  have same: "rate_inv r'" if d: "rate_quota.quota_inv (rd_events db') ?log t1 (rd_next db')"
    and n: "new_rate_events (rr_db r) db' = []"
    using d n past consume(1) by (simp add: rate_inv_def)
  have cleaned: "rate_quota.quota_inv (rate_cleanup t0 ?rows) ?log t0 ?n"
    using rate_quota.quota_cleanup [OF inv, of t0] consume(3) by (simp add: max_def)
  consider (rolled) "rd_events db' = ?rows" "?n \<le> rd_next db'"
    | (ran) x where "reserve_web_request_rate_limit t0 t1 action subject (rr_db r) = (x, db')"
    using consume_cases [OF consume(2)] by blast
  then show ?thesis
  proof cases
    case d: rolled
    show ?thesis
      by (rule same) (use inv consume d in \<open>auto simp: new_rate_events_def
          intro: rate_quota.quota_mono rate_quota.quota_fresh\<close>)
  next
    case ran
    from reserve_cases [OF this] show ?thesis
    proof (elim disjE conjE exE)
      assume "db' = rr_db r"
      then show ?thesis
        by (intro same) (use inv consume in \<open>auto simp: new_rate_events_def
            intro: rate_quota.quota_mono rate_quota.quota_fresh\<close>)
    next
      fix n assume "db' = (rr_db r)\<lparr>rd_events := rate_cleanup t0 ?rows\<rparr>"
      then show ?thesis
        by (intro same) (use cleaned consume in \<open>auto simp: new_rate_events_def
            intro: rate_quota.quota_mono rate_quota.quota_fresh\<close>)
    next
      fix n assume "db' = (rr_db r)\<lparr>rd_events := rate_cleanup t0 ?rows\<rparr>"
      then show ?thesis
        by (intro same) (use cleaned consume in \<open>auto simp: new_rate_events_def
            intro: rate_quota.quota_mono rate_quota.quota_fresh\<close>)
    next
      fix a assume d: "db' = \<lparr>rd_events = rate_cleanup t0 ?rows @ [new_rate_event a subject t1 ?n],
          rd_next = Suc ?n\<rparr>"
        and b: "below_limit a (Some subject) t1 (rate_cleanup t0 ?rows)"
          "below_limit a None t1 (rate_cleanup t0 ?rows)"
      have "rate_quota.quota_inv (rate_cleanup t0 ?rows @ [new_rate_event a subject t1 ?n])
          (?log @ [new_rate_event a subject t1 ?n]) t0 (Suc ?n)"
        by (rule rate_quota.quota_admit [OF cleaned])
          (use consume below_limit_all [OF b] in simp_all)
      moreover have "new_rate_events (rr_db r) db' = [new_rate_event a subject t1 ?n]"
        using rate_quota.quota_fresh [OF cleaned order_refl] by (simp add: new_rate_events_def d)
      ultimately show ?thesis
        using past consume(1,4) d rate_quota.quota_mono [of _ _ t0 "Suc ?n" t1 "Suc ?n"]
        by (simp add: rate_inv_def)
    qed
  qed
qed

interpretation rate_runs: invariant_system rate_start rate_step rate_inv
proof
  show "rate_start r \<Longrightarrow> rate_inv r" for r
    using rate_quota.quota_init by (simp add: rate_start_def rate_inv_def)
qed (rule rate_step_inv)

lemma admitted_is_recorded:
  assumes "rate_quota.quota_inv (rd_events db) log hw (rd_next db)"
    and "consume_web_request_rate_limit fault t0 t1 action key db = (Inr (), db')"
  shows "\<exists>b. parse_web_action action = Some b
    \<and> new_rate_events db db' = [new_rate_event b key t1 (rd_next db)]"
proof -
  have "reserve_web_request_rate_limit t0 t1 action key db = (Inr (), db')"
    using consume_cases [OF assms(2)] by auto
  then obtain b where b: "parse_web_action action = Some b"
    "db' = \<lparr>rd_events = rate_cleanup t0 (rd_events db) @ [new_rate_event b key t1 (rd_next db)],
       rd_next = Suc (rd_next db)\<rparr>"
    using reserve_cases by blast
  have "filter (\<lambda>e. rd_next db \<le> re_id e) (rate_cleanup t0 (rd_events db)) = []"
    using rate_quota.quota_cleanup [OF assms(1)] rate_quota.quota_fresh by blast
  then show ?thesis
    using b by (simp add: new_rate_events_def)
qed

section \<open>Properties of the web limiter\<close>

text \<open>C15: the quotas of the web endpoints are exact over every run: however requests, rejections,
  database faults and bounded cleanups follow each other, at no time does the sliding window of
  an action hold more admitted events of one subject than the action's maximum, nor more of all
  subjects together than its global maximum; and a request that is let through is recorded as
  one event of its action and subject.\<close>

theorem web_quota_is_never_exceeded:
  assumes "rate_start r0" and "rate_step\<^sup>*\<^sup>* r0 r"
  shows "length (filter (\<lambda>e. re_action e = a \<and> re_subject e = subject
        \<and> t - rp_windowSeconds (web_request_rate_limit_policies a) * 1000000 < re_occurred e
        \<and> re_occurred e \<le> t) (rr_log r))
      \<le> rp_maximumEvents (web_request_rate_limit_policies a)
    \<and> length (filter (\<lambda>e. re_action e = a
        \<and> t - rp_windowSeconds (web_request_rate_limit_policies a) * 1000000 < re_occurred e
        \<and> re_occurred e \<le> t) (rr_log r))
      \<le> rp_globalMaximumEvents (web_request_rate_limit_policies a)
    \<and> (consume_web_request_rate_limit fault t0 t1 action key (rr_db r) = (Inr (), db') \<longrightarrow>
        (\<exists>b. parse_web_action action = Some b
          \<and> new_rate_events (rr_db r) db' = [new_rate_event b key t1 (rd_next (rr_db r))]))"
proof -
  have inv: "rate_quota.quota_inv (rd_events (rr_db r)) (rr_log r) (rr_clock r) (rd_next (rr_db r))"
    using rate_runs.inv_reachable [OF assms] by (simp add: rate_inv_def)
  have w: "rate_quota.in_window (a, Some subject) t = (\<lambda>e. re_action e = a \<and> re_subject e = subject
        \<and> t - rp_windowSeconds (web_request_rate_limit_policies a) * 1000000 < re_occurred e
        \<and> re_occurred e \<le> t)"
    "rate_quota.in_window (a, None) t = (\<lambda>e. re_action e = a
        \<and> t - rp_windowSeconds (web_request_rate_limit_policies a) * 1000000 < re_occurred e
        \<and> re_occurred e \<le> t)"
    by (auto simp: fun_eq_iff rate_quota.in_window_def rate_counted_def rate_alive_def rate_window_def)
  show ?thesis
    using rate_quota.quota_kept [OF inv, of "(a, Some subject)" t, unfolded w]
      rate_quota.quota_kept [OF inv, of "(a, None)" t, unfolded w] admitted_is_recorded [OF inv]
    by (simp add: rate_limit_def)
qed

section \<open>Waiting\<close>

lemma ceil_div_ge: "0 < b \<Longrightarrow> a \<le> ceil_div a b * b"
  unfolding ceil_div_def by (smt (verit) div_mult_mod_eq mult_minus_left pos_mod_sign)

lemma ceil_div_le: "0 < b \<Longrightarrow> a \<le> n * b \<Longrightarrow> ceil_div a b \<le> n"
  unfolding ceil_div_def by (smt (verit) mult_minus_left zdiv_mono1 nonzero_mult_div_cancel_right)

lemma length_filter_less:
  assumes "\<And>x. x \<in> set xs \<Longrightarrow> P x \<Longrightarrow> Q x" and "e \<in> set xs" and "Q e" and "\<not> P e"
  shows "length (filter P xs) < length (filter Q xs)"
  using assms
proof (induction xs)
  case (Cons x xs)
  show ?case
  proof (cases "x = e")
    case True
    then show ?thesis
      using Cons.prems(1,3,4) length_filter_imp [of xs P Q] by (simp add: le_imp_less_Suc)
  next
    case False
    then show ?thesis
      using Cons.IH Cons.prems by auto
  qed
qed simp

text \<open>A full class: its oldest event is in the window, and once it has left the window, the
  class has room.\<close>

lemma full_class:
  assumes "\<not> below_limit a s t rows" and "rate_quota.quota_inv rows log hw n"
    and "\<forall>e\<in>set log. re_occurred e \<le> t"
  shows "Min (set (class_rows a s t rows)) \<le> t
    \<and> (Min (set (class_rows a s t rows)) + rate_window a \<le> u \<and> t \<le> u \<longrightarrow> below_limit a s u rows)"
proof -
  let ?sel = "\<lambda>t x. rate_counted (a, s) x \<and> rate_alive (a, s) t x"
  have full: "rate_limit (a, s) \<le> length (filter (?sel t) rows)" and pos: "0 < rate_limit (a, s)"
    using assms(1) rate_policy_bounds by (auto simp: below_limit_def rate_limit_def split: option.splits)
  obtain P where P: "rows = filter P log"
    using assms(2) by (auto simp: rate_quota.quota_inv_def)
  obtain e where e: "e \<in> set rows" "?sel t e" "Min (set (class_rows a s t rows)) = re_occurred e"
    using oldest_rows_min [OF full pos, of re_occurred] unfolding class_rows_def by auto
  have "length (filter (?sel t) rows) \<le> length (filter (rate_quota.in_window (a, s) t) log)"
    unfolding P filter_filter
    by (rule length_filter_imp) (use assms(3) in \<open>auto simp: rate_quota.in_window_def\<close>)
  then have most: "length (filter (?sel t) rows) \<le> rate_limit (a, s)"
    using rate_quota.quota_kept [OF assms(2)] le_trans by blast
  have "below_limit a s u rows" if "re_occurred e + rate_window a \<le> u" "t \<le> u"
  proof -
    have "length (filter (?sel u) rows) < length (filter (?sel t) rows)"
      by (rule length_filter_less [where e = e and Q = "?sel t"]) (use e(1,2) that in \<open>auto simp: rate_alive_def\<close>)
    then show ?thesis using most by (simp add: below_limit_def)
  qed
  moreover have "re_occurred e \<le> t"
    using e(1) assms(3) P by auto
  ultimately show ?thesis using e(3) by simp
qed

lemma rate_wait:
  assumes "rate_decision a subject (web_request_rate_limit_policies a) t db = (Some n, db')"
    and "rate_quota.quota_inv (rd_events db) log hw k" and "\<forall>e\<in>set log. re_occurred e \<le> t"
    and "t + n * 1000000 \<le> u"
  shows "1 \<le> n \<and> n \<le> rp_windowSeconds (web_request_rate_limit_policies a) \<and> db' = db
    \<and> below_limit a (Some subject) u (rd_events db) \<and> below_limit a None u (rd_events db)"
proof -
  let ?w = "rp_windowSeconds (web_request_rate_limit_policies a)"
  define until where "until s = full_until a s t (rd_events db)" for s
  have n: "n = max 1 (min ?w (ceil_div (max (until (Some subject)) (until None) - t) 1000000))"
    and same: "db' = db"
    using assms(1) unfolding rate_decision_eq until_def by (auto split: if_splits)
  have le: "until s \<le> t + rate_window a" for s
    using full_class [OF _ assms(2,3), of a s] rate_policy_bounds(3) [of a]
    by (auto simp: until_def full_until_def rate_window_def)
  have "ceil_div (max (until (Some subject)) (until None) - t) 1000000 \<le> ?w"
    using le [of "Some subject"] le [of None] by (intro ceil_div_le) (auto simp: rate_window_def)
  then have "max (until (Some subject)) (until None) - t \<le> n * 1000000"
    using ceil_div_ge [of 1000000 "max (until (Some subject)) (until None) - t"] n by auto
  then have u: "until s \<le> u" if "s \<in> {Some subject, None}" for s
    using assms(4) that by auto
  have "t \<le> u" using n assms(4) by auto
  moreover have "below_limit a s u (rd_events db)" if "s \<in> {Some subject, None}" for s
  proof (cases "below_limit a s t (rd_events db)")
    case True
    then show ?thesis
      using length_filter_imp [of "rd_events db" "\<lambda>x. rate_counted (a, s) x \<and> rate_alive (a, s) u x"
          "\<lambda>x. rate_counted (a, s) x \<and> rate_alive (a, s) t x"] \<open>t \<le> u\<close> rate_quota.alive_earlier
      by (fastforce simp: below_limit_def)
  next
    case False
    then show ?thesis
      using full_class [OF False assms(2,3), of u] u [OF that] \<open>t \<le> u\<close> by (simp add: until_def full_until_def)
  qed
  ultimately show ?thesis
    using n same rate_policy_bounds(3) [of a] by auto
qed

lemma below_limit_cleanup:
  assumes "below_limit a s t rows" and "distinct (map re_id rows)"
  shows "below_limit a s t (rate_cleanup u rows)"
proof -
  obtain D where "rate_cleanup u rows = filter (\<lambda>e. \<not> D e) rows"
    using rate_quota.cleanup_only_expired [OF assms(2)] by blast
  moreover have "length (filter Q (filter (\<lambda>e. \<not> D e) rows)) \<le> length (filter Q rows)" for Q
    unfolding filter_filter by (rule length_filter_imp) simp
  ultimately show ?thesis
    using assms(1) le_less_trans unfolding below_limit_def by metis
qed

lemma quota_distinct: "rate_quota.quota_inv rows log hw n \<Longrightarrow> distinct (map re_id rows)"
  by (auto simp: rate_quota.quota_inv_def distinct_map_filter)

text \<open>The wait a refused request is told is honest: it is between one second and the window
  of the action, which is at most ten minutes, and when no other request of the action is
  admitted meanwhile, the same request succeeds at every time after the wait.\<close>

theorem waiting_is_enough:
  assumes "rate_start r0" and "rate_step\<^sup>*\<^sup>* r0 r" and "rr_clock r \<le> t0" and "t0 \<le> t1"
    and "consume_web_request_rate_limit No_fault t0 t1 action subject (rr_db r)
      = (Inl (Rate_limited n), db')"
    and "t1 + n * 1000000 \<le> u1"
  shows "1 \<le> n \<and> n \<le> 600
    \<and> fst (consume_web_request_rate_limit No_fault u0 u1 action subject db') = Inr ()"
proof -
  have inv: "rate_inv r"
    by (rule rate_runs.inv_reachable [OF assms(1,2)])
  define db1 where "db1 = (rr_db r)\<lparr>rd_events := rate_cleanup t0 (rd_events (rr_db r))\<rparr>"
  have q: "rate_quota.quota_inv (rd_events db1) (rr_log r) (max (rr_clock r) t0) (rd_next db1)"
    and past: "\<forall>e\<in>set (rr_log r). re_occurred e \<le> t1"
    using inv rate_quota.quota_cleanup [of "rd_events (rr_db r)" "rr_log r" "rr_clock r" "rd_next (rr_db r)" t0]
      assms(3,4) by (auto simp: rate_inv_def db1_def)
  have res: "reserve_web_request_rate_limit t0 t1 action subject (rr_db r) = (Inl (Rate_limited n), db')"
    using assms(5) by (auto simp: consume_web_request_rate_limit_def split: if_splits prod.splits)
  then obtain a where a: "parse_web_action action = Some a" "subject_key_hash_ok subject"
    by (auto simp: reserve_web_request_rate_limit_def split: option.splits if_splits)
  then have d: "rate_decision a subject (web_request_rate_limit_policies a) t1 db1 = (Some n, db')"
    using res by (simp add: reserve_web_request_rate_limit_def Let_def db1_def [symmetric]
        split: prod.splits option.splits if_splits)
  note w = rate_wait [OF d q past assms(6)]
  let ?db2 = "db'\<lparr>rd_events := rate_cleanup u0 (rd_events db')\<rparr>"
  have "below_limit a s u1 (rate_cleanup u0 (rd_events db'))" if "s \<in> {Some subject, None}" for s
    by (rule below_limit_cleanup) (use w that quota_distinct [OF q] in auto)
  then have "fst (reserve_web_request_rate_limit u0 u1 action subject db') = Inr ()"
    using rate_decision_admits [of a subject u1 ?db2] a
    by (simp add: reserve_web_request_rate_limit_def)
  then show ?thesis
    using w rate_policy_bounds(4) [of a]
    by (cases "reserve_web_request_rate_limit u0 u1 action subject db'")
      (auto simp: consume_web_request_rate_limit_def)
qed

section \<open>Subject keys\<close>

lemma utf8_bytes_Cons: "utf8_bytes (c # s) = utf8_char c @ utf8_bytes s"
  by (simp add: utf8_bytes_def)

lemma decimal_bytes: "(58 :: byte) \<notin> set (utf8_bytes (decimal n))"
proof -
  have "\<forall>c\<in>set ''0123456789''. (58 :: byte) \<notin> set (utf8_char c)"
    by code_simp
  then have "58 \<notin> set (utf8_bytes s)" if "set s \<subseteq> set ''0123456789''" for s
    using that by (induction s) (auto simp only: utf8_bytes_Cons set_append list.simps insert_subset
        Un_iff utf8_bytes_def concat.simps empty_iff list.map)
  then show ?thesis
    using decimal_digits by blast
qed

lemma split_at_unique:
  assumes "x \<notin> set as" and "x \<notin> set bs" and "as @ x # r = bs @ x # q"
  shows "as = bs \<and> r = q"
  using assms by (induction as arbitrary: bs) (case_tac [!] bs, auto)

lemma subject_component_unique:
  assumes "subject_component_bytes c @ r = subject_component_bytes d @ q"
  shows "c = d \<and> r = q"
proof -
  have one: "utf8_bytes [CHR 0x00] = [0]" "utf8_bytes '':'' = [58]"
    by code_simp+
  have "utf8_bytes (decimal (length (utf8_bytes c))) @ 58 # utf8_bytes c @ r
      = utf8_bytes (decimal (length (utf8_bytes d))) @ 58 # utf8_bytes d @ q"
    using assms by (simp add: subject_component_bytes_def Let_def one)
  then have e: "utf8_bytes (decimal (length (utf8_bytes c))) = utf8_bytes (decimal (length (utf8_bytes d)))"
    "utf8_bytes c @ r = utf8_bytes d @ q"
    using split_at_unique [OF decimal_bytes decimal_bytes] by blast+
  then have "length (utf8_bytes c) = length (utf8_bytes d)"
    by (metis utf8_bytes_inj decimal_value_decimal)
  then show ?thesis
    using e(2) utf8_bytes_inj by simp
qed

lemma subject_component_ne: "subject_component_bytes c \<noteq> []"
  by (simp add: subject_component_bytes_def Let_def utf8_bytes_Cons utf8_char_ne)

lemma subject_components_unique:
  "concat (map subject_component_bytes cs) = concat (map subject_component_bytes ds) \<Longrightarrow> cs = ds"
proof (induction cs arbitrary: ds)
  case Nil
  then show ?case by (cases ds) (auto simp: subject_component_ne)
next
  case (Cons c cs)
  then show ?case
    by (cases ds) (auto simp: subject_component_ne dest!: subject_component_unique)
qed

lemma action_name_bytes: "(0 :: byte) \<notin> set (utf8_bytes (web_action_name a))"
  by (cases a; simp only: web_action_name.simps; code_simp)

lemma component_start:
  "concat (map subject_component_bytes cs) = [] \<or> (\<exists>t. concat (map subject_component_bytes cs) = 0 # t)"
proof (cases cs)
  case (Cons c ds)
  have "utf8_bytes [CHR 0x00] = [0]" by code_simp
  then show ?thesis
    by (simp add: Cons subject_component_bytes_def Let_def)
qed simp

lemma takeWhile_before:
  "x \<notin> set as \<Longrightarrow> takeWhile (\<lambda>b. b \<noteq> x) as = as"
  "x \<notin> set as \<Longrightarrow> takeWhile (\<lambda>b. b \<noteq> x) (as @ x # t) = as"
  by (induction as) auto

lemma prefix_before_unique:
  assumes "x \<notin> set as" and "x \<notin> set bs" and "r = [] \<or> (\<exists>t. r = x # t)" and "q = [] \<or> (\<exists>t. q = x # t)"
    and "as @ r = bs @ q"
  shows "as = bs \<and> r = q"
proof -
  have "takeWhile (\<lambda>b. b \<noteq> x) (as @ r) = as" "takeWhile (\<lambda>b. b \<noteq> x) (bs @ q) = bs"
    using assms(1-4) takeWhile_before by auto
  then show ?thesis
    using assms(5) by (metis same_append_eq)
qed

text \<open>The message a subject key is an HMAC of is unambiguous: two requests have the same
  message only for the same action and the same list of components, so two different subjects
  of the endpoints share a quota only if the HMAC collides.\<close>

theorem subject_keys_are_unambiguous:
  "subject_message a cs = subject_message b ds \<longleftrightarrow> a = b \<and> cs = ds"
proof
  assume "subject_message a cs = subject_message b ds"
  then have e: "utf8_bytes (web_action_name a) @ concat (map subject_component_bytes cs)
      = utf8_bytes (web_action_name b) @ concat (map subject_component_bytes ds)"
    by (simp add: subject_message_def)
  have "utf8_bytes (web_action_name a) = utf8_bytes (web_action_name b)
      \<and> concat (map subject_component_bytes cs) = concat (map subject_component_bytes ds)"
    by (rule prefix_before_unique [OF action_name_bytes action_name_bytes component_start component_start e])
  then show "a = b \<and> cs = ds"
    using subject_components_unique parse_web_action_name by (metis option.inject utf8_bytes_inj)
qed simp

section \<open>Runs of the OAuth start limiter\<close>

text \<open>The clock of a request is its process's own and is read before the lock is taken, so clocks
  may go back; a run allows just under five minutes.\<close>

record oauth_run =
  or_db :: oauth_db
  or_log :: "oauth_event list"
  or_clock :: millis

definition new_oauth_events :: "oauth_db \<Rightarrow> oauth_db \<Rightarrow> oauth_event list" where
  "new_oauth_events db db' = filter (\<lambda>e. od_next db \<le> oe_id e) (od_events db')"

inductive oauth_step :: "oauth_run \<Rightarrow> oauth_run \<Rightarrow> bool" where
  consume: "consume_oauth_start_rate_limit fault key (Some now) (or_db r) = (res, db') \<Longrightarrow>
    or_clock r - (5 * 60000 - 1) \<le> now \<Longrightarrow>
    oauth_step r \<lparr>or_db = db', or_log = or_log r @ new_oauth_events (or_db r) db',
      or_clock = max (or_clock r) now\<rparr>"

definition oauth_start_state :: "oauth_run \<Rightarrow> bool" where
  "oauth_start_state r \<longleftrightarrow> od_events (or_db r) = [] \<and> or_log r = []"

definition oauth_inv :: "oauth_run \<Rightarrow> bool" where
  "oauth_inv r \<longleftrightarrow>
     oauth_quota.quota_inv (od_events (or_db r)) (or_log r) (or_clock r) (od_next (or_db r))"

definition new_oauth_event :: "string \<Rightarrow> millis \<Rightarrow> nat \<Rightarrow> oauth_event" where
  "new_oauth_event key now n = \<lparr>oe_id = n, oe_client = key, oe_occurred = now,
     oe_expires = now + oauth_retention_ms\<rparr>"

lemma new_oauth_event_simps [simp]:
  "oe_id (new_oauth_event key t n) = n" "oe_occurred (new_oauth_event key t n) = t"
  "oauth_lawful (new_oauth_event key t n)"
  by (simp_all add: new_oauth_event_def oauth_lawful_def)

definition oauth_below :: "string option \<Rightarrow> millis \<Rightarrow> oauth_event list \<Rightarrow> bool" where
  "oauth_below c t rows \<longleftrightarrow>
     length (filter (\<lambda>x. oauth_counted c x \<and> oauth_alive c t x) rows) < oauth_limit c"

lemma oauth_selections:
  "(\<lambda>e. oe_client e = key \<and> oe_occurred e \<ge> t - oauth_window_ms)
     = (\<lambda>x. oauth_counted (Some key) x \<and> oauth_alive (Some key) t x)"
  "(\<lambda>e. oe_occurred e \<ge> t - oauth_window_ms)
     = (\<lambda>x. oauth_counted None x \<and> oauth_alive None t x)"
  by (auto simp: oauth_counted_def oauth_alive_def)

lemma oauth_queries_cases:
  "(\<exists>r. oauth_start_queries key now db
      = (Some r, db\<lparr>od_events := oauth_cleanup now (od_events db)\<rparr>))
   \<or> oauth_start_queries key now db = (None, \<lparr>od_events = oauth_cleanup now (od_events db)
          @ [new_oauth_event key now (od_next db)], od_next = Suc (od_next db)\<rparr>)
     \<and> oauth_below (Some key) now (oauth_cleanup now (od_events db))
     \<and> oauth_below None now (oauth_cleanup now (od_events db))"
  unfolding oauth_start_queries_def Let_def oauth_selections oldest_rows_full oauth_below_def
  by (simp add: oauth_limit_def new_oauth_event_def)

text \<open>What one call leaves: the old rows, the cleaned rows, or the cleaned rows and one new event.\<close>

lemma oauth_consume_cases:
  assumes "consume_oauth_start_rate_limit fault key (Some now) db = (res, db')"
  shows "(res \<noteq> Inr () \<and> od_events db' = od_events db \<and> od_next db \<le> od_next db')
    \<or> (res \<noteq> Inr () \<and> db' = db\<lparr>od_events := oauth_cleanup now (od_events db)\<rparr>)
    \<or> (db' = \<lparr>od_events = oauth_cleanup now (od_events db)
            @ [new_oauth_event key now (od_next db)], od_next = Suc (od_next db)\<rparr>
       \<and> oauth_below (Some key) now (oauth_cleanup now (od_events db))
       \<and> oauth_below None now (oauth_cleanup now (od_events db)))"
  using assms oauth_queries_cases [of key now db]
  by (cases fault) (auto simp: consume_oauth_start_rate_limit_def split: if_splits)

lemma oauth_below_all:
  assumes "oauth_below (Some key) t rows" and "oauth_below None t rows"
    and "oauth_counted c (new_oauth_event key t n)"
  shows "length (filter (\<lambda>x. oauth_counted c x \<and> oauth_alive c t x) rows) < oauth_limit c"
  using assms by (cases c) (auto simp: oauth_below_def oauth_counted_def new_oauth_event_def)

lemma oauth_step_inv:
  assumes "oauth_inv r" and "oauth_step r r'"
  shows "oauth_inv r'"
  using assms(2)
proof (cases rule: oauth_step.cases)
  case (consume fault key now res db')
  let ?rows = "od_events (or_db r)" and ?log = "or_log r" and ?n = "od_next (or_db r)"
    and ?hw = "max (or_clock r) now"
  have inv: "oauth_quota.quota_inv ?rows ?log (or_clock r) ?n"
    using assms(1) by (simp add: oauth_inv_def)
  have same: "oauth_inv r'" if d: "oauth_quota.quota_inv (od_events db') ?log ?hw (od_next db')"
    and n: "new_oauth_events (or_db r) db' = []"
    using d n consume(1) by (simp add: oauth_inv_def)
  have cleaned: "oauth_quota.quota_inv (oauth_cleanup now ?rows) ?log ?hw ?n"
    by (rule oauth_quota.quota_cleanup [OF inv])
  from oauth_consume_cases [OF consume(2)] show ?thesis
  proof (elim disjE conjE)
    assume d: "od_events db' = ?rows" "?n \<le> od_next db'"
    show ?thesis
      by (rule same) (use inv d in \<open>auto simp: new_oauth_events_def
          intro: oauth_quota.quota_mono oauth_quota.quota_fresh\<close>)
  next
    assume "db' = (or_db r)\<lparr>od_events := oauth_cleanup now ?rows\<rparr>"
    then show ?thesis
      by (intro same) (use cleaned in \<open>auto simp: new_oauth_events_def
          intro: oauth_quota.quota_fresh\<close>)
  next
    assume d: "db' = \<lparr>od_events = oauth_cleanup now ?rows @ [new_oauth_event key now ?n],
        od_next = Suc ?n\<rparr>"
      and b: "oauth_below (Some key) now (oauth_cleanup now ?rows)"
        "oauth_below None now (oauth_cleanup now ?rows)"
    have "oauth_quota.quota_inv (oauth_cleanup now ?rows @ [new_oauth_event key now ?n])
        (?log @ [new_oauth_event key now ?n]) ?hw (Suc ?n)"
      by (rule oauth_quota.quota_admit [OF cleaned])
        (use consume(3) oauth_below_all [OF b] in simp_all)
    moreover have "new_oauth_events (or_db r) db' = [new_oauth_event key now ?n]"
      using oauth_quota.quota_fresh [OF cleaned order_refl] by (simp add: new_oauth_events_def d)
    ultimately show ?thesis
      using consume(1) d by (simp add: oauth_inv_def)
  qed
qed

interpretation oauth_runs: invariant_system oauth_start_state oauth_step oauth_inv
proof
  show "oauth_start_state r \<Longrightarrow> oauth_inv r" for r
    using oauth_quota.quota_init by (simp add: oauth_start_state_def oauth_inv_def)
qed (rule oauth_step_inv)

text \<open>At most four OAuth starts of one client and six hundred of all clients are let through
  in any five minutes, over every sequence of requests and database faults, although the clocks
  of the requests need not agree: it is enough that none is five minutes behind another's.\<close>

theorem oauth_start_quota_is_never_exceeded:
  assumes "oauth_start_state r0" and "oauth_step\<^sup>*\<^sup>* r0 r"
  shows "length (filter (\<lambda>e. oe_client e = key \<and> t - 300000 \<le> oe_occurred e \<and> oe_occurred e \<le> t)
        (or_log r)) \<le> 4
    \<and> length (filter (\<lambda>e. t - 300000 \<le> oe_occurred e \<and> oe_occurred e \<le> t) (or_log r)) \<le> 600
    \<and> (consume_oauth_start_rate_limit fault key (Some now) (or_db r) = (Inr (), db') \<longrightarrow>
        new_oauth_events (or_db r) db' = [new_oauth_event key now (od_next (or_db r))])"
proof -
  have inv: "oauth_quota.quota_inv (od_events (or_db r)) (or_log r) (or_clock r) (od_next (or_db r))"
    using oauth_runs.inv_reachable [OF assms] by (simp add: oauth_inv_def)
  have w: "oauth_quota.in_window (Some key) t
      = (\<lambda>e. oe_client e = key \<and> t - 300000 \<le> oe_occurred e \<and> oe_occurred e \<le> t)"
    "oauth_quota.in_window None t = (\<lambda>e. t - 300000 \<le> oe_occurred e \<and> oe_occurred e \<le> t)"
    by (auto simp: fun_eq_iff oauth_quota.in_window_def oauth_counted_def oauth_alive_def
        oauth_constants)
  have "new_oauth_events (or_db r) db' = [new_oauth_event key now (od_next (or_db r))]"
    if "consume_oauth_start_rate_limit fault key (Some now) (or_db r) = (Inr (), db')"
    using oauth_consume_cases [OF that] oauth_quota.quota_fresh
      [OF oauth_quota.quota_cleanup [OF inv, of now] order_refl]
    by (auto simp: new_oauth_events_def)
  then show ?thesis
    using oauth_quota.quota_kept [OF inv, of "Some key" t, unfolded w]
      oauth_quota.quota_kept [OF inv, of None t, unfolded w]
    by (simp add: oauth_limit_def oauth_constants)
qed

section \<open>Witnesses\<close>

lemma delete_nothing:
  "\<forall>e\<in>set rows. now < expires e \<Longrightarrow> delete_oldest n ident expires now rows = rows"
proof -
  assume "\<forall>e\<in>set rows. now < expires e"
  then have "filter (\<lambda>e. expires e \<le> now) rows = []"
    by (auto simp: filter_empty_conv)
  then show ?thesis by (simp add: delete_oldest_def)
qed

definition demo_key :: string where "demo_key = replicate 64 (CHR ''a'')"

text \<open>The table after \<open>k\<close> sign-ups of one subject, one every microsecond.\<close>

definition demo_signups :: "nat \<Rightarrow> rate_db" where
  "demo_signups k = \<lparr>rd_events = map (\<lambda>i. new_rate_event Closed_beta_signup demo_key (int i) i) [0..<k],
     rd_next = k\<rparr>"

definition demo_signup_run :: "nat \<Rightarrow> rate_run" where
  "demo_signup_run k = \<lparr>rr_db = demo_signups k, rr_log = rd_events (demo_signups k), rr_clock = int k - 1\<rparr>"

lemma demo_action: "parse_web_action ''closed_beta_signup'' = Some Closed_beta_signup"
  "subject_key_hash_ok demo_key"
  "web_request_rate_limit_policies Closed_beta_signup = rate_policy 5 1000 600"
  by (simp_all add: parse_web_action_def web_actions_def) (code_simp)

lemma demo_signups_length: "length (rd_events (demo_signups k)) = k"
  by (simp add: demo_signups_def)

lemma demo_cleanup: "k \<le> 10 \<Longrightarrow> t \<le> 10 \<Longrightarrow> rate_cleanup t (rd_events (demo_signups k)) = rd_events (demo_signups k)"
  unfolding rate_cleanup_def
  by (rule delete_nothing) (auto simp: demo_signups_def new_rate_event_def demo_action(3) rate_policy_def)

lemma demo_signup:
  assumes "k < 5"
  shows "consume_web_request_rate_limit No_fault (int k) (int k) ''closed_beta_signup'' demo_key
    (demo_signups k) = (Inr (), demo_signups (Suc k))"
proof -
  have few: "length (filter Q (rd_events (demo_signups k))) < 5" for Q
    using assms length_filter_le [of Q "rd_events (demo_signups k)"] demo_signups_length [of k]
    by linarith
  have "below_limit Closed_beta_signup s (int k) (rd_events (demo_signups k))" for s
    unfolding below_limit_def
    by (rule less_le_trans [OF few]) (simp add: rate_limit_def demo_action(3) rate_policy_def
        split: option.split)
  moreover have "(demo_signups k)\<lparr>rd_events := rd_events (demo_signups k)\<rparr> = demo_signups k"
    by simp
  ultimately have "reserve_web_request_rate_limit (int k) (int k) ''closed_beta_signup'' demo_key (demo_signups k)
      = (Inr (), demo_signups (Suc k))"
    using rate_decision_admits [of Closed_beta_signup demo_key "int k" "demo_signups k"] assms
      demo_cleanup [of k "int k"]
    by (simp add: reserve_web_request_rate_limit_def demo_action(1,2)) (simp add: demo_signups_def)
  then show ?thesis
    by (simp add: consume_web_request_rate_limit_def)
qed

lemma demo_signup_step: "k < 5 \<Longrightarrow> rate_step (demo_signup_run k) (demo_signup_run (Suc k))"
proof -
  assume "k < 5"
  have "consume_web_request_rate_limit No_fault (int k) (int k) ''closed_beta_signup'' demo_key
      (rr_db (demo_signup_run k)) = (Inr (), demo_signups (Suc k))"
    using demo_signup [OF \<open>k < 5\<close>] by (simp add: demo_signup_run_def)
  moreover have "new_rate_events (demo_signups k) (demo_signups (Suc k))
      = [new_rate_event Closed_beta_signup demo_key (int k) k]"
    by (simp add: new_rate_events_def demo_signups_def filter_map comp_def)
  ultimately have "rate_step (demo_signup_run k) \<lparr>rr_db = demo_signups (Suc k),
      rr_log = rr_log (demo_signup_run k) @ [new_rate_event Closed_beta_signup demo_key (int k) k],
      rr_clock = int k\<rparr>"
    using rate_step.consume [of No_fault "int k" "int k" "''closed_beta_signup''" demo_key
        "demo_signup_run k" "Inr ()" "demo_signups (Suc k)"]
    by (simp add: demo_signup_run_def)
  then show ?thesis
    by (simp add: demo_signup_run_def demo_signups_def)
qed

lemma demo_signups_reachable:
  "rate_start (demo_signup_run 0)" "k \<le> 5 \<Longrightarrow> rate_step\<^sup>*\<^sup>* (demo_signup_run 0) (demo_signup_run k)"
proof -
  show "rate_start (demo_signup_run 0)"
    by (simp add: rate_start_def demo_signup_run_def demo_signups_def)
  show "k \<le> 5 \<Longrightarrow> rate_step\<^sup>*\<^sup>* (demo_signup_run 0) (demo_signup_run k)"
  proof (induction k)
    case (Suc k)
    then show ?case
      using demo_signup_step [of k] by (simp add: rtranclp.rtrancl_into_rtrancl)
  qed simp
qed

theorem web_quota_is_never_exceeded_witness:
  "length (rr_log (demo_signup_run 5)) = 5
   \<and> length (filter (\<lambda>e. re_action e = Closed_beta_signup \<and> re_subject e = demo_key
        \<and> 4 - 600 * 1000000 < re_occurred e \<and> re_occurred e \<le> 4) (rr_log (demo_signup_run 5))) \<le> 5"
  using web_quota_is_never_exceeded [OF demo_signups_reachable(1) demo_signups_reachable(2) [of 5],
      of Closed_beta_signup demo_key 4]
  by (simp add: demo_signup_run_def demo_signups_length demo_action(3) rate_policy_def)

lemma demo_sixth_signup:
  "\<exists>n. consume_web_request_rate_limit No_fault 5 5 ''closed_beta_signup'' demo_key (demo_signups 5)
     = (Inl (Rate_limited n), demo_signups 5)"
proof -
  let ?c = "(Closed_beta_signup, Some demo_key)"
  have "list_all (\<lambda>x. rate_counted ?c x \<and> rate_alive ?c 5 x) (rd_events (demo_signups 5))"
    by (simp add: demo_signups_def list_all_iff rate_counted_def rate_alive_def rate_window_def
        demo_action(3) rate_policy_def new_rate_event_def)
  then have "\<not> below_limit Closed_beta_signup (Some demo_key) 5 (rd_events (demo_signups 5))"
    using demo_signups_length [of 5]
    by (simp add: below_limit_def rate_limit_def demo_action(3) rate_policy_def list_all_iff
        filter_True)
  then obtain n where d: "rate_decision Closed_beta_signup demo_key
      (web_request_rate_limit_policies Closed_beta_signup) 5 (demo_signups 5) = (Some n, demo_signups 5)"
    using rate_decision_refuses by blast
  have "rate_inv (demo_signup_run 5)"
    by (rule rate_runs.inv_reachable [OF demo_signups_reachable]) simp
  then have "1 \<le> n \<and> n \<le> 600"
    using rate_wait [OF d _ _ order_refl, of "rr_log (demo_signup_run 5)" 4]
    by (force simp: rate_inv_def demo_signup_run_def demo_action(3) rate_policy_def)
  then have "reserve_web_request_rate_limit 5 5 ''closed_beta_signup'' demo_key (demo_signups 5)
      = (Inl (Rate_limited n), demo_signups 5)"
    using demo_cleanup [of 5 5] d [unfolded demo_action(3)]
    by (simp add: reserve_web_request_rate_limit_def demo_action Let_def rate_policy_def
        is_safe_integer_def max_safe_integer_def)
  then show ?thesis
    by (simp add: consume_web_request_rate_limit_def)
qed

theorem waiting_is_enough_witness:
  "\<exists>n. consume_web_request_rate_limit No_fault 5 5 ''closed_beta_signup'' demo_key (demo_signups 5)
      = (Inl (Rate_limited n), demo_signups 5) \<and> n \<le> 600
    \<and> fst (consume_web_request_rate_limit No_fault 5 (5 + n * 1000000) ''closed_beta_signup'' demo_key
        (demo_signups 5)) = Inr ()"
proof -
  obtain n where n: "consume_web_request_rate_limit No_fault 5 5 ''closed_beta_signup'' demo_key
      (rr_db (demo_signup_run 5)) = (Inl (Rate_limited n), demo_signups 5)"
    using demo_sixth_signup by (auto simp: demo_signup_run_def)
  have "rr_clock (demo_signup_run 5) \<le> 5"
    by (simp add: demo_signup_run_def)
  from waiting_is_enough [OF demo_signups_reachable(1) demo_signups_reachable(2) this _ n order_refl, of 5]
  show ?thesis
    using n by (auto simp: demo_signup_run_def)
qed

definition demo_oauth :: oauth_db where "demo_oauth = \<lparr>od_events = [], od_next = 0\<rparr>"

definition demo_oauth_next :: "(oauth_start_error + unit) \<times> oauth_db" where
  "demo_oauth_next = consume_oauth_start_rate_limit No_fault demo_key (Some 1000) demo_oauth"

theorem oauth_start_quota_is_never_exceeded_witness:
  "length (filter (\<lambda>e. 1000 - 300000 \<le> oe_occurred e \<and> oe_occurred e \<le> 1000)
     (new_oauth_events demo_oauth (snd demo_oauth_next))) \<le> 600"
proof -
  let ?r = "\<lparr>or_db = demo_oauth, or_log = [], or_clock = 0\<rparr>"
  obtain res db' where d: "demo_oauth_next = (res, db')" by (cases demo_oauth_next)
  have "oauth_step ?r \<lparr>or_db = db', or_log = or_log ?r @ new_oauth_events (or_db ?r) db',
      or_clock = max (or_clock ?r) 1000\<rparr>"
    by (rule oauth_step.consume [of No_fault demo_key 1000 _ res])
      (use d in \<open>simp_all add: demo_oauth_next_def\<close>)
  then have run: "oauth_step\<^sup>*\<^sup>* ?r \<lparr>or_db = db', or_log = new_oauth_events demo_oauth db', or_clock = 1000\<rparr>"
    by (simp add: r_into_rtranclp)
  have start: "oauth_start_state ?r"
    by (simp add: oauth_start_state_def demo_oauth_def)
  show ?thesis
    unfolding d snd_conv
    using oauth_start_quota_is_never_exceeded [OF start run, of demo_key 1000,
        THEN conjunct2, THEN conjunct1] by simp
qed

end
