(* ===== verification/Js_Text.thy ===== *)
theory Js_Text
  imports Json "HOL-Library.Char_ord" "HOL-Library.List_Lexorder"
begin

text \<open>
  The string operations of JavaScript that the analyzer and the planner use: splitting, joining,
  prefixes, the order of \<open>Array.prototype.sort\<close> on strings (code units, which is the order of
  \<open>List_Lexorder\<close>), \<open>String(n)\<close>, and \<open>RegExp.test\<close> for the patterns they contain. A pattern is
  matched by listing every way it can continue from a position, which is all that \<open>test\<close> asks.
\<close>

section \<open>Strings\<close>

fun split_on :: "char \<Rightarrow> string \<Rightarrow> string list" where
  "split_on c [] = [[]]"
| "split_on c (x # s) =
     (if x = c then [] # split_on c s
      else (case split_on c s of h # t \<Rightarrow> (x # h) # t | [] \<Rightarrow> [[x]]))"

fun join_with :: "string \<Rightarrow> string list \<Rightarrow> string" where
  "join_with sep [] = []"
| "join_with sep [s] = s"
| "join_with sep (s # t # r) = s @ sep @ join_with sep (t # r)"

definition starts_with :: "string \<Rightarrow> string \<Rightarrow> bool" where
  "starts_with p s \<longleftrightarrow> take (length p) s = p"

definition string_of_int :: "int \<Rightarrow> string" where
  "string_of_int n = json_number n"

definition ends_with :: "string \<Rightarrow> string \<Rightarrow> bool" where
  "ends_with p s \<longleftrightarrow> starts_with (rev p) (rev s)"

fun occurs_in :: "string \<Rightarrow> string \<Rightarrow> bool" where
  "occurs_in p [] = (p = [])"
| "occurs_in p (c # s) = (starts_with p (c # s) \<or> occurs_in p s)"

text \<open>\<open>toLowerCase()\<close> on code units up to U+00FF.\<close>

definition lower_char :: "char \<Rightarrow> char" where
  "lower_char c = (let n = (of_char c :: nat) in
     if (65 \<le> n \<and> n \<le> 90) \<or> (192 \<le> n \<and> n \<le> 222 \<and> n \<noteq> 215) then char_of (n + 32) else c)"

lemma occurs_in_iff: "occurs_in p s \<longleftrightarrow> (\<exists>u v. s = u @ p @ v)"
proof (induction s)
  case (Cons c s)
  have "starts_with p (c # s) \<longleftrightarrow> (\<exists>v. c # s = p @ v)"
    by (metis append_eq_conv_conj append_take_drop_id starts_with_def)
  then show ?case
    using Cons by (auto simp: Cons_eq_append_conv)
qed auto

lemma split_on_ne [simp]: "split_on c s \<noteq> []"
  by (induction s) (auto split: list.split)

section \<open>Regular expressions\<close>

datatype char_class = Only "char list" | All_but "char list"

fun in_class :: "char_class \<Rightarrow> char \<Rightarrow> bool" where
  "in_class (Only cs) c = (c \<in> set cs)"
| "in_class (All_but cs) c = (c \<notin> set cs)"

datatype regex =
  Class char_class | Many char_class | Seq regex regex | Alt regex regex
| Nothing | Start_of_input | End_of_input | Word_boundary

definition other_case :: "(char \<times> char) list" where
  "other_case = zip ''abcdefghijklmnopqrstuvwxyz'' ''ABCDEFGHIJKLMNOPQRSTUVWXYZ''"

definition both_cases :: "char \<Rightarrow> char list" where
  "both_cases c = (case map_of other_case c of None \<Rightarrow> [c] | Some d \<Rightarrow> [c, d])"

definition exactly :: "string \<Rightarrow> regex" where
  "exactly s = foldr (\<lambda>c. Seq (Class (Only [c]))) s Nothing"

text \<open>A literal under the flag \<open>i\<close>, for literals without upper-case letters.\<close>

definition ignoring_case :: "string \<Rightarrow> regex" where
  "ignoring_case s = foldr (\<lambda>c. Seq (Class (Only (both_cases c)))) s Nothing"

definition any_of :: "regex list \<Rightarrow> regex" where
  "any_of rs = foldr Alt (butlast rs) (last rs)"

definition in_order :: "regex list \<Rightarrow> regex" where
  "in_order rs = foldr Seq rs Nothing"

definition optionally :: "regex \<Rightarrow> regex" where
  "optionally r = Alt r Nothing"

definition word_char :: "char \<Rightarrow> bool" where
  "word_char c \<longleftrightarrow> c \<in> set ''ABCDEFGHIJKLMNOPQRSTUVWXYZabcdefghijklmnopqrstuvwxyz0123456789_''"

fun word_at :: "char option \<Rightarrow> bool" where
  "word_at None = False"
| "word_at (Some c) = word_char c"

text \<open>A position is the character before it and the rest of the input.\<close>

type_synonym position = "char option \<times> string"

fun many_ends :: "char_class \<Rightarrow> string \<Rightarrow> position list" where
  "many_ends p [] = []"
| "many_ends p (c # s) = (if in_class p c then (Some c, s) # many_ends p s else [])"

fun ends :: "regex \<Rightarrow> position \<Rightarrow> position list" where
  "ends (Class p) (b, s) = (case s of [] \<Rightarrow> [] | c # t \<Rightarrow> if in_class p c then [(Some c, t)] else [])"
| "ends (Many p) (b, s) = many_ends p s"
| "ends (Seq r q) x = concat (map (ends q) (ends r x))"
| "ends (Alt r q) x = ends r x @ ends q x"
| "ends Nothing x = [x]"
| "ends Start_of_input (b, s) = (if b = None then [(b, s)] else [])"
| "ends End_of_input (b, s) = (if s = [] then [(b, s)] else [])"
| "ends Word_boundary (b, s) =
     (if word_at b \<noteq> word_at (case s of [] \<Rightarrow> None | c # _ \<Rightarrow> Some c) then [(b, s)] else [])"

fun regex_from :: "regex \<Rightarrow> position \<Rightarrow> bool" where
  "regex_from r (b, []) = (ends r (b, []) \<noteq> [])"
| "regex_from r (b, c # s) = (ends r (b, c # s) \<noteq> [] \<or> regex_from r (Some c, s))"

definition regex_test :: "regex \<Rightarrow> string \<Rightarrow> bool" where
  "regex_test r s = regex_from r (None, s)"

text \<open>White space, and the start and end of a path segment.\<close>

definition white_space :: char_class where
  "white_space = Only js_whitespace"

definition segment_start :: regex where
  "segment_start = Alt Start_of_input (exactly ''/'')"

definition segment_end :: regex where
  "segment_end = Alt (exactly ''/'') End_of_input"

end
