(* ===== verification/Diff_Analysis.thy ===== *)
theory Diff_Analysis
  imports Js_Text Primitives
begin

text \<open>
  The bounded analysis of a pull request patch (\<open>packages/analysis/src/schema.ts\<close> and
  \<open>analyze.ts\<close>): the schemas as predicates, the hunk parser, the bounded loop over the files,
  the signals, and the risk vector with its class.
\<close>

section \<open>Schemas\<close>

definition length_in :: "nat \<Rightarrow> nat \<Rightarrow> string \<Rightarrow> bool" where
  "length_in lo hi s \<longleftrightarrow> lo \<le> length s \<and> length s \<le> hi"

definition int_in :: "int \<Rightarrow> int \<Rightarrow> int \<Rightarrow> bool" where
  "int_in lo hi n \<longleftrightarrow> lo \<le> n \<and> n \<le> hi"

definition nonnegative_int :: "int \<Rightarrow> bool" where
  "nonnegative_int n \<longleftrightarrow> is_safe_integer n \<and> 0 \<le> n"

datatype file_kind = Text_file | Binary_file | Symlink_file

record patch_file =
  pf_path :: string
  pf_previousPath :: "string option"
  pf_kind :: file_kind
  pf_patch :: "string option"
  pf_additions :: int
  pf_deletions :: int

definition patch_path_ok :: "string \<Rightarrow> bool" where
  "patch_path_ok p \<longleftrightarrow> length_in 1 1024 p \<and> CHR 0x00 \<notin> set p"

definition patch_file_ok :: "patch_file \<Rightarrow> bool" where
  "patch_file_ok f \<longleftrightarrow>
     patch_path_ok (pf_path f)
     \<and> (case pf_previousPath f of None \<Rightarrow> True | Some p \<Rightarrow> patch_path_ok p)
     \<and> nonnegative_int (pf_additions f) \<and> nonnegative_int (pf_deletions f)
     \<and> \<not> (pf_kind f = Text_file \<and> pf_patch f = None)
     \<and> \<not> (pf_kind f \<noteq> Text_file \<and> pf_patch f \<noteq> None)"

record pull_request_patch =
  pr_baseSha :: string
  pr_headSha :: string
  pr_files :: "patch_file list"

definition pull_request_patch_ok :: "pull_request_patch \<Rightarrow> bool" where
  "pull_request_patch_ok p \<longleftrightarrow>
     git_sha_ok (pr_baseSha p) \<and> git_sha_ok (pr_headSha p)
     \<and> list_all patch_file_ok (pr_files p) \<and> length (pr_files p) \<le> 10000"

record analysis_limits =
  al_maximumFiles :: nat
  al_maximumPatchBytes :: int
  al_maximumFilePatchBytes :: int
  al_maximumChangedLines :: int
  al_megaFileThreshold :: int

definition analysis_limits_ok :: "analysis_limits \<Rightarrow> bool" where
  "analysis_limits_ok l \<longleftrightarrow>
     int_in 1 2000 (int (al_maximumFiles l)) \<and> int_in 1024 20000000 (al_maximumPatchBytes l)
     \<and> int_in 512 2000000 (al_maximumFilePatchBytes l)
     \<and> int_in 10 100000 (al_maximumChangedLines l) \<and> int_in 10 2000 (al_megaFileThreshold l)"

definition default_analysis_limits :: analysis_limits where
  "default_analysis_limits = \<lparr>al_maximumFiles = 200, al_maximumPatchBytes = 1000000,
     al_maximumFilePatchBytes = 256000, al_maximumChangedLines = 5000, al_megaFileThreshold = 80\<rparr>"

record diff_anchor =
  da_id :: string
  da_file :: string
  da_hunkHeader :: string
  da_oldStart :: int
  da_newStart :: int
  da_changedLines :: int
  da_evidence :: string

definition anchor_id_ok :: "string \<Rightarrow> bool" where
  "anchor_id_ok s \<longleftrightarrow> length s \<ge> 2 \<and> hd s = CHR ''a'' \<and> all_in ''0123456789'' (tl s)"

definition diff_anchor_ok :: "diff_anchor \<Rightarrow> bool" where
  "diff_anchor_ok a \<longleftrightarrow>
     anchor_id_ok (da_id a) \<and> length_in 1 1024 (da_file a) \<and> length_in 1 500 (da_hunkHeader a)
     \<and> nonnegative_int (da_oldStart a) \<and> nonnegative_int (da_newStart a)
     \<and> is_safe_integer (da_changedLines a) \<and> 0 < da_changedLines a \<and> length_in 1 500 (da_evidence a)"

record changed_area =
  ca_area :: string
  ca_files :: "string list"

definition changed_area_ok :: "changed_area \<Rightarrow> bool" where
  "changed_area_ok a \<longleftrightarrow>
     length_in 1 100 (ca_area a) \<and> list_all (length_in 1 1024) (ca_files a) \<and> 1 \<le> length (ca_files a)"

record behavioral_change =
  bc_kind :: string
  bc_description :: string
  bc_anchorId :: string

definition behavior_kinds :: "string list" where
  "behavior_kinds = [''behavior'', ''api'', ''authentication'', ''authorization'', ''database'',
     ''migration'', ''concurrency'', ''configuration'', ''dependency'', ''test'']"

definition behavioral_change_ok :: "behavioral_change \<Rightarrow> bool" where
  "behavioral_change_ok c \<longleftrightarrow> bc_kind c \<in> set behavior_kinds
     \<and> length_in 1 300 (bc_description c) \<and> anchor_id_ok (bc_anchorId c)"

record risk_signal =
  rs_kind :: string
  rs_severity :: string
  rs_reason :: string
  rs_anchorId :: string

definition risk_kinds :: "string list" where
  "risk_kinds = [''authentication'', ''authorization'', ''migration'', ''concurrency'',
     ''public_api'', ''configuration'', ''dependency'', ''untested_behavior'']"

definition risk_signal_ok :: "risk_signal \<Rightarrow> bool" where
  "risk_signal_ok r \<longleftrightarrow> rs_kind r \<in> set risk_kinds
     \<and> rs_severity r \<in> {''low'', ''medium'', ''high''}
     \<and> length_in 1 300 (rs_reason r) \<and> anchor_id_ok (rs_anchorId r)"

record test_signal =
  ts_kind :: string
  ts_description :: string
  ts_anchorId :: "string option"

definition test_signal_ok :: "test_signal \<Rightarrow> bool" where
  "test_signal_ok t \<longleftrightarrow> ts_kind t \<in> {''tests_changed'', ''no_tests_changed''}
     \<and> length_in 1 300 (ts_description t)
     \<and> (case ts_anchorId t of None \<Rightarrow> True | Some i \<Rightarrow> anchor_id_ok i)"

datatype risk_level = Small | Medium | High_risk | Mega

fun risk_level_name :: "risk_level \<Rightarrow> string" where
  "risk_level_name Small = ''small''"
| "risk_level_name Medium = ''medium''"
| "risk_level_name High_risk = ''high_risk''"
| "risk_level_name Mega = ''mega''"

record risk_vector =
  rv_scope :: int
  rv_sensitiveSurface :: int
  rv_migration :: int
  rv_concurrency :: int
  rv_testGap :: int
  rv_unverifiable :: int
  rv_total :: int

definition risk_vector_ok :: "risk_vector \<Rightarrow> bool" where
  "risk_vector_ok v \<longleftrightarrow>
     int_in 0 5 (rv_scope v) \<and> int_in 0 5 (rv_sensitiveSurface v) \<and> int_in 0 5 (rv_migration v)
     \<and> int_in 0 5 (rv_concurrency v) \<and> int_in 0 3 (rv_testGap v) \<and> int_in 0 5 (rv_unverifiable v)
     \<and> nonnegative_int (rv_total v)"

record analysis_snapshot =
  as_schemaVersion :: string
  as_analyzerVersion :: string
  as_baseSha :: string
  as_headSha :: string
  as_summary :: string
  as_riskLevel :: risk_level
  as_riskVector :: risk_vector
  as_changedAreas :: "changed_area list"
  as_behavioralChanges :: "behavioral_change list"
  as_risks :: "risk_signal list"
  as_testSignals :: "test_signal list"
  as_anchors :: "diff_anchor list"
  as_generatedFiles :: "string list"
  as_lockfiles :: "string list"
  as_binaryFiles :: "string list"
  as_symlinks :: "string list"
  as_unusualPaths :: "string list"
  as_limitsHit :: "string list"
  as_analyzedFileCount :: int
  as_nonGeneratedChangedLines :: int
  as_generatedChangedLines :: int

definition limit_names :: "string list" where
  "limit_names = [''file_count'', ''total_patch_bytes'', ''file_patch_bytes'', ''changed_lines'',
     ''generated_patch_skipped'']"

definition analysis_snapshot_ok :: "analysis_snapshot \<Rightarrow> bool" where
  "analysis_snapshot_ok s \<longleftrightarrow>
     as_schemaVersion s = ''1'' \<and> as_analyzerVersion s = ''bounded-diff-v1''
     \<and> git_sha_ok (as_baseSha s) \<and> git_sha_ok (as_headSha s) \<and> length_in 1 500 (as_summary s)
     \<and> risk_vector_ok (as_riskVector s) \<and> list_all changed_area_ok (as_changedAreas s)
     \<and> list_all behavioral_change_ok (as_behavioralChanges s) \<and> list_all risk_signal_ok (as_risks s)
     \<and> list_all test_signal_ok (as_testSignals s) \<and> list_all diff_anchor_ok (as_anchors s)
     \<and> list_all (length_in 1 1024) (as_generatedFiles s) \<and> list_all (length_in 1 1024) (as_lockfiles s)
     \<and> list_all (length_in 1 1024) (as_binaryFiles s) \<and> list_all (length_in 1 1024) (as_symlinks s)
     \<and> list_all (length_in 1 1024) (as_unusualPaths s)
     \<and> list_all (\<lambda>l. l \<in> set limit_names) (as_limitsHit s)
     \<and> nonnegative_int (as_analyzedFileCount s) \<and> nonnegative_int (as_nonGeneratedChangedLines s)
     \<and> nonnegative_int (as_generatedChangedLines s)"

section \<open>Paths\<close>

definition generated_patterns :: "regex list" where
  "generated_patterns = [
     Seq segment_start (ignoring_case ''dist/''),
     Seq segment_start (ignoring_case ''build/''),
     Seq segment_start (ignoring_case ''generated/''),
     in_order [segment_start, ignoring_case ''__generated__'', segment_end],
     Seq segment_start (ignoring_case ''vendor/''),
     ignoring_case ''.generated.'',
     in_order [ignoring_case ''.gen.'', Many (All_but ''/''), End_of_input],
     Seq (ignoring_case ''.g.dart'') End_of_input,
     in_order [ignoring_case ''.pb.'',
       any_of (map ignoring_case [''go'', ''cc'', ''h'', ''py'', ''ts'']), End_of_input],
     Seq (ignoring_case ''_generated.go'') End_of_input,
     in_order [ignoring_case ''.min.'', any_of (map ignoring_case [''js'', ''css'']), End_of_input],
     Seq segment_start (ignoring_case ''coverage/'')]"

definition lockfile_patterns :: "regex list" where
  "lockfile_patterns =
     map (\<lambda>r. in_order [segment_start, r, End_of_input]) [
       exactly ''package-lock.json'', exactly ''pnpm-lock.yaml'', exactly ''yarn.lock'',
       Seq (exactly ''bun.lock'') (optionally (exactly ''b'')),
       exactly ''Cargo.lock'', exactly ''poetry.lock'', exactly ''Gemfile.lock'',
       exactly ''composer.lock'', exactly ''Pipfile.lock'', exactly ''uv.lock'',
       exactly ''flake.lock'', exactly ''pubspec.lock'', exactly ''packages.lock.json'',
       exactly ''gradle.lockfile'',
       in_order [exactly ''gradle/dependency-locks/'', Many (All_but ''/''), exactly ''.lockfile''],
       exactly ''go.sum'']"

definition is_generated :: "string \<Rightarrow> bool" where
  "is_generated path \<longleftrightarrow> list_ex (\<lambda>p. regex_test p path) generated_patterns"

definition is_lockfile :: "string \<Rightarrow> bool" where
  "is_lockfile path \<longleftrightarrow> list_ex (\<lambda>p. regex_test p path) lockfile_patterns"

definition is_test_file :: "string \<Rightarrow> bool" where
  "is_test_file path \<longleftrightarrow> regex_test
     (Alt (in_order [segment_start,
             any_of (map ignoring_case [''test'', ''tests'', ''__tests__'']), segment_end])
          (in_order [exactly ''.'', any_of (map ignoring_case [''test'', ''spec'']), exactly ''.'',
             Many (All_but ''.''), End_of_input])) path"

definition is_unusual_path :: "string \<Rightarrow> bool" where
  "is_unusual_path path \<longleftrightarrow>
     starts_with ''/'' path \<or> ''..'' \<in> set (split_on (CHR ''/'') path)
     \<or> list_ex (\<lambda>c. c \<in> {CHR 0x0D, CHR 0x0A}) path \<or> starts_with ''-'' path
     \<or> list_ex (\<lambda>c. let n = (of_char c :: nat) in 1 \<le> n \<and> n \<le> 31 \<or> n = 127) path"

definition area_for :: "string \<Rightarrow> string" where
  "area_for path =
     (let clean = (if starts_with ''./'' path then drop 2 path else path);
          segments = split_on (CHR ''/'') clean in
      if length segments > 1 then hd segments
      else if CHR ''.'' \<in> set clean then last (split_on (CHR ''.'') clean) @ '' files''
      else ''root'')"

section \<open>Hunks\<close>

definition digit_char :: "char \<Rightarrow> bool" where
  "digit_char c \<longleftrightarrow> c \<in> set ''0123456789''"

text \<open>\<open>HUNK_PATTERN\<close>. Every choice in it is decided by the next character, so matching is
  deterministic; the dot of its last group matches no line terminator.\<close>

definition take_digits :: "string \<Rightarrow> (string \<times> string) option" where
  "take_digits s = (if takeWhile digit_char s = [] then None
     else Some (takeWhile digit_char s, dropWhile digit_char s))"

definition skip_text :: "string \<Rightarrow> string \<Rightarrow> string option" where
  "skip_text p s = (if starts_with p s then Some (drop (length p) s) else None)"

definition skip_count :: "string \<Rightarrow> string option" where
  "skip_count s = (if starts_with '','' s
     then (case take_digits (tl s) of None \<Rightarrow> None | Some (_, r) \<Rightarrow> Some r) else Some s)"

definition match_hunk :: "string \<Rightarrow> (int \<times> int) option" where
  "match_hunk line =
     Option.bind (skip_text ''@@ -'' line) (\<lambda>s1.
     Option.bind (take_digits s1) (\<lambda>(old, s2).
     Option.bind (skip_count s2) (\<lambda>s3.
     Option.bind (skip_text '' +'' s3) (\<lambda>s4.
     Option.bind (take_digits s4) (\<lambda>(new, s5).
     Option.bind (skip_count s5) (\<lambda>s6.
     Option.bind (skip_text '' @@'' s6) (\<lambda>s7.
     if list_ex (\<lambda>c. c \<in> {CHR 0x0A, CHR 0x0D}) s7 then None
     else Some (int (decimal_value old), int (decimal_value new)))))))))"

definition compact_evidence :: "string list \<Rightarrow> string" where
  "compact_evidence lines =
     (let evidence = join_with '' | '' (take 3 (filter (\<lambda>l. l \<noteq> []) (map js_trim lines))) in
      take 500 (if evidence = [] then ''Changed lines in bounded patch hunk'' else evidence))"

record open_hunk =
  oh_header :: string
  oh_oldStart :: int
  oh_newStart :: int
  oh_changed :: "string list"

definition flush_hunk :: "string \<Rightarrow> nat \<Rightarrow> diff_anchor list \<Rightarrow> open_hunk option \<Rightarrow> diff_anchor list" where
  "flush_hunk path firstAnchorIndex anchors current =
     (case current of None \<Rightarrow> anchors
      | Some h \<Rightarrow> if oh_changed h = [] then anchors
        else anchors @ [\<lparr>da_id = ''a'' @ string_of_int (int (firstAnchorIndex + length anchors)),
               da_file = path, da_hunkHeader = take 500 (oh_header h),
               da_oldStart = oh_oldStart h, da_newStart = oh_newStart h,
               da_changedLines = int (length (oh_changed h)),
               da_evidence = compact_evidence (oh_changed h)\<rparr>])"

definition changed_line :: "string \<Rightarrow> bool" where
  "changed_line line \<longleftrightarrow>
     starts_with ''+'' line \<and> \<not> starts_with ''+++'' line
     \<or> starts_with ''-'' line \<and> \<not> starts_with ''---'' line"

definition read_line ::
  "string \<Rightarrow> nat \<Rightarrow> diff_anchor list \<times> open_hunk option \<Rightarrow> string \<Rightarrow> diff_anchor list \<times> open_hunk option" where
  "read_line path first st line = (case st of (anchors, current) \<Rightarrow>
     (case match_hunk line of
        Some (old, new) \<Rightarrow> (flush_hunk path first anchors current,
          Some \<lparr>oh_header = line, oh_oldStart = old, oh_newStart = new, oh_changed = []\<rparr>)
      | None \<Rightarrow>
        (case current of
           Some h \<Rightarrow> if changed_line line
             then (anchors, Some (h\<lparr>oh_changed := oh_changed h @ [drop 1 line]\<rparr>)) else (anchors, current)
         | None \<Rightarrow> (anchors, None))))"

definition parse_anchors :: "patch_file \<Rightarrow> nat \<Rightarrow> diff_anchor list" where
  "parse_anchors file firstAnchorIndex =
     (if pf_kind file \<noteq> Text_file then []
      else (case pf_patch file of None \<Rightarrow> []
        | Some patch \<Rightarrow>
          (case foldl (read_line (pf_path file) firstAnchorIndex) ([], None) (split_on (CHR 0x0A) patch) of
             (anchors, current) \<Rightarrow> flush_hunk (pf_path file) firstAnchorIndex anchors current)))"

end
