(* ===== verification/Analyzer.thy ===== *)
theory Analyzer
  imports Diff_Analysis
begin

text \<open>
  \<open>analyzePullRequestPatch\<close> of \<open>packages/analysis/src/analyze.ts\<close>: the loop over the files with
  its budgets, the signals of an anchor, and the snapshot. A \<open>Set\<close> is the list of its elements
  in insertion order.
\<close>

section \<open>Signals\<close>

record signal =
  sig_kind :: string
  sig_pattern :: regex
  sig_reason :: string
  sig_severity :: string

definition words :: "regex list \<Rightarrow> regex" where
  "words rs = in_order [Word_boundary, any_of rs, Word_boundary]"

definition gap :: regex where
  "gap = optionally (Class (Only ''_ -''))"

definition signals :: "signal list" where
  "signals = [
     \<lparr>sig_kind = ''authentication'',
      sig_pattern = words (map ignoring_case
        [''oauth'', ''login'', ''session'', ''authenticate'', ''credential'', ''token'']),
      sig_reason = ''Authentication behavior changes require explicit failure-path reasoning.'',
      sig_severity = ''high''\<rparr>,
     \<lparr>sig_kind = ''authorization'',
      sig_pattern = words (map ignoring_case
        [''authoriz'', ''permission'', ''maintainer'', ''role'', ''scope'']
        @ [in_order [ignoring_case ''access'', gap, ignoring_case ''control'']]),
      sig_reason = ''Authorization changes can alter who may perform a protected action.'',
      sig_severity = ''high''\<rparr>,
     \<lparr>sig_kind = ''migration'',
      sig_pattern = words [ignoring_case ''migration'',
        in_order [ignoring_case ''alter'', Many white_space, ignoring_case ''table''],
        in_order [ignoring_case ''create'', Many white_space, ignoring_case ''table''],
        in_order [ignoring_case ''drop'', Many white_space, ignoring_case ''column''],
        ignoring_case ''schema''],
      sig_reason = ''Database or migration changes need rollout and rollback reasoning.'',
      sig_severity = ''high''\<rparr>,
     \<lparr>sig_kind = ''concurrency'',
      sig_pattern = words (map ignoring_case
        [''transaction'', ''mutex'', ''semaphore'', ''lock'', ''race'', ''atomic'', ''concurr'',
         ''promise.all'', ''queue'']),
      sig_reason = ''Concurrency-sensitive behavior needs ordering and retry reasoning.'',
      sig_severity = ''high''\<rparr>,
     \<lparr>sig_kind = ''public_api'',
      sig_pattern = words (map ignoring_case [''route'', ''endpoint'', ''handler'']
        @ [in_order [ignoring_case ''public'', Many white_space, ignoring_case ''api'']]
        @ map ignoring_case [''request'', ''response'']),
      sig_reason = ''A public interface or request path changed.'', sig_severity = ''medium''\<rparr>,
     \<lparr>sig_kind = ''configuration'',
      sig_pattern = words (map ignoring_case [''config'', ''environment'', ''process.env'']
        @ [in_order [ignoring_case ''feature'', gap, ignoring_case ''flag'']]),
      sig_reason = ''Runtime configuration behavior changed.'', sig_severity = ''medium''\<rparr>,
     \<lparr>sig_kind = ''dependency'',
      sig_pattern = words (map ignoring_case [''dependency'', ''dependencies'', ''devdependencies'']),
      sig_reason = ''Dependency behavior or composition changed.'', sig_severity = ''medium''\<rparr>]"

section \<open>The bounded loop\<close>

record file_scan =
  fs_patchBytes :: int
  fs_changedLines :: int
  fs_anchors :: "diff_anchor list"
  fs_analyzed :: "patch_file list"
  fs_limitsHit :: "string list"
  fs_hardLimitHit :: bool

definition add_limit :: "string \<Rightarrow> string list \<Rightarrow> string list" where
  "add_limit l ls = (if l \<in> set ls then ls else ls @ [l])"

definition hit_limit :: "string \<Rightarrow> file_scan \<Rightarrow> file_scan" where
  "hit_limit l st = st\<lparr>fs_limitsHit := add_limit l (fs_limitsHit st), fs_hardLimitHit := True\<rparr>"

text \<open>\<open>anchorIndex\<close> is always the number of anchors.\<close>

fun scan_files :: "analysis_limits \<Rightarrow> file_scan \<Rightarrow> patch_file list \<Rightarrow> file_scan" where
  "scan_files limits st [] = st"
| "scan_files limits st (file # files) =
     (if pf_kind file \<noteq> Text_file \<or> pf_patch file = None
      then scan_files limits (st\<lparr>fs_analyzed := fs_analyzed st @ [file]\<rparr>) files
      else let fileBytes = int (length (utf8_bytes (the (pf_patch file)))) in
      if fileBytes > al_maximumFilePatchBytes limits
      then scan_files limits (hit_limit ''file_patch_bytes'' st) files
      else if fs_patchBytes st + fileBytes > al_maximumPatchBytes limits
      then hit_limit ''total_patch_bytes'' st
      else if fs_changedLines st + pf_additions file + pf_deletions file > al_maximumChangedLines limits
      then hit_limit ''changed_lines'' st
      else scan_files limits (st\<lparr>fs_patchBytes := fs_patchBytes st + fileBytes,
             fs_changedLines := fs_changedLines st + (pf_additions file + pf_deletions file),
             fs_anchors := fs_anchors st @ parse_anchors file (length (fs_anchors st)),
             fs_analyzed := fs_analyzed st @ [file]\<rparr>) files)"

definition relevant_files :: "pull_request_patch \<Rightarrow> patch_file list" where
  "relevant_files patch =
     filter (\<lambda>f. \<not> is_generated (pf_path f) \<and> \<not> is_lockfile (pf_path f)) (pr_files patch)"

definition scan_relevant :: "pull_request_patch \<Rightarrow> analysis_limits \<Rightarrow> file_scan" where
  "scan_relevant patch limits =
     (let relevant = relevant_files patch;
          start = \<lparr>fs_patchBytes = 0, fs_changedLines = 0, fs_anchors = [], fs_analyzed = [],
                   fs_limitsHit = [], fs_hardLimitHit = False\<rparr>;
          start' = (if length relevant > al_maximumFiles limits
                    then hit_limit ''file_count'' start else start) in
      scan_files limits start' (take (al_maximumFiles limits) relevant))"

definition generated_limits :: "analysis_limits \<Rightarrow> patch_file list \<Rightarrow> string list \<Rightarrow> string list" where
  "generated_limits limits files ls = foldl (\<lambda>ls f.
     (case pf_patch f of
        Some p \<Rightarrow> if int (length (utf8_bytes p)) > al_maximumFilePatchBytes limits
                  then add_limit ''generated_patch_skipped'' ls else ls
      | None \<Rightarrow> ls)) ls files"

text \<open>The map from an area to the set of its files, then its entries in the order of the areas.\<close>

fun add_area :: "string \<Rightarrow> string \<Rightarrow> (string \<times> string list) list \<Rightarrow> (string \<times> string list) list" where
  "add_area area path [] = [(area, [path])]"
| "add_area area path ((a, ps) # m) =
     (if a = area then (a, if path \<in> set ps then ps else ps @ [path]) # m
      else (a, ps) # add_area area path m)"

definition changed_areas :: "patch_file list \<Rightarrow> changed_area list" where
  "changed_areas files =
     map (\<lambda>(area, ps). \<lparr>ca_area = area, ca_files = sort ps\<rparr>)
       (sort_key fst (foldl (\<lambda>m f. add_area (area_for (pf_path f)) (pf_path f) m) [] files))"

section \<open>Behaviour and risks of the anchors\<close>

record signal_scan =
  sn_changes :: "behavioral_change list"
  sn_risks :: "risk_signal list"
  sn_seenBehavior :: "string list"
  sn_seenRisk :: "string list"

definition signal_text :: "diff_anchor \<Rightarrow> string" where
  "signal_text anchor = da_file anchor @ [CHR 0x0A] @ da_evidence anchor"

definition matched_signals :: "diff_anchor \<Rightarrow> signal list" where
  "matched_signals anchor = filter (\<lambda>s. regex_test (sig_pattern s) (signal_text anchor)) signals"

definition behavior_of_signal :: "string \<Rightarrow> string" where
  "behavior_of_signal kind = (if kind = ''public_api'' then ''api''
     else if kind = ''dependency'' then ''dependency'' else kind)"

definition read_signal :: "diff_anchor \<Rightarrow> signal_scan \<Rightarrow> signal \<Rightarrow> signal_scan" where
  "read_signal anchor st s =
     (let key = da_id anchor @ '':'' @ sig_kind s;
          st1 = (if key \<in> set (sn_seenBehavior st) then st
            else st\<lparr>sn_changes := sn_changes st @ [\<lparr>bc_kind = behavior_of_signal (sig_kind s),
                     bc_description = sig_reason s, bc_anchorId = da_id anchor\<rparr>],
                   sn_seenBehavior := sn_seenBehavior st @ [key]\<rparr>) in
      if key \<in> set (sn_seenRisk st1) then st1
      else st1\<lparr>sn_risks := sn_risks st1 @ [\<lparr>rs_kind = sig_kind s, rs_severity = sig_severity s,
                 rs_reason = sig_reason s, rs_anchorId = da_id anchor\<rparr>],
               sn_seenRisk := sn_seenRisk st1 @ [key]\<rparr>)"

definition read_anchor :: "signal_scan \<Rightarrow> diff_anchor \<Rightarrow> signal_scan" where
  "read_anchor st anchor =
     (let matched = matched_signals anchor in
      if matched = [] then st\<lparr>sn_changes := sn_changes st @ [\<lparr>bc_kind = ''behavior'',
            bc_description = ''Observable behavior changed in this bounded patch hunk.'',
            bc_anchorId = da_id anchor\<rparr>]\<rparr>
      else foldl (read_signal anchor) st matched)"

definition read_anchors :: "diff_anchor list \<Rightarrow> signal_scan" where
  "read_anchors anchors = foldl read_anchor
     \<lparr>sn_changes = [], sn_risks = [], sn_seenBehavior = [], sn_seenRisk = []\<rparr> anchors"

definition test_signals :: "diff_anchor list \<Rightarrow> diff_anchor list \<Rightarrow> test_signal list" where
  "test_signals testAnchors productionAnchors =
     (if testAnchors \<noteq> [] then map (\<lambda>a. \<lparr>ts_kind = ''tests_changed'',
          ts_description = ''A bounded test hunk changed alongside the patch.'',
          ts_anchorId = Some (da_id a)\<rparr>) testAnchors
      else if productionAnchors \<noteq> [] then [\<lparr>ts_kind = ''no_tests_changed'',
          ts_description = ''No changed test hunk was present in the bounded patch.'',
          ts_anchorId = None\<rparr>]
      else [])"

definition all_risks :: "diff_anchor list \<Rightarrow> diff_anchor list \<Rightarrow> risk_signal list \<Rightarrow> risk_signal list" where
  "all_risks testAnchors productionAnchors risks =
     (if testAnchors = [] \<and> productionAnchors \<noteq> []
      then risks @ [\<lparr>rs_kind = ''untested_behavior'', rs_severity = ''low'',
        rs_reason = ''The bounded patch contains behavior changes but no changed test hunk.'',
        rs_anchorId = da_id (hd productionAnchors)\<rparr>]
      else risks)"

section \<open>The risk class\<close>

definition risk_vector_of ::
  "nat \<Rightarrow> string list \<Rightarrow> bool \<Rightarrow> nat \<Rightarrow> risk_vector" where
  "risk_vector_of analyzedCount highKinds untested unverifiableCount =
     (let scope = min 5 ((int analyzedCount + 1) div 2);
          sensitive = min 5 ((if ''authentication'' \<in> set highKinds then 3 else 0)
                         + (if ''authorization'' \<in> set highKinds then 3 else 0));
          migration = (if ''migration'' \<in> set highKinds then 5 else 0);
          concurrency = (if ''concurrency'' \<in> set highKinds then 5 else 0);
          testGap = (if untested then 2 else 0);
          unverifiable = min 5 (int unverifiableCount) in
      \<lparr>rv_scope = scope, rv_sensitiveSurface = sensitive, rv_migration = migration,
       rv_concurrency = concurrency, rv_testGap = testGap, rv_unverifiable = unverifiable,
       rv_total = scope + sensitive + migration + concurrency + testGap + unverifiable\<rparr>)"

definition classify :: "risk_vector \<Rightarrow> nat \<Rightarrow> int \<Rightarrow> bool \<Rightarrow> risk_level" where
  "classify v files changedLines hardLimitHit =
     (if hardLimitHit \<or> files \<ge> 80 \<or> changedLines \<ge> 5000 then Mega
      else if rv_sensitiveSurface v \<ge> 4 \<or> rv_migration v \<ge> 4 \<or> rv_concurrency v \<ge> 4 then High_risk
      else if files \<ge> 2 \<or> changedLines \<ge> 80 \<or> rv_total v \<ge> 5 then Medium
      else Small)"

datatype analysis_error = Analysis_schema_error

definition snapshot_of :: "pull_request_patch \<Rightarrow> analysis_limits \<Rightarrow> analysis_snapshot" where
  "snapshot_of patch limits =
     (let files = pr_files patch;
          generatedFiles = filter (\<lambda>f. is_generated (pf_path f)) files;
          lockfiles = filter (\<lambda>f. is_lockfile (pf_path f)) files;
          binaryFiles = filter (\<lambda>f. pf_kind f = Binary_file) files;
          symlinks = filter (\<lambda>f. pf_kind f = Symlink_file) files;
          unusualPaths = filter (\<lambda>f. is_unusual_path (pf_path f)) files;
          relevant = relevant_files patch;
          st = scan_relevant patch limits;
          anchors = fs_anchors st;
          sn = read_anchors anchors;
          testAnchors = filter (\<lambda>a. is_test_file (da_file a)) anchors;
          productionAnchors = filter (\<lambda>a. \<not> is_test_file (da_file a)) anchors;
          risks = all_risks testAnchors productionAnchors (sn_risks sn);
          highKinds = map rs_kind (filter (\<lambda>r. rs_severity r = ''high'') risks);
          riskVector = risk_vector_of (length (fs_analyzed st)) highKinds
            (productionAnchors \<noteq> [] \<and> testAnchors = [])
            (length binaryFiles + length symlinks + length unusualPaths);
          riskLevel = classify riskVector (length relevant) (fs_changedLines st)
            (fs_hardLimitHit st \<or> int (length relevant) \<ge> al_megaFileThreshold limits) in
      \<lparr>as_schemaVersion = ''1'', as_analyzerVersion = ''bounded-diff-v1'',
       as_baseSha = pr_baseSha patch, as_headSha = pr_headSha patch,
       as_summary = (if riskLevel = Mega
         then ''Bounded analysis found '' @ string_of_int (int (length relevant))
           @ '' review-relevant files; split or narrow the pull request before proof.''
         else ''Bounded analysis found '' @ string_of_int (int (length (fs_analyzed st)))
           @ '' review-relevant files and classified the change as ''
           @ risk_level_name riskLevel @ ''.''),
       as_riskLevel = riskLevel, as_riskVector = riskVector,
       as_changedAreas = changed_areas (fs_analyzed st),
       as_behavioralChanges = sn_changes sn, as_risks = risks,
       as_testSignals = test_signals testAnchors productionAnchors, as_anchors = anchors,
       as_generatedFiles = sort (map pf_path generatedFiles),
       as_lockfiles = sort (map pf_path lockfiles),
       as_binaryFiles = sort (map pf_path binaryFiles),
       as_symlinks = sort (map pf_path symlinks),
       as_unusualPaths = sort (map pf_path unusualPaths),
       as_limitsHit = sort (generated_limits limits generatedFiles (fs_limitsHit st)),
       as_analyzedFileCount = int (length (fs_analyzed st)),
       as_nonGeneratedChangedLines = fs_changedLines st,
       as_generatedChangedLines =
         sum_list (map (\<lambda>f. pf_additions f + pf_deletions f) generatedFiles)\<rparr>)"

definition analyze_pull_request_patch ::
  "pull_request_patch \<Rightarrow> analysis_limits \<Rightarrow> analysis_error + analysis_snapshot" where
  "analyze_pull_request_patch rawPatch rawLimits =
     (if \<not> pull_request_patch_ok rawPatch \<or> \<not> analysis_limits_ok rawLimits
      then Inl Analysis_schema_error
      else let snapshot = snapshot_of rawPatch rawLimits in
        if analysis_snapshot_ok snapshot then Inr snapshot else Inl Analysis_schema_error)"

end
