(* ===== verification/Planner.thy ===== *)
theory Planner
  imports Analyzer Policy
begin

text \<open>
  The proof planner (\<open>packages/questions/src/schema.ts\<close>, \<open>planner.ts\<close>): how many questions a
  pull request gets, which ones, and the practice set that must share none of them. SHA-256, zod's
  UUID grammar and \<open>Date.toISOString\<close> are the functions of a \<open>planner_env\<close>; so is the ellipsis
  U+2026, a character outside the model's strings. \<open>localeCompare\<close> orders lower-case hexadecimal
  texts as their code units do, which is the order \<open>sort_key\<close> uses.
\<close>

section \<open>Schemas\<close>

record planner_env =
  pe_sha :: "bytes \<Rightarrow> bytes"
  pe_uuid :: "string \<Rightarrow> bool"
  pe_iso :: "millis \<Rightarrow> string"
  pe_ellipsis :: string

datatype planner_error = Planner_schema_error | Digest_too_short | Invalid_time_value

datatype question_intent = Explain | Predict | Tradeoff | Failure_path | Test_and_rollback

fun intent_name :: "question_intent \<Rightarrow> string" where
  "intent_name Explain = ''explain''"
| "intent_name Predict = ''predict''"
| "intent_name Tradeoff = ''tradeoff''"
| "intent_name Failure_path = ''failure_path''"
| "intent_name Test_and_rollback = ''test_and_rollback''"

record planner_versions =
  pv_planner :: string
  pv_questionTemplates :: string

definition planner_versions_ok :: "planner_versions \<Rightarrow> bool" where
  "planner_versions_ok v \<longleftrightarrow>
     pv_planner v = ''proof-planner-v1'' \<and> pv_questionTemplates v = ''proof-questions-v1''"

record plan_proof_input =
  pi_analysis :: analysis_snapshot
  pi_policy :: repository_policy
  pi_serverSeed :: string
  pi_versions :: planner_versions

definition plan_proof_input_ok :: "plan_proof_input \<Rightarrow> bool" where
  "plan_proof_input_ok i \<longleftrightarrow> analysis_snapshot_ok (pi_analysis i)
     \<and> repository_policy_ok (pi_policy i) \<and> length_in 32 512 (pi_serverSeed i)
     \<and> planner_versions_ok (pi_versions i)"

record rubric =
  ru_requiredPoints :: "string list"
  ru_rejectsGenericAnswer :: bool

record proof_question =
  pq_id :: string
  pq_order :: int
  pq_intent :: question_intent
  pq_focus :: string
  pq_prompt :: string
  pq_anchor :: diff_anchor
  pq_rubric :: rubric
  pq_maximumAnswerSeconds :: int

definition rubric_ok :: "rubric \<Rightarrow> bool" where
  "rubric_ok r \<longleftrightarrow> list_all (length_in 5 300) (ru_requiredPoints r)
     \<and> 2 \<le> length (ru_requiredPoints r) \<and> length (ru_requiredPoints r) \<le> 5
     \<and> ru_rejectsGenericAnswer r"

definition proof_question_ok :: "(string \<Rightarrow> bool) \<Rightarrow> proof_question \<Rightarrow> bool" where
  "proof_question_ok uuid q \<longleftrightarrow> uuid (pq_id q) \<and> int_in 1 5 (pq_order q)
     \<and> length_in 1 100 (pq_focus q) \<and> length_in 20 600 (pq_prompt q) \<and> diff_anchor_ok (pq_anchor q)
     \<and> rubric_ok (pq_rubric q) \<and> int_in 30 180 (pq_maximumAnswerSeconds q)"

datatype plan_status = Ready_plan | Split_recommended

fun plan_status_name :: "plan_status \<Rightarrow> string" where
  "plan_status_name Ready_plan = ''ready''"
| "plan_status_name Split_recommended = ''split_recommended''"

record plan_body =
  pl_id :: string
  pl_schemaVersion :: string
  pl_plannerVersion :: string
  pl_questionTemplateVersion :: string
  pl_analysisSchemaVersion :: string
  pl_headSha :: string
  pl_riskLevel :: risk_level
  pl_riskVector :: risk_vector
  pl_status :: plan_status
  pl_questionBudget :: int
  pl_rationale :: "string list"
  pl_splitRecommendation :: "string option"
  pl_seedCommitment :: string
  pl_questions :: "proof_question list"
  pl_createdAt :: js_date

record proof_plan = plan_body +
  pl_planHash :: string

text \<open>\<open>z.date()\<close> refuses an invalid date.\<close>

definition proof_plan_ok :: "(string \<Rightarrow> bool) \<Rightarrow> proof_plan \<Rightarrow> bool" where
  "proof_plan_ok uuid p \<longleftrightarrow>
     uuid (pl_id p) \<and> pl_schemaVersion p = ''1'' \<and> pl_plannerVersion p = ''proof-planner-v1''
     \<and> pl_questionTemplateVersion p = ''proof-questions-v1'' \<and> pl_analysisSchemaVersion p = ''1''
     \<and> git_sha_ok (pl_headSha p) \<and> risk_vector_ok (pl_riskVector p)
     \<and> int_in 0 5 (pl_questionBudget p)
     \<and> list_all (length_in 1 300) (pl_rationale p) \<and> pl_rationale p \<noteq> []
     \<and> (case pl_splitRecommendation p of None \<Rightarrow> True | Some t \<Rightarrow> length_in 1 500 t)
     \<and> sha256_ok (pl_seedCommitment p)
     \<and> list_all (proof_question_ok uuid) (pl_questions p) \<and> length (pl_questions p) \<le> 5
     \<and> pl_createdAt p \<noteq> None \<and> sha256_ok (pl_planHash p)
     \<and> pl_questionBudget p = int (length (pl_questions p))
     \<and> card (set (map pq_id (pl_questions p))) = length (pl_questions p)
     \<and> card (set (map pq_prompt (pl_questions p))) = length (pl_questions p)
     \<and> \<not> (pl_status p = Ready_plan \<and> pl_questions p = [])
     \<and> \<not> (pl_status p = Split_recommended \<and> pl_splitRecommendation p = None)"

record practice_input =
  pc_analysis :: analysis_snapshot
  pc_practiceSeed :: string
  pc_maximumItems :: int

definition practice_input_ok :: "practice_input \<Rightarrow> bool" where
  "practice_input_ok i \<longleftrightarrow> analysis_snapshot_ok (pc_analysis i)
     \<and> length_in 32 512 (pc_practiceSeed i) \<and> int_in 1 5 (pc_maximumItems i)"

record practice_question =
  pr_id :: string
  pr_order :: int
  pr_focus :: string
  pr_prompt :: string
  pr_privateToPracticeSession :: bool

definition practice_question_ok :: "(string \<Rightarrow> bool) \<Rightarrow> practice_question \<Rightarrow> bool" where
  "practice_question_ok uuid q \<longleftrightarrow> uuid (pr_id q) \<and> int_in 1 5 (pr_order q)
     \<and> pr_focus q \<in> set [''patch_map'', ''behavior'', ''risk'', ''testing'', ''rollback'']
     \<and> length_in 20 500 (pr_prompt q) \<and> pr_privateToPracticeSession q"

record practice_set =
  ps_id :: string
  ps_schemaVersion :: string
  ps_practiceVersion :: string
  ps_headSha :: string
  ps_seedCommitment :: string
  ps_questions :: "practice_question list"
  ps_createdAt :: js_date

definition practice_set_ok :: "(string \<Rightarrow> bool) \<Rightarrow> practice_set \<Rightarrow> bool" where
  "practice_set_ok uuid s \<longleftrightarrow> uuid (ps_id s) \<and> ps_schemaVersion s = ''1''
     \<and> ps_practiceVersion s = ''practice-questions-v1'' \<and> git_sha_ok (ps_headSha s)
     \<and> sha256_ok (ps_seedCommitment s) \<and> list_all (practice_question_ok uuid) (ps_questions s)
     \<and> 1 \<le> length (ps_questions s) \<and> length (ps_questions s) \<le> 5 \<and> ps_createdAt s \<noteq> None"

section \<open>Hashes, identifiers and the seeded order\<close>

definition sha256 :: "planner_env \<Rightarrow> string \<Rightarrow> string" where
  "sha256 env v = encode_hex (pe_sha env (utf8_bytes v))"

definition slice :: "nat \<Rightarrow> nat \<Rightarrow> 'a list \<Rightarrow> 'a list" where
  "slice from to xs = take (to - from) (drop from xs)"

definition deterministic_uuid :: "planner_env \<Rightarrow> string \<Rightarrow> planner_error + string" where
  "deterministic_uuid env v =
     (let bytes = hex_pairs (slice 0 32 (sha256 env v)) in
      if length bytes \<le> 6 \<or> length bytes \<le> 8 then Inl Digest_too_short
      else let hex = encode_hex (bytes[6 := (bytes ! 6 AND 0x0F) OR 0x50,
                                       8 := (bytes ! 8 AND 0x3F) OR 0x80]) in
        Inr (slice 0 8 hex @ ''-'' @ slice 8 12 hex @ ''-'' @ slice 12 16 hex @ ''-''
             @ slice 16 20 hex @ ''-'' @ slice 20 32 hex))"

definition stable_order :: "planner_env \<Rightarrow> 'a list \<Rightarrow> string \<Rightarrow> ('a \<Rightarrow> string) \<Rightarrow> 'a list" where
  "stable_order env items seed key = sort_key (\<lambda>i. sha256 env (seed @ '':'' @ key i)) items"

section \<open>The question budget\<close>

datatype proof_budget_plan =
  Budget_ready int "string list" | Budget_split "string list" string

definition requested_budget :: "analysis_snapshot \<Rightarrow> repository_policy \<Rightarrow> int" where
  "requested_budget analysis policy =
     (if as_riskLevel analysis = Mega \<or> as_anchors analysis = [] then 0
      else let budget = (case as_riskLevel analysis of
              Small \<Rightarrow> 1
            | Medium \<Rightarrow> if rv_total (as_riskVector analysis) \<ge> 8 then 3 else 2
            | _ \<Rightarrow> if rv_total (as_riskVector analysis) \<ge> 15 then 5 else 4) in
        min (pp_maximumQuestions (pol_proof policy))
            (max (pp_minimumQuestions (pol_proof policy)) budget))"

definition rationale :: "analysis_snapshot \<Rightarrow> int \<Rightarrow> string list" where
  "rationale analysis budget =
     (let v = as_riskVector analysis in
      [''Risk class '' @ risk_level_name (as_riskLevel analysis) @ '' maps to '' @ string_of_int budget
         @ '' proof question'' @ (if budget = 1 then '''' else ''s'')
         @ '' under the repository proof policy.'',
       ''Risk vector: scope='' @ string_of_int (rv_scope v)
         @ '', sensitive='' @ string_of_int (rv_sensitiveSurface v)
         @ '', migration='' @ string_of_int (rv_migration v)
         @ '', concurrency='' @ string_of_int (rv_concurrency v) @ ''.'']
      @ (if as_generatedChangedLines analysis > 0
         then [string_of_int (as_generatedChangedLines analysis)
               @ '' generated changed lines were excluded from proof-budget inflation.'']
         else []))"

definition plan_proof_budget ::
  "analysis_snapshot \<Rightarrow> repository_policy \<Rightarrow> planner_error + proof_budget_plan" where
  "plan_proof_budget analysis policy =
     (if \<not> analysis_snapshot_ok analysis \<or> \<not> repository_policy_ok policy
      then Inl Planner_schema_error
      else let questionBudget = requested_budget analysis policy;
               reasons = rationale analysis questionBudget in
        if as_riskLevel analysis = Mega
        then Inr (Budget_split reasons ''Split or narrow the pull request so each proof can be grounded in a bounded, reviewable behavior set.'')
        else if as_anchors analysis = []
        then Inr (Budget_split reasons ''Provide a text patch with visible hunk anchors before creating proof questions.'')
        else Inr (Budget_ready questionBudget reasons))"

section \<open>Candidates\<close>

record candidate =
  cd_anchor :: diff_anchor
  cd_focus :: string
  cd_intent :: question_intent

definition intents :: "question_intent list" where
  "intents = [Explain, Predict, Failure_path, Test_and_rollback, Tradeoff]"

text \<open>A \<open>Map\<close> built from a list keeps the last value of a key; its entries are in the order the
  keys were first set.\<close>

definition anchor_by_id :: "analysis_snapshot \<Rightarrow> string \<Rightarrow> diff_anchor option" where
  "anchor_by_id analysis i = find (\<lambda>a. da_id a = i) (rev (as_anchors analysis))"

fun add_focus :: "string \<Rightarrow> string \<Rightarrow> (string \<times> string list) list \<Rightarrow> (string \<times> string list) list" where
  "add_focus i kind [] = [(i, [kind])]"
| "add_focus i kind ((j, ks) # m) =
     (if i = j then (j, ks @ [kind]) # m else (j, ks) # add_focus i kind m)"

definition focus_by_anchor :: "analysis_snapshot \<Rightarrow> (string \<times> string list) list" where
  "focus_by_anchor analysis =
     foldl (\<lambda>m r. add_focus (rs_anchorId r) (rs_kind r) m)
       (foldl (\<lambda>m c. add_focus (bc_anchorId c) (bc_kind c) m) [] (as_behavioralChanges analysis))
       (as_risks analysis)"

definition focus_at :: "string list \<Rightarrow> nat \<Rightarrow> string" where
  "focus_at focuses index =
     (if index mod max 1 (length focuses) < length focuses
      then focuses ! (index mod max 1 (length focuses)) else ''behavior'')"

definition anchor_candidates :: "diff_anchor \<Rightarrow> string list \<Rightarrow> candidate list" where
  "anchor_candidates anchor rawFocuses =
     (let focuses = sort (remdups rawFocuses) in
      map (\<lambda>(index, intent). \<lparr>cd_anchor = anchor, cd_focus = focus_at focuses index,
                              cd_intent = intent\<rparr>) (enumerate 0 intents))"

definition candidate_pool :: "analysis_snapshot \<Rightarrow> candidate list" where
  "candidate_pool analysis =
     (let candidates = concat (map (\<lambda>(i, rawFocuses).
            case anchor_by_id analysis i of None \<Rightarrow> []
            | Some anchor \<Rightarrow> anchor_candidates anchor rawFocuses) (focus_by_anchor analysis)) in
      if candidates = []
      then concat (map (\<lambda>anchor. map (\<lambda>intent. \<lparr>cd_anchor = anchor, cd_focus = ''behavior'',
             cd_intent = intent\<rparr>) intents) (as_anchors analysis))
      else candidates)"

definition bounded_display_path :: "planner_env \<Rightarrow> string \<Rightarrow> string" where
  "bounded_display_path env path =
     (if length path \<le> 240 then path
      else take 118 path @ pe_ellipsis env @ drop (length path - 118) path)"

definition location_text :: "planner_env \<Rightarrow> candidate \<Rightarrow> string" where
  "location_text env c =
     ''the supplied '' @ cd_focus c @ '' anchor '' @ da_id (cd_anchor c) @ '' in ''
     @ bounded_display_path env (da_file (cd_anchor c)) @ '' near new line ''
     @ string_of_int (da_newStart (cd_anchor c))"

definition prompt_for :: "planner_env \<Rightarrow> candidate \<Rightarrow> string" where
  "prompt_for env c =
     (let location = location_text env c in
      case cd_intent c of
        Explain \<Rightarrow> ''Explain the observable before-and-after behavior at '' @ location
          @ '', and why the new behavior is intended.''
      | Predict \<Rightarrow> ''Predict what a caller or user observes at '' @ location
          @ '' in both the normal case and one boundary case.''
      | Tradeoff \<Rightarrow> ''Describe the main implementation tradeoff at '' @ location
          @ '' and one reasonable alternative you rejected.''
      | Failure_path \<Rightarrow> ''Walk through a realistic failure path at '' @ location
          @ '', including the resulting state and recovery behavior.''
      | Test_and_rollback \<Rightarrow> ''Give a focused verification and rollback plan for '' @ location
          @ '', naming the signal that would trigger rollback.'')"

definition second_point :: "question_intent \<Rightarrow> string" where
  "second_point intent = (case intent of
        Explain \<Rightarrow> ''Explains the before-and-after effect and why it is intentional.''
      | Predict \<Rightarrow> ''Predicts both a normal outcome and a relevant boundary outcome.''
      | Tradeoff \<Rightarrow> ''Names a concrete tradeoff and a plausible alternative.''
      | Failure_path \<Rightarrow> ''Explains failure state, containment, and recovery or retry behavior.''
      | Test_and_rollback \<Rightarrow> ''Proposes an observable test and a specific rollback trigger.'')"

definition rubric_for :: "candidate \<Rightarrow> rubric" where
  "rubric_for c = \<lparr>ru_requiredPoints =
     [''Identifies the concrete behavior represented by anchor '' @ da_id (cd_anchor c) @ ''.'',
      second_point (cd_intent c)], ru_rejectsGenericAnswer = True\<rparr>"

section \<open>The plan\<close>

definition candidate_key :: "candidate \<Rightarrow> string" where
  "candidate_key c = da_id (cd_anchor c) @ '':'' @ cd_focus c @ '':'' @ intent_name (cd_intent c)"

definition hidden_evidence :: string where
  "hidden_evidence = ''Patch content remains external data; resolve this bounded anchor when presenting the question.''"

definition domain_seed :: "plan_proof_input \<Rightarrow> string" where
  "domain_seed i = ''proof:'' @ pi_serverSeed i @ '':'' @ as_headSha (pi_analysis i) @ '':''
     @ pv_planner (pi_versions i) @ '':'' @ pv_questionTemplates (pi_versions i)"

definition question_of ::
  "planner_env \<Rightarrow> plan_proof_input \<Rightarrow> nat \<times> candidate \<Rightarrow> planner_error + proof_question" where
  "question_of env i ic = (case ic of (index, c) \<Rightarrow>
     bind_result (deterministic_uuid env (domain_seed i @ '':question:'' @ candidate_key c)) (\<lambda>uid.
       Inr \<lparr>pq_id = uid, pq_order = int index + 1, pq_intent = cd_intent c, pq_focus = cd_focus c,
            pq_prompt = prompt_for env c,
            pq_anchor = (cd_anchor c)\<lparr>da_evidence := hidden_evidence\<rparr>, pq_rubric = rubric_for c,
            pq_maximumAnswerSeconds =
              (if as_riskLevel (pi_analysis i) = High_risk then 120 else 90)\<rparr>))"

definition anchor_json :: "diff_anchor \<Rightarrow> json" where
  "anchor_json a = JObj [(''id'', JStr (da_id a)), (''file'', JStr (da_file a)),
     (''hunkHeader'', JStr (da_hunkHeader a)), (''oldStart'', JNum (da_oldStart a)),
     (''newStart'', JNum (da_newStart a)), (''changedLines'', JNum (da_changedLines a)),
     (''evidence'', JStr (da_evidence a))]"

definition question_json :: "proof_question \<Rightarrow> json" where
  "question_json q = JObj [(''id'', JStr (pq_id q)), (''order'', JNum (pq_order q)),
     (''intent'', JStr (intent_name (pq_intent q))), (''focus'', JStr (pq_focus q)),
     (''prompt'', JStr (pq_prompt q)), (''anchor'', anchor_json (pq_anchor q)),
     (''rubric'', JObj [(''requiredPoints'', JArr (map JStr (ru_requiredPoints (pq_rubric q)))),
       (''rejectsGenericAnswer'', JBool (ru_rejectsGenericAnswer (pq_rubric q)))]),
     (''maximumAnswerSeconds'', JNum (pq_maximumAnswerSeconds q))]"

definition vector_json :: "risk_vector \<Rightarrow> json" where
  "vector_json v = JObj [(''scope'', JNum (rv_scope v)),
     (''sensitiveSurface'', JNum (rv_sensitiveSurface v)), (''migration'', JNum (rv_migration v)),
     (''concurrency'', JNum (rv_concurrency v)), (''testGap'', JNum (rv_testGap v)),
     (''unverifiable'', JNum (rv_unverifiable v)), (''total'', JNum (rv_total v))]"

definition plan_json :: "plan_body \<Rightarrow> string \<Rightarrow> json" where
  "plan_json p createdAt = JObj (
     [(''id'', JStr (pl_id p)), (''schemaVersion'', JStr (pl_schemaVersion p)),
      (''plannerVersion'', JStr (pl_plannerVersion p)),
      (''questionTemplateVersion'', JStr (pl_questionTemplateVersion p)),
      (''analysisSchemaVersion'', JStr (pl_analysisSchemaVersion p)),
      (''headSha'', JStr (pl_headSha p)), (''riskLevel'', JStr (risk_level_name (pl_riskLevel p))),
      (''riskVector'', vector_json (pl_riskVector p)),
      (''status'', JStr (plan_status_name (pl_status p))),
      (''questionBudget'', JNum (pl_questionBudget p)),
      (''rationale'', JArr (map JStr (pl_rationale p)))]
     @ (case pl_splitRecommendation p of None \<Rightarrow> [] | Some t \<Rightarrow> [(''splitRecommendation'', JStr t)])
     @ [(''seedCommitment'', JStr (pl_seedCommitment p)),
        (''questions'', JArr (map question_json (pl_questions p))), (''createdAt'', JStr createdAt)])"

definition with_hash :: "plan_body \<Rightarrow> string \<Rightarrow> proof_plan" where
  "with_hash p h = plan_body.extend p \<lparr>pl_planHash = h\<rparr>"

definition body_of ::
  "planner_env \<Rightarrow> js_date \<Rightarrow> plan_proof_input \<Rightarrow> proof_budget_plan \<Rightarrow> string
     \<Rightarrow> proof_question list \<Rightarrow> plan_body" where
  "body_of env now i bp uid questions =
     \<lparr>pl_id = uid, pl_schemaVersion = ''1'', pl_plannerVersion = pv_planner (pi_versions i),
      pl_questionTemplateVersion = pv_questionTemplates (pi_versions i),
      pl_analysisSchemaVersion = as_schemaVersion (pi_analysis i),
      pl_headSha = as_headSha (pi_analysis i), pl_riskLevel = as_riskLevel (pi_analysis i),
      pl_riskVector = as_riskVector (pi_analysis i),
      pl_status = (case bp of Budget_ready _ _ \<Rightarrow> Ready_plan | Budget_split _ _ \<Rightarrow> Split_recommended),
      pl_questionBudget = int (length questions),
      pl_rationale = (case bp of Budget_ready _ r \<Rightarrow> r | Budget_split r _ \<Rightarrow> r),
      pl_splitRecommendation = (case bp of Budget_ready _ _ \<Rightarrow> None | Budget_split _ t \<Rightarrow> Some t),
      pl_seedCommitment = sha256 env (domain_seed i), pl_questions = questions,
      pl_createdAt = now\<rparr>"

definition selected_candidates ::
  "planner_env \<Rightarrow> plan_proof_input \<Rightarrow> proof_budget_plan \<Rightarrow> candidate list" where
  "selected_candidates env i bp =
     take (nat (case bp of Budget_ready n _ \<Rightarrow> n | Budget_split _ _ \<Rightarrow> 0))
       (stable_order env (candidate_pool (pi_analysis i)) (domain_seed i) candidate_key)"

definition plan_proof ::
  "planner_env \<Rightarrow> js_date \<Rightarrow> plan_proof_input \<Rightarrow> planner_error + proof_plan" where
  "plan_proof env now i =
     (if \<not> plan_proof_input_ok i then Inl Planner_schema_error
      else bind_result (plan_proof_budget (pi_analysis i) (pi_policy i)) (\<lambda>bp.
        bind_result (map_result (question_of env i) (enumerate 0 (selected_candidates env i bp))) (\<lambda>qs.
        bind_result (deterministic_uuid env (domain_seed i @ '':plan'')) (\<lambda>uid.
          (case now of None \<Rightarrow> Inl Invalid_time_value
           | Some t \<Rightarrow>
             (let body = body_of env now i bp uid qs;
                  planHash = sha256 env (stringify (plan_json body (pe_iso env t)));
                  plan = with_hash body planHash in
              if proof_plan_ok (pe_uuid env) plan then Inr plan else Inl Planner_schema_error))))))"

section \<open>Practice\<close>

definition practice_pool :: "(string \<times> string) list" where
  "practice_pool = [
     (''patch_map'', ''Summarize the purpose of this patch in one sentence, then name the component boundaries it crosses.''),
     (''behavior'', ''Describe one user-visible behavior that changed and one input for which that difference matters.''),
     (''risk'', ''Identify the riskiest assumption in the patch and explain how you would notice that assumption failing.''),
     (''testing'', ''Sketch a minimal test matrix covering the normal path, one boundary case, and one failure path.''),
     (''rollback'', ''Choose an observable rollback signal and describe the safest first response if that signal appears.'')]"

definition practice_seed :: "practice_input \<Rightarrow> string" where
  "practice_seed i = ''practice:'' @ pc_practiceSeed i @ '':'' @ as_headSha (pc_analysis i)
     @ '':practice-questions-v1''"

definition practice_question_of ::
  "planner_env \<Rightarrow> practice_input \<Rightarrow> nat \<times> string \<times> string \<Rightarrow> planner_error + practice_question" where
  "practice_question_of env i item = (case item of (index, focus, prompt) \<Rightarrow>
     bind_result (deterministic_uuid env (practice_seed i @ '':question:'' @ focus)) (\<lambda>uid.
       Inr \<lparr>pr_id = uid, pr_order = int index + 1, pr_focus = focus, pr_prompt = prompt,
            pr_privateToPracticeSession = True\<rparr>))"

definition create_practice_set ::
  "planner_env \<Rightarrow> js_date \<Rightarrow> practice_input \<Rightarrow> planner_error + practice_set" where
  "create_practice_set env now i =
     (if \<not> practice_input_ok i then Inl Planner_schema_error
      else let selected = take (nat (pc_maximumItems i))
                 (stable_order env practice_pool (practice_seed i) fst) in
        bind_result (deterministic_uuid env (practice_seed i @ '':set'')) (\<lambda>uid.
        bind_result (map_result (practice_question_of env i) (enumerate 0 selected)) (\<lambda>qs.
          (let s = \<lparr>ps_id = uid, ps_schemaVersion = ''1'',
                    ps_practiceVersion = ''practice-questions-v1'',
                    ps_headSha = as_headSha (pc_analysis i),
                    ps_seedCommitment = sha256 env (practice_seed i), ps_questions = qs,
                    ps_createdAt = now\<rparr> in
           if practice_set_ok (pe_uuid env) s then Inr s else Inl Planner_schema_error))))"

definition practice_and_proof_are_separated :: "practice_set \<Rightarrow> proof_plan \<Rightarrow> bool" where
  "practice_and_proof_are_separated practice plan =
     list_all (\<lambda>q. pr_id q \<notin> set (map pq_id (pl_questions plan))
                \<and> pr_prompt q \<notin> set (map pq_prompt (pl_questions plan))) (ps_questions practice)"

end
