(* ===== verification/Planner_Life.thy ===== *)
theory Planner_Life
  imports Planner
begin

text \<open>
  Properties of the planner: the number of questions follows the risk and the policy, the questions
  are distinct and anchored in the analysis, the plan does not depend on the text of the patch, its
  hash determines it, every well-formed analysis can be planned, and the practice set shares
  nothing with the proof.
\<close>

section \<open>The parts of a plan\<close>

lemma length_intents [simp]: "length intents = 5" "intents \<noteq> []" "set intents = UNIV"
  by (auto simp: intents_def intro: question_intent.exhaust)

lemma length_anchor_candidates [simp]: "length (anchor_candidates a r) = 5"
  by (simp add: anchor_candidates_def)

lemma concat_five:
  assumes "\<And>x. x \<in> set xs \<Longrightarrow> f x = [] \<or> 5 \<le> length (f x)" and "concat (map f xs) \<noteq> []"
  shows "5 \<le> length (concat (map f xs))"
proof -
  obtain x where x: "x \<in> set xs" "f x \<noteq> []"
    using assms(2) by auto
  then have "length (f x) \<le> length (concat (map f xs))"
    by (auto simp: length_concat intro!: member_le_sum_list)
  then show ?thesis
    using assms(1) [OF x(1)] x(2) by simp
qed

lemma candidate_pool_length:
  assumes "as_anchors a \<noteq> []"
  shows "5 \<le> length (candidate_pool a)"
proof (cases "concat (map (\<lambda>(i, rawFocuses). case anchor_by_id a i of None \<Rightarrow> []
    | Some anchor \<Rightarrow> anchor_candidates anchor rawFocuses) (focus_by_anchor a)) = []")
  case True
  have "5 \<le> length (concat (map (\<lambda>anchor. map (\<lambda>intent.
      \<lparr>cd_anchor = anchor, cd_focus = ''behavior'', cd_intent = intent\<rparr>) intents) (as_anchors a)))"
    by (rule concat_five) (use assms in \<open>auto simp: neq_Nil_conv\<close>)
  then show ?thesis
    unfolding candidate_pool_def Let_def if_P [OF True] .
next
  case False
  then show ?thesis
    unfolding candidate_pool_def Let_def if_not_P [OF False]
    by (intro concat_five) (auto split: option.splits)
qed

lemma requested_budget_bounds:
  assumes "repository_policy_ok pol" and "as_riskLevel a \<noteq> Mega" and "as_anchors a \<noteq> []"
  shows "pp_minimumQuestions (pol_proof pol) \<le> requested_budget a pol
    \<and> requested_budget a pol \<le> pp_maximumQuestions (pol_proof pol)
    \<and> 1 \<le> requested_budget a pol \<and> requested_budget a pol \<le> 5"
  using assms by (auto simp: requested_budget_def repository_policy_ok_def Let_def split: risk_level.split)

lemma plan_proofE:
  assumes "plan_proof env now i = Inr p"
  obtains bp qs uid t where "plan_proof_input_ok i"
    and "plan_proof_budget (pi_analysis i) (pi_policy i) = Inr bp"
    and "map_result (question_of env i) (enumerate 0 (selected_candidates env i bp)) = Inr qs"
    and "deterministic_uuid env (domain_seed i @ '':plan'') = Inr uid" and "now = Some t"
    and "p = with_hash (body_of env now i bp uid qs)
          (sha256 env (stringify (plan_json (body_of env now i bp uid qs) (pe_iso env t))))"
    and "proof_plan_ok (pe_uuid env) p"
  using assms
  by (auto simp: plan_proof_def result_simps Let_def split: if_splits option.splits)

lemma with_hash_simps [simp]:
  "pl_id (with_hash b h) = pl_id b" "pl_schemaVersion (with_hash b h) = pl_schemaVersion b"
  "pl_plannerVersion (with_hash b h) = pl_plannerVersion b"
  "pl_questionTemplateVersion (with_hash b h) = pl_questionTemplateVersion b"
  "pl_analysisSchemaVersion (with_hash b h) = pl_analysisSchemaVersion b"
  "pl_headSha (with_hash b h) = pl_headSha b" "pl_riskLevel (with_hash b h) = pl_riskLevel b"
  "pl_riskVector (with_hash b h) = pl_riskVector b" "pl_status (with_hash b h) = pl_status b"
  "pl_questionBudget (with_hash b h) = pl_questionBudget b"
  "pl_rationale (with_hash b h) = pl_rationale b"
  "pl_splitRecommendation (with_hash b h) = pl_splitRecommendation b"
  "pl_seedCommitment (with_hash b h) = pl_seedCommitment b"
  "pl_questions (with_hash b h) = pl_questions b" "pl_createdAt (with_hash b h) = pl_createdAt b"
  "pl_planHash (with_hash b h) = h"
  by (simp_all add: with_hash_def plan_body.defs)

lemma question_of_fields:
  assumes "question_of env i (n, c) = Inr q"
  shows "pq_order q = int n + 1 \<and> pq_intent q = cd_intent c \<and> pq_focus q = cd_focus c
    \<and> pq_prompt q = prompt_for env c \<and> pq_anchor q = (cd_anchor c)\<lparr>da_evidence := hidden_evidence\<rparr>
    \<and> pq_rubric q = rubric_for c
    \<and> deterministic_uuid env (domain_seed i @ '':question:'' @ candidate_key c) = Inr (pq_id q)"
  using assms by (auto simp: question_of_def result_simps)

lemma questions_nth:
  assumes "map_result f (enumerate 0 cs) = Inr qs"
  shows "length qs = length cs \<and> (\<forall>n < length cs. f (n, cs ! n) = Inr (qs ! n))"
  using assms by (auto simp: map_result_Inr_iff list_all2_conv_all_nth nth_enumerate_eq)

lemma length_selected:
  "plan_proof_budget a pol = Inr bp \<Longrightarrow> pi_analysis i = a \<Longrightarrow>
   int (length (selected_candidates env i bp)) = requested_budget a pol"
proof -
  assume bp: "plan_proof_budget a pol = Inr bp" and a: "pi_analysis i = a"
  show ?thesis
  proof (cases "as_riskLevel a = Mega \<or> as_anchors a = []")
    case True
    then show ?thesis
      using bp by (auto simp: plan_proof_budget_def selected_candidates_def requested_budget_def Let_def
          split: if_splits)
  next
    case False
    then have b: "bp = Budget_ready (requested_budget a pol) (rationale a (requested_budget a pol))"
      and "repository_policy_ok pol"
      using bp by (auto simp: plan_proof_budget_def Let_def split: if_splits)
    then show ?thesis
      using requested_budget_bounds [of pol a] candidate_pool_length [of a] False a
      by (simp add: selected_candidates_def stable_order_def min_def) arith
  qed
qed

text \<open>C19: a plan has as many questions as its risk class asks for within the bounds of the policy, or
  none and an explanation when the change is a mega change or has no anchor; the questions are
  numbered from one, and no two share an id or a prompt.\<close>

theorem plan_follows_the_policy:
  assumes "plan_proof env now i = Inr p"
  shows "pl_questionBudget p = int (length (pl_questions p))
    \<and> pl_questionBudget p = requested_budget (pi_analysis i) (pi_policy i)
    \<and> (if as_riskLevel (pi_analysis i) = Mega \<or> as_anchors (pi_analysis i) = []
       then pl_status p = Split_recommended \<and> pl_questions p = [] \<and> pl_splitRecommendation p \<noteq> None
       else pl_status p = Ready_plan \<and> pl_splitRecommendation p = None
         \<and> pp_minimumQuestions (pol_proof (pi_policy i)) \<le> pl_questionBudget p
         \<and> pl_questionBudget p \<le> pp_maximumQuestions (pol_proof (pi_policy i)))
    \<and> map pq_order (pl_questions p) = map (\<lambda>n. int n + 1) [0..<length (pl_questions p)]
    \<and> distinct (map pq_id (pl_questions p)) \<and> distinct (map pq_prompt (pl_questions p))"
proof -
  from assms obtain bp qs uid t where ok: "plan_proof_input_ok i"
    and bp: "plan_proof_budget (pi_analysis i) (pi_policy i) = Inr bp"
    and qs: "map_result (question_of env i) (enumerate 0 (selected_candidates env i bp)) = Inr qs"
    and p: "p = with_hash (body_of env now i bp uid qs)
          (sha256 env (stringify (plan_json (body_of env now i bp uid qs) (pe_iso env t))))"
    and pok: "proof_plan_ok (pe_uuid env) p"
    by (rule plan_proofE)
  let ?a = "pi_analysis i" and ?pol = "pi_policy i"
  have len: "int (length qs) = requested_budget ?a ?pol"
    using questions_nth [OF qs] length_selected [OF bp refl] by simp
  have "map pq_order qs = map (\<lambda>n. int n + 1) [0..<length qs]"
    using questions_nth [OF qs] question_of_fields by (intro nth_equalityI) auto
  moreover have "distinct (map pq_id qs) \<and> distinct (map pq_prompt qs)"
    using pok p by (simp add: proof_plan_ok_def body_of_def card_distinct)
  moreover have "if as_riskLevel ?a = Mega \<or> as_anchors ?a = [] then (\<exists>r t. bp = Budget_split r t)
      else (\<exists>n r. bp = Budget_ready n r)"
    using bp by (auto simp: plan_proof_budget_def Let_def split: if_splits)
  moreover have "repository_policy_ok ?pol"
    using ok by (simp add: plan_proof_input_ok_def)
  ultimately show ?thesis
    using len requested_budget_bounds [of ?pol ?a]
    by (auto simp: p body_of_def requested_budget_def split: if_splits)
qed

section \<open>Questions are anchored in the analysis\<close>

text \<open>What the analysis says of an anchor: the kinds of its changes and of its risks.\<close>

definition named_kinds :: "analysis_snapshot \<Rightarrow> string \<Rightarrow> string set" where
  "named_kinds a i =
     bc_kind ` {c \<in> set (as_behavioralChanges a). bc_anchorId c = i}
     \<union> rs_kind ` {r \<in> set (as_risks a). rs_anchorId r = i}"

lemma add_focus_member:
  "(j, ks) \<in> set (add_focus i kind m) \<Longrightarrow> k \<in> set ks \<Longrightarrow>
   j = i \<and> k = kind \<or> (\<exists>ks'. (j, ks') \<in> set m \<and> k \<in> set ks')"
  by (induction i kind m rule: add_focus.induct) (auto split: if_splits)

lemma fold_focus_member:
  "(j, ks) \<in> set (foldl (\<lambda>m r. add_focus (g r) (h r) m) m0 xs) \<Longrightarrow> k \<in> set ks \<Longrightarrow>
   (\<exists>r\<in>set xs. g r = j \<and> h r = k) \<or> (\<exists>ks'. (j, ks') \<in> set m0 \<and> k \<in> set ks')"
proof (induction xs arbitrary: m0)
  case (Cons x xs)
  then show ?case
    using add_focus_member [of j _ "g x" "h x" m0 k] by fastforce
qed auto

lemma focus_by_anchor_member:
  assumes "(j, ks) \<in> set (focus_by_anchor a)" and "k \<in> set ks"
  shows "k \<in> named_kinds a j"
  using fold_focus_member [OF assms(1) [unfolded focus_by_anchor_def] assms(2)]
  by (auto simp: named_kinds_def dest!: fold_focus_member)

lemma focus_at_member: "focus_at fs n \<in> set fs \<union> {''behavior''}"
  by (simp add: focus_at_def)

lemma anchor_candidates_member:
  "c \<in> set (anchor_candidates a ks) \<Longrightarrow> cd_anchor c = a \<and> cd_focus c \<in> set ks \<union> {''behavior''}"
proof -
  assume "c \<in> set (anchor_candidates a ks)"
  then obtain n where "cd_anchor c = a" "cd_focus c = focus_at (sort (remdups ks)) n"
    by (auto simp: anchor_candidates_def Let_def)
  then show ?thesis
    using focus_at_member [of "sort (remdups ks)" n] by simp
qed

lemma anchor_by_id_Some:
  "anchor_by_id a i = Some x \<Longrightarrow> x \<in> set (as_anchors a) \<and> da_id x = i"
  using find_SomeD by (fastforce simp: anchor_by_id_def)

lemma candidate_pool_member:
  assumes "c \<in> set (candidate_pool a)"
  shows "cd_anchor c \<in> set (as_anchors a)
    \<and> cd_focus c \<in> named_kinds a (da_id (cd_anchor c)) \<union> {''behavior''}"
proof -
  consider "cd_anchor c \<in> set (as_anchors a)" "cd_focus c = ''behavior''"
    | j ks x where "(j, ks) \<in> set (focus_by_anchor a)" "anchor_by_id a j = Some x"
        "c \<in> set (anchor_candidates x ks)"
    using assms by (auto simp: candidate_pool_def Let_def split: if_splits option.splits) metis+
  then show ?thesis
  proof cases
    case 1
    then show ?thesis by simp
  next
    case 2
    then show ?thesis
      using anchor_candidates_member anchor_by_id_Some focus_by_anchor_member by fast
  qed
qed

lemma candidate_eta: "\<lparr>cd_anchor = cd_anchor c, cd_focus = cd_focus c, cd_intent = cd_intent c\<rparr> = c"
  by (cases c) simp

lemma selected_member: "c \<in> set (selected_candidates env i bp) \<Longrightarrow> c \<in> set (candidate_pool (pi_analysis i))"
  by (auto simp: selected_candidates_def stable_order_def dest!: in_set_takeD)

text \<open>Every question of a plan is about an anchor of the analysis: it carries that anchor with the
  text of the patch replaced, asks about a kind of change or risk the analysis found there (or about
  behaviour in general), and its prompt and rubric are those of that anchor, focus and intent.\<close>

theorem plan_questions_are_anchored:
  assumes "plan_proof env now i = Inr p" and "q \<in> set (pl_questions p)"
  shows "\<exists>a\<in>set (as_anchors (pi_analysis i)).
      pq_anchor q = a\<lparr>da_evidence := hidden_evidence\<rparr>
      \<and> pq_focus q \<in> named_kinds (pi_analysis i) (da_id a) \<union> {''behavior''}
      \<and> pq_prompt q = prompt_for env \<lparr>cd_anchor = a, cd_focus = pq_focus q, cd_intent = pq_intent q\<rparr>
      \<and> hd (ru_requiredPoints (pq_rubric q))
        = ''Identifies the concrete behavior represented by anchor '' @ da_id a @ ''.''"
proof -
  from assms(1) obtain bp qs uid t where
    qs: "map_result (question_of env i) (enumerate 0 (selected_candidates env i bp)) = Inr qs"
    and p: "p = with_hash (body_of env now i bp uid qs)
          (sha256 env (stringify (plan_json (body_of env now i bp uid qs) (pe_iso env t))))"
    by (rule plan_proofE)
  then obtain n where n: "n < length qs" "q = qs ! n"
    using assms(2) by (auto simp: body_of_def in_set_conv_nth)
  let ?c = "selected_candidates env i bp ! n"
  have "question_of env i (n, ?c) = Inr q" and "?c \<in> set (selected_candidates env i bp)"
    using questions_nth [OF qs] n by auto
  then show ?thesis
    using question_of_fields [of env i n ?c q] candidate_pool_member [OF selected_member, of ?c env i bp]
    by (intro bexI [of _ "cd_anchor ?c"]) (simp_all add: rubric_for_def candidate_eta)
qed

section \<open>The plan does not depend on the text of the patch\<close>

definition with_evidence :: "(diff_anchor \<Rightarrow> string) \<Rightarrow> diff_anchor \<Rightarrow> diff_anchor" where
  "with_evidence f a = a\<lparr>da_evidence := f a\<rparr>"

definition snapshot_with_evidence :: "(diff_anchor \<Rightarrow> string) \<Rightarrow> analysis_snapshot \<Rightarrow> analysis_snapshot" where
  "snapshot_with_evidence f a = a\<lparr>as_anchors := map (with_evidence f) (as_anchors a)\<rparr>"

definition candidate_with_evidence :: "(diff_anchor \<Rightarrow> string) \<Rightarrow> candidate \<Rightarrow> candidate" where
  "candidate_with_evidence f c = c\<lparr>cd_anchor := with_evidence f (cd_anchor c)\<rparr>"

lemma with_evidence_simps [simp]:
  "da_id (with_evidence f a) = da_id a" "da_file (with_evidence f a) = da_file a"
  "da_newStart (with_evidence f a) = da_newStart a"
  "(with_evidence f a)\<lparr>da_evidence := e\<rparr> = a\<lparr>da_evidence := e\<rparr>"
  by (simp_all add: with_evidence_def)

lemma snapshot_with_evidence_simps [simp]:
  "as_anchors (snapshot_with_evidence f a) = map (with_evidence f) (as_anchors a)"
  "as_riskLevel (snapshot_with_evidence f a) = as_riskLevel a"
  "as_riskVector (snapshot_with_evidence f a) = as_riskVector a"
  "as_headSha (snapshot_with_evidence f a) = as_headSha a"
  "as_schemaVersion (snapshot_with_evidence f a) = as_schemaVersion a"
  "as_generatedChangedLines (snapshot_with_evidence f a) = as_generatedChangedLines a"
  "as_behavioralChanges (snapshot_with_evidence f a) = as_behavioralChanges a"
  "as_risks (snapshot_with_evidence f a) = as_risks a"
  by (simp_all add: snapshot_with_evidence_def)

lemma candidate_with_evidence_simps [simp]:
  "cd_focus (candidate_with_evidence f c) = cd_focus c"
  "cd_intent (candidate_with_evidence f c) = cd_intent c"
  "cd_anchor (candidate_with_evidence f c) = with_evidence f (cd_anchor c)"
  "candidate_key (candidate_with_evidence f c) = candidate_key c"
  by (simp_all add: candidate_with_evidence_def candidate_key_def)

lemma insort_key_map: "insort_key k (g x) (map g xs) = map g (insort_key (\<lambda>y. k (g y)) x xs)"
  by (induction xs) auto

lemma sort_key_map_eq: "sort_key k (map g xs) = map g (sort_key (\<lambda>y. k (g y)) xs)"
  by (induction xs) (simp_all add: insort_key_map)

lemma find_map_eq: "find P (map g xs) = map_option g (find (\<lambda>x. P (g x)) xs)"
  by (induction xs) auto

lemma anchor_by_id_evidence:
  "anchor_by_id (snapshot_with_evidence f a) i = map_option (with_evidence f) (anchor_by_id a i)"
  by (simp add: anchor_by_id_def rev_map find_map_eq)

lemma focus_by_anchor_evidence: "focus_by_anchor (snapshot_with_evidence f a) = focus_by_anchor a"
  by (simp add: focus_by_anchor_def)

lemma anchor_candidates_evidence:
  "anchor_candidates (with_evidence f a) ks = map (candidate_with_evidence f) (anchor_candidates a ks)"
  by (simp add: anchor_candidates_def Let_def candidate_with_evidence_def split_def)

lemma candidate_pool_evidence:
  "candidate_pool (snapshot_with_evidence f a) = map (candidate_with_evidence f) (candidate_pool a)"
proof -
  let ?e = "\<lambda>a. concat (map (\<lambda>(i, rawFocuses). case anchor_by_id a i of None \<Rightarrow> []
      | Some anchor \<Rightarrow> anchor_candidates anchor rawFocuses) (focus_by_anchor a))"
  have "(case anchor_by_id (snapshot_with_evidence f a) i of None \<Rightarrow> []
      | Some anchor \<Rightarrow> anchor_candidates anchor ks)
    = map (candidate_with_evidence f) (case anchor_by_id a i of None \<Rightarrow> []
      | Some anchor \<Rightarrow> anchor_candidates anchor ks)" for i ks
    by (simp add: anchor_by_id_evidence anchor_candidates_evidence split: option.split)
  then have e: "?e (snapshot_with_evidence f a) = map (candidate_with_evidence f) (?e a)"
    by (simp add: focus_by_anchor_evidence map_concat comp_def split_def)
  have fallback: "concat (map (\<lambda>anchor. map (\<lambda>intent. \<lparr>cd_anchor = anchor, cd_focus = ''behavior'',
        cd_intent = intent\<rparr>) intents) (as_anchors (snapshot_with_evidence f a)))
    = map (candidate_with_evidence f) (concat (map (\<lambda>anchor. map (\<lambda>intent.
        \<lparr>cd_anchor = anchor, cd_focus = ''behavior'', cd_intent = intent\<rparr>) intents) (as_anchors a)))"
    by (simp add: map_concat comp_def candidate_with_evidence_def)
  show ?thesis
    unfolding candidate_pool_def Let_def e fallback map_is_Nil_conv by (rule if_distrib [symmetric])
qed

lemma question_of_evidence:
  "question_of env (i\<lparr>pi_analysis := snapshot_with_evidence f (pi_analysis i)\<rparr>) (n, candidate_with_evidence f c)
     = question_of env i (n, c)"
  by (simp add: question_of_def domain_seed_def prompt_for_def location_text_def rubric_for_def)

lemma map_result_cong_map:
  "(\<And>x. x \<in> set xs \<Longrightarrow> f (g x) = h x) \<Longrightarrow> map_result f (map g xs) = map_result h xs"
  by (induction xs) auto

lemma enumerate_map: "enumerate n (map g xs) = map (\<lambda>(k, x). (k, g x)) (enumerate n xs)"
  by (simp add: enumerate_eq_zip zip_map2)

lemma budget_evidence:
  "analysis_snapshot_ok (snapshot_with_evidence f a) = analysis_snapshot_ok a \<Longrightarrow>
   plan_proof_budget (snapshot_with_evidence f a) pol = plan_proof_budget a pol"
  unfolding plan_proof_budget_def requested_budget_def rationale_def snapshot_with_evidence_simps
    map_is_Nil_conv by (simp only:)

lemma snapshot_with_evidence_ok:
  assumes "\<And>a. a \<in> set (as_anchors s) \<Longrightarrow> length_in 1 500 (f a)" and "analysis_snapshot_ok s"
  shows "analysis_snapshot_ok (snapshot_with_evidence f s)"
proof -
  have "list_all diff_anchor_ok (as_anchors (snapshot_with_evidence f s))"
    using assms by (auto simp: analysis_snapshot_ok_def diff_anchor_ok_def with_evidence_def list_all_iff)
  then show ?thesis
    using assms(2) by (simp add: analysis_snapshot_ok_def snapshot_with_evidence_def)
qed

text \<open>C20: the plan does not depend on the text of the patch: replacing the evidence of the anchors by
  any other texts the schema admits gives the same plan, hash and failures included.\<close>

theorem plan_ignores_patch_text:
  assumes "analysis_snapshot_ok (pi_analysis i)"
    and "\<forall>a\<in>set (as_anchors (pi_analysis i)). 1 \<le> length (f a) \<and> length (f a) \<le> 500"
  shows "plan_proof env now (i\<lparr>pi_analysis := (pi_analysis i)\<lparr>as_anchors :=
      map (\<lambda>a. a\<lparr>da_evidence := f a\<rparr>) (as_anchors (pi_analysis i))\<rparr>\<rparr>) = plan_proof env now i"
proof -
  let ?i = "i\<lparr>pi_analysis := snapshot_with_evidence f (pi_analysis i)\<rparr>"
  have ok: "analysis_snapshot_ok (snapshot_with_evidence f (pi_analysis i))"
    using assms by (intro snapshot_with_evidence_ok) (simp_all add: length_in_def)
  have seed: "domain_seed ?i = domain_seed i"
    by (simp add: domain_seed_def)
  have sel: "selected_candidates env ?i bp
      = map (candidate_with_evidence f) (selected_candidates env i bp)" for bp
    by (simp add: selected_candidates_def seed candidate_pool_evidence stable_order_def
        sort_key_map_eq take_map)
  have qs: "map_result (question_of env ?i) (enumerate 0 (selected_candidates env ?i bp))
      = map_result (question_of env i) (enumerate 0 (selected_candidates env i bp))" for bp
    unfolding sel enumerate_map by (rule map_result_cong_map) (auto simp: question_of_evidence)
  have body: "body_of env d ?i bp uid qs = body_of env d i bp uid qs" for d bp uid qs
    by (simp add: body_of_def seed)
  have "plan_proof_budget (snapshot_with_evidence f (pi_analysis i)) (pi_policy i)
      = plan_proof_budget (pi_analysis i) (pi_policy i)"
    using assms(1) ok by (intro budget_evidence) simp
  then have "plan_proof env now ?i = plan_proof env now i"
    using assms(1) ok by (simp add: plan_proof_def plan_proof_input_ok_def seed qs body cong: option.case_cong)
  then show ?thesis
    by (simp add: snapshot_with_evidence_def with_evidence_def [abs_def])
qed

section \<open>The hash determines the plan\<close>

lemma intent_name_inj: "intent_name x = intent_name y \<longleftrightarrow> x = y"
  by (cases x; cases y) simp_all

lemma plan_status_name_inj: "plan_status_name s = plan_status_name t \<longleftrightarrow> s = t"
  by (cases s; cases t) simp_all

lemma risk_level_name_inj: "risk_level_name l = risk_level_name m \<longleftrightarrow> l = m"
  by (cases l; cases m) simp_all

lemmas names_inj = intent_name_inj plan_status_name_inj risk_level_name_inj

lemma anchor_json_inj: "anchor_json a = anchor_json b \<longleftrightarrow> a = b"
  by (cases a; cases b) (auto simp: anchor_json_def)

lemma vector_json_inj: "vector_json v = vector_json w \<longleftrightarrow> v = w"
  by (cases v; cases w) (auto simp: vector_json_def)

lemma map_JStr_inj: "map JStr xs = map JStr ys \<longleftrightarrow> xs = ys"
  by (simp add: inj_map_eq_map inj_on_def)

lemma rubric_eqI: "ru_requiredPoints r = ru_requiredPoints s \<Longrightarrow>
    ru_rejectsGenericAnswer r = ru_rejectsGenericAnswer s \<Longrightarrow> r = (s :: rubric)"
  by simp

lemma question_json_inj: "question_json q = question_json r \<longleftrightarrow> q = r"
  by (cases q; cases r)
    (auto simp: question_json_def names_inj anchor_json_inj map_JStr_inj intro: rubric_eqI)

lemma map_question_json_inj: "map question_json xs = map question_json ys \<longleftrightarrow> xs = ys"
  by (simp add: inj_map_eq_map inj_on_def question_json_inj)

lemma plan_json_inj:
  assumes "plan_json b c = plan_json d e"
  shows "b = d\<lparr>pl_createdAt := pl_createdAt b\<rparr> \<and> c = e"
proof -
  have "pl_splitRecommendation b = None \<longleftrightarrow> pl_splitRecommendation d = None"
    using assms by (auto simp: plan_json_def split: option.splits)
  then show ?thesis
    using assms by (cases b; cases d)
      (auto simp: plan_json_def names_inj vector_json_inj map_JStr_inj map_question_json_inj
        split: option.splits)
qed

text \<open>The bytes whose digest is the hash of a plan.\<close>

definition plan_text :: "planner_env \<Rightarrow> proof_plan \<Rightarrow> bytes" where
  "plan_text env p =
     utf8_bytes (stringify (plan_json (plan_body.truncate p) (pe_iso env (the (pl_createdAt p)))))"

lemma truncate_with_hash [simp]: "plan_body.truncate (with_hash b h) = b"
  by (simp add: with_hash_def plan_body.defs)

lemma sha256_eq: "sha256 env v = sha256 env w \<longleftrightarrow> pe_sha env (utf8_bytes v) = pe_sha env (utf8_bytes w)"
  using hex.enc_inj by (auto simp: sha256_def)

text \<open>The hash of a plan determines the whole plan: two plans with one hash, neither of them a
  collision of the digest, are the same plan, questions, anchors, status and time included.\<close>

theorem plan_hash_determines_the_plan:
  assumes "plan_proof env now i = Inr p" and "plan_proof env now' i' = Inr p'"
    and "pl_planHash p = pl_planHash p'"
    and "inj_on (pe_sha env) {plan_text env p, plan_text env p'}" and "inj (pe_iso env)"
  shows "p = p'"
proof -
  obtain bp qs uid t where t: "now = Some t"
    and p: "p = with_hash (body_of env now i bp uid qs)
          (sha256 env (stringify (plan_json (body_of env now i bp uid qs) (pe_iso env t))))"
    using assms(1) by (rule plan_proofE)
  obtain bp' qs' uid' t' where t': "now' = Some t'"
    and p': "p' = with_hash (body_of env now' i' bp' uid' qs')
          (sha256 env (stringify (plan_json (body_of env now' i' bp' uid' qs') (pe_iso env t'))))"
    using assms(2) by (rule plan_proofE)
  let ?b = "body_of env now i bp uid qs" and ?b' = "body_of env now' i' bp' uid' qs'"
  have c: "pl_createdAt ?b = Some t" "pl_createdAt ?b' = Some t'"
    by (simp_all add: body_of_def t t')
  have txts: "plan_text env p = utf8_bytes (stringify (plan_json ?b (pe_iso env t)))"
    "plan_text env p' = utf8_bytes (stringify (plan_json ?b' (pe_iso env t')))"
    by (simp_all add: plan_text_def p p' c)
  have hash: "pl_planHash p = sha256 env (stringify (plan_json ?b (pe_iso env t)))"
    "pl_planHash p' = sha256 env (stringify (plan_json ?b' (pe_iso env t')))"
    unfolding p p' with_hash_simps by (rule refl)+
  have "pe_sha env (plan_text env p) = pe_sha env (plan_text env p')"
    using assms(3) unfolding txts hash sha256_eq .
  then have "plan_text env p = plan_text env p'"
    by (rule inj_onD [OF assms(4)]) simp_all
  then have "plan_json ?b (pe_iso env t) = plan_json ?b' (pe_iso env t')"
    unfolding txts utf8_bytes_inj stringify_inj .
  then have "?b = ?b'\<lparr>pl_createdAt := pl_createdAt ?b\<rparr>" and "t = t'"
    using plan_json_inj [of ?b _ ?b'] assms(5) by (auto dest: injD)
  then have "?b = ?b'"
    using c by simp
  then show ?thesis
    using p p' \<open>t = t'\<close> by simp
qed

section \<open>Practice and proof share nothing\<close>

lemma create_practice_setE:
  assumes "create_practice_set env now i = Inr s"
  obtains uid where "practice_input_ok i" and "deterministic_uuid env (practice_seed i @ '':set'') = Inr uid"
    and "map_result (practice_question_of env i) (enumerate 0 (take (nat (pc_maximumItems i))
          (stable_order env practice_pool (practice_seed i) fst))) = Inr (ps_questions s)"
    and "practice_set_ok (pe_uuid env) s"
  using assms by (auto simp: create_practice_set_def result_simps Let_def split: if_splits)

lemma practice_questions:
  assumes "create_practice_set env now i = Inr s" and "q \<in> set (ps_questions s)"
  shows "\<exists>focus. (focus, pr_prompt q) \<in> set practice_pool
    \<and> deterministic_uuid env (practice_seed i @ '':question:'' @ focus) = Inr (pr_id q)"
proof -
  let ?sel = "take (nat (pc_maximumItems i)) (stable_order env practice_pool (practice_seed i) fst)"
  have qs: "map_result (practice_question_of env i) (enumerate 0 ?sel) = Inr (ps_questions s)"
    using assms(1) by (rule create_practice_setE)
  obtain n where n: "n < length (ps_questions s)" "q = ps_questions s ! n"
    using assms(2) by (auto simp: in_set_conv_nth)
  then have len: "n < length ?sel" and "practice_question_of env i (n, ?sel ! n) = Inr q"
    using questions_nth [OF qs] by metis+
  moreover have "?sel ! n \<in> set practice_pool"
    using nth_mem [OF len] by (auto simp: stable_order_def dest!: in_set_takeD)
  ultimately show ?thesis
    by (cases "?sel ! n") (auto simp: practice_question_of_def result_simps)
qed

lemma prompt_not_in_practice: "(focus, prompt_for env c) \<notin> set practice_pool"
  by (cases "cd_intent c") (simp_all add: prompt_for_def practice_pool_def)

definition proof_texts :: "plan_proof_input \<Rightarrow> string set" where
  "proof_texts i = (\<lambda>c. domain_seed i @ '':question:'' @ candidate_key c)
     ` set (candidate_pool (pi_analysis i))"

definition practice_texts :: "practice_input \<Rightarrow> string set" where
  "practice_texts j = (\<lambda>item. practice_seed j @ '':question:'' @ fst item) ` set practice_pool"

lemma plan_question_texts:
  assumes "plan_proof env now i = Inr p" and "q \<in> set (pl_questions p)"
  shows "\<exists>c. pq_prompt q = prompt_for env c
    \<and> (\<exists>v\<in>proof_texts i. deterministic_uuid env v = Inr (pq_id q))"
proof -
  from assms(1) obtain bp qs uid t where
    qs: "map_result (question_of env i) (enumerate 0 (selected_candidates env i bp)) = Inr qs"
    and p: "p = with_hash (body_of env now i bp uid qs)
          (sha256 env (stringify (plan_json (body_of env now i bp uid qs) (pe_iso env t))))"
    by (rule plan_proofE)
  then obtain n where n: "n < length qs" "q = qs ! n"
    using assms(2) by (auto simp: body_of_def in_set_conv_nth)
  let ?c = "selected_candidates env i bp ! n"
  have "question_of env i (n, ?c) = Inr q" and "?c \<in> set (selected_candidates env i bp)"
    using questions_nth [OF qs] n by auto
  then show ?thesis
    using question_of_fields [of env i n ?c q] selected_member [of ?c env i bp]
    unfolding proof_texts_def by blast
qed

text \<open>Practice never rehearses the proof: whatever the two seeds and analyses, no practice
  question has the id or the prompt of a proof question. The ids are kept apart by the prefix of
  the hashed text, so this needs that no two of these texts collide.\<close>

theorem practice_is_separated_from_proof:
  assumes "create_practice_set env now j = Inr s" and "plan_proof env now' i = Inr p"
    and "inj_on (deterministic_uuid env) (practice_texts j \<union> proof_texts i)"
  shows "practice_and_proof_are_separated s p"
proof -
  have "pr_id q \<noteq> pq_id r \<and> pr_prompt q \<noteq> pq_prompt r"
    if q: "q \<in> set (ps_questions s)" and r: "r \<in> set (pl_questions p)" for q r
  proof -
    obtain focus where f: "(focus, pr_prompt q) \<in> set practice_pool"
      "deterministic_uuid env (practice_seed j @ '':question:'' @ focus) = Inr (pr_id q)"
      using practice_questions [OF assms(1) q] by blast
    obtain c v where c: "pq_prompt r = prompt_for env c" and v: "v \<in> proof_texts i"
      "deterministic_uuid env v = Inr (pq_id r)"
      using plan_question_texts [OF assms(2) r] by blast
    have "practice_seed j @ '':question:'' @ focus \<in> practice_texts j"
      using f(1) by (force simp: practice_texts_def)
    moreover have "practice_seed j @ '':question:'' @ focus \<noteq> v"
      using v(1) by (auto simp: practice_seed_def proof_texts_def domain_seed_def)
    ultimately have "pr_id q \<noteq> pq_id r"
      using f(2) v assms(3) unfolding inj_on_def by (metis Un_iff)
    then show ?thesis
      using f(1) c prompt_not_in_practice by metis
  qed
  then show ?thesis
    by (auto simp: practice_and_proof_are_separated_def list_all_iff)
qed

end
