(* ===== verification/Analysis_Life.thy ===== *)
theory Analysis_Life
  imports Analyzer
begin

text \<open>
  What an analysis snapshot promises: its findings are about anchors it contains, every anchor
  has a finding, a change that is not rated mega was analyzed completely, and sensitive changes
  are never rated below high risk.
\<close>

section \<open>Anchors\<close>

definition anchor_id :: "nat \<Rightarrow> string" where
  "anchor_id i = ''a'' @ string_of_int (int i)"

definition numbered :: "nat \<Rightarrow> string \<Rightarrow> diff_anchor list \<Rightarrow> bool" where
  "numbered first path as \<longleftrightarrow>
     map da_id as = map anchor_id [first..<first + length as] \<and> (\<forall>a\<in>set as. da_file a = path)"

lemma flush_hunk_numbered:
  "numbered first path as \<Longrightarrow> numbered first path (flush_hunk path first as h)"
  by (auto simp: numbered_def flush_hunk_def anchor_id_def split: option.splits)

lemma read_line_numbered:
  "numbered first path (fst st) \<Longrightarrow> numbered first path (fst (read_line path first st line))"
  using flush_hunk_numbered
  by (auto simp: read_line_def split: prod.splits option.splits)

lemma read_lines_numbered:
  "numbered first path (fst st) \<Longrightarrow> numbered first path (fst (foldl (read_line path first) st ls))"
  by (induction ls arbitrary: st) (simp_all add: read_line_numbered)

lemma parse_anchors_numbered: "numbered first (pf_path f) (parse_anchors f first)"
proof -
  have zero: "numbered first (pf_path f) []" by (simp add: numbered_def)
  then have "numbered first (pf_path f) (fst (foldl (read_line (pf_path f) first) ([], None) ls))" for ls
    using read_lines_numbered [of first "pf_path f" "([], None)"] by simp
  then show ?thesis
    using zero flush_hunk_numbered
    by (auto simp: parse_anchors_def split: option.splits prod.splits) (metis fst_conv)
qed

lemma digits_no_colon: "CHR '':'' \<notin> set (anchor_id i)"
proof -
  have "CHR '':'' \<notin> set (decimal n)" for n
    using decimal_digits [of n] by auto
  then show ?thesis
    by (simp add: anchor_id_def string_of_int_def json_number_def)
qed

lemma anchor_id_inj: "anchor_id i = anchor_id j \<longleftrightarrow> i = j"
  using json_number_inj by (simp add: anchor_id_def string_of_int_def)

section \<open>The loop\<close>

definition anchored_in :: "patch_file list \<Rightarrow> diff_anchor \<Rightarrow> bool" where
  "anchored_in files a \<longleftrightarrow> (\<exists>f\<in>set files. da_file a = pf_path f \<and> pf_kind f = Text_file)"

lemma anchored_in_mono: "anchored_in fs a \<Longrightarrow> set fs \<subseteq> set gs \<Longrightarrow> anchored_in gs a"
  by (auto simp: anchored_in_def)

definition scan_ok :: "patch_file list \<Rightarrow> file_scan \<Rightarrow> bool" where
  "scan_ok files st \<longleftrightarrow>
     map da_id (fs_anchors st) = map anchor_id [0..<length (fs_anchors st)]
     \<and> (\<forall>a\<in>set (fs_anchors st). anchored_in files a) \<and> set (fs_analyzed st) \<subseteq> set files"

definition analyze_file :: "file_scan \<Rightarrow> patch_file \<Rightarrow> file_scan" where
  "analyze_file st f = st\<lparr>
     fs_patchBytes := fs_patchBytes st + int (length (utf8_bytes (the (pf_patch f)))),
     fs_changedLines := fs_changedLines st + (pf_additions f + pf_deletions f),
     fs_anchors := fs_anchors st @ parse_anchors f (length (fs_anchors st)),
     fs_analyzed := fs_analyzed st @ [f]\<rparr>"

lemma analyze_file_simps:
  "fs_anchors (analyze_file st f) = fs_anchors st @ parse_anchors f (length (fs_anchors st))"
  "fs_analyzed (analyze_file st f) = fs_analyzed st @ [f]"
  by (simp_all add: analyze_file_def)

text \<open>The branches of one round of the loop.\<close>

lemma scan_files_cases:
  obtains (untouched) "pf_kind f \<noteq> Text_file \<or> pf_patch f = None"
      "scan_files limits st (f # fs) = scan_files limits (st\<lparr>fs_analyzed := fs_analyzed st @ [f]\<rparr>) fs"
  | (skipped) l where "pf_kind f = Text_file" "scan_files limits st (f # fs) = scan_files limits (hit_limit l st) fs"
  | (stopped) l where "pf_kind f = Text_file" "scan_files limits st (f # fs) = hit_limit l st"
  | (analyzed) "pf_kind f = Text_file" "pf_patch f \<noteq> None"
      "fs_patchBytes (analyze_file st f) \<le> al_maximumPatchBytes limits"
      "fs_changedLines (analyze_file st f) \<le> al_maximumChangedLines limits"
      "scan_files limits st (f # fs) = scan_files limits (analyze_file st f) fs"
proof (cases "pf_kind f \<noteq> Text_file \<or> pf_patch f = None")
  case True
  then show ?thesis by (intro untouched) simp_all
next
  case False
  let ?b = "int (length (utf8_bytes (the (pf_patch f))))"
  consider "?b > al_maximumFilePatchBytes limits"
    | "\<not> ?b > al_maximumFilePatchBytes limits" "fs_patchBytes st + ?b > al_maximumPatchBytes limits"
    | "\<not> ?b > al_maximumFilePatchBytes limits" "\<not> fs_patchBytes st + ?b > al_maximumPatchBytes limits"
      "fs_changedLines st + pf_additions f + pf_deletions f > al_maximumChangedLines limits"
    | "\<not> ?b > al_maximumFilePatchBytes limits" "\<not> fs_patchBytes st + ?b > al_maximumPatchBytes limits"
      "\<not> fs_changedLines st + pf_additions f + pf_deletions f > al_maximumChangedLines limits"
    by blast
  then show ?thesis
  proof cases
    case 1
    then show ?thesis using False by (intro skipped [of "''file_patch_bytes''"]) (auto simp: Let_def)
  next
    case 2
    then show ?thesis using False by (intro stopped [of "''total_patch_bytes''"]) (auto simp: Let_def)
  next
    case 3
    then show ?thesis using False by (intro stopped [of "''changed_lines''"]) (auto simp: Let_def)
  next
    case 4
    then show ?thesis using False by (intro analyzed) (auto simp: Let_def analyze_file_def)
  qed
qed

lemma scan_ok_add:
  assumes "scan_ok files st" and "f \<in> set files" and "pf_kind f = Text_file"
  shows "scan_ok files (analyze_file st f)"
proof -
  let ?new = "parse_anchors f (length (fs_anchors st))"
  have n: "map da_id ?new = map anchor_id [length (fs_anchors st)..<length (fs_anchors st) + length ?new]"
    "\<forall>a\<in>set ?new. da_file a = pf_path f"
    using parse_anchors_numbered unfolding numbered_def by blast+
  have old: "map da_id (fs_anchors st) = map anchor_id [0..<length (fs_anchors st)]"
    using assms(1) unfolding scan_ok_def by (elim conjE)
  have "map da_id (fs_anchors st @ ?new)
      = map anchor_id [0..<length (fs_anchors st) + length ?new]"
    unfolding map_append old n(1) upt_add_eq_append [OF le0] ..
  moreover have "\<forall>a\<in>set ?new. anchored_in files a"
    using n(2) assms(2,3) by (auto simp: anchored_in_def)
  moreover have "\<forall>a\<in>set (fs_anchors st). anchored_in files a" "set (fs_analyzed st) \<subseteq> set files"
    using assms(1) unfolding scan_ok_def by simp_all
  ultimately show ?thesis
    using assms(2) unfolding scan_ok_def analyze_file_simps length_append set_append
    by (intro conjI) (assumption, blast, simp)
qed

lemma scan_files_ok:
  "scan_ok all st \<Longrightarrow> set files \<subseteq> set all \<Longrightarrow> scan_ok all (scan_files limits st files)"
proof (induction files arbitrary: st)
  case (Cons f fs)
  have skip: "scan_ok all (st\<lparr>fs_analyzed := fs_analyzed st @ [f]\<rparr>)" "scan_ok all (hit_limit l st)" for l
    using Cons.prems by (simp_all add: scan_ok_def hit_limit_def)
  have sub: "set fs \<subseteq> set all" "f \<in> set all"
    using Cons.prems(2) by simp_all
  show ?case
    by (rule scan_files_cases [of f limits st fs])
      (simp_all only: Cons.IH skip scan_ok_add Cons.prems(1) sub)
qed simp

text \<open>Once a hard limit is hit it stays hit, and without one every file was read.\<close>

lemma scan_files_hard: "fs_hardLimitHit st \<Longrightarrow> fs_hardLimitHit (scan_files limits st files)"
  by (induction limits st files rule: scan_files.induct) (auto simp: Let_def hit_limit_def)

definition text_bytes :: "patch_file list \<Rightarrow> int" where
  "text_bytes files = sum_list (map (\<lambda>f. int (length (utf8_bytes (the (pf_patch f)))))
     (filter (\<lambda>f. pf_kind f = Text_file \<and> pf_patch f \<noteq> None) files))"

definition text_changes :: "patch_file list \<Rightarrow> int" where
  "text_changes files = sum_list (map (\<lambda>f. pf_additions f + pf_deletions f)
     (filter (\<lambda>f. pf_kind f = Text_file \<and> pf_patch f \<noteq> None) files))"

lemma scan_files_complete:
  assumes "\<not> fs_hardLimitHit (scan_files limits st files)"
    and "fs_patchBytes st \<le> al_maximumPatchBytes limits"
    and "fs_changedLines st \<le> al_maximumChangedLines limits"
  shows "fs_analyzed (scan_files limits st files) = fs_analyzed st @ files
    \<and> fs_patchBytes (scan_files limits st files) = fs_patchBytes st + text_bytes files
    \<and> fs_changedLines (scan_files limits st files) = fs_changedLines st + text_changes files
    \<and> fs_patchBytes st + text_bytes files \<le> al_maximumPatchBytes limits
    \<and> fs_changedLines st + text_changes files \<le> al_maximumChangedLines limits"
  using assms
proof (induction files arbitrary: st)
  case Nil
  then show ?case by (simp add: text_bytes_def text_changes_def)
next
  case (Cons f fs)
  show ?case
  proof (cases rule: scan_files_cases [of f limits st fs])
    case untouched
    then have t: "text_bytes (f # fs) = text_bytes fs" "text_changes (f # fs) = text_changes fs"
      by (auto simp: text_bytes_def text_changes_def)
    show ?thesis
      unfolding untouched(2) t
      using Cons.IH [of "st\<lparr>fs_analyzed := fs_analyzed st @ [f]\<rparr>"] Cons.prems untouched by simp
  next
    case (skipped l)
    then show ?thesis
      using Cons.prems(1) scan_files_hard [of "hit_limit l st" limits fs] by (simp add: hit_limit_def)
  next
    case (stopped l)
    then show ?thesis
      using Cons.prems(1) by (simp add: hit_limit_def)
  next
    case analyzed
    have t: "text_bytes (f # fs) = int (length (utf8_bytes (the (pf_patch f)))) + text_bytes fs"
      "text_changes (f # fs) = pf_additions f + pf_deletions f + text_changes fs"
      using analyzed by (auto simp: text_bytes_def text_changes_def)
    show ?thesis
      unfolding analyzed(5) t
      using Cons.IH [OF _ analyzed(3,4)] Cons.prems(1) unfolding analyzed(5)
      by (simp add: analyze_file_def)
  qed
qed

section \<open>Findings\<close>

definition findings_ok :: "string set \<Rightarrow> signal_scan \<Rightarrow> bool" where
  "findings_ok ids st \<longleftrightarrow>
     (\<forall>c\<in>set (sn_changes st). bc_anchorId c \<in> ids)
     \<and> (\<forall>r\<in>set (sn_risks st). rs_anchorId r \<in> ids
          \<and> (\<exists>s\<in>set signals. rs_kind r = sig_kind s \<and> rs_severity r = sig_severity s))
     \<and> (\<forall>k\<in>set (sn_seenBehavior st). \<exists>c\<in>set (sn_changes st). \<exists>m. k = bc_anchorId c @ '':'' @ m)
     \<and> (\<forall>k\<in>set (sn_seenRisk st). \<exists>r\<in>set (sn_risks st). k = rs_anchorId r @ '':'' @ rs_kind r)"

definition has_change :: "signal_scan \<Rightarrow> string \<Rightarrow> bool" where
  "has_change st i \<longleftrightarrow> i \<in> bc_anchorId ` set (sn_changes st)"

definition has_risk :: "signal_scan \<Rightarrow> string \<Rightarrow> string \<Rightarrow> bool" where
  "has_risk st i k \<longleftrightarrow> (\<exists>r\<in>set (sn_risks st). rs_anchorId r = i \<and> rs_kind r = k)"

definition grows :: "signal_scan \<Rightarrow> signal_scan \<Rightarrow> bool" where
  "grows st st' \<longleftrightarrow> set (sn_changes st) \<subseteq> set (sn_changes st') \<and> set (sn_risks st) \<subseteq> set (sn_risks st')"

lemma grows_simps: "grows st st" "grows a b \<Longrightarrow> grows b c \<Longrightarrow> grows a c"
  "grows a b \<Longrightarrow> has_change a i \<Longrightarrow> has_change b i" "grows a b \<Longrightarrow> has_risk a i k \<Longrightarrow> has_risk b i k"
  by (auto simp: grows_def has_change_def has_risk_def)

lemma colon_unique:
  assumes "CHR '':'' \<notin> set i" and "CHR '':'' \<notin> set j" and "i @ '':'' @ k = j @ '':'' @ m"
  shows "i = j \<and> k = m"
  using assms by (induction i arbitrary: j) (case_tac [!] j, auto)

lemma read_signal_ok:
  assumes "findings_ok ids st" and "\<forall>i\<in>ids. CHR '':'' \<notin> set i" and "da_id a \<in> ids" and "s \<in> set signals"
  shows "findings_ok ids (read_signal a st s) \<and> grows st (read_signal a st s)
    \<and> has_change (read_signal a st s) (da_id a) \<and> has_risk (read_signal a st s) (da_id a) (sig_kind s)"
proof -
  define key where "key = da_id a @ '':'' @ sig_kind s"
  define st1 where "st1 = (if key \<in> set (sn_seenBehavior st) then st
    else st\<lparr>sn_changes := sn_changes st @ [\<lparr>bc_kind = behavior_of_signal (sig_kind s),
             bc_description = sig_reason s, bc_anchorId = da_id a\<rparr>],
           sn_seenBehavior := sn_seenBehavior st @ [key]\<rparr>)"
  have r: "read_signal a st s = (if key \<in> set (sn_seenRisk st1) then st1
      else st1\<lparr>sn_risks := sn_risks st1 @ [\<lparr>rs_kind = sig_kind s, rs_severity = sig_severity s,
                 rs_reason = sig_reason s, rs_anchorId = da_id a\<rparr>],
               sn_seenRisk := sn_seenRisk st1 @ [key]\<rparr>)"
    by (simp only: read_signal_def Let_def key_def st1_def)
  have colon: "i = da_id a \<and> m = sig_kind s" if "key = i @ '':'' @ m" "i \<in> ids" for i m
    using colon_unique [of "da_id a" i "sig_kind s" m] assms(2,3) that by (auto simp: key_def)
  have 1: "findings_ok ids st1 \<and> grows st st1 \<and> has_change st1 (da_id a)"
  proof (cases "key \<in> set (sn_seenBehavior st)")
    case True
    then obtain c m where "c \<in> set (sn_changes st)" "key = bc_anchorId c @ '':'' @ m"
      using assms(1) unfolding findings_ok_def by blast
    moreover have "bc_anchorId c \<in> ids"
      using assms(1) calculation(1) by (simp add: findings_ok_def)
    ultimately have "has_change st (da_id a)"
      using colon by (force simp: has_change_def)
    then show ?thesis
      using True assms(1) by (simp add: st1_def grows_simps)
  next
    case False
    then show ?thesis
      using assms(1,3) unfolding st1_def if_not_P [OF False] findings_ok_def grows_def has_change_def
      by (auto simp: key_def)
  qed
  show ?thesis
  proof (cases "key \<in> set (sn_seenRisk st1)")
    case True
    then obtain r where "r \<in> set (sn_risks st1)" "key = rs_anchorId r @ '':'' @ rs_kind r"
      using 1 unfolding findings_ok_def by blast
    moreover have "rs_anchorId r \<in> ids"
      using 1 calculation(1) by (simp add: findings_ok_def)
    ultimately have "has_risk st1 (da_id a) (sig_kind s)"
      using colon unfolding has_risk_def by metis
    then show ?thesis
      using True 1 by (simp add: r)
  next
    case False
    then show ?thesis
      using 1 assms(3,4) unfolding r if_not_P [OF False] findings_ok_def grows_def has_change_def has_risk_def
      by (auto simp: key_def)
  qed
qed

lemma read_signals_ok:
  assumes "findings_ok ids st" and "\<forall>i\<in>ids. CHR '':'' \<notin> set i" and "da_id a \<in> ids" and "set ss \<subseteq> set signals"
  shows "findings_ok ids (foldl (read_signal a) st ss) \<and> grows st (foldl (read_signal a) st ss)
    \<and> (ss \<noteq> [] \<longrightarrow> has_change (foldl (read_signal a) st ss) (da_id a))
    \<and> (\<forall>s\<in>set ss. has_risk (foldl (read_signal a) st ss) (da_id a) (sig_kind s))"
  using assms(1,4)
proof (induction ss arbitrary: st)
  case (Cons s ss)
  then have 1: "findings_ok ids (read_signal a st s)" "grows st (read_signal a st s)"
    "has_change (read_signal a st s) (da_id a)" "has_risk (read_signal a st s) (da_id a) (sig_kind s)"
    using read_signal_ok [OF _ assms(2,3)] by simp_all
  have 2: "findings_ok ids (foldl (read_signal a) (read_signal a st s) ss)"
    "grows (read_signal a st s) (foldl (read_signal a) (read_signal a st s) ss)"
    "\<forall>q\<in>set ss. has_risk (foldl (read_signal a) (read_signal a st s) ss) (da_id a) (sig_kind q)"
    using Cons.IH [OF 1(1)] Cons.prems(2) by auto
  have "grows st (foldl (read_signal a) (read_signal a st s) ss)"
    using 1(2) 2(2) grows_simps(2) by blast
  then show ?case
    using 2(1,3) grows_simps(3,4) [OF 2(2)] 1(3,4) by simp
qed (simp add: grows_simps)

lemma read_anchor_ok:
  assumes "findings_ok ids st" and "\<forall>i\<in>ids. CHR '':'' \<notin> set i" and "da_id a \<in> ids"
  shows "findings_ok ids (read_anchor st a) \<and> grows st (read_anchor st a)
    \<and> has_change (read_anchor st a) (da_id a)
    \<and> (\<forall>s\<in>set (matched_signals a). has_risk (read_anchor st a) (da_id a) (sig_kind s))"
proof (cases "matched_signals a = []")
  case True
  then show ?thesis
    using assms(1,3) by (auto simp: read_anchor_def findings_ok_def grows_def has_change_def)
next
  case False
  have "set (matched_signals a) \<subseteq> set signals" by (simp add: matched_signals_def)
  then show ?thesis
    using read_signals_ok [OF assms, of "matched_signals a"] False by (simp add: read_anchor_def Let_def)
qed

lemma read_anchors_ok:
  assumes "findings_ok ids st" and "\<forall>i\<in>ids. CHR '':'' \<notin> set i" and "da_id ` set as \<subseteq> ids"
  shows "findings_ok ids (foldl read_anchor st as) \<and> grows st (foldl read_anchor st as)
    \<and> (\<forall>a\<in>set as. has_change (foldl read_anchor st as) (da_id a)
        \<and> (\<forall>s\<in>set (matched_signals a). has_risk (foldl read_anchor st as) (da_id a) (sig_kind s)))"
  using assms(1,3)
proof (induction as arbitrary: st)
  case (Cons a as)
  then have 1: "findings_ok ids (read_anchor st a)" "grows st (read_anchor st a)"
    "has_change (read_anchor st a) (da_id a)"
    "\<forall>s\<in>set (matched_signals a). has_risk (read_anchor st a) (da_id a) (sig_kind s)"
    using read_anchor_ok [OF _ assms(2)] by simp_all
  note 2 = Cons.IH [OF 1(1)]
  have sub: "da_id ` set as \<subseteq> ids" using Cons.prems(2) by simp
  show ?case
    using 1 2 [OF sub] grows_simps(3,4) [OF 2 [OF sub, THEN conjunct2, THEN conjunct1]]
    by (auto intro: grows_simps(2))
qed (simp add: grows_simps)

section \<open>The snapshot\<close>

lemma analyze_D:
  assumes "analyze_pull_request_patch p l = Inr s"
  shows "s = snapshot_of p l" and "analysis_snapshot_ok s" and "analysis_limits_ok l"
    and "pull_request_patch_ok p"
  using assms by (auto simp: analyze_pull_request_patch_def Let_def split: if_splits)

lemma snapshot_fields:
  "as_anchors (snapshot_of p l) = fs_anchors (scan_relevant p l)"
  "as_behavioralChanges (snapshot_of p l) = sn_changes (read_anchors (fs_anchors (scan_relevant p l)))"
  "as_risks (snapshot_of p l) = all_risks
     (filter (\<lambda>a. is_test_file (da_file a)) (fs_anchors (scan_relevant p l)))
     (filter (\<lambda>a. \<not> is_test_file (da_file a)) (fs_anchors (scan_relevant p l)))
     (sn_risks (read_anchors (fs_anchors (scan_relevant p l))))"
  "as_changedAreas (snapshot_of p l) = changed_areas (fs_analyzed (scan_relevant p l))"
  "as_analyzedFileCount (snapshot_of p l) = int (length (fs_analyzed (scan_relevant p l)))"
  "as_nonGeneratedChangedLines (snapshot_of p l) = fs_changedLines (scan_relevant p l)"
  "as_limitsHit (snapshot_of p l) = sort (generated_limits l
     (filter (\<lambda>f. is_generated (pf_path f)) (pr_files p)) (fs_limitsHit (scan_relevant p l)))"
  "as_riskLevel (snapshot_of p l) = classify (as_riskVector (snapshot_of p l))
     (length (relevant_files p)) (fs_changedLines (scan_relevant p l))
     (fs_hardLimitHit (scan_relevant p l) \<or> int (length (relevant_files p)) \<ge> al_megaFileThreshold l)"
  by (simp_all add: snapshot_of_def Let_def)

lemma scan_relevant_ok: "scan_ok (relevant_files p) (scan_relevant p l)"
  unfolding scan_relevant_def Let_def
  by (rule scan_files_ok) (auto simp: scan_ok_def hit_limit_def dest: in_set_takeD)

lemma read_anchors_findings:
  assumes "map da_id as = map anchor_id [0..<length as]"
  shows "findings_ok (da_id ` set as) (read_anchors as)
    \<and> (\<forall>a\<in>set as. has_change (read_anchors as) (da_id a)
        \<and> (\<forall>s\<in>set (matched_signals a). has_risk (read_anchors as) (da_id a) (sig_kind s)))"
proof -
  have "da_id ` set as = anchor_id ` {0..<length as}"
    using arg_cong [OF assms, of set] by simp
  then have "\<forall>i\<in>da_id ` set as. CHR '':'' \<notin> set i"
    using digits_no_colon by auto
  moreover have "findings_ok ids \<lparr>sn_changes = [], sn_risks = [], sn_seenBehavior = [], sn_seenRisk = []\<rparr>" for ids
    by (simp add: findings_ok_def)
  ultimately show ?thesis
    using read_anchors_ok [of "da_id ` set as" _ as] unfolding read_anchors_def by blast
qed

text \<open>C16: every finding of a snapshot is grounded: its anchors are numbered in order and each lies
  in a text file of the patch that is neither generated nor a lock file, the anchors that have a
  behavioural change are exactly the anchors of the snapshot, and every risk names one of them.\<close>

theorem analysis_is_grounded:
  assumes "analyze_pull_request_patch p l = Inr s"
  shows "map da_id (as_anchors s)
      = map (\<lambda>i. ''a'' @ string_of_int (int i)) [0..<length (as_anchors s)]
    \<and> distinct (map da_id (as_anchors s))
    \<and> (\<forall>a\<in>set (as_anchors s). \<exists>f\<in>set (pr_files p). pf_path f = da_file a \<and> pf_kind f = Text_file
        \<and> \<not> is_generated (pf_path f) \<and> \<not> is_lockfile (pf_path f))
    \<and> bc_anchorId ` set (as_behavioralChanges s) = da_id ` set (as_anchors s)
    \<and> rs_anchorId ` set (as_risks s) \<subseteq> da_id ` set (as_anchors s)"
proof -
  let ?as = "fs_anchors (scan_relevant p l)"
  have s: "s = snapshot_of p l" by (rule analyze_D [OF assms])
  have ids: "map da_id ?as = map anchor_id [0..<length ?as]"
    and rel: "\<forall>a\<in>set ?as. anchored_in (relevant_files p) a"
    using scan_relevant_ok unfolding scan_ok_def by blast+
  have "distinct (map da_id ?as)"
    unfolding ids by (simp add: distinct_map inj_on_def anchor_id_inj)
  moreover note f = read_anchors_findings [OF ids]
  moreover have "bc_anchorId ` set (sn_changes (read_anchors ?as)) = da_id ` set ?as"
    using f unfolding findings_ok_def has_change_def by blast
  moreover have "rs_anchorId ` set (as_risks s) \<subseteq> da_id ` set ?as"
  proof -
    have "hd (filter (\<lambda>a. \<not> is_test_file (da_file a)) ?as) \<in> set ?as"
      if "filter (\<lambda>a. \<not> is_test_file (da_file a)) ?as \<noteq> []"
      using hd_in_set [OF that] by simp
    then show ?thesis
      using f unfolding findings_ok_def s snapshot_fields all_risks_def by auto
  qed
  moreover have "\<forall>a\<in>set ?as. \<exists>f\<in>set (pr_files p). pf_path f = da_file a \<and> pf_kind f = Text_file
      \<and> \<not> is_generated (pf_path f) \<and> \<not> is_lockfile (pf_path f)"
    using rel unfolding anchored_in_def relevant_files_def by fastforce
  ultimately show ?thesis
    using ids unfolding s snapshot_fields anchor_id_def by blast
qed

section \<open>Completeness\<close>

lemma scan_files_limits:
  "(\<not> fs_hardLimitHit st \<Longrightarrow> fs_limitsHit st = []) \<Longrightarrow> \<not> fs_hardLimitHit (scan_files limits st files) \<Longrightarrow>
   fs_limitsHit (scan_files limits st files) = []"
proof (induction files arbitrary: st)
  case (Cons f fs)
  show ?case
  proof (cases rule: scan_files_cases [of f limits st fs])
    case untouched
    then show ?thesis
      using Cons.IH [of "st\<lparr>fs_analyzed := fs_analyzed st @ [f]\<rparr>"] Cons.prems by simp
  next
    case (skipped l)
    then show ?thesis
      using Cons.prems(2) scan_files_hard [of "hit_limit l st" limits fs] by (simp add: hit_limit_def)
  next
    case (stopped l)
    then show ?thesis using Cons.prems(2) by (simp add: hit_limit_def)
  next
    case analyzed
    then show ?thesis using Cons.IH [of "analyze_file st f"] Cons.prems by (simp add: analyze_file_def)
  qed
qed simp

definition all_anchors :: "patch_file list \<Rightarrow> diff_anchor list" where
  "all_anchors files = foldl (\<lambda>as f. as @ parse_anchors f (length as)) [] files"

lemma scan_files_anchors:
  "\<not> fs_hardLimitHit (scan_files limits st files) \<Longrightarrow>
   fs_anchors (scan_files limits st files)
     = foldl (\<lambda>as f. as @ parse_anchors f (length as)) (fs_anchors st) files"
proof (induction files arbitrary: st)
  case (Cons f fs)
  show ?case
  proof (cases rule: scan_files_cases [of f limits st fs])
    case untouched
    then show ?thesis
      using Cons.IH [of "st\<lparr>fs_analyzed := fs_analyzed st @ [f]\<rparr>"] Cons.prems
      by (auto simp: parse_anchors_def)
  next
    case (skipped l)
    then show ?thesis
      using Cons.prems scan_files_hard [of "hit_limit l st" limits fs] by (simp add: hit_limit_def)
  next
    case (stopped l)
    then show ?thesis using Cons.prems by (simp add: hit_limit_def)
  next
    case analyzed
    then show ?thesis using Cons.IH [of "analyze_file st f"] Cons.prems by (simp add: analyze_file_simps)
  qed
qed simp

lemma generated_limits_set:
  "set (generated_limits limits files ls) \<subseteq> set ls \<union> {''generated_patch_skipped''}"
proof (induction files arbitrary: ls)
  case (Cons f fs)
  have "set (add_limit ''generated_patch_skipped'' ls) \<subseteq> set ls \<union> {''generated_patch_skipped''}"
    by (auto simp: add_limit_def)
  then show ?case
    using Cons.IH [of "add_limit ''generated_patch_skipped'' ls"] Cons.IH [of ls]
    by (auto simp: generated_limits_def split: option.split)
qed (auto simp: generated_limits_def)

text \<open>C17: a change that is not rated mega was analyzed completely: every review-relevant file was
  read, its anchors and changed lines are those of all of them, no budget was exceeded, and there
  are fewer than eighty such files with fewer than five thousand changed lines.\<close>

theorem non_mega_analysis_is_complete:
  assumes "analyze_pull_request_patch p l = Inr s" and "as_riskLevel s \<noteq> Mega"
  shows "as_analyzedFileCount s = int (length (relevant_files p))
    \<and> as_anchors s = all_anchors (relevant_files p)
    \<and> as_nonGeneratedChangedLines s = text_changes (relevant_files p)
    \<and> text_changes (relevant_files p) \<le> al_maximumChangedLines l
    \<and> text_bytes (relevant_files p) \<le> al_maximumPatchBytes l
    \<and> length (relevant_files p) \<le> al_maximumFiles l
    \<and> set (as_limitsHit s) \<subseteq> {''generated_patch_skipped''}
    \<and> length (relevant_files p) < 80 \<and> text_changes (relevant_files p) < 5000"
proof -
  let ?start = "\<lparr>fs_patchBytes = 0, fs_changedLines = 0, fs_anchors = [], fs_analyzed = [],
      fs_limitsHit = [], fs_hardLimitHit = False\<rparr>"
  have s: "s = snapshot_of p l" and lim: "analysis_limits_ok l" by (rule analyze_D [OF assms(1)])+
  have soft: "\<not> fs_hardLimitHit (scan_relevant p l)" and small: "length (relevant_files p) < 80"
    and few: "fs_changedLines (scan_relevant p l) < 5000"
    using assms(2) unfolding s snapshot_fields(8) classify_def by (auto split: if_splits)
  have count: "length (relevant_files p) \<le> al_maximumFiles l"
    using soft scan_files_hard [of "hit_limit ''file_count'' ?start"]
    unfolding scan_relevant_def Let_def by (auto simp: hit_limit_def split: if_splits)
  then have scan: "scan_relevant p l = scan_files l ?start (relevant_files p)"
    by (simp add: scan_relevant_def)
  have "0 \<le> al_maximumPatchBytes l" "0 \<le> al_maximumChangedLines l"
    using lim by (simp_all add: analysis_limits_ok_def int_in_def)
  then have c: "fs_analyzed (scan_relevant p l) = relevant_files p"
    "fs_changedLines (scan_relevant p l) = text_changes (relevant_files p)"
    "text_bytes (relevant_files p) \<le> al_maximumPatchBytes l"
    "text_changes (relevant_files p) \<le> al_maximumChangedLines l"
    using scan_files_complete [of l ?start "relevant_files p"] soft unfolding scan by simp_all
  have "fs_limitsHit (scan_relevant p l) = []"
    using scan_files_limits [of ?start l "relevant_files p"] soft unfolding scan by simp
  then have "set (as_limitsHit s) \<subseteq> {''generated_patch_skipped''}"
    using generated_limits_set [of l _ "fs_limitsHit (scan_relevant p l)"]
    unfolding s snapshot_fields by simp
  moreover have "fs_anchors (scan_relevant p l) = all_anchors (relevant_files p)"
    using scan_files_anchors [of l ?start "relevant_files p"] soft unfolding scan all_anchors_def by simp
  ultimately show ?thesis
    using c count small few unfolding s snapshot_fields by simp
qed

section \<open>Ratings\<close>

definition has_signal :: "string \<Rightarrow> diff_anchor list \<Rightarrow> bool" where
  "has_signal k as \<longleftrightarrow> list_ex (\<lambda>a. list_ex (\<lambda>s. sig_kind s = k) (matched_signals a)) as"

definition high_signals :: "string list" where
  "high_signals = [''authentication'', ''authorization'', ''migration'', ''concurrency'']"

lemma high_signals_severity:
  "s \<in> set signals \<Longrightarrow> sig_kind s \<in> set high_signals \<Longrightarrow> sig_severity s = ''high''"
  by (auto simp: signals_def high_signals_def)

lemma high_signal_recorded:
  assumes "map da_id as = map anchor_id [0..<length as]" and "has_signal k as" and "k \<in> set high_signals"
  shows "k \<in> set (map rs_kind (filter (\<lambda>r. rs_severity r = ''high'')
    (all_risks ts ps (sn_risks (read_anchors as)))))"
proof -
  note f = read_anchors_findings [OF assms(1)]
  obtain r where r: "r \<in> set (sn_risks (read_anchors as))" "rs_kind r = k"
    using f assms(2) unfolding has_signal_def has_risk_def list_ex_iff by blast
  then obtain s where "s \<in> set signals" "rs_kind r = sig_kind s" "rs_severity r = sig_severity s"
    using f unfolding findings_ok_def by blast
  then have "rs_severity r = ''high''"
    using high_signals_severity assms(3) r(2) by simp
  then show ?thesis
    using r by (auto simp: all_risks_def)
qed

text \<open>Sensitive changes are never rated low: an anchor that touches migrations or concurrency,
  or anchors that touch authentication and authorization, make the change high risk or mega.\<close>

theorem sensitive_changes_are_high_risk:
  assumes "analyze_pull_request_patch p l = Inr s"
    and "has_signal ''migration'' (as_anchors s) \<or> has_signal ''concurrency'' (as_anchors s)
      \<or> has_signal ''authentication'' (as_anchors s) \<and> has_signal ''authorization'' (as_anchors s)"
  shows "as_riskLevel s = High_risk \<or> as_riskLevel s = Mega"
proof -
  have s: "s = snapshot_of p l" by (rule analyze_D [OF assms(1)])
  let ?as = "fs_anchors (scan_relevant p l)"
  have ids: "map da_id ?as = map anchor_id [0..<length ?as]"
    using scan_relevant_ok unfolding scan_ok_def by blast
  obtain ks where v: "as_riskVector s = risk_vector_of (length (fs_analyzed (scan_relevant p l))) ks
        (filter (\<lambda>a. \<not> is_test_file (da_file a)) ?as \<noteq> [] \<and> filter (\<lambda>a. is_test_file (da_file a)) ?as = [])
        (length (filter (\<lambda>f. pf_kind f = Binary_file) (pr_files p))
          + length (filter (\<lambda>f. pf_kind f = Symlink_file) (pr_files p))
          + length (filter (\<lambda>f. is_unusual_path (pf_path f)) (pr_files p)))"
    and ks: "\<forall>k\<in>set high_signals. has_signal k ?as \<longrightarrow> k \<in> set ks"
    using high_signal_recorded [OF ids] unfolding s snapshot_of_def Let_def by fastforce
  have h: "has_signal ''migration'' ?as \<or> has_signal ''concurrency'' ?as
      \<or> has_signal ''authentication'' ?as \<and> has_signal ''authorization'' ?as"
    using assms(2) unfolding s snapshot_fields(1) .
  have "rv_sensitiveSurface (as_riskVector s) \<ge> 4 \<or> rv_migration (as_riskVector s) \<ge> 4
      \<or> rv_concurrency (as_riskVector s) \<ge> 4"
    using h ks unfolding v risk_vector_of_def Let_def high_signals_def by auto
  then show ?thesis
    unfolding s snapshot_fields(8) classify_def by auto
qed

section \<open>Rejected paths\<close>

lemma add_area_keys: "set (map fst (add_area a p m)) = insert a (set (map fst m))"
  by (induction a p m rule: add_area.induct) auto

lemma areas_keys:
  "set (map fst (foldl (\<lambda>m f. add_area (area_for (pf_path f)) (pf_path f) m) m files))
     = set (map fst m) \<union> (\<lambda>f. area_for (pf_path f)) ` set files"
proof (induction files arbitrary: m)
  case (Cons f fs)
  show ?case
    by (simp only: foldl.simps Cons.IH add_area_keys set_simps image_insert) blast
qed simp

lemma changed_areas_keys: "ca_area ` set (changed_areas files) = (\<lambda>f. area_for (pf_path f)) ` set files"
proof -
  have "ca_area ` set (changed_areas files)
      = fst ` set (foldl (\<lambda>m f. add_area (area_for (pf_path f)) (pf_path f) m) [] files)"
    by (force simp: changed_areas_def image_iff split: prod.splits)
  then show ?thesis
    using areas_keys [of "[]" files] by simp
qed

text \<open>An analyzed file whose area has no name, as under an absolute path, or a name of more than
  a hundred characters makes the whole analysis fail: its snapshot does not pass the snapshot
  schema, although the patch and the limits are valid.\<close>

theorem unnamed_area_fails_the_analysis:
  assumes "f \<in> set (fs_analyzed (scan_relevant p l))"
    and "area_for (pf_path f) = [] \<or> length (area_for (pf_path f)) > 100"
  shows "analyze_pull_request_patch p l = Inl Analysis_schema_error"
proof -
  have "area_for (pf_path f) \<in> ca_area ` set (changed_areas (fs_analyzed (scan_relevant p l)))"
    using assms(1) unfolding changed_areas_keys by blast
  then obtain a where "a \<in> set (as_changedAreas (snapshot_of p l))" "ca_area a = area_for (pf_path f)"
    unfolding snapshot_fields by (metis imageE)
  then have "\<not> list_all changed_area_ok (as_changedAreas (snapshot_of p l))"
    using assms(2) by (auto simp: list_all_iff changed_area_ok_def length_in_def intro!: bexI [of _ a])
  then show ?thesis
    by (simp add: analyze_pull_request_patch_def analysis_snapshot_ok_def Let_def)
qed

section \<open>Witnesses\<close>

definition demo_commit :: string where "demo_commit = replicate 40 (CHR ''0'')"

definition demo_file :: "string \<Rightarrow> string \<Rightarrow> patch_file" where
  "demo_file path patch = \<lparr>pf_path = path, pf_previousPath = None, pf_kind = Text_file,
     pf_patch = Some patch, pf_additions = 1, pf_deletions = 0\<rparr>"

definition demo_patch :: "string \<Rightarrow> pull_request_patch" where
  "demo_patch path = \<lparr>pr_baseSha = demo_commit, pr_headSha = demo_commit,
     pr_files = [demo_file path (''@@ -1 +2 @@'' @ [CHR 0x0A] @ ''+ lock'')]\<rparr>"

definition demo_limits :: analysis_limits where
  "demo_limits = \<lparr>al_maximumFiles = 1, al_maximumPatchBytes = 1024,
     al_maximumFilePatchBytes = 512, al_maximumChangedLines = 10, al_megaFileThreshold = 10\<rparr>"

definition demo_anchor :: diff_anchor where
  "demo_anchor = \<lparr>da_id = ''a0'', da_file = ''a/b'', da_hunkHeader = ''@@ -1 +2 @@'', da_oldStart = 1,
     da_newStart = 2, da_changedLines = 1, da_evidence = ''lock''\<rparr>"

definition demo_snapshot :: analysis_snapshot where
  "demo_snapshot = \<lparr>as_schemaVersion = ''1'', as_analyzerVersion = ''bounded-diff-v1'',
     as_baseSha = demo_commit, as_headSha = demo_commit,
     as_summary = ''Bounded analysis found 1 review-relevant files and classified the change as high_risk.'',
     as_riskLevel = High_risk,
     as_riskVector = \<lparr>rv_scope = 1, rv_sensitiveSurface = 0, rv_migration = 0, rv_concurrency = 5,
       rv_testGap = 2, rv_unverifiable = 0, rv_total = 8\<rparr>,
     as_changedAreas = [\<lparr>ca_area = ''a'', ca_files = [''a/b'']\<rparr>],
     as_behavioralChanges = [\<lparr>bc_kind = ''concurrency'',
       bc_description = ''Concurrency-sensitive behavior needs ordering and retry reasoning.'',
       bc_anchorId = ''a0''\<rparr>],
     as_risks = [\<lparr>rs_kind = ''concurrency'', rs_severity = ''high'',
         rs_reason = ''Concurrency-sensitive behavior needs ordering and retry reasoning.'',
         rs_anchorId = ''a0''\<rparr>,
       \<lparr>rs_kind = ''untested_behavior'', rs_severity = ''low'',
         rs_reason = ''The bounded patch contains behavior changes but no changed test hunk.'',
         rs_anchorId = ''a0''\<rparr>],
     as_testSignals = [\<lparr>ts_kind = ''no_tests_changed'',
       ts_description = ''No changed test hunk was present in the bounded patch.'', ts_anchorId = None\<rparr>],
     as_anchors = [demo_anchor], as_generatedFiles = [], as_lockfiles = [], as_binaryFiles = [],
     as_symlinks = [], as_unusualPaths = [], as_limitsHit = [], as_analyzedFileCount = 1,
     as_nonGeneratedChangedLines = 1, as_generatedChangedLines = 0\<rparr>"

lemma demo_snapshot: "snapshot_of (demo_patch ''a/b'') demo_limits = demo_snapshot"
  by code_simp

lemma demo_inputs_ok:
  "pull_request_patch_ok (demo_patch p) \<longleftrightarrow> patch_path_ok p" "analysis_limits_ok demo_limits"
  by (simp_all add: pull_request_patch_ok_def demo_patch_def demo_file_def patch_file_ok_def
      demo_commit_def git_sha_ok_def nonnegative_int_def is_safe_integer_def max_safe_integer_def
      analysis_limits_ok_def demo_limits_def int_in_def all_in_def lower_hex_chars_def list_all_iff)

lemma demo_analysis: "analyze_pull_request_patch (demo_patch ''a/b'') demo_limits = Inr demo_snapshot"
proof -
  have "git_sha_ok demo_commit"
    by (simp add: demo_commit_def git_sha_ok_def all_in_def lower_hex_chars_def list_all_iff)
  then have "analysis_snapshot_ok demo_snapshot"
    by (simp add: demo_snapshot_def analysis_snapshot_ok_def length_in_def risk_vector_ok_def int_in_def
        nonnegative_int_def is_safe_integer_def max_safe_integer_def changed_area_ok_def
        behavioral_change_ok_def behavior_kinds_def anchor_id_ok_def risk_signal_ok_def risk_kinds_def
        test_signal_ok_def diff_anchor_ok_def demo_anchor_def)
  moreover have "patch_path_ok ''a/b''"
    by (simp add: patch_path_ok_def length_in_def)
  ultimately show ?thesis
    using demo_inputs_ok by (simp add: analyze_pull_request_patch_def demo_snapshot)
qed

theorem analysis_is_grounded_witness:
  "map da_id (as_anchors demo_snapshot) = [''a0'']
   \<and> rs_anchorId ` set (as_risks demo_snapshot) \<subseteq> da_id ` set (as_anchors demo_snapshot)"
  using analysis_is_grounded [OF demo_analysis] by (simp add: demo_snapshot_def demo_anchor_def)

theorem non_mega_analysis_is_complete_witness:
  "as_riskLevel demo_snapshot = High_risk
   \<and> as_anchors demo_snapshot = all_anchors (relevant_files (demo_patch ''a/b''))"
proof -
  have r: "as_riskLevel demo_snapshot = High_risk" by (simp add: demo_snapshot_def)
  then show ?thesis
    using non_mega_analysis_is_complete [OF demo_analysis] by simp
qed

theorem sensitive_changes_are_high_risk_witness:
  "has_signal ''concurrency'' (as_anchors demo_snapshot)
   \<and> (as_riskLevel demo_snapshot = High_risk \<or> as_riskLevel demo_snapshot = Mega)"
proof -
  have "has_signal ''concurrency'' (as_anchors demo_snapshot)" by code_simp
  then show ?thesis
    using sensitive_changes_are_high_risk [OF demo_analysis] by simp
qed

theorem unnamed_area_fails_the_analysis_witness:
  "pull_request_patch_ok (demo_patch ''/b'') \<and> analysis_limits_ok demo_limits
   \<and> analyze_pull_request_patch (demo_patch ''/b'') demo_limits = Inl Analysis_schema_error"
proof -
  let ?f = "demo_file ''/b'' (''@@ -1 +2 @@'' @ [CHR 0x0A] @ ''+ lock'')"
  have "?f \<in> set (fs_analyzed (scan_relevant (demo_patch ''/b'') demo_limits))" by code_simp
  moreover have "area_for (pf_path ?f) = []" by code_simp
  moreover have "patch_path_ok ''/b''" by (simp add: patch_path_ok_def length_in_def)
  ultimately show ?thesis
    using unnamed_area_fails_the_analysis [of ?f "demo_patch ''/b''" demo_limits] demo_inputs_ok by simp
qed

text \<open>The stems of the patterns are followed by a word boundary, so they match no derived word.\<close>

lemma stems_are_not_matched:
  "\<not> has_signal ''authorization'' [demo_anchor\<lparr>da_evidence := ''authorize(user)''\<rparr>,
      demo_anchor\<lparr>da_evidence := ''if not authorization.ok''\<rparr>]
   \<and> \<not> has_signal ''concurrency'' [demo_anchor\<lparr>da_evidence := ''runs concurrently''\<rparr>]"
  by code_simp

end
