(* ===== verification/Planner_Total.thy ===== *)
theory Planner_Total
  imports Planner_Life Analysis_Life
begin

text \<open>
  The planner accepts whatever the analyzer produces: the generated identifiers are version 5
  UUIDs, every text the plan contains fits its schema, and the chosen questions differ. The digest
  has its 32 bytes and does not collide on the texts of one plan. The theory ends with the
  concrete plan the witnesses of the planner's properties use.
\<close>

section \<open>Lengths of numbers\<close>

lemma decimal_length: "n < 10 ^ k \<Longrightarrow> 0 < k \<Longrightarrow> length (decimal n) \<le> k"
proof (induction k arbitrary: n)
  case (Suc k)
  show ?case
  proof (cases "n < 10")
    case True
    then show ?thesis by (simp add: decimal.simps [of n])
  next
    case False
    then have "n div 10 < 10 ^ k" and "0 < k"
      using Suc.prems by (auto simp: less_mult_imp_div_less intro: Suc_lessI) (cases k, auto)
    then show ?thesis
      using Suc.IH [of "n div 10"] False by (simp add: decimal.simps [of n])
  qed
qed simp

lemma string_of_int_length:
  assumes "0 \<le> n" and "n < 10 ^ k" and "0 < k"
  shows "1 \<le> length (string_of_int n) \<and> length (string_of_int n) \<le> k"
proof -
  have "nat n < 10 ^ k"
    using assms(1,2) by (simp add: nat_less_iff)
  then show ?thesis
    using assms decimal_length [of "nat n" k] decimal_digits [of "nat n"]
    by (simp add: string_of_int_def json_number_def Suc_leI)
qed

lemma safe_integer_length:
  "nonnegative_int n \<Longrightarrow> 1 \<le> length (string_of_int n) \<and> length (string_of_int n) \<le> 16"
  by (rule string_of_int_length)
    (simp_all add: nonnegative_int_def is_safe_integer_def max_safe_integer_def)

lemma small_integer_length: "int_in 0 5 n \<Longrightarrow> length (string_of_int n) = 1"
  using string_of_int_length [of n 1] by (simp add: int_in_def)

section \<open>Generated identifiers\<close>

definition uuid_v5 :: "string \<Rightarrow> bool" where
  "uuid_v5 u \<longleftrightarrow> length u = 36 \<and> list_all (\<lambda>(n, c).
     if n = 8 \<or> n = 13 \<or> n = 18 \<or> n = 23 then c = CHR ''-''
     else if n = 14 then c = CHR ''5''
     else if n = 19 then c \<in> set ''89ab''
     else c \<in> set lower_hex_chars) (enumerate 0 u)"

lemma hex_byte_length [simp]: "length (hex_byte b) = 2"
  by (simp add: hex_byte_def)

lemma hex_text_length [simp]: "length (encode_hex bs) = 2 * length bs"
  by (induction bs) (simp_all add: encode_hex_eq)

lemma encode_hex_take: "take (2 * n) (encode_hex bs) = encode_hex (take n bs)"
proof (induction n arbitrary: bs)
  case (Suc n)
  then show ?case
    by (cases bs) (simp_all add: encode_hex_eq hex_byte_def)
qed (simp add: encode_hex_eq)

lemma encode_hex_nth_even: "n < length bs \<Longrightarrow> encode_hex bs ! (2 * n) = hex_digit (unat (bs ! n) div 16)"
proof (induction n arbitrary: bs)
  case 0
  then show ?case by (cases bs) (simp_all add: encode_hex_eq hex_byte_def)
next
  case (Suc n)
  then show ?case by (cases bs) (simp_all add: encode_hex_eq hex_byte_def)
qed

lemma masked_bytes:
  "hex_digit (unat ((b AND 0x0F) OR 0x50 :: byte) div 16) = CHR ''5''"
  "hex_digit (unat ((b AND 0x3F) OR 0x80 :: byte) div 16) \<in> set ''89ab''"
proof -
  have "\<forall>n\<in>set [0..<256]. hex_digit (unat ((of_nat n AND 0x0F) OR 0x50 :: byte) div 16) = CHR ''5''
      \<and> hex_digit (unat ((of_nat n AND 0x3F) OR 0x80 :: byte) div 16) \<in> set ''89ab''"
    by code_simp
  moreover have "unat b \<in> set [0..<256]"
    using unsigned_less [of b, where ?'a = nat] by simp
  ultimately show "hex_digit (unat ((b AND 0x0F) OR 0x50 :: byte) div 16) = CHR ''5''"
    and "hex_digit (unat ((b AND 0x3F) OR 0x80 :: byte) div 16) \<in> set ''89ab''"
    by (metis of_nat_unat ucast_id)+
qed

lemma uuid_v5_slices:
  assumes "length h = 32" and "all_in lower_hex_chars h" and "h ! 12 = CHR ''5''" and "h ! 16 \<in> set ''89ab''"
  shows "uuid_v5 (slice 0 8 h @ ''-'' @ slice 8 12 h @ ''-'' @ slice 12 16 h @ ''-''
     @ slice 16 20 h @ ''-'' @ slice 20 32 h)"
proof -
  have h: "h = map (nth h) [0..<32]"
    using map_nth [of h] assms(1) by simp
  have "h ! n \<in> set lower_hex_chars" if "n < 32" for n
    using assms(1,2) that by (auto simp: all_in_iff)
  then show ?thesis
    using assms(3,4) by (subst (1 2 3 4 5) h) (simp add: uuid_v5_def slice_def upt_conv_Cons numeral_eq_Suc)
qed

lemma deterministic_uuid_total:
  assumes "\<And>b. length (pe_sha env b) = 32"
  shows "\<exists>u. deterministic_uuid env v = Inr u \<and> uuid_v5 u"
proof -
  let ?bs = "take 16 (pe_sha env (utf8_bytes v))"
  have "slice 0 32 (sha256 env v) = encode_hex ?bs"
    using encode_hex_take [of 16 "pe_sha env (utf8_bytes v)"] by (simp add: slice_def sha256_def)
  then have bytes: "hex_pairs (slice 0 32 (sha256 env v)) = ?bs"
    using encode_hex_ok by simp
  define bs where "bs = ?bs[6 := (?bs ! 6 AND 0x0F) OR 0x50, 8 := (?bs ! 8 AND 0x3F) OR 0x80]"
  have len: "length ?bs = 16" "length bs = 16"
    using assms by (simp_all add: bs_def)
  have "encode_hex bs ! 12 = CHR ''5''" "encode_hex bs ! 16 \<in> set ''89ab''"
    using encode_hex_nth_even [of 6 bs] encode_hex_nth_even [of 8 bs] masked_bytes len
    by (simp_all add: bs_def)
  then have "uuid_v5 (slice 0 8 (encode_hex bs) @ ''-'' @ slice 8 12 (encode_hex bs) @ ''-''
      @ slice 12 16 (encode_hex bs) @ ''-'' @ slice 16 20 (encode_hex bs) @ ''-''
      @ slice 20 32 (encode_hex bs))"
    using encode_hex_ok [of bs] len by (intro uuid_v5_slices) simp_all
  then show ?thesis
    unfolding deterministic_uuid_def Let_def bytes bs_def [symmetric] by (simp add: assms)
qed

lemma sha256_text_ok: "length (pe_sha env (utf8_bytes v)) = 32 \<Longrightarrow> sha256_ok (sha256 env v)"
  using encode_hex_ok [of "pe_sha env (utf8_bytes v)"] by (simp add: sha256_def sha256_ok_def)

section \<open>Candidates differ\<close>

lemma separator_unique:
  assumes "c \<notin> set i" and "c \<notin> set j" and "i @ c # k = j @ c # m"
  shows "i = j \<and> k = m"
  using assms by (induction i arbitrary: j) (case_tac [!] j, auto)

lemma add_focus_keys:
  "map fst (add_focus i k m) = (if i \<in> set (map fst m) then map fst m else map fst m @ [i])"
  by (induction i k m rule: add_focus.induct) auto

lemma fold_focus_distinct:
  "distinct (map fst m) \<Longrightarrow> distinct (map fst (foldl (\<lambda>m r. add_focus (g r) (h r) m) m xs))"
  by (induction xs arbitrary: m) (simp_all add: add_focus_keys)

lemma focus_by_anchor_distinct: "distinct (map fst (focus_by_anchor a))"
  unfolding focus_by_anchor_def by (intro fold_focus_distinct) simp

definition pool_key :: "candidate \<Rightarrow> string \<times> question_intent" where
  "pool_key c = (da_id (cd_anchor c), cd_intent c)"

lemma distinct_blocks:
  assumes "distinct (map g xs)"
    and "\<And>x. x \<in> set xs \<Longrightarrow> distinct (map h (f x)) \<and> (\<forall>c\<in>set (f x). fst (h c) = g x)"
  shows "distinct (map h (concat (map f xs)))"
  using assms
proof (induction xs)
  case (Cons x xs)
  have "h c \<noteq> h d" if "c \<in> set (f x)" "y \<in> set xs" "d \<in> set (f y)" for c y d
  proof -
    have "fst (h c) = g x" "fst (h d) = g y"
      using Cons.prems(2) [of x] Cons.prems(2) [of y] that by auto
    moreover have "g x \<noteq> g y"
      using Cons.prems(1) that(2) by auto
    ultimately show ?thesis by metis
  qed
  moreover have "distinct (map h (concat (map f xs)))"
    using Cons.prems by (intro Cons.IH) auto
  moreover have "distinct (map h (f x))"
    using Cons.prems(2) [of x] by simp
  ultimately show ?case by fastforce
qed simp

lemma intents_distinct: "distinct intents"
  by (simp add: intents_def)

lemma anchor_candidates_keys: "map pool_key (anchor_candidates a ks) = map (Pair (da_id a)) intents"
  by (simp add: anchor_candidates_def Let_def pool_key_def intents_def)

lemma candidate_pool_distinct:
  assumes "distinct (map da_id (as_anchors a))"
  shows "distinct (map pool_key (candidate_pool a))"
proof -
  let ?block = "\<lambda>(i, rawFocuses). case anchor_by_id a i of None \<Rightarrow> []
      | Some anchor \<Rightarrow> anchor_candidates anchor rawFocuses"
  have d: "distinct (map (Pair i) intents)" for i :: string
    by (simp add: distinct_map inj_on_def intents_distinct)
  have "distinct (map pool_key (?block x)) \<and> (\<forall>c\<in>set (?block x). fst (pool_key c) = fst x)" for x
    using d by (auto simp: anchor_candidates_keys pool_key_def split: prod.splits option.splits
        dest: anchor_by_id_Some anchor_candidates_member)
  then have "distinct (map pool_key (concat (map ?block (focus_by_anchor a))))"
    by (intro distinct_blocks [OF focus_by_anchor_distinct]) blast
  moreover have "distinct (map pool_key (concat (map (\<lambda>anchor. map (\<lambda>intent.
      \<lparr>cd_anchor = anchor, cd_focus = ''behavior'', cd_intent = intent\<rparr>) intents) (as_anchors a))))"
    by (rule distinct_blocks [OF assms]) (auto simp: pool_key_def comp_def d)
  ultimately show ?thesis
    unfolding candidate_pool_def Let_def by (simp only: simp_thms split: if_split)
qed

definition clean_text :: "string \<Rightarrow> bool" where
  "clean_text s \<longleftrightarrow> CHR '' '' \<notin> set s \<and> CHR '':'' \<notin> set s"

lemma kinds_clean:
  assumes "k \<in> set behavior_kinds \<union> set risk_kinds \<union> {''behavior''}"
  shows "clean_text k \<and> 1 \<le> length k \<and> length k \<le> 17"
  using assms by (auto simp: behavior_kinds_def risk_kinds_def clean_text_def)

lemma anchor_id_clean: "anchor_id_ok i \<Longrightarrow> clean_text i \<and> 2 \<le> length i"
  by (cases i) (auto simp: anchor_id_ok_def clean_text_def all_in_iff)

definition candidate_ok :: "candidate \<Rightarrow> bool" where
  "candidate_ok c \<longleftrightarrow> diff_anchor_ok (cd_anchor c)
     \<and> cd_focus c \<in> set behavior_kinds \<union> set risk_kinds \<union> {''behavior''}"

lemma candidate_pool_ok:
  assumes "analysis_snapshot_ok a" and "c \<in> set (candidate_pool a)"
  shows "candidate_ok c"
proof -
  have "named_kinds a i \<subseteq> set behavior_kinds \<union> set risk_kinds" for i
    using assms(1) by (auto simp: named_kinds_def analysis_snapshot_ok_def list_all_iff
        behavioral_change_ok_def risk_signal_ok_def)
  then show ?thesis
    using candidate_pool_member [OF assms(2)] assms(1)
    by (auto simp: candidate_ok_def analysis_snapshot_ok_def list_all_iff)
qed

lemma candidate_ok_clean:
  "candidate_ok c \<Longrightarrow> clean_text (cd_focus c) \<and> clean_text (da_id (cd_anchor c))"
  using kinds_clean anchor_id_clean by (simp add: candidate_ok_def diff_anchor_ok_def)

lemma candidate_key_pool_key:
  assumes "candidate_ok c" and "candidate_ok d" and "candidate_key c = candidate_key d"
  shows "pool_key c = pool_key d"
proof -
  note cl = candidate_ok_clean [OF assms(1)] candidate_ok_clean [OF assms(2)]
  have "da_id (cd_anchor c) @ CHR '':'' # cd_focus c @ CHR '':'' # intent_name (cd_intent c)
      = da_id (cd_anchor d) @ CHR '':'' # cd_focus d @ CHR '':'' # intent_name (cd_intent d)"
    using assms(3) by (simp add: candidate_key_def)
  then have "da_id (cd_anchor c) = da_id (cd_anchor d)"
    and "cd_focus c @ CHR '':'' # intent_name (cd_intent c) = cd_focus d @ CHR '':'' # intent_name (cd_intent d)"
    using cl separator_unique [of "CHR '':''"] unfolding clean_text_def by blast+
  moreover from this(2) have "intent_name (cd_intent c) = intent_name (cd_intent d)"
    using cl separator_unique [of "CHR '':''"] unfolding clean_text_def by blast
  ultimately show ?thesis
    by (simp add: pool_key_def intent_name_inj)
qed

lemma prompt_pool_key:
  assumes "candidate_ok c" and "candidate_ok d" and "prompt_for env c = prompt_for env d"
  shows "pool_key c = pool_key d"
proof -
  note cl = candidate_ok_clean [OF assms(1)] candidate_ok_clean [OF assms(2)]
  have i: "cd_intent c = cd_intent d"
    using assms(3) by (cases "cd_intent c"; cases "cd_intent d") (simp_all add: prompt_for_def)
  then have "location_text env c = location_text env d"
    using assms(3) by (cases "cd_intent d") (simp_all add: prompt_for_def)
  then have "cd_focus c @ CHR '' '' # ''anchor '' @ da_id (cd_anchor c) @ CHR '' '' # ''in ''
        @ bounded_display_path env (da_file (cd_anchor c)) @ '' near new line ''
        @ string_of_int (da_newStart (cd_anchor c))
      = cd_focus d @ CHR '' '' # ''anchor '' @ da_id (cd_anchor d) @ CHR '' '' # ''in ''
        @ bounded_display_path env (da_file (cd_anchor d)) @ '' near new line ''
        @ string_of_int (da_newStart (cd_anchor d))"
    by (simp add: location_text_def)
  then have "''anchor '' @ da_id (cd_anchor c) @ CHR '' '' # ''in ''
        @ bounded_display_path env (da_file (cd_anchor c)) @ '' near new line ''
        @ string_of_int (da_newStart (cd_anchor c))
      = ''anchor '' @ da_id (cd_anchor d) @ CHR '' '' # ''in ''
        @ bounded_display_path env (da_file (cd_anchor d)) @ '' near new line ''
        @ string_of_int (da_newStart (cd_anchor d))"
    using cl separator_unique [of "CHR '' ''"] unfolding clean_text_def by blast
  then have "da_id (cd_anchor c) = da_id (cd_anchor d)"
    using cl separator_unique [of "CHR '' ''"] unfolding clean_text_def append_same_eq by simp
  then show ?thesis
    by (simp add: pool_key_def i)
qed

section \<open>Every text fits its schema\<close>

lemma bounded_display_path_length:
  "length (pe_ellipsis env) = 1 \<Longrightarrow> length (bounded_display_path env path) \<le> 240"
  by (simp add: bounded_display_path_def)

lemma location_length:
  assumes "candidate_ok c" and "length (da_id (cd_anchor c)) \<le> 100" and "length (pe_ellipsis env) = 1"
  shows "length (location_text env c) \<le> 420"
proof -
  have "length (cd_focus c) \<le> 17" and "length (string_of_int (da_newStart (cd_anchor c))) \<le> 16"
    using assms(1) kinds_clean safe_integer_length by (auto simp: candidate_ok_def diff_anchor_ok_def)
  then show ?thesis
    using assms(2) bounded_display_path_length [OF assms(3), of "da_file (cd_anchor c)"]
    by (simp add: location_text_def)
qed

lemma prompt_length:
  "length (location_text env c) \<le> 420 \<Longrightarrow> length_in 20 600 (prompt_for env c)"
  by (cases "cd_intent c") (simp_all add: prompt_for_def length_in_def)

lemma rubric_for_ok: "length (da_id (cd_anchor c)) \<le> 100 \<Longrightarrow> rubric_ok (rubric_for c)"
  by (cases "cd_intent c") (simp_all add: rubric_for_def rubric_ok_def length_in_def second_point_def)

lemma rationale_ok:
  assumes "analysis_snapshot_ok a" and "int_in 0 5 n"
  shows "list_all (length_in 1 300) (rationale a n) \<and> rationale a n \<noteq> []"
proof -
  have "length (risk_level_name (as_riskLevel a)) \<le> 9"
    by (cases "as_riskLevel a") simp_all
  moreover have "length (string_of_int (as_generatedChangedLines a)) \<le> 16"
    using assms(1) safe_integer_length by (simp add: analysis_snapshot_ok_def)
  ultimately show ?thesis
    using assms small_integer_length
    by (auto simp: rationale_def length_in_def Let_def analysis_snapshot_ok_def risk_vector_ok_def)
qed

lemma diff_anchor_hidden: "diff_anchor_ok a \<Longrightarrow> diff_anchor_ok (a\<lparr>da_evidence := hidden_evidence\<rparr>)"
  by (simp add: diff_anchor_ok_def hidden_evidence_def length_in_def)

section \<open>Every sound analysis is planned\<close>

lemma budget_plan:
  assumes "analysis_snapshot_ok a" and "repository_policy_ok pol"
  shows "\<exists>bp. plan_proof_budget a pol = Inr bp
    \<and> (case bp of Budget_ready n r \<Rightarrow> 1 \<le> n \<and> n \<le> 5 \<and> n = requested_budget a pol
          \<and> as_anchors a \<noteq> [] \<and> r = rationale a (requested_budget a pol)
       | Budget_split r t \<Rightarrow> requested_budget a pol = 0 \<and> length_in 1 500 t
          \<and> r = rationale a (requested_budget a pol))"
  using assms requested_budget_bounds [OF assms(2), of a]
  by (auto simp: plan_proof_budget_def Let_def length_in_def requested_budget_def)

lemma distinct_map_imp:
  assumes "distinct (map f xs)"
    and "\<And>x y. x \<in> set xs \<Longrightarrow> y \<in> set xs \<Longrightarrow> g x = g y \<Longrightarrow> f x = f y"
  shows "distinct (map g xs)"
proof -
  have "inj_on g (set xs)"
    using assms by (intro inj_onI) (metis distinct_map inj_onD)
  then show ?thesis
    using assms(1) by (simp add: distinct_map)
qed

lemma selected_distinct:
  assumes "distinct (map pool_key (candidate_pool (pi_analysis i)))"
  shows "distinct (map pool_key (selected_candidates env i bp))"
proof -
  have "distinct (map pool_key (stable_order env (candidate_pool (pi_analysis i)) (domain_seed i) candidate_key))"
    using assms by (simp add: stable_order_def distinct_map)
  then show ?thesis
    unfolding selected_candidates_def take_map [symmetric] by (rule distinct_take)
qed

lemma sound_analysis_is_planned:
  assumes input: "plan_proof_input_ok i" and "distinct (map da_id (as_anchors (pi_analysis i)))"
    and short: "\<And>a. a \<in> set (as_anchors (pi_analysis i)) \<Longrightarrow> length (da_id a) \<le> 100"
    and sha: "\<And>b. length (pe_sha env b) = 32" and uuid: "\<And>u. uuid_v5 u \<Longrightarrow> pe_uuid env u"
    and ellipsis: "length (pe_ellipsis env) = 1"
    and inj: "inj_on (deterministic_uuid env) (proof_texts i)"
  shows "\<exists>p. plan_proof env (Some t) i = Inr p"
proof -
  let ?a = "pi_analysis i" and ?pol = "pi_policy i"
  have ok: "analysis_snapshot_ok ?a" "repository_policy_ok ?pol" "planner_versions_ok (pi_versions i)"
    using input by (simp_all add: plan_proof_input_ok_def)
  obtain bp where bp: "plan_proof_budget ?a ?pol = Inr bp"
    and bpc: "case bp of Budget_ready n r \<Rightarrow> 1 \<le> n \<and> n \<le> 5 \<and> n = requested_budget ?a ?pol
          \<and> as_anchors ?a \<noteq> [] \<and> r = rationale ?a (requested_budget ?a ?pol)
       | Budget_split r t \<Rightarrow> requested_budget ?a ?pol = 0 \<and> length_in 1 500 t
          \<and> r = rationale ?a (requested_budget ?a ?pol)"
    using budget_plan [OF ok(1,2)] by blast
  let ?cs = "selected_candidates env i bp"
  have count: "int (length ?cs) = requested_budget ?a ?pol"
    by (rule length_selected [OF bp refl])
  have budget: "int_in 0 5 (requested_budget ?a ?pol)" and five: "length ?cs \<le> 5"
    using bpc count by (auto simp: int_in_def split: proof_budget_plan.splits)
  have cok: "candidate_ok c" "length (da_id (cd_anchor c)) \<le> 100" if "c \<in> set ?cs" for c
    using candidate_pool_ok [OF ok(1)] candidate_pool_member short selected_member [OF that] by blast+
  define text_of where "text_of c = domain_seed i @ '':question:'' @ candidate_key c" for c
  have "\<exists>u. deterministic_uuid env (text_of c) = Inr u \<and> uuid_v5 u" for c
    by (rule deterministic_uuid_total [OF sha])
  then obtain uid where uid: "\<And>c. deterministic_uuid env (text_of c) = Inr (uid c) \<and> uuid_v5 (uid c)"
    by metis
  define q where "q nc = \<lparr>pq_id = uid (snd nc), pq_order = int (fst nc) + 1,
      pq_intent = cd_intent (snd nc), pq_focus = cd_focus (snd nc), pq_prompt = prompt_for env (snd nc),
      pq_anchor = (cd_anchor (snd nc))\<lparr>da_evidence := hidden_evidence\<rparr>, pq_rubric = rubric_for (snd nc),
      pq_maximumAnswerSeconds = (if as_riskLevel ?a = High_risk then 120 else 90)\<rparr>" for nc
  define qs where "qs = map q (enumerate 0 ?cs)"
  have run: "map_result (question_of env i) (enumerate 0 ?cs) = Inr qs"
    unfolding qs_def using uid
    by (intro map_result_map) (auto simp: question_of_def q_def text_of_def)
  have nth: "qs ! n = q (n, ?cs ! n)" if "n < length ?cs" for n
    using that by (simp add: qs_def nth_enumerate_eq)
  have len: "length qs = length ?cs"
    by (simp add: qs_def)
  have keys: "distinct (map pool_key ?cs)"
    using candidate_pool_distinct [OF assms(2)] by (rule selected_distinct)
  have ids: "distinct (map pq_id qs)" and prompts: "distinct (map pq_prompt qs)"
  proof -
    have "map pq_id qs = map uid ?cs" and m: "map pq_prompt qs = map (prompt_for env) ?cs"
      using nth len by (auto intro!: nth_equalityI simp: q_def)
    moreover have "distinct (map uid ?cs)"
    proof (rule distinct_map_imp [OF keys])
      fix c d assume c: "c \<in> set ?cs" and d: "d \<in> set ?cs" and "uid c = uid d"
      then have "deterministic_uuid env (text_of c) = deterministic_uuid env (text_of d)"
        using uid by metis
      moreover have "text_of c \<in> proof_texts i" "text_of d \<in> proof_texts i"
        using selected_member c d by (auto simp: proof_texts_def text_of_def)
      ultimately have "text_of c = text_of d"
        using inj by (auto dest: inj_onD)
      then have "candidate_key c = candidate_key d"
        by (simp add: text_of_def)
      then show "pool_key c = pool_key d"
        using cok c d by (intro candidate_key_pool_key)
    qed
    moreover have "distinct (map (prompt_for env) ?cs)"
      using cok prompt_pool_key by (intro distinct_map_imp [OF keys]) blast
    ultimately show "distinct (map pq_id qs)" and "distinct (map pq_prompt qs)"
      by simp_all
  qed
  have each: "proof_question_ok (pe_uuid env) (q (n, c))" if "c \<in> set ?cs" and "n < 5" for n c
    using that cok [OF that(1)] uuid uid kinds_clean [of "cd_focus c"]
      prompt_length [OF location_length [OF cok(1) [OF that(1)] cok(2) [OF that(1)] ellipsis]]
      rubric_for_ok [OF cok(2) [OF that(1)]]
    by (simp add: proof_question_ok_def q_def int_in_def length_in_def candidate_ok_def diff_anchor_hidden)
  have "list_all (proof_question_ok (pe_uuid env)) qs"
    using each nth len five by (auto simp: list_all_length)
  moreover obtain pid where pid: "deterministic_uuid env (domain_seed i @ '':plan'') = Inr pid" "uuid_v5 pid"
    using deterministic_uuid_total [OF sha] by blast
  let ?b = "body_of env (Some t) i bp pid qs"
  let ?p = "with_hash ?b (sha256 env (stringify (plan_json ?b (pe_iso env t))))"
  have "card (pq_id ` set qs) = length qs" "card (pq_prompt ` set qs) = length qs"
    using distinct_card [OF ids] distinct_card [OF prompts] by simp_all
  then have "proof_plan_ok (pe_uuid env) ?p"
    using calculation pid(2) uuid ok len five count budget bpc rationale_ok [OF ok(1) budget]
      sha256_text_ok [OF sha]
    by (auto simp: proof_plan_ok_def body_of_def analysis_snapshot_ok_def planner_versions_ok_def
        int_in_def split: proof_budget_plan.splits)
  then have "plan_proof env (Some t) i = Inr ?p"
    using input bp run pid(1) by (simp add: plan_proof_def Let_def)
  then show ?thesis by blast
qed

section \<open>The analyzer's anchors are few enough\<close>

definition pending :: "diff_anchor list \<times> open_hunk option \<Rightarrow> nat" where
  "pending st = length (fst st)
     + (case snd st of Some h \<Rightarrow> if oh_changed h = [] then 0 else 1 | None \<Rightarrow> 0)"

lemma read_line_pending: "pending (read_line path first st line) \<le> pending st + 1"
  by (cases st) (auto simp: read_line_def pending_def flush_hunk_def split: option.splits)

lemma read_lines_pending: "pending (foldl (read_line path first) st ls) \<le> pending st + length ls"
proof (induction ls arbitrary: st)
  case (Cons l ls)
  have "pending (foldl (read_line path first) (read_line path first st l) ls)
      \<le> pending (read_line path first st l) + length ls"
    by (rule Cons.IH)
  also have "\<dots> \<le> pending st + length (l # ls)"
    using read_line_pending [of path first st l] by simp
  finally show ?case by simp
qed simp

lemma split_on_length: "length (split_on c s) \<le> length s + 1"
  by (induction s) (auto split: list.split)

lemma utf8_length: "length s \<le> length (utf8_bytes s)"
proof (induction s)
  case (Cons c s)
  then show ?case
    using utf8_char_ne [of c] by (cases "utf8_char c") (simp_all add: utf8_bytes_def)
qed simp

lemma parse_anchors_length:
  "pf_patch f = Some t \<Longrightarrow> length (parse_anchors f k) \<le> length (utf8_bytes t) + 1"
proof -
  assume f: "pf_patch f = Some t"
  let ?st = "foldl (read_line (pf_path f) k) ([], None) (split_on (CHR 0x0A) t)"
  have "length (parse_anchors f k) \<le> pending ?st"
    using f by (cases ?st) (auto simp: parse_anchors_def flush_hunk_def pending_def split: option.splits)
  also have "\<dots> \<le> length (split_on (CHR 0x0A) t)"
    using read_lines_pending [of "pf_path f" k "([], None)"] by (simp add: pending_def)
  finally show ?thesis
    using split_on_length [of "CHR 0x0A" t] utf8_length [of t] by simp
qed

definition few_anchors :: "file_scan \<Rightarrow> bool" where
  "few_anchors st \<longleftrightarrow> int (length (fs_anchors st)) \<le> fs_patchBytes st + int (length (fs_analyzed st))"

lemma scan_files_few:
  assumes "few_anchors st" and "fs_patchBytes st \<le> al_maximumPatchBytes limits"
  shows "few_anchors (scan_files limits st files)
    \<and> fs_patchBytes (scan_files limits st files) \<le> al_maximumPatchBytes limits
    \<and> length (fs_analyzed (scan_files limits st files)) \<le> length (fs_analyzed st) + length files"
  using assms
proof (induction files arbitrary: st)
  case (Cons f fs)
  have hit: "few_anchors (hit_limit l st)" "fs_patchBytes (hit_limit l st) = fs_patchBytes st"
    "fs_analyzed (hit_limit l st) = fs_analyzed st" for l
    using Cons.prems by (simp_all add: few_anchors_def hit_limit_def)
  show ?case
  proof (cases rule: scan_files_cases [of f limits st fs])
    case untouched
    then show ?thesis
      using Cons.IH [of "st\<lparr>fs_analyzed := fs_analyzed st @ [f]\<rparr>"] Cons.prems
      by (simp add: few_anchors_def)
  next
    case (skipped l)
    then show ?thesis
      using Cons.IH [of "hit_limit l st"] hit [of l] Cons.prems by (simp del: scan_files.simps)
  next
    case (stopped l)
    then show ?thesis
      using hit [of l] Cons.prems by (simp del: scan_files.simps)
  next
    case analyzed
    then obtain t where "pf_patch f = Some t" by auto
    then have "few_anchors (analyze_file st f)"
      using Cons.prems parse_anchors_length [of f t "length (fs_anchors st)"]
      by (simp add: few_anchors_def analyze_file_def)
    then show ?thesis
      using analyzed Cons.IH [of "analyze_file st f"]
      by (simp add: analyze_file_simps del: scan_files.simps)
  qed
qed simp

lemma analyzer_anchor_ids:
  assumes "analyze_pull_request_patch p l = Inr s" and "a \<in> set (as_anchors s)"
  shows "length (da_id a) \<le> 100"
proof -
  let ?start = "\<lparr>fs_patchBytes = 0, fs_changedLines = 0, fs_anchors = [], fs_analyzed = [],
      fs_limitsHit = [], fs_hardLimitHit = False\<rparr>"
  have lim: "al_maximumPatchBytes l \<le> 20000000" "al_maximumFiles l \<le> 2000" "0 \<le> al_maximumPatchBytes l"
    using assms(1) by (auto simp: analyze_pull_request_patch_def analysis_limits_ok_def int_in_def
        split: if_splits)
  have as: "as_anchors s = fs_anchors (scan_relevant p l)"
    unfolding analyze_D [OF assms(1)] by (rule snapshot_fields)
  obtain st where st: "scan_relevant p l = scan_files l st (take (al_maximumFiles l) (relevant_files p))"
    "few_anchors st" "fs_patchBytes st = 0" "fs_analyzed st = []"
  proof
    show "scan_relevant p l = scan_files l (if length (relevant_files p) > al_maximumFiles l
        then hit_limit ''file_count'' ?start else ?start) (take (al_maximumFiles l) (relevant_files p))"
      by (simp add: scan_relevant_def Let_def)
  qed (auto simp: few_anchors_def hit_limit_def)
  then have "few_anchors (scan_relevant p l)" "fs_patchBytes (scan_relevant p l) \<le> 20000000"
    "length (fs_analyzed (scan_relevant p l)) \<le> 2000"
    using scan_files_few [of st l "take (al_maximumFiles l) (relevant_files p)"] lim by auto
  then have "length (as_anchors s) < 10 ^ 8"
    unfolding as few_anchors_def by simp
  moreover obtain n where "n < length (as_anchors s)" "da_id a = anchor_id n"
    using scan_relevant_ok [of p l] assms(2) unfolding as scan_ok_def
    by (metis (no_types, lifting) in_set_conv_nth length_map nth_map nth_upt add_0 diff_zero length_upt)
  ultimately show ?thesis
    using string_of_int_length [of "int n" 8] by (simp add: anchor_id_def)
qed

lemma snapshot_head: "as_headSha (snapshot_of p l) = pr_headSha p"
  by (simp add: snapshot_of_def Let_def)

text \<open>C18: whatever the analyzer accepts, the planner can plan: with any valid policy and seed, every
  snapshot of a pull request gets a plan, so a run never stops between the two. The digest has 32
  bytes and the identifiers of the plan's candidates do not collide.\<close>

theorem every_analysis_can_be_planned:
  assumes "analyze_pull_request_patch patch limits = Inr (pi_analysis i)"
    and "repository_policy_ok (pi_policy i)" and "planner_versions_ok (pi_versions i)"
    and "32 \<le> length (pi_serverSeed i)" and "length (pi_serverSeed i) \<le> 512"
    and "\<forall>b. length (pe_sha env b) = 32" and "\<forall>u. uuid_v5 u \<longrightarrow> pe_uuid env u"
    and "length (pe_ellipsis env) = 1" and "inj_on (deterministic_uuid env) (proof_texts i)"
  shows "\<exists>p. plan_proof env (Some t) i = Inr p \<and> pl_headSha p = pr_headSha patch"
proof -
  have "analysis_snapshot_ok (pi_analysis i)"
    using assms(1) by (auto simp: analyze_pull_request_patch_def Let_def split: if_splits)
  then have "plan_proof_input_ok i"
    using assms(2-5) by (simp add: plan_proof_input_ok_def length_in_def)
  moreover have "distinct (map da_id (as_anchors (pi_analysis i)))"
    using scan_relevant_ok [of patch limits] unfolding analyze_D [OF assms(1)] snapshot_fields scan_ok_def
    by (auto simp: distinct_map inj_on_def anchor_id_inj)
  ultimately obtain p where p: "plan_proof env (Some t) i = Inr p"
    using sound_analysis_is_planned [of i env t] analyzer_anchor_ids [OF assms(1)] assms(6-9) by blast
  moreover have "pl_headSha p = pr_headSha patch"
    by (rule plan_proofE [OF p]) (simp add: body_of_def analyze_D [OF assms(1)] snapshot_head)
  ultimately show ?thesis by blast
qed

section \<open>A concrete plan\<close>

definition demo_digest :: "bytes \<Rightarrow> bytes" where
  "demo_digest b = b ! 2 # take 31 (rev b @ replicate 31 0)"

definition demo_env :: planner_env where
  "demo_env = \<lparr>pe_sha = demo_digest, pe_uuid = uuid_v5,
     pe_iso = string_of_int, pe_ellipsis = ''~''\<rparr>"

lemma demo_env_simps: "length (pe_sha demo_env b) = 32" "pe_uuid demo_env = uuid_v5"
  "pe_iso demo_env = string_of_int" "length (pe_ellipsis demo_env) = 1"
  by (simp_all add: demo_env_def demo_digest_def)

definition demo_policy :: repository_policy where
  "demo_policy = \<lparr>pol_schemaVersion = ''1'', pol_decisionMode = ''maintainer_review'',
     pol_proof = \<lparr>pp_minimumQuestions = 1, pp_maximumQuestions = 2,
       pp_maximumDurationSeconds = 60, pp_maximumUploadBytes = 1\<rparr>,
     pol_evidence = \<lparr>ep_retentionHours = 1, ep_deleteAfterMaintainerPass = True\<rparr>\<rparr>"

definition demo_plan_input :: plan_proof_input where
  "demo_plan_input = \<lparr>pi_analysis = demo_snapshot, pi_policy = demo_policy,
     pi_serverSeed = replicate 32 (CHR ''s''),
     pi_versions = \<lparr>pv_planner = ''proof-planner-v1'', pv_questionTemplates = ''proof-questions-v1''\<rparr>\<rparr>"

definition demo_practice :: practice_input where
  "demo_practice = \<lparr>pc_analysis = demo_snapshot, pc_practiceSeed = replicate 32 (CHR ''t''),
     pc_maximumItems = 2\<rparr>"

definition demo_texts :: "string list" where
  "demo_texts = map (\<lambda>item. practice_seed demo_practice @ '':question:'' @ fst item) practice_pool
     @ map (\<lambda>c. domain_seed demo_plan_input @ '':question:'' @ candidate_key c)
         (candidate_pool (pi_analysis demo_plan_input))"

text \<open>The identifier starts with the third and the last three characters of an ASCII text.\<close>

definition ascii_text :: "string \<Rightarrow> bool" where
  "ascii_text v \<longleftrightarrow> list_all (\<lambda>c. (of_char c :: nat) < 128) v \<and> 2 < length v"

definition demo_mark :: "string \<Rightarrow> string" where
  "demo_mark v = v ! 2 # take 3 (rev v)"

lemma ascii_bytes: "ascii_text v \<Longrightarrow> utf8_bytes v = map (\<lambda>c. of_nat (of_char c)) v"
proof -
  assume "ascii_text v"
  then have "\<forall>c\<in>set v. (of_char c :: nat) < 128"
    by (simp add: ascii_text_def list_all_iff)
  then show ?thesis
    by (induction v) (simp_all add: utf8_bytes_def utf8_char_def Let_def)
qed

lemma uuid_first_bytes:
  "deterministic_uuid env v = Inr u \<Longrightarrow>
   take 8 u = encode_hex (take 4 (hex_pairs (slice 0 32 (sha256 env v))))"
  using encode_hex_take [of 4]
  by (auto simp: deterministic_uuid_def Let_def slice_def split: if_splits)

lemma demo_uuid_mark:
  assumes "ascii_text v" and "ascii_text w" and "deterministic_uuid demo_env v = deterministic_uuid demo_env w"
  shows "demo_mark v = demo_mark w"
proof -
  let ?f = "\<lambda>c. of_nat (of_char c) :: byte"
  have first: "take 4 (hex_pairs (slice 0 32 (sha256 demo_env x))) = map ?f (demo_mark x)"
    if "ascii_text x" for x
  proof -
    have "slice 0 32 (sha256 demo_env x) = encode_hex (take 16 (demo_digest (utf8_bytes x)))"
      using encode_hex_take [of 16 "demo_digest (utf8_bytes x)"]
      by (simp add: slice_def sha256_def demo_env_def)
    then show ?thesis
      using that ascii_bytes [OF that] encode_hex_ok [of "take 16 (demo_digest (utf8_bytes x))"]
      by (simp add: demo_digest_def demo_mark_def ascii_text_def rev_map take_map)
  qed
  obtain u where u: "deterministic_uuid demo_env v = Inr u" "deterministic_uuid demo_env w = Inr u"
    using deterministic_uuid_total [of demo_env v] assms(3) demo_env_simps(1) by auto
  have "encode_hex (map ?f (demo_mark v)) = encode_hex (map ?f (demo_mark w))"
    using uuid_first_bytes [OF u(1)] uuid_first_bytes [OF u(2)]
    unfolding first [OF assms(1)] first [OF assms(2)] by simp
  then have "map ?f (demo_mark v) = map ?f (demo_mark w)"
    using hex.enc_inj by blast
  moreover have "map ?f (demo_mark x) = utf8_bytes (demo_mark x)" if "ascii_text x" for x
    using that by (intro ascii_bytes [symmetric])
      (auto simp: ascii_text_def demo_mark_def list_all_iff dest!: in_set_takeD)
  ultimately show ?thesis
    using assms(1,2) utf8_bytes_inj by metis
qed

lemma demo_candidates:
  "map candidate_key (candidate_pool demo_snapshot) =
     [''a0:concurrency:explain'', ''a0:untested_behavior:predict'', ''a0:concurrency:failure_path'',
      ''a0:untested_behavior:test_and_rollback'', ''a0:concurrency:tradeoff'']"
proof -
  have order: "sort (remdups [''concurrency'', ''concurrency'', ''untested_behavior''])
      = [''concurrency'', ''untested_behavior'']"
    by (simp add: less_char_def)
  have "focus_by_anchor demo_snapshot = [(''a0'', [''concurrency'', ''concurrency'', ''untested_behavior''])]"
    by (simp add: focus_by_anchor_def demo_snapshot_def)
  moreover have "anchor_by_id demo_snapshot ''a0'' = Some demo_anchor"
    by (simp add: anchor_by_id_def demo_snapshot_def demo_anchor_def)
  moreover have "map candidate_key (anchor_candidates demo_anchor [''concurrency'', ''concurrency'', ''untested_behavior''])
      = [''a0:concurrency:explain'', ''a0:untested_behavior:predict'', ''a0:concurrency:failure_path'',
         ''a0:untested_behavior:test_and_rollback'', ''a0:concurrency:tradeoff'']"
    unfolding anchor_candidates_def order Let_def
    by (simp add: intents_def focus_at_def candidate_key_def demo_anchor_def mod_Suc)
  moreover have "anchor_candidates demo_anchor ks \<noteq> []" for ks
    by (metis length_anchor_candidates list.size(3) zero_neq_numeral)
  ultimately show ?thesis
    by (simp add: candidate_pool_def)
qed

lemma demo_texts_eq:
  "demo_texts = map (\<lambda>s. practice_seed demo_practice @ '':question:'' @ s)
       [''patch_map'', ''behavior'', ''risk'', ''testing'', ''rollback'']
     @ map (\<lambda>s. domain_seed demo_plan_input @ '':question:'' @ s)
       (map candidate_key (candidate_pool demo_snapshot))"
  by (simp add: demo_texts_def practice_pool_def demo_plan_input_def comp_def)

lemma demo_seeds_ascii:
  "ascii_text (practice_seed demo_practice)" "ascii_text (domain_seed demo_plan_input)"
  "practice_seed demo_practice ! 2 = CHR ''a''" "domain_seed demo_plan_input ! 2 = CHR ''o''"
  by (simp_all add: ascii_text_def practice_seed_def demo_practice_def demo_snapshot_def
      demo_commit_def domain_seed_def demo_plan_input_def list_all_iff)

lemma ascii_append: "ascii_text x \<Longrightarrow> list_all (\<lambda>c. (of_char c :: nat) < 128) y \<Longrightarrow> ascii_text (x @ y)"
  by (simp add: ascii_text_def)

lemma demo_mark_append: "ascii_text x \<Longrightarrow> 3 \<le> length y \<Longrightarrow> demo_mark (x @ y) = x ! 2 # take 3 (rev y)"
  by (simp add: demo_mark_def ascii_text_def nth_append)

lemma demo_marks: "distinct (map demo_mark demo_texts)" "list_all ascii_text demo_texts"
  unfolding demo_texts_eq demo_candidates
  by (simp_all add: demo_seeds_ascii demo_mark_append ascii_append)

lemma demo_uuids: "distinct (map (deterministic_uuid demo_env) demo_texts)"
  using demo_marks(2) demo_uuid_mark
  by (intro distinct_map_imp [OF demo_marks(1)]) (simp add: list_all_iff)

lemma demo_inj: "inj_on (deterministic_uuid demo_env)
    (practice_texts demo_practice \<union> proof_texts demo_plan_input)"
proof -
  have "practice_texts demo_practice \<union> proof_texts demo_plan_input = set demo_texts"
    by (simp add: practice_texts_def proof_texts_def demo_texts_def)
  then show ?thesis
    using demo_uuids by (simp add: distinct_map)
qed

lemma demo_plan_input_parts: "repository_policy_ok (pi_policy demo_plan_input)"
  "planner_versions_ok (pi_versions demo_plan_input)" "length (pi_serverSeed demo_plan_input) = 32"
  "pi_analysis demo_plan_input = demo_snapshot"
  by (simp_all add: demo_plan_input_def demo_policy_def repository_policy_ok_def planner_versions_ok_def)

theorem every_analysis_can_be_planned_witness:
  "\<exists>p. plan_proof demo_env (Some 0) demo_plan_input = Inr p \<and> pl_headSha p = demo_commit"
  using every_analysis_can_be_planned [of "demo_patch ''a/b''" demo_limits demo_plan_input demo_env 0]
    demo_analysis demo_env_simps demo_plan_input_parts inj_on_subset [OF demo_inj]
  by (simp add: demo_patch_def)

lemma demo_snapshot_ok: "analysis_snapshot_ok demo_snapshot"
  using demo_analysis by (auto simp: analyze_pull_request_patch_def Let_def split: if_splits)

lemma demo_plan_exists: "\<exists>p. plan_proof demo_env (Some 0) demo_plan_input = Inr p"
proof (rule sound_analysis_is_planned)
  show "plan_proof_input_ok demo_plan_input"
    using demo_snapshot_ok demo_plan_input_parts by (simp add: plan_proof_input_ok_def length_in_def)
  show "inj_on (deterministic_uuid demo_env) (proof_texts demo_plan_input)"
    using inj_on_subset [OF demo_inj] by simp
qed (simp_all add: demo_env_simps demo_plan_input_def demo_snapshot_def demo_anchor_def)

lemma demo_anchors: "as_anchors demo_snapshot = [demo_anchor]" "as_riskLevel demo_snapshot = High_risk"
  by (simp_all add: demo_snapshot_def)

lemma demo_budget: "requested_budget demo_snapshot demo_policy = 2"
  by (simp add: requested_budget_def demo_snapshot_def demo_policy_def)

lemma demo_plan_input_simps: "pi_analysis demo_plan_input = demo_snapshot"
  "pi_policy demo_plan_input = demo_policy"
  by (simp_all add: demo_plan_input_def)

theorem plan_follows_the_policy_witness:
  "\<exists>p. plan_proof demo_env (Some 0) demo_plan_input = Inr p \<and> length (pl_questions p) = 2
     \<and> pl_status p = Ready_plan \<and> distinct (map pq_prompt (pl_questions p))"
proof -
  obtain p where p: "plan_proof demo_env (Some 0) demo_plan_input = Inr p"
    using demo_plan_exists by blast
  show ?thesis
    using p plan_follows_the_policy [OF p] by (simp add: demo_plan_input_simps demo_budget demo_anchors)
qed

theorem plan_questions_are_anchored_witness:
  "\<exists>p. plan_proof demo_env (Some 0) demo_plan_input = Inr p
     \<and> (\<forall>q\<in>set (pl_questions p). da_evidence (pq_anchor q) = hidden_evidence)"
proof -
  obtain p where p: "plan_proof demo_env (Some 0) demo_plan_input = Inr p"
    using demo_plan_exists by blast
  have "da_evidence (pq_anchor q) = hidden_evidence" if "q \<in> set (pl_questions p)" for q
    using plan_questions_are_anchored [OF p that] by auto
  then show ?thesis using p by blast
qed

theorem plan_ignores_patch_text_witness:
  "plan_proof demo_env (Some 0) (demo_plan_input\<lparr>pi_analysis := demo_snapshot\<lparr>as_anchors :=
      [demo_anchor\<lparr>da_evidence := ''x''\<rparr>]\<rparr>\<rparr>) = plan_proof demo_env (Some 0) demo_plan_input"
  using plan_ignores_patch_text [of demo_plan_input "\<lambda>_. ''x''" demo_env "Some 0"]
  by (simp add: demo_plan_input_simps demo_snapshot_ok demo_anchors)

lemma string_of_int_inj: "inj string_of_int"
  by (simp add: inj_def string_of_int_def json_number_inj)

theorem plan_hash_determines_the_plan_witness:
  "\<exists>p p'. plan_proof demo_env (Some 0) demo_plan_input = Inr p
     \<and> plan_proof demo_env (Some 0) (demo_plan_input\<lparr>pi_serverSeed := replicate 32 (CHR ''s'')\<rparr>) = Inr p'
     \<and> pl_planHash p = pl_planHash p' \<and> p = p'"
proof -
  obtain p where p: "plan_proof demo_env (Some 0) demo_plan_input = Inr p"
    using demo_plan_exists by blast
  moreover have p': "plan_proof demo_env (Some 0)
      (demo_plan_input\<lparr>pi_serverSeed := replicate 32 (CHR ''s'')\<rparr>) = Inr p"
    using p by (simp add: demo_plan_input_def)
  ultimately show ?thesis
    using plan_hash_determines_the_plan [OF p p'] string_of_int_inj by (auto simp: demo_env_simps)
qed

section \<open>Practice sets\<close>

text \<open>A practice set is always produced: the pool and the identifiers fit the schema.\<close>

lemma practice_is_created:
  assumes input: "practice_input_ok j" and sha: "\<And>b. length (pe_sha env b) = 32"
    and uuid: "\<And>u. uuid_v5 u \<Longrightarrow> pe_uuid env u"
  shows "\<exists>s. create_practice_set env (Some t) j = Inr s
    \<and> length (ps_questions s) = nat (pc_maximumItems j)"
proof -
  define sel where "sel = take (nat (pc_maximumItems j)) (stable_order env practice_pool (practice_seed j) fst)"
  have n: "1 \<le> pc_maximumItems j" "pc_maximumItems j \<le> 5" and head: "git_sha_ok (as_headSha (pc_analysis j))"
    using input by (auto simp: practice_input_ok_def int_in_def analysis_snapshot_ok_def)
  have len: "length sel = nat (pc_maximumItems j)"
    using n by (simp add: sel_def stable_order_def practice_pool_def)
  have "\<exists>u. deterministic_uuid env (practice_seed j @ '':question:'' @ f) = Inr u \<and> uuid_v5 u" for f
    by (rule deterministic_uuid_total [OF sha])
  then obtain uid where uid: "\<And>f. deterministic_uuid env (practice_seed j @ '':question:'' @ f) = Inr (uid f)
      \<and> uuid_v5 (uid f)"
    by metis
  define q where "q it = \<lparr>pr_id = uid (fst (snd it)), pr_order = int (fst it) + 1,
      pr_focus = fst (snd it), pr_prompt = snd (snd it), pr_privateToPracticeSession = True\<rparr>"
    for it :: "nat \<times> string \<times> string"
  define qs where "qs = map q (enumerate 0 sel)"
  have run: "map_result (practice_question_of env j) (enumerate 0 sel) = Inr qs"
    unfolding qs_def using uid by (intro map_result_map) (auto simp: practice_question_of_def q_def)
  have pool: "item \<in> set practice_pool \<Longrightarrow>
      fst item \<in> set [''patch_map'', ''behavior'', ''risk'', ''testing'', ''rollback'']
      \<and> length_in 20 500 (snd item)" for item
    by (auto simp: practice_pool_def length_in_def)
  have "practice_question_ok (pe_uuid env) (q (k, item))" if "k < 5" "item \<in> set sel" for k item
    using that(1) pool [of item] in_set_takeD [OF that(2) [unfolded sel_def]] uid uuid
    by (simp add: practice_question_ok_def q_def int_in_def stable_order_def)
  then have "list_all (practice_question_ok (pe_uuid env)) qs"
    using len n by (auto simp: qs_def list_all_length nth_enumerate_eq)
  moreover obtain sid where sid: "deterministic_uuid env (practice_seed j @ '':set'') = Inr sid" "uuid_v5 sid"
    using deterministic_uuid_total [OF sha] by blast
  moreover have "length qs = nat (pc_maximumItems j)"
    by (simp only: qs_def length_map length_enumerate len)
  moreover have "1 \<le> nat (pc_maximumItems j)" "nat (pc_maximumItems j) \<le> 5"
    using n by simp_all
  ultimately show ?thesis
    using input run n head uuid sha256_text_ok [OF sha]
    by (simp add: create_practice_set_def practice_set_ok_def Let_def sel_def [symmetric])
qed

theorem practice_is_separated_from_proof_witness:
  "\<exists>s p. create_practice_set demo_env (Some 0) demo_practice = Inr s
     \<and> plan_proof demo_env (Some 0) demo_plan_input = Inr p
     \<and> length (ps_questions s) = 2 \<and> practice_and_proof_are_separated s p"
proof -
  have "practice_input_ok demo_practice"
    using demo_snapshot_ok by (simp add: practice_input_ok_def demo_practice_def length_in_def int_in_def)
  then obtain s where s: "create_practice_set demo_env (Some 0) demo_practice = Inr s"
    and "length (ps_questions s) = nat (pc_maximumItems demo_practice)"
    using practice_is_created [of demo_practice demo_env 0] demo_env_simps by auto
  moreover obtain p where p: "plan_proof demo_env (Some 0) demo_plan_input = Inr p"
    using demo_plan_exists by blast
  moreover have "practice_and_proof_are_separated s p"
    by (rule practice_is_separated_from_proof [OF s p demo_inj])
  ultimately show ?thesis
    by (simp add: demo_practice_def)
qed

end
