(* ===== verification/Revision_Source.thy ===== *)
theory Revision_Source
  imports Analyzer "HOL-Library.Product_Lexorder"
begin

text \<open>
  The first half of \<open>packages/analysis/src/generation-context.ts\<close>: the immutable source of a
  revision as GitHub delivers it, the limits, the hunks of a patch, and the bounded source with the
  refinement its schema checks. A status or a reason is the string of the source's enum; a count of
  bytes or lines is an \<open>int\<close>. \<open>SHA-256\<close> and zod's UUID grammar are parameters.
\<close>

datatype context_error = Context_invalid | Context_schema_error

section \<open>Patterns\<close>

fun up_to :: "nat \<Rightarrow> char_class \<Rightarrow> regex" where
  "up_to 0 c = Nothing"
| "up_to (Suc n) c = Alt (Seq (Class c) (up_to n c)) Nothing"

definition between :: "nat \<Rightarrow> nat \<Rightarrow> char_class \<Rightarrow> regex" where
  "between m n c = foldr (\<lambda>_. Seq (Class c)) [0..<m] (up_to (n - m) c)"

definition line_start :: regex where
  "line_start = Alt Start_of_input (Class (Only [CHR 0x0A]))"

definition archive_pattern :: regex where
  "archive_pattern = in_order [exactly ''.'', any_of (map ignoring_case
     [''7z'', ''a'', ''apk'', ''bz2'', ''cab'', ''dmg'', ''ear'', ''egg'', ''gz'', ''iso'', ''jar'', ''rar'',
      ''rpm'', ''tar'', ''tbz2'', ''tgz'', ''txz'', ''war'', ''whl'', ''xz'', ''zip'']), End_of_input]"

definition lfs_pointer_pattern :: regex where
  "lfs_pointer_pattern = in_order [line_start, optionally (Class (Only '' +-'')),
     exactly ''version https://git-lfs.github.com/spec/v1'',
     Alt (Seq (optionally (Class (Only [CHR 0x0D]))) (Class (Only [CHR 0x0A]))) End_of_input]"

definition submodule_patch_pattern :: regex where
  "submodule_patch_pattern = in_order [line_start, Class (Only ''+-''), exactly ''Subproject commit '',
     between 40 64 (Only lower_hex_chars), optionally (exactly ''-dirty''),
     Alt (Class (Only [CHR 0x0A])) End_of_input]"

definition is_deterministic_test_file :: "string \<Rightarrow> bool" where
  "is_deterministic_test_file path \<longleftrightarrow> regex_test
     (Alt (in_order [segment_start,
             any_of (map ignoring_case [''test'', ''tests'', ''__tests__'']), segment_end])
          (in_order [exactly ''.'', any_of (map ignoring_case [''test'', ''spec'']), exactly ''.'',
             Many (All_but ''./''), End_of_input])) path"

definition is_unusual_source_path :: "string \<Rightarrow> bool" where
  "is_unusual_source_path path \<longleftrightarrow>
     starts_with ''/'' path \<or> starts_with ''-'' path \<or> CHR 0x5C \<in> set path
     \<or> ''..'' \<in> set (split_on (CHR ''/'') path)
     \<or> list_ex (\<lambda>c. let n = (of_char c :: nat) in n \<le> 31 \<or> n = 127) path"

section \<open>The source of a revision\<close>

datatype git_kind = Blob | Symlink | Submodule

fun git_kind_name :: "git_kind \<Rightarrow> string" where
  "git_kind_name Blob = ''blob''"
| "git_kind_name Symlink = ''symlink''"
| "git_kind_name Submodule = ''submodule''"

record changed_file =
  cf_sha :: "string option"
  cf_filename :: string
  cf_previousFilename :: "string option"
  cf_status :: string
  cf_additions :: int
  cf_deletions :: int
  cf_changes :: int
  cf_patch :: "string option"
  cf_gitKind :: git_kind

record revision_source =
  gs_githubPullRequestId :: string
  gs_number :: int
  gs_state :: string
  gs_draft :: bool
  gs_title :: string
  gs_body :: "string option"
  gs_authorId :: string
  gs_authorLogin :: string
  gs_headSha :: string
  gs_baseSha :: string
  gs_changedFiles :: int
  gs_isFork :: bool
  gs_files :: "changed_file list"
  gs_limitFiles :: bool
  gs_limitPatchBytes :: bool
  gs_limitPatchUnavailable :: bool

definition utf8_size :: "string \<Rightarrow> int" where
  "utf8_size s = int (length (utf8_bytes s))"

definition file_statuses :: "string list" where
  "file_statuses = [''added'', ''removed'', ''modified'', ''renamed'', ''copied'', ''changed'', ''unchanged'']"

definition optional_ok :: "('a \<Rightarrow> bool) \<Rightarrow> 'a option \<Rightarrow> bool" where
  "optional_ok ok v = (case v of None \<Rightarrow> True | Some x \<Rightarrow> ok x)"

definition changed_file_ok :: "changed_file \<Rightarrow> bool" where
  "changed_file_ok f \<longleftrightarrow> optional_ok git_sha_ok (cf_sha f) \<and> length_in 1 1024 (cf_filename f)
     \<and> optional_ok (length_in 1 1024) (cf_previousFilename f) \<and> cf_status f \<in> set file_statuses
     \<and> nonnegative_int (cf_additions f) \<and> nonnegative_int (cf_deletions f)
     \<and> nonnegative_int (cf_changes f) \<and> optional_ok (length_in 0 131072) (cf_patch f)"

definition github_id_ok :: "string \<Rightarrow> bool" where
  "github_id_ok s \<longleftrightarrow> length_in 1 16 s \<and> hd s \<in> set ''123456789'' \<and> all_in ''0123456789'' s"

definition patch_text :: "string option \<Rightarrow> string" where
  "patch_text p = (case p of None \<Rightarrow> [] | Some t \<Rightarrow> t)"

definition revision_source_ok :: "revision_source \<Rightarrow> bool" where
  "revision_source_ok s \<longleftrightarrow>
     github_id_ok (gs_githubPullRequestId s) \<and> int_in 1 2147483647 (gs_number s)
     \<and> gs_state s \<in> {''open'', ''closed''} \<and> length_in 0 4096 (gs_title s)
     \<and> optional_ok (length_in 0 65536) (gs_body s) \<and> github_id_ok (gs_authorId s)
     \<and> length_in 1 100 (gs_authorLogin s) \<and> git_sha_ok (gs_headSha s) \<and> git_sha_ok (gs_baseSha s)
     \<and> nonnegative_int (gs_changedFiles s) \<and> list_all changed_file_ok (gs_files s)
     \<and> length (gs_files s) \<le> 300
     \<and> \<not> (sum_list (map (\<lambda>f. utf8_size (patch_text (cf_patch f))) (gs_files s)) > 2097152
          \<or> list_ex (\<lambda>f. utf8_size (patch_text (cf_patch f)) > 131072) (gs_files s))
     \<and> \<not> (int (length (gs_files s)) \<noteq> min (gs_changedFiles s) 300
          \<or> gs_limitFiles s \<noteq> (gs_changedFiles s > 300)
          \<or> (gs_limitPatchUnavailable s \<or> gs_limitPatchBytes s)
            \<noteq> list_ex (\<lambda>f. cf_patch f = None) (gs_files s))"

text \<open>The source hash is over \<open>JSON.stringify\<close> of the parsed source: members in schema order.\<close>

definition json_or_null :: "string option \<Rightarrow> json" where
  "json_or_null v = (case v of None \<Rightarrow> JNull | Some s \<Rightarrow> JStr s)"

definition changed_file_json :: "changed_file \<Rightarrow> json" where
  "changed_file_json f = JObj [(''sha'', json_or_null (cf_sha f)), (''filename'', JStr (cf_filename f)),
     (''previousFilename'', json_or_null (cf_previousFilename f)), (''status'', JStr (cf_status f)),
     (''additions'', JNum (cf_additions f)), (''deletions'', JNum (cf_deletions f)),
     (''changes'', JNum (cf_changes f)), (''patch'', json_or_null (cf_patch f)),
     (''gitKind'', JStr (git_kind_name (cf_gitKind f)))]"

definition revision_source_json :: "revision_source \<Rightarrow> json" where
  "revision_source_json s = JObj [
     (''githubPullRequestId'', JStr (gs_githubPullRequestId s)), (''number'', JNum (gs_number s)),
     (''state'', JStr (gs_state s)), (''draft'', JBool (gs_draft s)), (''title'', JStr (gs_title s)),
     (''body'', json_or_null (gs_body s)), (''authorId'', JStr (gs_authorId s)),
     (''authorLogin'', JStr (gs_authorLogin s)), (''headSha'', JStr (gs_headSha s)),
     (''baseSha'', JStr (gs_baseSha s)), (''changedFiles'', JNum (gs_changedFiles s)),
     (''isFork'', JBool (gs_isFork s)), (''files'', JArr (map changed_file_json (gs_files s))),
     (''limitsHit'', JObj [(''files'', JBool (gs_limitFiles s)),
       (''patchBytes'', JBool (gs_limitPatchBytes s)),
       (''patchUnavailable'', JBool (gs_limitPatchUnavailable s))])]"

definition hex_digest :: "(bytes \<Rightarrow> bytes) \<Rightarrow> string \<Rightarrow> string" where
  "hex_digest sha v = encode_hex (sha (utf8_bytes v))"

definition github_revision_source_hash :: "(bytes \<Rightarrow> bytes) \<Rightarrow> revision_source \<Rightarrow> context_error + string" where
  "github_revision_source_hash sha s =
     (if \<not> revision_source_ok s then Inl Context_invalid
      else Inr (hex_digest sha (stringify (revision_source_json s))))"

section \<open>Limits and exclusions\<close>

record generation_limits =
  gl_maximumFiles :: int
  gl_maximumHunks :: int
  gl_maximumTotalBytes :: int
  gl_maximumFileBytes :: int
  gl_maximumTitleBytes :: int
  gl_maximumBodyBytes :: int
  gl_maximumExcerpts :: int
  gl_maximumExcerptBytes :: int

definition generation_limits_ok :: "generation_limits \<Rightarrow> bool" where
  "generation_limits_ok l \<longleftrightarrow>
     int_in 1 120 (gl_maximumFiles l) \<and> int_in 1 400 (gl_maximumHunks l)
     \<and> int_in 1024 524288 (gl_maximumTotalBytes l) \<and> int_in 512 65536 (gl_maximumFileBytes l)
     \<and> int_in 64 2048 (gl_maximumTitleBytes l) \<and> int_in 128 16384 (gl_maximumBodyBytes l)
     \<and> int_in 0 12 (gl_maximumExcerpts l) \<and> int_in 128 4096 (gl_maximumExcerptBytes l)
     \<and> \<not> gl_maximumFileBytes l > gl_maximumTotalBytes l
     \<and> \<not> gl_maximumExcerptBytes l > gl_maximumTotalBytes l
     \<and> \<not> gl_maximumTitleBytes l > gl_maximumTotalBytes l
     \<and> \<not> gl_maximumBodyBytes l > gl_maximumTotalBytes l"

definition default_generation_context_limits :: generation_limits where
  "default_generation_context_limits = \<lparr>gl_maximumFiles = 120, gl_maximumHunks = 400,
     gl_maximumTotalBytes = 524288, gl_maximumFileBytes = 65536, gl_maximumTitleBytes = 2048,
     gl_maximumBodyBytes = 16384, gl_maximumExcerpts = 12, gl_maximumExcerptBytes = 4096\<rparr>"

definition generation_limit_hits :: "string list" where
  "generation_limit_hits = [''source_file_count'', ''source_patch_bytes'', ''source_patch_unavailable'',
     ''file_count'', ''hunk_count'', ''total_bytes'', ''file_bytes'', ''title_bytes'', ''body_bytes'',
     ''excerpt_count'', ''excerpt_bytes'']"

definition exclusion_reasons :: "string list" where
  "exclusion_reasons = [''file_count'', ''hunk_count'', ''total_bytes'', ''file_bytes'', ''patch_unavailable'',
     ''archive'', ''lfs_pointer'', ''submodule'', ''symlink'', ''generated'', ''lockfile'', ''unusual_path'',
     ''malformed_patch'', ''excerpt_not_changed_text'', ''excerpt_count'', ''excerpt_bytes'']"

record exclusion =
  ex_path :: "string option"
  ex_reason :: string

definition exclusion_ok :: "exclusion \<Rightarrow> bool" where
  "exclusion_ok e \<longleftrightarrow> optional_ok (length_in 1 1024) (ex_path e) \<and> ex_reason e \<in> set exclusion_reasons"

definition sort_exclusions :: "exclusion list \<Rightarrow> exclusion list" where
  "sort_exclusions = sort_key (\<lambda>e. (patch_text (ex_path e), ex_reason e))"

section \<open>Truncation and hunks\<close>

text \<open>A symbol of the string iterator is one character here: the model has no surrogates.\<close>

fun truncate_from :: "int \<Rightarrow> int \<Rightarrow> string \<Rightarrow> string \<Rightarrow> string \<times> int" where
  "truncate_from maximumBytes byteLength bounded [] = (bounded, byteLength)"
| "truncate_from maximumBytes byteLength bounded (c # s) =
     (if byteLength + utf8_size [c] > maximumBytes then (bounded, byteLength)
      else truncate_from maximumBytes (byteLength + utf8_size [c]) (bounded @ [c]) s)"

record truncated =
  tr_value :: string
  tr_byteLength :: int
  tr_truncated :: bool

definition truncate_utf8 :: "string \<Rightarrow> int \<Rightarrow> truncated" where
  "truncate_utf8 v maximumBytes =
     (if maximumBytes \<le> 0 then \<lparr>tr_value = [], tr_byteLength = 0, tr_truncated = length v > 0\<rparr>
      else (case truncate_from maximumBytes 0 [] v of
        (bounded, n) \<Rightarrow> \<lparr>tr_value = bounded, tr_byteLength = n, tr_truncated = bounded \<noteq> v\<rparr>))"

record patch_hunk =
  ph_content :: string
  ph_byteLength :: int
  ph_additions :: int
  ph_deletions :: int
  ph_header :: string
  ph_oldStart :: int
  ph_newStart :: int
  ph_changedLines :: "string list"

definition newline :: string where
  "newline = [CHR 0x0A]"

definition added_line :: "string \<Rightarrow> bool" where
  "added_line l \<longleftrightarrow> starts_with ''+'' l \<and> \<not> starts_with ''+++'' l"

definition deleted_line :: "string \<Rightarrow> bool" where
  "deleted_line l \<longleftrightarrow> starts_with ''-'' l \<and> \<not> starts_with ''---'' l"

definition flush_patch_hunk :: "patch_hunk list \<Rightarrow> string list option \<Rightarrow> patch_hunk list" where
  "flush_patch_hunk hunks current = (case current of None \<Rightarrow> hunks
     | Some lines \<Rightarrow>
       (let content = join_with newline lines; header = hd lines; body = drop 1 lines in
        case match_hunk header of None \<Rightarrow> hunks
        | Some (old, new) \<Rightarrow> hunks @ [\<lparr>ph_content = content, ph_byteLength = utf8_size content,
            ph_additions = int (length (filter added_line body)),
            ph_deletions = int (length (filter deleted_line body)),
            ph_header = header, ph_oldStart = old, ph_newStart = new,
            ph_changedLines = map (drop 1) (filter (\<lambda>l. added_line l \<or> deleted_line l) body)\<rparr>]))"

definition read_patch_line ::
  "patch_hunk list \<times> string list option \<Rightarrow> string \<Rightarrow> patch_hunk list \<times> string list option" where
  "read_patch_line st line = (case st of (hunks, current) \<Rightarrow>
     if match_hunk line \<noteq> None then (flush_patch_hunk hunks current, Some [line])
     else (case current of None \<Rightarrow> (hunks, None) | Some lines \<Rightarrow> (hunks, Some (lines @ [line]))))"

definition parse_patch_hunks :: "string \<Rightarrow> patch_hunk list" where
  "parse_patch_hunks patch =
     (case foldl read_patch_line ([], None) (split_on (CHR 0x0A) patch) of
        (hunks, current) \<Rightarrow> flush_patch_hunk hunks current)"

definition patch_contains_anchor :: "string \<Rightarrow> diff_anchor \<Rightarrow> bool" where
  "patch_contains_anchor patch a \<longleftrightarrow> list_ex (\<lambda>h.
     take 500 (ph_header h) = da_hunkHeader a \<and> ph_oldStart h = da_oldStart a
     \<and> ph_newStart h = da_newStart a \<and> int (length (ph_changedLines h)) = da_changedLines a
     \<and> compact_evidence (ph_changedLines h) = da_evidence a) (parse_patch_hunks patch)"

section \<open>The bounded source\<close>

datatype bounded_kind = Bounded_text | Bounded_binary

record bounded_file =
  bf_path :: string
  bf_previousPath :: "string option"
  bf_status :: string
  bf_kind :: bounded_kind
  bf_patch :: "string option"
  bf_additions :: int
  bf_deletions :: int
  bf_sourceAdditions :: int
  bf_sourceDeletions :: int
  bf_includedHunks :: int
  bf_testFile :: bool

definition bounded_file_shape_ok :: "bounded_file \<Rightarrow> bool" where
  "bounded_file_shape_ok f \<longleftrightarrow> length_in 1 1024 (bf_path f)
     \<and> optional_ok (length_in 1 1024) (bf_previousPath f) \<and> bf_status f \<in> set file_statuses
     \<and> nonnegative_int (bf_additions f) \<and> nonnegative_int (bf_deletions f)
     \<and> nonnegative_int (bf_sourceAdditions f) \<and> nonnegative_int (bf_sourceDeletions f)
     \<and> nonnegative_int (bf_includedHunks f)
     \<and> \<not> (bf_kind f = Bounded_text \<and> bf_patch f = None)
     \<and> \<not> (bf_kind f = Bounded_binary \<and> bf_patch f \<noteq> None)"

record bounded_usage =
  bu_sourceFiles :: int
  bu_includedFiles :: int
  bu_includedTextFiles :: int
  bu_includedHunks :: int
  bu_titleBytes :: int
  bu_bodyBytes :: int
  bu_patchBytes :: int
  bu_totalBytes :: int

record bounded_source =
  bs_sourceHash :: string
  bs_baseSha :: string
  bs_headSha :: string
  bs_title :: string
  bs_body :: "string option"
  bs_files :: "bounded_file list"
  bs_deterministicTestFiles :: "string list"
  bs_limits :: generation_limits
  bs_limitsHit :: "string list"
  bs_exclusions :: "exclusion list"
  bs_usage :: bounded_usage

definition is_non_semantic_bounded_text_file :: "bounded_file \<Rightarrow> bool" where
  "is_non_semantic_bounded_text_file f \<longleftrightarrow>
     is_unusual_source_path (bf_path f)
     \<or> (case bf_previousPath f of None \<Rightarrow> False | Some p \<Rightarrow> is_unusual_source_path p)
     \<or> is_generated (bf_path f) \<or> is_lockfile (bf_path f)
     \<or> regex_test archive_pattern (bf_path f)
     \<or> regex_test lfs_pointer_pattern (patch_text (bf_patch f))
     \<or> regex_test submodule_patch_pattern (patch_text (bf_patch f))"

definition bounded_file_refined :: "bounded_file \<Rightarrow> bool" where
  "bounded_file_refined f \<longleftrightarrow>
     bf_testFile f = (bf_kind f = Bounded_text \<and> is_deterministic_test_file (bf_path f))
     \<and> (case bf_kind f of
          Bounded_binary \<Rightarrow> bf_includedHunks f = 0
        | Bounded_text \<Rightarrow>
          (let hunks = parse_patch_hunks (patch_text (bf_patch f)) in
           \<not> (hunks = [] \<or> bf_includedHunks f \<noteq> int (length hunks)
              \<or> bf_additions f \<noteq> sum_list (map ph_additions hunks)
              \<or> bf_deletions f \<noteq> sum_list (map ph_deletions hunks)
              \<or> bf_additions f > bf_sourceAdditions f \<or> bf_deletions f > bf_sourceDeletions f
              \<or> is_non_semantic_bounded_text_file f)))"

definition text_files :: "bounded_file list \<Rightarrow> bounded_file list" where
  "text_files = filter (\<lambda>f. bf_kind f = Bounded_text)"

definition files_patch_bytes :: "bounded_file list \<Rightarrow> int" where
  "files_patch_bytes files = sum_list (map (\<lambda>f. utf8_size (patch_text (bf_patch f))) files)"

definition body_size :: "string option \<Rightarrow> int" where
  "body_size b = (case b of None \<Rightarrow> 0 | Some t \<Rightarrow> utf8_size t)"

definition bounded_usage_ok :: "bounded_source \<Rightarrow> bool" where
  "bounded_usage_ok b \<longleftrightarrow>
     (let u = bs_usage b; l = bs_limits b; files = bs_files b;
          hunks = sum_list (map bf_includedHunks files);
          titleBytes = utf8_size (bs_title b); bodyBytes = body_size (bs_body b);
          patchBytes = files_patch_bytes files in
      \<not> (int (length files) > gl_maximumFiles l \<or> hunks > gl_maximumHunks l
         \<or> list_ex (\<lambda>f. utf8_size (patch_text (bf_patch f)) > gl_maximumFileBytes l) files
         \<or> bu_includedFiles u \<noteq> int (length files)
         \<or> bu_includedTextFiles u \<noteq> int (length (text_files files))
         \<or> bu_includedHunks u \<noteq> hunks \<or> bu_titleBytes u \<noteq> titleBytes \<or> bu_bodyBytes u \<noteq> bodyBytes
         \<or> bu_patchBytes u \<noteq> patchBytes \<or> bu_totalBytes u \<noteq> titleBytes + bodyBytes + patchBytes
         \<or> bu_totalBytes u > gl_maximumTotalBytes l))"

definition bounded_source_ok :: "bounded_source \<Rightarrow> bool" where
  "bounded_source_ok b \<longleftrightarrow>
     sha256_ok (bs_sourceHash b) \<and> git_sha_ok (bs_baseSha b) \<and> git_sha_ok (bs_headSha b)
     \<and> length_in 0 4096 (bs_title b) \<and> optional_ok (length_in 0 65536) (bs_body b)
     \<and> list_all bounded_file_shape_ok (bs_files b) \<and> length (bs_files b) \<le> 120
     \<and> list_all (length_in 1 1024) (bs_deterministicTestFiles b)
     \<and> length (bs_deterministicTestFiles b) \<le> 120 \<and> generation_limits_ok (bs_limits b)
     \<and> list_all (\<lambda>l. l \<in> set generation_limit_hits) (bs_limitsHit b) \<and> length (bs_limitsHit b) \<le> 20
     \<and> list_all exclusion_ok (bs_exclusions b) \<and> length (bs_exclusions b) \<le> 600
     \<and> int_in 0 300 (bu_sourceFiles (bs_usage b)) \<and> int_in 0 120 (bu_includedFiles (bs_usage b))
     \<and> int_in 0 120 (bu_includedTextFiles (bs_usage b)) \<and> int_in 0 400 (bu_includedHunks (bs_usage b))
     \<and> int_in 0 4096 (bu_titleBytes (bs_usage b)) \<and> int_in 0 65536 (bu_bodyBytes (bs_usage b))
     \<and> int_in 0 524288 (bu_patchBytes (bs_usage b)) \<and> int_in 0 524288 (bu_totalBytes (bs_usage b))
     \<and> card (set (bs_limitsHit b)) = length (bs_limitsHit b)
     \<and> card (set (map bf_path (bs_files b))) = length (bs_files b)
     \<and> list_all bounded_file_refined (bs_files b)
     \<and> bounded_usage_ok b
     \<and> \<not> bu_sourceFiles (bs_usage b) < bu_includedFiles (bs_usage b)
     \<and> sort (map bf_path (filter bf_testFile (bs_files b))) = sort (bs_deterministicTestFiles b)"

end
