(* ===== verification/Bounded_Source.thy ===== *)
theory Bounded_Source
  imports Revision_Source
begin

text \<open>
  \<open>buildBoundedRevisionSourceV1\<close> of \<open>packages/analysis/src/generation-context.ts\<close> up to the loop
  that fits the result into the provider's envelope, the step of that loop that gives up the last
  hunk (\<open>removeLastBoundedHunk\<close>), and the projection to the analyzer's patch.
\<close>

section \<open>Which files are semantic\<close>

definition non_semantic_file_reason :: "changed_file \<Rightarrow> string option" where
  "non_semantic_file_reason f =
     (if cf_gitKind f = Symlink \<or> cf_gitKind f = Submodule \<or> is_unusual_source_path (cf_filename f)
         \<or> (case cf_previousFilename f of None \<Rightarrow> False | Some p \<Rightarrow> is_unusual_source_path p)
      then Some (if cf_gitKind f = Symlink then ''symlink''
                 else if cf_gitKind f = Submodule then ''submodule'' else ''unusual_path'')
      else if is_generated (cf_filename f) then Some ''generated''
      else if is_lockfile (cf_filename f) then Some ''lockfile''
      else if regex_test archive_pattern (cf_filename f) then Some ''archive''
      else if cf_patch f \<noteq> None \<and> regex_test lfs_pointer_pattern (patch_text (cf_patch f))
      then Some ''lfs_pointer''
      else if cf_patch f \<noteq> None \<and> regex_test submodule_patch_pattern (patch_text (cf_patch f))
      then Some ''submodule''
      else None)"

definition metadata_only_file :: "changed_file \<Rightarrow> bounded_file" where
  "metadata_only_file f = \<lparr>bf_path = cf_filename f, bf_previousPath = cf_previousFilename f,
     bf_status = cf_status f, bf_kind = Bounded_binary, bf_patch = None,
     bf_additions = cf_additions f, bf_deletions = cf_deletions f,
     bf_sourceAdditions = cf_additions f, bf_sourceDeletions = cf_deletions f,
     bf_includedHunks = 0, bf_testFile = False\<rparr>"

definition order_source_files :: "changed_file list \<Rightarrow> changed_file list" where
  "order_source_files = sort_key (\<lambda>f. (cf_filename f, patch_text (cf_previousFilename f), cf_status f,
     patch_text (cf_sha f)))"

section \<open>The selection of hunks\<close>

record bound_state =
  bd_files :: "bounded_file list"
  bd_exclusions :: "exclusion list"
  bd_limitsHit :: "string list"
  bd_includedHunks :: int
  bd_patchBytes :: int
  bd_remainingBytes :: int

definition exclude :: "string \<Rightarrow> string \<Rightarrow> bound_state \<Rightarrow> bound_state" where
  "exclude path reason st = st\<lparr>bd_exclusions := bd_exclusions st @ [\<lparr>ex_path = Some path, ex_reason = reason\<rparr>]\<rparr>"

definition mark_limit :: "string \<Rightarrow> bound_state \<Rightarrow> bound_state" where
  "mark_limit l st = st\<lparr>bd_limitsHit := add_limit l (bd_limitsHit st)\<rparr>"

definition refuse :: "string \<Rightarrow> string \<Rightarrow> bound_state \<Rightarrow> bound_state" where
  "refuse path reason st = mark_limit reason (exclude path reason st)"

fun select_hunks ::
  "generation_limits \<Rightarrow> string \<Rightarrow> bound_state \<Rightarrow> int \<Rightarrow> patch_hunk list \<Rightarrow> patch_hunk list
     \<Rightarrow> patch_hunk list \<times> bound_state" where
  "select_hunks limits path st fileBytes selected [] = (selected, st)"
| "select_hunks limits path st fileBytes selected (h # hs) =
     (let separatorBytes = (if selected = [] then 0 else 1) in
      if bd_includedHunks st \<ge> gl_maximumHunks limits
      then (selected, refuse path ''hunk_count'' st)
      else if fileBytes + separatorBytes + ph_byteLength h > gl_maximumFileBytes limits
      then (selected, refuse path ''file_bytes'' st)
      else if separatorBytes + ph_byteLength h > bd_remainingBytes st
      then (selected, refuse path ''total_bytes'' st)
      else select_hunks limits path
             (st\<lparr>bd_remainingBytes := bd_remainingBytes st - (separatorBytes + ph_byteLength h),
                 bd_patchBytes := bd_patchBytes st + (separatorBytes + ph_byteLength h),
                 bd_includedHunks := bd_includedHunks st + 1\<rparr>)
             (fileBytes + (separatorBytes + ph_byteLength h)) (selected @ [h]) hs)"

definition join_hunks :: "patch_hunk list \<Rightarrow> string" where
  "join_hunks hs = join_with newline (map ph_content hs)"

definition text_file :: "bounded_file \<Rightarrow> patch_hunk list \<Rightarrow> bounded_file" where
  "text_file f hs = f\<lparr>bf_kind := Bounded_text, bf_patch := Some (join_hunks hs),
     bf_additions := sum_list (map ph_additions hs), bf_deletions := sum_list (map ph_deletions hs),
     bf_includedHunks := int (length hs), bf_testFile := is_deterministic_test_file (bf_path f)\<rparr>"

definition push_file :: "bounded_file \<Rightarrow> bound_state \<Rightarrow> bound_state" where
  "push_file f st = st\<lparr>bd_files := bd_files st @ [f]\<rparr>"

definition bound_file :: "generation_limits \<Rightarrow> bound_state \<Rightarrow> changed_file \<Rightarrow> bound_state" where
  "bound_file limits st f =
     (let metadata = metadata_only_file f; path = cf_filename f in
      case non_semantic_file_reason f of
        Some reason \<Rightarrow> push_file metadata (exclude path reason st)
      | None \<Rightarrow>
        (case cf_patch f of
           None \<Rightarrow> push_file metadata (mark_limit ''source_patch_unavailable'' (exclude path ''patch_unavailable'' st))
         | Some patch \<Rightarrow>
           (let hunks = parse_patch_hunks patch in
            if hunks = [] then push_file metadata (exclude path ''malformed_patch'' st)
            else (case select_hunks limits path st 0 [] hunks of (selected, st') \<Rightarrow>
              if selected = [] then push_file metadata st'
              else push_file (text_file metadata selected) st'))))"

definition refuse_files :: "changed_file list \<Rightarrow> bound_state \<Rightarrow> bound_state" where
  "refuse_files files st = foldl (\<lambda>st f. refuse (cf_filename f) ''file_count'' st) st files"

definition source_limits_hit :: "revision_source \<Rightarrow> string list" where
  "source_limits_hit s =
     (if gs_limitFiles s then [''source_file_count''] else [])
     @ (if gs_limitPatchBytes s then [''source_patch_bytes''] else [])
     @ (if gs_limitPatchUnavailable s then [''source_patch_unavailable''] else [])"

section \<open>Assembly\<close>

definition test_paths :: "bounded_file list \<Rightarrow> string list" where
  "test_paths files = sort (map bf_path (filter bf_testFile files))"

definition bounded_of ::
  "revision_source \<Rightarrow> generation_limits \<Rightarrow> string \<Rightarrow> bounded_source" where
  "bounded_of s limits sourceHash =
     (let title = truncate_utf8 (gs_title s) (gl_maximumTitleBytes limits);
          limits1 = source_limits_hit s;
          limits2 = (if tr_truncated title then add_limit ''title_bytes'' limits1 else limits1);
          remaining = max 0 (gl_maximumTotalBytes limits - tr_byteLength title);
          rawBody = patch_text (gs_body s);
          bodyLimit = min (gl_maximumBodyBytes limits) remaining;
          body = truncate_utf8 rawBody bodyLimit;
          limits3 = (if tr_truncated body then
              (let l = add_limit ''body_bytes'' limits2 in
               if bodyLimit < min (gl_maximumBodyBytes limits) (utf8_size rawBody)
               then add_limit ''total_bytes'' l else l)
            else limits2);
          ordered = order_source_files (gs_files s);
          n = nat (gl_maximumFiles limits);
          start = refuse_files (drop n ordered)
            \<lparr>bd_files = [], bd_exclusions = [], bd_limitsHit = limits3, bd_includedHunks = 0,
             bd_patchBytes = 0, bd_remainingBytes = remaining - tr_byteLength body\<rparr>;
          st = foldl (bound_file limits) start (take n ordered);
          bodyBytes = (if gs_body s = None then 0 else tr_byteLength body) in
      \<lparr>bs_sourceHash = sourceHash, bs_baseSha = gs_baseSha s, bs_headSha = gs_headSha s,
       bs_title = tr_value title,
       bs_body = (if gs_body s = None then None else Some (tr_value body)),
       bs_files = bd_files st, bs_deterministicTestFiles = test_paths (bd_files st),
       bs_limits = limits, bs_limitsHit = sort (bd_limitsHit st),
       bs_exclusions = sort_exclusions (bd_exclusions st),
       bs_usage = \<lparr>bu_sourceFiles = int (length (gs_files s)),
         bu_includedFiles = int (length (bd_files st)),
         bu_includedTextFiles = int (length (text_files (bd_files st))),
         bu_includedHunks = bd_includedHunks st, bu_titleBytes = tr_byteLength title,
         bu_bodyBytes = bodyBytes, bu_patchBytes = bd_patchBytes st,
         bu_totalBytes = tr_byteLength title + bodyBytes + bd_patchBytes st\<rparr>\<rparr>)"

text \<open>Everything before \<open>fitBoundedSourceToProviderEnvelope\<close>.\<close>

definition initial_bounded_source ::
  "(bytes \<Rightarrow> bytes) \<Rightarrow> revision_source \<Rightarrow> generation_limits \<Rightarrow> context_error + bounded_source" where
  "initial_bounded_source sha s limits =
     (if \<not> revision_source_ok s \<or> \<not> generation_limits_ok limits then Inl Context_invalid
      else bind_result (github_revision_source_hash sha s) (\<lambda>h.
        let bounded = bounded_of s limits h in
        if bounded_source_ok bounded then Inr bounded else Inl Context_invalid))"

section \<open>Giving up the last hunk\<close>

definition last_text_index :: "bounded_file list \<Rightarrow> nat option" where
  "last_text_index files = find (\<lambda>i. bf_kind (files ! i) = Bounded_text) (rev [0..<length files])"

definition reduced_file :: "bounded_file \<Rightarrow> patch_hunk list \<Rightarrow> bounded_file" where
  "reduced_file target remaining =
     (if remaining = []
      then \<lparr>bf_path = bf_path target, bf_previousPath = bf_previousPath target,
            bf_status = bf_status target, bf_kind = Bounded_binary, bf_patch = None,
            bf_additions = bf_sourceAdditions target, bf_deletions = bf_sourceDeletions target,
            bf_sourceAdditions = bf_sourceAdditions target,
            bf_sourceDeletions = bf_sourceDeletions target, bf_includedHunks = 0, bf_testFile = False\<rparr>
      else target\<lparr>bf_patch := Some (join_hunks remaining),
            bf_additions := sum_list (map ph_additions remaining),
            bf_deletions := sum_list (map ph_deletions remaining),
            bf_includedHunks := int (length remaining)\<rparr>)"

definition reduced_source :: "bounded_source \<Rightarrow> nat \<Rightarrow> patch_hunk list \<Rightarrow> bounded_source" where
  "reduced_source b i remaining =
     (let target = bs_files b ! i;
          files = (bs_files b)[i := reduced_file target remaining];
          patchBytes = files_patch_bytes files; u = bs_usage b in
      b\<lparr>bs_files := files, bs_deterministicTestFiles := test_paths files,
        bs_limitsHit := sort (remdups (bs_limitsHit b @ [''total_bytes''])),
        bs_exclusions := sort_exclusions (bs_exclusions b
          @ [\<lparr>ex_path = Some (bf_path target), ex_reason = ''total_bytes''\<rparr>]),
        bs_usage := u\<lparr>bu_includedTextFiles := int (length (text_files files)),
          bu_includedHunks := sum_list (map bf_includedHunks files), bu_patchBytes := patchBytes,
          bu_totalBytes := bu_titleBytes u + bu_bodyBytes u + patchBytes\<rparr>\<rparr>)"

definition remove_last_bounded_hunk :: "bounded_source \<Rightarrow> context_error + bounded_source option" where
  "remove_last_bounded_hunk b =
     (case last_text_index (bs_files b) of
        None \<Rightarrow> Inr None
      | Some i \<Rightarrow>
        (let hunks = parse_patch_hunks (patch_text (bf_patch (bs_files b ! i))) in
         if hunks = [] then Inr None
         else let candidate = reduced_source b i (butlast hunks) in
           if bounded_source_ok candidate then Inr (Some candidate) else Inl Context_invalid))"

section \<open>The analyzer's input\<close>

definition bounded_patch_file :: "bounded_file \<Rightarrow> patch_file" where
  "bounded_patch_file f = \<lparr>pf_path = bf_path f, pf_previousPath = bf_previousPath f,
     pf_kind = (case bf_kind f of Bounded_text \<Rightarrow> Text_file | Bounded_binary \<Rightarrow> Binary_file),
     pf_patch = bf_patch f, pf_additions = bf_additions f, pf_deletions = bf_deletions f\<rparr>"

definition bounded_revision_source_patch :: "bounded_source \<Rightarrow> context_error + pull_request_patch" where
  "bounded_revision_source_patch b =
     (if \<not> bounded_source_ok b then Inl Context_invalid
      else let patch = \<lparr>pr_baseSha = bs_baseSha b, pr_headSha = bs_headSha b,
                        pr_files = map bounded_patch_file (bs_files b)\<rparr> in
        if pull_request_patch_ok patch then Inr patch else Inl Context_schema_error)"

end
