(* ===== verification/Hunk_Facts.thy ===== *)
theory Hunk_Facts
  imports Bounded_Source
begin

text \<open>
  The structure of a patch: its hunks are the blocks of lines that start at a header, the text of
  some hunks put together parses back to those hunks, so a bounded patch is read again as exactly
  the hunks that were kept. The loop that gives up hunks therefore has one hunk less each round.
\<close>

section \<open>Lines\<close>

lemma split_on_lines: "l \<in> set (split_on c s) \<Longrightarrow> c \<notin> set l"
  by (induction s arbitrary: l) (auto split: if_splits list.splits)

lemma split_on_append: "c \<notin> set l \<Longrightarrow> split_on c (l @ c # s) = l # split_on c s"
  by (induction l) auto

lemma split_on_single: "c \<notin> set l \<Longrightarrow> split_on c l = [l]"
  by (induction l) auto

lemma join_with_Cons: "ls \<noteq> [] \<Longrightarrow> join_with sep (l # ls) = l @ sep @ join_with sep ls"
  by (cases ls) auto

lemma split_on_join:
  "ls \<noteq> [] \<Longrightarrow> \<forall>l\<in>set ls. c \<notin> set l \<Longrightarrow> split_on c (join_with [c] ls) = ls"
proof (induction ls)
  case (Cons l ls)
  then show ?case
    by (cases "ls = []") (simp_all add: split_on_single join_with_Cons split_on_append)
qed simp

lemma join_with_append:
  "xs \<noteq> [] \<Longrightarrow> ys \<noteq> [] \<Longrightarrow> join_with sep (xs @ ys) = join_with sep xs @ sep @ join_with sep ys"
proof (induction xs)
  case (Cons x xs)
  then show ?case by (cases "xs = []") (simp_all add: join_with_Cons)
qed simp

lemma join_with_join:
  "\<forall>b\<in>set bs. b \<noteq> [] \<Longrightarrow> join_with sep (map (join_with sep) bs) = join_with sep (concat bs)"
proof (induction bs)
  case (Cons b bs)
  show ?case
  proof (cases "bs = []")
    case False
    then have "concat bs \<noteq> []" and "b \<noteq> []"
      using Cons.prems by (auto simp: neq_Nil_conv)
    then show ?thesis
      using Cons False by (simp add: join_with_Cons join_with_append)
  qed simp
qed simp

section \<open>Blocks\<close>

abbreviation is_header :: "string \<Rightarrow> bool" where
  "is_header l \<equiv> match_hunk l \<noteq> None"

abbreviation up_to_header :: "string list \<Rightarrow> string list" where
  "up_to_header \<equiv> takeWhile (\<lambda>l. \<not> is_header l)"

primrec hunk_blocks :: "string list \<Rightarrow> string list list" where
  "hunk_blocks [] = []"
| "hunk_blocks (l # ls) =
     (if is_header l then (l # up_to_header ls) # hunk_blocks ls else hunk_blocks ls)"

definition hunk_of :: "string list \<Rightarrow> patch_hunk" where
  "hunk_of lines = \<lparr>ph_content = join_with newline lines, ph_byteLength = utf8_size (join_with newline lines),
     ph_additions = int (length (filter added_line (drop 1 lines))),
     ph_deletions = int (length (filter deleted_line (drop 1 lines))),
     ph_header = hd lines, ph_oldStart = fst (the (match_hunk (hd lines))),
     ph_newStart = snd (the (match_hunk (hd lines))),
     ph_changedLines = map (drop 1) (filter (\<lambda>l. added_line l \<or> deleted_line l) (drop 1 lines))\<rparr>"

definition is_block :: "string list \<Rightarrow> bool" where
  "is_block b \<longleftrightarrow> b \<noteq> [] \<and> is_header (hd b) \<and> (\<forall>l\<in>set (tl b). \<not> is_header l)"

lemma hunk_blocks_ok: "\<forall>b\<in>set (hunk_blocks ls). is_block b \<and> set b \<subseteq> set ls"
  by (induction ls) (auto simp: is_block_def dest: set_takeWhileD)

lemma flush_Some: "is_header (hd c) \<Longrightarrow> flush_patch_hunk hs (Some c) = hs @ [hunk_of c]"
  by (auto simp: flush_patch_hunk_def Let_def hunk_of_def)

lemma read_patch_lines:
  "(case cur of None \<Rightarrow> True | Some c \<Rightarrow> c \<noteq> [] \<and> is_header (hd c)) \<Longrightarrow>
   (case foldl read_patch_line (hs, cur) ls of (h, c) \<Rightarrow> flush_patch_hunk h c)
     = hs @ (case cur of None \<Rightarrow> [] | Some c \<Rightarrow> [hunk_of (c @ up_to_header ls)]) @ map hunk_of (hunk_blocks ls)"
proof (induction ls arbitrary: hs cur)
  case Nil
  then show ?case
    by (auto simp: flush_Some split: option.splits) (simp add: flush_patch_hunk_def)
next
  case (Cons l ls)
  show ?case
  proof (cases "is_header l")
    case True
    then have "flush_patch_hunk hs cur = hs @ (case cur of None \<Rightarrow> [] | Some c \<Rightarrow> [hunk_of c])"
      using Cons.prems by (auto simp: flush_Some split: option.splits) (simp add: flush_patch_hunk_def)
    then show ?thesis
      using Cons.IH [of "Some [l]" "flush_patch_hunk hs cur"] True
      by (auto simp: read_patch_line_def split: option.splits)
  next
    case False
    then show ?thesis
      using Cons.IH [of None hs] Cons.IH [of "Some (the cur @ [l])" hs] Cons.prems
      by (cases cur) (auto simp: read_patch_line_def)
  qed
qed

lemma parse_patch_hunks_blocks:
  "parse_patch_hunks p = map hunk_of (hunk_blocks (split_on (CHR 0x0A) p))"
  using read_patch_lines [of None "[]" "split_on (CHR 0x0A) p"] by (simp add: parse_patch_hunks_def)

lemma up_to_header_blocks: "\<forall>b\<in>set bs. is_block b \<Longrightarrow> up_to_header (concat bs) = []"
  by (cases bs) (auto simp: is_block_def neq_Nil_conv)

lemma hunk_blocks_no_header: "\<forall>l\<in>set ls. \<not> is_header l \<Longrightarrow> hunk_blocks (ls @ xs) = hunk_blocks xs"
  by (induction ls) auto

lemma hunk_blocks_concat: "\<forall>b\<in>set bs. is_block b \<Longrightarrow> hunk_blocks (concat bs) = bs"
proof (induction bs)
  case (Cons b bs)
  then obtain h t where b: "b = h # t" "is_header h" "\<forall>l\<in>set t. \<not> is_header l"
    by (cases b) (auto simp: is_block_def)
  have "up_to_header (t @ concat bs) = t"
    using b(3) up_to_header_blocks Cons.prems by (simp add: takeWhile_append2)
  then show ?case
    using b Cons by (simp add: hunk_blocks_no_header)
qed simp

section \<open>Keeping some hunks\<close>

text \<open>The text of the hunks with some of the blocks of a patch parses back to them.\<close>

lemma parse_join_hunks:
  assumes "set hs \<subseteq> set (parse_patch_hunks p)" and "hs \<noteq> []"
  shows "parse_patch_hunks (join_hunks hs) = hs"
proof -
  let ?lines = "split_on (CHR 0x0A) p"
  have "\<forall>h\<in>set hs. \<exists>b\<in>set (hunk_blocks ?lines). h = hunk_of b"
    using assms(1) by (auto simp: parse_patch_hunks_blocks)
  then obtain f where f: "\<forall>h\<in>set hs. f h \<in> set (hunk_blocks ?lines) \<and> h = hunk_of (f h)"
    by metis
  define bs where "bs = map f hs"
  have hs: "hs = map hunk_of bs"
    using f by (auto simp: bs_def intro!: map_idI [symmetric])
  have bs: "\<forall>b\<in>set bs. is_block b" and lines: "\<forall>l\<in>set (concat bs). CHR 0x0A \<notin> set l"
    using f hunk_blocks_ok [of ?lines] split_on_lines by (fastforce simp: bs_def)+
  have ne: "concat bs \<noteq> []"
    using bs assms(2) hs by (cases bs) (auto simp: is_block_def)
  have "join_hunks hs = join_with newline (concat bs)"
    using bs join_with_join [of bs newline] by (simp add: join_hunks_def hs comp_def hunk_of_def is_block_def)
  then have "split_on (CHR 0x0A) (join_hunks hs) = concat bs"
    using split_on_join [OF ne lines] by (simp add: newline_def)
  then show ?thesis
    by (simp add: parse_patch_hunks_blocks hunk_blocks_concat [OF bs] hs)
qed

section \<open>The number of hunks\<close>

definition file_hunks :: "bounded_file \<Rightarrow> nat" where
  "file_hunks f = (if bf_kind f = Bounded_text
     then length (parse_patch_hunks (patch_text (bf_patch f))) else 0)"

definition source_hunks :: "bounded_source \<Rightarrow> nat" where
  "source_hunks b = sum_list (map file_hunks (bs_files b))"

lemma last_text_index_Some:
  "last_text_index files = Some i \<Longrightarrow> i < length files \<and> bf_kind (files ! i) = Bounded_text"
  using find_SomeD by (fastforce simp: last_text_index_def)

lemma reduced_file_hunks:
  assumes "bf_kind f = Bounded_text" and "parse_patch_hunks (patch_text (bf_patch f)) = hs" and "hs \<noteq> []"
  shows "file_hunks (reduced_file f (butlast hs)) < file_hunks f"
proof (cases "butlast hs = []")
  case True
  then show ?thesis
    using assms by (simp add: reduced_file_def file_hunks_def)
next
  case False
  have "parse_patch_hunks (join_hunks (butlast hs)) = butlast hs"
    using assms(2) False by (intro parse_join_hunks [of _ "patch_text (bf_patch f)"]) (auto dest: in_set_butlastD)
  then show ?thesis
    using assms False by (simp add: reduced_file_def file_hunks_def patch_text_def)
qed

lemma sum_list_update_less:
  "i < length xs \<Longrightarrow> y < (xs ! i :: nat) \<Longrightarrow> sum_list (xs[i := y]) < sum_list xs"
proof (induction xs arbitrary: i)
  case (Cons x xs)
  then show ?case by (cases i) auto
qed simp

lemma remove_last_bounded_hunk_less:
  assumes "remove_last_bounded_hunk b = Inr (Some b')"
  shows "source_hunks b' < source_hunks b"
proof -
  obtain i where i: "last_text_index (bs_files b) = Some i"
    and ne: "parse_patch_hunks (patch_text (bf_patch (bs_files b ! i))) \<noteq> []"
    and b': "b' = reduced_source b i (butlast (parse_patch_hunks (patch_text (bf_patch (bs_files b ! i)))))"
    using assms by (auto simp: remove_last_bounded_hunk_def Let_def split: option.splits if_splits)
  have f: "i < length (bs_files b)" "bf_kind (bs_files b ! i) = Bounded_text"
    using last_text_index_Some [OF i] by simp_all
  have "sum_list ((map file_hunks (bs_files b))[i := file_hunks (reduced_file (bs_files b ! i)
        (butlast (parse_patch_hunks (patch_text (bf_patch (bs_files b ! i))))))])
      < sum_list (map file_hunks (bs_files b))"
    using f ne reduced_file_hunks [OF f(2) refl ne] by (intro sum_list_update_less) simp_all
  then show ?thesis
    by (simp add: source_hunks_def b' reduced_source_def Let_def map_update)
qed

end
