(* ===== verification/Generation_Context.thy ===== *)
theory Generation_Context
  imports Hunk_Facts
begin

text \<open>
  The generation context of \<open>packages/analysis/src/generation-context.ts\<close>: what is sent to the
  provider, labelled as untrusted, its canonical text \<open>stableJson\<close>, how it is shrunk into the byte
  limit, and the checks on it. A context is the provider's fields extended by the bindings, as the
  code spreads them; \<open>providerFieldsFromContext\<close> is the \<open>truncate\<close> of the record.
\<close>

section \<open>Canonical JSON\<close>

text \<open>\<open>stableJson\<close> is \<open>JSON.stringify\<close> with the members of every object in the order of their keys.\<close>

fun sort_members :: "json \<Rightarrow> json" where
  "sort_members (JArr js) = JArr (map sort_members js)"
| "sort_members (JObj ms) = JObj (sort_key fst (map (\<lambda>(k, v). (k, sort_members v)) ms))"
| "sort_members (JStr s) = JStr s"
| "sort_members (JNum n) = JNum n"
| "sort_members (JBool b) = JBool b"
| "sort_members JNull = JNull"

definition stable_json :: "json \<Rightarrow> string" where
  "stable_json j = stringify (sort_members j)"

section \<open>Data\<close>

record untrusted_data =
  ud_source :: string
  ud_content :: string

record context_file =
  xf_filename :: untrusted_data
  xf_previousFilename :: "untrusted_data option"
  xf_status :: string
  xf_testFile :: bool
  xf_patch :: untrusted_data
  xf_patchBytes :: int
  xf_anchorIds :: "string list"

record context_excerpt =
  xe_filename :: untrusted_data
  xe_side :: string
  xe_startLine :: int
  xe_endLine :: int
  xe_excerpt :: untrusted_data
  xe_excerptBytes :: int

record context_anchor =
  xa_id :: string
  xa_filename :: untrusted_data
  xa_hunkHeader :: untrusted_data
  xa_oldStart :: int
  xa_newStart :: int
  xa_changedLines :: int
  xa_evidence :: untrusted_data

record context_exclusion =
  xx_filename :: "untrusted_data option"
  xx_reason :: string

record provider_fields =
  pm_title :: untrusted_data
  pm_body :: "untrusted_data option"
  pm_files :: "context_file list"
  pm_anchors :: "context_anchor list"
  pm_excerpts :: "context_excerpt list"
  pm_deterministicTestFiles :: "untrusted_data list"
  pm_allowedAnchorIds :: "string list"
  pm_limits :: generation_limits
  pm_limitsHit :: "string list"
  pm_exclusions :: "context_exclusion list"

record context_usage =
  cu_includedFiles :: int
  cu_includedHunks :: int
  cu_titleBytes :: int
  cu_bodyBytes :: int
  cu_patchBytes :: int
  cu_excerptBytes :: int
  cu_totalBytes :: int
  cu_providerBytes :: int

record generation_context = provider_fields +
  gc_revisionId :: string
  gc_headSha :: string
  gc_baseSha :: string
  gc_analysisSnapshotId :: string
  gc_sourceHash :: string
  gc_contextHash :: string
  gc_usage :: context_usage

record excerpt_candidate =
  ec_path :: string
  ec_side :: string
  ec_startLine :: int
  ec_endLine :: int
  ec_content :: string

record context_input =
  ci_revisionId :: string
  ci_analysisSnapshotId :: string
  ci_boundedSource :: bounded_source
  ci_analysis :: analysis_snapshot
  ci_excerpts :: "excerpt_candidate list"

record context_env =
  ce_sha :: "bytes \<Rightarrow> bytes"
  ce_uuid :: "string \<Rightarrow> bool"

section \<open>Schemas\<close>

definition untrusted_sources :: "string list" where
  "untrusted_sources = [''pull_request_title'', ''pull_request_body'', ''pull_request_filename'',
     ''pull_request_patch'', ''changed_file_excerpt'', ''analysis_hunk_header'', ''analysis_anchor_evidence'']"

definition untrusted_ok :: "untrusted_data \<Rightarrow> bool" where
  "untrusted_ok d \<longleftrightarrow> ud_source d \<in> set untrusted_sources \<and> length_in 0 131072 (ud_content d)"

definition labelled :: "string \<Rightarrow> untrusted_data \<Rightarrow> bool" where
  "labelled source d \<longleftrightarrow> untrusted_ok d \<and> ud_source d = source"

definition context_anchor_id_ok :: "string \<Rightarrow> bool" where
  "context_anchor_id_ok s \<longleftrightarrow> length s \<le> 4 \<and> starts_with ''a'' s
     \<and> (tl s = ''0'' \<or> (length_in 1 3 (tl s) \<and> hd (tl s) \<in> set ''123456789'' \<and> all_in ''0123456789'' (tl s)))"

definition positive_int :: "int \<Rightarrow> bool" where
  "positive_int n \<longleftrightarrow> is_safe_integer n \<and> 0 < n"

definition context_file_ok :: "context_file \<Rightarrow> bool" where
  "context_file_ok f \<longleftrightarrow> labelled ''pull_request_filename'' (xf_filename f)
     \<and> optional_ok (labelled ''pull_request_filename'') (xf_previousFilename f)
     \<and> xf_status f \<in> set file_statuses \<and> labelled ''pull_request_patch'' (xf_patch f)
     \<and> int_in 1 131072 (xf_patchBytes f) \<and> list_all context_anchor_id_ok (xf_anchorIds f)
     \<and> 1 \<le> length (xf_anchorIds f) \<and> length (xf_anchorIds f) \<le> 400"

definition context_excerpt_ok :: "context_excerpt \<Rightarrow> bool" where
  "context_excerpt_ok e \<longleftrightarrow> labelled ''pull_request_filename'' (xe_filename e)
     \<and> xe_side e \<in> {''base'', ''head''} \<and> positive_int (xe_startLine e) \<and> positive_int (xe_endLine e)
     \<and> labelled ''changed_file_excerpt'' (xe_excerpt e) \<and> int_in 1 4096 (xe_excerptBytes e)"

definition context_anchor_ok :: "context_anchor \<Rightarrow> bool" where
  "context_anchor_ok a \<longleftrightarrow> context_anchor_id_ok (xa_id a)
     \<and> labelled ''pull_request_filename'' (xa_filename a)
     \<and> labelled ''analysis_hunk_header'' (xa_hunkHeader a)
     \<and> nonnegative_int (xa_oldStart a) \<and> nonnegative_int (xa_newStart a)
     \<and> positive_int (xa_changedLines a) \<and> labelled ''analysis_anchor_evidence'' (xa_evidence a)"

definition context_exclusion_ok :: "context_exclusion \<Rightarrow> bool" where
  "context_exclusion_ok x \<longleftrightarrow> optional_ok (labelled ''pull_request_filename'') (xx_filename x)
     \<and> xx_reason x \<in> set exclusion_reasons"

definition provider_material_ok :: "'a provider_fields_scheme \<Rightarrow> bool" where
  "provider_material_ok m \<longleftrightarrow> untrusted_ok (pm_title m) \<and> optional_ok untrusted_ok (pm_body m)
     \<and> list_all context_file_ok (pm_files m) \<and> length (pm_files m) \<le> 120
     \<and> list_all context_anchor_ok (pm_anchors m) \<and> length (pm_anchors m) \<le> 400
     \<and> list_all context_excerpt_ok (pm_excerpts m) \<and> length (pm_excerpts m) \<le> 12
     \<and> list_all untrusted_ok (pm_deterministicTestFiles m) \<and> length (pm_deterministicTestFiles m) \<le> 120
     \<and> list_all context_anchor_id_ok (pm_allowedAnchorIds m) \<and> length (pm_allowedAnchorIds m) \<le> 400
     \<and> generation_limits_ok (pm_limits m)
     \<and> list_all (\<lambda>l. l \<in> set generation_limit_hits) (pm_limitsHit m) \<and> length (pm_limitsHit m) \<le> 20
     \<and> list_all context_exclusion_ok (pm_exclusions m) \<and> length (pm_exclusions m) \<le> 600"

definition excerpt_candidate_ok :: "excerpt_candidate \<Rightarrow> bool" where
  "excerpt_candidate_ok e \<longleftrightarrow> length_in 1 1024 (ec_path e) \<and> ec_side e \<in> {''base'', ''head''}
     \<and> positive_int (ec_startLine e) \<and> positive_int (ec_endLine e)
     \<and> length_in 1 16384 (ec_content e) \<and> ec_endLine e \<ge> ec_startLine e"

section \<open>The canonical texts\<close>

definition untrusted_json :: "untrusted_data \<Rightarrow> json" where
  "untrusted_json d = JObj [(''trust'', JStr ''untrusted''), (''source'', JStr (ud_source d)),
     (''content'', JStr (ud_content d))]"

definition optional_member :: "string \<Rightarrow> ('a \<Rightarrow> json) \<Rightarrow> 'a option \<Rightarrow> (string \<times> json) list" where
  "optional_member k f v = (case v of None \<Rightarrow> [] | Some x \<Rightarrow> [(k, f x)])"

definition context_file_json :: "context_file \<Rightarrow> json" where
  "context_file_json f = JObj ([(''filename'', untrusted_json (xf_filename f))]
     @ optional_member ''previousFilename'' untrusted_json (xf_previousFilename f)
     @ [(''status'', JStr (xf_status f)), (''testFile'', JBool (xf_testFile f)),
        (''patch'', untrusted_json (xf_patch f)), (''patchBytes'', JNum (xf_patchBytes f)),
        (''anchorIds'', JArr (map JStr (xf_anchorIds f)))])"

definition context_excerpt_json :: "context_excerpt \<Rightarrow> json" where
  "context_excerpt_json e = JObj [(''filename'', untrusted_json (xe_filename e)),
     (''side'', JStr (xe_side e)), (''startLine'', JNum (xe_startLine e)), (''endLine'', JNum (xe_endLine e)),
     (''excerpt'', untrusted_json (xe_excerpt e)), (''excerptBytes'', JNum (xe_excerptBytes e))]"

definition context_anchor_json :: "context_anchor \<Rightarrow> json" where
  "context_anchor_json a = JObj [(''id'', JStr (xa_id a)), (''filename'', untrusted_json (xa_filename a)),
     (''hunkHeader'', untrusted_json (xa_hunkHeader a)), (''oldStart'', JNum (xa_oldStart a)),
     (''newStart'', JNum (xa_newStart a)), (''changedLines'', JNum (xa_changedLines a)),
     (''evidence'', untrusted_json (xa_evidence a))]"

definition context_exclusion_json :: "context_exclusion \<Rightarrow> json" where
  "context_exclusion_json x = JObj (optional_member ''filename'' untrusted_json (xx_filename x)
     @ [(''reason'', JStr (xx_reason x))])"

definition limits_json :: "generation_limits \<Rightarrow> json" where
  "limits_json l = JObj [(''maximumFiles'', JNum (gl_maximumFiles l)),
     (''maximumHunks'', JNum (gl_maximumHunks l)), (''maximumTotalBytes'', JNum (gl_maximumTotalBytes l)),
     (''maximumFileBytes'', JNum (gl_maximumFileBytes l)),
     (''maximumTitleBytes'', JNum (gl_maximumTitleBytes l)),
     (''maximumBodyBytes'', JNum (gl_maximumBodyBytes l)),
     (''maximumExcerpts'', JNum (gl_maximumExcerpts l)),
     (''maximumExcerptBytes'', JNum (gl_maximumExcerptBytes l))]"

definition fields_members :: "'a provider_fields_scheme \<Rightarrow> (string \<times> json) list" where
  "fields_members m = [(''title'', untrusted_json (pm_title m)),
     (''body'', case pm_body m of None \<Rightarrow> JNull | Some b \<Rightarrow> untrusted_json b),
     (''files'', JArr (map context_file_json (pm_files m))),
     (''anchors'', JArr (map context_anchor_json (pm_anchors m))),
     (''excerpts'', JArr (map context_excerpt_json (pm_excerpts m))),
     (''deterministicTestFiles'', JArr (map untrusted_json (pm_deterministicTestFiles m))),
     (''allowedAnchorIds'', JArr (map JStr (pm_allowedAnchorIds m))),
     (''limits'', limits_json (pm_limits m)), (''limitsHit'', JArr (map JStr (pm_limitsHit m))),
     (''exclusions'', JArr (map context_exclusion_json (pm_exclusions m)))]"

definition provider_material_json :: "'a provider_fields_scheme \<Rightarrow> json" where
  "provider_material_json m = JObj ([(''schemaVersion'', JStr ''1''),
     (''trust'', JStr ''untrusted_github_revision'')] @ fields_members m)"

definition context_usage_json :: "context_usage \<Rightarrow> json" where
  "context_usage_json u = JObj [(''includedFiles'', JNum (cu_includedFiles u)),
     (''includedHunks'', JNum (cu_includedHunks u)), (''titleBytes'', JNum (cu_titleBytes u)),
     (''bodyBytes'', JNum (cu_bodyBytes u)), (''patchBytes'', JNum (cu_patchBytes u)),
     (''excerptBytes'', JNum (cu_excerptBytes u)), (''totalBytes'', JNum (cu_totalBytes u)),
     (''providerBytes'', JNum (cu_providerBytes u))]"

definition context_material_json :: "generation_context \<Rightarrow> json" where
  "context_material_json c = JObj ([(''schemaVersion'', JStr ''1''),
     (''contextVersion'', JStr ''generation-context-v1''), (''revisionId'', JStr (gc_revisionId c)),
     (''headSha'', JStr (gc_headSha c)), (''baseSha'', JStr (gc_baseSha c)),
     (''analysisSnapshotId'', JStr (gc_analysisSnapshotId c)), (''sourceHash'', JStr (gc_sourceHash c)),
     (''analyzerVersion'', JStr ''bounded-diff-v1'')] @ fields_members c
     @ [(''usage'', context_usage_json (gc_usage c))])"

definition compute_generation_context_hash :: "context_env \<Rightarrow> generation_context \<Rightarrow> string" where
  "compute_generation_context_hash env c = hex_digest (ce_sha env) (stable_json (context_material_json c))"

definition material_bytes :: "'a provider_fields_scheme \<Rightarrow> int" where
  "material_bytes m = utf8_size (stable_json (provider_material_json m))"

section \<open>The schema of a context\<close>

definition anchor_number :: "string \<Rightarrow> nat" where
  "anchor_number i = decimal_value (tl i)"

definition sort_ids :: "string list \<Rightarrow> string list" where
  "sort_ids = sort_key anchor_number"

definition context_base_ok :: "context_env \<Rightarrow> generation_context \<Rightarrow> bool" where
  "context_base_ok env c \<longleftrightarrow> ce_uuid env (gc_revisionId c) \<and> git_sha_ok (gc_headSha c)
     \<and> git_sha_ok (gc_baseSha c) \<and> ce_uuid env (gc_analysisSnapshotId c) \<and> sha256_ok (gc_sourceHash c)
     \<and> sha256_ok (gc_contextHash c) \<and> labelled ''pull_request_title'' (pm_title c)
     \<and> optional_ok (labelled ''pull_request_body'') (pm_body c)
     \<and> list_all (labelled ''pull_request_filename'') (pm_deterministicTestFiles c)
     \<and> provider_material_ok c
     \<and> (let u = gc_usage c in int_in 0 120 (cu_includedFiles u) \<and> int_in 0 400 (cu_includedHunks u)
        \<and> int_in 0 4096 (cu_titleBytes u) \<and> int_in 0 65536 (cu_bodyBytes u)
        \<and> int_in 0 524288 (cu_patchBytes u) \<and> int_in 0 49152 (cu_excerptBytes u)
        \<and> int_in 0 524288 (cu_totalBytes u) \<and> int_in 0 524288 (cu_providerBytes u))"

definition context_paths :: "'a provider_fields_scheme \<Rightarrow> string list" where
  "context_paths c = map (\<lambda>f. ud_content (xf_filename f)) (pm_files c)"

definition context_anchors_ok :: "'a provider_fields_scheme \<Rightarrow> bool" where
  "context_anchors_ok c \<longleftrightarrow>
     (let allowed = pm_allowedAnchorIds c in
      card (set allowed) = length allowed
      \<and> list_all (\<lambda>f. card (set (xf_anchorIds f)) = length (xf_anchorIds f)
          \<and> list_all (\<lambda>i. i \<in> set allowed) (xf_anchorIds f)) (pm_files c)
      \<and> sort_ids (concat (map xf_anchorIds (pm_files c))) = sort_ids allowed
      \<and> \<not> (sort_ids (map xa_id (pm_anchors c)) \<noteq> sort_ids allowed
           \<or> card (set (map xa_id (pm_anchors c))) \<noteq> length (pm_anchors c)
           \<or> list_ex (\<lambda>a. case find (\<lambda>f. ud_content (xf_filename f) = ud_content (xa_filename a)) (pm_files c) of
                None \<Rightarrow> True | Some f \<Rightarrow> xa_id a \<notin> set (xf_anchorIds f)) (pm_anchors c)))"

definition context_contents_ok :: "'a provider_fields_scheme \<Rightarrow> bool" where
  "context_contents_ok c \<longleftrightarrow>
     card (set (pm_limitsHit c)) = length (pm_limitsHit c)
     \<and> card (set (context_paths c)) = length (context_paths c)
     \<and> list_all (\<lambda>f. \<not> (xf_patchBytes f \<noteq> utf8_size (ud_content (xf_patch f))
          \<or> utf8_size (ud_content (xf_patch f)) > gl_maximumFileBytes (pm_limits c)
          \<or> xf_testFile f \<noteq> is_deterministic_test_file (ud_content (xf_filename f)))) (pm_files c)
     \<and> sort (map (\<lambda>f. ud_content (xf_filename f)) (filter xf_testFile (pm_files c)))
       = sort (map ud_content (pm_deterministicTestFiles c))
     \<and> list_all (\<lambda>e. \<not> (ud_content (xe_filename e) \<notin> set (context_paths c)
          \<or> xe_endLine e < xe_startLine e
          \<or> xe_excerptBytes e \<noteq> utf8_size (ud_content (xe_excerpt e))
          \<or> utf8_size (ud_content (xe_excerpt e)) > gl_maximumExcerptBytes (pm_limits c))) (pm_excerpts c)"

definition fields_patch_bytes :: "'a provider_fields_scheme \<Rightarrow> int" where
  "fields_patch_bytes c = sum_list (map xf_patchBytes (pm_files c))"

definition fields_excerpt_bytes :: "'a provider_fields_scheme \<Rightarrow> int" where
  "fields_excerpt_bytes c = sum_list (map xe_excerptBytes (pm_excerpts c))"

definition fields_body_bytes :: "'a provider_fields_scheme \<Rightarrow> int" where
  "fields_body_bytes c = (case pm_body c of None \<Rightarrow> 0 | Some b \<Rightarrow> utf8_size (ud_content b))"

definition context_usage_ok :: "generation_context \<Rightarrow> bool" where
  "context_usage_ok c \<longleftrightarrow>
     (let u = gc_usage c; l = pm_limits c in
      \<not> (cu_includedFiles u \<noteq> int (length (pm_files c))
         \<or> cu_includedHunks u \<noteq> int (length (pm_allowedAnchorIds c))
         \<or> cu_titleBytes u \<noteq> utf8_size (ud_content (pm_title c)) \<or> cu_bodyBytes u \<noteq> fields_body_bytes c
         \<or> cu_patchBytes u \<noteq> fields_patch_bytes c \<or> cu_excerptBytes u \<noteq> fields_excerpt_bytes c
         \<or> cu_providerBytes u \<noteq> material_bytes c \<or> cu_totalBytes u \<noteq> cu_providerBytes u
         \<or> int (length (pm_files c)) > gl_maximumFiles l
         \<or> int (length (pm_allowedAnchorIds c)) > gl_maximumHunks l
         \<or> int (length (pm_excerpts c)) > gl_maximumExcerpts l
         \<or> utf8_size (ud_content (pm_title c)) > gl_maximumTitleBytes l
         \<or> fields_body_bytes c > gl_maximumBodyBytes l
         \<or> cu_providerBytes u > gl_maximumTotalBytes l))"

definition generation_context_ok :: "context_env \<Rightarrow> generation_context \<Rightarrow> bool" where
  "generation_context_ok env c \<longleftrightarrow> context_base_ok env c \<and> context_anchors_ok c \<and> context_contents_ok c
     \<and> context_usage_ok c \<and> gc_contextHash c = compute_generation_context_hash env c"

section \<open>Shrinking into the byte limit\<close>

function bisect :: "(nat \<Rightarrow> bool) \<Rightarrow> nat \<Rightarrow> nat \<Rightarrow> nat" where
  "bisect fits low high =
     (if low < high
      then let midpoint = (low + high + 1) div 2 in
        if fits midpoint then bisect fits midpoint high else bisect fits low (midpoint - 1)
      else low)"
  by pat_completeness auto
termination
  by (relation "measure (\<lambda>(fits, low, high). high - low)") auto

declare bisect.simps [simp del]

definition fit_content ::
  "string \<Rightarrow> int \<Rightarrow> (string \<Rightarrow> provider_fields) \<Rightarrow> string" where
  "fit_content content maximumBytes with_content =
     take (bisect (\<lambda>n. material_bytes (with_content (take n content)) \<le> maximumBytes) 0 (length content)) content"

function drop_last_while :: "('a list \<Rightarrow> bool) \<Rightarrow> 'a list \<Rightarrow> 'a list" where
  "drop_last_while over xs = (if over xs \<and> xs \<noteq> [] then drop_last_while over (butlast xs) else xs)"
  by pat_completeness auto
termination
  by (relation "measure (\<lambda>(over, xs). length xs)") auto

declare drop_last_while.simps [simp del]

definition with_body :: "provider_fields \<Rightarrow> string \<Rightarrow> provider_fields" where
  "with_body m content = m\<lparr>pm_body := map_option (\<lambda>b. b\<lparr>ud_content := content\<rparr>) (pm_body m)\<rparr>"

definition with_title :: "provider_fields \<Rightarrow> string \<Rightarrow> provider_fields" where
  "with_title m content = m\<lparr>pm_title := (pm_title m)\<lparr>ud_content := content\<rparr>\<rparr>"

definition body_content :: "provider_fields \<Rightarrow> string" where
  "body_content m = (case pm_body m of None \<Rightarrow> [] | Some b \<Rightarrow> ud_content b)"

definition shrink_exclusions :: "int \<Rightarrow> provider_fields \<Rightarrow> provider_fields" where
  "shrink_exclusions maximumBytes m = m\<lparr>pm_exclusions :=
     drop_last_while (\<lambda>xs. material_bytes (m\<lparr>pm_exclusions := xs\<rparr>) > maximumBytes) (pm_exclusions m)\<rparr>"

definition shrink_excerpts :: "int \<Rightarrow> provider_fields \<Rightarrow> provider_fields" where
  "shrink_excerpts maximumBytes m = m\<lparr>pm_excerpts :=
     drop_last_while (\<lambda>xs. material_bytes (m\<lparr>pm_excerpts := xs\<rparr>) > maximumBytes) (pm_excerpts m)\<rparr>"

definition shrink_body :: "int \<Rightarrow> provider_fields \<Rightarrow> provider_fields" where
  "shrink_body maximumBytes m =
     (if material_bytes m > maximumBytes \<and> pm_body m \<noteq> None
      then with_body m (fit_content (body_content m) maximumBytes (with_body m)) else m)"

definition shrink_title :: "int \<Rightarrow> provider_fields \<Rightarrow> provider_fields" where
  "shrink_title maximumBytes m =
     (if material_bytes m > maximumBytes
      then with_title m (fit_content (ud_content (pm_title m)) maximumBytes (with_title m)) else m)"

definition shrink_fields :: "int \<Rightarrow> provider_fields \<Rightarrow> provider_fields" where
  "shrink_fields maximumBytes m = shrink_title maximumBytes (shrink_body maximumBytes
     (shrink_excerpts maximumBytes (shrink_exclusions maximumBytes m)))"

text \<open>The flag \<open>trimmed\<close> is set by whichever of the four stages runs: some stage runs exactly when
  the fields are over the limit at the start, for then the last one does if no other has helped.
  Fields that pass the schema keep passing it, so only the first measurement can throw.\<close>

definition fit_generation_provider_material ::
  "provider_fields \<Rightarrow> int \<Rightarrow> context_error + provider_fields" where
  "fit_generation_provider_material m maximumBytes =
     (if \<not> provider_material_ok m then Inl Context_schema_error
      else let trimmed = material_bytes m > maximumBytes;
               fields = shrink_fields maximumBytes m;
               fields' = (if trimmed \<and> ''total_bytes'' \<notin> set (pm_limitsHit fields)
                 then shrink_fields maximumBytes
                   (fields\<lparr>pm_limitsHit := sort (pm_limitsHit fields @ [''total_bytes''])\<rparr>)
                 else fields) in
        if material_bytes fields' > maximumBytes then Inl Context_invalid else Inr fields')"

section \<open>Building a context\<close>

definition untrusted :: "string \<Rightarrow> string \<Rightarrow> untrusted_data" where
  "untrusted source content = \<lparr>ud_source = source, ud_content = content\<rparr>"

definition anchor_in_source :: "bounded_source \<Rightarrow> diff_anchor \<Rightarrow> bool" where
  "anchor_in_source b a \<longleftrightarrow>
     (case find (\<lambda>f. bf_path f = da_file a \<and> bf_kind f = Bounded_text) (bs_files b) of
        None \<Rightarrow> False
      | Some f \<Rightarrow> (case bf_patch f of None \<Rightarrow> False | Some p \<Rightarrow> patch_contains_anchor p a))"

definition ids_of_file :: "diff_anchor list \<Rightarrow> string \<Rightarrow> string list" where
  "ids_of_file anchors path = map da_id (filter (\<lambda>a. da_file a = path) anchors)"

definition context_file_of :: "diff_anchor list \<Rightarrow> bounded_file \<Rightarrow> context_file list" where
  "context_file_of anchors f =
     (case bf_patch f of
       None \<Rightarrow> []
     | Some p \<Rightarrow> if bf_kind f \<noteq> Bounded_text \<or> ids_of_file anchors (bf_path f) = [] then []
        else [\<lparr>xf_filename = untrusted ''pull_request_filename'' (bf_path f),
               xf_previousFilename = map_option (untrusted ''pull_request_filename'') (bf_previousPath f),
               xf_status = bf_status f, xf_testFile = bf_testFile f,
               xf_patch = untrusted ''pull_request_patch'' p, xf_patchBytes = utf8_size p,
               xf_anchorIds = sort_ids (ids_of_file anchors (bf_path f))\<rparr>])"

definition context_files :: "bounded_source \<Rightarrow> diff_anchor list \<Rightarrow> context_file list" where
  "context_files b anchors = concat (map (context_file_of anchors) (bs_files b))"

record excerpt_state =
  es_excerpts :: "context_excerpt list"
  es_exclusions :: "exclusion list"
  es_limitsHit :: "string list"
  es_remainingBytes :: int

definition exclude_excerpt :: "string \<Rightarrow> string \<Rightarrow> excerpt_state \<Rightarrow> excerpt_state" where
  "exclude_excerpt path reason st =
     st\<lparr>es_exclusions := es_exclusions st @ [\<lparr>ex_path = Some path, ex_reason = reason\<rparr>]\<rparr>"

definition hit_excerpt_limit :: "string \<Rightarrow> excerpt_state \<Rightarrow> excerpt_state" where
  "hit_excerpt_limit l st = st\<lparr>es_limitsHit := add_limit l (es_limitsHit st)\<rparr>"

definition add_excerpt ::
  "generation_limits \<Rightarrow> string list \<Rightarrow> excerpt_state \<Rightarrow> excerpt_candidate \<Rightarrow> excerpt_state" where
  "add_excerpt l paths st e =
     (if ec_path e \<notin> set paths then exclude_excerpt (ec_path e) ''excerpt_not_changed_text'' st
      else if int (length (es_excerpts st)) \<ge> gl_maximumExcerpts l
      then hit_excerpt_limit ''excerpt_count'' (exclude_excerpt (ec_path e) ''excerpt_count'' st)
      else let content = truncate_utf8 (ec_content e)
                 (min (gl_maximumExcerptBytes l) (max 0 (es_remainingBytes st))) in
        if tr_byteLength content = 0
        then hit_excerpt_limit ''total_bytes'' (exclude_excerpt (ec_path e) ''total_bytes'' st)
        else let st1 = (if tr_truncated content
               then (let s = hit_excerpt_limit ''excerpt_bytes'' (exclude_excerpt (ec_path e) ''excerpt_bytes'' st) in
                 if es_remainingBytes st < gl_maximumExcerptBytes l then hit_excerpt_limit ''total_bytes'' s else s)
               else st) in
          st1\<lparr>es_excerpts := es_excerpts st1 @ [\<lparr>xe_filename = untrusted ''pull_request_filename'' (ec_path e),
                xe_side = ec_side e, xe_startLine = ec_startLine e, xe_endLine = ec_endLine e,
                xe_excerpt = untrusted ''changed_file_excerpt'' (tr_value content),
                xe_excerptBytes = tr_byteLength content\<rparr>],
              es_remainingBytes := es_remainingBytes st1 - tr_byteLength content\<rparr>)"

definition order_excerpts :: "excerpt_candidate list \<Rightarrow> excerpt_candidate list" where
  "order_excerpts = sort_key (\<lambda>e. (ec_path e, ec_side e, ec_startLine e, ec_endLine e, ec_content e))"

definition context_anchor_of :: "diff_anchor \<Rightarrow> context_anchor" where
  "context_anchor_of a = \<lparr>xa_id = da_id a, xa_filename = untrusted ''pull_request_filename'' (da_file a),
     xa_hunkHeader = untrusted ''analysis_hunk_header'' (da_hunkHeader a),
     xa_oldStart = da_oldStart a, xa_newStart = da_newStart a, xa_changedLines = da_changedLines a,
     xa_evidence = untrusted ''analysis_anchor_evidence'' (da_evidence a)\<rparr>"

definition context_exclusion_of :: "exclusion \<Rightarrow> context_exclusion" where
  "context_exclusion_of e = \<lparr>xx_filename = map_option (untrusted ''pull_request_filename'') (ex_path e),
     xx_reason = ex_reason e\<rparr>"

definition fields_of :: "context_input \<Rightarrow> provider_fields" where
  "fields_of i =
     (let b = ci_boundedSource i; l = bs_limits b; anchors = as_anchors (ci_analysis i);
          files = context_files b anchors;
          st = foldl (add_excerpt l (map (\<lambda>f. ud_content (xf_filename f)) files))
            \<lparr>es_excerpts = [], es_exclusions = bs_exclusions b, es_limitsHit = bs_limitsHit b,
             es_remainingBytes = gl_maximumTotalBytes l - bu_totalBytes (bs_usage b)\<rparr>
            (order_excerpts (ci_excerpts i)) in
      \<lparr>pm_title = untrusted ''pull_request_title'' (bs_title b),
       pm_body = map_option (untrusted ''pull_request_body'') (bs_body b), pm_files = files,
       pm_anchors = sort_key (\<lambda>a. anchor_number (xa_id a)) (map context_anchor_of anchors),
       pm_excerpts = es_excerpts st,
       pm_deterministicTestFiles = map (\<lambda>f. untrusted ''pull_request_filename'' (ud_content (xf_filename f)))
         (filter xf_testFile files),
       pm_allowedAnchorIds = sort_ids (map da_id anchors), pm_limits = l,
       pm_limitsHit = sort (es_limitsHit st),
       pm_exclusions = map context_exclusion_of (sort_exclusions (es_exclusions st))\<rparr>)"

definition with_bindings ::
  "provider_fields \<Rightarrow> context_input \<Rightarrow> string \<Rightarrow> generation_context" where
  "with_bindings m i contextHash = provider_fields.extend m
     \<lparr>gc_revisionId = ci_revisionId i, gc_headSha = as_headSha (ci_analysis i),
      gc_baseSha = as_baseSha (ci_analysis i), gc_analysisSnapshotId = ci_analysisSnapshotId i,
      gc_sourceHash = bs_sourceHash (ci_boundedSource i), gc_contextHash = contextHash,
      gc_usage = \<lparr>cu_includedFiles = int (length (context_files (ci_boundedSource i) (as_anchors (ci_analysis i)))),
        cu_includedHunks = int (length (as_anchors (ci_analysis i))),
        cu_titleBytes = utf8_size (ud_content (pm_title m)), cu_bodyBytes = fields_body_bytes m,
        cu_patchBytes = bu_patchBytes (bs_usage (ci_boundedSource i)),
        cu_excerptBytes = fields_excerpt_bytes m, cu_totalBytes = material_bytes m,
        cu_providerBytes = material_bytes m\<rparr>\<rparr>"

definition context_input_ok :: "context_env \<Rightarrow> context_input \<Rightarrow> bool" where
  "context_input_ok env i \<longleftrightarrow> ce_uuid env (ci_revisionId i) \<and> ce_uuid env (ci_analysisSnapshotId i)
     \<and> bounded_source_ok (ci_boundedSource i) \<and> analysis_snapshot_ok (ci_analysis i)
     \<and> list_all excerpt_candidate_ok (ci_excerpts i) \<and> length (ci_excerpts i) \<le> 100"

definition build_generation_context ::
  "context_env \<Rightarrow> context_input \<Rightarrow> context_error + generation_context" where
  "build_generation_context env i =
     (if \<not> context_input_ok env i then Inl Context_invalid
      else if as_baseSha (ci_analysis i) \<noteq> bs_baseSha (ci_boundedSource i)
           \<or> as_headSha (ci_analysis i) \<noteq> bs_headSha (ci_boundedSource i) then Inl Context_invalid
      else if list_ex (\<lambda>a. \<not> anchor_in_source (ci_boundedSource i) a) (as_anchors (ci_analysis i))
      then Inl Context_invalid
      else bind_result (fit_generation_provider_material (fields_of i)
             (gl_maximumTotalBytes (bs_limits (ci_boundedSource i)))) (\<lambda>m.
        let contextHash = compute_generation_context_hash env (with_bindings m i []);
            c = with_bindings m i contextHash in
        if generation_context_ok env c then Inr c else Inl Context_invalid))"

section \<open>The bounded source that fits\<close>

definition probe_input :: "bounded_source \<Rightarrow> analysis_snapshot \<Rightarrow> context_input" where
  "probe_input b a = \<lparr>ci_revisionId = ''00000000-0000-4000-8000-000000000001'',
     ci_analysisSnapshotId = ''00000000-0000-4000-8000-000000000002'', ci_boundedSource = b,
     ci_analysis = a, ci_excerpts = []\<rparr>"

definition analyze_bounded :: "bounded_source \<Rightarrow> context_error + analysis_snapshot" where
  "analyze_bounded b = bind_result (bounded_revision_source_patch b) (\<lambda>patch.
     case analyze_pull_request_patch patch default_analysis_limits of
       Inl _ \<Rightarrow> Inl Context_schema_error | Inr a \<Rightarrow> Inr a)"

function fit_bounded_source_to_provider_envelope ::
  "context_env \<Rightarrow> bounded_source \<Rightarrow> context_error + bounded_source" where
  "fit_bounded_source_to_provider_envelope env bounded =
     bind_result (analyze_bounded bounded) (\<lambda>analysis.
       case build_generation_context env (probe_input bounded analysis) of
         Inr _ \<Rightarrow> Inr bounded
       | Inl Context_schema_error \<Rightarrow> Inl Context_schema_error
       | Inl Context_invalid \<Rightarrow>
         (case remove_last_bounded_hunk bounded of
            Inl e \<Rightarrow> Inl e
          | Inr None \<Rightarrow> Inl Context_invalid
          | Inr (Some reduced) \<Rightarrow> fit_bounded_source_to_provider_envelope env reduced))"
  by pat_completeness auto
termination
  by (relation "measure (\<lambda>(env, b). source_hunks b)") (auto intro: remove_last_bounded_hunk_less)

declare fit_bounded_source_to_provider_envelope.simps [simp del]

definition build_bounded_revision_source ::
  "context_env \<Rightarrow> revision_source \<Rightarrow> generation_limits \<Rightarrow> context_error + bounded_source" where
  "build_bounded_revision_source env s limits =
     bind_result (initial_bounded_source (ce_sha env) s limits)
       (fit_bounded_source_to_provider_envelope env)"

section \<open>Use of a context\<close>

definition project_generation_provider_material ::
  "context_env \<Rightarrow> generation_context \<Rightarrow> context_error + provider_fields" where
  "project_generation_provider_material env c =
     (if \<not> generation_context_ok env c then Inl Context_invalid
      else let m = provider_fields.truncate c in
        if provider_material_ok m then Inr m else Inl Context_schema_error)"

definition canonical_generation_provider_material ::
  "context_env \<Rightarrow> generation_context \<Rightarrow> context_error + string" where
  "canonical_generation_provider_material env c =
     bind_result (project_generation_provider_material env c) (\<lambda>m. Inr (stable_json (provider_material_json m)))"

definition generation_provider_material_bytes ::
  "context_env \<Rightarrow> generation_context \<Rightarrow> context_error + int" where
  "generation_provider_material_bytes env c =
     bind_result (canonical_generation_provider_material env c) (\<lambda>t. Inr (utf8_size t))"

record semantic_item =
  si_kind :: string
  si_text :: string
  si_anchorIds :: "string list"

definition semantic_item_ok :: "semantic_item \<Rightarrow> bool" where
  "semantic_item_ok s \<longleftrightarrow> length_in 1 64 (si_kind s)
     \<and> hd (si_kind s) \<in> set ''abcdefghijklmnopqrstuvwxyz''
     \<and> all_in ''abcdefghijklmnopqrstuvwxyz0123456789_'' (si_kind s)
     \<and> length_in 1 2000 (si_text s) \<and> list_all context_anchor_id_ok (si_anchorIds s)
     \<and> 1 \<le> length (si_anchorIds s) \<and> length (si_anchorIds s) \<le> 10
     \<and> card (set (si_anchorIds s)) = length (si_anchorIds s)"

definition filter_anchored_semantic_items ::
  "context_env \<Rightarrow> semantic_item list \<Rightarrow> generation_context \<Rightarrow> semantic_item list" where
  "filter_anchored_semantic_items env items c =
     (if \<not> generation_context_ok env c then []
      else filter (\<lambda>s. semantic_item_ok s \<and> list_all (\<lambda>i. i \<in> set (pm_allowedAnchorIds c)) (si_anchorIds s))
             items)"

definition expected_file :: "analysis_snapshot \<Rightarrow> string \<Rightarrow> string option" where
  "expected_file a i = map_option da_file (find (\<lambda>x. da_id x = i) (rev (as_anchors a)))"

definition referenced_anchors :: "'a provider_fields_scheme \<Rightarrow> (string \<times> string) list" where
  "referenced_anchors c = concat (map (\<lambda>f. map (\<lambda>i. (i, ud_content (xf_filename f))) (xf_anchorIds f)) (pm_files c))"

definition projected_anchor :: "context_anchor \<Rightarrow> diff_anchor" where
  "projected_anchor a = \<lparr>da_id = xa_id a, da_file = ud_content (xa_filename a),
     da_hunkHeader = ud_content (xa_hunkHeader a), da_oldStart = xa_oldStart a,
     da_newStart = xa_newStart a, da_changedLines = xa_changedLines a,
     da_evidence = ud_content (xa_evidence a)\<rparr>"

definition diff_anchor_json :: "diff_anchor \<Rightarrow> json" where
  "diff_anchor_json a = JObj [(''id'', JStr (da_id a)), (''file'', JStr (da_file a)),
     (''hunkHeader'', JStr (da_hunkHeader a)), (''oldStart'', JNum (da_oldStart a)),
     (''newStart'', JNum (da_newStart a)), (''changedLines'', JNum (da_changedLines a)),
     (''evidence'', JStr (da_evidence a))]"

definition verify_generation_context_against_analysis ::
  "context_env \<Rightarrow> generation_context \<Rightarrow> analysis_snapshot \<Rightarrow> context_error + unit" where
  "verify_generation_context_against_analysis env c a =
     (if \<not> generation_context_ok env c \<or> \<not> analysis_snapshot_ok a then Inl Context_invalid
      else let referenced = referenced_anchors c in
        if gc_baseSha c \<noteq> as_baseSha a \<or> gc_headSha c \<noteq> as_headSha a
           \<or> ''bounded-diff-v1'' \<noteq> as_analyzerVersion a
           \<or> length referenced \<noteq> card (set (map da_id (as_anchors a)))
           \<or> card (set (map fst referenced)) \<noteq> length referenced
           \<or> list_ex (\<lambda>(i, file). expected_file a i \<noteq> Some file) referenced
           \<or> stable_json (JArr (map diff_anchor_json (map projected_anchor (pm_anchors c))))
             \<noteq> stable_json (JArr (map diff_anchor_json (as_anchors a)))
        then Inl Context_invalid else Inr ())"

end
