(* ===== verification/Context_Life.thy ===== *)
theory Context_Life
  imports Generation_Context Analysis_Life "HOL-Library.Multiset"
begin

text \<open>
  Properties of the bounded source and of the generation context: what is sent to the provider is
  bounded and comes from semantic files only, bounded patches are made of leading hunks of the
  source, no more is given up than needed, and the verification against an analysis accepts exactly
  the contexts that show the anchors of that analysis.
\<close>

section \<open>The fields of a context\<close>

lemma with_bindings_simps [simp]:
  "pm_title (with_bindings m i h) = pm_title m" "pm_body (with_bindings m i h) = pm_body m"
  "pm_files (with_bindings m i h) = pm_files m" "pm_anchors (with_bindings m i h) = pm_anchors m"
  "pm_excerpts (with_bindings m i h) = pm_excerpts m"
  "pm_deterministicTestFiles (with_bindings m i h) = pm_deterministicTestFiles m"
  "pm_allowedAnchorIds (with_bindings m i h) = pm_allowedAnchorIds m"
  "pm_limits (with_bindings m i h) = pm_limits m" "pm_limitsHit (with_bindings m i h) = pm_limitsHit m"
  "pm_exclusions (with_bindings m i h) = pm_exclusions m"
  "gc_baseSha (with_bindings m i h) = as_baseSha (ci_analysis i)"
  "gc_headSha (with_bindings m i h) = as_headSha (ci_analysis i)"
  by (simp_all add: with_bindings_def provider_fields.defs)

lemma truncate_fields [simp]:
  "fields_members (provider_fields.truncate c) = fields_members c"
  "provider_material_ok (provider_fields.truncate c) = provider_material_ok c"
  by (simp_all add: fields_members_def provider_material_ok_def provider_fields.defs)

lemma truncate_material [simp]:
  "provider_material_json (provider_fields.truncate c) = provider_material_json c"
  by (simp add: provider_material_json_def)

definition same_anchoring :: "provider_fields \<Rightarrow> provider_fields \<Rightarrow> bool" where
  "same_anchoring m n \<longleftrightarrow> pm_files m = pm_files n \<and> pm_anchors m = pm_anchors n
     \<and> pm_allowedAnchorIds m = pm_allowedAnchorIds n \<and> pm_limits m = pm_limits n"

lemma shrink_same_anchoring: "same_anchoring (shrink_fields k m) m"
  by (simp add: same_anchoring_def shrink_fields_def shrink_title_def shrink_body_def with_title_def
      with_body_def shrink_excerpts_def shrink_exclusions_def)

lemma fit_same_anchoring: "fit_generation_provider_material m k = Inr n \<Longrightarrow> same_anchoring n m"
proof -
  assume "fit_generation_provider_material m k = Inr n"
  then consider "n = shrink_fields k m" | l where "n = shrink_fields k (shrink_fields k m\<lparr>pm_limitsHit := l\<rparr>)"
    by (auto simp: fit_generation_provider_material_def Let_def split: if_splits)
  then show ?thesis
  proof cases
    case 1
    then show ?thesis by (simp add: shrink_same_anchoring)
  next
    case (2 l)
    have "same_anchoring n (shrink_fields k m\<lparr>pm_limitsHit := l\<rparr>)"
      by (simp add: 2 shrink_same_anchoring)
    then show ?thesis
      using shrink_same_anchoring [of k m] by (simp add: same_anchoring_def)
  qed
qed

lemma build_contextE:
  assumes "build_generation_context env i = Inr c"
  obtains m where "context_input_ok env i"
    and "as_baseSha (ci_analysis i) = bs_baseSha (ci_boundedSource i)"
    and "as_headSha (ci_analysis i) = bs_headSha (ci_boundedSource i)"
    and "fit_generation_provider_material (fields_of i) (gl_maximumTotalBytes (bs_limits (ci_boundedSource i))) = Inr m"
    and "c = with_bindings m i (compute_generation_context_hash env (with_bindings m i []))"
    and "generation_context_ok env c"
  using assms by (auto simp: build_generation_context_def result_simps Let_def split: if_splits)

lemma fields_of_simps:
  "pm_files (fields_of i) = context_files (ci_boundedSource i) (as_anchors (ci_analysis i))"
  "pm_anchors (fields_of i) = sort_key (\<lambda>a. anchor_number (xa_id a)) (map context_anchor_of (as_anchors (ci_analysis i)))"
  "pm_limits (fields_of i) = bs_limits (ci_boundedSource i)"
  by (simp_all add: fields_of_def Let_def)

lemma build_context_fields:
  assumes "build_generation_context env i = Inr c"
  shows "pm_files c = context_files (ci_boundedSource i) (as_anchors (ci_analysis i))"
    and "pm_anchors c = sort_key (\<lambda>a. anchor_number (xa_id a)) (map context_anchor_of (as_anchors (ci_analysis i)))"
    and "pm_limits c = bs_limits (ci_boundedSource i)"
    and "gc_baseSha c = as_baseSha (ci_analysis i)" and "gc_headSha c = as_headSha (ci_analysis i)"
  using assms by (auto elim!: build_contextE dest!: fit_same_anchoring simp: same_anchoring_def fields_of_simps)

lemma context_files_member:
  "x \<in> set (context_files b as) \<Longrightarrow> \<exists>f\<in>set (bs_files b). \<exists>p. bf_kind f = Bounded_text \<and> bf_patch f = Some p
     \<and> xf_filename x = untrusted ''pull_request_filename'' (bf_path f)
     \<and> xf_patch x = untrusted ''pull_request_patch'' p \<and> xf_anchorIds x = sort_ids (ids_of_file as (bf_path f))"
proof -
  assume "x \<in> set (context_files b as)"
  then obtain f where f: "f \<in> set (bs_files b)" and x: "x \<in> set (context_file_of as f)"
    by (auto simp: context_files_def context_file_of_def)
  then show ?thesis
    using f by (cases "bf_patch f") (auto simp: context_file_of_def split: if_splits)
qed

text \<open>C21: what a built context sends to the provider fits its byte limit, and its patches are those of
  semantic text files of the bounded source: no generated file, lock file, archive, unusual path,
  LFS pointer or submodule is among them, and excerpts are of the same files.\<close>

theorem provider_material_is_bounded_and_semantic:
  assumes "build_generation_context env i = Inr c"
  shows "(\<exists>t. canonical_generation_provider_material env c = Inr t
        \<and> utf8_size t \<le> gl_maximumTotalBytes (bs_limits (ci_boundedSource i)))
    \<and> (\<forall>x\<in>set (pm_files c). \<exists>f\<in>set (bs_files (ci_boundedSource i)).
        bf_path f = ud_content (xf_filename x) \<and> bf_patch f = Some (ud_content (xf_patch x))
        \<and> \<not> is_unusual_source_path (bf_path f) \<and> \<not> is_generated (bf_path f) \<and> \<not> is_lockfile (bf_path f)
        \<and> \<not> regex_test archive_pattern (bf_path f)
        \<and> \<not> regex_test lfs_pointer_pattern (ud_content (xf_patch x))
        \<and> \<not> regex_test submodule_patch_pattern (ud_content (xf_patch x)))
    \<and> (\<forall>e\<in>set (pm_excerpts c). \<exists>x\<in>set (pm_files c). ud_content (xe_filename e) = ud_content (xf_filename x))"
proof -
  have ok: "generation_context_ok env c" and bok: "bounded_source_ok (ci_boundedSource i)"
    using assms by (auto elim!: build_contextE simp: context_input_ok_def)
  have "provider_material_ok c" and "context_usage_ok c" and cont: "context_contents_ok c"
    using ok by (simp_all add: generation_context_ok_def context_base_ok_def)
  then have bytes: "material_bytes c \<le> gl_maximumTotalBytes (bs_limits (ci_boundedSource i))"
    using build_context_fields(3) [OF assms] by (auto simp: context_usage_ok_def Let_def)
  have "canonical_generation_provider_material env c = Inr (stable_json (provider_material_json c))"
    using ok \<open>provider_material_ok c\<close>
    by (simp add: canonical_generation_provider_material_def project_generation_provider_material_def)
  moreover have "\<exists>f\<in>set (bs_files (ci_boundedSource i)).
        bf_path f = ud_content (xf_filename x) \<and> bf_patch f = Some (ud_content (xf_patch x))
        \<and> \<not> is_non_semantic_bounded_text_file f" if x: "x \<in> set (pm_files c)" for x
  proof -
    obtain f p where f: "f \<in> set (bs_files (ci_boundedSource i))" "bf_kind f = Bounded_text" "bf_patch f = Some p"
      "xf_filename x = untrusted ''pull_request_filename'' (bf_path f)" "xf_patch x = untrusted ''pull_request_patch'' p"
      using context_files_member [OF x [unfolded build_context_fields(1) [OF assms]]] by blast
    moreover have "bounded_file_refined f"
      using bok f(1) by (simp add: bounded_source_ok_def list_all_iff)
    ultimately show ?thesis
      by (intro bexI [of _ f]) (simp_all add: bounded_file_refined_def untrusted_def Let_def)
  qed
  moreover have "\<exists>x\<in>set (pm_files c). ud_content (xe_filename e) = ud_content (xf_filename x)"
    if "e \<in> set (pm_excerpts c)" for e
    using cont that by (auto simp: context_contents_ok_def list_all_iff context_paths_def)
  ultimately show ?thesis
    using bytes by (fastforce simp: material_bytes_def is_non_semantic_bounded_text_file_def patch_text_def)
qed

section \<open>Canonical texts determine their values\<close>

lemma sort_members_obj:
  assumes "sort_members (JObj ms) = sort_members (JObj ns)"
    and "distinct (map fst ms)" and "distinct (map fst ns)"
  shows "map_of (map (\<lambda>(k, v). (k, sort_members v)) ms) = map_of (map (\<lambda>(k, v). (k, sort_members v)) ns)"
proof -
  let ?f = "map (\<lambda>(k, v). (k, sort_members v))"
  have "set (?f ms) = set (?f ns)"
    using arg_cong [OF assms(1), of "\<lambda>j. case j of JObj xs \<Rightarrow> set xs | _ \<Rightarrow> {}"] by simp
  moreover have "map fst (?f xs) = map fst xs" for xs :: "(string \<times> json) list"
    by (auto simp: comp_def case_prod_beta)
  ultimately show ?thesis
    using assms(2,3) map_of_inject_set by metis
qed

lemma diff_anchor_json_inj:
  assumes "sort_members (diff_anchor_json a) = sort_members (diff_anchor_json b)"
  shows "a = b"
proof -
  have "map_of (map (\<lambda>(k, v). (k, sort_members v)) (case diff_anchor_json a of JObj xs \<Rightarrow> xs | _ \<Rightarrow> []))
      = map_of (map (\<lambda>(k, v). (k, sort_members v)) (case diff_anchor_json b of JObj xs \<Rightarrow> xs | _ \<Rightarrow> []))"
    using assms unfolding diff_anchor_json_def json.case by (rule sort_members_obj) simp_all
  note at = fun_cong [OF this]
  show ?thesis
    using at [of "''id''"] at [of "''file''"] at [of "''hunkHeader''"] at [of "''oldStart''"]
      at [of "''newStart''"] at [of "''changedLines''"] at [of "''evidence''"]
    by (simp add: diff_anchor_json_def)
qed

lemma stable_json_inj: "stable_json j = stable_json k \<longleftrightarrow> sort_members j = sort_members k"
  by (simp add: stable_json_def stringify_inj)

lemma anchors_json_inj:
  "stable_json (JArr (map diff_anchor_json as)) = stable_json (JArr (map diff_anchor_json bs)) \<longleftrightarrow> as = bs"
proof -
  have "map (\<lambda>a. sort_members (diff_anchor_json a)) as = map (\<lambda>a. sort_members (diff_anchor_json a)) bs
      \<longleftrightarrow> as = bs"
    using inj_on_map_eq_map [of "\<lambda>a. sort_members (diff_anchor_json a)" as bs] diff_anchor_json_inj
    by (auto simp: inj_on_def)
  then show ?thesis by (simp add: stable_json_inj comp_def)
qed

section \<open>Verification against an analysis\<close>

lemma same_sorted_ids: "sort_ids xs = sort_ids ys \<Longrightarrow> mset xs = mset ys"
  unfolding sort_ids_def by (metis mset_sort)

lemma card_distinct_iff: "card (set xs) = length xs \<longleftrightarrow> distinct xs"
  by (metis card_distinct distinct_card)

lemma distinct_find:
  "distinct (map f xs) \<Longrightarrow> x \<in> set xs \<Longrightarrow> find (\<lambda>y. f y = f x) xs = Some x"
  by (induction xs) (auto simp: image_iff)

lemma expected_file_of:
  assumes "distinct (map da_id (as_anchors a))" and "x \<in> set (as_anchors a)"
  shows "expected_file a (da_id x) = Some (da_file x)"
proof -
  have "distinct (map da_id (rev (as_anchors a)))"
    using assms(1) by (simp add: rev_map [symmetric])
  then show ?thesis
    using distinct_find [of da_id "rev (as_anchors a)" x] assms(2) by (simp add: expected_file_def)
qed

lemma referenced_ids: "map fst (referenced_anchors c) = concat (map xf_anchorIds (pm_files c))"
  by (simp add: referenced_anchors_def map_concat comp_def)

lemma context_anchorsD:
  assumes "generation_context_ok env c"
  shows "distinct (map xa_id (pm_anchors c))"
    and "mset (concat (map xf_anchorIds (pm_files c))) = mset (map xa_id (pm_anchors c))"
    and "a \<in> set (pm_anchors c) \<Longrightarrow> \<exists>f\<in>set (pm_files c).
      ud_content (xf_filename f) = ud_content (xa_filename a) \<and> xa_id a \<in> set (xf_anchorIds f)"
proof -
  have ok: "context_anchors_ok c"
    using assms by (simp add: generation_context_ok_def)
  then show "distinct (map xa_id (pm_anchors c))"
    by (simp add: context_anchors_ok_def Let_def card_distinct_iff [symmetric])
  show "mset (concat (map xf_anchorIds (pm_files c))) = mset (map xa_id (pm_anchors c))"
  proof -
    have "sort_ids (concat (map xf_anchorIds (pm_files c))) = sort_ids (map xa_id (pm_anchors c))"
      using ok by (simp add: context_anchors_ok_def Let_def)
    then show ?thesis by (rule same_sorted_ids)
  qed
  show "\<exists>f\<in>set (pm_files c). ud_content (xf_filename f) = ud_content (xa_filename a) \<and> xa_id a \<in> set (xf_anchorIds f)"
    if "a \<in> set (pm_anchors c)"
  proof -
    let ?find = "find (\<lambda>f. ud_content (xf_filename f) = ud_content (xa_filename a)) (pm_files c)"
    have "\<not> (case ?find of None \<Rightarrow> True | Some f \<Rightarrow> xa_id a \<notin> set (xf_anchorIds f))"
      using ok that by (simp add: context_anchors_ok_def Let_def list_ex_iff)
    then show ?thesis
      using find_SomeD [of _ "pm_files c"] by (cases ?find) fastforce+
  qed
qed

lemma referenced_files:
  assumes "generation_context_ok env c" and "(i, file) \<in> set (referenced_anchors c)"
  shows "\<exists>a\<in>set (pm_anchors c). xa_id a = i \<and> ud_content (xa_filename a) = file"
proof -
  note D = context_anchorsD [OF assms(1)]
  have dis: "distinct (map fst (referenced_anchors c))"
    using D(1,2) unfolding referenced_ids by (metis mset_eq_imp_distinct_iff)
  have "i \<in> set (map xa_id (pm_anchors c))"
  proof -
    have "i \<in> set (map fst (referenced_anchors c))"
      using assms(2) by force
    then show ?thesis
      unfolding referenced_ids mset_eq_setD [OF D(2)] .
  qed
  then obtain a where a: "a \<in> set (pm_anchors c)" "xa_id a = i"
    by auto
  then obtain f where "f \<in> set (pm_files c)" "ud_content (xf_filename f) = ud_content (xa_filename a)"
    "i \<in> set (xf_anchorIds f)"
    using D(3) by blast
  then have "(i, ud_content (xa_filename a)) \<in> set (referenced_anchors c)"
    by (force simp: referenced_anchors_def)
  then have "ud_content (xa_filename a) = file"
    using eq_key_imp_eq_value [OF dis] assms(2) by blast
  then show ?thesis using a by blast
qed

lemma verify_iff_anchors:
  "verify_generation_context_against_analysis env c a = Inr () \<longleftrightarrow>
     generation_context_ok env c \<and> analysis_snapshot_ok a
     \<and> gc_baseSha c = as_baseSha a \<and> gc_headSha c = as_headSha a
     \<and> map projected_anchor (pm_anchors c) = as_anchors a"
proof -
  have "length (referenced_anchors c) = card (set (map da_id (as_anchors a)))
      \<and> card (set (map fst (referenced_anchors c))) = length (referenced_anchors c)
      \<and> \<not> list_ex (\<lambda>(i, file). expected_file a i \<noteq> Some file) (referenced_anchors c)"
    if ok: "generation_context_ok env c" and eq: "map projected_anchor (pm_anchors c) = as_anchors a"
  proof -
    note D = context_anchorsD [OF ok]
    have ids: "map da_id (as_anchors a) = map xa_id (pm_anchors c)"
      by (simp add: eq [symmetric] comp_def projected_anchor_def)
    have len: "length (referenced_anchors c) = length (pm_anchors c)"
      by (metis D(2) length_map mset_eq_length referenced_ids)
    have dis: "distinct (map fst (referenced_anchors c))"
      using D(1,2) unfolding referenced_ids by (metis mset_eq_imp_distinct_iff)
    have "expected_file a i = Some path" if m: "(i, path) \<in> set (referenced_anchors c)" for i path
    proof -
      obtain x where x: "x \<in> set (pm_anchors c)" "xa_id x = i" "ud_content (xa_filename x) = path"
        using referenced_files [OF ok m] by blast
      then have "projected_anchor x \<in> set (as_anchors a)"
        by (simp add: eq [symmetric])
      then show ?thesis
        using expected_file_of [of a "projected_anchor x"] D(1) x by (simp add: ids projected_anchor_def)
    qed
    then show ?thesis
      using len distinct_card [OF dis] distinct_card [OF D(1)] by (auto simp: ids list_ex_iff)
  qed
  then show ?thesis
    unfolding verify_generation_context_against_analysis_def Let_def anchors_json_inj
    by (auto simp: analysis_snapshot_ok_def simp del: map_map)
qed

text \<open>A context verifies against an analysis exactly when both are valid, they are for the same
  commits, and the anchors that the context shows are, in order, those of the analysis: the checks
  of the code on the number, the uniqueness and the file of each referenced anchor add nothing, for
  the schema of a context already ties its files to its anchors.\<close>

theorem verification_is_anchor_equality:
  "verify_generation_context_against_analysis env c a = Inr () \<longleftrightarrow>
     generation_context_ok env c \<and> analysis_snapshot_ok a
     \<and> gc_baseSha c = as_baseSha a \<and> gc_headSha c = as_headSha a
     \<and> map projected_anchor (pm_anchors c) = as_anchors a"
  by (rule verify_iff_anchors)

lemma anchor_number_id: "anchor_number (anchor_id n) = n"
  using decimal_value_decimal [of n] by (simp add: anchor_number_def anchor_id_def string_of_int_def json_number_def)

lemma projected_anchor_of: "projected_anchor (context_anchor_of a) = a"
  by (simp add: projected_anchor_def context_anchor_of_def untrusted_def)

lemma context_shows_anchors:
  assumes "build_generation_context env i = Inr c"
    and "sorted (map (\<lambda>a. anchor_number (da_id a)) (as_anchors (ci_analysis i)))"
  shows "map projected_anchor (pm_anchors c) = as_anchors (ci_analysis i)"
proof -
  have "map (\<lambda>a. anchor_number (xa_id a)) (map context_anchor_of as) = map (\<lambda>a. anchor_number (da_id a)) as" for as
    by (simp add: context_anchor_of_def)
  then have "pm_anchors c = map context_anchor_of (as_anchors (ci_analysis i))"
    using assms(2) by (simp add: build_context_fields(2) [OF assms(1)] sort_key_id_if_sorted del: map_map)
  then show ?thesis by (simp add: comp_def projected_anchor_of)
qed

text \<open>A context built from an analysis that the analyzer produced verifies against it.\<close>

theorem built_context_verifies:
  assumes "build_generation_context env i = Inr c"
    and "analyze_pull_request_patch p l = Inr (ci_analysis i)"
  shows "verify_generation_context_against_analysis env c (ci_analysis i) = Inr ()"
proof -
  have "map da_id (as_anchors (ci_analysis i)) = map anchor_id [0..<length (as_anchors (ci_analysis i))]"
    using scan_relevant_ok [of p l] unfolding analyze_D(1) [OF assms(2)] snapshot_fields scan_ok_def by blast
  then have "map (\<lambda>a. anchor_number (da_id a)) (as_anchors (ci_analysis i)) = [0..<length (as_anchors (ci_analysis i))]"
    using map_map [of anchor_number da_id "as_anchors (ci_analysis i)"] by (simp add: comp_def anchor_number_id map_idI)
  then have "map projected_anchor (pm_anchors c) = as_anchors (ci_analysis i)"
    using context_shows_anchors [OF assms(1)] by simp
  moreover have "generation_context_ok env c"
    using assms(1) by (elim build_contextE)
  ultimately show ?thesis
    using analyze_D(2) [OF assms(2)] build_context_fields(4,5) [OF assms(1)]
    by (simp add: verify_iff_anchors)
qed

section \<open>Semantic items\<close>

text \<open>With a context that verifies against an analysis, every semantic item of the provider that
  is accepted cites between one and ten different anchors, all of that analysis, and accepting
  again what was accepted keeps it all.\<close>

theorem accepted_items_cite_the_analysis:
  assumes "verify_generation_context_against_analysis env c a = Inr ()"
    and "x \<in> set (filter_anchored_semantic_items env items c)"
  shows "x \<in> set items \<and> distinct (si_anchorIds x) \<and> 1 \<le> length (si_anchorIds x)
    \<and> length (si_anchorIds x) \<le> 10 \<and> set (si_anchorIds x) \<subseteq> da_id ` set (as_anchors a)
    \<and> filter_anchored_semantic_items env (filter_anchored_semantic_items env items c) c
      = filter_anchored_semantic_items env items c"
proof -
  have ok: "generation_context_ok env c" and anchors: "map projected_anchor (pm_anchors c) = as_anchors a"
    using assms(1) by (simp_all add: verify_iff_anchors)
  have x: "x \<in> set items" "semantic_item_ok x" "set (si_anchorIds x) \<subseteq> set (pm_allowedAnchorIds c)"
    using assms(2) ok by (auto simp: filter_anchored_semantic_items_def list_all_iff)
  have "sort_ids (map xa_id (pm_anchors c)) = sort_ids (pm_allowedAnchorIds c)"
    using ok by (simp add: generation_context_ok_def context_anchors_ok_def Let_def)
  then have "set (pm_allowedAnchorIds c) = xa_id ` set (pm_anchors c)"
    using mset_eq_setD [OF same_sorted_ids, of "map xa_id (pm_anchors c)"] by simp
  also have "\<dots> = da_id ` projected_anchor ` set (pm_anchors c)"
    by (simp add: image_image projected_anchor_def)
  also have "\<dots> = da_id ` set (as_anchors a)"
    unfolding anchors [symmetric] by (simp add: image_image)
  finally have "set (si_anchorIds x) \<subseteq> da_id ` set (as_anchors a)"
    using x(3) by simp
  moreover have "distinct (si_anchorIds x)" "1 \<le> length (si_anchorIds x)" "length (si_anchorIds x) \<le> 10"
    using x(2) by (simp_all add: semantic_item_ok_def card_distinct_iff [symmetric])
  moreover have "filter_anchored_semantic_items env (filter_anchored_semantic_items env items c) c
      = filter_anchored_semantic_items env items c"
    by (simp add: filter_anchored_semantic_items_def)
  ultimately show ?thesis
    using x(1) by blast
qed

end
