(* ===== verification/Json_Size.thy ===== *)
theory Json_Size
  imports Generation_Context "HOL-Library.Multiset"
begin

text \<open>
  The number of bytes of a canonical JSON text, computed on the value: it does not depend on the
  order of the members and grows with every prefix of a string in it. The search for the longest
  content that fits is correct because of this.
\<close>

section \<open>Sizes\<close>

definition bytes_of :: "string \<Rightarrow> nat" where
  "bytes_of s = length (utf8_bytes s)"

lemma bytes_of_simps [simp]:
  "bytes_of [] = 0" "bytes_of (s @ t) = bytes_of s + bytes_of t"
  by (simp_all add: bytes_of_def utf8_bytes_def)

lemma bytes_of_Cons: "bytes_of (c # s) = length (utf8_char c) + bytes_of s"
  by (simp add: bytes_of_def utf8_bytes_def)

lemma utf8_size_bytes_of: "utf8_size s = int (bytes_of s)"
  by (simp add: utf8_size_def bytes_of_def)

lemma bytes_of_char: "(of_char c :: nat) < 128 \<Longrightarrow> bytes_of (c # s) = Suc (bytes_of s)"
  by (simp add: bytes_of_Cons utf8_char_def Let_def)

fun json_size :: "json \<Rightarrow> nat" where
  "json_size (JStr s) = bytes_of (json_quote s)"
| "json_size (JNum n) = bytes_of (json_number n)"
| "json_size (JBool b) = (if b then 4 else 5)"
| "json_size JNull = 4"
| "json_size (JArr js) = Suc (max 1 (sum_list (map (\<lambda>j. Suc (json_size j)) js)))"
| "json_size (JObj ms) =
     Suc (max 1 (sum_list (map (\<lambda>(k, j). bytes_of (json_quote k) + json_size j + 2) ms)))"

lemma json_join_size:
  "bytes_of (json_join ts) = sum_list (map (\<lambda>t. Suc (bytes_of t)) ts) - 1"
proof (cases ts)
  case (Cons t us)
  have "bytes_of (concat (map (\<lambda>u. CHR '','' # u) vs)) = sum_list (map (\<lambda>t. Suc (bytes_of t)) vs)" for vs
    by (induction vs) (simp_all add: bytes_of_char)
  then show ?thesis by (simp add: json_join_def Cons)
qed (simp add: json_join_def)

lemma json_size: "bytes_of (stringify j) = json_size j"
proof (induction j rule: stringify.induct)
  case (5 js)
  have "map (\<lambda>t. Suc (bytes_of t)) (map stringify js) = map (\<lambda>j. Suc (json_size j)) js"
    using 5 by simp
  then show ?case
    by (cases js) (simp_all add: bytes_of_char json_join_size del: map_map)
next
  case (6 ms)
  have "map (\<lambda>t. Suc (bytes_of t)) (map (\<lambda>(k, j). json_quote k @ CHR '':'' # stringify j) ms)
      = map (\<lambda>(k, j). bytes_of (json_quote k) + json_size j + 2) ms"
    using 6 by (auto simp: bytes_of_char)
  then show ?case
    by (cases ms) (simp_all add: bytes_of_char json_join_size del: map_map)
qed (simp_all add: bytes_of_char)

lemma sum_list_sort_key: "sum_list (map f (sort_key k xs)) = (sum_list (map f xs) :: nat)"
  by (metis mset_map mset_sort sum_mset_sum_list)

lemma json_size_sort: "json_size (sort_members j) = json_size j"
proof (induction j rule: sort_members.induct)
  case (1 js)
  then have "map (\<lambda>j. Suc (json_size (sort_members j))) js = map (\<lambda>j. Suc (json_size j)) js"
    by simp
  then show ?case
    by (simp only: sort_members.simps json_size.simps map_map comp_def)
next
  case (2 ms)
  then have "map (\<lambda>m. (\<lambda>(k, j). bytes_of (json_quote k) + json_size j + 2) ((\<lambda>(k, v). (k, sort_members v)) m)) ms
      = map (\<lambda>(k, j). bytes_of (json_quote k) + json_size j + 2) ms"
    by auto
  then show ?case
    by (simp only: sort_members.simps json_size.simps sum_list_sort_key map_map comp_def)
qed simp_all

lemma stable_json_size: "utf8_size (stable_json j) = int (json_size j)"
  by (simp add: stable_json_def utf8_size_bytes_of json_size json_size_sort)

lemma material_bytes_size: "material_bytes m = int (json_size (provider_material_json m))"
  by (simp add: material_bytes_def stable_json_size)

section \<open>Prefixes\<close>

lemma quote_take: "bytes_of (json_quote (take n s)) \<le> bytes_of (json_quote s)"
proof -
  have "bytes_of (concat (map json_escape s))
      = bytes_of (concat (map json_escape (take n s))) + bytes_of (concat (map json_escape (drop n s)))"
    by (metis append_take_drop_id bytes_of_simps(2) concat_append map_append)
  then show ?thesis by (simp add: json_quote_def bytes_of_char)
qed

lemma quote_prefix: "k \<le> n \<Longrightarrow> bytes_of (json_quote (take k s)) \<le> bytes_of (json_quote (take n s))"
  using quote_take [of k "take n s"] by (simp add: min_def)

lemma body_bytes_mono:
  assumes "k \<le> n"
  shows "material_bytes (with_body m (take k s)) \<le> material_bytes (with_body m (take n s))"
  using quote_prefix [OF assms, of s]
  by (cases "pm_body m") (simp_all add: material_bytes_size with_body_def provider_material_json_def
      fields_members_def untrusted_json_def)

lemma title_bytes_mono:
  assumes "k \<le> n"
  shows "material_bytes (with_title m (take k s)) \<le> material_bytes (with_title m (take n s))"
  using quote_prefix [OF assms, of s]
  by (simp add: material_bytes_size with_title_def provider_material_json_def
      fields_members_def untrusted_json_def)

section \<open>The search\<close>

text \<open>Bisection over a test that, once failed, stays failed.\<close>

locale bisection =
  fixes fits :: "nat \<Rightarrow> bool"
  assumes fits_down: "k \<le> n \<Longrightarrow> fits n \<Longrightarrow> fits k"
begin

lemma bisect_rule:
  assumes stop: "\<And>low high. \<not> low < high \<Longrightarrow> P low high low"
    and up: "\<And>low mid high r. low < mid \<Longrightarrow> mid \<le> high \<Longrightarrow> fits mid \<Longrightarrow> P mid high r \<Longrightarrow> P low high r"
    and down: "\<And>low mid high r. low < mid \<Longrightarrow> mid \<le> high \<Longrightarrow> \<not> fits mid \<Longrightarrow> P low (mid - 1) r \<Longrightarrow> P low high r"
  shows "P low high (bisect fits low high)"
proof (induction "high - low" arbitrary: low high rule: less_induct)
  case less
  define mid where "mid = (low + high + 1) div 2"
  show ?case
  proof (cases "low < high")
    case True
    then have mid: "low < mid" "mid \<le> high" by (simp_all add: mid_def)
    have "bisect fits low high = (if fits mid then bisect fits mid high else bisect fits low (mid - 1))"
      using True by (subst bisect.simps) (simp add: Let_def mid_def)
    moreover have "high - mid < high - low" "mid - 1 - low < high - low"
      using mid by simp_all
    ultimately show ?thesis
      using up [OF mid] down [OF mid] less.hyps by presburger
  next
    case False
    then show ?thesis using stop [OF False] by (subst bisect.simps) simp
  qed
qed

lemma bisect_range: "low \<le> high \<Longrightarrow> low \<le> bisect fits low high \<and> bisect fits low high \<le> high"
  by (rule bisect_rule [where P = "\<lambda>low high r. low \<le> high \<longrightarrow> low \<le> r \<and> r \<le> high", THEN mp]) auto

lemma bisect_fits: "fits (bisect fits low high) \<or> bisect fits low high = low"
  by (rule bisect_rule [where P = "\<lambda>low high r. fits r \<or> r = low"]) auto

lemma bisect_longest: "bisect fits low high < n \<Longrightarrow> n \<le> high \<Longrightarrow> \<not> fits n"
proof (rule bisect_rule [where P = "\<lambda>low high r. r < n \<longrightarrow> n \<le> high \<longrightarrow> \<not> fits n", THEN mp, THEN mp])
  show "r < n \<longrightarrow> n \<le> high \<longrightarrow> \<not> fits n"
    if "low < mid" "\<not> fits mid" "r < n \<longrightarrow> n \<le> mid - 1 \<longrightarrow> \<not> fits n" for low mid high r
    using that fits_down [of mid n] by (cases "n < mid") auto
qed auto

end

text \<open>The two contents the code shrinks.\<close>

interpretation body_search: bisection "\<lambda>n. material_bytes (with_body m (take n s)) \<le> k" for m s k
  using body_bytes_mono by unfold_locales (meson order_trans)

interpretation title_search: bisection "\<lambda>n. material_bytes (with_title m (take n s)) \<le> k" for m s k
  using title_bytes_mono by unfold_locales (meson order_trans)

end
