(* ===== verification/Context_Fit.thy ===== *)
theory Context_Fit
  imports Json_Size "HOL-Library.Sublist"
begin

text \<open>
  Properties of \<open>fitGenerationProviderMaterial\<close>: what is given up to fit into the byte limit, in
  which order, and that no more of a text is cut than needed.
\<close>

section \<open>Stages\<close>

lemma drop_last_while_prefix: "prefix (drop_last_while over xs) xs"
proof (induction over xs rule: drop_last_while.induct)
  case (1 over xs)
  show ?case
  proof (cases "over xs \<and> xs \<noteq> []")
    case True
    then have "prefix (drop_last_while over (butlast xs)) (butlast xs)"
      using 1 by simp
    then show ?thesis
      using True prefix_order.trans [OF _ prefixeq_butlast] by (subst drop_last_while.simps) auto
  next
    case False
    then show ?thesis by (subst drop_last_while.simps) auto
  qed
qed

lemma drop_last_while_stops: "\<not> over (drop_last_while over xs) \<or> drop_last_while over xs = []"
proof (induction over xs rule: drop_last_while.induct)
  case (1 over xs)
  then show ?case by (subst (1 2) drop_last_while.simps) auto
qed

lemma drop_last_while_keeps: "\<not> over xs \<Longrightarrow> drop_last_while over xs = xs"
  by (subst drop_last_while.simps) simp

definition stage_prefix :: "provider_fields \<Rightarrow> provider_fields \<Rightarrow> bool" where
  "stage_prefix n m \<longleftrightarrow> prefix (pm_exclusions n) (pm_exclusions m) \<and> prefix (pm_excerpts n) (pm_excerpts m)
     \<and> prefix (body_content n) (body_content m) \<and> (pm_body n = None \<longleftrightarrow> pm_body m = None)
     \<and> prefix (ud_content (pm_title n)) (ud_content (pm_title m))"

text \<open>What is given up: the excerpts after the exclusions, then the body, then the title.\<close>

definition gives_up_in_order :: "provider_fields \<Rightarrow> provider_fields \<Rightarrow> bool" where
  "gives_up_in_order n m \<longleftrightarrow>
     (pm_excerpts n \<noteq> pm_excerpts m \<longrightarrow> pm_exclusions n = [])
     \<and> (pm_body n \<noteq> pm_body m \<longrightarrow> pm_exclusions n = [] \<and> pm_excerpts n = [])
     \<and> (pm_title n \<noteq> pm_title m \<longrightarrow> pm_exclusions n = [] \<and> pm_excerpts n = [] \<and> body_content n = [])"

lemma fit_content_prefix: "prefix (fit_content s k f) s"
  by (simp add: fit_content_def take_is_prefix)

lemma shrink_stages:
  "pm_excerpts (shrink_exclusions k m) = pm_excerpts m" "pm_body (shrink_exclusions k m) = pm_body m"
  "pm_title (shrink_exclusions k m) = pm_title m"
  "pm_exclusions (shrink_excerpts k m) = pm_exclusions m" "pm_body (shrink_excerpts k m) = pm_body m"
  "pm_title (shrink_excerpts k m) = pm_title m"
  "pm_exclusions (shrink_body k m) = pm_exclusions m" "pm_excerpts (shrink_body k m) = pm_excerpts m"
  "pm_title (shrink_body k m) = pm_title m"
  "pm_exclusions (shrink_title k m) = pm_exclusions m" "pm_excerpts (shrink_title k m) = pm_excerpts m"
  "pm_body (shrink_title k m) = pm_body m"
  by (simp_all add: shrink_exclusions_def shrink_excerpts_def shrink_body_def shrink_title_def
      with_body_def with_title_def)

lemma exclusions_stage:
  "prefix (pm_exclusions (shrink_exclusions k m)) (pm_exclusions m)
   \<and> (material_bytes (shrink_exclusions k m) > k \<longrightarrow> pm_exclusions (shrink_exclusions k m) = [])
   \<and> (material_bytes m \<le> k \<longrightarrow> shrink_exclusions k m = m)"
  using drop_last_while_prefix drop_last_while_stops [of "\<lambda>xs. material_bytes (m\<lparr>pm_exclusions := xs\<rparr>) > k"]
  by (auto simp: shrink_exclusions_def drop_last_while_keeps)

lemma excerpts_stage:
  "prefix (pm_excerpts (shrink_excerpts k m)) (pm_excerpts m)
   \<and> (material_bytes (shrink_excerpts k m) > k \<longrightarrow> pm_excerpts (shrink_excerpts k m) = [])
   \<and> (material_bytes m \<le> k \<longrightarrow> shrink_excerpts k m = m)"
  using drop_last_while_prefix drop_last_while_stops [of "\<lambda>xs. material_bytes (m\<lparr>pm_excerpts := xs\<rparr>) > k"]
  by (auto simp: shrink_excerpts_def drop_last_while_keeps)

lemma body_of_with_body: "pm_body m \<noteq> None \<Longrightarrow> body_content (with_body m s) = s"
  by (auto simp: body_content_def with_body_def)

lemma body_presence: "pm_body (with_body m s) = None \<longleftrightarrow> pm_body m = None"
  by (simp add: with_body_def)

lemma body_stage:
  "prefix (body_content (shrink_body k m)) (body_content m)
   \<and> (pm_body (shrink_body k m) = None \<longleftrightarrow> pm_body m = None)
   \<and> (material_bytes (shrink_body k m) > k \<longrightarrow> body_content (shrink_body k m) = [])
   \<and> (material_bytes m \<le> k \<longrightarrow> shrink_body k m = m)"
proof (cases "material_bytes m > k \<and> pm_body m \<noteq> None")
  case True
  let ?s = "body_content m"
  let ?n = "bisect (\<lambda>n. material_bytes (with_body m (take n ?s)) \<le> k) 0 (length ?s)"
  have m: "shrink_body k m = with_body m (take ?n ?s)"
    using True by (simp add: shrink_body_def fit_content_def)
  have "material_bytes (with_body m (take ?n ?s)) \<le> k \<or> ?n = 0"
    by (rule body_search.bisect_fits)
  then show ?thesis
    using True unfolding m by (auto simp: body_of_with_body take_is_prefix body_presence)
next
  case False
  then show ?thesis
    by (auto simp: shrink_body_def body_content_def)
qed

lemma title_stage:
  "prefix (ud_content (pm_title (shrink_title k m))) (ud_content (pm_title m))
   \<and> (material_bytes m \<le> k \<longrightarrow> shrink_title k m = m)"
  by (simp add: shrink_title_def with_title_def fit_content_prefix)

lemma shrink_kept: "stage_prefix (shrink_fields k m) m \<and> gives_up_in_order (shrink_fields k m) m"
proof -
  define a where "a = shrink_exclusions k m"
  define b where "b = shrink_excerpts k a"
  define c where "c = shrink_body k b"
  have n: "shrink_fields k m = shrink_title k c"
    by (simp add: shrink_fields_def a_def b_def c_def)
  have A: "prefix (pm_exclusions a) (pm_exclusions m)" "material_bytes a > k \<Longrightarrow> pm_exclusions a = []"
    using exclusions_stage [of k m] by (auto simp: a_def)
  have B: "prefix (pm_excerpts b) (pm_excerpts m)" "material_bytes b > k \<Longrightarrow> pm_excerpts b = []"
    "material_bytes a \<le> k \<Longrightarrow> b = a"
    using excerpts_stage [of k a] by (auto simp: b_def a_def shrink_stages)
  have C: "prefix (body_content c) (body_content b)" "pm_body c = None \<longleftrightarrow> pm_body b = None"
    "material_bytes c > k \<Longrightarrow> body_content c = []" "material_bytes b \<le> k \<Longrightarrow> c = b"
    using body_stage [of k b] by (auto simp: c_def)
  have same: "pm_body b = pm_body m" "pm_title c = pm_title m" "pm_exclusions c = pm_exclusions a"
    "pm_excerpts c = pm_excerpts b" "pm_excerpts a = pm_excerpts m" "pm_exclusions b = pm_exclusions a"
    by (simp_all add: a_def b_def c_def shrink_stages)
  have over: "material_bytes c > k \<Longrightarrow> material_bytes b > k" "material_bytes b > k \<Longrightarrow> material_bytes a > k"
    using B(3) C(4) by fastforce+
  have T: "prefix (ud_content (pm_title (shrink_title k c))) (ud_content (pm_title c))"
    "material_bytes c \<le> k \<Longrightarrow> shrink_title k c = c"
    using title_stage [of k c] by auto
  have bb: "body_content b = body_content m"
    by (simp add: body_content_def same)
  have "stage_prefix (shrink_title k c) m"
    using A(1) B(1) C(1,2) T(1) by (simp add: stage_prefix_def shrink_stages same bb body_content_def)
  moreover have "gives_up_in_order (shrink_title k c) m"
    using A(2) B(2,3) C(3,4) T(2) over same
    by (fastforce simp: gives_up_in_order_def shrink_stages body_content_def not_le)
  ultimately show ?thesis by (simp add: n)
qed

lemma shrink_keeps: "material_bytes m \<le> k \<Longrightarrow> shrink_fields k m = m"
  by (simp add: shrink_fields_def exclusions_stage excerpts_stage body_stage title_stage)

lemma kept_trans:
  assumes "stage_prefix n m'" and "gives_up_in_order n m'" and "stage_prefix m' m" and "gives_up_in_order m' m"
  shows "stage_prefix n m \<and> gives_up_in_order n m"
proof -
  have "stage_prefix n m"
    using assms(1,3) by (auto simp: stage_prefix_def intro: prefix_order.trans)
  moreover have "pm_exclusions m' = [] \<Longrightarrow> pm_exclusions n = []" "pm_excerpts m' = [] \<Longrightarrow> pm_excerpts n = []"
    "body_content m' = [] \<Longrightarrow> body_content n = []"
    using assms(1) by (auto simp: stage_prefix_def)
  ultimately show ?thesis
    using assms(2,4) by (auto simp: gives_up_in_order_def)
qed

lemma fit_cases:
  assumes "fit_generation_provider_material m k = Inr n"
  shows "material_bytes n \<le> k"
    and "(material_bytes m \<le> k \<and> n = m)
      \<or> (k < material_bytes m \<and> n = shrink_fields k m \<and> ''total_bytes'' \<in> set (pm_limitsHit n))
      \<or> (k < material_bytes m \<and> n = shrink_fields k (shrink_fields k m
          \<lparr>pm_limitsHit := sort (pm_limitsHit (shrink_fields k m) @ [''total_bytes''])\<rparr>))"
  using assms shrink_keeps [of m k] le_less_linear [of "material_bytes m" k]
  by (auto simp: fit_generation_provider_material_def Let_def split: if_splits)

lemma shrink_limitsHit: "pm_limitsHit (shrink_fields k m) = pm_limitsHit m"
  by (simp add: shrink_fields_def shrink_title_def shrink_body_def with_title_def
      with_body_def shrink_excerpts_def shrink_exclusions_def)

text \<open>What fits into the byte limit is sent unchanged; otherwise the result fits, is marked with
  the limit that was hit, keeps a leading part of the exclusions, the excerpts, the body and the
  title, and gives them up in that order: an excerpt goes only when no exclusion is left, a
  character of the body only when no excerpt is left, and one of the title only when the body is
  empty.\<close>

theorem fitting_gives_up_in_order:
  assumes "fit_generation_provider_material m k = Inr n"
  shows "material_bytes n \<le> k
    \<and> (material_bytes m \<le> k \<longrightarrow> n = m)
    \<and> (k < material_bytes m \<longrightarrow> ''total_bytes'' \<in> set (pm_limitsHit n))
    \<and> prefix (pm_exclusions n) (pm_exclusions m) \<and> prefix (pm_excerpts n) (pm_excerpts m)
    \<and> prefix (body_content n) (body_content m)
    \<and> prefix (ud_content (pm_title n)) (ud_content (pm_title m))
    \<and> (pm_excerpts n \<noteq> pm_excerpts m \<longrightarrow> pm_exclusions n = [])
    \<and> (pm_body n \<noteq> pm_body m \<longrightarrow> pm_exclusions n = [] \<and> pm_excerpts n = [])
    \<and> (pm_title n \<noteq> pm_title m \<longrightarrow> pm_exclusions n = [] \<and> pm_excerpts n = [] \<and> body_content n = [])"
proof -
  let ?m' = "shrink_fields k m\<lparr>pm_limitsHit := sort (pm_limitsHit (shrink_fields k m) @ [''total_bytes''])\<rparr>"
  have again: "stage_prefix ?m' m \<and> gives_up_in_order ?m' m"
    using shrink_kept [of k m] by (simp add: stage_prefix_def gives_up_in_order_def body_content_def)
  have kept: "stage_prefix n m \<and> gives_up_in_order n m"
    using fit_cases(2) [OF assms]
  proof (elim disjE conjE)
    assume "n = shrink_fields k ?m'"
    then show ?thesis
      using kept_trans [of n ?m' m] again shrink_kept [of k ?m'] by simp
  qed (use shrink_kept [of k m] in \<open>simp_all add: stage_prefix_def gives_up_in_order_def\<close>)
  moreover have "k < material_bytes m \<longrightarrow> ''total_bytes'' \<in> set (pm_limitsHit n)"
    using fit_cases(2) [OF assms] by (auto simp: shrink_limitsHit)
  moreover have "material_bytes m \<le> k \<longrightarrow> n = m"
    using fit_cases(2) [OF assms] by auto
  ultimately show ?thesis
    using fit_cases(1) [OF assms] by (simp add: stage_prefix_def gives_up_in_order_def)
qed

text \<open>A text is never cut shorter than needed: every longer leading part of the body, or of the
  title, would exceed the byte limit.\<close>

theorem cut_text_is_longest:
  assumes "n \<le> length s"
  shows "(length (fit_content s k (with_body m)) < n \<longrightarrow> k < material_bytes (with_body m (take n s)))
    \<and> (length (fit_content s k (with_title m)) < n \<longrightarrow> k < material_bytes (with_title m (take n s)))"
proof -
  have len: "length (take j s) < n \<longleftrightarrow> j < n" if "j \<le> length s" for j
    using that by simp
  have "bisect (\<lambda>n. material_bytes (with_body m (take n s)) \<le> k) 0 (length s) \<le> length s"
    "bisect (\<lambda>n. material_bytes (with_title m (take n s)) \<le> k) 0 (length s) \<le> length s"
    using body_search.bisect_range [of 0 "length s" m s k] title_search.bisect_range [of 0 "length s" m s k]
    by simp_all
  note b = this
  show ?thesis
    unfolding fit_content_def len [OF b(1)] len [OF b(2)]
    using body_search.bisect_longest [OF _ assms, of m s k] title_search.bisect_longest [OF _ assms, of m s k]
    by (simp add: not_le)
qed

end
