(* ===== verification/Bounded_Life.thy ===== *)
theory Bounded_Life
  imports Generation_Context
begin

text \<open>
  Properties of the bounded source: the patches in it are made of the leading hunks of semantic
  files of the revision, and the loop that fits it to the provider stops at the first source, from
  the selection on, that can be sent.
\<close>

section \<open>Leading hunks\<close>

text \<open>What a text file of a bounded source is made of.\<close>

definition leading :: "revision_source \<Rightarrow> bounded_file \<Rightarrow> bool" where
  "leading s f \<longleftrightarrow> (bf_kind f = Bounded_text \<longrightarrow>
     (\<exists>g\<in>set (gs_files s). \<exists>p k. cf_filename g = bf_path f \<and> non_semantic_file_reason g = None
       \<and> cf_patch g = Some p \<and> 1 \<le> k \<and> k \<le> length (parse_patch_hunks p)
       \<and> bf_patch f = Some (join_hunks (take k (parse_patch_hunks p))) \<and> bf_includedHunks f = int k))"

lemma select_hunks_leading:
  "select_hunks l path st n selected hs = (result, st') \<Longrightarrow>
     (\<exists>k\<le>length hs. result = selected @ take k hs) \<and> bd_files st' = bd_files st"
proof (induction l path st n selected hs rule: select_hunks.induct)
  case (2 l path st n selected h hs)
  show ?case
  proof (cases "bd_includedHunks st \<ge> gl_maximumHunks l
      \<or> n + (if selected = [] then 0 else 1) + ph_byteLength h > gl_maximumFileBytes l
      \<or> (if selected = [] then 0 else 1) + ph_byteLength h > bd_remainingBytes st")
    case True
    then show ?thesis
      using 2(2) by (intro conjI exI [of _ 0])
        (auto simp: Let_def refuse_def mark_limit_def exclude_def split: if_splits)
  next
    case False
    then obtain k where "k \<le> length hs" "result = (selected @ [h]) @ take k hs" "bd_files st' = bd_files st"
      using 2 by (auto simp: Let_def split: if_splits)
    then show ?thesis
      by (intro conjI exI [of _ "Suc k"]) auto
  qed
qed auto

lemma bound_file_leading:
  assumes "f \<in> set (gs_files s)" and "\<forall>x\<in>set (bd_files st). leading s x"
  shows "\<forall>x\<in>set (bd_files (bound_file l st f)). leading s x"
proof -
  have binary: "leading s (metadata_only_file f)"
    by (simp add: leading_def metadata_only_file_def)
  consider reason where "non_semantic_file_reason f = Some reason"
    | "non_semantic_file_reason f = None" "cf_patch f = None"
    | p where "non_semantic_file_reason f = None" "cf_patch f = Some p" "parse_patch_hunks p = []"
    | p where "non_semantic_file_reason f = None" "cf_patch f = Some p" "parse_patch_hunks p \<noteq> []"
    by (cases "non_semantic_file_reason f"; cases "cf_patch f") auto
  then show ?thesis
  proof cases
    case (4 p)
    obtain selected st' where sel: "select_hunks l (cf_filename f) st 0 [] (parse_patch_hunks p) = (selected, st')"
      by (meson surj_pair)
    obtain k where k: "k \<le> length (parse_patch_hunks p)" "selected = take k (parse_patch_hunks p)"
      and files: "bd_files st' = bd_files st"
      using select_hunks_leading [OF sel] by auto
    have "leading s (text_file (metadata_only_file f) selected)" if "selected \<noteq> []"
    proof -
      have "1 \<le> k" using that k by (cases k) auto
      then show ?thesis
        unfolding leading_def using assms(1) 4 k
        by (intro impI bexI [of _ f] exI [of _ p] exI [of _ k])
          (simp_all add: text_file_def metadata_only_file_def)
    qed
    then show ?thesis
      using 4 sel files assms(2) binary by (auto simp: bound_file_def Let_def push_file_def)
  qed (use assms(2) binary in \<open>auto simp: bound_file_def Let_def push_file_def exclude_def mark_limit_def\<close>)
qed

lemma fold_bound_file_leading:
  "set fs \<subseteq> set (gs_files s) \<Longrightarrow> \<forall>x\<in>set (bd_files st). leading s x \<Longrightarrow>
     \<forall>x\<in>set (bd_files (foldl (bound_file l) st fs)). leading s x"
proof (induction fs arbitrary: st)
  case (Cons f fs)
  have "\<forall>x\<in>set (bd_files (bound_file l st f)). leading s x"
    using Cons.prems by (intro bound_file_leading) auto
  then show ?case
    using Cons.IH [of "bound_file l st f"] Cons.prems(1) unfolding foldl.simps by auto
qed simp

lemma refuse_files_keeps: "bd_files (refuse_files fs st) = bd_files st"
  unfolding refuse_files_def
  by (induction fs arbitrary: st) (simp_all add: refuse_def mark_limit_def exclude_def)

lemma bounded_of_leading: "\<forall>f\<in>set (bs_files (bounded_of s l h)). leading s f"
proof -
  have "set (take n (order_source_files (gs_files s))) \<subseteq> set (gs_files s)" for n
    by (auto simp: order_source_files_def dest: in_set_takeD)
  then show ?thesis
    unfolding bounded_of_def Let_def bounded_source.simps
    by (rule fold_bound_file_leading) (simp add: refuse_files_keeps)
qed

lemma reduced_file_leading:
  assumes "leading s f" and "bf_kind f = Bounded_text"
  shows "leading s (reduced_file f (butlast (parse_patch_hunks (patch_text (bf_patch f)))))"
proof -
  obtain g p k where g: "g \<in> set (gs_files s)" "cf_filename g = bf_path f"
      "non_semantic_file_reason g = None" "cf_patch g = Some p"
    and k: "1 \<le> k" "k \<le> length (parse_patch_hunks p)"
      "bf_patch f = Some (join_hunks (take k (parse_patch_hunks p)))"
    using assms by (auto simp: leading_def)
  have "take k (parse_patch_hunks p) \<noteq> []"
    using k by (cases "parse_patch_hunks p") auto
  then have "parse_patch_hunks (patch_text (bf_patch f)) = take k (parse_patch_hunks p)"
    using parse_join_hunks [of "take k (parse_patch_hunks p)" p] set_take_subset [of k "parse_patch_hunks p"] k(3)
    by (simp add: patch_text_def)
  then have b: "butlast (parse_patch_hunks (patch_text (bf_patch f))) = take (k - 1) (parse_patch_hunks p)"
    using k(2) by (simp add: butlast_take)
  show ?thesis
  proof (cases "take (k - 1) (parse_patch_hunks p) = []")
    case True
    then show ?thesis by (simp add: b leading_def reduced_file_def)
  next
    case False
    then have "1 \<le> k - 1" by (cases "k - 1") auto
    then show ?thesis
      unfolding leading_def b using g k False
      by (intro impI bexI [of _ g] exI [of _ p] exI [of _ "k - 1"]) (simp_all add: reduced_file_def)
  qed
qed

lemma remove_last_leading:
  assumes "remove_last_bounded_hunk b = Inr (Some b')" and "\<forall>f\<in>set (bs_files b). leading s f"
  shows "\<forall>f\<in>set (bs_files b'). leading s f"
proof -
  obtain i where i: "last_text_index (bs_files b) = Some i"
    and b': "b' = reduced_source b i (butlast (parse_patch_hunks (patch_text (bf_patch (bs_files b ! i)))))"
    using assms(1) by (auto simp: remove_last_bounded_hunk_def Let_def split: option.splits if_splits)
  have "leading s (reduced_file (bs_files b ! i) (butlast (parse_patch_hunks (patch_text (bf_patch (bs_files b ! i))))))"
    using assms(2) last_text_index_Some [OF i] by (intro reduced_file_leading) auto
  then show ?thesis
    using assms(2) set_update_subset_insert by (fastforce simp: b' reduced_source_def Let_def)
qed

section \<open>The loop\<close>

text \<open>One round of the loop, and what ends it.\<close>

inductive gives_up :: "bounded_source \<Rightarrow> bounded_source \<Rightarrow> bool" where
  "remove_last_bounded_hunk b = Inr (Some b') \<Longrightarrow> gives_up b b'"

inductive_simps gives_up_iff: "gives_up b b'"

definition provider_accepts :: "context_env \<Rightarrow> bounded_source \<Rightarrow> bool" where
  "provider_accepts env b \<longleftrightarrow>
     (case analyze_bounded b of Inl _ \<Rightarrow> False
      | Inr a \<Rightarrow> (case build_generation_context env (probe_input b a) of Inl _ \<Rightarrow> False | Inr _ \<Rightarrow> True))"

lemma gives_up_deterministic: "gives_up b c \<Longrightarrow> gives_up b d \<Longrightarrow> c = d"
  by (auto simp: gives_up_iff)

lemma fit_stops_first:
  "fit_bounded_source_to_provider_envelope env b = Inr r \<Longrightarrow>
     gives_up\<^sup>*\<^sup>* b r \<and> provider_accepts env r
     \<and> (\<forall>x. gives_up\<^sup>*\<^sup>* b x \<and> gives_up\<^sup>+\<^sup>+ x r \<longrightarrow> \<not> provider_accepts env x)"
proof (induction env b rule: fit_bounded_source_to_provider_envelope.induct)
  case (1 env b)
  obtain a where a: "analyze_bounded b = Inr a"
    using 1(2) by (subst (asm) fit_bounded_source_to_provider_envelope.simps) (auto simp: result_simps)
  have less: "gives_up\<^sup>+\<^sup>+ x y \<Longrightarrow> source_hunks y < source_hunks x" for x y
    by (induction rule: tranclp_induct) (auto simp: gives_up_iff dest!: remove_last_bounded_hunk_less)
  show ?case
  proof (cases "build_generation_context env (probe_input b a)")
    case (Inr c)
    then have "r = b"
      using 1(2) a by (subst (asm) fit_bounded_source_to_provider_envelope.simps) auto
    moreover have "\<not> gives_up\<^sup>+\<^sup>+ x b" if "gives_up\<^sup>*\<^sup>* b x" for x
      using less [of b b] that by (auto dest: rtranclp_tranclp_tranclp)
    ultimately show ?thesis
      using a Inr by (auto simp: provider_accepts_def)
  next
    case (Inl e)
    then obtain b' where b': "e = Context_invalid" "remove_last_bounded_hunk b = Inr (Some b')"
      and r: "fit_bounded_source_to_provider_envelope env b' = Inr r"
      using 1(2) a by (subst (asm) fit_bounded_source_to_provider_envelope.simps)
        (auto split: context_error.splits sum.splits option.splits)
    have step: "gives_up b b'" using b'(2) by (simp add: gives_up_iff)
    have IH: "gives_up\<^sup>*\<^sup>* b' r" "provider_accepts env r"
      "\<And>x. gives_up\<^sup>*\<^sup>* b' x \<Longrightarrow> gives_up\<^sup>+\<^sup>+ x r \<Longrightarrow> \<not> provider_accepts env x"
      using 1(1) [OF Inl b'(1) b'(2) refl r] by auto
    have no: "\<not> provider_accepts env b"
      using a Inl by (simp add: provider_accepts_def)
    have "\<not> provider_accepts env x" if "gives_up\<^sup>*\<^sup>* b x" "gives_up\<^sup>+\<^sup>+ x r" for x
      using that(1)
    proof (cases rule: converse_rtranclpE)
      case base
      then show ?thesis using no by simp
    next
      case (step y)
      then show ?thesis
        using IH(3) that(2) gives_up_deterministic [OF \<open>gives_up b b'\<close>] by blast
    qed
    then show ?thesis
      using IH(1,2) step by (auto intro: converse_rtranclp_into_rtranclp)
  qed
qed

lemma gives_up_leading:
  "gives_up\<^sup>*\<^sup>* b b' \<Longrightarrow> \<forall>f\<in>set (bs_files b). leading s f \<Longrightarrow> \<forall>f\<in>set (bs_files b'). leading s f"
  by (induction rule: rtranclp_induct) (auto simp: gives_up_iff dest: remove_last_leading)

lemma initial_bounded_source_of:
  assumes "initial_bounded_source sha s l = Inr b"
  shows "\<exists>h. b = bounded_of s l h"
  using assms by (auto simp: initial_bounded_source_def result_simps Let_def split: if_splits)

text \<open>The bounded source that is built can be sent to the provider, it is reached from the first
  selection by giving up one last hunk after the other, and no source on the way could be sent: no
  hunk is given up without need.\<close>

theorem bounded_source_gives_up_no_more_than_needed:
  assumes "build_bounded_revision_source env s l = Inr r"
  shows "\<exists>b. initial_bounded_source (ce_sha env) s l = Inr b \<and> gives_up\<^sup>*\<^sup>* b r \<and> provider_accepts env r
    \<and> (\<forall>x. gives_up\<^sup>*\<^sup>* b x \<and> gives_up\<^sup>+\<^sup>+ x r \<longrightarrow> \<not> provider_accepts env x)"
  using assms fit_stops_first unfolding build_bounded_revision_source_def bind_result_Inr_iff by blast

text \<open>Every patch in a bounded source consists of the first hunks of the patch of a semantic
  file of the revision with that path: none is cut inside a hunk, reordered, or taken from a file
  that is generated, a lock file, an archive, a link or a submodule.\<close>

theorem bounded_patches_are_leading_hunks:
  assumes "build_bounded_revision_source env s l = Inr r" and "f \<in> set (bs_files r)"
    and "bf_patch f = Some q"
  shows "\<exists>g\<in>set (gs_files s). \<exists>p k. cf_filename g = bf_path f \<and> non_semantic_file_reason g = None
    \<and> cf_patch g = Some p \<and> 1 \<le> k \<and> k \<le> length (parse_patch_hunks p)
    \<and> q = join_hunks (take k (parse_patch_hunks p)) \<and> bf_includedHunks f = int k"
proof -
  obtain b where b: "initial_bounded_source (ce_sha env) s l = Inr b" "gives_up\<^sup>*\<^sup>* b r"
    and ok: "provider_accepts env r"
    using assms(1) fit_stops_first unfolding build_bounded_revision_source_def bind_result_Inr_iff by blast
  then have "leading s f"
    using initial_bounded_source_of [OF b(1)] bounded_of_leading gives_up_leading [OF b(2)] assms(2) by blast
  moreover have "bounded_source_ok r"
    using ok by (auto simp: provider_accepts_def analyze_bounded_def bounded_revision_source_patch_def
        split: if_splits)
  then have "bf_kind f = Bounded_text"
    using assms(2,3) by (cases "bf_kind f") (auto simp: bounded_source_ok_def list_all_iff bounded_file_shape_ok_def)
  ultimately show ?thesis
    using assms(3) by (auto simp: leading_def)
qed

end
