(* ===== verification/Context_Demo.thy ===== *)
theory Context_Demo
  imports Context_Life Context_Fit Bounded_Life Planner_Total
begin

text \<open>
  A revision of one file taken through the whole pipeline of the generation context: source,
  bounded source, analysis, context. It shows that the hypotheses of the properties of those steps
  can hold. The sizes of texts are bounded, not computed.
\<close>

section \<open>Bounds on sizes\<close>

lemma bytes_of_le: "bytes_of s \<le> 2 * length s"
  by (induction s) (simp_all add: bytes_of_Cons utf8_char_def Let_def)

lemma quote_le: "bytes_of (json_quote s) \<le> 12 * length s + 2"
proof -
  have "length (json_escape c) \<le> 6" for c
    by (simp add: json_escape_def Let_def)
  then have "length (concat (map json_escape s)) \<le> 6 * length s"
    by (induction s) (simp_all add: add_le_mono)
  then show ?thesis
    using bytes_of_le [of "concat (map json_escape s)"] by (simp add: json_quote_def bytes_of_char)
qed

fun text_bound :: "string \<Rightarrow> int" where
  "text_bound [] = 2"
| "text_bound (c # s) = 12 + text_bound s"

lemma text_bound: "int (bytes_of (json_quote s)) \<le> text_bound s"
proof -
  have "text_bound s = int (12 * length s + 2)" by (induction s) simp_all
  then show ?thesis using quote_le [of s] by linarith
qed

fun json_bound :: "json \<Rightarrow> int" where
  "json_bound (JStr s) = text_bound s"
| "json_bound (JNum n) = (if 0 \<le> n \<and> n < 1000000000 then 18 else 2 * int (length (json_number n)))"
| "json_bound (JBool b) = 5"
| "json_bound JNull = 4"
| "json_bound (JArr js) = 2 + sum_list (map (\<lambda>j. 1 + json_bound j) js)"
| "json_bound (JObj ms) = 2 + sum_list (map (\<lambda>(k, j). text_bound k + json_bound j + 2) ms)"

lemma json_bound: "int (json_size j) \<le> json_bound j"
proof (induction j rule: json_bound.induct)
  case (2 n)
  show ?case
    using bytes_of_le [of "json_number n"] string_of_int_length [of n 9]
    by (auto simp: string_of_int_def)
next
  case (5 js)
  then have "int (sum_list (map (\<lambda>j. Suc (json_size j)) js)) \<le> sum_list (map (\<lambda>j. 1 + json_bound j) js)"
    by (induction js) (auto intro!: add_mono)
  then show ?case by simp
next
  case (6 ms)
  have "int (bytes_of (json_quote k) + json_size j + 2) \<le> text_bound k + json_bound j + 2"
    if "(k, j) \<in> set ms" for k j
    using 6 [OF that refl] text_bound [of k] by simp
  then have "int (sum_list (map (\<lambda>(k, j). bytes_of (json_quote k) + json_size j + 2) ms))
      \<le> sum_list (map (\<lambda>(k, j). text_bound k + json_bound j + 2) ms)"
    by (induction ms) (auto intro!: add_mono)
  then show ?case by simp
qed (simp_all add: text_bound)

lemma material_bound: "material_bytes m \<le> json_bound (provider_material_json m)"
  using json_bound by (simp add: material_bytes_size)

section \<open>The revision\<close>

definition demo_text :: string where
  "demo_text = ''@@ -1 +2 @@'' @ [CHR 0x0A] @ ''+ lock''"

definition demo_changed :: changed_file where
  "demo_changed = \<lparr>cf_sha = None, cf_filename = ''a/b'', cf_previousFilename = None, cf_status = ''modified'',
     cf_additions = 1, cf_deletions = 0, cf_changes = 1, cf_patch = Some demo_text, cf_gitKind = Blob\<rparr>"

definition demo_revision :: revision_source where
  "demo_revision = \<lparr>gs_githubPullRequestId = ''1'', gs_number = 1, gs_state = ''open'', gs_draft = False,
     gs_title = ''t'', gs_body = Some ''b'', gs_authorId = ''1'', gs_authorLogin = ''u'', gs_headSha = demo_commit,
     gs_baseSha = demo_commit, gs_changedFiles = 1, gs_isFork = False, gs_files = [demo_changed],
     gs_limitFiles = False, gs_limitPatchBytes = False, gs_limitPatchUnavailable = False\<rparr>"

definition demo_context_env :: context_env where
  "demo_context_env = \<lparr>ce_sha = \<lambda>_. replicate 32 0, ce_uuid = \<lambda>_. True\<rparr>"

definition demo_hash :: string where "demo_hash = replicate 64 (CHR ''0'')"

definition demo_bounded_file :: bounded_file where
  "demo_bounded_file = \<lparr>bf_path = ''a/b'', bf_previousPath = None, bf_status = ''modified'',
     bf_kind = Bounded_text, bf_patch = Some demo_text, bf_additions = 1, bf_deletions = 0,
     bf_sourceAdditions = 1, bf_sourceDeletions = 0, bf_includedHunks = 1, bf_testFile = False\<rparr>"

definition demo_bounded :: bounded_source where
  "demo_bounded = \<lparr>bs_sourceHash = demo_hash, bs_baseSha = demo_commit, bs_headSha = demo_commit,
     bs_title = ''t'', bs_body = Some ''b'', bs_files = [demo_bounded_file], bs_deterministicTestFiles = [],
     bs_limits = default_generation_context_limits, bs_limitsHit = [], bs_exclusions = [],
     bs_usage = \<lparr>bu_sourceFiles = 1, bu_includedFiles = 1, bu_includedTextFiles = 1, bu_includedHunks = 1,
       bu_titleBytes = 1, bu_bodyBytes = 1, bu_patchBytes = 18, bu_totalBytes = 20\<rparr>\<rparr>"

lemma demo_bounded_of: "bounded_of demo_revision default_generation_context_limits demo_hash = demo_bounded"
  by code_simp

lemma demo_commit_ok: "git_sha_ok demo_commit"
  by (simp add: demo_commit_def git_sha_ok_def all_in_def lower_hex_chars_def list_all_iff)

lemma demo_hash_digest: "hex_digest (ce_sha demo_context_env) v = demo_hash"
proof -
  have "encode_hex (replicate 32 0) = demo_hash" by code_simp
  then show ?thesis by (simp add: hex_digest_def demo_context_env_def)
qed

lemma demo_hash_ok: "sha256_ok demo_hash"
  by (simp add: demo_hash_def sha256_ok_def all_in_def lower_hex_chars_def list_all_iff)

lemma default_limits_ok: "generation_limits_ok default_generation_context_limits"
  by (simp add: generation_limits_ok_def default_generation_context_limits_def int_in_def
      is_safe_integer_def max_safe_integer_def)

lemma demo_revision_ok: "revision_source_ok demo_revision"
proof -
  have "utf8_size demo_text = 18" by code_simp
  then show ?thesis
    by (simp add: revision_source_ok_def demo_revision_def demo_commit_ok demo_changed_def changed_file_ok_def
        optional_ok_def github_id_ok_def length_in_def int_in_def nonnegative_int_def is_safe_integer_def
        max_safe_integer_def file_statuses_def demo_text_def patch_text_def)
qed

lemma demo_bounded_file_ok: "bounded_file_shape_ok demo_bounded_file \<and> bounded_file_refined demo_bounded_file"
  by code_simp

lemma demo_bounded_ok: "bounded_source_ok demo_bounded"
proof -
  have "utf8_size demo_text = 18" "utf8_size ''t'' = 1" "utf8_size ''b'' = 1" by code_simp+
  then show ?thesis
    using demo_bounded_file_ok default_limits_ok [unfolded default_generation_context_limits_def]
    by (simp add: bounded_source_ok_def bounded_usage_ok_def demo_bounded_def demo_commit_ok demo_hash_ok
        length_in_def optional_ok_def int_in_def is_safe_integer_def max_safe_integer_def Let_def
        demo_bounded_file_def files_patch_bytes_def text_files_def patch_text_def body_size_def
        default_generation_context_limits_def)
qed

lemma demo_initial:
  "initial_bounded_source (ce_sha demo_context_env) demo_revision default_generation_context_limits = Inr demo_bounded"
  by (simp add: initial_bounded_source_def demo_revision_ok default_limits_ok github_revision_source_hash_def
      demo_hash_digest demo_bounded_of demo_bounded_ok)

lemma demo_bounded_patch:
  "bounded_revision_source_patch demo_bounded = Inr (demo_patch ''a/b'')"
proof -
  have "\<lparr>pr_baseSha = bs_baseSha demo_bounded, pr_headSha = bs_headSha demo_bounded,
      pr_files = map bounded_patch_file (bs_files demo_bounded)\<rparr> = demo_patch ''a/b''"
    by (simp add: demo_bounded_def demo_patch_def demo_file_def bounded_patch_file_def demo_bounded_file_def
        demo_text_def)
  moreover have "patch_path_ok ''a/b''" by (simp add: patch_path_ok_def length_in_def)
  ultimately show ?thesis
    by (simp add: bounded_revision_source_patch_def demo_bounded_ok demo_inputs_ok)
qed

lemma demo_default_snapshot: "snapshot_of (demo_patch ''a/b'') default_analysis_limits = demo_snapshot"
  by code_simp

lemma demo_default_analysis:
  "analyze_pull_request_patch (demo_patch ''a/b'') default_analysis_limits = Inr demo_snapshot"
proof -
  have "analysis_limits_ok default_analysis_limits"
    by (simp add: analysis_limits_ok_def default_analysis_limits_def int_in_def is_safe_integer_def max_safe_integer_def)
  moreover have "patch_path_ok ''a/b''" by (simp add: patch_path_ok_def length_in_def)
  ultimately show ?thesis
    using demo_snapshot_ok by (simp add: analyze_pull_request_patch_def demo_default_snapshot demo_inputs_ok)
qed

lemma demo_analyze_bounded: "analyze_bounded demo_bounded = Inr demo_snapshot"
  by (simp add: analyze_bounded_def demo_bounded_patch demo_default_analysis)

section \<open>The context\<close>

text \<open>The fields with another path in place of the demo's, and the context with them.\<close>

definition fields_at :: "string \<Rightarrow> provider_fields" where
  "fields_at path = \<lparr>pm_title = untrusted ''pull_request_title'' ''t'',
     pm_body = Some (untrusted ''pull_request_body'' ''b''),
     pm_files = [\<lparr>xf_filename = untrusted ''pull_request_filename'' path, xf_previousFilename = None,
       xf_status = ''modified'', xf_testFile = False, xf_patch = untrusted ''pull_request_patch'' demo_text,
       xf_patchBytes = 18, xf_anchorIds = [''a0'']\<rparr>],
     pm_anchors = [context_anchor_of (demo_anchor\<lparr>da_file := path\<rparr>)], pm_excerpts = [], pm_deterministicTestFiles = [],
     pm_allowedAnchorIds = [''a0''], pm_limits = default_generation_context_limits, pm_limitsHit = [],
     pm_exclusions = []\<rparr>"

definition demo_fields :: provider_fields where
  "demo_fields = fields_at ''a/b''"

definition demo_input :: context_input where
  "demo_input = probe_input demo_bounded demo_snapshot"

definition context_at :: "string \<Rightarrow> generation_context" where
  "context_at path = with_bindings (fields_at path) demo_input demo_hash"

definition demo_context :: generation_context where
  "demo_context = context_at ''a/b''"

definition demo_path_ok :: "string \<Rightarrow> bool" where
  "demo_path_ok path \<longleftrightarrow> length path \<le> 240 \<and> \<not> is_deterministic_test_file path"

lemma demo_path: "demo_path_ok ''a/b''"
  by code_simp

lemma demo_fields_of: "fields_of demo_input = demo_fields"
  by code_simp

lemma demo_input_simps [simp]:
  "ci_boundedSource demo_input = demo_bounded" "ci_analysis demo_input = demo_snapshot"
  "ci_excerpts demo_input = []" "bs_limits demo_bounded = default_generation_context_limits"
  "gl_maximumTotalBytes default_generation_context_limits = 524288"
  by (simp_all add: demo_input_def probe_input_def demo_bounded_def default_generation_context_limits_def)

lemma demo_input_ok: "context_input_ok demo_context_env demo_input"
  by (simp add: context_input_ok_def demo_context_env_def demo_bounded_ok demo_snapshot_ok)

lemma text_bound_length: "text_bound s = 12 * int (length s) + 2"
  by (induction s) simp_all

lemma fields_at_size: "demo_path_ok path \<Longrightarrow> material_bytes (fields_at path) \<le> 524288"
  by (rule order_trans [OF material_bound])
    (simp add: fields_at_def provider_material_json_def fields_members_def untrusted_json_def
      untrusted_def context_file_json_def optional_member_def context_anchor_json_def context_anchor_of_def
      demo_anchor_def limits_json_def default_generation_context_limits_def demo_text_def text_bound_length
      demo_path_ok_def)

lemma fields_at_ok: "demo_path_ok path \<Longrightarrow> provider_material_ok (fields_at path)"
  using default_limits_ok
  by (simp add: fields_at_def provider_material_ok_def untrusted_ok_def untrusted_def untrusted_sources_def
      length_in_def optional_ok_def context_file_ok_def labelled_def file_statuses_def int_in_def
      is_safe_integer_def max_safe_integer_def context_anchor_id_ok_def context_anchor_ok_def
      context_anchor_of_def demo_anchor_def nonnegative_int_def positive_int_def demo_text_def starts_with_def
      demo_path_ok_def)

lemma demo_fields_size: "material_bytes demo_fields \<le> 524288"
  using fields_at_size [OF demo_path] by (simp add: demo_fields_def)

lemma demo_fit: "fit_generation_provider_material demo_fields 524288 = Inr demo_fields"
  using demo_fields_size fields_at_ok [OF demo_path]
  by (simp add: fit_generation_provider_material_def demo_fields_def shrink_keeps)

lemma demo_anchor_in_source: "anchor_in_source demo_bounded demo_anchor"
  by code_simp

lemma context_at_simps [simp]:
  "pm_title (context_at path) = untrusted ''pull_request_title'' ''t''"
  "pm_body (context_at path) = Some (untrusted ''pull_request_body'' ''b'')"
  "pm_files (context_at path) = pm_files (fields_at path)"
  "pm_anchors (context_at path) = [context_anchor_of (demo_anchor\<lparr>da_file := path\<rparr>)]"
  "pm_excerpts (context_at path) = []" "pm_deterministicTestFiles (context_at path) = []"
  "pm_allowedAnchorIds (context_at path) = [''a0'']"
  "pm_limits (context_at path) = default_generation_context_limits"
  "pm_limitsHit (context_at path) = []" "pm_exclusions (context_at path) = []"
  "gc_headSha (context_at path) = demo_commit" "gc_baseSha (context_at path) = demo_commit"
  "gc_sourceHash (context_at path) = demo_hash" "gc_contextHash (context_at path) = demo_hash"
  by (simp_all add: context_at_def fields_at_def with_bindings_def provider_fields.defs demo_bounded_def
      demo_input_def probe_input_def demo_snapshot_def)

lemma demo_anchor_same: "demo_anchor\<lparr>da_file := ''a/b''\<rparr> = demo_anchor"
  by (simp add: demo_anchor_def)

lemma demo_context_simps [simp]:
  "pm_files demo_context = pm_files demo_fields" "pm_anchors demo_context = [context_anchor_of demo_anchor]"
  "pm_excerpts demo_context = []" "pm_allowedAnchorIds demo_context = [''a0'']"
  "gc_headSha demo_context = demo_commit" "gc_baseSha demo_context = demo_commit"
  by (simp_all add: demo_context_def demo_fields_def demo_anchor_same)

lemma context_at_usage: "gc_usage (context_at path) = \<lparr>cu_includedFiles = 1, cu_includedHunks = 1,
    cu_titleBytes = 1, cu_bodyBytes = 1, cu_patchBytes = 18, cu_excerptBytes = 0,
    cu_totalBytes = material_bytes (fields_at path), cu_providerBytes = material_bytes (fields_at path)\<rparr>"
proof -
  have "utf8_size ''t'' = 1" "utf8_size ''b'' = 1"
    "length (context_files demo_bounded [demo_anchor]) = 1" by code_simp+
  then show ?thesis
    by (simp add: context_at_def with_bindings_def provider_fields.defs fields_at_def untrusted_def
        fields_body_bytes_def fields_excerpt_bytes_def demo_anchors) (simp add: demo_bounded_def)
qed

lemma material_of_context: "material_bytes (context_at path) = material_bytes (fields_at path)"
proof -
  have "provider_material_json (context_at path) = provider_material_json (fields_at path)"
    by (simp add: provider_material_json_def fields_members_def) (simp add: fields_at_def)
  then show ?thesis by (simp add: material_bytes_def)
qed

lemma context_at_base_ok:
  assumes "demo_path_ok path"
  shows "context_base_ok demo_context_env (context_at path)"
proof -
  have "provider_material_ok (context_at path)"
    using fields_at_ok [OF assms] by (simp add: provider_material_ok_def) (simp add: fields_at_def)
  moreover have "0 \<le> material_bytes (fields_at path)"
    by (simp add: material_bytes_size)
  ultimately show ?thesis
    using fields_at_size [OF assms]
    by (simp add: context_base_ok_def demo_commit_ok demo_hash_ok context_at_usage int_in_def is_safe_integer_def
        max_safe_integer_def labelled_def untrusted_ok_def untrusted_def untrusted_sources_def length_in_def
        optional_ok_def) (simp add: demo_context_env_def)
qed

lemma context_at_ok:
  assumes "demo_path_ok path"
  shows "generation_context_ok demo_context_env (context_at path)"
proof -
  have sizes: "utf8_size demo_text = 18" "utf8_size ''t'' = 1" "utf8_size ''b'' = 1" by code_simp+
  have "context_anchors_ok (context_at path)"
    by (simp add: context_anchors_ok_def fields_at_def untrusted_def context_anchor_of_def demo_anchor_def sort_ids_def)
  moreover have "context_contents_ok (context_at path)"
    using sizes assms by (simp add: context_contents_ok_def fields_at_def untrusted_def context_paths_def
        default_generation_context_limits_def demo_path_ok_def)
  moreover have "context_usage_ok (context_at path)"
    using sizes fields_at_size [OF assms] unfolding context_usage_ok_def material_of_context
    by (simp add: context_at_usage fields_body_bytes_def fields_patch_bytes_def fields_excerpt_bytes_def
        untrusted_def Let_def fields_at_def default_generation_context_limits_def)
  ultimately show ?thesis
    using context_at_base_ok [OF assms]
    by (simp add: generation_context_ok_def compute_generation_context_hash_def demo_hash_digest)
qed

lemma demo_context_ok: "generation_context_ok demo_context_env demo_context"
  using context_at_ok [OF demo_path] by (simp add: demo_context_def)

lemma demo_build: "build_generation_context demo_context_env demo_input = Inr demo_context"
proof -
  have "as_baseSha demo_snapshot = bs_baseSha demo_bounded" "as_headSha demo_snapshot = bs_headSha demo_bounded"
    by (simp_all add: demo_snapshot_def demo_bounded_def)
  moreover have "with_bindings demo_fields demo_input
      (compute_generation_context_hash demo_context_env (with_bindings demo_fields demo_input [])) = demo_context"
    by (simp add: compute_generation_context_hash_def demo_hash_digest demo_context_def context_at_def
        demo_fields_def)
  ultimately show ?thesis
    by (simp add: build_generation_context_def demo_input_ok demo_anchors demo_anchor_in_source demo_fields_of
        demo_fit demo_context_ok Let_def)
qed

lemma demo_fits: "fit_bounded_source_to_provider_envelope demo_context_env demo_bounded = Inr demo_bounded"
  using demo_build unfolding demo_input_def
  by (subst fit_bounded_source_to_provider_envelope.simps) (simp add: demo_analyze_bounded)

lemma demo_build_bounded:
  "build_bounded_revision_source demo_context_env demo_revision default_generation_context_limits = Inr demo_bounded"
  by (simp add: build_bounded_revision_source_def demo_initial demo_fits)

section \<open>The properties applied\<close>

theorem provider_material_is_bounded_and_semantic_witness:
  "(\<exists>t. canonical_generation_provider_material demo_context_env demo_context = Inr t \<and> utf8_size t \<le> 524288)
    \<and> \<not> is_generated ''a/b'' \<and> \<not> regex_test submodule_patch_pattern demo_text"
  using provider_material_is_bounded_and_semantic [OF demo_build]
  by (auto simp: demo_fields_def fields_at_def untrusted_def)

theorem built_context_verifies_witness:
  "verify_generation_context_against_analysis demo_context_env demo_context demo_snapshot = Inr ()"
  using built_context_verifies [OF demo_build, of "demo_patch ''a/b''" default_analysis_limits]
    demo_default_analysis by simp

theorem bounded_source_gives_up_no_more_than_needed_witness:
  "provider_accepts demo_context_env demo_bounded \<and> gives_up\<^sup>*\<^sup>* demo_bounded demo_bounded"
  using bounded_source_gives_up_no_more_than_needed [OF demo_build_bounded] demo_initial by simp

theorem bounded_patches_are_leading_hunks_witness:
  "\<exists>g\<in>set (gs_files demo_revision). \<exists>p k. cf_filename g = ''a/b'' \<and> cf_patch g = Some p \<and> 1 \<le> k
     \<and> demo_text = join_hunks (take k (parse_patch_hunks p))"
proof -
  have "demo_bounded_file \<in> set (bs_files demo_bounded)" "bf_patch demo_bounded_file = Some demo_text"
    by (simp_all add: demo_bounded_def demo_bounded_file_def)
  then show ?thesis
    using bounded_patches_are_leading_hunks [OF demo_build_bounded] by (fastforce simp: demo_bounded_file_def)
qed

theorem fitting_gives_up_in_order_witness:
  "fit_generation_provider_material demo_fields 524288 = Inr demo_fields \<and> material_bytes demo_fields \<le> 524288"
  using fitting_gives_up_in_order [OF demo_fit] demo_fit by simp

theorem cut_text_is_longest_witness:
  "fit_content ''t'' 0 (with_title demo_fields) = [] \<and> 0 < material_bytes (with_title demo_fields (take 1 ''t''))"
proof -
  have "\<not> material_bytes (with_title demo_fields ''t'') \<le> 0"
    by (simp add: material_bytes_size provider_material_json_def)
  then have "fit_content ''t'' 0 (with_title demo_fields) = []"
    by (simp add: fit_content_def bisect.simps)
  then show ?thesis
    using cut_text_is_longest [of 1 "''t''" 0 demo_fields] by simp
qed

definition demo_item :: "string list \<Rightarrow> semantic_item" where
  "demo_item ids = \<lparr>si_kind = ''k'', si_text = ''x'', si_anchorIds = ids\<rparr>"

theorem accepted_items_cite_the_analysis_witness:
  "filter_anchored_semantic_items demo_context_env [demo_item [''a1''], demo_item [''a0'']] demo_context
     = [demo_item [''a0'']]
   \<and> set (si_anchorIds (demo_item [''a0''])) \<subseteq> da_id ` set (as_anchors demo_snapshot)"
proof -
  have f: "filter_anchored_semantic_items demo_context_env [demo_item [''a1''], demo_item [''a0'']] demo_context
      = [demo_item [''a0'']]"
    by (simp add: filter_anchored_semantic_items_def demo_context_ok demo_item_def semantic_item_ok_def
        length_in_def context_anchor_id_ok_def starts_with_def)
  have base: "as_baseSha demo_snapshot = demo_commit" "as_headSha demo_snapshot = demo_commit"
    by (simp_all add: demo_snapshot_def)
  have v: "verify_generation_context_against_analysis demo_context_env demo_context demo_snapshot = Inr ()"
    unfolding verify_iff_anchors using demo_context_ok demo_snapshot_ok
    by (simp add: projected_anchor_of demo_anchors base)
  have m: "demo_item [''a0''] \<in> set (filter_anchored_semantic_items demo_context_env
      [demo_item [''a1''], demo_item [''a0'']] demo_context)"
    unfolding f by simp
  show ?thesis
    using accepted_items_cite_the_analysis [OF v m] f by blast
qed

end
