(* ===== verification/Semantic_Text.thy ===== *)
theory Semantic_Text
  imports Generation_Context
begin

text \<open>
  The text rules of \<open>packages/questions/src/generative.ts\<close>: the normal form in which texts are
  compared, and the patterns that no generated text may match. Unicode compatibility normalization
  leaves the characters of the model, so it is a parameter, and so is the ellipsis U+2026.
\<close>

record semantic_env =
  se_context :: context_env
  se_nfkc :: "string \<Rightarrow> string"
  se_ellipsis :: string

section \<open>Normal form\<close>

fun collapse_space :: "string \<Rightarrow> string" where
  "collapse_space [] = []"
| "collapse_space (c # s) =
     (if c \<in> set js_whitespace
      then (case s of d # _ \<Rightarrow> if d \<in> set js_whitespace then collapse_space s else CHR '' '' # collapse_space s
            | [] \<Rightarrow> [CHR '' ''])
      else c # collapse_space s)"

definition normalize_text :: "semantic_env \<Rightarrow> string \<Rightarrow> string" where
  "normalize_text env v = js_trim (collapse_space (map lower_char (se_nfkc env v)))"

section \<open>Forbidden texts\<close>

definition one_of :: "string list \<Rightarrow> regex" where
  "one_of ws = any_of (map ignoring_case ws)"

definition spaces :: regex where
  "spaces = Many white_space"

definition bounded :: "regex list \<Rightarrow> regex" where
  "bounded rs = in_order ([Word_boundary] @ rs @ [Word_boundary])"

definition coding_tool :: regex where
  "coding_tool = in_order [ignoring_case ''coding'', spaces, ignoring_case ''tool'']"

definition forbidden_person_or_tool_questions :: "regex list" where
  "forbidden_person_or_tool_questions = [
     bounded [Alt (in_order [ignoring_case ''who'', spaces,
                     one_of [''are'', ''wrote'', ''authored'', ''generated'', ''created'']])
                  (in_order [ignoring_case ''your'', spaces, one_of [''identity'', ''name'']])],
     bounded [one_of [''did'', ''do'', ''have''], spaces, ignoring_case ''you'', spaces,
       one_of [''use'', ''write'', ''author'', ''generate'', ''create'']],
     bounded [one_of [''which'', ''what''], spaces,
       Alt (one_of [''ai'', ''llm'', ''model'', ''assistant'']) (Alt coding_tool (ignoring_case ''tool'')),
       spaces, one_of [''did'', ''do'', ''was'', ''were'']],
     bounded [any_of [ignoring_case ''chatgpt'', ignoring_case ''copilot'', ignoring_case ''claude'',
       ignoring_case ''cursor'',
       in_order [ignoring_case ''ai'', Class (Only ''- ''), ignoring_case ''generated''],
       in_order [ignoring_case ''machine'', Class (Only ''- ''), ignoring_case ''generated'']]],
     bounded [ignoring_case ''prove'', spaces, optionally (in_order [ignoring_case ''that'', spaces]),
       ignoring_case ''you'', spaces, one_of [''are'', ''wrote'', ''authored'', ''created'']],
     bounded [Alt (one_of [''ai'', ''llm'', ''model'', ''assistant'']) (Alt coding_tool (ignoring_case ''tool'')),
       spaces, one_of [''used'', ''chosen'', ''selected''], spaces, ignoring_case ''by'', spaces,
       Alt (ignoring_case ''you'')
         (in_order [ignoring_case ''the'', spaces, one_of [''author'', ''contributor'']])],
     bounded [any_of [in_order [ignoring_case ''name'', optionally (ignoring_case ''s'')],
         in_order [ignoring_case ''identif'', one_of [''y'', ''ies'']],
         in_order [ignoring_case ''state'', optionally (ignoring_case ''s'')]], spaces,
       one_of [''which'', ''what'', ''the''], spaces,
       optionally (Alt (in_order [ignoring_case ''ai'', spaces]) (in_order [ignoring_case ''llm'', spaces])),
       Alt (one_of [''model'', ''assistant'']) (Alt coding_tool (ignoring_case ''tool''))],
     bounded [one_of [''identify'', ''identifies'', ''identified'', ''infer'', ''infers'', ''inferred'',
         ''name'', ''names'', ''named'', ''reveal'', ''reveals'', ''revealed''], spaces,
       optionally (in_order [ignoring_case ''the'', spaces]),
       one_of [''author'', ''contributor'', ''identity'', ''authorship'']]]"

definition forbidden_prompt_injection_directives :: "regex list" where
  "forbidden_prompt_injection_directives = [
     bounded [ignoring_case ''ignore'', spaces, optionally (in_order [ignoring_case ''all'', spaces]),
       one_of [''previous'', ''prior'', ''system'', ''developer''], spaces,
       ignoring_case ''instruction'', optionally (ignoring_case ''s'')],
     bounded [one_of [''reveal'', ''print'', ''return'', ''expose'', ''leak''], spaces,
       optionally (in_order [ignoring_case ''the'', spaces]),
       Alt (one_of [''secret'', ''token'', ''password'', ''credential''])
         (in_order [ignoring_case ''system'', spaces, ignoring_case ''prompt''])],
     in_order [Word_boundary, one_of [''visit'', ''open'', ''fetch'', ''browse''], spaces,
       ignoring_case ''http'', optionally (ignoring_case ''s''), exactly ''://''],
     bounded [one_of [''run'', ''execute''], spaces,
       optionally (in_order [ignoring_case ''this'', spaces]), one_of [''command'', ''code'', ''script'']],
     bounded [one_of [''call'', ''invoke''], spaces,
       optionally (in_order [one_of [''a'', ''the'', ''this''], spaces]), one_of [''tool'', ''function'']]]"

definition asks_about_identity_tooling_or_authorship :: "semantic_env \<Rightarrow> string \<Rightarrow> bool" where
  "asks_about_identity_tooling_or_authorship env t \<longleftrightarrow>
     list_ex (\<lambda>p. regex_test p (se_nfkc env t)) forbidden_person_or_tool_questions"

definition contains_prompt_injection_directive :: "semantic_env \<Rightarrow> string \<Rightarrow> bool" where
  "contains_prompt_injection_directive env t \<longleftrightarrow>
     list_ex (\<lambda>p. regex_test p (se_nfkc env t)) forbidden_prompt_injection_directives"

end
