(* ===== verification/Semantic_Content.thy ===== *)
theory Semantic_Content
  imports Semantic_Text
begin

text \<open>
  The contracts of the generated semantic content (\<open>packages/questions/src/generative.ts\<close>): learning
  material, practice questions and feedback, proof questions with their rubrics, and the checks
  that tie them to a generation context and keep proof content out of practice. A schema trims the
  texts, so \<open>trim_x\<close> is what parsing returns and \<open>x_ok\<close>, on trimmed values, whether it succeeds;
  literal members are left out. \<open>Parse_error\<close> is the library's own error, thrown where the code
  uses \<open>parse\<close> instead of \<open>safeParse\<close>. A schema that extends another keeps the refinements of that one.
\<close>

datatype semantic_error = Schema_invalid | Anchor_invalid | Count_invalid | Content_policy_invalid | Parse_error

section \<open>Anchored texts\<close>

record patch_reference =
  sr_anchorId :: string
  sr_file :: string
  sr_oldStart :: int
  sr_newStart :: int

definition patch_reference_ok :: "patch_reference \<Rightarrow> bool" where
  "patch_reference_ok r \<longleftrightarrow> context_anchor_id_ok (sr_anchorId r) \<and> length_in 1 1024 (sr_file r)
     \<and> CHR 0x00 \<notin> set (sr_file r) \<and> nonnegative_int (sr_oldStart r) \<and> nonnegative_int (sr_newStart r)"

definition anchor_ids_ok :: "string list \<Rightarrow> bool" where
  "anchor_ids_ok is \<longleftrightarrow> list_all context_anchor_id_ok is \<and> 1 \<le> length is \<and> length is \<le> 10
     \<and> card (set is) = length is"

definition references_ok :: "patch_reference list \<Rightarrow> bool" where
  "references_ok rs \<longleftrightarrow> list_all patch_reference_ok rs \<and> 1 \<le> length rs \<and> length rs \<le> 10"

text \<open>\<open>validateDeclaredReferenceSet\<close>: the references name exactly the declared anchors.\<close>

definition declared_references_ok :: "string list \<Rightarrow> patch_reference list \<Rightarrow> bool" where
  "declared_references_ok is rs \<longleftrightarrow>
     (let referenced = sort (map sr_anchorId rs) in
      card (set referenced) = length referenced \<and> sort is = referenced)"

definition generated_text_ok :: "semantic_env \<Rightarrow> nat \<Rightarrow> nat \<Rightarrow> string \<Rightarrow> bool" where
  "generated_text_ok env lo hi t \<longleftrightarrow> \<not> contains_prompt_injection_directive env t \<and> length_in lo hi t"

record learning_statement =
  ls_text :: string
  ls_anchorIds :: "string list"
  ls_patchReferences :: "patch_reference list"

definition trim_statement :: "learning_statement \<Rightarrow> learning_statement" where
  "trim_statement s = s\<lparr>ls_text := js_trim (ls_text s)\<rparr>"

definition statement_ok :: "semantic_env \<Rightarrow> learning_statement \<Rightarrow> bool" where
  "statement_ok env s \<longleftrightarrow> generated_text_ok env 10 2000 (ls_text s) \<and> anchor_ids_ok (ls_anchorIds s)
     \<and> references_ok (ls_patchReferences s)
     \<and> declared_references_ok (ls_anchorIds s) (ls_patchReferences s)
     \<and> \<not> asks_about_identity_tooling_or_authorship env (ls_text s)"

section \<open>Practice questions and learning material\<close>

definition practice_focuses :: "string list" where
  "practice_focuses = [''patch_intent'', ''changed_behavior'', ''interface'', ''risk'', ''testing'', ''rollback'']"

record practice_candidate =
  pc_focus :: string
  pc_prompt :: string
  pc_anchorIds :: "string list"
  pc_patchReferences :: "patch_reference list"

record practice_question_v2 = practice_candidate +
  pc_id :: string
  pc_order :: int
  pc_revisionId :: string
  pc_headSha :: string
  pc_contextHash :: string

definition trim_practice :: "'a practice_candidate_scheme \<Rightarrow> 'a practice_candidate_scheme" where
  "trim_practice q = q\<lparr>pc_prompt := js_trim (pc_prompt q)\<rparr>"

definition practice_candidate_ok :: "semantic_env \<Rightarrow> 'a practice_candidate_scheme \<Rightarrow> bool" where
  "practice_candidate_ok env q \<longleftrightarrow> pc_focus q \<in> set practice_focuses
     \<and> generated_text_ok env 20 700 (pc_prompt q) \<and> anchor_ids_ok (pc_anchorIds q)
     \<and> references_ok (pc_patchReferences q)
     \<and> declared_references_ok (pc_anchorIds q) (pc_patchReferences q)
     \<and> \<not> asks_about_identity_tooling_or_authorship env (pc_prompt q)"

definition practice_question_v2_ok :: "semantic_env \<Rightarrow> practice_question_v2 \<Rightarrow> bool" where
  "practice_question_v2_ok env q \<longleftrightarrow> practice_candidate_ok env q \<and> ce_uuid (se_context env) (pc_id q)
     \<and> int_in 1 5 (pc_order q) \<and> ce_uuid (se_context env) (pc_revisionId q) \<and> git_sha_ok (pc_headSha q)
     \<and> sha256_ok (pc_contextHash q)"

record 'q learning_content =
  lc_patchIntent :: learning_statement
  lc_changedAreas :: "learning_statement list"
  lc_behaviors :: "learning_statement list"
  lc_interfaces :: "learning_statement list"
  lc_risks :: "learning_statement list"
  lc_testGaps :: "learning_statement list"
  lc_testIdeas :: "learning_statement list"
  lc_rollbackSignals :: "learning_statement list"
  lc_practiceQuestions :: "'q list"

type_synonym learning_candidate = "practice_candidate learning_content"

definition learning_statements :: "('q, 'a) learning_content_scheme \<Rightarrow> learning_statement list" where
  "learning_statements c = lc_patchIntent c # lc_changedAreas c @ lc_behaviors c @ lc_interfaces c
     @ lc_risks c @ lc_testGaps c @ lc_testIdeas c @ lc_rollbackSignals c"

definition trim_learning ::
  "('a practice_candidate_scheme, 'b) learning_content_scheme \<Rightarrow> ('a practice_candidate_scheme, 'b) learning_content_scheme" where
  "trim_learning c = c\<lparr>lc_patchIntent := trim_statement (lc_patchIntent c),
     lc_changedAreas := map trim_statement (lc_changedAreas c),
     lc_behaviors := map trim_statement (lc_behaviors c),
     lc_interfaces := map trim_statement (lc_interfaces c), lc_risks := map trim_statement (lc_risks c),
     lc_testGaps := map trim_statement (lc_testGaps c), lc_testIdeas := map trim_statement (lc_testIdeas c),
     lc_rollbackSignals := map trim_statement (lc_rollbackSignals c),
     lc_practiceQuestions := map trim_practice (lc_practiceQuestions c)\<rparr>"

definition count_in :: "nat \<Rightarrow> nat \<Rightarrow> 'a list \<Rightarrow> bool" where
  "count_in lo hi xs \<longleftrightarrow> lo \<le> length xs \<and> length xs \<le> hi"

definition learning_content_ok :: "semantic_env \<Rightarrow> ('q, 'a) learning_content_scheme \<Rightarrow> bool" where
  "learning_content_ok env c \<longleftrightarrow> list_all (statement_ok env) (learning_statements c)
     \<and> count_in 1 12 (lc_changedAreas c) \<and> count_in 1 12 (lc_behaviors c) \<and> count_in 0 12 (lc_interfaces c)
     \<and> count_in 1 12 (lc_risks c) \<and> count_in 1 8 (lc_testGaps c) \<and> count_in 1 8 (lc_testIdeas c)
     \<and> count_in 1 8 (lc_rollbackSignals c) \<and> count_in 3 5 (lc_practiceQuestions c)"

definition learning_candidate_ok :: "semantic_env \<Rightarrow> learning_candidate \<Rightarrow> bool" where
  "learning_candidate_ok env c \<longleftrightarrow> learning_content_ok env c
     \<and> list_all (practice_candidate_ok env) (lc_practiceQuestions c)
     \<and> (let prompts = map (\<lambda>q. normalize_text env (pc_prompt q)) (lc_practiceQuestions c) in
        card (set prompts) = length prompts)"

record artifact_binding =
  ab_id :: string
  ab_revisionId :: string
  ab_headSha :: string
  ab_contextHash :: string
  ab_contentHash :: string
  ab_generationOutcome :: string
  ab_createdAt :: millis
  ab_deleteAfter :: millis

definition artifact_binding_ok :: "semantic_env \<Rightarrow> 'a artifact_binding_scheme \<Rightarrow> bool" where
  "artifact_binding_ok env b \<longleftrightarrow> ce_uuid (se_context env) (ab_id b) \<and> ce_uuid (se_context env) (ab_revisionId b)
     \<and> git_sha_ok (ab_headSha b) \<and> sha256_ok (ab_contextHash b) \<and> sha256_ok (ab_contentHash b)
     \<and> ab_generationOutcome b \<in> {''generated'', ''repaired'', ''fallback''}"

record learning_bundle = artifact_binding +
  lv_content :: "practice_question_v2 learning_content"

definition learning_bundle_ok :: "semantic_env \<Rightarrow> learning_bundle \<Rightarrow> bool" where
  "learning_bundle_ok env b \<longleftrightarrow>
     (let qs = lc_practiceQuestions (lv_content b) in
      artifact_binding_ok env b \<and> learning_content_ok env (lv_content b)
      \<and> list_all (practice_question_v2_ok env) qs
      \<and> \<not> ab_deleteAfter b \<le> ab_createdAt b
      \<and> \<not> (card (set (map pc_id qs)) \<noteq> length qs
           \<or> map pc_order qs \<noteq> map (\<lambda>i. int i + 1) [0..<length qs]
           \<or> list_ex (\<lambda>q. pc_revisionId q \<noteq> ab_revisionId b \<or> pc_headSha q \<noteq> ab_headSha b
               \<or> pc_contextHash q \<noteq> ab_contextHash b) qs))"

section \<open>Practice feedback\<close>

record feedback_candidate =
  fc_understood :: learning_statement
  fc_missingPatchDetail :: learning_statement
  fc_hint :: learning_statement

definition feedback_statements :: "'a feedback_candidate_scheme \<Rightarrow> learning_statement list" where
  "feedback_statements f = [fc_understood f, fc_missingPatchDetail f, fc_hint f]"

definition trim_feedback :: "'a feedback_candidate_scheme \<Rightarrow> 'a feedback_candidate_scheme" where
  "trim_feedback f = f\<lparr>fc_understood := trim_statement (fc_understood f),
     fc_missingPatchDetail := trim_statement (fc_missingPatchDetail f), fc_hint := trim_statement (fc_hint f)\<rparr>"

definition feedback_candidate_ok :: "semantic_env \<Rightarrow> 'a feedback_candidate_scheme \<Rightarrow> bool" where
  "feedback_candidate_ok env f \<longleftrightarrow> list_all (statement_ok env) (feedback_statements f)"

record practice_feedback = artifact_binding +
  pf_practiceQuestionId :: string
  pf_content :: feedback_candidate

definition practice_feedback_ok :: "semantic_env \<Rightarrow> practice_feedback \<Rightarrow> bool" where
  "practice_feedback_ok env f \<longleftrightarrow> artifact_binding_ok env f
     \<and> ce_uuid (se_context env) (pf_practiceQuestionId f) \<and> feedback_candidate_ok env (pf_content f)"

section \<open>Proof questions\<close>

record rubric_statement =
  rb_description :: string
  rb_anchorIds :: "string list"
  rb_patchReferences :: "patch_reference list"

record proof_rubric =
  pb_requiredPoints :: "rubric_statement list"
  pb_observableSignals :: "rubric_statement list"
  pb_antiGenericReason :: rubric_statement

record proof_candidate =
  pq2_intent :: string
  pq2_focus :: string
  pq2_prompt :: string
  pq2_anchorIds :: "string list"
  pq2_patchReferences :: "patch_reference list"
  pq2_rubric :: proof_rubric

definition trim_rubric_statement :: "rubric_statement \<Rightarrow> rubric_statement" where
  "trim_rubric_statement s = s\<lparr>rb_description := js_trim (rb_description s)\<rparr>"

definition trim_rubric :: "proof_rubric \<Rightarrow> proof_rubric" where
  "trim_rubric r = r\<lparr>pb_requiredPoints := map trim_rubric_statement (pb_requiredPoints r),
     pb_observableSignals := map trim_rubric_statement (pb_observableSignals r),
     pb_antiGenericReason := trim_rubric_statement (pb_antiGenericReason r)\<rparr>"

definition trim_proof :: "'a proof_candidate_scheme \<Rightarrow> 'a proof_candidate_scheme" where
  "trim_proof q = q\<lparr>pq2_focus := js_trim (pq2_focus q), pq2_prompt := js_trim (pq2_prompt q),
     pq2_rubric := trim_rubric (pq2_rubric q)\<rparr>"

definition single_anchor_ok :: "string list \<Rightarrow> patch_reference list \<Rightarrow> bool" where
  "single_anchor_ok is rs \<longleftrightarrow> list_all context_anchor_id_ok is \<and> length is = 1
     \<and> list_all patch_reference_ok rs \<and> length rs = 1 \<and> declared_references_ok is rs"

definition rubric_statement_ok :: "semantic_env \<Rightarrow> rubric_statement \<Rightarrow> bool" where
  "rubric_statement_ok env s \<longleftrightarrow> generated_text_ok env 8 300 (rb_description s)
     \<and> single_anchor_ok (rb_anchorIds s) (rb_patchReferences s)"

definition rubric_items :: "proof_rubric \<Rightarrow> rubric_statement list" where
  "rubric_items r = pb_requiredPoints r @ pb_observableSignals r @ [pb_antiGenericReason r]"

definition proof_rubric_ok :: "semantic_env \<Rightarrow> proof_rubric \<Rightarrow> bool" where
  "proof_rubric_ok env r \<longleftrightarrow> list_all (rubric_statement_ok env) (rubric_items r)
     \<and> count_in 2 5 (pb_requiredPoints r) \<and> count_in 1 5 (pb_observableSignals r)
     \<and> (let points = map (\<lambda>p. normalize_text env (rb_description p)) (pb_requiredPoints r) in
        card (set points) = length points)"

definition proof_intents :: "string list" where
  "proof_intents = [''explain'', ''predict'', ''tradeoff'', ''failure_path'', ''test_and_rollback'']"

definition proof_candidate_ok :: "semantic_env \<Rightarrow> 'a proof_candidate_scheme \<Rightarrow> bool" where
  "proof_candidate_ok env q \<longleftrightarrow> pq2_intent q \<in> set proof_intents
     \<and> generated_text_ok env 3 120 (pq2_focus q) \<and> generated_text_ok env 20 1000 (pq2_prompt q)
     \<and> single_anchor_ok (pq2_anchorIds q) (pq2_patchReferences q) \<and> proof_rubric_ok env (pq2_rubric q)
     \<and> \<not> list_ex (asks_about_identity_tooling_or_authorship env)
         (pq2_focus q # pq2_prompt q # map rb_description (rubric_items (pq2_rubric q)))
     \<and> \<not> list_ex (\<lambda>i. hd (rb_anchorIds i) \<noteq> hd (pq2_anchorIds q)
           \<or> hd (rb_patchReferences i) \<noteq> hd (pq2_patchReferences q)) (rubric_items (pq2_rubric q))"

record frozen_question = proof_candidate +
  fq_id :: string
  fq_order :: int
  fq_revisionId :: string
  fq_headSha :: string
  fq_contextHash :: string

definition frozen_question_ok :: "semantic_env \<Rightarrow> frozen_question \<Rightarrow> bool" where
  "frozen_question_ok env q \<longleftrightarrow> proof_candidate_ok env q \<and> ce_uuid (se_context env) (fq_id q)
     \<and> int_in 1 5 (fq_order q) \<and> ce_uuid (se_context env) (fq_revisionId q) \<and> git_sha_ok (fq_headSha q)
     \<and> sha256_ok (fq_contextHash q)"

record question_plan = artifact_binding +
  qp_questionBudget :: int
  qp_questions :: "frozen_question list"
  qp_planHash :: string

definition question_plan_ok :: "semantic_env \<Rightarrow> question_plan \<Rightarrow> bool" where
  "question_plan_ok env p \<longleftrightarrow>
     (let qs = qp_questions p in
      artifact_binding_ok env p \<and> int_in 1 5 (qp_questionBudget p) \<and> list_all (frozen_question_ok env) qs
      \<and> count_in 1 5 qs \<and> sha256_ok (qp_planHash p)
      \<and> \<not> (qp_questionBudget p \<noteq> int (length qs) \<or> card (set (map fq_id qs)) \<noteq> length qs
           \<or> list_ex (\<lambda>(i, q). fq_order q \<noteq> int i + 1 \<or> fq_revisionId q \<noteq> ab_revisionId p
               \<or> fq_headSha q \<noteq> ab_headSha p \<or> fq_contextHash q \<noteq> ab_contextHash p) (enumerate 0 qs)))"

section \<open>Anchors of the context\<close>

definition anchored :: "string list \<Rightarrow> patch_reference list \<Rightarrow> generation_context \<Rightarrow> bool" where
  "anchored is rs c \<longleftrightarrow>
     \<not> (is = [] \<or> list_ex (\<lambda>i. i \<notin> set (pm_allowedAnchorIds c)) is)
     \<and> length rs = length is
     \<and> list_all (\<lambda>r. case find (\<lambda>a. xa_id a = sr_anchorId r) (rev (pm_anchors c)) of
          None \<Rightarrow> False
        | Some a \<Rightarrow> \<not> (ud_content (xa_filename a) \<noteq> sr_file r \<or> xa_oldStart a \<noteq> sr_oldStart r
            \<or> xa_newStart a \<noteq> sr_newStart r)) rs"

definition assert_known_concrete_anchors ::
  "(string list \<times> patch_reference list) list \<Rightarrow> generation_context \<Rightarrow> semantic_error + unit" where
  "assert_known_concrete_anchors statements c =
     (if list_all (\<lambda>(is, rs). anchored is rs c) statements then Inr () else Inl Anchor_invalid)"

section \<open>Proof content in practice\<close>

definition forbidden_content_ok :: "string list \<Rightarrow> bool" where
  "forbidden_content_ok xs \<longleftrightarrow> list_all (length_in 1 2000) xs \<and> 1 \<le> length xs \<and> length xs \<le> 60"

definition practice_content_excludes_proof_content :: "semantic_env \<Rightarrow> string list \<Rightarrow> string list \<Rightarrow> bool" where
  "practice_content_excludes_proof_content env practice forbidden =
     (if forbidden = [] then True
      else let parsed = map js_trim forbidden in
        if \<not> forbidden_content_ok parsed then False
        else let proof_values = filter (\<lambda>t. t \<noteq> []) (map (normalize_text env) parsed) in
          list_all (\<lambda>v. let p = normalize_text env v in
            list_all (\<lambda>f. p \<noteq> f \<and> (length f < 20 \<or> \<not> occurs_in f p)) proof_values) practice)"

definition learning_texts :: "('a practice_candidate_scheme, 'b) learning_content_scheme \<Rightarrow> string list" where
  "learning_texts c = map ls_text (learning_statements c) @ map pc_prompt (lc_practiceQuestions c)"

definition feedback_texts :: "'a feedback_candidate_scheme \<Rightarrow> string list" where
  "feedback_texts f = map ls_text (feedback_statements f)"

definition learning_bundle_excludes_proof_content :: "semantic_env \<Rightarrow> learning_candidate \<Rightarrow> string list \<Rightarrow> bool" where
  "learning_bundle_excludes_proof_content env c forbidden =
     practice_content_excludes_proof_content env (learning_texts c) forbidden"

definition practice_feedback_excludes_proof_content :: "semantic_env \<Rightarrow> feedback_candidate \<Rightarrow> string list \<Rightarrow> bool" where
  "practice_feedback_excludes_proof_content env f forbidden =
     practice_content_excludes_proof_content env (feedback_texts f) forbidden"

definition proof_questions_content :: "'a proof_candidate_scheme list \<Rightarrow> string list" where
  "proof_questions_content qs =
     concat (map (\<lambda>q. pq2_prompt q # map rb_description (rubric_items (pq2_rubric q))) qs)"

definition practice_artifacts_exclude_proof_content ::
  "semantic_env \<Rightarrow> practice_candidate list \<Rightarrow> feedback_candidate list \<Rightarrow> proof_candidate list \<Rightarrow> bool" where
  "practice_artifacts_exclude_proof_content env questions feedback proofs =
     practice_content_excludes_proof_content env
       (map pc_prompt questions @ concat (map feedback_texts feedback)) (proof_questions_content proofs)"

section \<open>Validation\<close>

definition validate_learning_bundle_candidate ::
  "semantic_env \<Rightarrow> learning_candidate \<Rightarrow> generation_context \<Rightarrow> int option \<Rightarrow> string list
     \<Rightarrow> semantic_error + learning_candidate" where
  "validate_learning_bundle_candidate env raw c expected forbidden =
     (let candidate = trim_learning raw in
      if \<not> learning_candidate_ok env candidate \<or> \<not> generation_context_ok (se_context env) c
      then Inl Schema_invalid
      else if (case expected of None \<Rightarrow> False | Some n \<Rightarrow> int (length (lc_practiceQuestions candidate)) \<noteq> n)
      then Inl Count_invalid
      else bind_result (assert_known_concrete_anchors
             (map (\<lambda>s. (ls_anchorIds s, ls_patchReferences s)) (learning_statements candidate)
              @ map (\<lambda>q. (pc_anchorIds q, pc_patchReferences q)) (lc_practiceQuestions candidate)) c) (\<lambda>_.
        if forbidden \<noteq> [] \<and> \<not> learning_bundle_excludes_proof_content env candidate forbidden
        then Inl Content_policy_invalid else Inr candidate))"

definition validate_practice_feedback_candidate ::
  "semantic_env \<Rightarrow> feedback_candidate \<Rightarrow> generation_context \<Rightarrow> practice_question_v2 \<Rightarrow> string list
     \<Rightarrow> semantic_error + feedback_candidate" where
  "validate_practice_feedback_candidate env raw c raw_question forbidden =
     (let candidate = trim_feedback raw; question = trim_practice raw_question in
      if \<not> feedback_candidate_ok env candidate \<or> \<not> generation_context_ok (se_context env) c
         \<or> \<not> practice_question_v2_ok env question
      then Inl Schema_invalid
      else bind_result (assert_known_concrete_anchors
             (map (\<lambda>s. (ls_anchorIds s, ls_patchReferences s)) (feedback_statements candidate)) c) (\<lambda>_.
        if list_ex (\<lambda>s. list_ex (\<lambda>i. i \<notin> set (pc_anchorIds question)) (ls_anchorIds s)) (feedback_statements candidate)
        then Inl Anchor_invalid
        else if forbidden \<noteq> [] \<and> \<not> practice_feedback_excludes_proof_content env candidate forbidden
        then Inl Content_policy_invalid else Inr candidate))"

definition validate_practice_question_against_context ::
  "semantic_env \<Rightarrow> practice_question_v2 \<Rightarrow> generation_context \<Rightarrow> semantic_error + practice_question_v2" where
  "validate_practice_question_against_context env raw c =
     (let question = trim_practice raw in
      if \<not> practice_question_v2_ok env question \<or> \<not> generation_context_ok (se_context env) c
      then Inl Schema_invalid
      else bind_result (assert_known_concrete_anchors [(pc_anchorIds question, pc_patchReferences question)] c) (\<lambda>_.
        if pc_revisionId question \<noteq> gc_revisionId c \<or> pc_headSha question \<noteq> gc_headSha c
           \<or> pc_contextHash question \<noteq> gc_contextHash c
        then Inl Anchor_invalid else Inr question))"

definition question_statements :: "'a proof_candidate_scheme \<Rightarrow> (string list \<times> patch_reference list) list" where
  "question_statements q = (pq2_anchorIds q, pq2_patchReferences q)
     # map (\<lambda>s. (rb_anchorIds s, rb_patchReferences s)) (rubric_items (pq2_rubric q))"

definition validate_proof_question_candidates ::
  "semantic_env \<Rightarrow> proof_candidate list \<Rightarrow> generation_context \<Rightarrow> int \<Rightarrow> semantic_error + proof_candidate list" where
  "validate_proof_question_candidates env raw c expectedCount =
     (let candidates = map trim_proof raw in
      if \<not> (list_all (proof_candidate_ok env) candidates \<and> count_in 1 5 candidates)
         \<or> \<not> generation_context_ok (se_context env) c
      then Inl Schema_invalid
      else if int (length candidates) \<noteq> expectedCount then Inl Count_invalid
      else if card (set (map (\<lambda>q. normalize_text env (pq2_prompt q)) candidates)) \<noteq> length candidates
      then Inl Content_policy_invalid
      else bind_result (assert_known_concrete_anchors (concat (map question_statements candidates)) c)
        (\<lambda>_. Inr candidates))"

end
