(* ===== verification/Semantic_Fallback.thy ===== *)
theory Semantic_Fallback
  imports Semantic_Content
begin

text \<open>
  The deterministic content of \<open>packages/questions/src/generative.ts\<close> that replaces the provider's
  when that fails: learning material, practice feedback and proof questions made of fixed texts and
  the anchors of the context, and the alternative texts that avoid proof content.
\<close>

section \<open>References\<close>

definition patch_reference_of :: "generation_context \<Rightarrow> string \<Rightarrow> semantic_error + patch_reference" where
  "patch_reference_of c i =
     (case find (\<lambda>a. xa_id a = i) (pm_anchors c) of
        None \<Rightarrow> Inl Anchor_invalid
      | Some a \<Rightarrow>
        (let r = \<lparr>sr_anchorId = xa_id a, sr_file = ud_content (xa_filename a),
                  sr_oldStart = xa_oldStart a, sr_newStart = xa_newStart a\<rparr> in
         if patch_reference_ok r then Inr r else Inl Parse_error))"

definition fallback_statement :: "generation_context \<Rightarrow> string \<Rightarrow> string \<Rightarrow> semantic_error + learning_statement" where
  "fallback_statement c i t = bind_result (patch_reference_of c i) (\<lambda>r.
     Inr \<lparr>ls_text = t, ls_anchorIds = [i], ls_patchReferences = [r]\<rparr>)"

section \<open>Avoiding proof content\<close>

text \<open>\<open>String(n).padStart(4, "0")\<close>.\<close>

definition pad_four :: "int \<Rightarrow> string" where
  "pad_four n = replicate (4 - length (string_of_int n)) (CHR ''0'') @ string_of_int n"

definition collision_free_text ::
  "semantic_env \<Rightarrow> string \<Rightarrow> string list \<Rightarrow> (int \<Rightarrow> string) \<Rightarrow> semantic_error + string" where
  "collision_free_text env preferred forbidden alternative =
     (if practice_content_excludes_proof_content env [preferred] forbidden then Inr preferred
      else (case find (\<lambda>t. practice_content_excludes_proof_content env [t] forbidden)
              (map (\<lambda>n. alternative (int n)) [0..<100]) of
              Some t \<Rightarrow> Inr t | None \<Rightarrow> Inl Content_policy_invalid))"

definition first_id :: "string list \<Rightarrow> string" where
  "first_id is = (case is of [] \<Rightarrow> ''unknown'' | i # _ \<Rightarrow> i)"

definition first_lines :: "patch_reference list \<Rightarrow> string" where
  "first_lines rs = (case rs of [] \<Rightarrow> ''[before@0:after@0]''
     | r # _ \<Rightarrow> ''[before@'' @ string_of_int (sr_oldStart r) @ '':after@'' @ string_of_int (sr_newStart r) @ '']'')"

definition compare_text :: "string \<Rightarrow> string \<Rightarrow> string \<Rightarrow> string" where
  "compare_text tag i ls = tag @ ''['' @ i @ ''] compare-'' @ tag @ ls"

definition alternative_statement :: "int \<Rightarrow> learning_statement \<Rightarrow> int \<Rightarrow> string" where
  "alternative_statement k s counter =
     (let tag = ''P'' @ pad_four (k * 100 + counter) in
      compare_text tag (first_id (ls_anchorIds s)) (first_lines (ls_patchReferences s))
      @ '' explain-'' @ tag @ ''[observable-effect] boundary-'' @ tag @ ''[one-case]'')"

definition alternative_prompt :: "int \<Rightarrow> practice_candidate \<Rightarrow> int \<Rightarrow> string" where
  "alternative_prompt k q counter =
     (let tag = ''Q'' @ pad_four (k * 100 + counter) in
      compare_text tag (first_id (pc_anchorIds q)) (first_lines (pc_patchReferences q))
      @ '' explain-'' @ tag @ ''[changed-behavior] test-'' @ tag @ ''[one-boundary]'')"

definition safe_statement ::
  "semantic_env \<Rightarrow> string list \<Rightarrow> (int \<Rightarrow> string) \<Rightarrow> learning_statement \<Rightarrow> semantic_error + learning_statement" where
  "safe_statement env forbidden alternative s =
     bind_result (collision_free_text env (ls_text s) forbidden alternative) (\<lambda>t. Inr (s\<lparr>ls_text := t\<rparr>))"

text \<open>The number of a statement: the intent has 0, and the next one after it gets 2, for the counter
  is increased once after the intent and once before each statement of a list.\<close>

definition safe_statements ::
  "semantic_env \<Rightarrow> string list \<Rightarrow> int \<Rightarrow> learning_statement list \<Rightarrow> semantic_error + learning_statement list" where
  "safe_statements env forbidden first ss =
     map_result (\<lambda>(k, s). safe_statement env forbidden (alternative_statement (first + int k) s) s) (enumerate 0 ss)"

definition safe_prompts ::
  "semantic_env \<Rightarrow> string list \<Rightarrow> practice_candidate list \<Rightarrow> semantic_error + practice_candidate list" where
  "safe_prompts env forbidden qs = map_result (\<lambda>(k, q).
     bind_result (collision_free_text env (pc_prompt q) forbidden (alternative_prompt (int k) q))
       (\<lambda>t. Inr (q\<lparr>pc_prompt := t\<rparr>))) (enumerate 0 qs)"

definition make_learning_collision_free ::
  "semantic_env \<Rightarrow> learning_candidate \<Rightarrow> string list \<Rightarrow> semantic_error + learning_candidate" where
  "make_learning_collision_free env c forbidden =
     (if forbidden = [] then Inr c
      else
        bind_result (safe_statement env forbidden (alternative_statement 0 (lc_patchIntent c)) (lc_patchIntent c)) (\<lambda>intent.
        let a = 2; b = a + int (length (lc_changedAreas c)); i = b + int (length (lc_behaviors c));
            r = i + int (length (lc_interfaces c)); g = r + int (length (lc_risks c));
            d = g + int (length (lc_testGaps c)); k = d + int (length (lc_testIdeas c)) in
        bind_result (safe_statements env forbidden a (lc_changedAreas c)) (\<lambda>areas.
        bind_result (safe_statements env forbidden b (lc_behaviors c)) (\<lambda>behaviors.
        bind_result (safe_statements env forbidden i (lc_interfaces c)) (\<lambda>interfaces.
        bind_result (safe_statements env forbidden r (lc_risks c)) (\<lambda>risks.
        bind_result (safe_statements env forbidden g (lc_testGaps c)) (\<lambda>gaps.
        bind_result (safe_statements env forbidden d (lc_testIdeas c)) (\<lambda>ideas.
        bind_result (safe_statements env forbidden k (lc_rollbackSignals c)) (\<lambda>signals.
        bind_result (safe_prompts env forbidden (lc_practiceQuestions c)) (\<lambda>questions.
          let candidate = trim_learning \<lparr>lc_patchIntent = intent, lc_changedAreas = areas,
                lc_behaviors = behaviors, lc_interfaces = interfaces, lc_risks = risks, lc_testGaps = gaps,
                lc_testIdeas = ideas, lc_rollbackSignals = signals, lc_practiceQuestions = questions\<rparr> in
          if learning_candidate_ok env candidate then Inr candidate else Inl Parse_error))))))))))"

definition understood_text :: "learning_statement \<Rightarrow> int \<Rightarrow> string" where
  "understood_text s counter =
     (let tag = ''U'' @ pad_four counter in
      tag @ ''['' @ first_id (ls_anchorIds s) @ ''] recognized-'' @ tag @ ''[changed-behavior] response-'' @ tag @ ''[engaged]'')"

definition missing_text :: "learning_statement \<Rightarrow> int \<Rightarrow> string" where
  "missing_text s counter =
     (let tag = ''M'' @ pad_four counter in
      tag @ ''['' @ first_id (ls_anchorIds s) @ ''] missing-'' @ tag @ first_lines (ls_patchReferences s)
      @ '' boundary-'' @ tag @ ''[one-effect]'')"

definition hint_text :: "learning_statement \<Rightarrow> int \<Rightarrow> string" where
  "hint_text s counter =
     (let tag = ''H'' @ pad_four counter in
      compare_text tag (first_id (ls_anchorIds s)) (first_lines (ls_patchReferences s))
      @ '' name-'' @ tag @ ''[observable-consequence]'')"

definition make_feedback_collision_free ::
  "semantic_env \<Rightarrow> feedback_candidate \<Rightarrow> string list \<Rightarrow> semantic_error + feedback_candidate" where
  "make_feedback_collision_free env f forbidden =
     (if forbidden = [] then Inr f
      else
        bind_result (safe_statement env forbidden (understood_text (fc_understood f)) (fc_understood f)) (\<lambda>understood.
        bind_result (safe_statement env forbidden (missing_text (fc_missingPatchDetail f)) (fc_missingPatchDetail f)) (\<lambda>missing.
        bind_result (safe_statement env forbidden (hint_text (fc_hint f)) (fc_hint f)) (\<lambda>hint.
          let candidate = trim_feedback \<lparr>fc_understood = understood, fc_missingPatchDetail = missing, fc_hint = hint\<rparr> in
          if feedback_candidate_ok env candidate then Inr candidate else Inl Parse_error))))"

section \<open>Learning material\<close>

definition practice_prompts :: "string list" where
  "practice_prompts = [''Explain the before-and-after behavior at the referenced changed hunk.'',
     ''Describe one boundary or failure case affected by the referenced changed hunk.'',
     ''Propose a focused test that observes the behavior at the referenced changed hunk.'',
     ''Name a rollback signal tied to the behavior at the referenced changed hunk.'',
     ''Trace one caller or consumer affected by the referenced changed hunk.'']"

definition fallback_focuses :: "string list" where
  "fallback_focuses = [''changed_behavior'', ''risk'', ''testing'', ''rollback'', ''interface'']"

definition fallback_practice_question :: "generation_context \<Rightarrow> nat \<Rightarrow> semantic_error + practice_candidate" where
  "fallback_practice_question c index =
     (let anchors = pm_allowedAnchorIds c; i = anchors ! (index mod length anchors) in
      if index \<ge> length practice_prompts then Inl Count_invalid
      else bind_result (patch_reference_of c i) (\<lambda>r.
        Inr \<lparr>pc_focus = fallback_focuses ! index, pc_prompt = practice_prompts ! index,
             pc_anchorIds = [i], pc_patchReferences = [r]\<rparr>))"

definition fallback_learning_candidate ::
  "generation_context \<Rightarrow> nat \<Rightarrow> semantic_error + learning_candidate" where
  "fallback_learning_candidate c count =
     (let anchors = pm_allowedAnchorIds c; statement = fallback_statement c (hd anchors) in
      bind_result (statement ''Understand the observable behavior changed by the bounded patch before proving it.'') (\<lambda>intent.
      bind_result (map_result (\<lambda>i. fallback_statement c i
          ''Map this changed hunk to the component responsibility it modifies.'') (take 12 anchors)) (\<lambda>areas.
      bind_result (statement ''Compare removed and added lines to identify the concrete behavior change.'') (\<lambda>behavior.
      bind_result (statement ''Trace the nearest caller or consumer affected by this changed hunk.'') (\<lambda>interface.
      bind_result (statement ''Check the boundary and failure behavior introduced by this changed hunk.'') (\<lambda>risk.
      bind_result (statement (if pm_deterministicTestFiles c = []
          then ''No changed test file is present for the behavior at this changed hunk.''
          else ''Confirm the changed tests cover a boundary and failure case for this changed hunk.'')) (\<lambda>gap.
      bind_result (statement ''Exercise the normal path and one failing boundary at this changed hunk.'') (\<lambda>idea.
      bind_result (statement ''Use a regression in the observable behavior at this changed hunk as a rollback signal.'') (\<lambda>signal.
      bind_result (map_result (fallback_practice_question c) [0..<count]) (\<lambda>questions.
        Inr \<lparr>lc_patchIntent = intent, lc_changedAreas = areas, lc_behaviors = [behavior],
             lc_interfaces = [interface], lc_risks = [risk], lc_testGaps = [gap], lc_testIdeas = [idea],
             lc_rollbackSignals = [signal], lc_practiceQuestions = questions\<rparr>))))))))))"

definition deterministic_learning_fallback ::
  "semantic_env \<Rightarrow> generation_context \<Rightarrow> int \<Rightarrow> string list \<Rightarrow> semantic_error + learning_candidate" where
  "deterministic_learning_fallback env c count forbidden =
     (if \<not> generation_context_ok (se_context env) c \<or> count < 3 \<or> count > 5 \<or> length (pm_allowedAnchorIds c) = 0
      then Inl Schema_invalid
      else bind_result (fallback_learning_candidate c (nat count)) (\<lambda>candidate.
        bind_result (make_learning_collision_free env candidate forbidden) (\<lambda>free.
          validate_learning_bundle_candidate env free c (Some count) forbidden)))"

section \<open>Practice feedback\<close>

definition deterministic_practice_feedback_fallback ::
  "semantic_env \<Rightarrow> generation_context \<Rightarrow> practice_question_v2 \<Rightarrow> string list \<Rightarrow> semantic_error + feedback_candidate" where
  "deterministic_practice_feedback_fallback env c raw_question forbidden =
     (let question = trim_practice raw_question; i = hd (pc_anchorIds question) in
      if \<not> generation_context_ok (se_context env) c \<or> \<not> practice_question_v2_ok env question
      then Inl Schema_invalid
      else
        bind_result (fallback_statement c i (''Your response engages with the behavior at anchor '' @ i @ ''.'')) (\<lambda>understood.
        bind_result (fallback_statement c i
          (''The explanation still needs an explicit before-and-after comparison at anchor '' @ i @ ''.'')) (\<lambda>missing.
        bind_result (fallback_statement c i (''At anchor '' @ i
          @ '', compare the removed line with the added line and describe one observable consequence.'')) (\<lambda>hint.
        bind_result (make_feedback_collision_free env
            \<lparr>fc_understood = understood, fc_missingPatchDetail = missing, fc_hint = hint\<rparr> forbidden) (\<lambda>free.
          validate_practice_feedback_candidate env free c question forbidden)))))"

section \<open>Proof questions\<close>

definition bounded_display_path_of :: "semantic_env \<Rightarrow> string \<Rightarrow> string" where
  "bounded_display_path_of env path =
     (if length path \<le> 240 then path
      else take 118 path @ se_ellipsis env @ drop (length path - 118) path)"

definition fallback_intents :: "string list" where
  "fallback_intents = [''explain'', ''predict'', ''failure_path'', ''test_and_rollback'', ''tradeoff'']"

definition fallback_prompt_ends :: "string list" where
  "fallback_prompt_ends = ['', explain the before-and-after behavior and why the new behavior is intended.'',
     '', predict the normal outcome and one boundary outcome caused by the change.'',
     '', walk through a realistic failure path, including recovery behavior.'',
     '', give a focused test and rollback plan for the changed behavior.'',
     '', describe the main implementation tradeoff and one plausible alternative.'']"

definition fallback_prompt :: "semantic_env \<Rightarrow> nat \<Rightarrow> patch_reference \<Rightarrow> string" where
  "fallback_prompt env index r = ''At '' @ bounded_display_path_of env (sr_file r) @ '' near new line ''
     @ string_of_int (sr_newStart r) @ fallback_prompt_ends ! index"

definition fallback_rubric_statement :: "string \<Rightarrow> patch_reference \<Rightarrow> string \<Rightarrow> rubric_statement" where
  "fallback_rubric_statement i r t = \<lparr>rb_description = t, rb_anchorIds = [i], rb_patchReferences = [r]\<rparr>"

definition fallback_question_of :: "semantic_env \<Rightarrow> nat \<Rightarrow> string \<Rightarrow> patch_reference \<Rightarrow> proof_candidate" where
  "fallback_question_of env index i r =
     \<lparr>pq2_intent = fallback_intents ! index, pq2_focus = ''behavior at '' @ i,
      pq2_prompt = fallback_prompt env index r, pq2_anchorIds = [i], pq2_patchReferences = [r],
      pq2_rubric = \<lparr>
        pb_requiredPoints = [
          fallback_rubric_statement i r (''Identifies the concrete behavior represented by anchor '' @ i @ ''.''),
          fallback_rubric_statement i r ''Explains an observable consequence and a relevant boundary or failure case.''],
        pb_observableSignals = [
          fallback_rubric_statement i r ''The explanation distinguishes removed behavior from added behavior.''],
        pb_antiGenericReason = fallback_rubric_statement i r
          (''A generic answer would not account for the concrete change at anchor '' @ i @ ''.'')\<rparr>\<rparr>"

definition fallback_proof_question :: "semantic_env \<Rightarrow> generation_context \<Rightarrow> nat \<Rightarrow> semantic_error + proof_candidate" where
  "fallback_proof_question env c index =
     (let anchors = pm_allowedAnchorIds c; i = anchors ! (index mod length anchors) in
      if index \<ge> length fallback_intents then Inl Count_invalid
      else bind_result (patch_reference_of c i) (\<lambda>r. Inr (fallback_question_of env index i r)))"

definition deterministic_proof_fallback ::
  "semantic_env \<Rightarrow> generation_context \<Rightarrow> int \<Rightarrow> semantic_error + proof_candidate list" where
  "deterministic_proof_fallback env c count =
     (if \<not> generation_context_ok (se_context env) c \<or> count < 1 \<or> count > 5 \<or> length (pm_allowedAnchorIds c) = 0
      then Inl Schema_invalid
      else bind_result (map_result (fallback_proof_question env c) [0..<nat count]) (\<lambda>candidates.
        validate_proof_question_candidates env candidates c count))"

end
