(* ===== verification/Pattern_Facts.thy ===== *)
theory Pattern_Facts
  imports Semantic_Text
begin

text \<open>
  A necessary condition for the forbidden patterns, cheap to evaluate: a pattern that starts at a
  word boundary with whole words only matches where these words start. Texts are compared after
  folding letters to lower case and digits to zero, so a text with an anchor's number in it is
  decided once for all numbers of that length.
\<close>

section \<open>Words of a text\<close>

definition fold_char :: "char \<Rightarrow> char" where
  "fold_char c = (let n = (of_char c :: nat) in
     if 65 \<le> n \<and> n \<le> 90 then char_of (n + 32) else if 48 \<le> n \<and> n \<le> 57 then CHR ''0'' else c)"

definition head_word :: "string \<Rightarrow> string" where
  "head_word t = map fold_char (takeWhile word_char t)"

definition after_word :: "string \<Rightarrow> string" where
  "after_word t = dropWhile (\<lambda>c. c \<in> set js_whitespace) (dropWhile word_char t)"

fun begins :: "string list list \<Rightarrow> string \<Rightarrow> bool" where
  "begins [] t = True"
| "begins (W # p) t \<longleftrightarrow> head_word t \<in> set W \<and> begins p (after_word t)"

definition begins_any :: "string list list list \<Rightarrow> string \<Rightarrow> bool" where
  "begins_any ps t \<longleftrightarrow> list_ex (\<lambda>p. begins p t) ps"

fun word_starts :: "bool \<Rightarrow> string \<Rightarrow> string list" where
  "word_starts inside [] = []"
| "word_starts inside (c # s) =
     (if word_char c \<and> \<not> inside then [c # s] else []) @ word_starts (word_char c) s"

section \<open>What a pattern leads with\<close>

definition leads :: "regex \<Rightarrow> string list list list \<Rightarrow> bool" where
  "leads r ps \<longleftrightarrow> (\<forall>b t. ends r (b, t) \<noteq> [] \<longrightarrow> begins_any ps t)"

definition ends_word :: "regex \<Rightarrow> bool" where
  "ends_word q \<longleftrightarrow> (\<forall>c t. word_char c \<longrightarrow> ends q (Some c, t) \<noteq> [] \<longrightarrow> (case t of [] \<Rightarrow> True | d # _ \<Rightarrow> \<not> word_char d))"

definition lower_word :: "string \<Rightarrow> bool" where
  "lower_word w \<longleftrightarrow> w \<noteq> [] \<and> list_all (\<lambda>c. c \<in> set ''abcdefghijklmnopqrstuvwxyz'') w"

lemma ends_Seq_ne: "ends (Seq r q) x \<noteq> [] \<longleftrightarrow> (\<exists>y\<in>set (ends r x). ends q y \<noteq> [])"
  by auto

lemma letter_cases:
  "c \<in> set ''abcdefghijklmnopqrstuvwxyz'' \<Longrightarrow> d \<in> set (both_cases c) \<Longrightarrow> fold_char d = c \<and> word_char d"
proof -
  have "list_all (\<lambda>c. list_all (\<lambda>d. fold_char d = c \<and> word_char d) (both_cases c)) ''abcdefghijklmnopqrstuvwxyz''"
    by (simp add: both_cases_def other_case_def fold_char_def word_char_def char_of_eq_iff)
  then show "c \<in> set ''abcdefghijklmnopqrstuvwxyz'' \<Longrightarrow> d \<in> set (both_cases c) \<Longrightarrow> fold_char d = c \<and> word_char d"
    unfolding list_all_iff by blast
qed

lemma ends_ignoring_case:
  assumes "list_all (\<lambda>c. c \<in> set ''abcdefghijklmnopqrstuvwxyz'') w" and "y \<in> set (ends (ignoring_case w) (b, t))"
  shows "\<exists>u. t = u @ snd y \<and> map fold_char u = w \<and> list_all word_char u
    \<and> fst y = (if u = [] then b else Some (last u))"
  using assms
proof (induction w arbitrary: b t)
  case Nil
  then show ?case by (auto simp: ignoring_case_def)
next
  case (Cons c w)
  obtain d s where t: "t = d # s" "d \<in> set (both_cases c)" and y: "y \<in> set (ends (ignoring_case w) (Some d, s))"
    using Cons.prems(2) by (cases t) (auto simp: ignoring_case_def split: if_splits)
  obtain u where "s = u @ snd y" "map fold_char u = w" "list_all word_char u"
    "fst y = (if u = [] then Some d else Some (last u))"
    using Cons.IH [OF _ y] Cons.prems(1) by auto
  then show ?case
    using t letter_cases [of c d] Cons.prems(1) by (intro exI [of _ "d # u"]) auto
qed

lemma takeWhile_word:
  assumes "list_all word_char u" and "case s of [] \<Rightarrow> True | d # _ \<Rightarrow> \<not> word_char d"
  shows "takeWhile word_char (u @ s) = u" and "dropWhile word_char (u @ s) = s"
  using assms by (auto simp: list_all_iff takeWhile_append dropWhile_append split: list.splits)

lemma leads_word:
  assumes "lower_word w" and "ends_word q"
  shows "leads (Seq (ignoring_case w) q) [[[w]]]"
proof -
  have "head_word t = w" if m: "ends (Seq (ignoring_case w) q) (b, t) \<noteq> []" for b t
  proof -
    obtain y where y: "y \<in> set (ends (ignoring_case w) (b, t))" "ends q y \<noteq> []"
      using m unfolding ends_Seq_ne by blast
    obtain u where u: "t = u @ snd y" "map fold_char u = w" "list_all word_char u"
      "fst y = (if u = [] then b else Some (last u))"
      using ends_ignoring_case [OF _ y(1)] assms(1) by (auto simp: lower_word_def)
    have ne: "u \<noteq> []"
      using u(2) assms(1) by (cases u) (simp_all add: lower_word_def)
    then have "word_char (last u)"
      using u(3) by (simp add: list_all_iff)
    then have "case snd y of [] \<Rightarrow> True | d # _ \<Rightarrow> \<not> word_char d"
      using assms(2) y(2) u(4) ne by (cases y) (simp add: ends_word_def)
    then show ?thesis
      using takeWhile_word(1) [OF u(3)] u(1,2) by (simp add: head_word_def)
  qed
  then show ?thesis by (simp add: leads_def begins_any_def)
qed

lemma many_ends_suffix:
  "y \<in> set (many_ends p t) \<Longrightarrow> \<exists>u. u \<noteq> [] \<and> t = u @ snd y \<and> list_all (in_class p) u"
proof (induction p t rule: many_ends.induct)
  case (2 p c s)
  then consider "in_class p c" "y = (Some c, s)" | "in_class p c" "y \<in> set (many_ends p s)"
    by (auto split: if_splits)
  then show ?case
  proof cases
    case 1
    then show ?thesis by (intro exI [of _ "[c]"]) simp
  next
    case 2
    then obtain u where "s = u @ snd y" "list_all (in_class p) u"
      using "2.IH" by auto
    then show ?thesis using 2(1) by (intro exI [of _ "c # u"]) simp
  qed
qed simp

lemma space_not_word: "c \<in> set js_whitespace \<Longrightarrow> \<not> word_char c"
  by (auto simp: js_whitespace_def word_char_def)

lemma ends_word_boundary: "ends_word Word_boundary"
  by (auto simp: ends_word_def split: list.splits if_splits)

lemma ends_word_Seq: "ends_word r \<Longrightarrow> ends_word (Seq r q)"
  unfolding ends_word_def ends_Seq_ne by (metis empty_iff list.set(1))

lemma ends_word_spaces: "ends_word spaces"
proof -
  have "case t of [] \<Rightarrow> True | d # _ \<Rightarrow> \<not> word_char d" if "many_ends white_space t \<noteq> []" for t
    using that space_not_word by (cases t) (auto simp: white_space_def split: if_splits)
  then show ?thesis by (simp add: ends_word_def spaces_def)
qed

lemma ends_word_hyphen: "ends_word (Class (Only ''- ''))"
  by (auto simp: ends_word_def word_char_def split: list.splits if_splits)

lemmas ends_word_intros = ends_word_boundary ends_word_Seq ends_word_spaces ends_word_hyphen

section \<open>Composition\<close>

lemma leads_mono: "leads r ps \<Longrightarrow> (\<And>b t. ends q (b, t) \<noteq> [] \<Longrightarrow> ends r (b, t) \<noteq> []) \<Longrightarrow> leads q ps"
  unfolding leads_def by blast

lemma leads_assoc: "leads (Seq a (Seq b q)) ps \<Longrightarrow> leads (Seq (Seq a b) q) ps"
  by (rule leads_mono) auto

lemma leads_Nothing: "leads q ps \<Longrightarrow> leads (Seq Nothing q) ps"
  by (rule leads_mono) auto

lemma begins_any_append: "begins_any (ps @ qs) t \<longleftrightarrow> begins_any ps t \<or> begins_any qs t"
  by (simp add: begins_any_def)

lemma leads_either:
  assumes "leads r ps" and "leads r' qs"
    and "\<And>b t. ends q (b, t) \<noteq> [] \<Longrightarrow> ends r (b, t) \<noteq> [] \<or> ends r' (b, t) \<noteq> []"
  shows "leads q (ps @ qs)"
  using assms unfolding leads_def begins_any_append by meson

lemma leads_Alt: "leads (Seq a q) ps \<Longrightarrow> leads (Seq b q) qs \<Longrightarrow> leads (Seq (Alt a b) q) (ps @ qs)"
  by (erule (1) leads_either) auto

lemma leads_Seq_Alt:
  "leads (Seq x (Seq a q)) ps \<Longrightarrow> leads (Seq x (Seq b q)) qs \<Longrightarrow> leads (Seq x (Seq (Alt a b) q)) (ps @ qs)"
  by (erule (1) leads_either) auto

lemma begins_any_Cons: "begins_any (map ((#) W) ps) t \<longleftrightarrow> head_word t \<in> set W \<and> begins_any ps (after_word t)"
  by (auto simp: begins_any_def list_ex_iff)

lemma any_of_simps: "any_of [r] = r" "any_of (r # r' # rs) = Alt r (any_of (r' # rs))"
  by (simp_all add: any_of_def)

lemma ends_any_of: "rs \<noteq> [] \<Longrightarrow> y \<in> set (ends (any_of rs) x) \<longleftrightarrow> (\<exists>r\<in>set rs. y \<in> set (ends r x))"
proof (induction rs)
  case (Cons r rs)
  then show ?case by (cases rs) (simp_all add: any_of_simps)
qed simp

lemma ends_one_of:
  assumes "y \<in> set (ends (one_of W) (b, t))" and "list_all lower_word W" and "W \<noteq> []"
  shows "\<exists>w u. w \<in> set W \<and> y \<in> set (ends (ignoring_case w) (b, t))
    \<and> t = u @ snd y \<and> map fold_char u = w \<and> list_all word_char u"
proof -
  obtain w where w: "w \<in> set W" "y \<in> set (ends (ignoring_case w) (b, t))"
    using assms(1,3) ends_any_of [of "map ignoring_case W" y] by (auto simp: one_of_def)
  then have "list_all (\<lambda>c. c \<in> set ''abcdefghijklmnopqrstuvwxyz'') w"
    using assms(2) by (simp add: list_all_iff [of lower_word] lower_word_def)
  then show ?thesis
    using ends_ignoring_case [OF _ w(2)] w by blast
qed

lemma leads_words:
  assumes "list_all lower_word W" and "W \<noteq> []" and "ends_word q"
  shows "leads (Seq (one_of W) q) [[W]]"
proof -
  have "head_word t \<in> set W" if m: "ends (Seq (one_of W) q) (b, t) \<noteq> []" for b t
  proof -
    obtain y where y: "y \<in> set (ends (one_of W) (b, t))" "ends q y \<noteq> []"
      using m unfolding ends_Seq_ne by blast
    obtain w where w: "w \<in> set W" "y \<in> set (ends (ignoring_case w) (b, t))"
      using ends_one_of [OF y(1) assms(1,2)] by blast
    then have "ends (Seq (ignoring_case w) q) (b, t) \<noteq> []"
      using y(2) unfolding ends_Seq_ne by blast
    moreover have "lower_word w"
      using assms(1) w(1) by (simp add: list_all_iff [of lower_word])
    ultimately show ?thesis
      using leads_word [of w q] assms(3) w(1) by (auto simp: leads_def begins_any_def)
  qed
  then show ?thesis by (simp add: leads_def begins_any_def)
qed

text \<open>Words, then spaces, then the rest, whose first words are not empty.\<close>

definition solid :: "string list list list \<Rightarrow> bool" where
  "solid ps \<longleftrightarrow> list_all (\<lambda>p. case p of [] \<Rightarrow> True | W # _ \<Rightarrow> [] \<notin> set W) ps"

lemma begins_any_skip:
  assumes "begins_any ps (sp @ t)" and "solid ps" and "list_all (\<lambda>c. c \<in> set js_whitespace) sp"
  shows "begins_any ps t"
proof (cases sp)
  case (Cons c s)
  obtain p where p: "p \<in> set ps" "begins p (sp @ t)"
    using assms(1) by (auto simp: begins_any_def list_ex_iff)
  have "head_word (sp @ t) = []"
    using assms(3) Cons space_not_word by (simp add: head_word_def)
  then have "p = []"
    using assms(2) p by (cases p) (auto simp: solid_def list_all_iff)
  then have "begins p t" by simp
  then show ?thesis
    using p(1) unfolding begins_any_def list_ex_iff by blast
qed (use assms(1) in simp)

lemma begins_any_space:
  assumes "begins_any ps t" and "solid ps"
  shows "begins_any ps (dropWhile (\<lambda>c. c \<in> set js_whitespace) t)"
proof (rule begins_any_skip [OF _ assms(2)])
  show "begins_any ps (takeWhile (\<lambda>c. c \<in> set js_whitespace) t @ dropWhile (\<lambda>c. c \<in> set js_whitespace) t)"
    using assms(1) by (simp only: takeWhile_dropWhile_id)
  show "list_all (\<lambda>c. c \<in> set js_whitespace) (takeWhile (\<lambda>c. c \<in> set js_whitespace) t)"
    unfolding list_all_iff by (blast dest: set_takeWhileD)
qed

lemma leads_words_spaces:
  assumes "list_all lower_word W" and "W \<noteq> []" and "leads q ps" and "solid ps"
  shows "leads (Seq (one_of W) (Seq spaces q)) (map ((#) W) ps)"
proof -
  have "begins_any (map ((#) W) ps) t" if m: "ends (Seq (one_of W) (Seq spaces q)) (b, t) \<noteq> []" for b t
  proof -
    have "head_word t \<in> set W"
      using leads_words [OF assms(1,2), of "Seq spaces q"] m
      by (simp add: leads_def begins_any_def ends_word_Seq [OF ends_word_spaces])
    moreover have "begins_any ps (after_word t)"
    proof -
      obtain y z where y: "y \<in> set (ends (one_of W) (b, t))" and z: "z \<in> set (ends spaces y)" "ends q z \<noteq> []"
        using m unfolding ends_Seq_ne by blast
      obtain u where u: "t = u @ snd y" "list_all word_char u"
        using ends_one_of [OF y assms(1,2)] by blast
      obtain sp where sp: "sp \<noteq> []" "snd y = sp @ snd z" "list_all (\<lambda>c. c \<in> set js_whitespace) sp"
        using z(1) many_ends_suffix [of z white_space "snd y"]
        by (cases y) (auto simp: spaces_def white_space_def list_all_iff)
      have "\<not> word_char (hd sp)"
        using sp(1,3) space_not_word by (cases sp) auto
      then have "dropWhile word_char t = sp @ snd z"
        using takeWhile_word(2) [OF u(2), of "sp @ snd z"] sp(1) unfolding u(1) sp(2) by (cases sp) simp_all
      then have "after_word t = dropWhile (\<lambda>c. c \<in> set js_whitespace) (snd z)"
        using sp(3) by (simp add: after_word_def list_all_iff)
      moreover have "begins_any ps (snd z)"
        using assms(3) z(2) by (cases z) (simp add: leads_def)
      then have "begins_any ps (dropWhile (\<lambda>c. c \<in> set js_whitespace) (snd z))"
        by (rule begins_any_space [OF _ assms(4)])
      ultimately show ?thesis by simp
    qed
    ultimately show ?thesis by (simp add: begins_any_Cons)
  qed
  then show ?thesis by (simp add: leads_def)
qed

lemma leads_subset: "leads r ps \<Longrightarrow> set ps \<subseteq> set qs \<Longrightarrow> leads r qs"
  unfolding leads_def begins_any_def list_ex_iff by blast

lemma leads_anything: "leads r [[]]"
  by (simp add: leads_def begins_any_def)

lemma leads_assoc2: "leads (Seq x (Seq a (Seq b q))) ps \<Longrightarrow> leads (Seq x (Seq (Seq a b) q)) ps"
  by (rule leads_mono) auto

lemma leads_Nothing2: "leads (Seq x q) ps \<Longrightarrow> leads (Seq x (Seq Nothing q)) ps"
  by (rule leads_mono) auto

lemma one_word: "one_of [w] = ignoring_case w"
  by (simp add: one_of_def any_of_def)

lemma ends_ignoring_append:
  "y \<in> set (ends (ignoring_case w) x) \<Longrightarrow> z \<in> set (ends (ignoring_case v) y)
    \<Longrightarrow> z \<in> set (ends (ignoring_case (w @ v)) x)"
proof (induction w arbitrary: x)
  case Nil
  then show ?case by (simp add: ignoring_case_def)
next
  case (Cons c w)
  obtain p where p: "p \<in> set (ends (Class (Only (both_cases c))) x)" "y \<in> set (ends (ignoring_case w) p)"
    using Cons.prems(1) by (auto simp: ignoring_case_def)
  then have "z \<in> set (ends (ignoring_case (w @ v)) p)"
    using Cons by blast
  then show ?case
    using p(1) by (auto simp: ignoring_case_def)
qed

lemma leads_stem:
  assumes "leads (Seq (one_of (map ((@) w) V)) q) ps" and "V \<noteq> []"
  shows "leads (Seq (one_of [w]) (Seq (one_of V) q)) ps"
proof (rule leads_mono [OF assms(1)])
  fix b t
  assume "ends (Seq (one_of [w]) (Seq (one_of V) q)) (b, t) \<noteq> []"
  then obtain y z where y: "y \<in> set (ends (ignoring_case w) (b, t))" and z: "z \<in> set (ends (one_of V) y)" "ends q z \<noteq> []"
    unfolding ends_Seq_ne one_word by blast
  obtain v where v: "v \<in> set V" "z \<in> set (ends (ignoring_case v) y)"
    using z(1) assms(2) ends_any_of [of "map ignoring_case V" z y] by (auto simp: one_of_def)
  have "z \<in> set (ends (one_of (map ((@) w) V)) (b, t))"
    using v assms(2) ends_ignoring_append [OF y v(2)] ends_any_of [of "map ignoring_case (map ((@) w) V)" z "(b, t)"]
    unfolding one_of_def by auto
  then show "ends (Seq (one_of (map ((@) w) V)) q) (b, t) \<noteq> []"
    using z(2) unfolding ends_Seq_ne by blast
qed

lemma ends_word_colon: "ends_word (Seq (exactly ''://'') q)"
  by (rule ends_word_Seq) (auto simp: ends_word_def exactly_def word_char_def split: list.splits if_splits)

lemmas leads_intros = leads_assoc leads_assoc2 leads_Nothing leads_Nothing2 leads_Alt leads_Seq_Alt
  leads_words_spaces leads_stem leads_words leads_anything

section \<open>The forbidden patterns\<close>

definition identifying_words :: "string list" where
  "identifying_words = [''identify'', ''identifies'', ''identified'', ''infer'', ''infers'', ''inferred'',
     ''name'', ''names'', ''named'', ''reveal'', ''reveals'', ''revealed'']"

definition model_words :: "string list" where
  "model_words = [''ai'', ''llm'', ''model'', ''assistant'', ''coding'', ''tool'']"

definition forbidden_leads :: "string list list list" where
  "forbidden_leads = [
     [[''who'', ''your'', ''did'', ''do'', ''have'', ''which'', ''what'', ''chatgpt'', ''copilot'', ''claude'',
       ''cursor'', ''ai'', ''machine'', ''prove'', ''llm'', ''model'', ''assistant'', ''coding'', ''tool'',
       ''ignore'', ''reveal'', ''print'', ''return'', ''expose'', ''leak'', ''visit'', ''open'', ''fetch'',
       ''browse'', ''run'', ''execute'', ''call'', ''invoke'']],
     [[''name'', ''names'', ''identify'', ''identifies'', ''state'', ''states''], [''which'', ''what'', ''the''], model_words],
     [identifying_words, [''author'', ''contributor'', ''identity'', ''authorship'']],
     [identifying_words, [''the''], [''author'', ''contributor'', ''identity'', ''authorship'']]]"

lemma leads_enough:
  assumes "leads r ps" and "\<And>t. begins_any ps t \<Longrightarrow> begins_any qs t"
  shows "leads r qs"
  using assms unfolding leads_def by blast

definition guarded :: "regex \<Rightarrow> bool" where
  "guarded r \<longleftrightarrow> (\<exists>q. r = Seq Word_boundary q \<and> leads q forbidden_leads)"

lemma guardedI: "leads q ps \<Longrightarrow> (\<And>t. begins_any ps t \<Longrightarrow> begins_any forbidden_leads t) \<Longrightarrow> guarded (Seq Word_boundary q)"
  unfolding guarded_def leads_def by blast

lemmas pattern_shape = bounded_def in_order_def foldr.simps comp_def id_def append.simps list.pred_inject
  optionally_def coding_tool_def any_of_simps one_word [symmetric]

lemmas lead_words = begins_any_def forbidden_leads_def identifying_words_def model_words_def

lemma person_patterns_guarded: "list_all guarded forbidden_person_or_tool_questions"
  unfolding forbidden_person_or_tool_questions_def pattern_shape
  apply (intro conjI TrueI)
  apply (rule guardedI, ((rule leads_intros | simp add: lower_word_def solid_def ends_word_intros)+)[1],
    force simp: lead_words)+
  by simp

lemma directive_patterns_guarded: "list_all guarded forbidden_prompt_injection_directives"
  unfolding forbidden_prompt_injection_directives_def pattern_shape
  apply (intro conjI TrueI)
  apply (rule guardedI, ((rule leads_intros | simp add: lower_word_def solid_def ends_word_intros ends_word_colon)+)[1],
    force simp: lead_words)+
  by simp

section \<open>The decision\<close>

definition unforbidden :: "string \<Rightarrow> bool" where
  "unforbidden s \<longleftrightarrow> \<not> list_ex (begins_any forbidden_leads) (word_starts False (map fold_char s))"

lemma forbidden_start: "begins_any forbidden_leads t \<Longrightarrow> case t of [] \<Rightarrow> False | c # _ \<Rightarrow> word_char c"
proof -
  assume "begins_any forbidden_leads t"
  then have "head_word t \<noteq> []"
    by (auto simp: lead_words)
  then show ?thesis by (cases t) (simp_all add: head_word_def split: if_splits)
qed

lemma guarded_from:
  "guarded r \<Longrightarrow> regex_from r (b, s) \<Longrightarrow> \<exists>t\<in>set (word_starts (word_at b) s). begins_any forbidden_leads t"
proof (induction s arbitrary: b)
  case Nil
  then have "begins_any forbidden_leads []"
    by (auto simp: guarded_def leads_def split: if_splits)
  then show ?case using forbidden_start by fastforce
next
  case (Cons c s)
  show ?case
  proof (cases "ends r (b, c # s) = []")
    case True
    then have "regex_from r (Some c, s)" using Cons.prems(2) by simp
    then have "\<exists>t\<in>set (word_starts (word_char c) s). begins_any forbidden_leads t"
      using Cons.IH [of "Some c"] Cons.prems(1) by simp
    then show ?thesis by auto
  next
    case False
    then have "word_at b \<noteq> word_char c" "begins_any forbidden_leads (c # s)"
      using Cons.prems(1) by (auto simp: guarded_def leads_def split: if_splits)
    then show ?thesis
      using forbidden_start [of "c # s"] by auto
  qed
qed

lemma in_chars: "c \<in> set cs \<longleftrightarrow> (of_char c :: nat) \<in> set (map of_char cs)"
  by (simp add: image_iff)

lemma word_char_code: "word_char c \<longleftrightarrow> (let n = of_char c :: nat in
    65 \<le> n \<and> n \<le> 90 \<or> 97 \<le> n \<and> n \<le> 122 \<or> 48 \<le> n \<and> n \<le> 57 \<or> n = 95)"
proof -
  have l: "map of_char ''ABCDEFGHIJKLMNOPQRSTUVWXYZabcdefghijklmnopqrstuvwxyz0123456789_''
      = [65..<91] @ [97..<123] @ [48..<58] @ [95::nat]"
    by (simp add: upt_rec_numeral)
  show ?thesis
    unfolding word_char_def Let_def in_chars l
    unfolding set_append set_upt Un_iff atLeastLessThan_iff list.set insert_iff empty_iff by arith
qed

lemma space_code: "c \<in> set js_whitespace \<longleftrightarrow> (of_char c :: nat) \<in> {9, 10, 11, 12, 13, 32, 160}"
proof -
  have l: "map of_char js_whitespace = [9, 10, 11, 12, 13, 32, 160 :: nat]"
    by (simp add: js_whitespace_def)
  show ?thesis unfolding in_chars l by simp
qed

lemma of_fold_char: "(of_char (fold_char c) :: nat) = (let n = of_char c in
    if 65 \<le> n \<and> n \<le> 90 then n + 32 else if 48 \<le> n \<and> n \<le> 57 then 48 else n)"
  by (simp add: fold_char_def Let_def)

lemma of_char_eq: "c = d \<longleftrightarrow> (of_char c :: nat) = of_char d"
  by simp

lemma fold_char_facts [simp]:
  "fold_char (fold_char c) = fold_char c" "word_char (fold_char c) = word_char c"
  "fold_char c \<in> set js_whitespace \<longleftrightarrow> c \<in> set js_whitespace"
  unfolding of_char_eq [of "fold_char (fold_char c)"] word_char_code space_code of_fold_char Let_def
  by auto

lemma begins_fold: "begins p (map fold_char t) = begins p t"
proof (induction p arbitrary: t)
  case (Cons W p)
  have "head_word (map fold_char t) = head_word t"
    by (simp add: head_word_def takeWhile_map comp_def)
  moreover have "after_word (map fold_char t) = map fold_char (after_word t)"
    by (simp add: after_word_def dropWhile_map comp_def)
  ultimately show ?case using Cons by simp
qed simp

lemma word_starts_fold: "word_starts i (map fold_char s) = map (map fold_char) (word_starts i s)"
  by (induction s arbitrary: i) simp_all

lemma unforbidden_safe:
  assumes "unforbidden s" and "se_nfkc env s = s"
  shows "\<not> asks_about_identity_tooling_or_authorship env s" and "\<not> contains_prompt_injection_directive env s"
proof -
  have safe: "\<not> regex_test r s" if g: "guarded r" for r
  proof
    assume "regex_test r s"
    then obtain t where "t \<in> set (word_starts False s)" "begins_any forbidden_leads t"
      using guarded_from [OF g, of None s] by (auto simp: regex_test_def)
    then show False
      using assms(1) by (auto simp: unforbidden_def word_starts_fold list_ex_iff begins_any_def begins_fold)
  qed
  show "\<not> asks_about_identity_tooling_or_authorship env s" "\<not> contains_prompt_injection_directive env s"
    using safe person_patterns_guarded directive_patterns_guarded assms(2)
    by (auto simp: asks_about_identity_tooling_or_authorship_def contains_prompt_injection_directive_def
        list_ex_iff list_all_iff)
qed

text \<open>Evaluation on the bits of a character.\<close>

lemma word_char_bits [code]:
  "word_char (Char b0 b1 b2 b3 b4 b5 b6 b7) \<longleftrightarrow> \<not> b7 \<and>
     (if b6 then ((b4 \<or> b3 \<or> b2 \<or> b1 \<or> b0) \<and> \<not> (b4 \<and> b3 \<and> (b2 \<or> (b1 \<and> b0)))) \<or> (\<not> b5 \<and> b4 \<and> b3 \<and> b2 \<and> b1 \<and> b0)
      else b5 \<and> b4 \<and> (\<not> b3 \<or> (\<not> b2 \<and> \<not> b1)))"
  by (cases b0; cases b1; cases b2; cases b3; cases b4; cases b5; cases b6; cases b7)
    (simp_all add: word_char_code)

lemma fold_char_bits [code]:
  "fold_char (Char b0 b1 b2 b3 b4 b5 b6 b7) =
     (if \<not> b7 \<and> b6 \<and> \<not> b5 \<and> (b4 \<or> b3 \<or> b2 \<or> b1 \<or> b0) \<and> \<not> (b4 \<and> b3 \<and> (b2 \<or> (b1 \<and> b0)))
      then Char b0 b1 b2 b3 b4 True b6 b7
      else if \<not> b7 \<and> \<not> b6 \<and> b5 \<and> b4 \<and> (\<not> b3 \<or> (\<not> b2 \<and> \<not> b1)) then CHR ''0''
      else Char b0 b1 b2 b3 b4 b5 b6 b7)"
  by (cases b0; cases b1; cases b2; cases b3; cases b4; cases b5; cases b6; cases b7)
    (simp_all add: fold_char_def char_of_eq_iff)

end
