(* ===== verification/Semantic_Life.thy ===== *)
theory Semantic_Life
  imports Semantic_Fallback Pattern_Facts Context_Life
begin

text \<open>
  Properties of the semantic content: what is accepted never repeats proof content in practice
  material and cites exactly the anchors of its context, and when the deterministic content that
  replaces the provider's is itself accepted.
\<close>

section \<open>Proof content\<close>

lemma excludes_proof_content:
  assumes "practice_content_excludes_proof_content env practice forbidden"
    and "f \<in> set forbidden" and "t \<in> set practice" and "normalize_text env (js_trim f) \<noteq> []"
  shows "normalize_text env t \<noteq> normalize_text env (js_trim f)
    \<and> (20 \<le> length (normalize_text env (js_trim f)) \<longrightarrow>
        \<not> (\<exists>u v. normalize_text env t = u @ normalize_text env (js_trim f) @ v))"
proof -
  define p where "p = normalize_text env (js_trim f)"
  have "p \<in> set (filter (\<lambda>t. t \<noteq> []) (map (normalize_text env) (map js_trim forbidden)))"
    using assms(2,4) by (simp add: p_def)
  moreover have "forbidden \<noteq> []" using assms(2) by auto
  ultimately have "normalize_text env t \<noteq> p \<and> (length p < 20 \<or> \<not> occurs_in p (normalize_text env t))"
    using assms(1,3) unfolding practice_content_excludes_proof_content_def Let_def list_all_iff
    by (metis (no_types, lifting))
  then show ?thesis
    unfolding p_def [symmetric] occurs_in_iff [symmetric] by auto
qed

lemma validate_learningE:
  assumes "validate_learning_bundle_candidate env raw c n forbidden = Inr l"
  shows "l = trim_learning raw" "learning_candidate_ok env l" "generation_context_ok (se_context env) c"
    and "n = Some k \<Longrightarrow> int (length (lc_practiceQuestions l)) = k"
    and "s \<in> set (learning_statements l) \<Longrightarrow> anchored (ls_anchorIds s) (ls_patchReferences s) c"
    and "q \<in> set (lc_practiceQuestions l) \<Longrightarrow> anchored (pc_anchorIds q) (pc_patchReferences q) c"
    and "forbidden \<noteq> [] \<Longrightarrow> learning_bundle_excludes_proof_content env l forbidden"
  using assms
  by (auto simp: validate_learning_bundle_candidate_def assert_known_concrete_anchors_def Let_def list_all_iff
      split: if_splits)

lemma validate_feedbackE:
  assumes "validate_practice_feedback_candidate env raw c q forbidden = Inr l"
  shows "l = trim_feedback raw" "feedback_candidate_ok env l"
    and "s \<in> set (feedback_statements l) \<Longrightarrow> anchored (ls_anchorIds s) (ls_patchReferences s) c"
    and "s \<in> set (feedback_statements l) \<Longrightarrow> set (ls_anchorIds s) \<subseteq> set (pc_anchorIds q)"
    and "forbidden \<noteq> [] \<Longrightarrow> practice_feedback_excludes_proof_content env l forbidden"
  using assms
  by (auto simp: validate_practice_feedback_candidate_def assert_known_concrete_anchors_def Let_def list_all_iff
      list_ex_iff trim_practice_def split: if_splits)

lemma fallback_is_validated:
  "deterministic_learning_fallback env c k forbidden = Inr l \<Longrightarrow>
     \<exists>raw. validate_learning_bundle_candidate env raw c (Some k) forbidden = Inr l"
  "deterministic_practice_feedback_fallback env c q forbidden = Inr f \<Longrightarrow>
     \<exists>raw. validate_practice_feedback_candidate env raw c (trim_practice q) forbidden = Inr f"
  by (auto simp: deterministic_learning_fallback_def deterministic_practice_feedback_fallback_def
      result_simps Let_def split: if_splits)

text \<open>C23: no learning material that is accepted, from the provider or as fallback, and no practice
  feedback, repeats proof content: no text of it equals a forbidden text, or contains one of at
  least twenty characters, in the normal form that ignores case, spacing and compatibility forms.\<close>

theorem practice_never_repeats_proof_content:
  assumes "(\<exists>raw n. validate_learning_bundle_candidate env raw c n forbidden = Inr l \<and> t \<in> set (learning_texts l))
      \<or> (\<exists>k. deterministic_learning_fallback env c k forbidden = Inr l \<and> t \<in> set (learning_texts l))
      \<or> (\<exists>raw q. validate_practice_feedback_candidate env raw c q forbidden = Inr f \<and> t \<in> set (feedback_texts f))
      \<or> (\<exists>q. deterministic_practice_feedback_fallback env c q forbidden = Inr f \<and> t \<in> set (feedback_texts f))"
    and "p \<in> set forbidden" and "normalize_text env (js_trim p) \<noteq> []"
  shows "normalize_text env t \<noteq> normalize_text env (js_trim p)
    \<and> (20 \<le> length (normalize_text env (js_trim p)) \<longrightarrow>
        \<not> (\<exists>u v. normalize_text env t = u @ normalize_text env (js_trim p) @ v))"
proof -
  have ne: "forbidden \<noteq> []" using assms(2) by auto
  from assms(1) consider raw n where "validate_learning_bundle_candidate env raw c n forbidden = Inr l" "t \<in> set (learning_texts l)"
    | raw q where "validate_practice_feedback_candidate env raw c q forbidden = Inr f" "t \<in> set (feedback_texts f)"
    using fallback_is_validated by blast
  then show ?thesis
  proof cases
    case 1
    show ?thesis
      by (rule excludes_proof_content [OF validate_learningE(7) [OF 1(1) ne, unfolded
            learning_bundle_excludes_proof_content_def] assms(2) 1(2) assms(3)])
  next
    case 2
    show ?thesis
      by (rule excludes_proof_content [OF validate_feedbackE(5) [OF 2(1) ne, unfolded
            practice_feedback_excludes_proof_content_def] assms(2) 2(2) assms(3)])
  qed
qed

end
