(* ===== verification/Fallback_Text.thy ===== *)
theory Fallback_Text
  imports Semantic_Life Planner_Total
begin

text \<open>
  When the deterministic content is itself accepted. The compatibility normalization leaves plain
  text alone, also at the end of any text, so the fixed parts of the content are decided by
  evaluation and only the file names of the patch can make it fail.
\<close>

section \<open>Plain text\<close>

definition plain :: "string \<Rightarrow> bool" where
  "plain s \<longleftrightarrow> list_all (\<lambda>c. 32 \<le> (of_char c :: nat) \<and> (of_char c :: nat) < 127) s"

definition nfkc_lawful :: "semantic_env \<Rightarrow> bool" where
  "nfkc_lawful env \<longleftrightarrow> se_nfkc env [] = [] \<and> (\<forall>s t. plain t \<longrightarrow> se_nfkc env (s @ t) = se_nfkc env s @ t)"

lemma nfkc_plain: "nfkc_lawful env \<Longrightarrow> plain t \<Longrightarrow> se_nfkc env t = t"
  unfolding nfkc_lawful_def by (metis append_Nil)

lemma nfkc_end: "nfkc_lawful env \<Longrightarrow> plain t \<Longrightarrow> se_nfkc env (s @ t) = se_nfkc env s @ t"
  unfolding nfkc_lawful_def by blast

lemma plain_append [simp]: "plain (s @ t) \<longleftrightarrow> plain s \<and> plain t"
  by (simp add: plain_def)

lemma plain_code: "plain (Char b0 b1 b2 b3 b4 b5 b6 b7 # s) \<longleftrightarrow>
    (\<not> b7 \<and> (b6 \<or> b5) \<and> \<not> (b6 \<and> b5 \<and> b4 \<and> b3 \<and> b2 \<and> b1 \<and> b0)) \<and> plain s"
  by (cases b0; cases b1; cases b2; cases b3; cases b4; cases b5; cases b6; cases b7) (simp_all add: plain_def)

lemma plain_Nil [simp]: "plain []"
  by (simp add: plain_def)

lemma collapse_space_append:
  "c \<notin> set js_whitespace \<Longrightarrow> collapse_space (s @ c # t) = collapse_space s @ collapse_space (c # t)"
proof (induction s rule: collapse_space.induct)
  case (2 d s)
  then show ?case by (cases s) auto
qed simp

lemma dropWhile_tight: "t \<noteq> [] \<Longrightarrow> \<not> P (hd t) \<Longrightarrow> dropWhile P (s @ t) = dropWhile P s @ t"
  by (induction s) (auto simp: neq_Nil_conv)

lemma js_trim_tight:
  assumes "t \<noteq> []" and "hd t \<notin> set js_whitespace" and "last t \<notin> set js_whitespace"
  shows "js_trim (s @ t) = dropWhile (\<lambda>c. c \<in> set js_whitespace) s @ t"
proof -
  have "dropWhile (\<lambda>c. c \<in> set js_whitespace) (rev (dropWhile (\<lambda>c. c \<in> set js_whitespace) s @ t))
      = rev (dropWhile (\<lambda>c. c \<in> set js_whitespace) s @ t)"
    using assms(1,3) by (cases t rule: rev_cases) simp_all
  then show ?thesis
    using dropWhile_tight [OF assms(1), of "\<lambda>c. c \<in> set js_whitespace"] assms(2) by (simp add: js_trim_def)
qed

lemma js_trim_id:
  "t \<noteq> [] \<Longrightarrow> hd t \<notin> set js_whitespace \<Longrightarrow> last t \<notin> set js_whitespace \<Longrightarrow> js_trim t = t"
  using js_trim_tight [of t "[]"] by simp

text \<open>The end of a normal form, from a plain end that starts with a word.\<close>

definition normal_end :: "string \<Rightarrow> string" where
  "normal_end t = collapse_space (map lower_char t)"

definition tight :: "string \<Rightarrow> bool" where
  "tight t \<longleftrightarrow> (case t of [] \<Rightarrow> False | c # _ \<Rightarrow> c \<notin> set js_whitespace \<and> last t \<notin> set js_whitespace)"

lemma tight_iff: "tight t \<longleftrightarrow> t \<noteq> [] \<and> hd t \<notin> set js_whitespace \<and> last t \<notin> set js_whitespace"
  by (cases t) (simp_all add: tight_def)

lemma normalize_text_end:
  assumes "nfkc_lawful env" and "plain t" and "tight (map lower_char t)" and "tight (normal_end t)"
  shows "\<exists>u. normalize_text env (s @ t) = u @ normal_end t"
proof -
  obtain c r where t: "map lower_char t = c # r" "c \<notin> set js_whitespace"
    using assms(3) by (cases "map lower_char t") (auto simp: tight_iff)
  have "collapse_space (map lower_char (se_nfkc env (s @ t)))
      = collapse_space (map lower_char (se_nfkc env s)) @ normal_end t"
    using t by (simp add: nfkc_end [OF assms(1,2)] collapse_space_append normal_end_def)
  then show ?thesis
    using assms(4) by (simp add: normalize_text_def tight_iff js_trim_tight)
qed

lemma normalize_text_start:
  assumes "nfkc_lawful env" and "plain t" and "t = c # s" and "lower_char c \<notin> set js_whitespace"
  shows "\<exists>u. normalize_text env t = lower_char c # u"
proof -
  obtain u where u: "collapse_space (map lower_char t) = lower_char c # u"
    using assms(3,4) by simp
  have "lower_char c \<in> set (rev u @ [lower_char c])" by simp
  then obtain v where "dropWhile (\<lambda>c. c \<in> set js_whitespace) (rev u @ [lower_char c]) = v @ [lower_char c]"
    using dropWhile_tight [of "[lower_char c]" "\<lambda>c. c \<in> set js_whitespace" "rev u"] assms(4) by simp
  then show ?thesis
    using u assms(4) by (simp add: normalize_text_def nfkc_plain [OF assms(1,2)] js_trim_def)
qed

section \<open>Allowed texts\<close>

definition allowed :: "semantic_env \<Rightarrow> string \<Rightarrow> bool" where
  "allowed env t \<longleftrightarrow> \<not> asks_about_identity_tooling_or_authorship env t
     \<and> \<not> contains_prompt_injection_directive env t"

lemma allowed_clean: "nfkc_lawful env \<Longrightarrow> plain t \<Longrightarrow> unforbidden t \<Longrightarrow> allowed env t"
  by (simp add: allowed_def unforbidden_safe nfkc_plain)

text \<open>A text with an anchor in it: the number of the anchor has one to three digits.\<close>

lemma fold_digits: "all_in ''0123456789'' t \<Longrightarrow> map fold_char t = replicate (length t) (CHR ''0'')"
proof (induction t)
  case (Cons c t)
  have "fold_char c = CHR ''0''"
    using Cons.prems by (auto simp: all_in_def fold_char_def)
  then show ?case using Cons by (simp add: all_in_def)
qed simp

lemma anchor_id_shape:
  assumes "context_anchor_id_ok i"
  shows "\<exists>t. i = CHR ''a'' # t \<and> all_in ''0123456789'' t \<and> length t \<in> {1, 2, 3}"
proof -
  obtain t where i: "i = CHR ''a'' # t"
    using assms by (cases i) (auto simp: context_anchor_id_ok_def starts_with_def)
  then show ?thesis
    using assms by (auto simp: context_anchor_id_ok_def length_in_def all_in_def)
qed

lemma plain_anchor_id: "context_anchor_id_ok i \<Longrightarrow> plain i"
proof -
  have "plain t" if "all_in ''0123456789'' t" for t
    using that by (induction t) (auto simp: all_in_def plain_def)
  moreover have "plain ''a''" by (simp add: plain_code)
  ultimately show "context_anchor_id_ok i \<Longrightarrow> plain i"
    using anchor_id_shape [of i] plain_append [of "''a''"] by force
qed

lemma clean_with_id:
  assumes "list_all (\<lambda>i. unforbidden (p @ i @ q)) [''a0'', ''a00'', ''a000'']" and "context_anchor_id_ok i"
  shows "unforbidden (p @ i @ q)"
proof -
  obtain t where i: "i = CHR ''a'' # t" "all_in ''0123456789'' t" "length t \<in> {1, 2, 3}"
    using anchor_id_shape [OF assms(2)] by blast
  have f: "map fold_char i = CHR ''a'' # replicate (length t) (CHR ''0'')"
    using i(1) fold_digits [OF i(2)] by (simp add: fold_char_def)
  then have "map fold_char i \<in> set [''a0'', ''a00'', ''a000'']"
    using i(3) by (auto simp: numeral_2_eq_2 numeral_3_eq_3)
  then have "unforbidden (p @ map fold_char i @ q)"
    using assms(1) unfolding list_all_iff by blast
  then show ?thesis by (simp add: unforbidden_def comp_def)
qed

section \<open>Proof questions\<close>

definition proof_prompt_ends :: "string list" where
  "proof_prompt_ends = [''is intended.'', ''by the change.'', ''recovery behavior.'', ''changed behavior.'',
     ''plausible alternative.'']"

lemma below_five: "k < 5 \<Longrightarrow> k = 0 \<or> k = 1 \<or> k = 2 \<or> k = 3 \<or> k = (4::nat)"
  by arith

lemma prompt_ends_facts:
  assumes "k < 5"
  shows "plain (proof_prompt_ends ! k)" and "tight (map lower_char (proof_prompt_ends ! k))"
    and "tight (normal_end (proof_prompt_ends ! k))"
    and "\<exists>u. fallback_prompt_ends ! k = u @ proof_prompt_ends ! k"
    and "length (fallback_prompt_ends ! k) \<in> {1..100}" and "last (fallback_prompt_ends ! k) = CHR ''.''"
proof -
  show "plain (proof_prompt_ends ! k)"
    using below_five [OF assms] by (auto simp: proof_prompt_ends_def plain_code)
  have "list_all (\<lambda>t. tight (map lower_char t) \<and> tight (normal_end t)) proof_prompt_ends"
    by code_simp
  then show "tight (map lower_char (proof_prompt_ends ! k))" "tight (normal_end (proof_prompt_ends ! k))"
    using assms by (simp_all add: list_all_length proof_prompt_ends_def)
  show "length (fallback_prompt_ends ! k) \<in> {1..100}" "last (fallback_prompt_ends ! k) = CHR ''.''"
    using below_five [OF assms] by (auto simp: fallback_prompt_ends_def)
  show "\<exists>u. fallback_prompt_ends ! k = u @ proof_prompt_ends ! k"
    using below_five [OF assms] by (auto simp: fallback_prompt_ends_def proof_prompt_ends_def)
qed

lemma distinct_normal_ends: "distinct (map (\<lambda>k. take 11 (rev (normal_end (proof_prompt_ends ! k)))) [0..<5])
    \<and> list_all (\<lambda>k. 11 \<le> length (normal_end (proof_prompt_ends ! k))) [0..<5]"
  by code_simp

lemma prompts_differ:
  assumes "nfkc_lawful env"
  shows "distinct (map (\<lambda>k. normalize_text env (u k @ fallback_prompt_ends ! k)) [0..<5])"
proof -
  define e where "e k = take 11 (rev (normal_end (proof_prompt_ends ! k)))" for k
  have last_part: "take 11 (rev (normalize_text env (u k @ fallback_prompt_ends ! k))) = e k" if k: "k < 5" for k
  proof -
    note F = prompt_ends_facts [OF k]
    obtain v where v: "fallback_prompt_ends ! k = v @ proof_prompt_ends ! k" using F(4) by blast
    obtain w where "normalize_text env ((u k @ v) @ proof_prompt_ends ! k) = w @ normal_end (proof_prompt_ends ! k)"
      using normalize_text_end [OF assms F(1-3)] by blast
    moreover have "11 \<le> length (normal_end (proof_prompt_ends ! k))"
      using distinct_normal_ends k by (simp add: list_all_iff)
    ultimately show ?thesis by (simp add: v e_def)
  qed
  have "map (take 11 \<circ> rev) (map (\<lambda>k. normalize_text env (u k @ fallback_prompt_ends ! k)) [0..<5]) = map e [0..<5]"
    unfolding map_map by (rule map_cong) (simp_all add: last_part)
  moreover have "distinct (map e [0..<5])"
    using distinct_normal_ends unfolding e_def by blast
  ultimately show ?thesis by (metis distinct_map)
qed

lemma fallback_prompt_shape:
  assumes "k < 5" and "patch_reference_ok r" and "length (se_ellipsis env) = 1"
  shows "length_in 20 1000 (fallback_prompt env k r)" and "js_trim (fallback_prompt env k r) = fallback_prompt env k r"
proof -
  have "length (bounded_display_path_of env (sr_file r)) \<le> 240"
    using assms(3) by (simp add: bounded_display_path_of_def)
  moreover have "1 \<le> length (string_of_int (sr_newStart r)) \<and> length (string_of_int (sr_newStart r)) \<le> 16"
    using assms(2) safe_integer_length by (simp add: patch_reference_ok_def)
  ultimately show "length_in 20 1000 (fallback_prompt env k r)"
    using prompt_ends_facts(5) [OF assms(1)] by (simp add: fallback_prompt_def length_in_def)
  have "fallback_prompt_ends ! k \<noteq> []"
    using prompt_ends_facts(5) [OF assms(1)] by auto
  then have "last (fallback_prompt env k r) = CHR ''.''"
    using prompt_ends_facts(6) [OF assms(1)] by (simp add: fallback_prompt_def)
  moreover have "hd (fallback_prompt env k r) = CHR ''A''" "fallback_prompt env k r \<noteq> []"
    by (simp_all add: fallback_prompt_def)
  ultimately show "js_trim (fallback_prompt env k r) = fallback_prompt env k r"
    by (simp add: js_trim_id js_whitespace_def)
qed

text \<open>The texts of a rubric, with the anchor between two parts.\<close>

definition rubric_texts :: "(string \<times> string) list" where
  "rubric_texts = [(''Identifies the concrete behavior represented by anchor '', ''.''),
     (''A generic answer would not account for the concrete change at anchor '', ''.''),
     (''behavior at '', [])]"

definition fixed_rubric_texts :: "string list" where
  "fixed_rubric_texts = [''Explains an observable consequence and a relevant boundary or failure case.'',
     ''The explanation distinguishes removed behavior from added behavior.'']"

lemma rubric_texts_clean:
  "list_all (\<lambda>(p, q). list_all (\<lambda>i. unforbidden (p @ i @ q)) [''a0'', ''a00'', ''a000'']) rubric_texts"
  "list_all unforbidden fixed_rubric_texts"
  by code_simp+

lemma rubric_texts_plain: "list_all (\<lambda>(p, q). plain p \<and> plain q) rubric_texts" "list_all plain fixed_rubric_texts"
  by (simp_all add: rubric_texts_def fixed_rubric_texts_def plain_code)

lemma rubric_text_allowed:
  assumes "nfkc_lawful env"
  shows "(p, q) \<in> set rubric_texts \<Longrightarrow> context_anchor_id_ok i \<Longrightarrow> allowed env (p @ i @ q)"
    and "t \<in> set fixed_rubric_texts \<Longrightarrow> allowed env t"
proof -
  assume m: "(p, q) \<in> set rubric_texts" and i: "context_anchor_id_ok i"
  have "plain (p @ i @ q)"
    using rubric_texts_plain(1) m plain_anchor_id [OF i] unfolding list_all_iff by fastforce
  moreover have "unforbidden (p @ i @ q)"
    using rubric_texts_clean(1) m unfolding list_all_iff [of _ rubric_texts]
    by (intro clean_with_id [OF _ i]) fastforce
  ultimately show "allowed env (p @ i @ q)" by (rule allowed_clean [OF assms])
next
  assume "t \<in> set fixed_rubric_texts"
  then show "allowed env t"
    using rubric_texts_clean(2) rubric_texts_plain(2) allowed_clean [OF assms] unfolding list_all_iff by blast
qed

lemma anchor_id_ends:
  assumes "context_anchor_id_ok i"
  shows "1 \<le> length i" "length i \<le> 4" "i \<noteq> []" "hd i = CHR ''a''" "last i \<in> set ''0123456789''"
proof -
  obtain t where t: "i = CHR ''a'' # t" "all_in ''0123456789'' t" "length t \<in> {1, 2, 3}"
    using anchor_id_shape [OF assms] by blast
  then show "1 \<le> length i" "length i \<le> 4" "i \<noteq> []" "hd i = CHR ''a''" by auto
  have "t \<noteq> []" using t(3) by auto
  then have l: "last t \<in> set t" "last i = last t" using t(1) by simp_all
  show "last i \<in> set ''0123456789''"
    using t(2) l(1) unfolding all_in_def list_all_iff l(2) by blast
qed

end
