(* ===== verification/Fallback_Life.thy ===== *)
theory Fallback_Life
  imports Fallback_Text
begin

text \<open>
  When the deterministic learning material and proof questions are accepted for a context that was
  built by \<open>build_generation_context\<close>: the learning material always is, the proof questions exactly
  when the file names in their prompts make none of them a forbidden text.
\<close>

section \<open>One proof question\<close>

lemma fallback_rubric_items:
  "rubric_items (pq2_rubric (fallback_question_of env k i r)) = map (fallback_rubric_statement i r)
     [''Identifies the concrete behavior represented by anchor '' @ i @ ''.'',
      ''Explains an observable consequence and a relevant boundary or failure case.'',
      ''The explanation distinguishes removed behavior from added behavior.'',
      ''A generic answer would not account for the concrete change at anchor '' @ i @ ''.'']"
  by (simp add: rubric_items_def fallback_question_of_def)

lemma fallback_texts_allowed:
  assumes "nfkc_lawful env" and "context_anchor_id_ok i"
  shows "list_all (allowed env) (map rb_description (rubric_items (pq2_rubric (fallback_question_of env k i r))))"
    and "allowed env (''behavior at '' @ i)"
proof -
  note A = rubric_text_allowed [OF assms(1)]
  show "list_all (allowed env) (map rb_description (rubric_items (pq2_rubric (fallback_question_of env k i r))))"
    using A(1) [of "''Identifies the concrete behavior represented by anchor ''" "''.''" i]
      A(1) [of "''A generic answer would not account for the concrete change at anchor ''" "''.''" i]
      A(2) assms(2)
    by (simp add: fallback_rubric_items fallback_rubric_statement_def rubric_texts_def fixed_rubric_texts_def)
  show "allowed env (''behavior at '' @ i)"
    using A(1) [of "''behavior at ''" "[]" i] assms(2) by (simp add: rubric_texts_def)
qed

lemma fallback_texts_tight:
  assumes "context_anchor_id_ok i"
  shows "list_all (\<lambda>t. js_trim t = t \<and> length_in 8 300 t)
      (map rb_description (rubric_items (pq2_rubric (fallback_question_of env k i r))))"
    and "js_trim (''behavior at '' @ i) = ''behavior at '' @ i" and "length_in 3 120 (''behavior at '' @ i)"
proof -
  note I = anchor_id_ends [OF assms]
  show "list_all (\<lambda>t. js_trim t = t \<and> length_in 8 300 t)
      (map rb_description (rubric_items (pq2_rubric (fallback_question_of env k i r))))"
    using I(1,2) by (simp add: fallback_rubric_items fallback_rubric_statement_def length_in_def js_trim_id js_whitespace_def)
  have "last (''behavior at '' @ i) \<notin> set js_whitespace"
    using I(3,5) by (auto simp: js_whitespace_def)
  then show "js_trim (''behavior at '' @ i) = ''behavior at '' @ i"
    by (intro js_trim_id) (simp_all add: js_whitespace_def)
  show "length_in 3 120 (''behavior at '' @ i)"
    using I(1,2) by (simp add: length_in_def)
qed

lemma single_anchor:
  "context_anchor_id_ok i \<Longrightarrow> patch_reference_ok r \<Longrightarrow> sr_anchorId r = i \<Longrightarrow> single_anchor_ok [i] [r]"
  by (simp add: single_anchor_ok_def declared_references_ok_def)

lemma fallback_points_distinct:
  assumes "nfkc_lawful env" and "context_anchor_id_ok i"
  shows "normalize_text env (''Identifies the concrete behavior represented by anchor '' @ i @ ''.'')
    \<noteq> normalize_text env ''Explains an observable consequence and a relevant boundary or failure case.''"
proof -
  have p: "plain (''Identifies the concrete behavior represented by anchor '' @ i @ ''.'')"
    "plain ''Explains an observable consequence and a relevant boundary or failure case.''"
    using plain_anchor_id [OF assms(2)] by (simp_all add: plain_code)
  have l: "lower_char CHR ''I'' = CHR ''i''" "lower_char CHR ''E'' = CHR ''e''" by code_simp+
  show ?thesis
    using normalize_text_start [OF assms(1) p(1)] normalize_text_start [OF assms(1) p(2)] l
    by (auto simp: js_whitespace_def)
qed

lemma trim_fallback_question:
  assumes "context_anchor_id_ok i" and "js_trim (fallback_prompt env k r) = fallback_prompt env k r"
  shows "trim_proof (fallback_question_of env k i r) = fallback_question_of env k i r"
proof -
  have "trim_rubric (pq2_rubric (fallback_question_of env k i r)) = pq2_rubric (fallback_question_of env k i r)"
    using fallback_texts_tight(1) [OF assms(1), of env k r]
    by (simp add: fallback_rubric_items) (simp add: trim_rubric_def trim_rubric_statement_def fallback_question_of_def
        fallback_rubric_statement_def)
  then show ?thesis
    using fallback_texts_tight(2) [OF assms(1)] assms(2)
    by (simp add: trim_proof_def) (simp add: fallback_question_of_def)
qed

lemma fallback_rubric_ok:
  assumes "nfkc_lawful env" and "context_anchor_id_ok i" and "patch_reference_ok r" and "sr_anchorId r = i"
  shows "proof_rubric_ok env (pq2_rubric (fallback_question_of env k i r))"
proof -
  let ?R = "pq2_rubric (fallback_question_of env k i r)"
  have "rubric_statement_ok env x" if x: "x \<in> set (rubric_items ?R)" for x
  proof -
    have "allowed env (rb_description x)" "length_in 8 300 (rb_description x)"
      using fallback_texts_allowed(1) [OF assms(1,2), of k r] fallback_texts_tight(1) [OF assms(2), of env k r] x
      by (simp_all add: list_all_iff)
    moreover have "rb_anchorIds x = [i]" "rb_patchReferences x = [r]"
      using x by (auto simp: fallback_rubric_items fallback_rubric_statement_def)
    ultimately show ?thesis
      using single_anchor [OF assms(2-4)] by (simp add: rubric_statement_ok_def generated_text_ok_def allowed_def)
  qed
  moreover have "count_in 2 5 (pb_requiredPoints ?R)" "count_in 1 5 (pb_observableSignals ?R)"
    by (simp_all add: fallback_question_of_def count_in_def)
  moreover have "map (\<lambda>p. normalize_text env (rb_description p)) (pb_requiredPoints ?R)
      = [normalize_text env (''Identifies the concrete behavior represented by anchor '' @ i @ ''.''),
         normalize_text env ''Explains an observable consequence and a relevant boundary or failure case.'']"
    by (simp add: fallback_question_of_def fallback_rubric_statement_def)
  ultimately show ?thesis
    using fallback_points_distinct [OF assms(1,2)] unfolding proof_rubric_ok_def list_all_iff Let_def
    by (simp add: card_insert_if)
qed

lemma fallback_question_ok:
  assumes "nfkc_lawful env" and "length (se_ellipsis env) = 1" and "k < 5"
    and "context_anchor_id_ok i" and "patch_reference_ok r" and "sr_anchorId r = i"
  shows "proof_candidate_ok env (fallback_question_of env k i r) \<longleftrightarrow> allowed env (fallback_prompt env k r)"
proof -
  let ?q = "fallback_question_of env k i r"
  have fields: "pq2_focus ?q = ''behavior at '' @ i" "pq2_prompt ?q = fallback_prompt env k r"
    "pq2_anchorIds ?q = [i]" "pq2_patchReferences ?q = [r]" "pq2_intent ?q \<in> set proof_intents"
    using below_five [OF assms(3)] by (auto simp: fallback_question_of_def fallback_intents_def proof_intents_def)
  have items: "\<not> list_ex (\<lambda>x. hd (rb_anchorIds x) \<noteq> hd (pq2_anchorIds ?q)
      \<or> hd (rb_patchReferences x) \<noteq> hd (pq2_patchReferences ?q)) (rubric_items (pq2_rubric ?q))"
    by (simp add: fields fallback_rubric_items fallback_rubric_statement_def)
  have asks: "list_ex (asks_about_identity_tooling_or_authorship env)
        (pq2_focus ?q # pq2_prompt ?q # map rb_description (rubric_items (pq2_rubric ?q)))
      \<longleftrightarrow> asks_about_identity_tooling_or_authorship env (fallback_prompt env k r)"
    using fallback_texts_allowed [OF assms(1,4)] unfolding fields
    by (auto simp: allowed_def list_all_iff list_ex_iff)
  show ?thesis
    using items asks fallback_rubric_ok [OF assms(1,4-6)] single_anchor [OF assms(4-6)]
      fallback_texts_allowed(2) [OF assms(1,4)] fallback_texts_tight(3) [OF assms(4)]
      fallback_prompt_shape(1) [OF assms(3,5,2)]
    unfolding proof_candidate_ok_def by (auto simp: fields generated_text_ok_def allowed_def)
qed

section \<open>References into a built context\<close>

definition reference_to :: "context_anchor \<Rightarrow> patch_reference" where
  "reference_to a = \<lparr>sr_anchorId = xa_id a, sr_file = ud_content (xa_filename a),
     sr_oldStart = xa_oldStart a, sr_newStart = xa_newStart a\<rparr>"

definition references_available :: "generation_context \<Rightarrow> bool" where
  "references_available c \<longleftrightarrow> list_all (\<lambda>a. patch_reference_ok (reference_to a)) (pm_anchors c)"

lemma built_references_available:
  assumes "build_generation_context env i = Inr c"
  shows "references_available c"
proof -
  have ok: "generation_context_ok env c" and bok: "bounded_source_ok (ci_boundedSource i)"
    using assms by (auto elim!: build_contextE simp: context_input_ok_def)
  have "patch_reference_ok (reference_to a)" if a: "a \<in> set (pm_anchors c)" for a
  proof -
    obtain x where x: "x \<in> set (pm_files c)" "ud_content (xf_filename x) = ud_content (xa_filename a)"
      using context_anchorsD(3) [OF ok a] by blast
    obtain f where f: "f \<in> set (bs_files (ci_boundedSource i))" "bf_kind f = Bounded_text"
      "xf_filename x = untrusted ''pull_request_filename'' (bf_path f)"
      using context_files_member [OF x(1) [unfolded build_context_fields(1) [OF assms]]] by blast
    have shape: "bounded_file_shape_ok f" and refined: "bounded_file_refined f"
      using bok f(1) by (simp_all add: bounded_source_ok_def list_all_iff)
    have "\<not> is_non_semantic_bounded_text_file f"
      using refined f(2) by (simp add: bounded_file_refined_def Let_def)
    then have "\<not> is_unusual_source_path (bf_path f)"
      unfolding is_non_semantic_bounded_text_file_def by blast
    then have "\<forall>c\<in>set (bf_path f). \<not> (of_char c :: nat) \<le> 31"
      unfolding is_unusual_source_path_def list_ex_iff Let_def by blast
    then have "CHR 0x00 \<notin> set (bf_path f)"
      by fastforce
    moreover have "length_in 1 1024 (bf_path f)"
      using shape by (simp add: bounded_file_shape_ok_def)
    moreover have "context_anchor_ok a"
      using ok a by (simp add: generation_context_ok_def context_base_ok_def provider_material_ok_def list_all_iff)
    moreover have "ud_content (xa_filename a) = bf_path f"
      using x(2) f(3) by (simp add: untrusted_def)
    ultimately show ?thesis
      by (simp add: patch_reference_ok_def reference_to_def context_anchor_ok_def)
  qed
  then show ?thesis by (simp add: references_available_def list_all_iff)
qed

lemma distinct_find_rev:
  "distinct (map f xs) \<Longrightarrow> x \<in> set xs \<Longrightarrow> find (\<lambda>y. f y = f x) (rev xs) = Some x"
  using distinct_find [of f "rev xs" x] by (simp add: rev_map [symmetric])

lemma allowed_ids:
  assumes "generation_context_ok env c"
  shows "set (pm_allowedAnchorIds c) = xa_id ` set (pm_anchors c)"
proof -
  have "sort_ids (map xa_id (pm_anchors c)) = sort_ids (pm_allowedAnchorIds c)"
    using assms by (simp add: generation_context_ok_def context_anchors_ok_def Let_def)
  then have "set (map xa_id (pm_anchors c)) = set (pm_allowedAnchorIds c)"
    by (rule mset_eq_setD [OF same_sorted_ids])
  then show ?thesis by simp
qed

text \<open>The reference of an allowed anchor.\<close>

definition anchor_reference :: "generation_context \<Rightarrow> string \<Rightarrow> patch_reference" where
  "anchor_reference c i = (case find (\<lambda>a. xa_id a = i) (pm_anchors c) of Some a \<Rightarrow> reference_to a
     | None \<Rightarrow> \<lparr>sr_anchorId = i, sr_file = [], sr_oldStart = 0, sr_newStart = 0\<rparr>)"

lemma allowed_reference:
  assumes "generation_context_ok env c" and "references_available c" and "i \<in> set (pm_allowedAnchorIds c)"
  shows "patch_reference_of c i = Inr (anchor_reference c i)" and "patch_reference_ok (anchor_reference c i)"
    and "sr_anchorId (anchor_reference c i) = i" and "context_anchor_id_ok i"
    and "anchored [i] [anchor_reference c i] c"
proof -
  obtain a where a: "a \<in> set (pm_anchors c)" "xa_id a = i"
    using assms(3) allowed_ids [OF assms(1)] by auto
  note D = context_anchorsD(1) [OF assms(1)]
  have f: "find (\<lambda>a. xa_id a = i) (pm_anchors c) = Some a" "find (\<lambda>a. xa_id a = i) (rev (pm_anchors c)) = Some a"
    using distinct_find [OF D a(1)] distinct_find_rev [OF D a(1)] a(2) by simp_all
  have r: "anchor_reference c i = reference_to a"
    by (simp add: anchor_reference_def f(1))
  show ok: "patch_reference_ok (anchor_reference c i)"
    using assms(2) a(1) by (simp add: r references_available_def list_all_iff)
  then show "patch_reference_of c i = Inr (anchor_reference c i)"
    by (simp add: patch_reference_of_def f(1) r) (simp add: reference_to_def)
  show "sr_anchorId (anchor_reference c i) = i"
    by (simp add: r reference_to_def a(2))
  then show "context_anchor_id_ok i"
    using ok by (simp add: patch_reference_ok_def)
  show "anchored [i] [anchor_reference c i] c"
    using f(2) a(2) assms(3) by (simp add: anchored_def r reference_to_def)
qed

section \<open>The proof fallback\<close>

definition anchor_at :: "generation_context \<Rightarrow> nat \<Rightarrow> string" where
  "anchor_at c k = pm_allowedAnchorIds c ! (k mod length (pm_allowedAnchorIds c))"

definition question_at :: "semantic_env \<Rightarrow> generation_context \<Rightarrow> nat \<Rightarrow> proof_candidate" where
  "question_at env c k = fallback_question_of env k (anchor_at c k) (anchor_reference c (anchor_at c k))"

lemma anchor_at_allowed: "pm_allowedAnchorIds c \<noteq> [] \<Longrightarrow> anchor_at c k \<in> set (pm_allowedAnchorIds c)"
  by (simp add: anchor_at_def)

lemma fallback_questions_made:
  assumes "generation_context_ok e c" and "references_available c" and "pm_allowedAnchorIds c \<noteq> []" and "n \<le> 5"
  shows "map_result (fallback_proof_question env c) [0..<n] = Inr (map (question_at env c) [0..<n])"
proof (rule map_result_map)
  fix k assume "k \<in> set [0..<n]"
  then have "k < length fallback_intents" using assms(4) by (simp add: fallback_intents_def)
  then show "fallback_proof_question env c k = Inr (question_at env c k)"
    using allowed_reference(1) [OF assms(1,2) anchor_at_allowed [OF assms(3)]]
    by (simp add: fallback_proof_question_def question_at_def anchor_at_def Let_def)
qed

lemma distinct_initial: "distinct (map f [0..<m]) \<Longrightarrow> n \<le> m \<Longrightarrow> distinct (map f [0..<n])"
  by (auto simp: distinct_map intro: inj_on_subset)

lemma question_prompts_distinct:
  assumes "nfkc_lawful env" and "n \<le> 5"
  shows "distinct (map (\<lambda>q. normalize_text env (pq2_prompt q)) (map (question_at env c) [0..<n]))"
proof -
  define u where "u k = ''At '' @ bounded_display_path_of env (sr_file (anchor_reference c (anchor_at c k))) @ '' near new line ''
     @ string_of_int (sr_newStart (anchor_reference c (anchor_at c k)))" for k
  have "pq2_prompt (question_at env c k) = u k @ fallback_prompt_ends ! k" for k
    by (simp add: question_at_def fallback_question_of_def fallback_prompt_def u_def)
  then show ?thesis
    using distinct_initial [OF prompts_differ [OF assms(1), of u] assms(2)] by (simp add: comp_def)
qed

lemma question_anchored:
  assumes "generation_context_ok e c" and "references_available c" and "pm_allowedAnchorIds c \<noteq> []"
  shows "list_all (\<lambda>(is, rs). anchored is rs c) (question_statements (question_at env c k))"
  using allowed_reference(5) [OF assms(1,2) anchor_at_allowed [OF assms(3)], of k]
  by (simp add: question_statements_def question_at_def fallback_rubric_items)
    (simp add: fallback_question_of_def fallback_rubric_statement_def)

lemma question_at_facts:
  assumes "nfkc_lawful env" and "length (se_ellipsis env) = 1" and "generation_context_ok e c"
    and "references_available c" and "pm_allowedAnchorIds c \<noteq> []" and "k < 5"
  shows "trim_proof (question_at env c k) = question_at env c k"
    and "proof_candidate_ok env (question_at env c k) \<longleftrightarrow> allowed env (pq2_prompt (question_at env c k))"
proof -
  note R = allowed_reference [OF assms(3,4) anchor_at_allowed [OF assms(5), of k]]
  show "trim_proof (question_at env c k) = question_at env c k"
    using trim_fallback_question [OF R(4) fallback_prompt_shape(2) [OF assms(6) R(2) assms(2)]]
    by (simp add: question_at_def)
  have "pq2_prompt (question_at env c k) = fallback_prompt env k (anchor_reference c (anchor_at c k))"
    by (simp add: question_at_def fallback_question_of_def)
  then show "proof_candidate_ok env (question_at env c k) \<longleftrightarrow> allowed env (pq2_prompt (question_at env c k))"
    using fallback_question_ok [OF assms(1,2,6) R(4,2,3)] by (simp add: question_at_def)
qed

lemma fallback_questions_validated:
  assumes "nfkc_lawful env" and "length (se_ellipsis env) = 1" and "generation_context_ok (se_context env) c"
    and "references_available c" and "pm_allowedAnchorIds c \<noteq> []" and "1 \<le> n" and "n \<le> 5"
  shows "validate_proof_question_candidates env (map (question_at env c) [0..<nat n]) c n
    = (if list_all (\<lambda>k. allowed env (pq2_prompt (question_at env c k))) [0..<nat n]
       then Inr (map (question_at env c) [0..<nat n]) else Inl Schema_invalid)"
proof -
  have n: "nat n \<le> 5" "1 \<le> nat n" using assms(6,7) by auto
  note Q = question_at_facts [OF assms(1-5)]
  let ?qs = "map (question_at env c) [0..<nat n]"
  have trim: "map trim_proof ?qs = ?qs"
    using Q(1) n by simp
  have good: "list_all (proof_candidate_ok env) ?qs
      \<longleftrightarrow> list_all (\<lambda>k. allowed env (pq2_prompt (question_at env c k))) [0..<nat n]"
    using Q(2) n by (auto simp: list_all_iff)
  have "card (set (map (\<lambda>q. normalize_text env (pq2_prompt q)) ?qs)) = length ?qs"
    using distinct_card [OF question_prompts_distinct [OF assms(1) n(1), of c]] by simp
  moreover have "assert_known_concrete_anchors (concat (map question_statements ?qs)) c = Inr ()"
    using question_anchored [OF assms(3-5)]
    by (auto simp: assert_known_concrete_anchors_def list_all_iff)
  ultimately show ?thesis
    using assms(3,6) n unfolding validate_proof_question_candidates_def Let_def trim good
    by (simp add: count_in_def del: map_map)
qed

text \<open>C24: for a built context with an anchor, the proof fallback of one to five questions fails only
  with the schema error, and exactly when a prompt it composes, which names a file of the patch, is
  a forbidden text; otherwise it is the fixed questions about the anchors in turn, all accepted.\<close>

theorem proof_fallback_returns_iff:
  assumes "build_generation_context (se_context env) input = Inr c" and "nfkc_lawful env"
    and "length (se_ellipsis env) = 1"
  shows "deterministic_proof_fallback env c n =
    (if 1 \<le> n \<and> n \<le> 5 \<and> pm_allowedAnchorIds c \<noteq> []
        \<and> list_all (\<lambda>k. allowed env (pq2_prompt (question_at env c k))) [0..<nat n]
     then Inr (map (question_at env c) [0..<nat n]) else Inl Schema_invalid)"
proof (cases "1 \<le> n \<and> n \<le> 5 \<and> pm_allowedAnchorIds c \<noteq> []")
  case True
  have ok: "generation_context_ok (se_context env) c"
    using assms(1) by (elim build_contextE)
  have av: "references_available c"
    by (rule built_references_available [OF assms(1)])
  have "nat n \<le> 5" using True by auto
  then show ?thesis
    using True ok fallback_questions_made [OF ok av _, of "nat n" env]
      fallback_questions_validated [OF assms(2,3) ok av, of n]
    by (simp add: deterministic_proof_fallback_def)
next
  case False
  then show ?thesis by (auto simp: deterministic_proof_fallback_def)
qed

section \<open>The learning fallback\<close>

definition learning_fixed_texts :: "string list" where
  "learning_fixed_texts = [
     ''Understand the observable behavior changed by the bounded patch before proving it.'',
     ''Map this changed hunk to the component responsibility it modifies.'',
     ''Compare removed and added lines to identify the concrete behavior change.'',
     ''Trace the nearest caller or consumer affected by this changed hunk.'',
     ''Check the boundary and failure behavior introduced by this changed hunk.'',
     ''No changed test file is present for the behavior at this changed hunk.'',
     ''Confirm the changed tests cover a boundary and failure case for this changed hunk.'',
     ''Exercise the normal path and one failing boundary at this changed hunk.'',
     ''Use a regression in the observable behavior at this changed hunk as a rollback signal.'']"

lemma learning_texts_facts:
  "list_all unforbidden (learning_fixed_texts @ practice_prompts)"
  "list_all plain (learning_fixed_texts @ practice_prompts)"
  "list_all (\<lambda>t. js_trim t = t \<and> length_in 20 700 t) (learning_fixed_texts @ practice_prompts)"
proof -
  show "list_all unforbidden (learning_fixed_texts @ practice_prompts)" by code_simp
  show "list_all plain (learning_fixed_texts @ practice_prompts)"
    by (simp add: learning_fixed_texts_def practice_prompts_def plain_code)
  show "list_all (\<lambda>t. js_trim t = t \<and> length_in 20 700 t) (learning_fixed_texts @ practice_prompts)"
    by (simp add: learning_fixed_texts_def practice_prompts_def js_trim_id js_whitespace_def length_in_def)
qed

lemma learning_text_ok:
  assumes "nfkc_lawful env" and "t \<in> set (learning_fixed_texts @ practice_prompts)"
  shows "allowed env t" and "js_trim t = t" and "length_in 20 700 t"
proof -
  have "unforbidden t" "plain t" and t: "js_trim t = t" "length_in 20 700 t"
    using learning_texts_facts assms(2) unfolding list_all_iff by blast+
  then show "allowed env t" "js_trim t = t" "length_in 20 700 t"
    using allowed_clean [OF assms(1)] by blast+
qed

lemma one_reference:
  assumes "generation_context_ok e c" and "references_available c" and "i \<in> set (pm_allowedAnchorIds c)"
  shows "anchor_ids_ok [i]" and "references_ok [anchor_reference c i]"
    and "declared_references_ok [i] [anchor_reference c i]"
  using allowed_reference(2-4) [OF assms]
  by (simp_all add: anchor_ids_ok_def references_ok_def declared_references_ok_def)

definition fixed_statement :: "generation_context \<Rightarrow> string \<Rightarrow> string \<Rightarrow> learning_statement" where
  "fixed_statement c i t = \<lparr>ls_text = t, ls_anchorIds = [i], ls_patchReferences = [anchor_reference c i]\<rparr>"

definition fixed_practice :: "generation_context \<Rightarrow> nat \<Rightarrow> practice_candidate" where
  "fixed_practice c k = \<lparr>pc_focus = fallback_focuses ! k, pc_prompt = practice_prompts ! k,
     pc_anchorIds = [anchor_at c k], pc_patchReferences = [anchor_reference c (anchor_at c k)]\<rparr>"

lemma fixed_statement_facts:
  assumes "generation_context_ok e c" and "references_available c" and "i \<in> set (pm_allowedAnchorIds c)"
    and "nfkc_lawful env" and "t \<in> set learning_fixed_texts"
  shows "fallback_statement c i t = Inr (fixed_statement c i t)" and "statement_ok env (fixed_statement c i t)"
    and "trim_statement (fixed_statement c i t) = fixed_statement c i t"
    and "anchored (ls_anchorIds (fixed_statement c i t)) (ls_patchReferences (fixed_statement c i t)) c"
proof -
  have t: "allowed env t" "js_trim t = t" "length_in 20 700 t"
    using learning_text_ok [OF assms(4)] assms(5) by auto
  then show "statement_ok env (fixed_statement c i t)"
    using one_reference [OF assms(1-3)]
    by (simp add: statement_ok_def fixed_statement_def generated_text_ok_def allowed_def length_in_def)
  show "trim_statement (fixed_statement c i t) = fixed_statement c i t"
    by (simp add: trim_statement_def fixed_statement_def t(2))
  show "fallback_statement c i t = Inr (fixed_statement c i t)"
    "anchored (ls_anchorIds (fixed_statement c i t)) (ls_patchReferences (fixed_statement c i t)) c"
    using allowed_reference(1,5) [OF assms(1-3)] by (simp_all add: fallback_statement_def fixed_statement_def)
qed

lemma fixed_practice_facts:
  assumes "generation_context_ok e c" and "references_available c" and "pm_allowedAnchorIds c \<noteq> []"
    and "nfkc_lawful env" and "k < 5"
  shows "fallback_practice_question c k = Inr (fixed_practice c k)" and "practice_candidate_ok env (fixed_practice c k)"
    and "trim_practice (fixed_practice c k) = fixed_practice c k"
    and "anchored (pc_anchorIds (fixed_practice c k)) (pc_patchReferences (fixed_practice c k)) c"
proof -
  note i = anchor_at_allowed [OF assms(3), of k]
  have len: "k < length practice_prompts" using assms(5) by (simp add: practice_prompts_def)
  then have t: "allowed env (practice_prompts ! k)" "js_trim (practice_prompts ! k) = practice_prompts ! k"
    "length_in 20 700 (practice_prompts ! k)"
    using learning_text_ok [OF assms(4), of "practice_prompts ! k"] nth_mem by auto
  have "fallback_focuses ! k \<in> set practice_focuses"
    using below_five [OF assms(5)] by (auto simp: fallback_focuses_def practice_focuses_def)
  then show "practice_candidate_ok env (fixed_practice c k)"
    using one_reference [OF assms(1,2) i] t
    by (simp add: practice_candidate_ok_def fixed_practice_def generated_text_ok_def allowed_def)
  show "trim_practice (fixed_practice c k) = fixed_practice c k"
    by (simp add: trim_practice_def fixed_practice_def t(2))
  show "fallback_practice_question c k = Inr (fixed_practice c k)"
    using len allowed_reference(1) [OF assms(1,2) i]
    by (simp add: fallback_practice_question_def fixed_practice_def anchor_at_def Let_def)
  show "anchored (pc_anchorIds (fixed_practice c k)) (pc_patchReferences (fixed_practice c k)) c"
    using allowed_reference(5) [OF assms(1,2) i] by (simp add: fixed_practice_def)
qed

lemma practice_prompts_distinct:
  assumes "nfkc_lawful env"
  shows "distinct (map (normalize_text env) practice_prompts)"
proof -
  have p: "list_all plain practice_prompts"
    using learning_texts_facts(2) by simp
  have l: "list_all (\<lambda>t. lower_char (hd t) \<notin> set js_whitespace) practice_prompts
      \<and> distinct (map (\<lambda>t. lower_char (hd t)) practice_prompts)"
    by code_simp
  have "hd (normalize_text env t) = lower_char (hd t)" if t: "t \<in> set practice_prompts" for t
  proof -
    have "t \<noteq> []" using t by (auto simp: practice_prompts_def)
    then obtain c s where cs: "t = c # s" by (cases t) auto
    have "plain t" "lower_char c \<notin> set js_whitespace"
      using p l t cs by (auto simp: list_all_iff)
    then show ?thesis
      using normalize_text_start [OF assms _ cs] cs by auto
  qed
  then have "map hd (map (normalize_text env) practice_prompts) = map (\<lambda>t. lower_char (hd t)) practice_prompts"
    by simp
  then show ?thesis
    using l by (metis distinct_map)
qed

definition fixed_learning :: "generation_context \<Rightarrow> nat \<Rightarrow> learning_candidate" where
  "fixed_learning c n =
     (let s = fixed_statement c (hd (pm_allowedAnchorIds c)) in
      \<lparr>lc_patchIntent = s (learning_fixed_texts ! 0),
       lc_changedAreas = map (\<lambda>i. fixed_statement c i (learning_fixed_texts ! 1)) (take 12 (pm_allowedAnchorIds c)),
       lc_behaviors = [s (learning_fixed_texts ! 2)], lc_interfaces = [s (learning_fixed_texts ! 3)],
       lc_risks = [s (learning_fixed_texts ! 4)],
       lc_testGaps = [s (learning_fixed_texts ! (if pm_deterministicTestFiles c = [] then 5 else 6))],
       lc_testIdeas = [s (learning_fixed_texts ! 7)], lc_rollbackSignals = [s (learning_fixed_texts ! 8)],
       lc_practiceQuestions = map (fixed_practice c) [0..<n]\<rparr>)"

lemma fixed_learning_statements:
  assumes "pm_allowedAnchorIds c \<noteq> []" and "x \<in> set (learning_statements (fixed_learning c n))"
  shows "\<exists>i t. i \<in> set (pm_allowedAnchorIds c) \<and> t \<in> set learning_fixed_texts \<and> x = fixed_statement c i t"
proof -
  have t: "learning_fixed_texts ! k \<in> set learning_fixed_texts" if "k < 9" for k
    using that by (intro nth_mem) (simp add: learning_fixed_texts_def)
  have "hd (pm_allowedAnchorIds c) \<in> set (pm_allowedAnchorIds c)" using assms(1) by simp
  moreover have "i \<in> set (pm_allowedAnchorIds c)" if "i \<in> set (take 12 (pm_allowedAnchorIds c))" for i
    using that by (rule in_set_takeD)
  moreover consider k where "k < 9" "x = fixed_statement c (hd (pm_allowedAnchorIds c)) (learning_fixed_texts ! k)"
    | i where "i \<in> set (take 12 (pm_allowedAnchorIds c))" "x = fixed_statement c i (learning_fixed_texts ! 1)"
  proof -
    have "(\<exists>k<9. x = fixed_statement c (hd (pm_allowedAnchorIds c)) (learning_fixed_texts ! k))
        \<or> (\<exists>i\<in>set (take 12 (pm_allowedAnchorIds c)). x = fixed_statement c i (learning_fixed_texts ! 1))"
      using assms(2) unfolding learning_statements_def fixed_learning_def Let_def
      by (simp del: take_eq_Nil) (elim disjE; force)
    then show thesis using that by blast
  qed
  moreover have "learning_fixed_texts ! 1 \<in> set learning_fixed_texts" by (rule t) simp
  ultimately show ?thesis using t by metis
qed

lemma fixed_learning_made:
  assumes "generation_context_ok e c" and "references_available c" and "pm_allowedAnchorIds c \<noteq> []"
    and "nfkc_lawful env" and "n \<le> 5"
  shows "fallback_learning_candidate c n = Inr (fixed_learning c n)"
proof -
  have i: "hd (pm_allowedAnchorIds c) \<in> set (pm_allowedAnchorIds c)" using assms(3) by simp
  note S = fixed_statement_facts(1) [OF assms(1,2) _ assms(4)]
  have areas: "map_result (\<lambda>i. fallback_statement c i (learning_fixed_texts ! 1)) (take 12 (pm_allowedAnchorIds c))
      = Inr (map (\<lambda>i. fixed_statement c i (learning_fixed_texts ! 1)) (take 12 (pm_allowedAnchorIds c)))"
    by (rule map_result_map, rule S) (auto simp: learning_fixed_texts_def dest: in_set_takeD)
  have questions: "map_result (fallback_practice_question c) [0..<n] = Inr (map (fixed_practice c) [0..<n])"
    by (rule map_result_map, rule fixed_practice_facts(1) [OF assms(1-4)]) (use assms(5) in auto)
  show ?thesis
    using areas questions S [OF i]
    unfolding fallback_learning_candidate_def Let_def learning_fixed_texts_def fixed_learning_def
    by simp
qed

lemma fixed_learning_trimmed:
  assumes "generation_context_ok e c" and "references_available c" and "pm_allowedAnchorIds c \<noteq> []"
    and "nfkc_lawful env" and "n \<le> 5"
  shows "trim_learning (fixed_learning c n) = fixed_learning c n"
proof -
  have s: "trim_statement x = x" if "x \<in> set (learning_statements (fixed_learning c n))" for x
    using fixed_learning_statements [OF assms(3) that] fixed_statement_facts(3) [OF assms(1,2) _ assms(4)] by blast
  have q: "map trim_practice (lc_practiceQuestions (fixed_learning c n)) = lc_practiceQuestions (fixed_learning c n)"
    using fixed_practice_facts(3) [OF assms(1-4)] assms(5) by (simp add: fixed_learning_def Let_def)
  have l: "map trim_statement xs = xs" if "set xs \<subseteq> set (learning_statements (fixed_learning c n))" for xs
    using s that by (intro map_idI) blast
  have m: "set (lc_changedAreas x) \<subseteq> set (learning_statements x)" "set (lc_behaviors x) \<subseteq> set (learning_statements x)"
    "set (lc_interfaces x) \<subseteq> set (learning_statements x)" "set (lc_risks x) \<subseteq> set (learning_statements x)"
    "set (lc_testGaps x) \<subseteq> set (learning_statements x)" "set (lc_testIdeas x) \<subseteq> set (learning_statements x)"
    "set (lc_rollbackSignals x) \<subseteq> set (learning_statements x)" "lc_patchIntent x \<in> set (learning_statements x)" for x
    by (auto simp: learning_statements_def)
  show ?thesis
    unfolding trim_learning_def using q s [OF m(8)] m(1-7) [THEN l] by simp
qed

lemma fixed_learning_ok:
  assumes "generation_context_ok e c" and "references_available c" and "pm_allowedAnchorIds c \<noteq> []"
    and "nfkc_lawful env" and "3 \<le> n" and "n \<le> 5"
  shows "learning_candidate_ok env (fixed_learning c n)"
proof -
  have s: "list_all (statement_ok env) (learning_statements (fixed_learning c n))"
    using fixed_learning_statements [OF assms(3)] fixed_statement_facts(2) [OF assms(1,2) _ assms(4)]
    unfolding list_all_iff by blast
  have qs: "lc_practiceQuestions (fixed_learning c n) = map (fixed_practice c) [0..<n]"
    by (simp add: fixed_learning_def Let_def)
  have q: "list_all (practice_candidate_ok env) (lc_practiceQuestions (fixed_learning c n))"
    using fixed_practice_facts(2) [OF assms(1-4)] assms(6) by (simp add: qs list_all_iff)
  have p: "map (\<lambda>q. normalize_text env (pc_prompt q)) (lc_practiceQuestions (fixed_learning c n))
      = take n (map (normalize_text env) practice_prompts)"
  proof -
    have five: "length practice_prompts = 5" by (simp add: practice_prompts_def)
    show ?thesis
      using assms(6) by (intro nth_equalityI) (simp_all add: qs fixed_practice_def five)
  qed
  have d: "distinct (take n (map (normalize_text env) practice_prompts))"
    by (rule distinct_take [OF practice_prompts_distinct [OF assms(4)]])
  have "length (pm_allowedAnchorIds c) \<noteq> 0" using assms(3) by simp
  then have "learning_content_ok env (fixed_learning c n)"
    using s assms(5,6) unfolding learning_content_ok_def qs count_in_def
    by (simp add: fixed_learning_def Let_def Suc_le_eq)
  then show ?thesis
    using q distinct_card [OF d] unfolding learning_candidate_ok_def p Let_def
    by (simp add: qs)
qed

lemma fixed_learning_anchored:
  assumes "generation_context_ok e c" and "references_available c" and "pm_allowedAnchorIds c \<noteq> []"
    and "nfkc_lawful env" and "n \<le> 5"
  shows "assert_known_concrete_anchors
    (map (\<lambda>s. (ls_anchorIds s, ls_patchReferences s)) (learning_statements (fixed_learning c n))
     @ map (\<lambda>q. (pc_anchorIds q, pc_patchReferences q)) (lc_practiceQuestions (fixed_learning c n))) c = Inr ()"
proof -
  have "anchored (ls_anchorIds x) (ls_patchReferences x) c" if "x \<in> set (learning_statements (fixed_learning c n))" for x
    using fixed_learning_statements [OF assms(3) that] fixed_statement_facts(4) [OF assms(1,2) _ assms(4)] by blast
  moreover have "anchored (pc_anchorIds q) (pc_patchReferences q) c"
    if q: "q \<in> set (lc_practiceQuestions (fixed_learning c n))" for q
  proof -
    obtain k where "q = fixed_practice c k" "k < 5"
      using q assms(5) by (auto simp: fixed_learning_def Let_def)
    then show ?thesis using fixed_practice_facts(4) [OF assms(1-4)] by blast
  qed
  ultimately show ?thesis
    by (auto simp: assert_known_concrete_anchors_def list_all_iff)
qed

text \<open>Texts that repeat no proof content are kept as they are.\<close>

lemma excludes_each:
  "practice_content_excludes_proof_content env ts forbidden \<Longrightarrow> t \<in> set ts
     \<Longrightarrow> practice_content_excludes_proof_content env [t] forbidden"
  by (auto simp: practice_content_excludes_proof_content_def Let_def list_all_iff split: if_splits)

lemma safe_statement_keeps:
  "practice_content_excludes_proof_content env [ls_text s] forbidden \<Longrightarrow> safe_statement env forbidden alternative s = Inr s"
  by (simp add: safe_statement_def collision_free_text_def)

lemma map_result_enumerate:
  assumes "\<And>k x. x \<in> set xs \<Longrightarrow> f (k, x) = Inr x"
  shows "map_result f (enumerate n xs) = Inr xs"
proof -
  have "map_result f (enumerate n xs) = Inr (map snd (enumerate n xs))"
    using assms by (intro map_result_map) (auto simp: in_set_enumerate_eq)
  then show ?thesis by simp
qed

lemma safe_statements_keeps:
  assumes "practice_content_excludes_proof_content env ts forbidden" and "ls_text ` set ss \<subseteq> set ts"
  shows "safe_statements env forbidden first ss = Inr ss"
  unfolding safe_statements_def using excludes_each [OF assms(1)] assms(2)
  by (intro map_result_enumerate) (auto intro!: safe_statement_keeps)

lemma safe_prompts_keeps:
  assumes "practice_content_excludes_proof_content env ts forbidden" and "pc_prompt ` set qs \<subseteq> set ts"
  shows "safe_prompts env forbidden qs = Inr qs"
  unfolding safe_prompts_def
proof (rule map_result_enumerate)
  fix k q assume "q \<in> set qs"
  then have "practice_content_excludes_proof_content env [pc_prompt q] forbidden"
    using excludes_each [OF assms(1)] assms(2) by blast
  then show "(case (k, q) of (k, q) \<Rightarrow> bind_result (collision_free_text env (pc_prompt q) forbidden
      (alternative_prompt (int k) q)) (\<lambda>t. Inr (q\<lparr>pc_prompt := t\<rparr>))) = Inr q"
    by (simp add: collision_free_text_def)
qed

lemma collision_free_keeps:
  assumes "practice_content_excludes_proof_content env (learning_texts l) forbidden"
    and "trim_learning l = l" and "learning_candidate_ok env l"
  shows "make_learning_collision_free env l forbidden = Inr l"
proof -
  note S = safe_statements_keeps [OF assms(1)]
  have m: "ls_text ` set (lc_changedAreas l) \<subseteq> set (learning_texts l)"
    "ls_text ` set (lc_behaviors l) \<subseteq> set (learning_texts l)"
    "ls_text ` set (lc_interfaces l) \<subseteq> set (learning_texts l)"
    "ls_text ` set (lc_risks l) \<subseteq> set (learning_texts l)"
    "ls_text ` set (lc_testGaps l) \<subseteq> set (learning_texts l)"
    "ls_text ` set (lc_testIdeas l) \<subseteq> set (learning_texts l)"
    "ls_text ` set (lc_rollbackSignals l) \<subseteq> set (learning_texts l)"
    "pc_prompt ` set (lc_practiceQuestions l) \<subseteq> set (learning_texts l)"
    "ls_text (lc_patchIntent l) \<in> set (learning_texts l)"
    by (auto simp: learning_texts_def learning_statements_def)
  have same: "\<lparr>lc_patchIntent = lc_patchIntent l, lc_changedAreas = lc_changedAreas l, lc_behaviors = lc_behaviors l,
      lc_interfaces = lc_interfaces l, lc_risks = lc_risks l, lc_testGaps = lc_testGaps l,
      lc_testIdeas = lc_testIdeas l, lc_rollbackSignals = lc_rollbackSignals l,
      lc_practiceQuestions = lc_practiceQuestions l\<rparr> = l"
    by simp
  show ?thesis
    using assms(2,3) m(1-7) [THEN S] safe_prompts_keeps [OF assms(1) m(8)]
      safe_statement_keeps [OF excludes_each [OF assms(1) m(9)]]
    unfolding make_learning_collision_free_def by (simp add: same Let_def)
qed

lemma learning_fallback_made:
  assumes "generation_context_ok (se_context env) c" and "references_available c" and "pm_allowedAnchorIds c \<noteq> []"
    and "nfkc_lawful env" and "3 \<le> k" and "k \<le> 5"
    and "practice_content_excludes_proof_content env (learning_texts (fixed_learning c (nat k))) forbidden"
  shows "deterministic_learning_fallback env c k forbidden = Inr (fixed_learning c (nat k))"
proof -
  have n: "3 \<le> nat k" "nat k \<le> 5" using assms(5,6) by auto
  have len: "int (length (lc_practiceQuestions (fixed_learning c (nat k)))) = k"
    using assms(5) by (simp add: fixed_learning_def Let_def)
  note T = fixed_learning_trimmed [OF assms(1-4) n(2)]
  have "validate_learning_bundle_candidate env (fixed_learning c (nat k)) c (Some k) forbidden
      = Inr (fixed_learning c (nat k))"
    using fixed_learning_ok [OF assms(1-4) n] assms(1,7) len fixed_learning_anchored [OF assms(1-4) n(2)]
    unfolding validate_learning_bundle_candidate_def Let_def T
    by (simp add: learning_bundle_excludes_proof_content_def)
  then show ?thesis
    using assms(1,3,5,6) fixed_learning_made [OF assms(1-4) n(2)]
      collision_free_keeps [OF assms(7) T fixed_learning_ok [OF assms(1-4) n]]
    by (simp add: deterministic_learning_fallback_def)
qed

text \<open>For every built context, whatever the texts in it, and all proof content that its fixed
  texts do not repeat, the learning fallback returns the fixed material, with as many practice
  questions as asked for, exactly when three to five are asked for and the context has an anchor.\<close>

theorem learning_fallback_is_total:
  assumes "build_generation_context (se_context env) input = Inr c" and "nfkc_lawful env"
    and "practice_content_excludes_proof_content env (learning_texts (fixed_learning c (nat k))) forbidden"
  shows "deterministic_learning_fallback env c k forbidden =
    (if 3 \<le> k \<and> k \<le> 5 \<and> pm_allowedAnchorIds c \<noteq> [] then Inr (fixed_learning c (nat k)) else Inl Schema_invalid)"
proof (cases "3 \<le> k \<and> k \<le> 5 \<and> pm_allowedAnchorIds c \<noteq> []")
  case True
  have "generation_context_ok (se_context env) c"
    using assms(1) by (elim build_contextE)
  then show ?thesis
    using True learning_fallback_made [OF _ built_references_available [OF assms(1)] _ assms(2) _ _ assms(3)] by simp
next
  case False
  then show ?thesis by (auto simp: deterministic_learning_fallback_def)
qed

end
