(* ===== verification/Accepted_Questions.thy ===== *)
theory Accepted_Questions
  imports Fallback_Life
begin

text \<open>
  What accepted proof questions are like, and that a file named like a coding tool leaves none for
  the fallback to return.
\<close>

section \<open>Accepted proof questions\<close>

lemma anchored_single:
  assumes "anchored is rs c" and "single_anchor_ok is rs"
  shows "\<exists>a\<in>set (pm_anchors c). xa_id a \<in> set (pm_allowedAnchorIds c) \<and> is = [xa_id a] \<and> rs = [reference_to a]"
proof -
  obtain i r where ir: "is = [i]" "rs = [r]" "sr_anchorId r = i"
    using assms(2) by (auto simp: single_anchor_ok_def declared_references_ok_def length_Suc_conv)
  obtain a where a: "find (\<lambda>a. xa_id a = i) (rev (pm_anchors c)) = Some a"
    using assms(1) ir by (auto simp: anchored_def split: option.splits)
  have "a \<in> set (pm_anchors c)" "xa_id a = i"
    using find_SomeD [OF a] by auto
  moreover have "r = reference_to a"
    using assms(1) a ir \<open>xa_id a = i\<close>
    by (intro patch_reference.equality) (simp_all add: anchored_def reference_to_def)
  moreover have "i \<in> set (pm_allowedAnchorIds c)"
    using assms(1) ir by (simp add: anchored_def)
  ultimately show ?thesis using ir by blast
qed

lemma validate_proofE:
  assumes "validate_proof_question_candidates env raw c n = Inr qs"
  shows "qs = map trim_proof raw" "list_all (proof_candidate_ok env) qs" "int (length qs) = n"
    and "distinct (map (\<lambda>q. normalize_text env (pq2_prompt q)) qs)"
    and "q \<in> set qs \<Longrightarrow> (is, rs) \<in> set (question_statements q) \<Longrightarrow> anchored is rs c"
proof -
  have raw: "qs = map trim_proof raw" "list_all (proof_candidate_ok env) qs" "int (length qs) = n"
    "card (set (map (\<lambda>q. normalize_text env (pq2_prompt q)) qs)) = length qs"
    "list_all (\<lambda>(is, rs). anchored is rs c) (concat (map question_statements qs))"
    using assms by (auto simp: validate_proof_question_candidates_def assert_known_concrete_anchors_def Let_def
        simp del: map_map split: if_splits)
  then show "qs = map trim_proof raw" "list_all (proof_candidate_ok env) qs" "int (length qs) = n"
    "distinct (map (\<lambda>q. normalize_text env (pq2_prompt q)) qs)"
    by (simp_all add: card_distinct)
  show "q \<in> set qs \<Longrightarrow> (is, rs) \<in> set (question_statements q) \<Longrightarrow> anchored is rs c"
    using raw(5) by (fastforce simp: list_all_iff)
qed

definition question_texts :: "proof_candidate \<Rightarrow> string list" where
  "question_texts q = pq2_focus q # pq2_prompt q # map rb_description (rubric_items (pq2_rubric q))"

lemma question_texts_allowed: "proof_candidate_ok env q \<Longrightarrow> list_all (allowed env) (question_texts q)"
  by (auto simp: proof_candidate_ok_def proof_rubric_ok_def rubric_statement_ok_def generated_text_ok_def
      allowed_def question_texts_def list_all_iff list_ex_iff)

text \<open>C22: proof questions that validation accepts from the provider, and those the fallback returns, are as
  many as asked for, differ in the normal form of their prompts, have no forbidden text in them, and each cites
  one anchor of the context, with its file and lines, in the question and in every rubric item.\<close>

theorem accepted_proof_questions_are_anchored:
  assumes "validate_proof_question_candidates env raw c n = Inr qs \<or> deterministic_proof_fallback env c n = Inr qs"
  shows "int (length qs) = n \<and> distinct (map (\<lambda>q. normalize_text env (pq2_prompt q)) qs)
    \<and> (\<forall>q\<in>set qs. list_all (allowed env) (question_texts q)
        \<and> (\<exists>a\<in>set (pm_anchors c). xa_id a \<in> set (pm_allowedAnchorIds c)
            \<and> pq2_anchorIds q = [xa_id a] \<and> pq2_patchReferences q = [reference_to a]
            \<and> (\<forall>x\<in>set (rubric_items (pq2_rubric q)).
                rb_anchorIds x = [xa_id a] \<and> rb_patchReferences x = [reference_to a])))"
proof -
  obtain raw' where "validate_proof_question_candidates env raw' c n = Inr qs"
    using assms by (auto simp: deterministic_proof_fallback_def result_simps split: if_splits)
  note V = validate_proofE [OF this]
  have "\<exists>a\<in>set (pm_anchors c). xa_id a \<in> set (pm_allowedAnchorIds c)
            \<and> pq2_anchorIds q = [xa_id a] \<and> pq2_patchReferences q = [reference_to a]
            \<and> (\<forall>x\<in>set (rubric_items (pq2_rubric q)).
                rb_anchorIds x = [xa_id a] \<and> rb_patchReferences x = [reference_to a])"
    if q: "q \<in> set qs" for q
  proof -
    have ok: "proof_candidate_ok env q" using V(2) q by (simp add: list_all_iff)
    then have "single_anchor_ok (pq2_anchorIds q) (pq2_patchReferences q)"
      by (simp add: proof_candidate_ok_def)
    moreover have "(pq2_anchorIds q, pq2_patchReferences q) \<in> set (question_statements q)"
      by (simp add: question_statements_def)
    ultimately obtain a where a: "a \<in> set (pm_anchors c)" "xa_id a \<in> set (pm_allowedAnchorIds c)"
      "pq2_anchorIds q = [xa_id a]" "pq2_patchReferences q = [reference_to a]"
      using anchored_single [OF V(5) [OF q]] by blast
    have "rb_anchorIds x = [xa_id a] \<and> rb_patchReferences x = [reference_to a]"
      if x: "x \<in> set (rubric_items (pq2_rubric q))" for x
    proof -
      have "length (rb_anchorIds x) = 1 \<and> length (rb_patchReferences x) = 1"
        using ok x by (simp add: proof_candidate_ok_def proof_rubric_ok_def rubric_statement_ok_def
            single_anchor_ok_def list_all_iff)
      moreover have "hd (rb_anchorIds x) = xa_id a \<and> hd (rb_patchReferences x) = reference_to a"
        using ok x a unfolding proof_candidate_ok_def list_ex_iff by simp
      ultimately show ?thesis by (cases "rb_anchorIds x"; cases "rb_patchReferences x"; simp)
    qed
    then show ?thesis using a by blast
  qed
  moreover have "list_all (allowed env) (question_texts q)" if "q \<in> set qs" for q
    using V(2) that question_texts_allowed unfolding list_all_iff [of _ qs] by blast
  ultimately show ?thesis
    using V(3,4) by blast
qed

section \<open>Files named like a coding tool\<close>

text \<open>\<open>t\<close> is \<open>w\<close> up to the case of its letters.\<close>

definition spells :: "string \<Rightarrow> string \<Rightarrow> bool" where
  "spells w t \<longleftrightarrow> list_all2 (\<lambda>c d. d \<in> set (both_cases c)) w t"

lemma ignoring_case_spelled:
  "spells w t \<Longrightarrow> (if t = [] then b else Some (last t), s) \<in> set (ends (ignoring_case w) (b, t @ s))"
proof (induction w arbitrary: t b)
  case (Cons c w)
  then obtain d u where t: "t = d # u" "d \<in> set (both_cases c)" "spells w u"
    by (auto simp: spells_def list_all2_Cons1)
  then show ?case
    using Cons.IH [of u "Some d"] by (auto simp: ignoring_case_def split: if_splits)
qed (simp_all add: ignoring_case_def spells_def)

lemma regex_from_later:
  "ends r (if u = [] then b else Some (last u), t) \<noteq> [] \<Longrightarrow> regex_from r (b, u @ t)"
proof (induction u arbitrary: b)
  case Nil
  then show ?case by (cases t) simp_all
next
  case (Cons c u)
  then show ?case by (auto split: if_splits)
qed

lemma bounded_matches:
  assumes "y \<in> set (ends r x)" and "ends Word_boundary x = [x]" and "ends Word_boundary y = [y]"
  shows "ends (bounded [r]) x \<noteq> []"
proof -
  have "ends (Seq Word_boundary Nothing) y \<noteq> []"
    unfolding ends.simps(3) assms(3) by simp
  then have "ends (Seq r (Seq Word_boundary Nothing)) x \<noteq> []"
    unfolding ends_Seq_ne [of r] using assms(1) by blast
  then have "ends (Seq Word_boundary (Seq r (Seq Word_boundary Nothing))) x \<noteq> []"
    unfolding ends_Seq_ne [of Word_boundary] assms(2) by (simp only: list.set) blast
  then show ?thesis
    unfolding bounded_def in_order_def append.simps foldr.simps comp_def id_def .
qed

definition tool_names :: "string list" where
  "tool_names = [''chatgpt'', ''copilot'', ''claude'', ''cursor'']"

lemma tool_name_asked:
  assumes "w \<in> set tool_names" and "spells w t" and "se_nfkc env (u @ t @ v) = u @ t @ v"
    and "u = [] \<or> \<not> word_char (last u)" and "v = [] \<or> \<not> word_char (hd v)"
  shows "asks_about_identity_tooling_or_authorship env (u @ t @ v)"
proof -
  define p where "p = bounded [any_of [ignoring_case ''chatgpt'', ignoring_case ''copilot'', ignoring_case ''claude'',
       ignoring_case ''cursor'',
       in_order [ignoring_case ''ai'', Class (Only ''- ''), ignoring_case ''generated''],
       in_order [ignoring_case ''machine'', Class (Only ''- ''), ignoring_case ''generated'']]]"
  have p: "p \<in> set forbidden_person_or_tool_questions"
    by (simp add: forbidden_person_or_tool_questions_def p_def)
  let ?b = "if u = [] then None else Some (last u)"
  have w: "w \<noteq> []" "list_all (\<lambda>c. list_all word_char (both_cases c)) w"
    using assms(1) by (auto simp: tool_names_def both_cases_def other_case_def word_char_def)
  have "list_all word_char t" "t \<noteq> []"
    using assms(2) w by (auto simp: spells_def list_all2_conv_all_nth list_all_length)
      (metis list_all_length nth_mem list_all_iff)+
  then have t: "word_char (hd t)" "word_char (last t)" "t \<noteq> []"
    by (auto simp: list_all_iff)
  have "(Some (last t), v) \<in> set (ends (ignoring_case w) (?b, t @ v))"
    using ignoring_case_spelled [OF assms(2), of ?b v] t(3) by simp
  then have "(Some (last t), v) \<in> set (ends (any_of [ignoring_case ''chatgpt'', ignoring_case ''copilot'',
      ignoring_case ''claude'', ignoring_case ''cursor'',
      in_order [ignoring_case ''ai'', Class (Only ''- ''), ignoring_case ''generated''],
      in_order [ignoring_case ''machine'', Class (Only ''- ''), ignoring_case ''generated'']]) (?b, t @ v))"
    using assms(1) by (subst ends_any_of) (auto simp: tool_names_def)
  moreover have "ends Word_boundary (?b, t @ v) = [(?b, t @ v)]"
    using t(1,3) assms(4) by (cases t) auto
  moreover have "ends Word_boundary (Some (last t), v) = [(Some (last t), v)]"
    using t(2) assms(5) by (cases v) simp_all
  ultimately have "ends p (?b, t @ v) \<noteq> []"
    unfolding p_def by (rule bounded_matches)
  then have "regex_test p (u @ t @ v)"
    unfolding regex_test_def by (rule regex_from_later)
  then show ?thesis
    using p assms(3) by (auto simp: asks_about_identity_tooling_or_authorship_def list_ex_iff)
qed

lemma plain_number: "plain (string_of_int n)"
proof -
  have "plain t" if "set t \<subseteq> set ''0123456789''" for t
    using that by (induction t) (auto simp: plain_def)
  then have "plain (decimal k)" for k
    using decimal_digits by blast
  then show ?thesis by (simp add: string_of_int_def json_number_def plain_code)
qed

text \<open>C25: a pull request whose first anchor is in a file named like a coding tool, as \<open>CLAUDE.md\<close>,
  gets no proof questions from the fallback, however many are asked for.\<close>

theorem tool_named_file_fails_fallback:
  assumes "find (\<lambda>a. xa_id a = hd (pm_allowedAnchorIds c)) (pm_anchors c) = Some a"
    and "ud_content (xa_filename a) = u @ t @ v" and "w \<in> set tool_names" and "spells w t"
    and "u = [] \<or> \<not> word_char (last u)" and "v = [] \<or> \<not> word_char (hd v)"
    and "length (u @ t @ v) \<le> 240" and "plain (u @ t @ v)" and "nfkc_lawful env"
  shows "\<forall>n. \<exists>e. deterministic_proof_fallback env c n = Inl e"
proof -
  have "\<nexists>qs. deterministic_proof_fallback env c n = Inr qs" for n
  proof
    assume "\<exists>qs. deterministic_proof_fallback env c n = Inr qs"
    then obtain qs raw where n: "1 \<le> n" "n \<le> 5" and ne: "pm_allowedAnchorIds c \<noteq> []"
      and raw: "map_result (fallback_proof_question env c) [0..<nat n] = Inr raw"
      and v: "validate_proof_question_candidates env raw c n = Inr qs"
      by (auto simp: deterministic_proof_fallback_def result_simps split: if_splits)
    have "[0..<nat n] = 0 # [1..<nat n]"
      using n(1) by (simp add: upt_conv_Cons)
    then obtain q where q: "fallback_proof_question env c 0 = Inr q" "q \<in> set raw"
      using raw by (auto simp: result_simps)
    have h: "pm_allowedAnchorIds c ! 0 = hd (pm_allowedAnchorIds c)"
      using ne by (simp add: hd_conv_nth)
    have "patch_reference_of c (hd (pm_allowedAnchorIds c)) = Inr (reference_to a)" "patch_reference_ok (reference_to a)"
      using q(1) ne assms(1) h by (auto simp: fallback_proof_question_def Let_def patch_reference_of_def
          reference_to_def result_simps fallback_intents_def split: if_splits)
    then have "q = fallback_question_of env 0 (hd (pm_allowedAnchorIds c)) (reference_to a)"
      using q(1) ne h by (simp add: fallback_proof_question_def Let_def fallback_intents_def)
    then have prompt: "pq2_prompt q = fallback_prompt env 0 (reference_to a)"
      by (simp add: fallback_question_of_def)
    define rest where "rest = '' near new line '' @ string_of_int (xa_newStart a) @ fallback_prompt_ends ! 0"
    have shape: "pq2_prompt q = (''At '' @ u) @ t @ (v @ rest)"
      using assms(2,7) by (simp add: prompt fallback_prompt_def reference_to_def bounded_display_path_of_def rest_def)
    have "proof_candidate_ok env (trim_proof q)"
      using validate_proofE(1,2) [OF v] q(2) by (simp add: list_all_iff)
    then have "allowed env (js_trim (pq2_prompt q))"
      using question_texts_allowed [of env "trim_proof q"] by (simp add: question_texts_def trim_proof_def)
    moreover have "js_trim (pq2_prompt q) = pq2_prompt q"
      by (rule js_trim_id) (simp_all add: shape rest_def js_whitespace_def fallback_prompt_ends_def)
    moreover have "se_nfkc env (pq2_prompt q) = pq2_prompt q"
    proof -
      have "plain (pq2_prompt q)"
        using assms(8) plain_number by (simp add: shape rest_def plain_code fallback_prompt_ends_def)
      then show ?thesis by (rule nfkc_plain [OF assms(9)])
    qed
    ultimately have same: "allowed env (pq2_prompt q)" "se_nfkc env (pq2_prompt q) = pq2_prompt q"
      by simp_all
    have space: "\<not> word_char (CHR '' '')" by (simp add: word_char_code)
    have "''At '' @ u = [] \<or> \<not> word_char (last (''At '' @ u))"
      using assms(5) space by (cases "u = []") simp_all
    moreover have "v @ rest = [] \<or> \<not> word_char (hd (v @ rest))"
      using assms(6) space by (cases v) (simp_all add: rest_def)
    ultimately have "asks_about_identity_tooling_or_authorship env (pq2_prompt q)"
      unfolding shape using same(2) by (intro tool_name_asked [OF assms(3,4)]) (simp_all add: shape)
    then show False using same(1) by (simp add: allowed_def)
  qed
  then show ?thesis by (metis sum.exhaust)
qed

end
