(* ===== verification/Semantic_Demo.thy ===== *)
theory Semantic_Demo
  imports Accepted_Questions Context_Demo
begin

text \<open>
  The semantic content of the demo context: its fallback texts, evaluated, show that the hypotheses
  of the properties of the content can hold.
\<close>

definition demo_semantic_env :: semantic_env where
  "demo_semantic_env = \<lparr>se_context = demo_context_env, se_nfkc = \<lambda>s. s, se_ellipsis = ''.''\<rparr>"

lemma demo_semantic_simps [simp]:
  "se_context demo_semantic_env = demo_context_env" "se_nfkc demo_semantic_env s = s"
  "length (se_ellipsis demo_semantic_env) = 1"
  by (simp_all add: demo_semantic_env_def)

lemma demo_nfkc: "nfkc_lawful demo_semantic_env"
  by (simp add: nfkc_lawful_def)

definition demo_prompt :: string where
  "demo_prompt = ''At a/b near new line 2, explain the before-and-after behavior and why the new behavior is intended.''"

lemma demo_question:
  "pq2_prompt (question_at demo_semantic_env demo_context 0) = demo_prompt"
proof -
  have "string_of_int 2 = ''2''" by code_simp
  then show ?thesis
    by (simp add: question_at_def fallback_question_of_def fallback_prompt_def anchor_reference_def anchor_at_def
        reference_to_def context_anchor_of_def demo_anchor_def untrusted_def bounded_display_path_of_def
        fallback_prompt_ends_def demo_prompt_def)
qed

lemma demo_prompt_allowed: "allowed demo_semantic_env demo_prompt"
proof -
  have "unforbidden demo_prompt" by code_simp
  then show ?thesis by (simp add: allowed_def unforbidden_safe)
qed

lemma demo_proof_questions:
  "list_all (\<lambda>k. allowed demo_semantic_env (pq2_prompt (question_at demo_semantic_env demo_context k))) [0..<nat 1]"
  by (simp add: demo_question demo_prompt_allowed)

theorem proof_fallback_returns_iff_witness:
  "deterministic_proof_fallback demo_semantic_env demo_context 1
     = Inr [question_at demo_semantic_env demo_context 0]
   \<and> deterministic_proof_fallback demo_semantic_env demo_context 6 = Inl Schema_invalid"
  using proof_fallback_returns_iff [of demo_semantic_env demo_input demo_context 1]
    proof_fallback_returns_iff [of demo_semantic_env demo_input demo_context 6]
    demo_build demo_nfkc demo_proof_questions
  by simp

lemma demo_learning_texts: "learning_texts (fixed_learning demo_context 3)
    = map ((!) learning_fixed_texts) [0, 1, 2, 3, 4, 5, 7, 8] @ take 3 practice_prompts"
proof -
  have "pm_deterministicTestFiles demo_context = []" by (simp add: demo_context_def)
  moreover have "[0..<3] = [0, 1, 2]" by (simp add: eval_nat_numeral)
  ultimately show ?thesis
    by (simp add: learning_texts_def learning_statements_def fixed_learning_def fixed_statement_def Let_def
        fixed_practice_def practice_prompts_def)
qed

lemma demo_excludes: "practice_content_excludes_proof_content demo_semantic_env
    (learning_texts (fixed_learning demo_context 3)) [''Q'']"
proof -
  have "forbidden_content_ok [''Q'']" "js_trim ''Q'' = ''Q''" "normalize_text demo_semantic_env ''Q'' = ''q''"
    by code_simp+
  moreover have "list_all (\<lambda>t. normalize_text demo_semantic_env t \<noteq> ''q'')
      (map ((!) learning_fixed_texts) [0, 1, 2, 3, 4, 5, 7, 8] @ take 3 practice_prompts)"
    by code_simp
  ultimately show ?thesis
    unfolding practice_content_excludes_proof_content_def demo_learning_texts Let_def
    by (simp add: list_all_iff)
qed

lemma demo_learning:
  "deterministic_learning_fallback demo_semantic_env demo_context 3 [''Q''] = Inr (fixed_learning demo_context 3)"
  using learning_fallback_made [of demo_semantic_env demo_context 3 "[''Q'']"] demo_context_ok
    built_references_available [OF demo_build] demo_nfkc demo_excludes by simp

theorem learning_fallback_is_total_witness:
  "deterministic_learning_fallback demo_semantic_env demo_context 3 [''Q''] = Inr (fixed_learning demo_context 3)"
  using learning_fallback_is_total [of demo_semantic_env demo_input demo_context 3 "[''Q'']"]
    demo_build demo_nfkc demo_excludes by simp

theorem practice_never_repeats_proof_content_witness:
  "learning_fixed_texts ! 0 \<in> set (learning_texts (fixed_learning demo_context 3))
   \<and> normalize_text demo_semantic_env (learning_fixed_texts ! 0) \<noteq> ''q''"
proof -
  have t: "learning_fixed_texts ! 0 \<in> set (learning_texts (fixed_learning demo_context 3))"
    unfolding demo_learning_texts by simp
  have "normalize_text demo_semantic_env (js_trim ''Q'') = ''q''" by code_simp
  then have "normalize_text demo_semantic_env (learning_fixed_texts ! 0) \<noteq> ''q''"
    using practice_never_repeats_proof_content [of demo_semantic_env demo_context "[''Q'']"
        "fixed_learning demo_context 3" "learning_fixed_texts ! 0" undefined "''Q''"] demo_learning t
    by (metis list.set_intros(1) not_Cons_self2)
  then show ?thesis using t by blast
qed

theorem accepted_proof_questions_are_anchored_witness:
  "validate_proof_question_candidates demo_semantic_env [question_at demo_semantic_env demo_context 0] demo_context 1
      = Inr [question_at demo_semantic_env demo_context 0]
    \<and> pq2_patchReferences (question_at demo_semantic_env demo_context 0) = [reference_to (context_anchor_of demo_anchor)]"
proof -
  have "validate_proof_question_candidates demo_semantic_env [question_at demo_semantic_env demo_context 0]
      demo_context 1 = Inr [question_at demo_semantic_env demo_context 0]"
    using fallback_questions_validated [of demo_semantic_env demo_context 1] demo_nfkc demo_context_ok
      built_references_available [OF demo_build] demo_proof_questions by simp
  then show ?thesis
    using accepted_proof_questions_are_anchored [OF disjI1, of demo_semantic_env _ demo_context 1] by fastforce
qed

theorem tool_named_file_fails_fallback_witness:
  "generation_context_ok demo_context_env (context_at ''CLAUDE.md'')
   \<and> (\<forall>n. \<exists>e. deterministic_proof_fallback demo_semantic_env (context_at ''CLAUDE.md'') n = Inl e)"
proof
  have "demo_path_ok ''CLAUDE.md''" by code_simp
  then show "generation_context_ok demo_context_env (context_at ''CLAUDE.md'')"
    by (rule context_at_ok)
  have "spells ''claude'' ''CLAUDE''"
    by (simp add: spells_def both_cases_def other_case_def)
  moreover have "\<not> word_char (CHR ''.'')" by (simp add: word_char_code)
  ultimately show "\<forall>n. \<exists>e. deterministic_proof_fallback demo_semantic_env (context_at ''CLAUDE.md'') n = Inl e"
    by (intro tool_named_file_fails_fallback [of _ "context_anchor_of (demo_anchor\<lparr>da_file := ''CLAUDE.md''\<rparr>)"
          "[]" "''CLAUDE''" "''.md''" "''claude''"])
      (simp_all add: context_anchor_of_def demo_anchor_def untrusted_def tool_names_def plain_code demo_nfkc)
qed

end
