(* ===== verification/Config.thy ===== *)
theory Config
  imports Encoding Js_Text
begin

text \<open>
  The configuration of the four services and of the migration job
  (\<open>packages/config/src/index.ts\<close>). A schema of the code is an object of named field schemas, so a
  shape is a list of names with field schemas, and a parsed configuration is a map from names to
  settings. A refinement adds issues to a list; here it returns the names of the fields in error,
  in the order of the code. The URL parser, the URL schema of the validation library, percent
  decoding, \<open>Number\<close> of a text and UTF-8 decoding are parameters.
\<close>

type_synonym environment = "string \<Rightarrow> string option"

record url =
  ur_protocol :: string
  ur_username :: string
  ur_password :: string
  ur_hostname :: string
  ur_port :: string
  ur_pathname :: string
  ur_search :: string
  ur_hash :: string

record config_lib =
  cl_parse_url :: "string \<Rightarrow> url option"
  cl_url_schema :: "string \<Rightarrow> string option"
  cl_number :: "string \<Rightarrow> int option"
  cl_decode_component :: "string \<Rightarrow> string option"
  cl_decode_utf8 :: "bytes \<Rightarrow> string option"

section \<open>Field schemas\<close>

datatype setting = Text_setting string | Flag_setting bool | Number_setting int

type_synonym config = "string \<Rightarrow> setting option"

text \<open>\<open>Free_text trimmed lo hi\<close>: a text of a length in these bounds, trimmed first when the schema
  says so. A port is coerced to a number.\<close>

datatype field_kind =
  One_of "string list" | Flag | Url_text | Free_text bool nat "nat option" | Proxy_secret | Payload_key | Port

datatype presence = Required | Optional | Default setting

type_synonym shape = "(string \<times> field_kind \<times> presence) list"

definition standard_char :: "char \<Rightarrow> char" where
  "standard_char c = (if c = CHR ''-'' then CHR ''+'' else if c = CHR ''_'' then CHR ''/'' else c)"

definition url_safe_char :: "char \<Rightarrow> char" where
  "url_safe_char c = (if c = CHR ''+'' then CHR ''-'' else if c = CHR ''/'' then CHR ''_'' else c)"

definition encode_base64 :: "bytes \<Rightarrow> string" where
  "encode_base64 bs = (let t = map standard_char (encode_base64url bs) in
     t @ replicate ((4 - length t mod 4) mod 4) (CHR ''=''))"

text \<open>What \<open>Buffer.from(value, "base64")\<close> does on other texts than encodings does not matter, for
  the result is encoded again and compared.\<close>

definition payload_encryption_key_ok :: "string \<Rightarrow> bool" where
  "payload_encryption_key_ok v =
     (case decode_base64url (map url_safe_char (takeWhile (\<lambda>c. c \<noteq> CHR ''='') v)) of
        Inl _ \<Rightarrow> False
      | Inr decoded \<Rightarrow> length decoded = 32 \<and> encode_base64 decoded = v)"

definition proxy_secret_chars :: string where
  "proxy_secret_chars = ''ABCDEFGHIJKLMNOPQRSTUVWXYZabcdefghijklmnopqrstuvwxyz0123456789_-''"

definition parse_kind :: "config_lib \<Rightarrow> field_kind \<Rightarrow> string \<Rightarrow> setting option" where
  "parse_kind lib k v =
     (case k of
        One_of vs \<Rightarrow> if v \<in> set vs then Some (Text_setting v) else None
      | Flag \<Rightarrow> if v \<in> {''true'', ''false''} then Some (Flag_setting (v = ''true'')) else None
      | Url_text \<Rightarrow> map_option Text_setting (cl_url_schema lib v)
      | Free_text trimmed lo hi \<Rightarrow>
          (let t = if trimmed then js_trim v else v in
           if lo \<le> length t \<and> (case hi of None \<Rightarrow> True | Some h \<Rightarrow> length t \<le> h) then Some (Text_setting t) else None)
      | Proxy_secret \<Rightarrow>
          if 32 \<le> length v \<and> length v \<le> 256 \<and> all_in proxy_secret_chars v then Some (Text_setting v) else None
      | Payload_key \<Rightarrow> if payload_encryption_key_ok v then Some (Text_setting v) else None
      | Port \<Rightarrow> (case cl_number lib v of None \<Rightarrow> None
          | Some n \<Rightarrow> if 1 \<le> n \<and> n \<le> 65535 then Some (Number_setting n) else None))"

definition parse_field ::
  "config_lib \<Rightarrow> field_kind \<times> presence \<Rightarrow> string option \<Rightarrow> setting option option" where
  "parse_field lib f v =
     (case v of
        Some t \<Rightarrow> map_option Some (parse_kind lib (fst f) t)
      | None \<Rightarrow> (case snd f of Required \<Rightarrow> None | Optional \<Rightarrow> Some None | Default d \<Rightarrow> Some (Some d)))"

fun parse_shape :: "config_lib \<Rightarrow> shape \<Rightarrow> environment \<Rightarrow> config option" where
  "parse_shape lib [] env = Some (\<lambda>_. None)"
| "parse_shape lib ((name, f) # fs) env =
     (case parse_field lib f (env name) of
        None \<Rightarrow> None
      | Some v \<Rightarrow> map_option (\<lambda>c. c(name := v)) (parse_shape lib fs env))"

section \<open>Shapes\<close>

definition boolean_from_env :: "field_kind \<times> presence" where
  "boolean_from_env = (Flag, Default (Flag_setting False))"

definition node_env_field :: "field_kind \<times> presence" where
  "node_env_field = (One_of [''development'', ''test'', ''production''], Default (Text_setting ''development''))"

definition core_shape :: shape where
  "core_shape = [
     (''NODE_ENV'', node_env_field),
     (''DEPLOYMENT_PROFILE'', One_of [''local'', ''production''], Required),
     (''APP_BASE_URL'', Url_text, Required),
     (''DATABASE_URL'', Free_text False 1 None, Required),
     (''LOG_LEVEL'', One_of [''fatal'', ''error'', ''warn'', ''info'', ''debug'', ''trace''],
        Default (Text_setting ''info''))]"

definition demo_shape :: shape where
  "demo_shape = [(''DEMO_MODE'', boolean_from_env), (''DEMO_FAKE_MEDIA'', boolean_from_env)]"

definition storage_control_shape :: shape where
  "storage_control_shape = [
     (''EVIDENCE_STORAGE_PROVIDER'', One_of [''s3''], Required),
     (''S3_CONTROL_ENDPOINT'', Url_text, Required),
     (''S3_REGION'', Free_text True 1 None, Required),
     (''S3_BUCKET'', Free_text True 3 None, Required),
     (''S3_ACCESS_KEY_ID'', Free_text False 1 None, Required),
     (''S3_SECRET_ACCESS_KEY'', Free_text False 8 None, Required)]"

definition github_selector_shape :: shape where
  "github_selector_shape = [(''GITHUB_ADAPTER'', One_of [''fake'', ''octokit''], Default (Text_setting ''fake''))]"

definition base_shape :: shape where
  "base_shape = core_shape @ demo_shape"

definition web_shape :: shape where
  "web_shape = core_shape @ demo_shape @ github_selector_shape @ storage_control_shape @ [
     (''SESSION_SECRET'', Free_text False 32 None, Required),
     (''GITHUB_WEBHOOK_SECRET'', Free_text False 32 None, Required),
     (''GITHUB_CLIENT_ID'', Free_text True 1 None, Required),
     (''GITHUB_CLIENT_SECRET'', Free_text False 1 None, Required),
     (''OAUTH_TRUSTED_PROXY_SECRET'', Proxy_secret, Optional),
     (''S3_PUBLIC_ENDPOINT'', Url_text, Required),
     (''KEY_WRAPPING_PROVIDER'', One_of [''local'', ''kms''], Required),
     (''KEY_WRAPPING_PUBLIC_KEY_PATH'', Free_text False 1 None, Required),
     (''KEY_WRAPPING_PUBLIC_KEY_CONTAINER_PATH'', Free_text False 1 None, Optional),
     (''WORKER_INTERNAL_URL'', Url_text, Required),
     (''GITHUB_CONTROL_INTERNAL_URL'', Url_text, Optional),
     (''WORKER_INTERNAL_SECRET'', Free_text False 32 None, Required)]"

definition optional_model :: "field_kind \<times> presence" where
  "optional_model = (Free_text True 1 None, Optional)"

definition optional_judge_model :: "field_kind \<times> presence" where
  "optional_judge_model = (Free_text True 1 (Some 100), Optional)"

definition optional_key :: "field_kind \<times> presence" where
  "optional_key = (Free_text False 16 None, Optional)"

definition worker_shape :: shape where
  "worker_shape = core_shape @ demo_shape @ github_selector_shape @ storage_control_shape @ [
     (''KEY_WRAPPING_PROVIDER'', One_of [''local'', ''kms''], Required),
     (''KEY_WRAPPING_PRIVATE_KEY_PATH'', Free_text False 1 None, Optional),
     (''KEY_WRAPPING_PRIVATE_KEY_CONTAINER_PATH'', Free_text False 1 None, Optional),
     (''KMS_PROVIDER'', Free_text True 1 None, Optional),
     (''KMS_KEY_ID'', Free_text True 1 None, Optional),
     (''WORKER_INTERNAL_SECRET'', Free_text False 32 None, Required),
     (''PROVIDER_PAYLOAD_KEY_BASE64'', Payload_key, Required),
     (''GENERATION_PROVIDER'', One_of [''fake'', ''hetzner'', ''openrouter''], Default (Text_setting ''fake'')),
     (''GENERATION_BASE_URL'', Url_text, Optional),
     (''GENERATION_API_KEY'', optional_key),
     (''LEARNING_MODEL'', optional_model),
     (''PRACTICE_MODEL'', optional_model),
     (''PROOF_QUESTION_MODEL'', optional_model),
     (''GENERATION_FALLBACK_BASE_URL'', Url_text, Optional),
     (''GENERATION_FALLBACK_API_KEY'', optional_key),
     (''LEARNING_FALLBACK_MODEL'', optional_model),
     (''PRACTICE_FALLBACK_MODEL'', optional_model),
     (''PROOF_QUESTION_FALLBACK_MODEL'', optional_model),
     (''TRANSCRIPTION_PROVIDER'', One_of [''fake'', ''openrouter''], Default (Text_setting ''fake'')),
     (''TRANSCRIPTION_BASE_URL'', Url_text, Optional),
     (''TRANSCRIPTION_API_KEY'', optional_key),
     (''TRANSCRIPTION_MODEL'', optional_model),
     (''MULTIMODAL_JUDGE_PROVIDER'', One_of [''fake'', ''hetzner'', ''openrouter''], Default (Text_setting ''fake'')),
     (''JUDGE_BASE_URL'', Url_text, Optional),
     (''JUDGE_API_KEY'', optional_key),
     (''JUDGE_MODEL'', optional_judge_model),
     (''JUDGE_FALLBACK_MODEL'', optional_judge_model),
     (''JUDGE_TRANSPORT_FALLBACK_BASE_URL'', Url_text, Optional),
     (''JUDGE_TRANSPORT_FALLBACK_API_KEY'', optional_key),
     (''JUDGE_TRANSPORT_FALLBACK_MODEL'', optional_judge_model),
     (''JUDGE_TRANSPORT_FALLBACK_VISION_MODEL'', optional_judge_model),
     (''WORKER_HOST'', Free_text True 1 None, Default (Text_setting ''127.0.0.1'')),
     (''WORKER_PORT'', Port, Default (Number_setting 4001)),
     (''FFMPEG_PATH'', Free_text False 1 None, Default (Text_setting ''ffmpeg'')),
     (''FFPROBE_PATH'', Free_text False 1 None, Default (Text_setting ''ffprobe''))]"

definition github_control_shape :: shape where
  "github_control_shape = core_shape @ demo_shape @ github_selector_shape @ [
     (''GITHUB_APP_ID'', Free_text True 1 None, Optional),
     (''GITHUB_PRIVATE_KEY_PATH'', Free_text False 1 None, Optional),
     (''GITHUB_PRIVATE_KEY_CONTAINER_PATH'', Free_text False 1 None, Optional),
     (''GITHUB_CONTROL_HOST'', Free_text True 1 None, Default (Text_setting ''127.0.0.1'')),
     (''GITHUB_CONTROL_PORT'', Port, Default (Number_setting 4002))]"

definition migration_shape :: shape where
  "migration_shape = [
     (''NODE_ENV'', node_env_field),
     (''DEPLOYMENT_PROFILE'', One_of [''local'', ''production''], Default (Text_setting ''local'')),
     (''DATABASE_URL'', Free_text False 1 None, Required)]"

section \<open>Reading a configuration\<close>

text \<open>A text setting, empty when absent: the refinements test absent and empty alike.\<close>

definition text_of :: "config \<Rightarrow> string \<Rightarrow> string" where
  "text_of c name = (case c name of Some (Text_setting t) \<Rightarrow> t | _ \<Rightarrow> [])"

definition flag_of :: "config \<Rightarrow> string \<Rightarrow> bool" where
  "flag_of c name = (c name = Some (Flag_setting True))"

definition number_of :: "config \<Rightarrow> string \<Rightarrow> int" where
  "number_of c name = (case c name of Some (Number_setting n) \<Rightarrow> n | _ \<Rightarrow> 0)"

definition is_production :: "config \<Rightarrow> bool" where
  "is_production c \<longleftrightarrow> text_of c ''DEPLOYMENT_PROFILE'' = ''production''"

definition is_optimized_local :: "config \<Rightarrow> bool" where
  "is_optimized_local c \<longleftrightarrow>
     text_of c ''DEPLOYMENT_PROFILE'' = ''local'' \<and> text_of c ''NODE_ENV'' = ''production''"

end
