(* ===== verification/Config_Rules.thy ===== *)
theory Config_Rules
  imports Config
begin

text \<open>
  The rules a configuration must follow beyond its fields (\<open>packages/config/src/index.ts\<close>): what a
  production deployment and an optimized local one require of each service. Each rule returns the
  names of the fields it reports.
\<close>

section \<open>Hosts, endpoints and secrets\<close>

definition looks_like_placeholder :: "string \<Rightarrow> bool" where
  "looks_like_placeholder v =
     (let normalized = map lower_char (js_trim v) in
      list_ex (\<lambda>w. starts_with w normalized
          \<and> (case drop (length w) normalized of [] \<Rightarrow> True | c # _ \<Rightarrow> c \<in> set ''-_:''))
        [''fake'', ''local'', ''replace'', ''change'', ''test'']
      \<or> occurs_in ''change-me'' normalized \<or> occurs_in ''placeholder'' normalized
      \<or> occurs_in ''never-used'' normalized)"

definition strip_brackets :: "string \<Rightarrow> string" where
  "strip_brackets h =
     (let t = (case h of c # s \<Rightarrow> if c = CHR ''['' then s else h | [] \<Rightarrow> []) in
      if t \<noteq> [] \<and> last t = CHR '']'' then butlast t else t)"

definition is_loopback_hostname :: "string \<Rightarrow> bool" where
  "is_loopback_hostname hostname =
     (let normalized = strip_brackets (map lower_char hostname) in
      normalized = ''localhost'' \<or> ends_with ''.localhost'' normalized \<or> normalized = ''127.0.0.1''
      \<or> starts_with ''127.'' normalized \<or> normalized = ''0.0.0.0'' \<or> normalized = ''::1'')"

definition is_production_endpoint :: "config_lib \<Rightarrow> string \<Rightarrow> bool" where
  "is_production_endpoint lib v =
     (case cl_parse_url lib v of
        None \<Rightarrow> False
      | Some u \<Rightarrow> ur_protocol u = ''https:'' \<and> ur_username u = [] \<and> ur_password u = []
          \<and> \<not> is_loopback_hostname (ur_hostname u))"

definition is_loopback_endpoint :: "config_lib \<Rightarrow> string \<Rightarrow> bool" where
  "is_loopback_endpoint lib v =
     (case cl_parse_url lib v of
        None \<Rightarrow> False
      | Some u \<Rightarrow> ur_protocol u \<in> {''http:'', ''https:''} \<and> ur_username u = [] \<and> ur_password u = []
          \<and> is_loopback_hostname (ur_hostname u))"

definition require_value :: "bool \<Rightarrow> string \<Rightarrow> string list" where
  "require_value condition field = (if condition then [] else [field])"

definition require_absolute_path :: "config \<Rightarrow> string \<Rightarrow> bool \<Rightarrow> string list" where
  "require_absolute_path c field allowRelative =
     (let v = text_of c field in
      require_value (v \<noteq> [] \<and> (allowRelative \<or> starts_with ''/'' v)) field)"

definition require_github_app_id :: "config \<Rightarrow> string list" where
  "require_github_app_id c =
     (let v = text_of c ''GITHUB_APP_ID'' in
      require_value (v \<noteq> [] \<and> hd v \<in> set ''123456789'' \<and> length v \<le> 32 \<and> all_in ''0123456789'' v) ''GITHUB_APP_ID'')"

definition require_provider_endpoint :: "config_lib \<Rightarrow> config \<Rightarrow> string \<Rightarrow> string list" where
  "require_provider_endpoint lib c field =
     (let v = text_of c field in
      require_value (v \<noteq> []) field
      @ (if v \<noteq> [] \<and> is_production_endpoint lib v then [] else if v \<noteq> [] then require_value False field else []))"

definition require_provider_secret :: "config \<Rightarrow> string \<Rightarrow> string list" where
  "require_provider_secret c field =
     (let v = text_of c field in
      require_value (v \<noteq> [] \<and> 16 \<le> length v \<and> \<not> looks_like_placeholder v) field)"

definition require_safe_secret :: "config \<Rightarrow> string \<Rightarrow> nat \<Rightarrow> string list" where
  "require_safe_secret c field minimumLength =
     (let v = text_of c field in
      require_value (minimumLength \<le> length v \<and> \<not> looks_like_placeholder v) field)"

definition require_production_endpoint :: "config_lib \<Rightarrow> config \<Rightarrow> string \<Rightarrow> string list" where
  "require_production_endpoint lib c field = require_value (is_production_endpoint lib (text_of c field)) field"

definition require_production_s3_endpoint :: "config_lib \<Rightarrow> config \<Rightarrow> string \<Rightarrow> string list" where
  "require_production_s3_endpoint lib c field =
     (case cl_parse_url lib (text_of c field) of
        None \<Rightarrow> require_value False field
      | Some u \<Rightarrow> require_value (is_production_endpoint lib (text_of c field) \<and> ur_pathname u = ''/''
          \<and> ur_port u = [] \<and> ur_search u = [] \<and> ur_hash u = []) field)"

definition letters_and_digits :: string where
  "letters_and_digits = ''ABCDEFGHIJKLMNOPQRSTUVWXYZabcdefghijklmnopqrstuvwxyz0123456789''"

definition bucket_chars :: string where
  "bucket_chars = ''abcdefghijklmnopqrstuvwxyz0123456789''"

definition require_production_s3_identity :: "config_lib \<Rightarrow> config \<Rightarrow> string list" where
  "require_production_s3_identity lib c =
     (let region = text_of c ''S3_REGION''; bucket = text_of c ''S3_BUCKET'' in
      require_production_s3_endpoint lib c ''S3_CONTROL_ENDPOINT''
      @ require_value (region \<noteq> [] \<and> hd region \<in> set letters_and_digits \<and> length region \<le> 63
          \<and> all_in (letters_and_digits @ ''._-'') (tl region)) ''S3_REGION''
      @ require_value (3 \<le> length bucket \<and> length bucket \<le> 63 \<and> hd bucket \<in> set bucket_chars
          \<and> last bucket \<in> set bucket_chars \<and> all_in (bucket_chars @ ''.-'') bucket
          \<and> \<not> occurs_in ''..'' bucket) ''S3_BUCKET'')"

definition require_internal_endpoint ::
  "config_lib \<Rightarrow> config \<Rightarrow> string \<Rightarrow> string \<Rightarrow> string \<Rightarrow> string \<Rightarrow> string list" where
  "require_internal_endpoint lib c field hostname port pathname =
     (case cl_parse_url lib (text_of c field) of
        None \<Rightarrow> require_value False field
      | Some u \<Rightarrow> require_value (ur_protocol u = ''http:'' \<and> ur_hostname u = hostname \<and> ur_port u = port
          \<and> ur_pathname u = pathname \<and> ur_username u = [] \<and> ur_password u = [] \<and> ur_search u = []
          \<and> ur_hash u = []) field)"

definition require_internal_worker_endpoint :: "config_lib \<Rightarrow> config \<Rightarrow> string list" where
  "require_internal_worker_endpoint lib c =
     require_internal_endpoint lib c ''WORKER_INTERNAL_URL'' ''worker'' ''4001'' ''/''"

definition require_internal_github_control_endpoint :: "config_lib \<Rightarrow> config \<Rightarrow> string list" where
  "require_internal_github_control_endpoint lib c =
     (if text_of c ''GITHUB_CONTROL_INTERNAL_URL'' = [] then require_value False ''GITHUB_CONTROL_INTERNAL_URL''
      else require_internal_endpoint lib c ''GITHUB_CONTROL_INTERNAL_URL'' ''github-control'' ''4002'' ''/healthz'')"

definition require_production_database :: "config_lib \<Rightarrow> config \<Rightarrow> string list" where
  "require_production_database lib c =
     (case cl_parse_url lib (text_of c ''DATABASE_URL'') of
        None \<Rightarrow> require_value False ''DATABASE_URL''
      | Some u \<Rightarrow>
        (case cl_decode_component lib (ur_password u) of
           None \<Rightarrow> require_value False ''DATABASE_URL''
         | Some password \<Rightarrow> require_value (ur_protocol u \<in> {''postgres:'', ''postgresql:''}
             \<and> ur_username u = ''slopproof'' \<and> 24 \<le> length password \<and> \<not> looks_like_placeholder password
             \<and> \<not> list_ex (\<lambda>ch. ch \<in> {CHR 0x00, CHR 0x0D, CHR 0x0A}) password
             \<and> ur_hostname u = ''postgres'' \<and> ur_port u = ''5432'' \<and> ur_pathname u = ''/slopproof''
             \<and> ur_search u = [] \<and> ur_hash u = []) ''DATABASE_URL''))"

section \<open>Rules of every service\<close>

definition refine_production_core :: "config_lib \<Rightarrow> config \<Rightarrow> string list" where
  "refine_production_core lib c =
     (if \<not> is_production c then []
      else require_value (text_of c ''NODE_ENV'' = ''production'') ''NODE_ENV''
        @ require_production_endpoint lib c ''APP_BASE_URL''
        @ require_value (\<not> flag_of c ''DEMO_MODE'') ''DEMO_MODE''
        @ require_value (\<not> flag_of c ''DEMO_FAKE_MEDIA'') ''DEMO_FAKE_MEDIA''
        @ require_production_database lib c)"

definition refine_optimized_local_core :: "config_lib \<Rightarrow> config \<Rightarrow> string list" where
  "refine_optimized_local_core lib c =
     (if \<not> is_optimized_local c then []
      else require_value (is_loopback_endpoint lib (text_of c ''APP_BASE_URL'')) ''APP_BASE_URL''
        @ require_value (flag_of c ''DEMO_MODE'') ''DEMO_MODE'')"

definition require_choice :: "config \<Rightarrow> string \<Rightarrow> string list \<Rightarrow> string list" where
  "require_choice c field choices = require_value (text_of c field \<in> set choices) field"

definition refine_base :: "config_lib \<Rightarrow> config \<Rightarrow> string list" where
  "refine_base lib c = refine_production_core lib c @ refine_optimized_local_core lib c"

section \<open>The web service\<close>

definition refine_web :: "config_lib \<Rightarrow> config \<Rightarrow> string list" where
  "refine_web lib c =
     refine_production_core lib c @ refine_optimized_local_core lib c
     @ (if is_optimized_local c then require_choice c ''GITHUB_ADAPTER'' [''fake''] else [])
     @ (if \<not> is_production c then []
        else require_choice c ''GITHUB_ADAPTER'' [''octokit'']
          @ require_safe_secret c ''SESSION_SECRET'' 32
          @ require_safe_secret c ''GITHUB_WEBHOOK_SECRET'' 32
          @ require_safe_secret c ''GITHUB_CLIENT_SECRET'' 20
          @ require_safe_secret c ''OAUTH_TRUSTED_PROXY_SECRET'' 32
          @ require_safe_secret c ''WORKER_INTERNAL_SECRET'' 32
          @ require_production_s3_identity lib c
          @ require_production_s3_endpoint lib c ''S3_PUBLIC_ENDPOINT''
          @ require_internal_worker_endpoint lib c
          @ require_internal_github_control_endpoint lib c
          @ require_safe_secret c ''S3_SECRET_ACCESS_KEY'' 32
          @ require_absolute_path c ''KEY_WRAPPING_PUBLIC_KEY_PATH'' False
          @ require_absolute_path c ''KEY_WRAPPING_PUBLIC_KEY_CONTAINER_PATH'' False)"

section \<open>The worker\<close>

definition refine_key_wrapping :: "config \<Rightarrow> string list" where
  "refine_key_wrapping c =
     (if text_of c ''KEY_WRAPPING_PROVIDER'' = ''local''
      then require_absolute_path c ''KEY_WRAPPING_PRIVATE_KEY_PATH'' (\<not> is_production c)
      else require_value (text_of c ''KMS_PROVIDER'' \<noteq> []) ''KMS_PROVIDER''
        @ require_value (text_of c ''KMS_KEY_ID'' \<noteq> []) ''KMS_KEY_ID'')"

definition generation_fallback_fields :: "string list" where
  "generation_fallback_fields = [''GENERATION_FALLBACK_BASE_URL'', ''GENERATION_FALLBACK_API_KEY'',
     ''LEARNING_FALLBACK_MODEL'', ''PRACTICE_FALLBACK_MODEL'', ''PROOF_QUESTION_FALLBACK_MODEL'']"

definition judge_transport_fallback_fields :: "string list" where
  "judge_transport_fallback_fields = [''JUDGE_TRANSPORT_FALLBACK_BASE_URL'', ''JUDGE_TRANSPORT_FALLBACK_API_KEY'',
     ''JUDGE_TRANSPORT_FALLBACK_MODEL'', ''JUDGE_TRANSPORT_FALLBACK_VISION_MODEL'']"

definition reject_present_fields :: "config \<Rightarrow> string list \<Rightarrow> string list" where
  "reject_present_fields c names =
     concat (map (\<lambda>f. if text_of c f \<noteq> [] then require_value False f else []) names)"

definition refine_transport_fallback_field :: "config_lib \<Rightarrow> config \<Rightarrow> string \<Rightarrow> string list" where
  "refine_transport_fallback_field lib c field =
     (if ends_with ''BASE_URL'' field then require_provider_endpoint lib c field
      else if ends_with ''API_KEY'' field then require_provider_secret c field
      else require_value (length (text_of c field) > 0) field)"

definition refine_transport_fallback_fields :: "config_lib \<Rightarrow> config \<Rightarrow> string list \<Rightarrow> bool \<Rightarrow> string list" where
  "refine_transport_fallback_fields lib c names required =
     (if \<not> required \<and> filter (\<lambda>f. text_of c f \<noteq> []) names = [] then []
      else concat (map (refine_transport_fallback_field lib c) names))"

definition refine_generation_provider :: "config_lib \<Rightarrow> config \<Rightarrow> string list" where
  "refine_generation_provider lib c =
     (if text_of c ''GENERATION_PROVIDER'' = ''fake'' then reject_present_fields c generation_fallback_fields
      else require_provider_endpoint lib c ''GENERATION_BASE_URL''
        @ require_provider_secret c ''GENERATION_API_KEY''
        @ concat (map (\<lambda>f. require_value (text_of c f \<noteq> []) f)
            [''LEARNING_MODEL'', ''PRACTICE_MODEL'', ''PROOF_QUESTION_MODEL''])
        @ (if text_of c ''GENERATION_PROVIDER'' \<noteq> ''openrouter''
           then reject_present_fields c generation_fallback_fields
           else refine_transport_fallback_fields lib c generation_fallback_fields (is_production c)))"

definition refine_transcription_provider :: "config_lib \<Rightarrow> config \<Rightarrow> string list" where
  "refine_transcription_provider lib c =
     (if text_of c ''TRANSCRIPTION_PROVIDER'' = ''fake'' then []
      else require_provider_endpoint lib c ''TRANSCRIPTION_BASE_URL''
        @ require_provider_secret c ''TRANSCRIPTION_API_KEY''
        @ require_value (text_of c ''TRANSCRIPTION_MODEL'' \<noteq> []) ''TRANSCRIPTION_MODEL'')"

definition refine_judge_provider :: "config_lib \<Rightarrow> config \<Rightarrow> string list" where
  "refine_judge_provider lib c =
     (if text_of c ''MULTIMODAL_JUDGE_PROVIDER'' = ''fake''
      then reject_present_fields c judge_transport_fallback_fields
      else require_provider_endpoint lib c ''JUDGE_BASE_URL''
        @ require_provider_secret c ''JUDGE_API_KEY''
        @ require_value (text_of c ''JUDGE_MODEL'' \<noteq> []) ''JUDGE_MODEL''
        @ require_value (text_of c ''JUDGE_FALLBACK_MODEL'' \<noteq> []) ''JUDGE_FALLBACK_MODEL''
        @ (if text_of c ''MULTIMODAL_JUDGE_PROVIDER'' \<noteq> ''openrouter''
           then reject_present_fields c judge_transport_fallback_fields
           else refine_transport_fallback_fields lib c judge_transport_fallback_fields (is_production c)))"

definition refine_worker :: "config_lib \<Rightarrow> config \<Rightarrow> string list" where
  "refine_worker lib c =
     refine_production_core lib c @ refine_optimized_local_core lib c @ refine_key_wrapping c
     @ refine_generation_provider lib c @ refine_transcription_provider lib c @ refine_judge_provider lib c
     @ (if is_optimized_local c
        then require_choice c ''GITHUB_ADAPTER'' [''fake''] @ require_choice c ''GENERATION_PROVIDER'' [''fake'']
          @ require_choice c ''TRANSCRIPTION_PROVIDER'' [''fake'']
          @ require_choice c ''MULTIMODAL_JUDGE_PROVIDER'' [''fake'']
        else [])
     @ (if \<not> is_production c then []
        else require_choice c ''GITHUB_ADAPTER'' [''octokit'']
          @ require_choice c ''GENERATION_PROVIDER'' [''hetzner'', ''openrouter'']
          @ require_choice c ''TRANSCRIPTION_PROVIDER'' [''openrouter'']
          @ require_choice c ''MULTIMODAL_JUDGE_PROVIDER'' [''hetzner'', ''openrouter'']
          @ require_production_s3_identity lib c
          @ require_safe_secret c ''S3_SECRET_ACCESS_KEY'' 32
          @ require_safe_secret c ''WORKER_INTERNAL_SECRET'' 32
          @ require_choice c ''WORKER_HOST'' [''0.0.0.0'']
          @ require_value (number_of c ''WORKER_PORT'' = 4001) ''WORKER_PORT''
          @ require_choice c ''FFMPEG_PATH'' [''/usr/bin/ffmpeg'']
          @ require_choice c ''FFPROBE_PATH'' [''/usr/bin/ffprobe'']
          @ (if text_of c ''KEY_WRAPPING_PROVIDER'' = ''local''
             then require_absolute_path c ''KEY_WRAPPING_PRIVATE_KEY_CONTAINER_PATH'' False else []))"

section \<open>GitHub Control and the migration\<close>

definition refine_github_control :: "config_lib \<Rightarrow> config \<Rightarrow> string list" where
  "refine_github_control lib c =
     refine_production_core lib c @ refine_optimized_local_core lib c
     @ (if is_optimized_local c then require_choice c ''GITHUB_ADAPTER'' [''fake''] else [])
     @ (if text_of c ''GITHUB_ADAPTER'' = ''octokit''
        then require_github_app_id c @ require_absolute_path c ''GITHUB_PRIVATE_KEY_PATH'' False else [])
     @ (if \<not> is_production c then []
        else require_choice c ''GITHUB_ADAPTER'' [''octokit'']
          @ require_absolute_path c ''GITHUB_PRIVATE_KEY_CONTAINER_PATH'' False
          @ require_choice c ''GITHUB_CONTROL_HOST'' [''0.0.0.0'']
          @ require_value (number_of c ''GITHUB_CONTROL_PORT'' = 4002) ''GITHUB_CONTROL_PORT'')"

definition refine_migration :: "config_lib \<Rightarrow> config \<Rightarrow> string list" where
  "refine_migration lib c =
     (if \<not> is_production c then []
      else require_value (text_of c ''NODE_ENV'' = ''production'') ''NODE_ENV'' @ require_production_database lib c)"

end
