(* ===== verification/Config_Load.thy ===== *)
theory Config_Load
  imports Config_Rules
begin

text \<open>
  Loading a configuration (\<open>packages/config/src/index.ts\<close>): the environment file of a service, the
  fields a production environment of that service must not hold, and the schema. The file system is
  a function from paths to the file that \<open>openSync\<close> opens without following a link, with what
  \<open>fstatSync\<close> and \<open>readSync\<close> then return; it is \<open>None\<close> when one of these throws. An error of the
  field schemas carries the fields the validation library reports, which are not modelled.
\<close>

datatype config_error = Configuration_error "string list" | Invalid_fields

record env_file =
  ef_isFile :: bool
  ef_size :: int
  ef_mode :: "32 word"
  ef_content :: bytes

type_synonym file_system = "string \<Rightarrow> env_file option"

section \<open>Fields\<close>

definition forbidden_everywhere_in_production :: "string list" where
  "forbidden_everywhere_in_production = [''PROVIDER_API_KEY'', ''GITHUB_PRIVATE_KEY'']"

definition base_forbidden_production_fields :: "string list" where
  "base_forbidden_production_fields = forbidden_everywhere_in_production @ [
     ''SESSION_SECRET'', ''WORKER_INTERNAL_SECRET'', ''PROVIDER_PAYLOAD_KEY_BASE64'', ''GENERATION_API_KEY'',
     ''GENERATION_FALLBACK_API_KEY'', ''JUDGE_API_KEY'', ''JUDGE_TRANSPORT_FALLBACK_API_KEY'',
     ''TRANSCRIPTION_API_KEY'', ''GITHUB_WEBHOOK_SECRET'', ''GITHUB_CLIENT_SECRET'',
     ''OAUTH_TRUSTED_PROXY_SECRET'', ''GITHUB_PRIVATE_KEY_PATH'', ''GITHUB_PRIVATE_KEY_CONTAINER_PATH'',
     ''S3_SECRET_ACCESS_KEY'']"

definition web_forbidden_production_fields :: "string list" where
  "web_forbidden_production_fields = forbidden_everywhere_in_production @ [
     ''PROVIDER_PAYLOAD_KEY_BASE64'', ''GENERATION_API_KEY'', ''GENERATION_FALLBACK_API_KEY'', ''JUDGE_API_KEY'',
     ''JUDGE_TRANSPORT_FALLBACK_API_KEY'', ''TRANSCRIPTION_API_KEY'', ''KEY_WRAPPING_PRIVATE_KEY_PATH'',
     ''KEY_WRAPPING_PRIVATE_KEY_CONTAINER_PATH'', ''GITHUB_APP_ID'', ''GITHUB_PRIVATE_KEY_PATH'',
     ''GITHUB_PRIVATE_KEY_CONTAINER_PATH'']"

definition worker_forbidden_production_fields :: "string list" where
  "worker_forbidden_production_fields = forbidden_everywhere_in_production @ [
     ''SESSION_SECRET'', ''GITHUB_APP_ID'', ''GITHUB_PRIVATE_KEY_PATH'', ''GITHUB_PRIVATE_KEY_CONTAINER_PATH'',
     ''GITHUB_WEBHOOK_SECRET'', ''GITHUB_CLIENT_ID'', ''GITHUB_CLIENT_SECRET'', ''OAUTH_TRUSTED_PROXY_SECRET'',
     ''KEY_WRAPPING_PUBLIC_KEY_PATH'', ''KEY_WRAPPING_PUBLIC_KEY_CONTAINER_PATH'']"

definition github_control_forbidden_production_fields :: "string list" where
  "github_control_forbidden_production_fields = forbidden_everywhere_in_production @ [
     ''SESSION_SECRET'', ''WORKER_INTERNAL_SECRET'', ''PROVIDER_PAYLOAD_KEY_BASE64'', ''GENERATION_API_KEY'',
     ''GENERATION_FALLBACK_API_KEY'', ''JUDGE_API_KEY'', ''JUDGE_TRANSPORT_FALLBACK_API_KEY'',
     ''TRANSCRIPTION_API_KEY'', ''GITHUB_WEBHOOK_SECRET'', ''GITHUB_CLIENT_ID'', ''GITHUB_CLIENT_SECRET'',
     ''OAUTH_TRUSTED_PROXY_SECRET'', ''S3_ACCESS_KEY_ID'', ''S3_SECRET_ACCESS_KEY'',
     ''KEY_WRAPPING_PUBLIC_KEY_PATH'', ''KEY_WRAPPING_PRIVATE_KEY_PATH'']"

definition web_environment_file_fields :: "string list" where
  "web_environment_file_fields = [''NODE_ENV'', ''DEPLOYMENT_PROFILE'', ''APP_BASE_URL'', ''DEMO_MODE'',
     ''DEMO_FAKE_MEDIA'', ''DATABASE_URL'', ''SESSION_SECRET'', ''LOG_LEVEL'', ''GITHUB_ADAPTER'',
     ''GITHUB_WEBHOOK_SECRET'', ''GITHUB_CLIENT_ID'', ''GITHUB_CLIENT_SECRET'', ''OAUTH_TRUSTED_PROXY_SECRET'',
     ''EVIDENCE_STORAGE_PROVIDER'', ''S3_CONTROL_ENDPOINT'', ''S3_PUBLIC_ENDPOINT'', ''S3_REGION'', ''S3_BUCKET'',
     ''S3_ACCESS_KEY_ID'', ''S3_SECRET_ACCESS_KEY'', ''KEY_WRAPPING_PROVIDER'', ''KEY_WRAPPING_PUBLIC_KEY_PATH'',
     ''KEY_WRAPPING_PUBLIC_KEY_CONTAINER_PATH'', ''WORKER_INTERNAL_URL'', ''GITHUB_CONTROL_INTERNAL_URL'',
     ''WORKER_INTERNAL_SECRET'']"

definition worker_environment_file_fields :: "string list" where
  "worker_environment_file_fields = [''NODE_ENV'', ''DEPLOYMENT_PROFILE'', ''APP_BASE_URL'', ''DEMO_MODE'',
     ''DEMO_FAKE_MEDIA'', ''DATABASE_URL'', ''LOG_LEVEL'', ''GITHUB_ADAPTER'', ''GENERATION_PROVIDER'',
     ''GENERATION_BASE_URL'', ''GENERATION_API_KEY'', ''LEARNING_MODEL'', ''PRACTICE_MODEL'', ''PROOF_QUESTION_MODEL'',
     ''GENERATION_FALLBACK_BASE_URL'', ''GENERATION_FALLBACK_API_KEY'', ''LEARNING_FALLBACK_MODEL'',
     ''PRACTICE_FALLBACK_MODEL'', ''PROOF_QUESTION_FALLBACK_MODEL'', ''MULTIMODAL_JUDGE_PROVIDER'', ''JUDGE_BASE_URL'',
     ''JUDGE_API_KEY'', ''JUDGE_MODEL'', ''JUDGE_FALLBACK_MODEL'', ''JUDGE_TRANSPORT_FALLBACK_BASE_URL'',
     ''JUDGE_TRANSPORT_FALLBACK_API_KEY'', ''JUDGE_TRANSPORT_FALLBACK_MODEL'',
     ''JUDGE_TRANSPORT_FALLBACK_VISION_MODEL'', ''TRANSCRIPTION_PROVIDER'', ''TRANSCRIPTION_BASE_URL'',
     ''TRANSCRIPTION_API_KEY'', ''TRANSCRIPTION_MODEL'', ''EVIDENCE_STORAGE_PROVIDER'', ''S3_CONTROL_ENDPOINT'',
     ''S3_REGION'', ''S3_BUCKET'', ''S3_ACCESS_KEY_ID'', ''S3_SECRET_ACCESS_KEY'', ''KEY_WRAPPING_PROVIDER'',
     ''KEY_WRAPPING_PRIVATE_KEY_PATH'', ''KEY_WRAPPING_PRIVATE_KEY_CONTAINER_PATH'', ''WORKER_INTERNAL_SECRET'',
     ''PROVIDER_PAYLOAD_KEY_BASE64'', ''WORKER_HOST'', ''WORKER_PORT'', ''FFMPEG_PATH'', ''FFPROBE_PATH'']"

definition github_control_environment_file_fields :: "string list" where
  "github_control_environment_file_fields = [''NODE_ENV'', ''DEPLOYMENT_PROFILE'', ''APP_BASE_URL'', ''DEMO_MODE'',
     ''DEMO_FAKE_MEDIA'', ''DATABASE_URL'', ''LOG_LEVEL'', ''GITHUB_ADAPTER'', ''GITHUB_APP_ID'',
     ''GITHUB_PRIVATE_KEY_PATH'', ''GITHUB_PRIVATE_KEY_CONTAINER_PATH'', ''GITHUB_CONTROL_HOST'', ''GITHUB_CONTROL_PORT'']"

definition migration_environment_file_fields :: "string list" where
  "migration_environment_file_fields = [''NODE_ENV'', ''DEPLOYMENT_PROFILE'', ''DATABASE_URL'']"

section \<open>The environment file\<close>

definition environment_file_maximum_bytes :: int where
  "environment_file_maximum_bytes = 64 * 1024"

definition is_absolute_path :: "string \<Rightarrow> bool" where
  "is_absolute_path p \<longleftrightarrow> starts_with ''/'' p"

definition base_name :: "string \<Rightarrow> string" where
  "base_name p = rev (takeWhile (\<lambda>c. c \<noteq> CHR ''/'') (dropWhile (\<lambda>c. c = CHR ''/'') (rev p)))"

text \<open>The mask is octal 7137: nothing but reading and writing for the owner and reading for the
  group; the second one is octal 400.\<close>

definition env_file_safe :: "env_file \<Rightarrow> bool" where
  "env_file_safe f \<longleftrightarrow>
     \<not> (\<not> ef_isFile f \<or> ef_size f < 1 \<or> ef_size f > environment_file_maximum_bytes
        \<or> ef_mode f AND 3679 \<noteq> 0 \<or> ef_mode f AND 256 = 0)
     \<and> int (length (ef_content f)) = ef_size f"

definition upper_chars :: string where
  "upper_chars = ''ABCDEFGHIJKLMNOPQRSTUVWXYZ''"

definition name_char :: "char \<Rightarrow> bool" where
  "name_char c \<longleftrightarrow> c \<in> set (upper_chars @ ''0123456789_'')"

text \<open>A line is \<open>NAME='value'\<close>.\<close>

definition parse_env_line :: "string \<Rightarrow> (string \<times> string) option" where
  "parse_env_line line =
     (let name = takeWhile name_char line; rest = dropWhile name_char line in
      if name = [] \<or> hd name \<notin> set upper_chars then None
      else case rest of
        e # q # t \<Rightarrow>
          if e = CHR ''='' \<and> q = CHR 0x27 \<and> t \<noteq> [] \<and> last t = CHR 0x27 \<and> CHR 0x27 \<notin> set (butlast t)
          then Some (name, butlast t) else None
      | _ \<Rightarrow> None)"

fun load_lines :: "string list \<Rightarrow> (string \<times> string) list \<Rightarrow> string list \<Rightarrow> (string \<times> string) list option" where
  "load_lines allowed loaded [] = Some loaded"
| "load_lines allowed loaded (line # ls) =
     (case parse_env_line line of
        None \<Rightarrow> None
      | Some (name, v) \<Rightarrow>
        if name \<notin> set allowed \<or> name \<in> fst ` set loaded then None
        else load_lines allowed (loaded @ [(name, v)]) ls)"

definition parse_env_file :: "string list \<Rightarrow> string \<Rightarrow> (string \<times> string) list option" where
  "parse_env_file allowed contents =
     (if length contents = 0 \<or> \<not> ends_with [CHR 0x0A] contents \<or> CHR 0x00 \<in> set contents \<or> CHR 0x0D \<in> set contents
      then None else load_lines allowed [] (split_on (CHR 0x0A) (butlast contents)))"

definition resolve_scoped_environment ::
  "config_lib \<Rightarrow> file_system \<Rightarrow> environment \<Rightarrow> string \<Rightarrow> string list \<Rightarrow> config_error + environment" where
  "resolve_scoped_environment lib fs env expected allowed =
     (case env ''SLOPPROOF_ENV_FILE'' of
        None \<Rightarrow> Inr env
      | Some path \<Rightarrow>
        (let failure = Inl (Configuration_error [''SLOPPROOF_ENV_FILE'']) in
         if \<not> is_absolute_path path \<or> base_name path \<noteq> expected then failure
         else case fs path of
           None \<Rightarrow> failure
         | Some f \<Rightarrow>
           if \<not> env_file_safe f then failure
           else case cl_decode_utf8 lib (ef_content f) of
             None \<Rightarrow> failure
           | Some contents \<Rightarrow>
             (case parse_env_file allowed contents of
                None \<Rightarrow> failure
              | Some loaded \<Rightarrow>
                (let conflicting = sort (map fst (filter (\<lambda>(n, v). env n \<noteq> None \<and> env n \<noteq> Some v) loaded)) in
                 if length conflicting > 0 then Inl (Configuration_error conflicting)
                 else Inr (env ++ map_of loaded)))))"

section \<open>The loaders\<close>

definition blank :: "environment \<Rightarrow> string \<Rightarrow> bool" where
  "blank env field \<longleftrightarrow> (case env field of None \<Rightarrow> True | Some v \<Rightarrow> js_trim v = [])"

definition parse_scoped_config ::
  "config_lib \<Rightarrow> shape \<Rightarrow> (config_lib \<Rightarrow> config \<Rightarrow> string list) \<Rightarrow> environment \<Rightarrow> string list
     \<Rightarrow> config_error + config" where
  "parse_scoped_config lib shape refine env forbidden =
     (let exposed = (if env ''DEPLOYMENT_PROFILE'' = Some ''production''
        then filter (\<lambda>f. \<not> blank env f) forbidden else []) in
      if length exposed > 0 then Inl (Configuration_error (sort (remdups exposed)))
      else case parse_shape lib shape env of
        None \<Rightarrow> Inl Invalid_fields
      | Some c \<Rightarrow> (if refine lib c = [] then Inr c else Inl (Configuration_error (sort (remdups (refine lib c))))))"

definition load_base_config :: "config_lib \<Rightarrow> environment \<Rightarrow> config_error + config" where
  "load_base_config lib env = parse_scoped_config lib base_shape refine_base env base_forbidden_production_fields"

definition load_web_config :: "config_lib \<Rightarrow> file_system \<Rightarrow> environment \<Rightarrow> config_error + config" where
  "load_web_config lib fs env = bind_result
     (resolve_scoped_environment lib fs env ''web.env'' web_environment_file_fields)
     (\<lambda>scoped. parse_scoped_config lib web_shape refine_web scoped web_forbidden_production_fields)"

definition load_worker_config :: "config_lib \<Rightarrow> file_system \<Rightarrow> environment \<Rightarrow> config_error + config" where
  "load_worker_config lib fs env = bind_result
     (resolve_scoped_environment lib fs env ''worker.env'' worker_environment_file_fields)
     (\<lambda>scoped. parse_scoped_config lib worker_shape refine_worker scoped worker_forbidden_production_fields)"

definition load_github_control_config :: "config_lib \<Rightarrow> file_system \<Rightarrow> environment \<Rightarrow> config_error + config" where
  "load_github_control_config lib fs env = bind_result
     (resolve_scoped_environment lib fs env ''github-control.env'' github_control_environment_file_fields)
     (\<lambda>scoped. parse_scoped_config lib github_control_shape refine_github_control scoped
        github_control_forbidden_production_fields)"

definition load_migration_config :: "config_lib \<Rightarrow> file_system \<Rightarrow> environment \<Rightarrow> config_error + config" where
  "load_migration_config lib fs env = bind_result
     (resolve_scoped_environment lib fs env ''migrate.env'' migration_environment_file_fields)
     (\<lambda>scoped. parse_scoped_config lib migration_shape refine_migration scoped base_forbidden_production_fields)"

end
