(* ===== verification/Config_Life.thy ===== *)
theory Config_Life
  imports Config_Load Hunk_Facts
begin

text \<open>
  Properties of the configuration: the environment file has one form for its settings and overrides
  nothing, production keeps the secrets of the services apart, an accepted configuration has the
  types of its schema, and the providers of the worker are real ones in production.
\<close>

section \<open>The environment file\<close>

definition env_line :: "string \<times> string \<Rightarrow> string" where
  "env_line s = fst s @ CHR ''='' # CHR 0x27 # snd s @ [CHR 0x27]"

definition env_name_ok :: "string \<Rightarrow> bool" where
  "env_name_ok n \<longleftrightarrow> n \<noteq> [] \<and> hd n \<in> set upper_chars \<and> list_all name_char n"

definition env_value_ok :: "string \<Rightarrow> bool" where
  "env_value_ok v \<longleftrightarrow> list_all (\<lambda>c. c \<notin> {CHR 0x27, CHR 0x0A, CHR 0x0D, CHR 0x00}) v"

definition env_settings_ok :: "string list \<Rightarrow> (string \<times> string) list \<Rightarrow> bool" where
  "env_settings_ok allowed s \<longleftrightarrow> s \<noteq> [] \<and> distinct (map fst s) \<and> fst ` set s \<subseteq> set allowed
     \<and> list_all (\<lambda>(n, v). env_name_ok n \<and> env_value_ok v) s"

definition render_env_file :: "(string \<times> string) list \<Rightarrow> string" where
  "render_env_file s = join_with [CHR 0x0A] (map env_line s) @ [CHR 0x0A]"

lemma name_char_plain: "name_char c \<Longrightarrow> c \<noteq> CHR ''='' \<and> c \<noteq> CHR 0x27 \<and> c \<noteq> CHR 0x0A \<and> c \<noteq> CHR 0x00 \<and> c \<noteq> CHR 0x0D"
  by (auto simp: name_char_def upper_chars_def)

lemma takeWhile_name:
  assumes "list_all name_char n" and "\<not> name_char c"
  shows "takeWhile name_char (n @ c # s) = n" and "dropWhile name_char (n @ c # s) = c # s"
  using assms by (induction n) auto

lemma parse_env_line_iff:
  "parse_env_line l = Some (n, v) \<longleftrightarrow> l = env_line (n, v) \<and> env_name_ok n \<and> CHR 0x27 \<notin> set v"
proof
  assume p: "parse_env_line l = Some (n, v)"
  then obtain t where rest: "dropWhile name_char l = CHR ''='' # CHR 0x27 # t" and n: "n = takeWhile name_char l"
    and ne: "n \<noteq> []" "hd n \<in> set upper_chars" and t: "t \<noteq> []" "last t = CHR 0x27" "CHR 0x27 \<notin> set v" "v = butlast t"
    by (auto simp: parse_env_line_def Let_def split: if_splits list.splits)
  have "l = n @ CHR ''='' # CHR 0x27 # t"
    using rest takeWhile_dropWhile_id [of name_char l] n by simp
  moreover have "t = v @ [CHR 0x27]"
    using t append_butlast_last_id [of t] by simp
  moreover have "list_all name_char n"
    unfolding n list_all_iff by (blast dest: set_takeWhileD)
  ultimately show "l = env_line (n, v) \<and> env_name_ok n \<and> CHR 0x27 \<notin> set v"
    using ne t(3) by (simp add: env_line_def env_name_ok_def)
next
  assume r: "l = env_line (n, v) \<and> env_name_ok n \<and> CHR 0x27 \<notin> set v"
  have eq: "\<not> name_char (CHR ''='')" using name_char_plain by blast
  have "takeWhile name_char l = n" "dropWhile name_char l = CHR ''='' # CHR 0x27 # v @ [CHR 0x27]"
    using r takeWhile_name [OF _ eq, of n] by (simp_all add: env_line_def env_name_ok_def)
  then show "parse_env_line l = Some (n, v)"
    using r by (simp add: parse_env_line_def env_name_ok_def)
qed

definition settings_read ::
  "string list \<Rightarrow> (string \<times> string) list \<Rightarrow> string list \<Rightarrow> (string \<times> string) list \<Rightarrow> (string \<times> string) list \<Rightarrow> bool" where
  "settings_read allowed loaded ls s t \<longleftrightarrow> s = loaded @ t \<and> ls = map env_line t
     \<and> list_all (\<lambda>(n, v). env_name_ok n \<and> CHR 0x27 \<notin> set v) t \<and> fst ` set t \<subseteq> set allowed
     \<and> distinct (map fst t) \<and> fst ` set t \<inter> fst ` set loaded = {}"

lemma load_lines_iff: "load_lines allowed loaded ls = Some s \<longleftrightarrow> (\<exists>t. settings_read allowed loaded ls s t)"
proof (induction ls arbitrary: loaded)
  case (Cons l ls)
  show ?case
  proof (cases "parse_env_line l")
    case None
    then have "\<not> (env_name_ok n \<and> CHR 0x27 \<notin> set v)" if "l = env_line (n, v)" for n v
      using parse_env_line_iff [of l n v] that by simp
    then show ?thesis using None by (auto simp: settings_read_def Cons_eq_map_conv)
  next
    case (Some p)
    obtain n v where nv: "p = (n, v)" by (cases p)
    have l: "l = env_line (n, v)" "env_name_ok n" "CHR 0x27 \<notin> set v"
      using parse_env_line_iff [of l n v] Some nv by auto
    have uniq: "env_line x = l \<Longrightarrow> env_name_ok (fst x) \<Longrightarrow> CHR 0x27 \<notin> set (snd x) \<Longrightarrow> x = (n, v)" for x
      using parse_env_line_iff [of l "fst x" "snd x"] Some nv by auto
    show ?thesis
    proof (cases "n \<notin> set allowed \<or> n \<in> fst ` set loaded")
      case True
      then show ?thesis using Some nv uniq by (auto simp: settings_read_def Cons_eq_map_conv)
    next
      case False
      then have step: "load_lines allowed loaded (l # ls) = load_lines allowed (loaded @ [(n, v)]) ls"
        using Some nv by simp
      have "settings_read allowed loaded (l # ls) s ((n, v) # t)" if "settings_read allowed (loaded @ [(n, v)]) ls s t" for t
        using that l False by (auto simp: settings_read_def)
      moreover have "\<exists>t'. settings_read allowed (loaded @ [(n, v)]) ls s t'" if t: "settings_read allowed loaded (l # ls) s t" for t
      proof -
        obtain x t' where x: "t = x # t'" "l = env_line x" "ls = map env_line t'"
          using t by (auto simp: settings_read_def Cons_eq_map_conv)
        then have "x = (n, v)" using uniq t by (cases x) (auto simp: settings_read_def)
        then show ?thesis
          using x t by (intro exI [of _ t']) (auto simp: settings_read_def)
      qed
      ultimately show ?thesis
        unfolding step Cons.IH by blast
    qed
  qed
next
  case Nil
  have "settings_read allowed loaded [] s t \<longleftrightarrow> s = loaded \<and> t = []" for t
    by (auto simp: settings_read_def)
  then show ?case by auto
qed

lemma env_line_plain:
  assumes "env_name_ok (fst x)" and "env_value_ok (snd x)"
  shows "c \<in> {CHR 0x0A, CHR 0x0D, CHR 0x00} \<Longrightarrow> c \<notin> set (env_line x)"
  using assms name_char_plain
  by (auto simp: env_line_def env_name_ok_def env_value_ok_def list_all_iff)

lemma join_with_set: "set (join_with sep ls) \<subseteq> set sep \<union> \<Union> (set ` set ls)"
  by (induction sep ls rule: join_with.induct) auto

lemma join_with_set_ge: "l \<in> set ls \<Longrightarrow> set l \<subseteq> set (join_with sep ls)"
  by (induction sep ls rule: join_with.induct) auto

lemma join_split: "join_with [c] (split_on c s) = s"
proof (induction s)
  case (Cons x s)
  obtain h t where s: "split_on c s = h # t" by (cases "split_on c s") simp_all
  then have "join_with [c] (h # t) = s" using Cons by simp
  then show ?case
    by (cases t) (auto simp: s)
qed simp

lemma parse_env_file_iff:
  "parse_env_file allowed t = Some s \<longleftrightarrow> env_settings_ok allowed s \<and> t = render_env_file s"
proof
  assume p: "parse_env_file allowed t = Some s"
  then have t: "t \<noteq> []" "ends_with [CHR 0x0A] t" "CHR 0x00 \<notin> set t" "CHR 0x0D \<notin> set t"
    and l: "load_lines allowed [] (split_on (CHR 0x0A) (butlast t)) = Some s"
    by (auto simp: parse_env_file_def split: if_splits)
  have last: "t = butlast t @ [CHR 0x0A]"
    using t(1,2) by (cases t rule: rev_cases) (auto simp: ends_with_def starts_with_def)
  obtain lines: "split_on (CHR 0x0A) (butlast t) = map env_line s"
    and good: "list_all (\<lambda>(n, v). env_name_ok n \<and> CHR 0x27 \<notin> set v) s" "fst ` set s \<subseteq> set allowed" "distinct (map fst s)"
    using l unfolding load_lines_iff by (auto simp: settings_read_def)
  have body: "butlast t = join_with [CHR 0x0A] (map env_line s)"
    using join_split [of "CHR 0x0A" "butlast t"] lines by simp
  have vals: "env_value_ok v" if m: "(n, v) \<in> set s" for n v
  proof -
    have line: "env_line (n, v) \<in> set (split_on (CHR 0x0A) (butlast t))"
      unfolding lines using m by (rule imageI [of "(n, v)" "set s" env_line, unfolded set_map [symmetric]])
    then have "CHR 0x0A \<notin> set (env_line (n, v))" by (rule split_on_lines)
    moreover have "set (env_line (n, v)) \<subseteq> set t"
      using join_with_set_ge [of "env_line (n, v)" "map env_line s" "[CHR 0x0A]"] m last body
      by (metis (no_types, lifting) dual_order.trans image_eqI list.set_map set_append sup_ge1)
    moreover have "CHR 0x27 \<notin> set v"
      using good(1) m by (auto simp: list_all_iff)
    ultimately show ?thesis
      using t(3,4) by (auto simp: env_value_ok_def list_all_iff env_line_def)
  qed
  have "s \<noteq> []" using lines by auto
  then show "env_settings_ok allowed s \<and> t = render_env_file s"
    using good vals last body by (auto simp: env_settings_ok_def render_env_file_def list_all_iff)
next
  assume a: "env_settings_ok allowed s \<and> t = render_env_file s"
  have plain: "c \<notin> set (env_line x)" if "x \<in> set s" "c \<in> {CHR 0x0A, CHR 0x0D, CHR 0x00}" for c x
    using env_line_plain [of x c] a that by (auto simp: env_settings_ok_def list_all_iff)
  let ?b = "join_with [CHR 0x0A] (map env_line s)"
  have split: "split_on (CHR 0x0A) ?b = map env_line s"
    using a plain by (intro split_on_join) (auto simp: env_settings_ok_def)
  have "set ?b \<subseteq> {CHR 0x0A} \<union> \<Union> (set ` set (map env_line s))"
    using join_with_set [of "[CHR 0x0A]" "map env_line s"] by simp
  then have "CHR 0x00 \<notin> set ?b" "CHR 0x0D \<notin> set ?b"
    using plain by auto
  moreover have "settings_read allowed [] (map env_line s) s s"
    using a by (auto simp: settings_read_def env_settings_ok_def env_value_ok_def list_all_iff)
  then have "load_lines allowed [] (map env_line s) = Some s"
    unfolding load_lines_iff by blast
  ultimately show "parse_env_file allowed t = Some s"
    using a split by (simp add: parse_env_file_def render_env_file_def ends_with_def starts_with_def)
qed

text \<open>The environment file as a codec.\<close>

definition env_file_of :: "string list \<Rightarrow> string \<Rightarrow> unit + (string \<times> string) list" where
  "env_file_of allowed t = (case parse_env_file allowed t of None \<Rightarrow> Inl () | Some s \<Rightarrow> Inr s)"

lemma env_file_of_iff: "env_file_of allowed t = Inr s \<longleftrightarrow> parse_env_file allowed t = Some s"
  by (simp add: env_file_of_def split: option.splits)

interpretation env_file: codec render_env_file "env_file_of allowed" "env_settings_ok allowed" for allowed
  by unfold_locales (simp_all only: env_file_of_iff parse_env_file_iff)

section \<open>The scoped environment\<close>

lemma sort_Nil_iff: "sort xs = [] \<longleftrightarrow> xs = []"
  by (metis length_0_conv length_sort)

lemma resolveE:
  assumes "resolve_scoped_environment lib fs env expected allowed = Inr scoped"
  obtains "scoped = env"
  | path f t s where "env ''SLOPPROOF_ENV_FILE'' = Some path" "base_name path = expected" "fs path = Some f"
    "env_file_safe f" "cl_decode_utf8 lib (ef_content f) = Some t" "parse_env_file allowed t = Some s"
    "\<forall>x\<in>set s. \<not> (env (fst x) \<noteq> None \<and> env (fst x) \<noteq> Some (snd x))" "scoped = env ++ map_of s"
  using assms
  by (auto simp: case_prod_beta resolve_scoped_environment_def Let_def sort_Nil_iff filter_empty_conv split: option.splits if_splits)

lemma resolve_extends:
  assumes "resolve_scoped_environment lib fs env expected allowed = Inr scoped"
  shows "env n = Some v \<Longrightarrow> scoped n = Some v"
    and "scoped n \<noteq> env n \<Longrightarrow> n \<in> set allowed"
  using assms
proof (atomize (full), cases rule: resolveE)
  case (2 path f t s)
  have "distinct (map fst s)" "fst ` set s \<subseteq> set allowed"
    using 2(6) by (simp_all add: parse_env_file_iff env_settings_ok_def)
  then show "(env n = Some v \<longrightarrow> scoped n = Some v) \<and> (scoped n \<noteq> env n \<longrightarrow> n \<in> set allowed)"
    using 2(7,8) by (fastforce simp: map_add_def split: option.splits dest!: map_of_SomeD)
qed auto

text \<open>Whatever the environment file of a service holds, loading keeps every variable that is
  already set, adds variables of that service only, and reads a file only when it is a regular file
  with the name of the service that no one but its owner and group can read and its settings are
  given once each in the form that printing them has.\<close>

theorem environment_file_never_overrides:
  assumes "resolve_scoped_environment lib fs env expected allowed = Inr scoped"
  shows "(\<forall>n v. env n = Some v \<longrightarrow> scoped n = Some v) \<and> (\<forall>n. scoped n \<noteq> env n \<longrightarrow> n \<in> set allowed)
    \<and> (scoped \<noteq> env \<longrightarrow> (\<exists>path f s. env ''SLOPPROOF_ENV_FILE'' = Some path \<and> base_name path = expected
        \<and> fs path = Some f \<and> ef_isFile f \<and> ef_mode f AND 7 = 0
        \<and> cl_decode_utf8 lib (ef_content f) = Some (render_env_file s) \<and> distinct (map fst s)
        \<and> scoped = env ++ map_of s))"
proof -
  have "\<exists>path f s. env ''SLOPPROOF_ENV_FILE'' = Some path \<and> base_name path = expected
        \<and> fs path = Some f \<and> ef_isFile f \<and> ef_mode f AND 7 = 0
        \<and> cl_decode_utf8 lib (ef_content f) = Some (render_env_file s) \<and> distinct (map fst s)
        \<and> scoped = env ++ map_of s" if ne: "scoped \<noteq> env"
    using assms
  proof (cases rule: resolveE)
    case (2 path f t s)
    have "ef_mode f AND 3679 = 0"
      using 2(4) by (simp add: env_file_safe_def)
    moreover have "(ef_mode f AND 3679) AND 7 = ef_mode f AND 7"
      by (simp add: and.assoc)
    ultimately have "ef_mode f AND 7 = 0"
      by simp
    moreover have "ef_isFile f"
      using 2(4) by (simp add: env_file_safe_def)
    moreover have "t = render_env_file s" "distinct (map fst s)"
      using 2(6) by (simp_all add: parse_env_file_iff env_settings_ok_def)
    ultimately show ?thesis using 2 by blast
  qed (use ne in blast)
  then show ?thesis
    using resolve_extends [OF assms] by blast
qed

text \<open>C27: the reader of the environment file accepts exactly the files that printing some settings
  gives, each setting once, with a name of the service and a value without a single quote, a line
  feed, a carriage return or a NUL, and returns those settings.\<close>

theorem environment_file_roundtrip:
  "parse_env_file allowed t = Some s \<longleftrightarrow> env_settings_ok allowed s \<and> t = render_env_file s"
  using env_file.dec_eq_iff [of allowed t s] by (auto simp: env_file_of_iff)

section \<open>Accepted configurations\<close>

lemma parse_shape_lookup:
  assumes "parse_shape lib shape env = Some c" and "distinct (map fst shape)"
  shows "(name, f) \<in> set shape \<Longrightarrow> parse_field lib f (env name) = Some (c name)"
    and "name \<notin> fst ` set shape \<Longrightarrow> c name = None"
  using assms
proof (atomize (full), induction shape arbitrary: c)
  case (Cons x shape)
  obtain n g where x: "x = (n, g)" by (cases x)
  obtain v c' where v: "parse_field lib g (env n) = Some v" "parse_shape lib shape env = Some c'" "c = c'(n := v)"
    using Cons.prems(1) by (auto simp: x split: option.splits)
  have "n \<notin> fst ` set shape" "distinct (map fst shape)"
    using Cons.prems(2) by (auto simp: x)
  then show ?case
    using Cons.IH [OF v(2)] v(1,3) x by (auto simp: rev_image_eqI)
qed auto

lemma parse_scopedE:
  assumes "parse_scoped_config lib shape refine env forbidden = Inr c"
  shows "parse_shape lib shape env = Some c" and "refine lib c = []"
    and "env ''DEPLOYMENT_PROFILE'' = Some ''production'' \<Longrightarrow> f \<in> set forbidden \<Longrightarrow> blank env f"
  using assms by (auto simp: parse_scoped_config_def Let_def filter_empty_conv split: option.splits if_splits)

lemma shapes_distinct:
  "distinct (map fst base_shape)" "distinct (map fst web_shape)" "distinct (map fst worker_shape)"
  "distinct (map fst github_control_shape)" "distinct (map fst migration_shape)"
  by code_simp+

definition profile_field :: "shape \<Rightarrow> bool" where
  "profile_field shape \<longleftrightarrow> (''DEPLOYMENT_PROFILE'', One_of [''local'', ''production''], Required) \<in> set shape
     \<or> (''DEPLOYMENT_PROFILE'', One_of [''local'', ''production''], Default (Text_setting ''local'')) \<in> set shape"

lemma shapes_profile:
  "profile_field base_shape" "profile_field web_shape" "profile_field worker_shape"
  "profile_field github_control_shape" "profile_field migration_shape"
  unfolding profile_field_def base_shape_def web_shape_def worker_shape_def github_control_shape_def
    migration_shape_def core_shape_def set_append list.set by blast+

lemma scope_kept:
  assumes "parse_scoped_config lib shape refine env forbidden = Inr c" and "is_production c"
    and "distinct (map fst shape)" and "profile_field shape" and "f \<in> set forbidden" and "f \<notin> fst ` set shape"
  shows "blank env f \<and> c f = None"
proof -
  note P = parse_scopedE [OF assms(1)]
  obtain p where p: "(''DEPLOYMENT_PROFILE'', One_of [''local'', ''production''], p) \<in> set shape"
    "p = Required \<or> p = Default (Text_setting ''local'')"
    using assms(4) unfolding profile_field_def by blast
  have "c ''DEPLOYMENT_PROFILE'' = Some (Text_setting ''production'')"
    using assms(2) by (auto simp: is_production_def text_of_def split: option.splits setting.splits)
  then have "env ''DEPLOYMENT_PROFILE'' = Some ''production''"
    using parse_shape_lookup(1) [OF P(1) assms(3) p(1)] p(2)
    by (auto simp: parse_field_def parse_kind_def split: option.splits if_splits)
  then show ?thesis
    using P(3) [OF _ assms(5)] parse_shape_lookup(2) [OF P(1) assms(3,6)] by blast
qed

lemma forbidden_unknown:
  "list_all (\<lambda>f. f \<notin> set (map fst base_shape) \<and> f \<notin> set (map fst migration_shape)) base_forbidden_production_fields"
  "list_all (\<lambda>f. f \<notin> set (map fst web_shape)) web_forbidden_production_fields"
  "list_all (\<lambda>f. f \<notin> set (map fst worker_shape)) worker_forbidden_production_fields"
  "list_all (\<lambda>f. f \<notin> set (map fst github_control_shape)) github_control_forbidden_production_fields"
  by code_simp+

lemma forbidden_unknown_in:
  "f \<in> set base_forbidden_production_fields \<Longrightarrow> f \<notin> fst ` set base_shape \<and> f \<notin> fst ` set migration_shape"
  "f \<in> set web_forbidden_production_fields \<Longrightarrow> f \<notin> fst ` set web_shape"
  "f \<in> set worker_forbidden_production_fields \<Longrightarrow> f \<notin> fst ` set worker_shape"
  "f \<in> set github_control_forbidden_production_fields \<Longrightarrow> f \<notin> fst ` set github_control_shape"
  using forbidden_unknown(1) [unfolded list_all_iff set_map, THEN bspec, of f]
    forbidden_unknown(2) [unfolded list_all_iff set_map, THEN bspec, of f]
    forbidden_unknown(3) [unfolded list_all_iff set_map, THEN bspec, of f]
    forbidden_unknown(4) [unfolded list_all_iff set_map, THEN bspec, of f]
  by satx+

lemma blank_before: "resolve_scoped_environment lib fs env expected allowed = Inr scoped \<Longrightarrow> blank scoped f \<Longrightarrow> blank env f"
  using resolve_extends(1) [of lib fs env expected allowed scoped f]
  by (auto simp: blank_def split: option.splits)

lemma merged_scope_kept:
  assumes "bind_result (resolve_scoped_environment lib fs env expected allowed)
      (\<lambda>scoped. parse_scoped_config lib shape refine scoped forbidden) = Inr c"
    and "is_production c" and "distinct (map fst shape)" and "profile_field shape"
    and "f \<in> set forbidden" and "f \<notin> fst ` set shape"
  shows "\<exists>scoped. resolve_scoped_environment lib fs env expected allowed = Inr scoped
    \<and> blank scoped f \<and> blank env f \<and> c f = None"
proof -
  obtain scoped where r: "resolve_scoped_environment lib fs env expected allowed = Inr scoped"
      "parse_scoped_config lib shape refine scoped forbidden = Inr c"
    using assms(1) by (auto simp: result_simps)
  show ?thesis
    using scope_kept [OF r(2) assms(2-6)] blank_before [OF r(1)] r(1) by blast
qed

text \<open>The environment a configuration is read from: that of the process, for the services with an environment
  file together with what the file adds; and the variables forbidden to that service.\<close>

definition config_read_from ::
  "config_lib \<Rightarrow> file_system \<Rightarrow> environment \<Rightarrow> config \<Rightarrow> environment \<Rightarrow> string list \<Rightarrow> bool" where
  "config_read_from lib fs env c scoped forbidden \<longleftrightarrow>
     load_base_config lib env = Inr c \<and> scoped = env \<and> forbidden = base_forbidden_production_fields
   \<or> load_web_config lib fs env = Inr c \<and> forbidden = web_forbidden_production_fields
     \<and> resolve_scoped_environment lib fs env ''web.env'' web_environment_file_fields = Inr scoped
   \<or> load_worker_config lib fs env = Inr c \<and> forbidden = worker_forbidden_production_fields
     \<and> resolve_scoped_environment lib fs env ''worker.env'' worker_environment_file_fields = Inr scoped
   \<or> load_github_control_config lib fs env = Inr c \<and> forbidden = github_control_forbidden_production_fields
     \<and> resolve_scoped_environment lib fs env ''github-control.env'' github_control_environment_file_fields = Inr scoped
   \<or> load_migration_config lib fs env = Inr c \<and> forbidden = base_forbidden_production_fields
     \<and> resolve_scoped_environment lib fs env ''migrate.env'' migration_environment_file_fields = Inr scoped"

lemma read_from_kept:
  assumes "config_read_from lib fs env c scoped forbidden" and "is_production c" and "f \<in> set forbidden"
  shows "blank env f \<and> blank scoped f \<and> c f = None"
  using assms(1) unfolding config_read_from_def
proof (elim disjE conjE)
  assume l: "load_base_config lib env = Inr c" "scoped = env" "forbidden = base_forbidden_production_fields"
  show ?thesis
    using scope_kept [OF l(1) [unfolded load_base_config_def, folded l(3)] assms(2)
        shapes_distinct(1) shapes_profile(1) assms(3)] forbidden_unknown_in(1) [OF assms(3) [unfolded l(3)]] l(2)
    by auto
next
  assume l: "load_web_config lib fs env = Inr c" "forbidden = web_forbidden_production_fields"
    "resolve_scoped_environment lib fs env ''web.env'' web_environment_file_fields = Inr scoped"
  show ?thesis
    using merged_scope_kept [OF l(1) [unfolded load_web_config_def, folded l(2)] assms(2)
        shapes_distinct(2) shapes_profile(2) assms(3)] forbidden_unknown_in(2) [OF assms(3) [unfolded l(2)]] l(3)
    by auto
next
  assume l: "load_worker_config lib fs env = Inr c" "forbidden = worker_forbidden_production_fields"
    "resolve_scoped_environment lib fs env ''worker.env'' worker_environment_file_fields = Inr scoped"
  show ?thesis
    using merged_scope_kept [OF l(1) [unfolded load_worker_config_def, folded l(2)] assms(2)
        shapes_distinct(3) shapes_profile(3) assms(3)] forbidden_unknown_in(3) [OF assms(3) [unfolded l(2)]] l(3)
    by auto
next
  assume l: "load_github_control_config lib fs env = Inr c" "forbidden = github_control_forbidden_production_fields"
    "resolve_scoped_environment lib fs env ''github-control.env'' github_control_environment_file_fields = Inr scoped"
  show ?thesis
    using merged_scope_kept [OF l(1) [unfolded load_github_control_config_def, folded l(2)] assms(2)
        shapes_distinct(4) shapes_profile(4) assms(3)] forbidden_unknown_in(4) [OF assms(3) [unfolded l(2)]] l(3)
    by auto
next
  assume l: "load_migration_config lib fs env = Inr c" "forbidden = base_forbidden_production_fields"
    "resolve_scoped_environment lib fs env ''migrate.env'' migration_environment_file_fields = Inr scoped"
  show ?thesis
    using merged_scope_kept [OF l(1) [unfolded load_migration_config_def, folded l(2)] assms(2)
        shapes_distinct(5) shapes_profile(5) assms(3)] forbidden_unknown_in(1) [OF assms(3) [unfolded l(2)]] l(3)
    by auto
qed

text \<open>C26: in production no service starts with a secret of another one: when a configuration is
  accepted, each variable that is forbidden to that service is unset or blank in the environment of
  the process, and also in that environment together with what the environment file of the service
  adds to it, and it has no setting.\<close>

theorem production_secrets_stay_in_scope:
  assumes "is_production c" and "f \<in> set forbidden"
    and "(load_base_config lib env = Inr c \<and> forbidden = base_forbidden_production_fields)
      \<or> (load_web_config lib fs env = Inr c \<and> forbidden = web_forbidden_production_fields)
      \<or> (load_worker_config lib fs env = Inr c \<and> forbidden = worker_forbidden_production_fields)
      \<or> (load_github_control_config lib fs env = Inr c \<and> forbidden = github_control_forbidden_production_fields)
      \<or> (load_migration_config lib fs env = Inr c \<and> forbidden = base_forbidden_production_fields)"
  shows "blank env f \<and> c f = None
    \<and> (\<exists>scoped. config_read_from lib fs env c scoped forbidden)
    \<and> (\<forall>scoped. config_read_from lib fs env c scoped forbidden \<longrightarrow> blank scoped f)"
proof -
  have "\<exists>scoped. config_read_from lib fs env c scoped forbidden"
    using assms(3) unfolding config_read_from_def load_web_config_def load_worker_config_def
      load_github_control_config_def load_migration_config_def bind_result_Inr_iff by blast
  then show ?thesis
    using read_from_kept [OF _ assms(1,2)] by blast
qed

section \<open>Types of the settings\<close>

fun setting_ok :: "config_lib \<Rightarrow> field_kind \<Rightarrow> setting \<Rightarrow> bool" where
  "setting_ok lib (One_of vs) (Text_setting t) \<longleftrightarrow> t \<in> set vs"
| "setting_ok lib Flag (Flag_setting b) \<longleftrightarrow> True"
| "setting_ok lib Url_text (Text_setting t) \<longleftrightarrow> (\<exists>u. cl_url_schema lib u = Some t)"
| "setting_ok lib (Free_text trimmed lo hi) (Text_setting t) \<longleftrightarrow> lo \<le> length t
     \<and> (case hi of None \<Rightarrow> True | Some h \<Rightarrow> length t \<le> h) \<and> (trimmed \<longrightarrow> js_trim t = t)"
| "setting_ok lib Proxy_secret (Text_setting t) \<longleftrightarrow> 32 \<le> length t \<and> length t \<le> 256 \<and> all_in proxy_secret_chars t"
| "setting_ok lib Payload_key (Text_setting t) \<longleftrightarrow> (\<exists>k. length k = 32 \<and> encode_base64 k = t)"
| "setting_ok lib Port (Number_setting n) \<longleftrightarrow> 1 \<le> n \<and> n \<le> 65535"
| "setting_ok lib k v \<longleftrightarrow> False"

definition defaults_ok :: "shape \<Rightarrow> bool" where
  "defaults_ok shape \<longleftrightarrow> list_all (\<lambda>(n, k, p). case p of
     Default (Text_setting t) \<Rightarrow> (case k of One_of vs \<Rightarrow> t \<in> set vs
       | Free_text trimmed lo None \<Rightarrow> lo \<le> length t \<and> js_trim t = t | _ \<Rightarrow> False)
   | Default (Flag_setting b) \<Rightarrow> k = Flag
   | Default (Number_setting n) \<Rightarrow> k = Port \<and> 1 \<le> n \<and> n \<le> 65535
   | _ \<Rightarrow> True) shape"

lemma shapes_defaults:
  "defaults_ok base_shape" "defaults_ok web_shape" "defaults_ok worker_shape"
  "defaults_ok github_control_shape" "defaults_ok migration_shape"
  by code_simp+

definition well_typed :: "config_lib \<Rightarrow> shape \<Rightarrow> config \<Rightarrow> bool" where
  "well_typed lib shape c \<longleftrightarrow> dom c \<subseteq> fst ` set shape
     \<and> (\<forall>(name, k, p)\<in>set shape. case c name of None \<Rightarrow> p = Optional | Some v \<Rightarrow> setting_ok lib k v)"

lemma parse_kind_ok: "parse_kind lib k t = Some v \<Longrightarrow> setting_ok lib k v"
  by (auto simp: parse_kind_def Let_def payload_encryption_key_ok_def
      split: field_kind.splits if_splits option.splits sum.splits)

lemma default_ok: "defaults_ok shape \<Longrightarrow> (n, k, Default d) \<in> set shape \<Longrightarrow> setting_ok lib k d"
proof -
  assume "defaults_ok shape" "(n, k, Default d) \<in> set shape"
  then have "case d of Text_setting t \<Rightarrow> (case k of One_of vs \<Rightarrow> t \<in> set vs
       | Free_text trimmed lo None \<Rightarrow> lo \<le> length t \<and> js_trim t = t | _ \<Rightarrow> False)
   | Flag_setting b \<Rightarrow> k = Flag
   | Number_setting n \<Rightarrow> k = Port \<and> 1 \<le> n \<and> n \<le> 65535"
    unfolding defaults_ok_def list_all_iff by (fastforce split: setting.splits)
  then show ?thesis
    by (cases d; cases k) (auto split: option.splits)
qed

lemma parsed_well_typed:
  assumes "parse_scoped_config lib shape refine env forbidden = Inr c" and "distinct (map fst shape)"
    and "defaults_ok shape"
  shows "well_typed lib shape c"
proof -
  note L = parse_shape_lookup [OF parse_scopedE(1) [OF assms(1)] assms(2)]
  have "dom c \<subseteq> fst ` set shape"
    using L(2) by (metis domIff subsetI)
  moreover have "case c name of None \<Rightarrow> p = Optional | Some v \<Rightarrow> setting_ok lib k v"
    if m: "(name, k, p) \<in> set shape" for name k p
  proof (cases "env name")
    case None
    show ?thesis
    proof (cases p)
      case (Default d)
      then have "c name = Some d" using L(1) [OF m] None by (simp add: parse_field_def)
      then show ?thesis using default_ok [OF assms(3)] m Default by auto
    qed (use L(1) [OF m] None in \<open>simp_all add: parse_field_def\<close>)
  next
    case (Some t)
    then obtain v where "parse_kind lib k t = Some v" "c name = Some v"
      using L(1) [OF m] by (cases "parse_kind lib k t") (auto simp: parse_field_def)
    then show ?thesis using parse_kind_ok by simp
  qed
  ultimately show ?thesis
    unfolding well_typed_def by blast
qed

text \<open>C29: an accepted configuration of any service has exactly the settings of its schema: no other
  name, every required or defaulted one, each of its type and within its bounds, the payload key
  the canonical encoding of 32 bytes.\<close>

theorem accepted_config_is_typed:
  "(load_base_config lib env = Inr c \<longrightarrow> well_typed lib base_shape c)
   \<and> (load_web_config lib fs env = Inr c \<longrightarrow> well_typed lib web_shape c)
   \<and> (load_worker_config lib fs env = Inr c \<longrightarrow> well_typed lib worker_shape c)
   \<and> (load_github_control_config lib fs env = Inr c \<longrightarrow> well_typed lib github_control_shape c)
   \<and> (load_migration_config lib fs env = Inr c \<longrightarrow> well_typed lib migration_shape c)"
  using parsed_well_typed [OF _ shapes_distinct(1) shapes_defaults(1)]
    parsed_well_typed [OF _ shapes_distinct(2) shapes_defaults(2)]
    parsed_well_typed [OF _ shapes_distinct(3) shapes_defaults(3)]
    parsed_well_typed [OF _ shapes_distinct(4) shapes_defaults(4)]
    parsed_well_typed [OF _ shapes_distinct(5) shapes_defaults(5)]
  by (auto simp: load_base_config_def load_web_config_def load_worker_config_def load_github_control_config_def
      load_migration_config_def result_simps)

section \<open>The providers of the worker\<close>

text \<open>An endpoint: an https URL without credentials, whose host is not spelled, in any case, \<open>localhost\<close>, a
  name below it, an IPv4 loopback address, the unspecified IPv4 address or the IPv6 loopback address.\<close>

definition spells_this_host :: "string \<Rightarrow> bool" where
  "spells_this_host h \<longleftrightarrow> (let n = map lower_char h in
     n \<in> {''localhost'', ''0.0.0.0'', ''::1'', ''[::1]''} \<or> ends_with ''.localhost'' n \<or> starts_with ''127.'' n)"

definition endpoint_ready :: "config_lib \<Rightarrow> config \<Rightarrow> string \<Rightarrow> string \<Rightarrow> bool" where
  "endpoint_ready lib c url key \<longleftrightarrow>
     (\<exists>u. cl_parse_url lib (text_of c url) = Some u \<and> ur_protocol u = ''https:''
       \<and> ur_username u = [] \<and> ur_password u = [] \<and> \<not> spells_this_host (ur_hostname u))
     \<and> 16 \<le> length (text_of c key) \<and> \<not> looks_like_placeholder (text_of c key)"

lemma strip_brackets_inside:
  "n \<in> {''localhost'', ''0.0.0.0'', ''::1'', ''[::1]''} \<Longrightarrow> strip_brackets n \<in> {''localhost'', ''0.0.0.0'', ''::1''}"
  by (auto simp: strip_brackets_def)

lemma strip_brackets_suffix: "ends_with ''.localhost'' n \<Longrightarrow> ends_with ''.localhost'' (strip_brackets n)"
proof -
  assume "ends_with ''.localhost'' n"
  then obtain m where "rev n = rev ''.localhost'' @ m"
    unfolding ends_with_def starts_with_def by (metis append_take_drop_id)
  then have n: "n = rev m @ ''.localhost''"
    by (metis rev_append rev_rev_ident)
  show ?thesis
  proof (cases "rev m")
    case Nil
    then show ?thesis
      using n by (simp add: strip_brackets_def ends_with_def starts_with_def)
  next
    case (Cons c k)
    then show ?thesis
      using n by (simp add: strip_brackets_def ends_with_def starts_with_def)
  qed
qed

lemma strip_brackets_prefix: "starts_with ''127.'' n \<Longrightarrow> starts_with ''127.'' (strip_brackets n)"
proof -
  assume "starts_with ''127.'' n"
  then obtain m where "n = ''127.'' @ m"
    unfolding starts_with_def by (metis append_take_drop_id)
  then show ?thesis
    by (cases m rule: rev_cases) (auto simp: strip_brackets_def starts_with_def butlast_append Let_def)
qed

lemma spelled_is_loopback: "spells_this_host h \<Longrightarrow> is_loopback_hostname h"
  using strip_brackets_inside [of "map lower_char h"] strip_brackets_suffix [of "map lower_char h"]
    strip_brackets_prefix [of "map lower_char h"]
  unfolding spells_this_host_def is_loopback_hostname_def Let_def insert_iff empty_iff by satx

lemma endpoint_readyI:
  "is_production_endpoint lib (text_of c url) \<Longrightarrow> 16 \<le> length (text_of c key)
     \<Longrightarrow> \<not> looks_like_placeholder (text_of c key) \<Longrightarrow> endpoint_ready lib c url key"
  using spelled_is_loopback by (auto simp: is_production_endpoint_def endpoint_ready_def split: option.splits)

lemma not_endpoint_ready:
  "\<not> endpoint_ready lib c url key \<Longrightarrow> is_production_endpoint lib (text_of c url)
     \<longrightarrow> 16 \<le> length (text_of c key) \<longrightarrow> looks_like_placeholder (text_of c key)"
  using endpoint_readyI by blast

lemma require_Nil [simp]: "require_value b f = [] \<longleftrightarrow> b"
  by (simp add: require_value_def)

lemma endpoint_Nil [simp]:
  "require_provider_endpoint lib c f = [] \<longleftrightarrow> text_of c f \<noteq> [] \<and> is_production_endpoint lib (text_of c f)"
  by (auto simp: require_provider_endpoint_def Let_def)

lemma secret_Nil [simp]:
  "require_provider_secret c f = [] \<longleftrightarrow> 16 \<le> length (text_of c f) \<and> \<not> looks_like_placeholder (text_of c f)"
  by (auto simp: require_provider_secret_def Let_def)

lemma reject_Nil [simp]: "reject_present_fields c fs = [] \<longleftrightarrow> list_all (\<lambda>f. text_of c f = []) fs"
  by (induction fs) (auto simp: reject_present_fields_def require_value_def)

definition provider_settled ::
  "config_lib \<Rightarrow> config \<Rightarrow> string \<Rightarrow> string \<Rightarrow> string \<Rightarrow> string list \<Rightarrow> bool" where
  "provider_settled lib c provider url key fallback \<longleftrightarrow>
     (text_of c provider = ''fake'' \<or> endpoint_ready lib c url key)
     \<and> (list_all (\<lambda>f. text_of c f = []) fallback
        \<or> (text_of c provider = ''openrouter'' \<and> list_all (\<lambda>f. text_of c f \<noteq> []) fallback
           \<and> endpoint_ready lib c (fallback ! 0) (fallback ! 1)))
     \<and> (is_production c \<longrightarrow> text_of c provider \<noteq> ''fake''
        \<and> (text_of c provider = ''openrouter'' \<longrightarrow> list_all (\<lambda>f. text_of c f \<noteq> []) fallback))
     \<and> (is_optimized_local c \<longrightarrow> text_of c provider = ''fake'')"

lemma generation_fields_kind:
  "map (\<lambda>f. (ends_with ''BASE_URL'' f, ends_with ''API_KEY'' f)) generation_fallback_fields
     = [(True, False), (False, True), (False, False), (False, False), (False, False)]"
  "map (\<lambda>f. (ends_with ''BASE_URL'' f, ends_with ''API_KEY'' f)) judge_transport_fallback_fields
     = [(True, False), (False, True), (False, False), (False, False)]"
  by code_simp+

lemma fallback_settled:
  assumes "refine_transport_fallback_fields lib c (u # k # ms) required = []"
    and "map (\<lambda>f. (ends_with ''BASE_URL'' f, ends_with ''API_KEY'' f)) (u # k # ms)
      = (True, False) # (False, True) # replicate n (False, False)"
  shows "(list_all (\<lambda>f. text_of c f = []) (u # k # ms) \<and> \<not> required)
    \<or> (list_all (\<lambda>f. text_of c f \<noteq> []) (u # k # ms) \<and> endpoint_ready lib c u k)"
proof -
  have kinds: "ends_with ''BASE_URL'' u" "ends_with ''API_KEY'' k" "\<not> ends_with ''BASE_URL'' k"
    "list_all (\<lambda>f. \<not> ends_with ''BASE_URL'' f \<and> \<not> ends_with ''API_KEY'' f) ms"
  proof -
    have "set (map (\<lambda>f. (ends_with ''BASE_URL'' f, ends_with ''API_KEY'' f)) ms) \<subseteq> {(False, False)}"
      using assms(2) by (simp add: set_replicate_conv_if del: set_map)
    then show "list_all (\<lambda>f. \<not> ends_with ''BASE_URL'' f \<and> \<not> ends_with ''API_KEY'' f) ms"
      by (auto simp: list_all_iff image_subset_iff)
  qed (use assms(2) in simp_all)
  show ?thesis
  proof (cases "\<not> required \<and> filter (\<lambda>f. text_of c f \<noteq> []) (u # k # ms) = []")
    case True
    then show ?thesis by (auto simp: filter_empty_conv list_all_iff split: if_splits)
  next
    case False
    then have all: "\<forall>f\<in>set (u # k # ms). refine_transport_fallback_field lib c f = []"
      using assms(1) unfolding refine_transport_fallback_fields_def if_not_P [OF False] concat_eq_Nil_conv set_map
      by blast
    have "text_of c f \<noteq> []" if "f \<in> set ms" for f
      using all that kinds(4) by (auto simp: refine_transport_fallback_field_def list_all_iff)
    then show ?thesis
      using all kinds(1-3) by (auto simp: refine_transport_fallback_field_def list_all_iff intro!: endpoint_readyI dest!: not_endpoint_ready)
  qed
qed

lemma worker_rules:
  assumes "refine_worker lib c = []"
  shows "refine_generation_provider lib c = []" "refine_judge_provider lib c = []" "refine_transcription_provider lib c = []"
    and "is_optimized_local c \<Longrightarrow> text_of c ''GENERATION_PROVIDER'' = ''fake'' \<and> text_of c ''MULTIMODAL_JUDGE_PROVIDER'' = ''fake''
      \<and> text_of c ''TRANSCRIPTION_PROVIDER'' = ''fake''"
    and "is_production c \<Longrightarrow> text_of c ''GENERATION_PROVIDER'' \<noteq> ''fake'' \<and> text_of c ''MULTIMODAL_JUDGE_PROVIDER'' \<noteq> ''fake''
      \<and> text_of c ''TRANSCRIPTION_PROVIDER'' = ''openrouter'' \<and> \<not> flag_of c ''DEMO_MODE'' \<and> \<not> flag_of c ''DEMO_FAKE_MEDIA''"
  using assms by (auto simp: refine_worker_def require_choice_def refine_production_core_def)

text \<open>C28: in every accepted configuration of the worker the providers of generation and of judging
  are each either fake or have an https endpoint without credentials, whose host is none of the
  spellings of this host that the configuration knows (localhost and the names below it, the addresses
  that begin with 127., 0.0.0.0 and ::1; other spellings, as localhost with a final dot, are not
  excluded), and a key of at least 16 characters that the placeholder test passes; their fallback
  settings are all absent or, for openrouter only, all present and usable in the same sense; production
  has no fake provider and no demo flag, and needs the fallback with openrouter, and an optimized local
  deployment has only fake providers.\<close>

theorem worker_providers_are_settled:
  assumes "load_worker_config lib fs env = Inr c"
  shows "provider_settled lib c ''GENERATION_PROVIDER'' ''GENERATION_BASE_URL'' ''GENERATION_API_KEY'' generation_fallback_fields
    \<and> provider_settled lib c ''MULTIMODAL_JUDGE_PROVIDER'' ''JUDGE_BASE_URL'' ''JUDGE_API_KEY'' judge_transport_fallback_fields
    \<and> (text_of c ''TRANSCRIPTION_PROVIDER'' = ''fake''
        \<or> endpoint_ready lib c ''TRANSCRIPTION_BASE_URL'' ''TRANSCRIPTION_API_KEY'')
    \<and> (is_production c \<longrightarrow> text_of c ''TRANSCRIPTION_PROVIDER'' = ''openrouter'' \<and> \<not> flag_of c ''DEMO_MODE''
        \<and> \<not> flag_of c ''DEMO_FAKE_MEDIA'')
    \<and> (is_optimized_local c \<longrightarrow> text_of c ''TRANSCRIPTION_PROVIDER'' = ''fake'')"
proof -
  have "refine_worker lib c = []"
    using assms by (auto simp: load_worker_config_def result_simps dest: parse_scopedE(2))
  note W = worker_rules [OF this]
  have g: "provider_settled lib c ''GENERATION_PROVIDER'' ''GENERATION_BASE_URL'' ''GENERATION_API_KEY'' generation_fallback_fields"
  proof (cases "text_of c ''GENERATION_PROVIDER'' = ''openrouter''")
    case True
    then have f: "refine_transport_fallback_fields lib c generation_fallback_fields (is_production c) = []"
      using W(1) by (simp add: refine_generation_provider_def)
    have "(list_all (\<lambda>f. text_of c f = []) generation_fallback_fields \<and> \<not> is_production c)
      \<or> (list_all (\<lambda>f. text_of c f \<noteq> []) generation_fallback_fields
        \<and> endpoint_ready lib c (generation_fallback_fields ! 0) (generation_fallback_fields ! 1))"
      using fallback_settled [OF f [unfolded generation_fallback_fields_def], of 3] generation_fields_kind(1)
      by (simp add: generation_fallback_fields_def numeral_3_eq_3)
    then show ?thesis
      using True W(1,4) by (auto simp: provider_settled_def refine_generation_provider_def intro!: endpoint_readyI dest!: not_endpoint_ready)
  next
    case False
    then show ?thesis
      using W(1,4,5) by (auto simp: provider_settled_def refine_generation_provider_def split: if_splits intro!: endpoint_readyI dest!: not_endpoint_ready)
  qed
  have j: "provider_settled lib c ''MULTIMODAL_JUDGE_PROVIDER'' ''JUDGE_BASE_URL'' ''JUDGE_API_KEY'' judge_transport_fallback_fields"
  proof (cases "text_of c ''MULTIMODAL_JUDGE_PROVIDER'' = ''openrouter''")
    case True
    then have f: "refine_transport_fallback_fields lib c judge_transport_fallback_fields (is_production c) = []"
      using W(2) by (simp add: refine_judge_provider_def)
    have "(list_all (\<lambda>f. text_of c f = []) judge_transport_fallback_fields \<and> \<not> is_production c)
      \<or> (list_all (\<lambda>f. text_of c f \<noteq> []) judge_transport_fallback_fields
        \<and> endpoint_ready lib c (judge_transport_fallback_fields ! 0) (judge_transport_fallback_fields ! 1))"
      using fallback_settled [OF f [unfolded judge_transport_fallback_fields_def], of 2] generation_fields_kind(2)
      by (simp add: judge_transport_fallback_fields_def numeral_2_eq_2)
    then show ?thesis
      using True W(2,4) by (auto simp: provider_settled_def refine_judge_provider_def intro!: endpoint_readyI dest!: not_endpoint_ready)
  next
    case False
    then show ?thesis
      using W(2,4,5) by (auto simp: provider_settled_def refine_judge_provider_def split: if_splits intro!: endpoint_readyI dest!: not_endpoint_ready)
  qed
  have "text_of c ''TRANSCRIPTION_PROVIDER'' = ''fake''
        \<or> endpoint_ready lib c ''TRANSCRIPTION_BASE_URL'' ''TRANSCRIPTION_API_KEY''"
    using W(3) by (auto simp: refine_transcription_provider_def split: if_splits intro!: endpoint_readyI dest!: not_endpoint_ready)
  then show ?thesis
    using g j W(4,5) by blast
qed

section \<open>Names of this host\<close>

text \<open>The test for names of this host does not know the absolute form with a final dot, nor an IPv4
  address mapped into IPv6.\<close>

lemma other_loopback_names:
  "\<not> is_loopback_hostname ''localhost.''" "\<not> is_loopback_hostname ''[::ffff:7f00:1]''"
  "is_loopback_hostname ''localhost''" "is_loopback_hostname ''[::1]''"
  by code_simp+

end
