(* ===== verification/Config_Demo.thy ===== *)
theory Config_Demo
  imports Config_Life
begin

text \<open>
  A production environment of the worker and an environment file, evaluated: the hypotheses of the
  properties of the configuration can hold.
\<close>

definition https_url :: "string \<Rightarrow> url" where
  "https_url host = \<lparr>ur_protocol = ''https:'', ur_username = [], ur_password = [], ur_hostname = host, ur_port = [],
     ur_pathname = ''/'', ur_search = [], ur_hash = []\<rparr>"

definition demo_password :: string where
  "demo_password = ''correct-horse-battery-staple''"

text \<open>Of the URL parser, the results on the texts of the demo.\<close>

definition demo_urls :: "(string \<times> url) list" where
  "demo_urls = [(''https://p.io'', https_url ''p.io''),
     (''postgres'', \<lparr>ur_protocol = ''postgres:'', ur_username = ''slopproof'', ur_password = demo_password,
        ur_hostname = ''postgres'', ur_port = ''5432'', ur_pathname = ''/slopproof'', ur_search = [], ur_hash = []\<rparr>)]"

definition demo_lib :: config_lib where
  "demo_lib = \<lparr>cl_parse_url = map_of demo_urls, cl_url_schema = Some, cl_number = \<lambda>_. None,
     cl_decode_component = Some, cl_decode_utf8 = \<lambda>bs. Some (map (\<lambda>b. char_of (unat b)) bs)\<rparr>"

definition demo_secret :: string where
  "demo_secret = ''0123456789abcdef0123456789abcdef''"

definition demo_key :: string where
  "demo_key = replicate 43 (CHR ''A'') @ ''=''"

definition demo_worker_settings :: "(string \<times> string) list" where
  "demo_worker_settings = [(''NODE_ENV'', ''production''), (''DEPLOYMENT_PROFILE'', ''production''),
     (''APP_BASE_URL'', ''https://p.io''), (''DATABASE_URL'', ''postgres''), (''GITHUB_ADAPTER'', ''octokit''),
     (''EVIDENCE_STORAGE_PROVIDER'', ''s3''), (''S3_CONTROL_ENDPOINT'', ''https://p.io''), (''S3_REGION'', ''eu''),
     (''S3_BUCKET'', ''proofs''), (''S3_ACCESS_KEY_ID'', ''k''), (''S3_SECRET_ACCESS_KEY'', demo_secret),
     (''KEY_WRAPPING_PROVIDER'', ''kms''), (''KMS_PROVIDER'', ''p''), (''KMS_KEY_ID'', ''1''),
     (''WORKER_INTERNAL_SECRET'', demo_secret), (''PROVIDER_PAYLOAD_KEY_BASE64'', demo_key),
     (''GENERATION_PROVIDER'', ''hetzner''), (''GENERATION_BASE_URL'', ''https://p.io''),
     (''GENERATION_API_KEY'', demo_secret), (''LEARNING_MODEL'', ''m''), (''PRACTICE_MODEL'', ''m''),
     (''PROOF_QUESTION_MODEL'', ''m''), (''TRANSCRIPTION_PROVIDER'', ''openrouter''),
     (''TRANSCRIPTION_BASE_URL'', ''https://p.io''), (''TRANSCRIPTION_API_KEY'', demo_secret),
     (''TRANSCRIPTION_MODEL'', ''m''), (''MULTIMODAL_JUDGE_PROVIDER'', ''hetzner''), (''JUDGE_BASE_URL'', ''https://p.io''),
     (''JUDGE_API_KEY'', demo_secret), (''JUDGE_MODEL'', ''m''), (''JUDGE_FALLBACK_MODEL'', ''m''),
     (''WORKER_HOST'', ''0.0.0.0''), (''FFMPEG_PATH'', ''/usr/bin/ffmpeg''), (''FFPROBE_PATH'', ''/usr/bin/ffprobe'')]"

definition demo_worker_env :: environment where
  "demo_worker_env = map_of demo_worker_settings"

text \<open>The settings as an association list, which is evaluated faster than the map.\<close>

fun parse_list :: "config_lib \<Rightarrow> shape \<Rightarrow> environment \<Rightarrow> (string \<times> setting) list option" where
  "parse_list lib [] env = Some []"
| "parse_list lib ((name, f) # fs) env =
     (case parse_field lib f (env name) of
        None \<Rightarrow> None
      | Some None \<Rightarrow> parse_list lib fs env
      | Some (Some v) \<Rightarrow> map_option (\<lambda>l. (name, v) # l) (parse_list lib fs env))"

lemma parse_list_names: "parse_list lib shape env = Some l \<Longrightarrow> fst ` set l \<subseteq> fst ` set shape"
proof (induction shape arbitrary: l)
  case (Cons x shape)
  obtain n f where x: "x = (n, f)" by (cases x)
  obtain l' where l': "parse_list lib shape env = Some l'" "fst ` set l \<subseteq> insert n (fst ` set l')"
    using Cons.prems by (auto simp: x split: option.splits)
  then show ?case
    using Cons.IH [OF l'(1)] by (auto simp: x)
qed simp

lemma parse_list_shape:
  "distinct (map fst shape) \<Longrightarrow> parse_shape lib shape env = map_option map_of (parse_list lib shape env)"
proof (induction shape)
  case (Cons x shape)
  obtain n f where x: "x = (n, f)" by (cases x)
  have "map_of l n = None" if "parse_list lib shape env = Some l" for l
    using parse_list_names [OF that] Cons.prems x by (auto simp: map_of_eq_None_iff)
  then show ?case
    using Cons x by (cases "parse_list lib shape env") (auto simp: fun_upd_idem split: option.splits)
qed simp

lemma parse_list_append:
  "parse_list lib (xs @ ys) env = (case parse_list lib xs env of None \<Rightarrow> None
     | Some l \<Rightarrow> map_option ((@) l) (parse_list lib ys env))"
proof (induction xs)
  case Nil
  show ?case by (cases "parse_list lib ys env") simp_all
next
  case (Cons x xs)
  obtain n f where "x = (n, f)" by (cases x)
  then show ?case
    using Cons by (cases "parse_list lib ys env") (auto split: option.splits)
qed

lemma demo_key_ok: "payload_encryption_key_ok demo_key"
proof -
  have e: "encode_base64url (replicate 32 0) = replicate 43 (CHR ''A'')"
    by (simp add: eval_nat_numeral base64url_aggregate_def base64url_char_def base64url_alphabet_def)
  have "decode_base64url (replicate 43 (CHR ''A'')) = Inr (replicate 32 0)"
    unfolding base64url.dec_eq_iff by (simp add: e)
  moreover have "map url_safe_char (takeWhile (\<lambda>c. c \<noteq> CHR ''='') demo_key) = replicate 43 (CHR ''A'')"
    by (simp add: demo_key_def eval_nat_numeral url_safe_char_def)
  moreover have "encode_base64 (replicate 32 0) = demo_key"
    unfolding encode_base64_def e by (simp add: demo_key_def standard_char_def)
  ultimately show ?thesis by (simp add: payload_encryption_key_ok_def)
qed

lemma demo_worker_parts:
  "worker_shape = take 20 worker_shape @ (''PROVIDER_PAYLOAD_KEY_BASE64'', Payload_key, Required) # drop 21 worker_shape"
  by code_simp

definition demo_settings_before :: "(string \<times> setting) list" where
  "demo_settings_before = the (parse_list demo_lib (take 20 worker_shape) demo_worker_env)"

definition demo_settings_after :: "(string \<times> setting) list" where
  "demo_settings_after = the (parse_list demo_lib (drop 21 worker_shape) demo_worker_env)"

lemma demo_parse_before: "parse_list demo_lib (take 20 worker_shape) demo_worker_env \<noteq> None"
  by code_simp

lemma demo_parse_after: "parse_list demo_lib (drop 21 worker_shape) demo_worker_env \<noteq> None"
  by code_simp

definition demo_worker_settled :: "(string \<times> setting) list" where
  "demo_worker_settled = demo_settings_before @ (''PROVIDER_PAYLOAD_KEY_BASE64'', Text_setting demo_key) # demo_settings_after"

definition demo_worker_config :: config where
  "demo_worker_config = map_of demo_worker_settled"

lemma demo_worker_parsed: "parse_shape demo_lib worker_shape demo_worker_env = Some demo_worker_config"
proof -
  have "parse_kind demo_lib Payload_key demo_key = Some (Text_setting demo_key)"
    by (simp add: parse_kind_def demo_key_ok)
  moreover have "demo_worker_env ''PROVIDER_PAYLOAD_KEY_BASE64'' = Some demo_key"
    by (simp add: demo_worker_env_def demo_worker_settings_def)
  ultimately have "parse_list demo_lib worker_shape demo_worker_env = Some demo_worker_settled"
    using demo_parse_before demo_parse_after
    by (subst demo_worker_parts)
      (auto simp: parse_list_append parse_field_def demo_worker_settled_def demo_settings_before_def demo_settings_after_def)
  then show ?thesis
    by (simp add: parse_list_shape [OF shapes_distinct(3)] demo_worker_config_def)
qed

lemma demo_worker_refined: "refine_worker demo_lib demo_worker_config = []"
  by code_simp

lemma demo_worker_production: "is_production demo_worker_config"
  by code_simp

lemma demo_worker_clear: "list_all (blank demo_worker_env) worker_forbidden_production_fields"
  by code_simp

lemma demo_worker_loads: "load_worker_config demo_lib (\<lambda>_. None) demo_worker_env = Inr demo_worker_config"
proof -
  have "demo_worker_env ''SLOPPROOF_ENV_FILE'' = None"
    by (simp add: demo_worker_env_def demo_worker_settings_def)
  moreover have "filter (\<lambda>f. \<not> blank demo_worker_env f) worker_forbidden_production_fields = []"
    using demo_worker_clear by (simp add: filter_empty_conv list_all_iff)
  ultimately show ?thesis
    using demo_worker_parsed demo_worker_refined
    by (simp add: load_worker_config_def resolve_scoped_environment_def parse_scoped_config_def Let_def)
qed

theorem production_secrets_stay_in_scope_witness:
  "demo_worker_env ''SESSION_SECRET'' = None \<and> blank demo_worker_env ''SESSION_SECRET''
   \<and> demo_worker_config ''SESSION_SECRET'' = None
   \<and> (\<exists>scoped. config_read_from demo_lib (\<lambda>_. None) demo_worker_env demo_worker_config scoped
        worker_forbidden_production_fields \<and> blank scoped ''SESSION_SECRET'')"
proof -
  have "''SESSION_SECRET'' \<in> set worker_forbidden_production_fields"
    by (simp add: worker_forbidden_production_fields_def)
  moreover have "demo_worker_env ''SESSION_SECRET'' = None"
    by (simp add: demo_worker_env_def demo_worker_settings_def)
  ultimately show ?thesis
    using production_secrets_stay_in_scope [OF demo_worker_production, of "''SESSION_SECRET''"
        worker_forbidden_production_fields demo_lib demo_worker_env "\<lambda>_. None"] demo_worker_loads
    by blast
qed

theorem accepted_config_is_typed_witness:
  "well_typed demo_lib worker_shape demo_worker_config"
  using accepted_config_is_typed demo_worker_loads by blast

theorem worker_providers_are_settled_witness:
  "is_production demo_worker_config
   \<and> endpoint_ready demo_lib demo_worker_config ''GENERATION_BASE_URL'' ''GENERATION_API_KEY''"
proof -
  have "text_of demo_worker_config ''GENERATION_PROVIDER'' \<noteq> ''fake''"
    by code_simp
  then show ?thesis
    using worker_providers_are_settled [OF demo_worker_loads] demo_worker_production
    by (simp add: provider_settled_def)
qed

section \<open>An environment file\<close>

definition demo_env_path :: string where
  "demo_env_path = ''/run/migrate.env''"

definition demo_env_settings :: "(string \<times> string) list" where
  "demo_env_settings = [(''NODE_ENV'', ''production'')]"

definition demo_file_env :: environment where
  "demo_file_env = [''SLOPPROOF_ENV_FILE'' \<mapsto> demo_env_path]"

definition demo_env_file :: env_file where
  "demo_env_file = \<lparr>ef_isFile = True, ef_size = 22, ef_mode = 384,
     ef_content = map (\<lambda>ch. of_nat (of_char ch)) (render_env_file demo_env_settings)\<rparr>"

lemma demo_settings_ok: "env_settings_ok migration_environment_file_fields demo_env_settings"
  by code_simp

theorem environment_file_roundtrip_witness:
  "parse_env_file migration_environment_file_fields (render_env_file demo_env_settings) = Some demo_env_settings"
  using environment_file_roundtrip demo_settings_ok by blast

lemma demo_resolved:
  "resolve_scoped_environment demo_lib [demo_env_path \<mapsto> demo_env_file] demo_file_env ''migrate.env''
     migration_environment_file_fields = Inr (demo_file_env ++ map_of demo_env_settings)"
proof -
  have paths: "is_absolute_path demo_env_path" "base_name demo_env_path = ''migrate.env''"
    by code_simp+
  have "length (render_env_file demo_env_settings) = 22"
    by (simp add: render_env_file_def demo_env_settings_def env_line_def)
  then have safe: "env_file_safe demo_env_file"
    by (simp add: env_file_safe_def demo_env_file_def environment_file_maximum_bytes_def)
  have "char_of (unat (of_nat (of_char ch) :: byte)) = ch" for ch
    by (simp add: unat_of_nat)
  then have "map (\<lambda>b. char_of (unat b)) (map (\<lambda>ch. of_nat (of_char ch) :: byte) t) = t" for t
    by (induction t) simp_all
  then have decoded: "cl_decode_utf8 demo_lib (ef_content demo_env_file) = Some (render_env_file demo_env_settings)"
    by (simp add: demo_lib_def demo_env_file_def)
  have parsed: "parse_env_file migration_environment_file_fields (render_env_file demo_env_settings) = Some demo_env_settings"
    using parse_env_file_iff demo_settings_ok by blast
  have "filter (\<lambda>(n, v). demo_file_env n \<noteq> None \<and> demo_file_env n \<noteq> Some v) demo_env_settings = []"
    by (simp add: demo_env_settings_def demo_file_env_def)
  then show ?thesis
    using paths safe decoded parsed
    by (simp add: resolve_scoped_environment_def demo_file_env_def Let_def)
qed

theorem environment_file_never_overrides_witness:
  "(demo_file_env ++ map_of demo_env_settings) ''SLOPPROOF_ENV_FILE'' = Some demo_env_path
   \<and> (demo_file_env ++ map_of demo_env_settings) ''NODE_ENV'' = Some ''production''"
  using environment_file_never_overrides [OF demo_resolved]
  by (simp add: demo_file_env_def demo_env_settings_def)

end
