(* ===== verification/Github_Request.thy ===== *)
theory Github_Request
  imports Js_Text Complex_Main
begin

text \<open>
  One request to the GitHub API under the policy of \<open>packages/github/src/request-policy.ts\<close>: attempts
  that end at a time limit, classification of what GitHub answers, waits between attempts and the
  deadline over all of them. The state \<open>'s\<close> is the whole outside world: reading the clock, drawing a
  random number, sleeping and sending all act on it. An attempt is a function of its time limit,
  because the code races the request against a timer; which of the two wins is up to the world.

  Errors follow \<open>production-errors.ts\<close>. Times are whole milliseconds. A finite number a header
  spells is a rational; \<open>Number(text)\<close> and \<open>Date.parse\<close> are the parameters of \<open>http_lib\<close>, and the random
  number and the jitter are rationals too, without the rounding of floating point.
\<close>

section \<open>Errors\<close>

datatype control_code =
  Invalid_input | Invalid_key_file | Invalid_response | Limit_exceeded | Stale_head
| Rate_limited | Timeout | Unavailable | Rejected | Ambiguous_write

record control_error =
  ce_code :: control_code
  ce_status :: "int option"
  ce_retryAfterMs :: "int option"

definition control :: "control_code \<Rightarrow> control_error" where
  "control c = \<lparr>ce_code = c, ce_status = None, ce_retryAfterMs = None\<rparr>"

text \<open>What a function may throw: a \<open>GithubControlError\<close> or any other value.\<close>

datatype thrown = Control control_error | Other_thrown json

section \<open>Computations over the outside world\<close>

definition eff_return :: "'a \<Rightarrow> 's \<Rightarrow> ('e + 'a) \<times> 's" where
  "eff_return x s = (Inr x, s)"

definition eff_throw :: "'e \<Rightarrow> 's \<Rightarrow> ('e + 'a) \<times> 's" where
  "eff_throw e s = (Inl e, s)"

definition eff_bind :: "('s \<Rightarrow> ('e + 'a) \<times> 's) \<Rightarrow> ('a \<Rightarrow> 's \<Rightarrow> ('e + 'b) \<times> 's) \<Rightarrow> 's \<Rightarrow> ('e + 'b) \<times> 's" where
  "eff_bind m f s = (case m s of (Inl e, t) \<Rightarrow> (Inl e, t) | (Inr x, t) \<Rightarrow> f x t)"

definition eff_catch :: "('s \<Rightarrow> ('e + 'a) \<times> 's) \<Rightarrow> ('e \<Rightarrow> 's \<Rightarrow> ('f + 'a) \<times> 's) \<Rightarrow> 's \<Rightarrow> ('f + 'a) \<times> 's" where
  "eff_catch m h s = (case m s of (Inl e, t) \<Rightarrow> h e t | (Inr x, t) \<Rightarrow> (Inr x, t))"

definition eff_check :: "bool \<Rightarrow> 'e \<Rightarrow> 's \<Rightarrow> ('e + unit) \<times> 's" where
  "eff_check b e s = (if b then Inr () else Inl e, s)"

definition eff_lift :: "'e + 'a \<Rightarrow> 's \<Rightarrow> ('e + 'a) \<times> 's" where
  "eff_lift r s = (r, s)"

lemma eff_simps [simp]:
  "eff_return x s = (Inr x, s)" "eff_throw e s = (Inl e, s)" "eff_lift r s = (r, s)"
  "eff_check b e s = (if b then Inr () else Inl e, s)"
  by (simp_all add: eff_return_def eff_throw_def eff_lift_def eff_check_def)

lemma eff_bind_Inr_iff:
  "eff_bind m f s = (Inr y, u) \<longleftrightarrow> (\<exists>x t. m s = (Inr x, t) \<and> f x t = (Inr y, u))"
  by (auto simp: eff_bind_def split: prod.splits sum.splits)

lemma eff_bind_Inl_iff:
  "eff_bind m f s = (Inl e, u) \<longleftrightarrow> m s = (Inl e, u) \<or> (\<exists>x t. m s = (Inr x, t) \<and> f x t = (Inl e, u))"
  by (auto simp: eff_bind_def split: prod.splits sum.splits)

lemma eff_catch_Inr_iff:
  "eff_catch m h s = (Inr y, u) \<longleftrightarrow> m s = (Inr y, u) \<or> (\<exists>e t. m s = (Inl e, t) \<and> h e t = (Inr y, u))"
  by (auto simp: eff_catch_def split: prod.splits sum.splits)

lemma eff_catch_Inl_iff:
  "eff_catch m h s = (Inl e, u) \<longleftrightarrow> (\<exists>d t. m s = (Inl d, t) \<and> h d t = (Inl e, u))"
  by (auto simp: eff_catch_def split: prod.splits sum.splits)

lemmas eff_iffs = eff_bind_Inr_iff eff_bind_Inl_iff eff_catch_Inr_iff eff_catch_Inl_iff

section \<open>The policy\<close>

record 's request_policy =
  rp_maxAttempts :: "int option"
  rp_deadlineMs :: "int option"
  rp_attemptTimeoutMs :: "int option"
  rp_now :: "'s \<Rightarrow> int \<times> 's"
  rp_random :: "'s \<Rightarrow> rat \<times> 's"
  rp_sleep :: "int \<Rightarrow> 's \<Rightarrow> 's"

record http_lib =
  hl_number :: "string \<Rightarrow> rat option"
  hl_date_parse :: "string \<Rightarrow> int option"

record failure =
  fl_code :: control_code
  fl_retryable :: bool
  fl_status :: "int option"
  fl_retryAfterMs :: "int option"

definition default_max_attempts :: int where
  "default_max_attempts = 3"

definition max_attempts :: int where
  "max_attempts = 3"

definition secondary_rate_limit_minimum_retry_ms :: int where
  "secondary_rate_limit_minimum_retry_ms = 60000"

definition or_else :: "'a option \<Rightarrow> 'a \<Rightarrow> 'a" where
  "or_else x d = (case x of None \<Rightarrow> d | Some y \<Rightarrow> y)"

lemma or_else_simps [simp]: "or_else None d = d" "or_else (Some y) d = y"
  by (simp_all add: or_else_def)

section \<open>Reading a failure\<close>

text \<open>A property of a JSON object; of two with one name the later counts.\<close>

definition prop_of :: "string \<Rightarrow> json \<Rightarrow> json option" where
  "prop_of k j = (case j of JObj ms \<Rightarrow> map_of (rev ms) k | _ \<Rightarrow> None)"

definition is_object :: "json \<Rightarrow> bool" where
  "is_object j = (case j of JObj _ \<Rightarrow> True | JArr _ \<Rightarrow> True | _ \<Rightarrow> False)"

text \<open>\<open>x ?? y\<close>\<close>

definition coalesce :: "json option \<Rightarrow> json option \<Rightarrow> json option" where
  "coalesce x y = (if x = None \<or> x = Some JNull then y else x)"

text \<open>\<open>String(value)\<close>; a list joins its elements, without null ones.\<close>

fun string_of_json :: "json \<Rightarrow> string" where
  "string_of_json (JStr s) = s"
| "string_of_json (JNum n) = string_of_int n"
| "string_of_json (JBool b) = (if b then ''true'' else ''false'')"
| "string_of_json JNull = ''null''"
| "string_of_json (JArr js) = join_with '','' (map (\<lambda>j. if j = JNull then [] else string_of_json j) js)"
| "string_of_json (JObj ms) = ''[object Object]''"

definition lowercase :: "string \<Rightarrow> string" where
  "lowercase s = map lower_char s"

definition header :: "json option \<Rightarrow> string \<Rightarrow> string option" where
  "header headers name =
     (case headers of
        Some (JObj ms) \<Rightarrow> map_option (string_of_json \<circ> snd) (find (\<lambda>(k, v). lowercase k = name) ms)
      | _ \<Rightarrow> None)"

definition secondary_rate_limit_markers :: "string list" where
  "secondary_rate_limit_markers = [
     ''You have exceeded a secondary rate limit.'',
     ''You have exceeded a secondary rate limit and have been temporarily blocked'',
     ''You have triggered an abuse detection mechanism.'']"

definition is_secondary_rate_limit_message :: "json option \<Rightarrow> bool" where
  "is_secondary_rate_limit_message m =
     (case m of Some (JStr s) \<Rightarrow> list_ex (\<lambda>marker. starts_with marker s) secondary_rate_limit_markers
      | _ \<Rightarrow> False)"

record http_failure =
  hf_status :: "int option"
  hf_headers :: "json option"
  hf_secondaryRateLimit :: bool

definition object_of :: "json option \<Rightarrow> json option" where
  "object_of j = (case j of None \<Rightarrow> None | Some v \<Rightarrow> if is_object v then Some v else None)"

definition status_in_range :: "json option \<Rightarrow> int option" where
  "status_in_range j = (case j of Some (JNum n) \<Rightarrow> if 400 \<le> n \<and> n \<le> 599 then Some n else None | _ \<Rightarrow> None)"

definition read_http_failure :: "json \<Rightarrow> http_failure" where
  "read_http_failure error =
     (if \<not> is_object error then \<lparr>hf_status = None, hf_headers = None, hf_secondaryRateLimit = False\<rparr>
      else
        let response = object_of (prop_of ''response'' error);
            of_response = (\<lambda>k. Option.bind response (prop_of k))
        in \<lparr>hf_status = status_in_range (coalesce (prop_of ''status'' error) (of_response ''status'')),
            hf_headers = object_of (coalesce (of_response ''headers'') (prop_of ''headers'' error)),
            hf_secondaryRateLimit = is_secondary_rate_limit_message
              (Option.bind (object_of (of_response ''data'')) (prop_of ''message''))\<rparr>)"

text \<open>\<open>Math.round\<close>\<close>

definition round_half_up :: "rat \<Rightarrow> int" where
  "round_half_up x = \<lfloor>x + 1 / 2\<rfloor>"

definition finite_seconds :: "http_lib \<Rightarrow> string option \<Rightarrow> rat option" where
  "finite_seconds lib t =
     (case Option.bind t (hl_number lib) of None \<Rightarrow> None | Some x \<Rightarrow> if 0 \<le> x then Some x else None)"

definition reset_delay :: "http_lib \<Rightarrow> json option \<Rightarrow> int \<Rightarrow> int option" where
  "reset_delay lib headers now =
     (if header headers ''x-ratelimit-remaining'' = Some ''0''
      then map_option (\<lambda>x. max 0 (round_half_up (x * 1000 - of_int now)))
        (finite_seconds lib (header headers ''x-ratelimit-reset''))
      else None)"

definition read_retry_after :: "http_lib \<Rightarrow> json option \<Rightarrow> int \<Rightarrow> int option" where
  "read_retry_after lib headers now =
     (case header headers ''retry-after'' of
        None \<Rightarrow> reset_delay lib headers now
      | Some t \<Rightarrow>
          (case finite_seconds lib (Some t) of
             Some x \<Rightarrow> Some (round_half_up (x * 1000))
           | None \<Rightarrow>
               (case hl_date_parse lib t of
                  Some date \<Rightarrow> Some (max 0 (date - now))
                | None \<Rightarrow> reset_delay lib headers now)))"

definition classify_failure :: "http_lib \<Rightarrow> json \<Rightarrow> int \<Rightarrow> failure" where
  "classify_failure lib error now =
     (let f = read_http_failure error in
      case hf_status f of
        None \<Rightarrow> \<lparr>fl_code = Unavailable, fl_retryable = True, fl_status = None, fl_retryAfterMs = None\<rparr>
      | Some st \<Rightarrow>
          let retryAfterMs = read_retry_after lib (hf_headers f) now;
              exhausted = header (hf_headers f) ''x-ratelimit-remaining'' = Some ''0''
          in if st = 429 \<or> (st = 403 \<and> (retryAfterMs \<noteq> None \<or> exhausted \<or> hf_secondaryRateLimit f))
             then \<lparr>fl_code = Rate_limited, fl_retryable = True, fl_status = Some st,
                   fl_retryAfterMs = (case retryAfterMs of Some d \<Rightarrow> Some d
                     | None \<Rightarrow> if hf_secondaryRateLimit f then Some secondary_rate_limit_minimum_retry_ms else None)\<rparr>
             else if 500 \<le> st \<and> st \<le> 599
             then \<lparr>fl_code = Unavailable, fl_retryable = True, fl_status = Some st, fl_retryAfterMs = None\<rparr>
             else \<lparr>fl_code = Rejected, fl_retryable = False, fl_status = Some st, fl_retryAfterMs = None\<rparr>)"

definition to_control_error :: "failure \<Rightarrow> control_error" where
  "to_control_error f =
     \<lparr>ce_code = fl_code f, ce_status = fl_status f, ce_retryAfterMs = fl_retryAfterMs f\<rparr>"

definition jittered_backoff :: "nat \<Rightarrow> rat \<Rightarrow> int" where
  "jittered_backoff attempt random =
     round_half_up (of_int (min (150 * 2 ^ (attempt - 1)) 1000) * (3 / 4 + max 0 (min 1 random) * (1 / 2)))"

section \<open>Attempts\<close>

datatype attempt_end = Resolved json | Threw thrown | Timed_out

definition timeout_failure :: failure where
  "timeout_failure = \<lparr>fl_code = Timeout, fl_retryable = True, fl_status = None, fl_retryAfterMs = None\<rparr>"

definition unavailable_failure :: failure where
  "unavailable_failure = \<lparr>fl_code = Unavailable, fl_retryable = True, fl_status = None, fl_retryAfterMs = None\<rparr>"

text \<open>What one attempt comes to: a result of the whole request, or a failure to classify. The clock is
  read once more when the request itself failed.\<close>

definition one_attempt ::
  "http_lib \<Rightarrow> 's request_policy \<Rightarrow> (int \<Rightarrow> 's \<Rightarrow> attempt_end \<times> 's) \<Rightarrow> int \<Rightarrow> 's
     \<Rightarrow> ((control_error + json) + failure) \<times> 's" where
  "one_attempt lib p request limit s =
     (case request limit s of
        (Resolved d, t) \<Rightarrow> (Inl (Inr d), t)
      | (Threw (Control e), t) \<Rightarrow> (Inl (Inl e), t)
      | (Threw (Other_thrown v), t) \<Rightarrow> (case rp_now p t of (now, u) \<Rightarrow> (Inr (classify_failure lib v now), u))
      | (Timed_out, t) \<Rightarrow> (Inr timeout_failure, t))"

text \<open>The wait before the next attempt, when the deadline leaves room for it.\<close>

definition retry_delay :: "'s request_policy \<Rightarrow> int \<Rightarrow> nat \<Rightarrow> failure \<Rightarrow> 's \<Rightarrow> int option \<times> 's" where
  "retry_delay p deadlineAt attempt f s =
     (case rp_now p s of (now, t) \<Rightarrow>
      case rp_random p t of (random, u) \<Rightarrow>
        let delay = max (jittered_backoff attempt random) (or_else (fl_retryAfterMs f) 0) in
        (if deadlineAt - now \<le> delay then None else Some delay, u))"

text \<open>\<open>attempts \<dots> n earlier s\<close>: the loop with \<open>n\<close> attempts left of \<open>allowed\<close>.\<close>

fun attempts ::
  "http_lib \<Rightarrow> 's request_policy \<Rightarrow> (int \<Rightarrow> 's \<Rightarrow> attempt_end \<times> 's) \<Rightarrow> int \<Rightarrow> int \<Rightarrow> nat \<Rightarrow> nat
     \<Rightarrow> failure option \<Rightarrow> 's \<Rightarrow> (control_error + json) \<times> 's" where
  "attempts lib p request timeoutMs deadlineAt allowed 0 earlier s =
     (Inl (to_control_error (or_else earlier unavailable_failure)), s)"
| "attempts lib p request timeoutMs deadlineAt allowed (Suc n) earlier s =
     (case rp_now p s of (now, s1) \<Rightarrow>
      let remaining = deadlineAt - now in
      if remaining \<le> 0 then (Inl (control Timeout), s1)
      else case one_attempt lib p request (max 1 (min timeoutMs remaining)) s1 of
          (Inl r, s2) \<Rightarrow> (r, s2)
        | (Inr f, s2) \<Rightarrow>
            if \<not> fl_retryable f \<or> n = 0 then (Inl (to_control_error f), s2)
            else case retry_delay p deadlineAt (allowed - n) f s2 of
                (None, s3) \<Rightarrow> (Inl (to_control_error f), s3)
              | (Some delay, s3) \<Rightarrow>
                  attempts lib p request timeoutMs deadlineAt allowed n (Some f) (rp_sleep p delay s3))"

definition execute_github_request ::
  "http_lib \<Rightarrow> 's request_policy \<Rightarrow> (int \<Rightarrow> 's \<Rightarrow> attempt_end \<times> 's) \<Rightarrow> 's \<Rightarrow> (control_error + json) \<times> 's" where
  "execute_github_request lib p request s =
     (let maxAttempts = or_else (rp_maxAttempts p) default_max_attempts;
          deadlineMs = or_else (rp_deadlineMs p) 25000;
          attemptTimeoutMs = or_else (rp_attemptTimeoutMs p) 10000
      in if maxAttempts < 1 \<or> max_attempts < maxAttempts \<or> deadlineMs < 1 \<or> attemptTimeoutMs < 1
         then (Inl (control Invalid_input), s)
         else case rp_now p s of (start, t) \<Rightarrow>
           attempts lib p request attemptTimeoutMs (start + deadlineMs) (nat maxAttempts) (nat maxAttempts) None t)"

section \<open>The merge gate\<close>

text \<open>\<open>check-gate.ts\<close>: which status checks let a pull request be merged.\<close>

definition required_check_satisfies_merge_gate :: "string \<Rightarrow> string option \<Rightarrow> bool" where
  "required_check_satisfies_merge_gate status conclusion \<longleftrightarrow>
     status = ''completed'' \<and> conclusion \<in> {Some ''success'', Some ''neutral'', Some ''skipped''}"

definition review_required_github_check :: "string \<times> string option" where
  "review_required_github_check = (''in_progress'', None)"

definition technical_retry_github_check :: "string \<times> string option" where
  "technical_retry_github_check = (''completed'', Some ''action_required'')"

definition attempt_expired_github_check :: "string \<times> string option" where
  "attempt_expired_github_check = (''completed'', Some ''action_required'')"

section \<open>How often a request is made\<close>

text \<open>A measure that only the request itself raises counts the attempts.\<close>

locale counted_requests =
  fixes p :: "'s request_policy"
    and request :: "int \<Rightarrow> 's \<Rightarrow> attempt_end \<times> 's"
    and count :: "'s \<Rightarrow> nat"
  assumes count_now: "count (snd (rp_now p s)) = count s"
    and count_random: "count (snd (rp_random p s)) = count s"
    and count_sleep: "count (rp_sleep p d s) = count s"
    and count_request: "count (snd (request l s)) \<le> Suc (count s)"
begin

lemma now_count: "rp_now p s = (x, t) \<Longrightarrow> count t = count s"
  using count_now [of s] by simp

lemma random_count: "rp_random p s = (y, t) \<Longrightarrow> count t = count s"
  using count_random [of s] by simp

lemma count_one_attempt: "one_attempt lib p request l s = (r, t) \<Longrightarrow> count t \<le> Suc (count s)"
  using count_request [of l s]
  by (auto simp: one_attempt_def dest: now_count split: prod.splits attempt_end.splits thrown.splits)

lemma count_retry_delay: "retry_delay p a n f s = (r, t) \<Longrightarrow> count t = count s"
  by (auto simp: retry_delay_def Let_def dest!: now_count random_count split: prod.splits)

lemma count_attempts: "count (snd (attempts lib p request l a allowed n earlier s)) \<le> count s + n"
proof (induction n arbitrary: earlier s)
  case (Suc n)
  obtain now s1 where now: "rp_now p s = (now, s1)"
    by fastforce
  then have 1: "count s1 = count s"
    using count_now [of s] by simp
  obtain r s2 where one: "one_attempt lib p request (max 1 (min l (a - now))) s1 = (r, s2)"
    by fastforce
  then have 2: "count s2 \<le> Suc (count s)"
    using count_one_attempt 1 by metis
  show ?case
  proof (cases r)
    case (Inl x)
    then show ?thesis using now one 1 2 by (simp add: Let_def)
  next
    case (Inr f)
    obtain d s3 where delay: "retry_delay p a (allowed - n) f s2 = (d, s3)"
      by fastforce
    then have "count s3 = count s2"
      by (rule count_retry_delay)
    then show ?thesis
      using now one 1 2 Inr delay Suc.IH [of "Some f" "rp_sleep p (the d) s3"] count_sleep [of "the d" s3]
      by (cases d) (auto simp: Let_def)
  qed
qed simp

lemma count_execute:
  "count (snd (execute_github_request lib p request s)) \<le> count s + nat (or_else (rp_maxAttempts p) 3)"
proof (cases "rp_now p s")
  case (Pair start t)
  then have "count t = count s"
    using count_now [of s] by simp
  then show ?thesis
    using count_attempts [where n = "nat (or_else (rp_maxAttempts p) 3)" and s = t] Pair
    by (simp add: execute_github_request_def Let_def default_max_attempts_def)
qed

end

section \<open>When the request is made again\<close>

lemma retry_delay_SomeD:
  assumes "retry_delay p a n f s = (Some d, t)"
  shows "fst (rp_now p s) + d < a" and "or_else (fl_retryAfterMs f) 0 \<le> d"
  using assms by (auto simp: retry_delay_def Let_def split: prod.splits if_splits)

lemma round_half_up_mono: "x \<le> y \<Longrightarrow> round_half_up x \<le> round_half_up y"
  by (simp add: round_half_up_def floor_mono)

lemma jittered_backoff_bounds:
  assumes "1 \<le> n" and "n \<le> 3"
  shows "113 \<le> jittered_backoff n r" and "jittered_backoff n r \<le> 750"
proof -
  let ?b = "min (150 * 2 ^ (n - 1)) 1000 :: int"
  let ?x = "max 0 (min 1 r) :: rat"
  have "?b \<in> {150, 300, 600}"
    using assms by (cases "n = 1"; cases "n = 2"; cases "n = 3") auto
  then have b: "150 \<le> (of_int ?b :: rat)" "of_int ?b \<le> (600 :: rat)"
    by (elim insertE; simp)+
  have x: "0 \<le> ?x" "?x \<le> 1"
    by simp_all
  have "(150 :: rat) * (3 / 4) \<le> of_int ?b * (3 / 4 + ?x * (1 / 2))"
    by (rule mult_mono) (use b x in linarith)+
  from round_half_up_mono [OF this] show "113 \<le> jittered_backoff n r"
    by (simp add: jittered_backoff_def round_half_up_def)
  have "of_int ?b * (3 / 4 + ?x * (1 / 2)) \<le> (600 :: rat) * (5 / 4)"
    by (rule mult_mono) (use b x in linarith)+
  from round_half_up_mono [OF this] have "jittered_backoff n r \<le> round_half_up (600 * (5 / 4))"
    by (simp only: jittered_backoff_def)
  also have "\<dots> = 750"
    unfolding round_half_up_def by (rule floor_unique) simp_all
  finally show "jittered_backoff n r \<le> 750" .
qed

end
