(* ===== verification/Github_Ports.thy ===== *)
theory Github_Ports
  imports Github_Request
begin

text \<open>
  The schemas of \<open>packages/github/src/production-ports.ts\<close> and the requests of
  \<open>packages/github/src/octokit-client.ts\<close>: every call of the REST client with the endpoint and the
  parameters Octokit gets. Octokit itself, GitHub behind it, the clock and the random numbers are the
  parameter \<open>outside\<close>. The state records, besides the outside world, a trace of what was sent, slept
  and dropped; no operation reads it, the theorems speak about it. The grammars of \<open>z.string().uuid()\<close> and
  of \<open>z.url\<close> are parameters of the schemas that use them.
\<close>

section \<open>Schemas\<close>

definition sha_ok :: "string \<Rightarrow> bool" where
  "sha_ok s \<longleftrightarrow> length s = 40 \<and> all_in lower_hex_chars s"

definition number_of_decimal :: "string \<Rightarrow> int" where
  "number_of_decimal s = int (decimal_value s)"

definition decimal_id_ok :: "string \<Rightarrow> bool" where
  "decimal_id_ok s \<longleftrightarrow> 1 \<le> length s \<and> length s \<le> 16 \<and> all_in ''0123456789'' s \<and> hd s \<noteq> CHR ''0''
     \<and> is_safe_integer (number_of_decimal s)"

definition repository_part_chars :: string where
  "repository_part_chars = ''ABCDEFGHIJKLMNOPQRSTUVWXYZabcdefghijklmnopqrstuvwxyz0123456789_.-''"

definition repository_part_ok :: "string \<Rightarrow> bool" where
  "repository_part_ok s \<longleftrightarrow> 1 \<le> length s \<and> length s \<le> 100 \<and> all_in repository_part_chars s
     \<and> s \<noteq> ''.'' \<and> s \<noteq> ''..''"

record binding =
  rb_installationId :: string
  rb_repositoryId :: string
  rb_owner :: string
  rb_repositoryName :: string

definition binding_ok :: "('x) binding_scheme \<Rightarrow> bool" where
  "binding_ok b \<longleftrightarrow> decimal_id_ok (rb_installationId b) \<and> decimal_id_ok (rb_repositoryId b)
     \<and> repository_part_ok (rb_owner b) \<and> repository_part_ok (rb_repositoryName b)"

definition repository_binding :: "('x) binding_scheme \<Rightarrow> binding" where
  "repository_binding b = \<lparr>rb_installationId = rb_installationId b, rb_repositoryId = rb_repositoryId b,
     rb_owner = rb_owner b, rb_repositoryName = rb_repositoryName b\<rparr>"

record head_input = binding +
  hi_pullNumber :: int

definition head_input_ok :: "('x) head_input_scheme \<Rightarrow> bool" where
  "head_input_ok i \<longleftrightarrow> binding_ok i \<and> 0 < hi_pullNumber i \<and> hi_pullNumber i \<le> 2147483647"

definition head_input_of :: "('x) head_input_scheme \<Rightarrow> head_input" where
  "head_input_of i = \<lparr>rb_installationId = rb_installationId i, rb_repositoryId = rb_repositoryId i,
     rb_owner = rb_owner i, rb_repositoryName = rb_repositoryName i, hi_pullNumber = hi_pullNumber i\<rparr>"

record read_input = head_input +
  ri_expectedHeadSha :: string
  ri_expectedBaseSha :: string

definition read_input_ok :: "read_input \<Rightarrow> bool" where
  "read_input_ok i \<longleftrightarrow> head_input_ok i \<and> sha_ok (ri_expectedHeadSha i) \<and> sha_ok (ri_expectedBaseSha i)"

datatype git_kind = Blob | Symlink | Submodule

record changed_file =
  cf_sha :: "string option"
  cf_filename :: string
  cf_previousFilename :: "string option"
  cf_status :: string
  cf_additions :: int
  cf_deletions :: int
  cf_changes :: int
  cf_patch :: "string option"

definition changed_file_statuses :: "string list" where
  "changed_file_statuses =
     [''added'', ''removed'', ''modified'', ''renamed'', ''copied'', ''changed'', ''unchanged'']"

definition is_some_and :: "('a \<Rightarrow> bool) \<Rightarrow> 'a option \<Rightarrow> bool" where
  "is_some_and P x \<longleftrightarrow> (case x of None \<Rightarrow> True | Some y \<Rightarrow> P y)"

definition length_between :: "nat \<Rightarrow> nat \<Rightarrow> string \<Rightarrow> bool" where
  "length_between lo hi s \<longleftrightarrow> lo \<le> length s \<and> length s \<le> hi"

definition changed_file_ok :: "changed_file \<Rightarrow> bool" where
  "changed_file_ok f \<longleftrightarrow> is_some_and sha_ok (cf_sha f) \<and> length_between 1 1024 (cf_filename f)
     \<and> is_some_and (length_between 1 1024) (cf_previousFilename f)
     \<and> cf_status f \<in> set changed_file_statuses
     \<and> 0 \<le> cf_additions f \<and> 0 \<le> cf_deletions f \<and> 0 \<le> cf_changes f"

record pull_request_limits =
  pl_files :: bool
  pl_patchBytes :: bool
  pl_patchUnavailable :: bool

record snapshot =
  sn_githubPullRequestId :: string
  sn_number :: int
  sn_state :: string
  sn_draft :: bool
  sn_title :: string
  sn_body :: "string option"
  sn_authorId :: string
  sn_authorLogin :: string
  sn_headSha :: string
  sn_baseSha :: string
  sn_changedFiles :: int
  sn_isFork :: bool
  sn_files :: "(changed_file \<times> git_kind) list"
  sn_limitsHit :: pull_request_limits

definition pull_request_states :: "string list" where
  "pull_request_states = [''open'', ''closed'']"

definition snapshot_ok :: "snapshot \<Rightarrow> bool" where
  "snapshot_ok s \<longleftrightarrow> decimal_id_ok (sn_githubPullRequestId s) \<and> 0 < sn_number s
     \<and> sn_state s \<in> set pull_request_states \<and> length (sn_title s) \<le> 4096
     \<and> is_some_and (length_between 0 65536) (sn_body s) \<and> decimal_id_ok (sn_authorId s)
     \<and> length_between 1 100 (sn_authorLogin s) \<and> sha_ok (sn_headSha s) \<and> sha_ok (sn_baseSha s)
     \<and> 0 \<le> sn_changedFiles s \<and> list_all (\<lambda>(f, k). changed_file_ok f) (sn_files s)"

record current_head =
  ch_headSha :: string
  ch_baseSha :: string
  ch_state :: string

definition current_head_ok :: "current_head \<Rightarrow> bool" where
  "current_head_ok h \<longleftrightarrow> sha_ok (ch_headSha h) \<and> sha_ok (ch_baseSha h) \<and> ch_state h \<in> set pull_request_states"

record check_intent = head_input +
  ci_revisionId :: string
  ci_headSha :: string
  ci_baseSha :: string
  ci_expectedPullRequestState :: string
  ci_status :: string
  ci_conclusion :: "string option"
  ci_summary :: string
  ci_detailsUrl :: string

definition refine_check_intent :: "('x) check_intent_scheme \<Rightarrow> bool" where
  "refine_check_intent i \<longleftrightarrow>
     \<not> (ci_status i = ''completed'' \<and> ci_conclusion i = None)
     \<and> \<not> (ci_status i \<noteq> ''completed'' \<and> ci_conclusion i \<noteq> None)"

definition check_statuses :: "string list" where
  "check_statuses = [''queued'', ''in_progress'', ''completed'']"

definition check_conclusions :: "string list" where
  "check_conclusions = [''action_required'', ''success'', ''neutral'', ''cancelled'']"

text \<open>The grammars of the validation library.\<close>

record grammars =
  gr_uuid :: "string \<Rightarrow> bool"
  gr_https_url :: "string \<Rightarrow> bool"

definition check_intent_ok :: "grammars \<Rightarrow> ('x) check_intent_scheme \<Rightarrow> bool" where
  "check_intent_ok g i \<longleftrightarrow> head_input_ok i \<and> gr_uuid g (ci_revisionId i)
     \<and> sha_ok (ci_headSha i) \<and> sha_ok (ci_baseSha i)
     \<and> ci_expectedPullRequestState i \<in> set pull_request_states
     \<and> ci_status i \<in> set check_statuses \<and> is_some_and (\<lambda>c. c \<in> set check_conclusions) (ci_conclusion i)
     \<and> length_between 1 500 (ci_summary i)
     \<and> gr_https_url g (ci_detailsUrl i) \<and> length (ci_detailsUrl i) \<le> 2048
     \<and> refine_check_intent i"

text \<open>A check run reference is its id.\<close>

record check_update = check_intent +
  cu_checkRunId :: string

definition check_update_ok :: "grammars \<Rightarrow> check_update \<Rightarrow> bool" where
  "check_update_ok g i \<longleftrightarrow> check_intent_ok g i \<and> decimal_id_ok (cu_checkRunId i)"

record comment_input = head_input +
  pc_revisionId :: string
  pc_headSha :: string
  pc_baseSha :: string
  pc_expectedPullRequestState :: string
  pc_detailsUrl :: string

definition comment_input_ok :: "grammars \<Rightarrow> comment_input \<Rightarrow> bool" where
  "comment_input_ok g i \<longleftrightarrow> head_input_ok i \<and> gr_uuid g (pc_revisionId i)
     \<and> sha_ok (pc_headSha i) \<and> sha_ok (pc_baseSha i)
     \<and> pc_expectedPullRequestState i = ''open''
     \<and> gr_https_url g (pc_detailsUrl i) \<and> length (pc_detailsUrl i) \<le> 2048"

definition user_token_ok :: "string \<Rightarrow> bool" where
  "user_token_ok t \<longleftrightarrow> length_between 16 1024 t"

record authenticated_user =
  au_id :: string
  au_login :: string

definition authenticated_user_ok :: "authenticated_user \<Rightarrow> bool" where
  "authenticated_user_ok u \<longleftrightarrow> decimal_id_ok (au_id u) \<and> length_between 1 100 (au_login u)"

record permission_input =
  pi_userToken :: string
  pi_owner :: string
  pi_repositoryName :: string
  pi_username :: string

definition permission_input_ok :: "permission_input \<Rightarrow> bool" where
  "permission_input_ok i \<longleftrightarrow> user_token_ok (pi_userToken i) \<and> repository_part_ok (pi_owner i)
     \<and> repository_part_ok (pi_repositoryName i) \<and> length_between 1 100 (pi_username i)"

record collaborator_permission =
  cp_permission :: string
  cp_roleName :: string

definition permissions :: "string list" where
  "permissions = [''admin'', ''write'', ''read'', ''none'']"

definition collaborator_permission_ok :: "collaborator_permission \<Rightarrow> bool" where
  "collaborator_permission_ok p \<longleftrightarrow> cp_permission p \<in> set permissions \<and> length_between 1 100 (cp_roleName p)"

record repositories_input =
  wi_userToken :: string
  wi_githubInstallationIds :: "string list"

definition repositories_input_ok :: "repositories_input \<Rightarrow> bool" where
  "repositories_input_ok i \<longleftrightarrow> user_token_ok (wi_userToken i)
     \<and> 1 \<le> length (wi_githubInstallationIds i) \<and> length (wi_githubInstallationIds i) \<le> 32
     \<and> list_all decimal_id_ok (wi_githubInstallationIds i)"

definition github_check_name :: string where
  "github_check_name = ''UnderstandProof / understanding required''"

end
