(* ===== verification/Github_Rest.thy ===== *)
theory Github_Rest
  imports Github_Ports
begin

text \<open>
  The calls of \<open>GithubRestClient\<close> (\<open>packages/github/src/octokit-client.ts\<close>) as data, the endpoint and the
  parameters \<open>OctokitGithubRestClient\<close> passes on for each, and a call made under the request policy.
  The signal that aborts a call is left out: an attempt gets its time limit instead.
\<close>

section \<open>Calls\<close>

record check_run_request =
  cq_owner :: string
  cq_repositoryName :: string
  cq_name :: string
  cq_detailsUrl :: string
  cq_externalId :: string
  cq_status :: string
  cq_conclusion :: "string option"
  cq_summary :: string

datatype rest_call =
  Create_installation_access_token int int
| Get_pull_request string string int
| List_pull_request_files string string int int int
| Get_git_commit string string string
| Get_git_tree string string string
| Create_check_run check_run_request string
| Update_check_run check_run_request int
| Get_check_run string string int
| List_check_runs_for_ref string string string string int int
| List_issue_comments string string int int int
| Create_issue_comment string string int string
| Update_issue_comment string string int string
| Get_authenticated_user
| Get_collaborator_permission_level string string string
| List_installations_for_authenticated_user int int
| List_installation_repos_for_authenticated_user int int int

definition octokit_check_conclusion_fields :: "string option \<Rightarrow> (string \<times> json) list" where
  "octokit_check_conclusion_fields c = (case c of None \<Rightarrow> [] | Some x \<Rightarrow> [(''conclusion'', JStr x)])"

definition check_run_params :: "(string \<times> json) list \<Rightarrow> check_run_request \<Rightarrow> (string \<times> json) list" where
  "check_run_params bound q =
     [(''owner'', JStr (cq_owner q)), (''repo'', JStr (cq_repositoryName q))] @ bound
     @ [(''details_url'', JStr (cq_detailsUrl q)), (''external_id'', JStr (cq_externalId q)),
        (''status'', JStr (cq_status q))]
     @ octokit_check_conclusion_fields (cq_conclusion q)
     @ [(''output'', JObj [(''title'', JStr (cq_name q)), (''summary'', JStr (cq_summary q))])]"

definition repo_params :: "string \<Rightarrow> string \<Rightarrow> (string \<times> json) list" where
  "repo_params owner repo = [(''owner'', JStr owner), (''repo'', JStr repo)]"

definition page_params :: "int \<Rightarrow> int \<Rightarrow> (string \<times> json) list" where
  "page_params page perPage = [(''page'', JNum page), (''per_page'', JNum perPage)]"

fun octokit_request :: "rest_call \<Rightarrow> string \<times> (string \<times> json) list" where
  "octokit_request (Create_installation_access_token i r) =
     (''apps.createInstallationAccessToken'',
      [(''installation_id'', JNum i), (''repository_ids'', JArr [JNum r]),
       (''permissions'', JObj [(''checks'', JStr ''write''), (''contents'', JStr ''read''),
         (''metadata'', JStr ''read''), (''pull_requests'', JStr ''write'')])])"
| "octokit_request (Get_pull_request owner repo n) =
     (''pulls.get'', repo_params owner repo @ [(''pull_number'', JNum n)])"
| "octokit_request (List_pull_request_files owner repo n page perPage) =
     (''pulls.listFiles'', repo_params owner repo @ [(''pull_number'', JNum n)] @ page_params page perPage)"
| "octokit_request (Get_git_commit owner repo sha) =
     (''git.getCommit'', repo_params owner repo @ [(''commit_sha'', JStr sha)])"
| "octokit_request (Get_git_tree owner repo sha) =
     (''git.getTree'', repo_params owner repo @ [(''tree_sha'', JStr sha)])"
| "octokit_request (Create_check_run q headSha) =
     (''checks.create'', check_run_params [(''name'', JStr (cq_name q)), (''head_sha'', JStr headSha)] q)"
| "octokit_request (Update_check_run q i) =
     (''checks.update'', check_run_params [(''check_run_id'', JNum i), (''name'', JStr (cq_name q))] q)"
| "octokit_request (Get_check_run owner repo i) =
     (''checks.get'', repo_params owner repo @ [(''check_run_id'', JNum i)])"
| "octokit_request (List_check_runs_for_ref owner repo headSha checkName page perPage) =
     (''checks.listForRef'', repo_params owner repo @ [(''ref'', JStr headSha), (''check_name'', JStr checkName),
        (''filter'', JStr ''all'')] @ page_params page perPage)"
| "octokit_request (List_issue_comments owner repo n page perPage) =
     (''issues.listComments'', repo_params owner repo @ [(''issue_number'', JNum n)] @ page_params page perPage)"
| "octokit_request (Create_issue_comment owner repo n body) =
     (''issues.createComment'', repo_params owner repo @ [(''issue_number'', JNum n), (''body'', JStr body)])"
| "octokit_request (Update_issue_comment owner repo i body) =
     (''issues.updateComment'', repo_params owner repo @ [(''comment_id'', JNum i), (''body'', JStr body)])"
| "octokit_request Get_authenticated_user = (''users.getAuthenticated'', [])"
| "octokit_request (Get_collaborator_permission_level owner repo username) =
     (''repos.getCollaboratorPermissionLevel'', repo_params owner repo @ [(''username'', JStr username)])"
| "octokit_request (List_installations_for_authenticated_user page perPage) =
     (''apps.listInstallationsForAuthenticatedUser'', page_params page perPage)"
| "octokit_request (List_installation_repos_for_authenticated_user i page perPage) =
     (''apps.listInstallationReposForAuthenticatedUser'',
      [(''installation_id'', JNum i)] @ page_params page perPage)"

fun is_write :: "rest_call \<Rightarrow> bool" where
  "is_write (Create_check_run _ _) = True"
| "is_write (Update_check_run _ _) = True"
| "is_write (Create_issue_comment _ _ _ _) = True"
| "is_write (Update_issue_comment _ _ _ _) = True"
| "is_write _ = False"

section \<open>The outside world and the trace\<close>

record 'w outside =
  ow_now :: "'w \<Rightarrow> int \<times> 'w"
  ow_random :: "'w \<Rightarrow> rat \<times> 'w"
  ow_sleep :: "int \<Rightarrow> 'w \<Rightarrow> 'w"
  ow_send :: "string \<Rightarrow> string \<Rightarrow> (string \<times> json) list \<Rightarrow> int \<Rightarrow> 'w \<Rightarrow> attempt_end \<times> 'w"
  ow_lib :: http_lib

datatype event =
  Sent string rest_call attempt_end
| Slept int
| Token_dropped binding

record 'w github =
  gh_world :: 'w
  gh_trace :: "event list"

record request_options =
  ro_maxAttempts :: "int option"
  ro_deadlineMs :: "int option"
  ro_attemptTimeoutMs :: "int option"

definition read_clock :: "'w outside \<Rightarrow> ('w, 'x) github_scheme \<Rightarrow> int \<times> ('w, 'x) github_scheme" where
  "read_clock W s = (case ow_now W (gh_world s) of (t, w) \<Rightarrow> (t, s\<lparr>gh_world := w\<rparr>))"

definition draw_random :: "'w outside \<Rightarrow> ('w, 'x) github_scheme \<Rightarrow> rat \<times> ('w, 'x) github_scheme" where
  "draw_random W s = (case ow_random W (gh_world s) of (x, w) \<Rightarrow> (x, s\<lparr>gh_world := w\<rparr>))"

definition sleep :: "'w outside \<Rightarrow> int \<Rightarrow> ('w, 'x) github_scheme \<Rightarrow> ('w, 'x) github_scheme" where
  "sleep W d s = s\<lparr>gh_world := ow_sleep W d (gh_world s), gh_trace := gh_trace s @ [Slept d]\<rparr>"

definition policy :: "'w outside \<Rightarrow> request_options \<Rightarrow> ('w, 'x) github_scheme request_policy" where
  "policy W opts = \<lparr>rp_maxAttempts = ro_maxAttempts opts, rp_deadlineMs = ro_deadlineMs opts,
     rp_attemptTimeoutMs = ro_attemptTimeoutMs opts,
     rp_now = read_clock W, rp_random = draw_random W, rp_sleep = sleep W\<rparr>"

definition send ::
  "'w outside \<Rightarrow> string \<Rightarrow> rest_call \<Rightarrow> int \<Rightarrow> ('w, 'x) github_scheme \<Rightarrow> attempt_end \<times> ('w, 'x) github_scheme" where
  "send W token call limit s =
     (case octokit_request call of (endpoint, params) \<Rightarrow>
      case ow_send W token endpoint params limit (gh_world s) of (r, w) \<Rightarrow>
        (r, s\<lparr>gh_world := w, gh_trace := gh_trace s @ [Sent token call r]\<rparr>))"

text \<open>\<open>executeGithubRequest\<close> on a call of a client made for \<open>token\<close>.\<close>

definition github_request ::
  "'w outside \<Rightarrow> request_options \<Rightarrow> string \<Rightarrow> rest_call \<Rightarrow> ('w, 'x) github_scheme
     \<Rightarrow> (thrown + json) \<times> ('w, 'x) github_scheme" where
  "github_request W opts token call s =
     (case execute_github_request (ow_lib W) (policy W opts) (send W token call) s of
        (Inl e, t) \<Rightarrow> (Inl (Control e), t)
      | (Inr d, t) \<Rightarrow> (Inr d, t))"

text \<open>A write: one attempt, and no claim about the outcome when the answer was lost.\<close>

definition execute_write ::
  "'w outside \<Rightarrow> request_options \<Rightarrow> string \<Rightarrow> rest_call \<Rightarrow> ('w, 'x) github_scheme
     \<Rightarrow> (thrown + json) \<times> ('w, 'x) github_scheme" where
  "execute_write W opts token call s =
     eff_catch (github_request W (opts\<lparr>ro_maxAttempts := Some 1\<rparr>) token call)
       (\<lambda>error. eff_throw
          (case error of
             Control e \<Rightarrow>
               if ce_code e = Timeout \<or> ce_code e = Unavailable
               then Control \<lparr>ce_code = Ambiguous_write, ce_status = ce_status e, ce_retryAfterMs = None\<rparr>
               else Control e
           | Other_thrown _ \<Rightarrow> Control (control Ambiguous_write))) s"

section \<open>What a computation adds to the trace\<close>

text \<open>\<open>adds P m\<close>: the events \<open>m\<close> appends to the trace satisfy \<open>P\<close>, with what it returns.\<close>

definition adds :: "('r \<Rightarrow> event list \<Rightarrow> bool)
    \<Rightarrow> (('w, 'x) github_scheme \<Rightarrow> 'r \<times> ('w, 'x) github_scheme) \<Rightarrow> bool" where
  "adds P m \<longleftrightarrow> (\<forall>s r t. m s = (r, t) \<longrightarrow> (\<exists>es. gh_trace t = gh_trace s @ es \<and> P r es))"

fun write_of :: "event \<Rightarrow> rest_call option" where
  "write_of (Sent _ call _) = (if is_write call then Some call else None)"
| "write_of _ = None"

definition writes :: "event list \<Rightarrow> rest_call list" where
  "writes es = List.map_filter write_of es"

lemma writes_simps [simp]:
  "writes [] = []"
  "writes (e # es) = (case write_of e of None \<Rightarrow> writes es | Some c \<Rightarrow> c # writes es)"
  "writes (es @ fs) = writes es @ writes fs"
  by (simp_all add: writes_def List.map_filter_def split: option.split)

text \<open>The events of a request: only its own call, and sleeping.\<close>

definition only_this :: "string \<Rightarrow> rest_call \<Rightarrow> event list \<Rightarrow> bool" where
  "only_this token call es \<longleftrightarrow> list_all (\<lambda>e. case e of Sent t c r \<Rightarrow> t = token \<and> c = call
     | Slept d \<Rightarrow> True | Token_dropped _ \<Rightarrow> False) es"

fun is_sent :: "event \<Rightarrow> bool" where
  "is_sent (Sent _ _ _) = True"
| "is_sent _ = False"

definition sent_count :: "event list \<Rightarrow> nat" where
  "sent_count es = length (filter is_sent es)"

lemma sent_count_simps [simp]:
  "sent_count [] = 0" "sent_count (e # es) = (if is_sent e then 1 else 0) + sent_count es"
  "sent_count (es @ fs) = sent_count es + sent_count fs"
  by (simp_all add: sent_count_def)

lemma only_this_simps [simp]:
  "only_this token call []" "only_this token call (Sent t c r # es) \<longleftrightarrow> t = token \<and> c = call \<and> only_this token call es"
  "only_this token call (Slept d # es) = only_this token call es"
  "\<not> only_this token call (Token_dropped b # es)"
  "only_this token call (es @ fs) \<longleftrightarrow> only_this token call es \<and> only_this token call fs"
  by (simp_all add: only_this_def)

section \<open>Requests\<close>

lemma policy_simps [simp]:
  "rp_now (policy W opts) = read_clock W" "rp_random (policy W opts) = draw_random W"
  "rp_sleep (policy W opts) = sleep W" "rp_maxAttempts (policy W opts) = ro_maxAttempts opts"
  by (simp_all add: policy_def)

lemma read_clock_trace: "read_clock W s = (x, t) \<Longrightarrow> gh_trace t = gh_trace s"
  by (auto simp: read_clock_def split: prod.splits)

lemma draw_random_trace: "draw_random W s = (x, t) \<Longrightarrow> gh_trace t = gh_trace s"
  by (auto simp: draw_random_def split: prod.splits)

lemma sleep_trace [simp]: "gh_trace (sleep W d s) = gh_trace s @ [Slept d]"
  by (simp add: sleep_def)

lemma send_trace: "send W token call l s = (r, t) \<Longrightarrow> gh_trace t = gh_trace s @ [Sent token call r]"
  by (auto simp: send_def split: prod.splits)

lemma one_attempt_trace:
  assumes "one_attempt lib (policy W opts) (send W token call) l s = (r, t)"
  obtains e where "gh_trace t = gh_trace s @ [Sent token call e]" and "\<And>d. r = Inl (Inr d) \<Longrightarrow> e = Resolved d"
  using assms
  by (auto simp: one_attempt_def dest!: send_trace read_clock_trace
      split: prod.splits attempt_end.splits thrown.splits)

lemma retry_delay_trace: "retry_delay (policy W opts) a n f s = (r, t) \<Longrightarrow> gh_trace t = gh_trace s"
  by (auto simp: retry_delay_def Let_def dest!: read_clock_trace draw_random_trace split: prod.splits)

text \<open>The events of one request.\<close>

definition request_events :: "nat \<Rightarrow> string \<Rightarrow> rest_call \<Rightarrow> 'e + json \<Rightarrow> event list \<Rightarrow> bool" where
  "request_events n token call r es \<longleftrightarrow> only_this token call es \<and> sent_count es \<le> n
     \<and> (case r of Inl _ \<Rightarrow> True | Inr d \<Rightarrow> es \<noteq> [] \<and> last es = Sent token call (Resolved d))"

lemma attempts_trace:
  assumes "attempts lib (policy W opts) (send W token call) l a allowed n earlier s = (r, t)"
  shows "\<exists>es. gh_trace t = gh_trace s @ es \<and> request_events n token call r es"
  using assms
proof (induction n arbitrary: earlier s)
  case 0
  then show ?case by (auto simp: request_events_def)
next
  case (Suc n)
  obtain now s1 where now: "read_clock W s = (now, s1)"
    by fastforce
  show ?case
  proof (cases "a - now \<le> 0")
    case True
    then show ?thesis
      using Suc.prems now read_clock_trace [OF now] by (auto simp: request_events_def Let_def)
  next
    case False
    obtain q s2 where one: "one_attempt lib (policy W opts) (send W token call) (max 1 (min l (a - now))) s1 = (q, s2)"
      by fastforce
    then obtain e where e: "gh_trace s2 = gh_trace s @ [Sent token call e]" "\<And>d. q = Inl (Inr d) \<Longrightarrow> e = Resolved d"
      using one_attempt_trace read_clock_trace [OF now] by metis
    show ?thesis
    proof (cases q)
      case (Inl x)
      then show ?thesis
        using Suc.prems now one False e by (auto simp: request_events_def Let_def split: sum.splits)
    next
      case (Inr f)
      obtain d s3 where delay: "retry_delay (policy W opts) a (allowed - n) f s2 = (d, s3)"
        by fastforce
      note trace3 = retry_delay_trace [OF delay]
      show ?thesis
      proof (cases "\<not> fl_retryable f \<or> n = 0 \<or> d = None")
        case True
        then show ?thesis
          using Suc.prems now one False Inr delay e trace3
          by (auto simp: request_events_def Let_def split: if_splits)
      next
        case again: False
        then obtain x where "d = Some x"
          by auto
        then have "attempts lib (policy W opts) (send W token call) l a allowed n (Some f) (sleep W x s3) = (r, t)"
          using Suc.prems now one False Inr delay again by (auto simp: Let_def)
        from Suc.IH [OF this] show ?thesis
          using e trace3 by (auto simp: request_events_def split: sum.splits)
      qed
    qed
  qed
qed

lemma github_request_trace:
  assumes "github_request W opts token call s = (r, t)"
  shows "\<exists>es. gh_trace t = gh_trace s @ es
    \<and> request_events (nat (min 3 (or_else (ro_maxAttempts opts) 3))) token call r es"
proof -
  obtain q where q: "execute_github_request (ow_lib W) (policy W opts) (send W token call) s = (q, t)"
      "r = (case q of Inl e \<Rightarrow> Inl (Control e) | Inr d \<Rightarrow> Inr d)"
    using assms by (auto simp: github_request_def split: prod.splits sum.splits)
  obtain now s1 where now: "read_clock W s = (now, s1)"
    by fastforce
  let ?n = "nat (or_else (ro_maxAttempts opts) 3)"
  consider "gh_trace t = gh_trace s" "\<exists>e. q = Inl e"
    | a l where "or_else (ro_maxAttempts opts) 3 \<le> 3"
        "attempts (ow_lib W) (policy W opts) (send W token call) l a ?n ?n None s1 = (q, t)"
    using q(1) now
    by (auto simp: execute_github_request_def Let_def default_max_attempts_def max_attempts_def split: if_splits)
  then show ?thesis
  proof cases
    case 1
    then show ?thesis
      using q(2) by (auto simp: request_events_def)
  next
    case 2
    then show ?thesis
      using attempts_trace [OF 2(2)] read_clock_trace [OF now] q(2)
      by (auto simp: request_events_def min_def split: sum.splits)
  qed
qed

end
