(* ===== verification/Github_Adapter.thy ===== *)
theory Github_Adapter
  imports Github_Rest
begin

text \<open>
  What the adapters of \<open>packages/github/src\<close> share: the ports they are built from (a provider of
  installation tokens, the port that reads the current head of a pull request), making a client, the
  test that a pull request has not moved, dropping a token GitHub rejects, and reading the fields of
  an answer. The ports act on the same state; the laws the adapters rely on are the locale
  \<open>quiet_ports\<close>.
\<close>

section \<open>Ports\<close>

record ('w, 'x) ports =
  po_outside :: "'w outside"
  po_options :: request_options
  po_grammars :: grammars
  po_get_token :: "binding \<Rightarrow> ('w, 'x) github_scheme \<Rightarrow> (thrown + string) \<times> ('w, 'x) github_scheme"
  po_invalidate :: "binding \<Rightarrow> ('w, 'x) github_scheme \<Rightarrow> ('w, 'x) github_scheme"
  po_current_head :: "head_input \<Rightarrow> ('w, 'x) github_scheme \<Rightarrow> (thrown + current_head) \<times> ('w, 'x) github_scheme"

definition control_or_unavailable :: "thrown \<Rightarrow> thrown" where
  "control_or_unavailable e = (case e of Control c \<Rightarrow> Control c | Other_thrown _ \<Rightarrow> Control (control Unavailable))"

text \<open>A client is the token it was made for.\<close>

definition create_client ::
  "('w, 'x) ports \<Rightarrow> ('y) binding_scheme \<Rightarrow> ('w, 'x) github_scheme \<Rightarrow> (thrown + string) \<times> ('w, 'x) github_scheme" where
  "create_client P b = eff_catch (po_get_token P (repository_binding b)) (\<lambda>e. eff_throw (control_or_unavailable e))"

definition assert_head ::
  "('w, 'x) ports \<Rightarrow> ('y) head_input_scheme \<Rightarrow> current_head \<Rightarrow> ('w, 'x) github_scheme
     \<Rightarrow> (thrown + unit) \<times> ('w, 'x) github_scheme" where
  "assert_head P i expected =
     eff_bind (eff_catch (po_current_head P (head_input_of i)) (\<lambda>e. eff_throw (control_or_unavailable e)))
       (\<lambda>current. eff_check
          (ch_headSha current = ch_headSha expected \<and> ch_baseSha current = ch_baseSha expected
           \<and> ch_state current = ch_state expected)
          (Control (control Stale_head)))"

definition is_unauthorized :: "thrown \<Rightarrow> bool" where
  "is_unauthorized e \<longleftrightarrow> (case e of Control c \<Rightarrow> ce_code c = Rejected \<and> ce_status c = Some 401 | _ \<Rightarrow> False)"

definition drop_token :: "('w, 'x) ports \<Rightarrow> binding \<Rightarrow> ('w, 'x) github_scheme \<Rightarrow> ('w, 'x) github_scheme" where
  "drop_token P b s = po_invalidate P b (s\<lparr>gh_trace := gh_trace s @ [Token_dropped b]\<rparr>)"

definition invalidating_rejected_token ::
  "('w, 'x) ports \<Rightarrow> ('y) binding_scheme \<Rightarrow> (('w, 'x) github_scheme \<Rightarrow> (thrown + 'a) \<times> ('w, 'x) github_scheme)
     \<Rightarrow> ('w, 'x) github_scheme \<Rightarrow> (thrown + 'a) \<times> ('w, 'x) github_scheme" where
  "invalidating_rejected_token P b m =
     eff_catch m (\<lambda>e s. (Inl e, if is_unauthorized e then drop_token P (repository_binding b) s else s))"

section \<open>Reading an answer\<close>

definition read_string :: "string \<Rightarrow> json \<Rightarrow> string option" where
  "read_string k j = (case prop_of k j of Some (JStr s) \<Rightarrow> Some s | _ \<Rightarrow> None)"

definition read_nullable_string :: "string \<Rightarrow> json \<Rightarrow> string option option" where
  "read_nullable_string k j =
     (case prop_of k j of Some (JStr s) \<Rightarrow> Some (Some s) | Some JNull \<Rightarrow> Some None | _ \<Rightarrow> None)"

definition read_int :: "string \<Rightarrow> json \<Rightarrow> int option" where
  "read_int k j = (case prop_of k j of Some (JNum n) \<Rightarrow> Some n | _ \<Rightarrow> None)"

definition read_bool :: "string \<Rightarrow> json \<Rightarrow> bool option" where
  "read_bool k j = (case prop_of k j of Some (JBool b) \<Rightarrow> Some b | _ \<Rightarrow> None)"

definition read_list :: "string \<Rightarrow> json \<Rightarrow> json list option" where
  "read_list k j = (case prop_of k j of Some (JArr js) \<Rightarrow> Some js | _ \<Rightarrow> None)"

text \<open>\<open>z.number().int().positive().safe()\<close>\<close>

definition github_id_ok :: "int \<Rightarrow> bool" where
  "github_id_ok n \<longleftrightarrow> 0 < n \<and> n \<le> max_safe_integer"

definition guarded :: "('a \<Rightarrow> bool) \<Rightarrow> 'a option \<Rightarrow> 'a option" where
  "guarded P x = (case x of Some y \<Rightarrow> if P y then Some y else None | None \<Rightarrow> None)"

lemma guarded_eq_Some: "guarded P x = Some y \<longleftrightarrow> x = Some y \<and> P y"
  by (auto simp: guarded_def split: option.splits)

section \<open>The laws of the ports\<close>

definition quiet :: "event list \<Rightarrow> bool" where
  "quiet es \<longleftrightarrow> writes es = []"

text \<open>The ports write nothing, and a head the port returns is one GitHub told during the call:
  \<open>seen i h es\<close> says so of the events \<open>es\<close>.\<close>

locale quiet_ports =
  fixes P :: "('w, 'x) ports"
    and seen :: "head_input \<Rightarrow> current_head \<Rightarrow> event list \<Rightarrow> bool"
  assumes get_token_quiet: "adds (\<lambda>r. quiet) (po_get_token P b)"
    and current_head_seen: "adds (\<lambda>r es. quiet es \<and> (\<forall>h. r = Inr h \<longrightarrow> seen i h es)) (po_current_head P i)"
    and invalidate_silent: "gh_trace (po_invalidate P b s) = gh_trace s"

text \<open>Composition of what computations add.\<close>

lemma addsD: "adds Q m \<Longrightarrow> m s = (r, t) \<Longrightarrow> \<exists>es. gh_trace t = gh_trace s @ es \<and> Q r es"
  by (simp add: adds_def)

lemma addsI: "(\<And>s r t. m s = (r, t) \<Longrightarrow> \<exists>es. gh_trace t = gh_trace s @ es \<and> Q r es) \<Longrightarrow> adds Q m"
  by (simp add: adds_def)

lemma adds_mono: "adds Q m \<Longrightarrow> (\<And>r es. Q r es \<Longrightarrow> R r es) \<Longrightarrow> adds R m"
  unfolding adds_def by meson

lemma adds_bind:
  assumes "adds Q m" and "\<And>x. adds (R x) (f x)"
    and "\<And>e es. Q (Inl e) es \<Longrightarrow> S (Inl e) es"
    and "\<And>x es r fs. Q (Inr x) es \<Longrightarrow> R x r fs \<Longrightarrow> S r (es @ fs)"
  shows "adds S (eff_bind m f)"
proof (rule addsI)
  fix s r t
  assume run: "eff_bind m f s = (r, t)"
  obtain q u where m: "m s = (q, u)"
    by fastforce
  obtain es where es: "gh_trace u = gh_trace s @ es" "Q q es"
    using addsD [OF assms(1) m] by blast
  show "\<exists>es. gh_trace t = gh_trace s @ es \<and> S r es"
  proof (cases q)
    case (Inl e)
    then show ?thesis
      using run m es assms(3) by (auto simp: eff_bind_def)
  next
    case (Inr x)
    then have "f x u = (r, t)"
      using run m by (simp add: eff_bind_def)
    from addsD [OF assms(2) this] obtain fs where "gh_trace t = gh_trace u @ fs" "R x r fs"
      by blast
    then show ?thesis
      using es Inr assms(4) by auto
  qed
qed

lemma adds_catch:
  assumes "adds Q m" and "\<And>e. adds (R e) (h e)"
    and "\<And>x es. Q (Inr x) es \<Longrightarrow> S (Inr x) es"
    and "\<And>e es r fs. Q (Inl e) es \<Longrightarrow> R e r fs \<Longrightarrow> S r (es @ fs)"
  shows "adds S (eff_catch m h)"
proof (rule addsI)
  fix s r t
  assume run: "eff_catch m h s = (r, t)"
  obtain q u where m: "m s = (q, u)"
    by fastforce
  obtain es where es: "gh_trace u = gh_trace s @ es" "Q q es"
    using addsD [OF assms(1) m] by blast
  show "\<exists>es. gh_trace t = gh_trace s @ es \<and> S r es"
  proof (cases q)
    case (Inr e)
    then show ?thesis
      using run m es assms(3) by (auto simp: eff_catch_def)
  next
    case (Inl x)
    then have "h x u = (r, t)"
      using run m by (simp add: eff_catch_def)
    from addsD [OF assms(2) this] obtain fs where "gh_trace t = gh_trace u @ fs" "R x r fs"
      by blast
    then show ?thesis
      using es Inl assms(4) by auto
  qed
qed

lemma adds_pure: "(\<And>s. \<exists>r. m s = (r, s) \<and> Q r []) \<Longrightarrow> adds Q m"
  unfolding adds_def by (metis append_Nil2 fst_conv snd_conv)

lemma adds_simple:
  "Q (Inr x) [] \<Longrightarrow> adds Q (eff_return x)" "Q (Inl e) [] \<Longrightarrow> adds Q (eff_throw e)"
  "Q r [] \<Longrightarrow> adds Q (eff_lift r)"
  by (simp_all add: adds_def)

lemma adds_check: "(b \<Longrightarrow> Q (Inr ()) []) \<Longrightarrow> (\<not> b \<Longrightarrow> Q (Inl e) []) \<Longrightarrow> adds Q (eff_check b e)"
  by (simp add: adds_def)

lemma quiet_simps [simp]:
  "quiet []" "quiet (es @ fs) \<longleftrightarrow> quiet es \<and> quiet fs" "quiet (Slept d # es) = quiet es"
  "quiet (Token_dropped b # es) = quiet es" "quiet (Sent token call r # es) \<longleftrightarrow> \<not> is_write call \<and> quiet es"
  by (simp_all add: quiet_def)

lemma adds_quiet_bind:
  "adds (\<lambda>r. quiet) m \<Longrightarrow> (\<And>x. adds (\<lambda>r. quiet) (f x)) \<Longrightarrow> adds (\<lambda>r. quiet) (eff_bind m f)"
  by (rule adds_bind [where Q = "\<lambda>r. quiet" and R = "\<lambda>x r. quiet"]) auto

lemma adds_quiet_catch:
  "adds (\<lambda>r. quiet) m \<Longrightarrow> (\<And>e. adds (\<lambda>r. quiet) (h e)) \<Longrightarrow> adds (\<lambda>r. quiet) (eff_catch m h)"
  by (rule adds_catch [where Q = "\<lambda>r. quiet" and R = "\<lambda>e r. quiet"]) auto

lemma only_this_quiet: "only_this token call es \<Longrightarrow> \<not> is_write call \<Longrightarrow> quiet es"
proof (induction es)
  case (Cons e es)
  then show ?case by (cases e) simp_all
qed simp

lemma github_request_quiet: "\<not> is_write call \<Longrightarrow> adds (\<lambda>r. quiet) (github_request W opts token call)"
  by (rule addsI) (use github_request_trace only_this_quiet in \<open>fastforce simp: request_events_def\<close>)

text \<open>The events of one request that ended with the answer \<open>d\<close>.\<close>

definition reading :: "string \<Rightarrow> rest_call \<Rightarrow> json \<Rightarrow> event list \<Rightarrow> bool" where
  "reading token call d es \<longleftrightarrow> only_this token call es \<and> es \<noteq> [] \<and> last es = Sent token call (Resolved d)"

lemma request_reading:
  assumes "github_request W opts token call s = (Inr d, t)"
  shows "\<exists>es. gh_trace t = gh_trace s @ es \<and> reading token call d es"
  using github_request_trace [OF assms] by (auto simp: request_events_def reading_def)

text \<open>The events of a write: the call, at most once, and nothing else that writes.\<close>

definition written_once :: "string \<Rightarrow> rest_call \<Rightarrow> thrown + json \<Rightarrow> event list \<Rightarrow> bool" where
  "written_once token call r es \<longleftrightarrow> writes es = [] \<and> (\<exists>e. r = Inl e)
     \<or> writes es = [call] \<and> (case r of Inl _ \<Rightarrow> True | Inr d \<Rightarrow> Sent token call (Resolved d) \<in> set es)"

lemma writes_only_this:
  "only_this token call es \<Longrightarrow> is_write call \<Longrightarrow> writes es = replicate (sent_count es) call"
proof (induction es)
  case (Cons e es)
  then show ?case by (cases e) simp_all
qed simp

lemma sent_count_last: "es \<noteq> [] \<Longrightarrow> is_sent (last es) \<Longrightarrow> 0 < sent_count es"
  by (induction es) (auto split: if_splits)

lemma execute_write_adds:
  assumes "is_write call"
  shows "adds (written_once token call) (execute_write W opts token call)"
proof (rule addsI)
  fix s r t
  assume run: "execute_write W opts token call s = (r, t)"
  obtain q where q: "github_request W (opts\<lparr>ro_maxAttempts := Some 1\<rparr>) token call s = (q, t)"
      "(\<exists>e. q = Inl e \<and> (\<exists>e'. r = Inl e')) \<or> (\<exists>d. q = Inr d \<and> r = Inr d)"
    using run by (auto simp: execute_write_def eff_catch_def split: prod.splits sum.splits)
  obtain es where es: "gh_trace t = gh_trace s @ es" "request_events 1 token call q es"
    using github_request_trace [OF q(1)] by auto
  then have n: "writes es = replicate (sent_count es) call" "sent_count es \<le> 1"
    using writes_only_this assms by (auto simp: request_events_def)
  have "written_once token call r es"
  proof (cases "sent_count es = 0")
    case True
    then have "\<And>d. q \<noteq> Inr d"
      using es(2) sent_count_last [of es] by (auto simp: request_events_def)
    then show ?thesis
      using q(2) n True by (auto simp: written_once_def)
  next
    case False
    then have "writes es = [call]"
      using n by (simp add: numeral_eq_Suc le_Suc_eq)
    then show ?thesis
      using q(2) es(2) by (auto simp: written_once_def request_events_def) (metis last_in_set)
  qed
  then show "\<exists>es. gh_trace t = gh_trace s @ es \<and> written_once token call r es"
    using es(1) by blast
qed

context quiet_ports
begin

lemma create_client_quiet: "adds (\<lambda>r. quiet) (create_client P b)"
  unfolding create_client_def by (intro adds_quiet_catch get_token_quiet) (simp add: adds_simple)

lemma assert_head_seen:
  "adds (\<lambda>r es. quiet es \<and> (r = Inr () \<longrightarrow> seen (head_input_of i) h es)) (assert_head P i h)"
  unfolding assert_head_def
proof (rule adds_bind [where Q = "\<lambda>r es. quiet es \<and> (\<forall>h. r = Inr h \<longrightarrow> seen (head_input_of i) h es)"
      and R = "\<lambda>x r es. es = [] \<and> (r = Inr () \<longrightarrow> x = h)"])
  show "adds (\<lambda>r es. quiet es \<and> (\<forall>h. r = Inr h \<longrightarrow> seen (head_input_of i) h es))
      (eff_catch (po_current_head P (head_input_of i)) (\<lambda>e. eff_throw (control_or_unavailable e)))"
    by (rule adds_catch [OF current_head_seen, where R = "\<lambda>e r es. es = [] \<and> (\<exists>e. r = Inl e)"])
      (auto simp: adds_simple)
qed (auto intro: adds_check)

lemma invalidating_adds:
  assumes "adds Q m" and "\<And>e es. Q (Inl e) es \<Longrightarrow> is_unauthorized e \<Longrightarrow> Q (Inl e) (es @ [Token_dropped (repository_binding b)])"
  shows "adds Q (invalidating_rejected_token P b m)"
  unfolding invalidating_rejected_token_def
proof (rule adds_catch [OF assms(1), where R = "\<lambda>e r fs. r = Inl e \<and>
    (fs = [] \<or> is_unauthorized e \<and> fs = [Token_dropped (repository_binding b)])"])
  show "adds (\<lambda>r fs. r = Inl e \<and> (fs = [] \<or> is_unauthorized e \<and> fs = [Token_dropped (repository_binding b)]))
      (\<lambda>s. (Inl e, if is_unauthorized e then drop_token P (repository_binding b) s else s))" for e
    by (auto simp: adds_def drop_token_def invalidate_silent)
qed (use assms(2) in auto)

end

end
