(* ===== verification/Check_Run.thy ===== *)
theory Check_Run
  imports Github_Adapter
begin

text \<open>
  The adapter that reports the required status check, \<open>OctokitCheckRunAdapter\<close> of
  \<open>packages/github/src/check-run.ts\<close>: creating a check run, updating it, invalidating a stale one and
  finding one that exists.
\<close>

section \<open>Answers\<close>

definition remote_check_statuses :: "string list" where
  "remote_check_statuses =
     [''queued'', ''in_progress'', ''completed'', ''waiting'', ''requested'', ''pending'']"

definition remote_check_conclusions :: "string list" where
  "remote_check_conclusions =
     [''action_required'', ''cancelled'', ''failure'', ''neutral'', ''success'', ''skipped'', ''stale'', ''timed_out'']"

record upstream_check_run =
  uc_id :: int
  uc_name :: string
  uc_head_sha :: string
  uc_external_id :: "string option"
  uc_status :: string
  uc_conclusion :: "string option"

definition upstream_check_run_schema :: "json \<Rightarrow> upstream_check_run option" where
  "upstream_check_run_schema j =
     (case (guarded github_id_ok (read_int ''id'' j), read_string ''name'' j,
            guarded sha_ok (read_string ''head_sha'' j), read_nullable_string ''external_id'' j,
            guarded (\<lambda>s. s \<in> set remote_check_statuses) (read_string ''status'' j),
            guarded (is_some_and (\<lambda>c. c \<in> set remote_check_conclusions)) (read_nullable_string ''conclusion'' j)) of
        (Some i, Some n, Some h, Some x, Some st, Some c) \<Rightarrow>
          Some \<lparr>uc_id = i, uc_name = n, uc_head_sha = h, uc_external_id = x, uc_status = st, uc_conclusion = c\<rparr>
      | _ \<Rightarrow> None)"

definition upstream_check_run_list_schema :: "json \<Rightarrow> (int \<times> upstream_check_run list) option" where
  "upstream_check_run_list_schema j =
     (case (guarded (\<lambda>n. 0 \<le> n) (read_int ''total_count'' j),
            guarded (\<lambda>l. length l \<le> 100) (read_list ''check_runs'' j)) of
        (Some announced, Some l) \<Rightarrow> map_option (Pair announced) (parse_all upstream_check_run_schema l)
      | _ \<Rightarrow> None)"

definition max_existing_check_runs :: int where
  "max_existing_check_runs = 300"

record remote_check =
  rm_checkRunId :: string
  rm_status :: string
  rm_conclusion :: "string option"

definition invalid_response :: thrown where
  "invalid_response = Control (control Invalid_response)"

definition parse_remote_check ::
  "json \<Rightarrow> ('x) check_intent_scheme \<Rightarrow> string option \<Rightarrow> thrown + remote_check" where
  "parse_remote_check v i expectedCheckRunId =
     (case upstream_check_run_schema v of
        None \<Rightarrow> Inl invalid_response
      | Some u \<Rightarrow>
          if uc_name u \<noteq> github_check_name \<or> uc_head_sha u \<noteq> ci_headSha i
             \<or> uc_external_id u \<noteq> Some (ci_revisionId i)
             \<or> (expectedCheckRunId \<noteq> None \<and> Some (string_of_int (uc_id u)) \<noteq> expectedCheckRunId)
          then Inl invalid_response
          else if \<not> decimal_id_ok (string_of_int (uc_id u)) then Inl invalid_response
          else Inr \<lparr>rm_checkRunId = string_of_int (uc_id u), rm_status = uc_status u, rm_conclusion = uc_conclusion u\<rparr>)"

section \<open>Decisions\<close>

definition can_reuse_remote_check :: "remote_check \<Rightarrow> ('x) check_intent_scheme \<Rightarrow> bool" where
  "can_reuse_remote_check r i \<longleftrightarrow> ci_status i = ''completed'' \<or> rm_status r \<noteq> ''completed''"

definition should_create_superseding_check :: "remote_check \<Rightarrow> ('x) check_intent_scheme \<Rightarrow> bool" where
  "should_create_superseding_check r i \<longleftrightarrow> ci_status i \<noteq> ''completed'' \<and> rm_status r = ''completed''"

definition remote_matches_intent :: "remote_check \<Rightarrow> ('x) check_intent_scheme \<Rightarrow> bool" where
  "remote_matches_intent r i \<longleftrightarrow>
     (if ci_status i \<noteq> ''completed'' then rm_status r \<noteq> ''completed'' \<and> rm_conclusion r = None
      else rm_status r = ''completed'' \<and> rm_conclusion r = ci_conclusion i)"

definition later_check :: "remote_check \<Rightarrow> remote_check \<Rightarrow> remote_check" where
  "later_check latest current =
     (if number_of_decimal (rm_checkRunId latest) < number_of_decimal (rm_checkRunId current) then current else latest)"

definition select_reusable_remote :: "remote_check list \<Rightarrow> ('x) check_intent_scheme \<Rightarrow> remote_check option" where
  "select_reusable_remote matches i =
     (let opened = filter (\<lambda>m. rm_status m \<noteq> ''completed'') matches;
          pool = (if ci_status i = ''completed'' \<and> opened = [] then matches else opened)
      in case pool of [] \<Rightarrow> None | m # ms \<Rightarrow> Some (foldl later_check m ms))"

section \<open>Requests\<close>

definition check_run_request :: "('x) check_intent_scheme \<Rightarrow> check_run_request" where
  "check_run_request i = \<lparr>cq_owner = rb_owner i, cq_repositoryName = rb_repositoryName i,
     cq_name = github_check_name, cq_detailsUrl = ci_detailsUrl i, cq_externalId = ci_revisionId i,
     cq_status = ci_status i, cq_conclusion = ci_conclusion i, cq_summary = ci_summary i\<rparr>"

definition check_update_request :: "('x) check_intent_scheme \<Rightarrow> string \<Rightarrow> rest_call" where
  "check_update_request i checkRunId = Update_check_run (check_run_request i) (number_of_decimal checkRunId)"

definition check_create_request :: "('x) check_intent_scheme \<Rightarrow> rest_call" where
  "check_create_request i = Create_check_run (check_run_request i) (ci_headSha i)"

definition expected_head :: "('x) check_intent_scheme \<Rightarrow> current_head" where
  "expected_head i =
     \<lparr>ch_headSha = ci_headSha i, ch_baseSha = ci_baseSha i, ch_state = ci_expectedPullRequestState i\<rparr>"

definition write_create ::
  "('w, 'x) ports \<Rightarrow> string \<Rightarrow> ('y) check_intent_scheme \<Rightarrow> ('w, 'x) github_scheme
     \<Rightarrow> (thrown + string) \<times> ('w, 'x) github_scheme" where
  "write_create P token i =
     eff_bind (execute_write (po_outside P) (po_options P) token (check_create_request i))
       (\<lambda>d. eff_bind (eff_lift (parse_remote_check d i None))
         (\<lambda>remote. eff_bind (eff_check (remote_matches_intent remote i) invalid_response)
           (\<lambda>_. eff_return (rm_checkRunId remote))))"

definition write_update ::
  "('w, 'x) ports \<Rightarrow> string \<Rightarrow> ('y) check_intent_scheme \<Rightarrow> string \<Rightarrow> ('w, 'x) github_scheme
     \<Rightarrow> (thrown + remote_check) \<times> ('w, 'x) github_scheme" where
  "write_update P token i checkRunId =
     eff_bind (execute_write (po_outside P) (po_options P) token (check_update_request i checkRunId))
       (\<lambda>d. eff_lift (parse_remote_check d i (Some checkRunId)))"

definition apply_intent ::
  "('w, 'x) ports \<Rightarrow> string \<Rightarrow> ('y) check_intent_scheme \<Rightarrow> string option \<Rightarrow> ('w, 'x) github_scheme
     \<Rightarrow> (thrown + string) \<times> ('w, 'x) github_scheme" where
  "apply_intent P token i existing =
     (case existing of
        None \<Rightarrow> write_create P token i
      | Some checkRunId \<Rightarrow>
          eff_bind (write_update P token i checkRunId)
            (\<lambda>updated.
               if remote_matches_intent updated i then eff_return (rm_checkRunId updated)
               else if \<not> should_create_superseding_check updated i then eff_throw invalid_response
               else write_create P token i))"

section \<open>Finding a check run\<close>

definition matching_check ::
  "('x) check_intent_scheme \<Rightarrow> upstream_check_run \<Rightarrow> thrown + remote_check list" where
  "matching_check i c =
     (if uc_name c = github_check_name \<and> uc_external_id c = Some (ci_revisionId i)
      then if uc_head_sha c \<noteq> ci_headSha i then Inl invalid_response
        else if \<not> decimal_id_ok (string_of_int (uc_id c)) then Inl invalid_response
        else Inr [\<lparr>rm_checkRunId = string_of_int (uc_id c), rm_status = uc_status c, rm_conclusion = uc_conclusion c\<rparr>]
      else Inr [])"

text \<open>One page: the total it announces, how many check runs have been seen with it, its matches.\<close>

definition read_page ::
  "('x) check_intent_scheme \<Rightarrow> int option \<Rightarrow> nat \<Rightarrow> json \<Rightarrow> thrown + int \<times> nat \<times> remote_check list" where
  "read_page i expectedTotal seen d =
     (case upstream_check_run_list_schema d of
        None \<Rightarrow> Inl invalid_response
      | Some (announced, checks) \<Rightarrow>
          if max_existing_check_runs < announced then Inl (Control (control Limit_exceeded))
          else if expectedTotal \<noteq> None \<and> expectedTotal \<noteq> Some announced then Inl invalid_response
          else if checks = [] \<and> int seen < announced then Inl invalid_response
          else if announced < int (seen + length checks) then Inl invalid_response
          else bind_result (map_result (matching_check i) checks)
            (\<lambda>matches. Inr (announced, seen + length checks, concat matches)))"

lemma read_page_InrD:
  assumes "read_page i expectedTotal seen d = Inr (announced, seen', matches)" and "int seen' < announced"
  shows "seen < seen'" and "announced \<le> 300"
  using assms
  by (auto simp: read_page_def result_simps max_existing_check_runs_def split: option.splits if_splits prod.splits)

function find_pages ::
  "('w, 'x) ports \<Rightarrow> string \<Rightarrow> ('y) check_intent_scheme \<Rightarrow> int \<Rightarrow> int option \<Rightarrow> nat \<Rightarrow> remote_check list
     \<Rightarrow> ('w, 'x) github_scheme \<Rightarrow> (thrown + remote_check list) \<times> ('w, 'x) github_scheme" where
  "find_pages P token i page expectedTotal seen matches s =
     (case github_request (po_outside P) (po_options P) token
         (List_check_runs_for_ref (rb_owner i) (rb_repositoryName i) (ci_headSha i) github_check_name page 100) s of
        (Inl e, t) \<Rightarrow> (Inl e, t)
      | (Inr d, t) \<Rightarrow>
          (case read_page i expectedTotal seen d of
             Inl e \<Rightarrow> (Inl e, t)
           | Inr (announced, seen', found) \<Rightarrow>
               if int seen' < announced then find_pages P token i (page + 1) (Some announced) seen' (matches @ found) t
               else (Inr (matches @ found), t)))"
  by pat_completeness auto

termination
proof (relation "measure (\<lambda>(P, token, i, page, expectedTotal, seen, matches, s). 300 - seen)", goal_cases)
  case 1
  then show ?case by simp
next
  case (2 P token i page expectedTotal seen matches s r t d p announced q seen' found)
  then have "read_page i expectedTotal seen d = Inr (announced, seen', found)"
    by simp
  then show ?case
    using read_page_InrD [of i expectedTotal seen d announced seen' found] 2 by simp
qed

declare find_pages.simps [simp del]

definition find_existing_with_client ::
  "('w, 'x) ports \<Rightarrow> string \<Rightarrow> ('y) check_intent_scheme \<Rightarrow> ('w, 'x) github_scheme
     \<Rightarrow> (thrown + remote_check option) \<times> ('w, 'x) github_scheme" where
  "find_existing_with_client P token i =
     eff_bind (find_pages P token i 1 None 0 []) (\<lambda>matches. eff_return (select_reusable_remote matches i))"

section \<open>The operations\<close>

definition invalid_input :: thrown where
  "invalid_input = Control (control Invalid_input)"

definition create_check ::
  "('w, 'x) ports \<Rightarrow> check_intent \<Rightarrow> ('w, 'x) github_scheme \<Rightarrow> (thrown + string) \<times> ('w, 'x) github_scheme" where
  "create_check P i =
     eff_bind (eff_check (check_intent_ok (po_grammars P) i) invalid_input) (\<lambda>_.
     eff_bind (create_client P i) (\<lambda>token.
     invalidating_rejected_token P i (
       eff_bind (find_existing_with_client P token i) (\<lambda>existing.
       eff_bind (assert_head P i (expected_head i)) (\<lambda>_.
       apply_intent P token i
         (case existing of None \<Rightarrow> None
          | Some r \<Rightarrow> if can_reuse_remote_check r i then Some (rm_checkRunId r) else None))))))"

definition update_check ::
  "('w, 'x) ports \<Rightarrow> check_update \<Rightarrow> ('w, 'x) github_scheme \<Rightarrow> (thrown + string) \<times> ('w, 'x) github_scheme" where
  "update_check P i =
     eff_bind (eff_check (check_update_ok (po_grammars P) i) invalid_input) (\<lambda>_.
     eff_bind (create_client P i) (\<lambda>token.
     invalidating_rejected_token P i (
       eff_bind (github_request (po_outside P) (po_options P) token
           (Get_check_run (rb_owner i) (rb_repositoryName i) (number_of_decimal (cu_checkRunId i)))) (\<lambda>d.
       eff_bind (eff_lift (parse_remote_check d i (Some (cu_checkRunId i)))) (\<lambda>remote.
       eff_bind (assert_head P i (expected_head i)) (\<lambda>_.
       apply_intent P token i (if can_reuse_remote_check remote i then Some (cu_checkRunId i) else None)))))))"

definition invalidate_stale_check ::
  "('w, 'x) ports \<Rightarrow> check_update \<Rightarrow> ('w, 'x) github_scheme \<Rightarrow> (thrown + string) \<times> ('w, 'x) github_scheme" where
  "invalidate_stale_check P i =
     eff_bind (eff_check (check_update_ok (po_grammars P) i \<and> ci_status i = ''completed''
         \<and> ci_conclusion i = Some ''cancelled'') invalid_input) (\<lambda>_.
     eff_bind (create_client P i) (\<lambda>token.
     invalidating_rejected_token P i (
       eff_bind (github_request (po_outside P) (po_options P) token
           (Get_check_run (rb_owner i) (rb_repositoryName i) (number_of_decimal (cu_checkRunId i)))) (\<lambda>d.
       eff_bind (eff_lift (parse_remote_check d i (Some (cu_checkRunId i)))) (\<lambda>_.
       eff_bind (po_current_head P (head_input_of i)) (\<lambda>current.
       eff_bind (eff_check (\<not> (ch_headSha current = ci_headSha i \<and> ch_baseSha current = ci_baseSha i))
           (Control (control Stale_head))) (\<lambda>_.
       eff_bind (execute_write (po_outside P) (po_options P) token (check_update_request i (cu_checkRunId i))) (\<lambda>d.
       eff_bind (eff_lift (parse_remote_check d i (Some (cu_checkRunId i)))) (\<lambda>remote.
       eff_bind (eff_check (remote_matches_intent remote i) invalid_response) (\<lambda>_.
       eff_return (rm_checkRunId remote)))))))))))"

definition find_existing_check ::
  "('w, 'x) ports \<Rightarrow> check_intent \<Rightarrow> ('w, 'x) github_scheme \<Rightarrow> (thrown + string option) \<times> ('w, 'x) github_scheme" where
  "find_existing_check P i =
     eff_bind (eff_check (check_intent_ok (po_grammars P) i) invalid_input) (\<lambda>_.
     eff_bind (create_client P i) (\<lambda>token.
     invalidating_rejected_token P i (
       eff_bind (find_existing_with_client P token i) (\<lambda>existing.
       eff_return (map_option rm_checkRunId existing)))))"

end
