(* ===== verification/Git_Tree.thy ===== *)
theory Git_Tree
  imports Github_Adapter
begin

text \<open>
  The kind of the Git object at an exact path, \<open>GithubExactPathKindResolver\<close> of
  \<open>packages/github/src/git-tree-metadata.ts\<close>: one tree level per request, with caches, a budget of
  requests and entries and a deadline. The fields of the resolver are a record passed beside the state
  of the outside world, for the budget is spent inside a request.
\<close>

section \<open>Limits\<close>

record tree_limits =
  tl_maxDepth :: int
  tl_maxApiCalls :: int
  tl_maxEntriesPerTree :: int
  tl_maxTotalEntries :: int
  tl_maxTotalDurationMs :: int

record tree_limits_input =
  ti_maxDepth :: "int option"
  ti_maxApiCalls :: "int option"
  ti_maxEntriesPerTree :: "int option"
  ti_maxTotalEntries :: "int option"
  ti_maxTotalDurationMs :: "int option"

definition default_github_git_tree_metadata_limits :: tree_limits where
  "default_github_git_tree_metadata_limits = \<lparr>tl_maxDepth = 32, tl_maxApiCalls = 1200,
     tl_maxEntriesPerTree = 1000, tl_maxTotalEntries = 100000, tl_maxTotalDurationMs = 20000\<rparr>"

definition tree_limits_of :: "tree_limits_input \<Rightarrow> tree_limits" where
  "tree_limits_of i = (let d = default_github_git_tree_metadata_limits in
     \<lparr>tl_maxDepth = or_else (ti_maxDepth i) (tl_maxDepth d),
      tl_maxApiCalls = or_else (ti_maxApiCalls i) (tl_maxApiCalls d),
      tl_maxEntriesPerTree = or_else (ti_maxEntriesPerTree i) (tl_maxEntriesPerTree d),
      tl_maxTotalEntries = or_else (ti_maxTotalEntries i) (tl_maxTotalEntries d),
      tl_maxTotalDurationMs = or_else (ti_maxTotalDurationMs i) (tl_maxTotalDurationMs d)\<rparr>)"

definition tree_limits_ok :: "tree_limits \<Rightarrow> bool" where
  "tree_limits_ok l \<longleftrightarrow> 0 < tl_maxDepth l \<and> tl_maxDepth l \<le> 64
     \<and> 0 < tl_maxApiCalls l \<and> tl_maxApiCalls l \<le> 2000
     \<and> 0 < tl_maxEntriesPerTree l \<and> tl_maxEntriesPerTree l \<le> 5000
     \<and> 0 < tl_maxTotalEntries l \<and> tl_maxTotalEntries l \<le> 200000
     \<and> 0 < tl_maxTotalDurationMs l \<and> tl_maxTotalDurationMs l \<le> 60000"

section \<open>Answers\<close>

record tree_entry =
  en_path :: string
  en_mode :: string
  en_type :: string
  en_sha :: string

definition git_commit_response_schema :: "json \<Rightarrow> (string \<times> string) option" where
  "git_commit_response_schema j =
     (case (guarded sha_ok (read_string ''sha'' j),
            guarded sha_ok (Option.bind (prop_of ''tree'' j) (read_string ''sha''))) of
        (Some c, Some t) \<Rightarrow> Some (c, t)
      | _ \<Rightarrow> None)"

definition git_tree_entry_schema :: "json \<Rightarrow> tree_entry option" where
  "git_tree_entry_schema j =
     (case (guarded (length_between 1 1024) (read_string ''path'' j),
            guarded (length_between 1 16) (read_string ''mode'' j),
            guarded (length_between 1 16) (read_string ''type'' j),
            guarded sha_ok (read_string ''sha'' j)) of
        (Some p, Some m, Some t, Some s) \<Rightarrow> Some \<lparr>en_path = p, en_mode = m, en_type = t, en_sha = s\<rparr>
      | _ \<Rightarrow> None)"

record tree_response =
  tr_sha :: string
  tr_truncated :: bool
  tr_tree :: "tree_entry list"

definition git_tree_response_schema :: "json \<Rightarrow> tree_response option" where
  "git_tree_response_schema j =
     (case (guarded sha_ok (read_string ''sha'' j), read_bool ''truncated'' j,
            Option.bind (guarded (\<lambda>l. length l \<le> 5000) (read_list ''tree'' j)) (parse_all git_tree_entry_schema)) of
        (Some s, Some b, Some es) \<Rightarrow> Some \<lparr>tr_sha = s, tr_truncated = b, tr_tree = es\<rparr>
      | _ \<Rightarrow> None)"

section \<open>Paths, entries and kinds\<close>

definition bad_response :: thrown where
  "bad_response = Control (control Invalid_response)"

definition limit_exceeded :: thrown where
  "limit_exceeded = Control (control Limit_exceeded)"

definition required_paths ::
  "string \<Rightarrow> string \<Rightarrow> string option \<Rightarrow> thrown + string option \<times> string option" where
  "required_paths status filename previousFilename =
     (if status = ''added'' then Inr (Some filename, None)
      else if status = ''removed'' then Inr (None, Some filename)
      else if status = ''renamed'' \<or> status = ''copied'' then
        (case previousFilename of None \<Rightarrow> Inl bad_response | Some p \<Rightarrow> Inr (Some filename, Some p))
      else Inr (Some filename, Some filename))"

definition combine_kinds :: "git_kind option \<Rightarrow> git_kind option \<Rightarrow> thrown + git_kind" where
  "combine_kinds headKind baseKind =
     (if headKind = None \<and> baseKind = None then Inl bad_response
      else if headKind = Some Submodule \<or> baseKind = Some Submodule then Inr Submodule
      else if headKind = Some Symlink \<or> baseKind = Some Symlink then Inr Symlink
      else Inr Blob)"

definition leaf_kind :: "tree_entry \<Rightarrow> thrown + git_kind" where
  "leaf_kind e =
     (if (en_mode e = ''100644'' \<or> en_mode e = ''100755'') \<and> en_type e = ''blob'' then Inr Blob
      else if en_mode e = ''120000'' \<and> en_type e = ''blob'' then Inr Symlink
      else if en_mode e = ''160000'' \<and> en_type e = ''commit'' then Inr Submodule
      else Inl bad_response)"

definition is_directory :: "tree_entry \<Rightarrow> bool" where
  "is_directory e \<longleftrightarrow> en_mode e = ''040000'' \<and> en_type e = ''tree''"

definition entry_valid :: "tree_entry \<Rightarrow> bool" where
  "entry_valid e \<longleftrightarrow> ((en_mode e = ''100644'' \<or> en_mode e = ''100755'') \<and> en_type e = ''blob'')
     \<or> (en_mode e = ''120000'' \<and> en_type e = ''blob'')
     \<or> (en_mode e = ''160000'' \<and> en_type e = ''commit'')
     \<or> is_directory e"

fun validate_entries :: "string list \<Rightarrow> tree_entry list \<Rightarrow> bool" where
  "validate_entries paths [] = True"
| "validate_entries paths (e # es) =
     (CHR ''/'' \<notin> set (en_path e) \<and> CHR 0x00 \<notin> set (en_path e)
      \<and> en_path e \<noteq> ''.'' \<and> en_path e \<noteq> ''..'' \<and> en_path e \<notin> set paths
      \<and> entry_valid e \<and> validate_entries (en_path e # paths) es)"

definition validate_tree_entries :: "tree_entry list \<Rightarrow> bool" where
  "validate_tree_entries es = validate_entries [] es"

definition parse_git_path :: "string \<Rightarrow> int \<Rightarrow> thrown + string list" where
  "parse_git_path path maxDepth =
     (if starts_with ''/'' path \<or> CHR 0x00 \<in> set path then Inl bad_response
      else let segments = split_on (CHR ''/'') path in
        if maxDepth < int (length segments) then Inl limit_exceeded
        else if list_ex (\<lambda>s. s = [] \<or> s = ''.'' \<or> s = ''..'') segments then Inl bad_response
        else Inr segments)"

record revision =
  rv_owner :: string
  rv_repositoryName :: string
  rv_commitSha :: string

definition validate_revision :: "revision \<Rightarrow> bool" where
  "validate_revision r \<longleftrightarrow> repository_part_ok (rv_owner r) \<and> repository_part_ok (rv_repositoryName r)
     \<and> sha_ok (rv_commitSha r)"

definition object_key :: "revision \<Rightarrow> string \<Rightarrow> string" where
  "object_key r sha = lowercase (rv_owner r) @ ''/'' @ lowercase (rv_repositoryName r) @ '':'' @ sha"

definition revision_key :: "revision \<Rightarrow> string" where
  "revision_key r = object_key r (rv_commitSha r)"

section \<open>The resolver\<close>

record resolver =
  rs_limits :: tree_limits
  rs_treeCache :: "string \<Rightarrow> tree_entry list option"
  rs_rootTreeCache :: "string \<Rightarrow> string option"
  rs_apiCalls :: int
  rs_totalEntries :: int
  rs_deadlineAt :: int

record 'w resolver_env =
  re_outside :: "'w outside"
  re_policy :: request_options
  re_token :: string

type_synonym ('w, 'x) resolving = "resolver \<times> ('w, 'x) github_scheme"

definition beside :: "('s \<Rightarrow> 'a \<times> 's) \<Rightarrow> 'r \<times> 's \<Rightarrow> 'a \<times> ('r \<times> 's)" where
  "beside f x = (case f (snd x) of (a, t) \<Rightarrow> (a, (fst x, t)))"

definition resolver_policy :: "'w resolver_env \<Rightarrow> int \<Rightarrow> ('w, 'x) resolving request_policy" where
  "resolver_policy E remaining =
     \<lparr>rp_maxAttempts = ro_maxAttempts (re_policy E),
      rp_deadlineMs = Some (min (or_else (ro_deadlineMs (re_policy E)) remaining) remaining),
      rp_attemptTimeoutMs = Some (min (or_else (ro_attemptTimeoutMs (re_policy E)) remaining) remaining),
      rp_now = beside (read_clock (re_outside E)),
      rp_random = beside (draw_random (re_outside E)),
      rp_sleep = (\<lambda>d (r, s). (r, sleep (re_outside E) d s))\<rparr>"

definition budgeted_send ::
  "'w resolver_env \<Rightarrow> rest_call \<Rightarrow> int \<Rightarrow> ('w, 'x) resolving \<Rightarrow> attempt_end \<times> ('w, 'x) resolving" where
  "budgeted_send E call limit x =
     (case x of (r, s) \<Rightarrow>
      let r' = r\<lparr>rs_apiCalls := rs_apiCalls r + 1\<rparr> in
      if tl_maxApiCalls (rs_limits r) < rs_apiCalls r' then (Threw limit_exceeded, (r', s))
      else beside (send (re_outside E) (re_token E) call limit) (r', s))"

definition resolver_request ::
  "'w resolver_env \<Rightarrow> rest_call \<Rightarrow> ('w, 'x) resolving \<Rightarrow> (thrown + json) \<times> ('w, 'x) resolving" where
  "resolver_request E call x =
     (case beside (read_clock (re_outside E)) x of (now, y) \<Rightarrow>
      let remaining = rs_deadlineAt (fst y) - now in
      if remaining < 1 then (Inl (Control (control Timeout)), y)
      else case execute_github_request (ow_lib (re_outside E)) (resolver_policy E remaining) (budgeted_send E call) y of
          (Inl e, z) \<Rightarrow> (Inl (Control e), z)
        | (Inr d, z) \<Rightarrow> (Inr d, z))"

definition accept_commit :: "revision \<Rightarrow> json \<Rightarrow> ('w, 'x) resolving \<Rightarrow> (thrown + string) \<times> ('w, 'x) resolving" where
  "accept_commit rvn d x =
     (case git_commit_response_schema d of
        None \<Rightarrow> (Inl bad_response, x)
      | Some (sha, treeSha) \<Rightarrow>
          if sha \<noteq> rv_commitSha rvn then (Inl bad_response, x)
          else (Inr treeSha,
            (fst x)\<lparr>rs_rootTreeCache := (rs_rootTreeCache (fst x))(revision_key rvn := Some treeSha)\<rparr>, snd x))"

definition load_root_tree_sha ::
  "'w resolver_env \<Rightarrow> revision \<Rightarrow> ('w, 'x) resolving \<Rightarrow> (thrown + string) \<times> ('w, 'x) resolving" where
  "load_root_tree_sha E rvn x =
     (if \<not> validate_revision rvn then (Inl bad_response, x)
      else case rs_rootTreeCache (fst x) (revision_key rvn) of
          Some sha \<Rightarrow> (Inr sha, x)
        | None \<Rightarrow> eff_bind (resolver_request E (Get_git_commit (rv_owner rvn) (rv_repositoryName rvn) (rv_commitSha rvn)))
            (accept_commit rvn) x)"

definition accept_tree ::
  "revision \<Rightarrow> string \<Rightarrow> json \<Rightarrow> ('w, 'x) resolving \<Rightarrow> (thrown + tree_entry list) \<times> ('w, 'x) resolving" where
  "accept_tree rvn treeSha d x =
     (case git_tree_response_schema d of
        None \<Rightarrow> (Inl bad_response, x)
      | Some t \<Rightarrow>
          if tr_sha t \<noteq> treeSha \<or> tr_truncated t
             \<or> tl_maxEntriesPerTree (rs_limits (fst x)) < int (length (tr_tree t))
          then (Inl bad_response, x)
          else
            let r = (fst x)\<lparr>rs_totalEntries := rs_totalEntries (fst x) + int (length (tr_tree t))\<rparr> in
            if tl_maxTotalEntries (rs_limits r) < rs_totalEntries r then (Inl limit_exceeded, (r, snd x))
            else if \<not> validate_tree_entries (tr_tree t) then (Inl bad_response, (r, snd x))
            else (Inr (tr_tree t),
              (r\<lparr>rs_treeCache := (rs_treeCache r)(object_key rvn treeSha := Some (tr_tree t))\<rparr>, snd x)))"

definition load_tree ::
  "'w resolver_env \<Rightarrow> revision \<Rightarrow> string \<Rightarrow> ('w, 'x) resolving \<Rightarrow> (thrown + tree_entry list) \<times> ('w, 'x) resolving" where
  "load_tree E rvn treeSha x =
     (case rs_treeCache (fst x) (object_key rvn treeSha) of
        Some es \<Rightarrow> (Inr es, x)
      | None \<Rightarrow> eff_bind (resolver_request E (Get_git_tree (rv_owner rvn) (rv_repositoryName rvn) treeSha))
          (accept_tree rvn treeSha) x)"

definition only_entry :: "string \<Rightarrow> tree_entry list \<Rightarrow> thrown + tree_entry" where
  "only_entry segment es = (case filter (\<lambda>e. en_path e = segment) es of [e] \<Rightarrow> Inr e | _ \<Rightarrow> Inl bad_response)"

fun walk_path ::
  "'w resolver_env \<Rightarrow> revision \<Rightarrow> string list \<Rightarrow> string \<Rightarrow> ('w, 'x) resolving
     \<Rightarrow> (thrown + git_kind) \<times> ('w, 'x) resolving" where
  "walk_path E rvn [] treeSha = eff_throw bad_response"
| "walk_path E rvn (segment # rest) treeSha =
     eff_bind (load_tree E rvn treeSha) (\<lambda>es.
     eff_bind (eff_lift (only_entry segment es)) (\<lambda>e.
       if rest = [] then eff_lift (leaf_kind e)
       else if \<not> is_directory e then eff_throw bad_response
       else walk_path E rvn rest (en_sha e)))"

definition resolve_path ::
  "'w resolver_env \<Rightarrow> revision \<Rightarrow> string \<Rightarrow> ('w, 'x) resolving \<Rightarrow> (thrown + git_kind) \<times> ('w, 'x) resolving" where
  "resolve_path E rvn path x =
     eff_bind (eff_lift (parse_git_path path (tl_maxDepth (rs_limits (fst x))))) (\<lambda>segments.
     eff_bind (load_root_tree_sha E rvn) (walk_path E rvn segments)) x"

definition resolve_side ::
  "'w resolver_env \<Rightarrow> revision option \<Rightarrow> string option \<Rightarrow> ('w, 'x) resolving
     \<Rightarrow> (thrown + git_kind option) \<times> ('w, 'x) resolving" where
  "resolve_side E rvn path =
     (case path of
        None \<Rightarrow> eff_return None
      | Some p \<Rightarrow> (case rvn of
            None \<Rightarrow> eff_throw bad_response
          | Some r \<Rightarrow> eff_bind (resolve_path E r p) (\<lambda>k. eff_return (Some k))))"

definition resolve_file ::
  "'w resolver_env \<Rightarrow> revision option \<Rightarrow> revision \<Rightarrow> changed_file \<Rightarrow> ('w, 'x) resolving
     \<Rightarrow> (thrown + git_kind) \<times> ('w, 'x) resolving" where
  "resolve_file E headRev baseRev f =
     eff_bind (eff_lift (required_paths (cf_status f) (cf_filename f) (cf_previousFilename f))) (\<lambda>(headPath, basePath).
     eff_bind (resolve_side E headRev headPath) (\<lambda>headKind.
     eff_bind (resolve_side E (Some baseRev) basePath) (\<lambda>baseKind.
     eff_lift (combine_kinds headKind baseKind))))"

fun resolve_kinds ::
  "'w resolver_env \<Rightarrow> revision option \<Rightarrow> revision \<Rightarrow> changed_file list \<Rightarrow> ('w, 'x) resolving
     \<Rightarrow> (thrown + git_kind list) \<times> ('w, 'x) resolving" where
  "resolve_kinds E headRev baseRev [] = eff_return []"
| "resolve_kinds E headRev baseRev (f # fs) =
     eff_bind (resolve_file E headRev baseRev f) (\<lambda>k.
     eff_bind (resolve_kinds E headRev baseRev fs) (\<lambda>ks. eff_return (k # ks)))"

text \<open>The constructor.\<close>

definition new_resolver ::
  "'w resolver_env \<Rightarrow> tree_limits_input \<Rightarrow> ('w, 'x) github_scheme \<Rightarrow> (thrown + resolver) \<times> ('w, 'x) github_scheme" where
  "new_resolver E i s =
     (let l = tree_limits_of i in
      if \<not> tree_limits_ok l then (Inl (Control (control Invalid_input)), s)
      else case read_clock (re_outside E) s of (now, t) \<Rightarrow>
        (Inr \<lparr>rs_limits = l, rs_treeCache = (\<lambda>_. None), rs_rootTreeCache = (\<lambda>_. None), rs_apiCalls = 0,
              rs_totalEntries = 0, rs_deadlineAt = now + tl_maxTotalDurationMs l\<rparr>, t))"

section \<open>What a request of the resolver runs\<close>

lemma resolver_request_runs:
  assumes "resolver_request E call x = (r, y)"
  obtains now z where "beside (read_clock (re_outside E)) x = (now, z)" "y = z" "\<exists>e. r = Inl e"
  | now z start u l a n q where "beside (read_clock (re_outside E)) x = (now, z)"
      "rp_now (resolver_policy E (rs_deadlineAt (fst z) - now)) z = (start, u)"
      "attempts (ow_lib (re_outside E)) (resolver_policy E (rs_deadlineAt (fst z) - now)) (budgeted_send E call)
         l a n n None u = (q, y)"
      "\<And>d. r = Inr d \<Longrightarrow> q = Inr d"
proof -
  obtain now z where now: "beside (read_clock (re_outside E)) x = (now, z)"
    by (cases "beside (read_clock (re_outside E)) x")
  let ?p = "resolver_policy E (rs_deadlineAt (fst z) - now)"
  obtain start u where start: "rp_now ?p z = (start, u)"
    by (cases "rp_now ?p z")
  obtain q v where q: "execute_github_request (ow_lib (re_outside E)) ?p (budgeted_send E call) z = (q, v)"
    by (cases "execute_github_request (ow_lib (re_outside E)) ?p (budgeted_send E call) z")
  show thesis
  proof (cases "rs_deadlineAt (fst z) - now < 1")
    case True
    then have "y = z" "\<exists>e. r = Inl e"
      using assms now by (auto simp: resolver_request_def Let_def)
    then show thesis
      by (rule that(1) [OF now])
  next
    case False
    then have r: "y = v" "\<And>d. r = Inr d \<Longrightarrow> q = Inr d" "\<And>e. q = Inl e \<Longrightarrow> \<exists>e. r = Inl e"
      using assms now q by (auto simp: resolver_request_def Let_def split: sum.splits)
    have "(v = z \<and> (\<exists>e. q = Inl e)) \<or> (\<exists>l a n. attempts (ow_lib (re_outside E)) ?p (budgeted_send E call) l a n n None u = (q, v))"
      using q start by (auto simp: execute_github_request_def Let_def split: if_splits)
    then show thesis
      using that r now start by metis
  qed
qed

end
