(* ===== verification/Installation_Tokens.thy ===== *)
theory Installation_Tokens
  imports Github_Adapter
begin

unbundle bit_operations_syntax

text \<open>
  Authentication as a GitHub App (\<open>packages/github/src/app-auth.ts\<close>): the file of the private key, the
  signed assertion, and the cache of installation tokens. The file system, the RSA implementation of
  \<open>node:crypto\<close> and the promises of other calls in flight are parameters. The cache keeps four maps; its
  operations are cut where the code awaits, so that the same pieces make the sequential operations
  here and the interleaved ones of \<open>Token_Races\<close>.
\<close>

section \<open>The private key\<close>

record file_stat =
  fs_isFile :: bool
  fs_mode :: "32 word"
  fs_size :: int
  fs_uid :: int
  fs_gid :: int

definition is_private_key_file_metadata_safe :: "file_stat \<Rightarrow> int \<Rightarrow> int list \<Rightarrow> bool" where
  "is_private_key_file_metadata_safe st effectiveUserId groups =
     (if \<not> fs_isFile st \<or> fs_size st < 128 \<or> 64 * 1024 < fs_size st \<or> fs_mode st AND 3584 \<noteq> 0 then False
      else
        let permissions = fs_mode st AND 511 in
        if permissions AND 256 = 0 \<or> permissions AND 95 \<noteq> 0 then False
        else if permissions AND 32 = 0 then fs_uid st = effectiveUserId
        else fs_uid st = 0 \<and> fs_gid st = 0 \<and> effectiveUserId \<noteq> 0 \<and> 0 \<notin> set groups)"

text \<open>The operating system: \<open>realpathSync\<close>, \<open>openSync\<close> without following links together with
  \<open>fstatSync\<close> and \<open>readFileSync\<close> on the descriptor, and the identity of the process.\<close>

record host =
  ho_isAbsolute :: "string \<Rightarrow> bool"
  ho_realpath :: "string \<Rightarrow> string option"
  ho_open :: "string \<Rightarrow> (file_stat \<times> bytes option) option"
  ho_euid :: "int option"
  ho_groups :: "int list option"
  ho_key_type :: "bytes \<Rightarrow> (string \<times> int option) option"
  ho_sign :: "bytes \<Rightarrow> bytes \<Rightarrow> bytes option"
  ho_iso_datetime :: "string \<Rightarrow> bool"

definition invalid_key_file :: thrown where
  "invalid_key_file = Control (control Invalid_key_file)"

definition read_private_key_file :: "host \<Rightarrow> string \<Rightarrow> thrown + bytes" where
  "read_private_key_file H path =
     (if ho_realpath H path \<noteq> Some path then Inl invalid_key_file
      else case ho_open H path of
          None \<Rightarrow> Inl invalid_key_file
        | Some (st, content) \<Rightarrow>
            (case (ho_euid H, ho_groups H) of
               (Some euid, Some groups) \<Rightarrow>
                 if \<not> is_private_key_file_metadata_safe st euid groups then Inl invalid_key_file
                 else (case content of None \<Rightarrow> Inl invalid_key_file | Some bs \<Rightarrow> Inr bs)
             | _ \<Rightarrow> Inl invalid_key_file))"

section \<open>The assertion\<close>

definition app_id_ok :: "string \<Rightarrow> bool" where
  "app_id_ok s \<longleftrightarrow> 1 \<le> length s \<and> length s \<le> 32 \<and> all_in ''0123456789'' s \<and> hd s \<noteq> CHR ''0''"

definition encode_jwt_part :: "json \<Rightarrow> string" where
  "encode_jwt_part v = encode_base64url (utf8_bytes (stringify v))"

definition jwt_payload :: "string \<Rightarrow> int \<Rightarrow> json" where
  "jwt_payload appId nowSeconds =
     JObj [(''iat'', JNum (nowSeconds - 5)), (''exp'', JNum (nowSeconds + 9 * 60)), (''iss'', JStr appId)]"

definition create_github_app_jwt :: "host \<Rightarrow> string \<Rightarrow> string \<Rightarrow> int \<Rightarrow> thrown + string" where
  "create_github_app_jwt H appId privateKeyPath now =
     (if \<not> app_id_ok appId \<or> \<not> ho_isAbsolute H privateKeyPath then Inl (Control (control Invalid_input))
      else
        let unsigned = encode_jwt_part (JObj [(''alg'', JStr ''RS256''), (''typ'', JStr ''JWT'')]) @ ''.''
              @ encode_jwt_part (jwt_payload appId (now div 1000))
        in bind_result (read_private_key_file H privateKeyPath) (\<lambda>key.
             case ho_key_type H key of
               None \<Rightarrow> Inl invalid_key_file
             | Some (kind, modulusLength) \<Rightarrow>
                 if kind \<noteq> ''rsa'' \<or> or_else modulusLength 0 < 2048 then Inl invalid_key_file
                 else (case ho_sign H key (utf8_bytes unsigned) of
                     None \<Rightarrow> Inl invalid_key_file
                   | Some signature \<Rightarrow> Inr (unsigned @ ''.'' @ encode_base64url signature))))"

section \<open>The cache\<close>

record cached_token =
  ct_token :: string
  ct_expiresAtMs :: int

text \<open>A promise is a number; \<open>tk_next\<close> is the number of the next one.\<close>

record 'w token_state = "'w github" +
  tk_cached :: "string \<Rightarrow> cached_token option"
  tk_pending :: "string \<Rightarrow> nat option"
  tk_refreshing :: "string \<Rightarrow> nat option"
  tk_generations :: "string \<Rightarrow> nat option"
  tk_next :: nat

record token_options =
  to_appId :: string
  to_privateKeyPath :: string
  to_expirySkewMs :: "int option"

definition expiry_skew_ms :: "token_options \<Rightarrow> int" where
  "expiry_skew_ms opts = or_else (to_expirySkewMs opts) (5 * 60 * 1000)"

text \<open>The constructor accepts these options.\<close>

definition token_options_ok :: "token_options \<Rightarrow> bool" where
  "token_options_ok opts \<longleftrightarrow> 30000 \<le> expiry_skew_ms opts \<and> expiry_skew_ms opts \<le> 30 * 60 * 1000"

definition token_cache_key :: "('x) binding_scheme \<Rightarrow> string" where
  "token_cache_key b = rb_installationId b @ '':'' @ rb_repositoryId b"

definition generation_of :: "('w, 'x) token_state_scheme \<Rightarrow> string \<Rightarrow> nat" where
  "generation_of s key = or_else (tk_generations s key) 0"

datatype get_begin = Have_token string | Join_pending nat | Start_mint nat nat

text \<open>\<open>get\<close> up to its first await: the cached token, the mint to wait for, or a mint of its own with the
  generation it belongs to.\<close>

definition begin_get :: "token_options \<Rightarrow> string \<Rightarrow> int \<Rightarrow> ('w, 'x) token_state_scheme
    \<Rightarrow> get_begin \<times> ('w, 'x) token_state_scheme" where
  "begin_get opts key now s =
     (case tk_cached s key of
        Some c \<Rightarrow>
          if now < ct_expiresAtMs c - expiry_skew_ms opts then (Have_token (ct_token c), s)
          else (case tk_pending s key of
              Some p \<Rightarrow> (Join_pending p, s)
            | None \<Rightarrow> (Start_mint (tk_next s) (generation_of s key),
                s\<lparr>tk_pending := (tk_pending s)(key := Some (tk_next s)), tk_next := Suc (tk_next s)\<rparr>))
      | None \<Rightarrow> (case tk_pending s key of
            Some p \<Rightarrow> (Join_pending p, s)
          | None \<Rightarrow> (Start_mint (tk_next s) (generation_of s key),
              s\<lparr>tk_pending := (tk_pending s)(key := Some (tk_next s)), tk_next := Suc (tk_next s)\<rparr>)))"

text \<open>\<open>get\<close> after its own mint: cache the token unless the generation has moved on; in any case forget the
  mint if it is still the pending one.\<close>

definition finish_get :: "string \<Rightarrow> nat \<Rightarrow> nat \<Rightarrow> thrown + cached_token \<Rightarrow> ('w, 'x) token_state_scheme
    \<Rightarrow> ('w, 'x) token_state_scheme" where
  "finish_get key p generation minted s =
     (let s' = (case minted of
            Inr c \<Rightarrow> if generation_of s key = generation then s\<lparr>tk_cached := (tk_cached s)(key := Some c)\<rparr> else s
          | Inl _ \<Rightarrow> s)
      in if tk_pending s' key = Some p then s'\<lparr>tk_pending := (tk_pending s')(key := None)\<rparr> else s')"

text \<open>\<open>getFresh\<close> up to the call of \<open>get\<close>.\<close>

definition begin_refresh :: "string \<Rightarrow> ('w, 'x) token_state_scheme \<Rightarrow> ('w, 'x) token_state_scheme" where
  "begin_refresh key s = s\<lparr>tk_generations := (tk_generations s)(key := Some (Suc (generation_of s key))),
     tk_cached := (tk_cached s)(key := None), tk_pending := (tk_pending s)(key := None)\<rparr>"

definition register_refresh :: "string \<Rightarrow> ('w, 'x) token_state_scheme \<Rightarrow> ('w, 'x) token_state_scheme" where
  "register_refresh key s = s\<lparr>tk_refreshing := (tk_refreshing s)(key := Some (tk_next s)), tk_next := Suc (tk_next s)\<rparr>"

definition finish_refresh :: "string \<Rightarrow> nat \<Rightarrow> ('w, 'x) token_state_scheme \<Rightarrow> ('w, 'x) token_state_scheme" where
  "finish_refresh key p s =
     (if tk_refreshing s key = Some p then s\<lparr>tk_refreshing := (tk_refreshing s)(key := None)\<rparr> else s)"

definition drop_cached :: "string \<Rightarrow> ('w, 'x) token_state_scheme \<Rightarrow> ('w, 'x) token_state_scheme" where
  "drop_cached key s = s\<lparr>tk_cached := (tk_cached s)(key := None)\<rparr>"

section \<open>Minting\<close>

record 'w token_env =
  te_outside :: "'w outside"
  te_options :: token_options
  te_policy :: request_options
  te_host :: host
  te_await_mint :: "nat \<Rightarrow> 'w token_state \<Rightarrow> (thrown + string) \<times> 'w token_state"
  te_await_refresh :: "nat \<Rightarrow> 'w token_state \<Rightarrow> (thrown + string) \<times> 'w token_state"

definition token_response_schema :: "host \<Rightarrow> json \<Rightarrow> (string \<times> string) option" where
  "token_response_schema H j =
     (case (guarded (length_between 16 1024) (read_string ''token'' j),
            guarded (ho_iso_datetime H) (read_string ''expires_at'' j)) of
        (Some t, Some e) \<Rightarrow> Some (t, e)
      | _ \<Rightarrow> None)"

definition read_minted :: "'w token_env \<Rightarrow> json \<Rightarrow> thrown + cached_token" where
  "read_minted E d =
     (case token_response_schema (te_host E) d of
        None \<Rightarrow> Inl (Control (control Invalid_response))
      | Some (token, expires_at) \<Rightarrow>
          (case hl_date_parse (ow_lib (te_outside E)) expires_at of
             None \<Rightarrow> Inl (Control (control Invalid_response))
           | Some expiresAtMs \<Rightarrow> Inr \<lparr>ct_token = token, ct_expiresAtMs = expiresAtMs\<rparr>))"

definition clock :: "'w outside \<Rightarrow> ('w, 'x) github_scheme \<Rightarrow> ('e + int) \<times> ('w, 'x) github_scheme" where
  "clock W s = (case read_clock W s of (now, t) \<Rightarrow> (Inr now, t))"

definition mint :: "'w token_env \<Rightarrow> binding \<Rightarrow> 'w token_state \<Rightarrow> (thrown + cached_token) \<times> 'w token_state" where
  "mint E b =
     eff_bind (clock (te_outside E)) (\<lambda>now.
     eff_bind (eff_lift (create_github_app_jwt (te_host E) (to_appId (te_options E)) (to_privateKeyPath (te_options E)) now))
       (\<lambda>jwt.
     eff_bind (github_request (te_outside E) (te_policy E) jwt
         (Create_installation_access_token (number_of_decimal (rb_installationId b)) (number_of_decimal (rb_repositoryId b))))
       (\<lambda>d.
     eff_bind (eff_lift (read_minted E d)) (\<lambda>c.
     eff_bind (clock (te_outside E)) (\<lambda>now.
     eff_bind (eff_check (now < ct_expiresAtMs c - expiry_skew_ms (te_options E)) (Control (control Invalid_response)))
       (\<lambda>_. eff_return c))))))"

section \<open>The operations of the cache\<close>

definition invalid_binding :: thrown where
  "invalid_binding = Control (control Invalid_input)"

text \<open>The clock is read only to look at a cached token.\<close>

definition begin_get_now :: "'w token_env \<Rightarrow> string \<Rightarrow> 'w token_state \<Rightarrow> get_begin \<times> 'w token_state" where
  "begin_get_now E key s =
     (case (if tk_cached s key = None then (0, s) else read_clock (te_outside E) s) of
        (now, t) \<Rightarrow> begin_get (te_options E) key now t)"

text \<open>Waiting for a promise of another call: the state may change meanwhile, but the trace is that of this call.\<close>

definition awaiting :: "('w token_state \<Rightarrow> (thrown + string) \<times> 'w token_state) \<Rightarrow> 'w token_state
    \<Rightarrow> (thrown + string) \<times> 'w token_state" where
  "awaiting f s = (case f s of (r, t) \<Rightarrow> (r, t\<lparr>gh_trace := gh_trace s\<rparr>))"

definition end_get ::
  "'w token_env \<Rightarrow> string \<Rightarrow> binding \<Rightarrow> get_begin \<Rightarrow> 'w token_state \<Rightarrow> (thrown + string) \<times> 'w token_state" where
  "end_get E key b g s =
     (case g of
        Have_token t \<Rightarrow> (Inr t, s)
      | Join_pending p \<Rightarrow> awaiting (te_await_mint E p) s
      | Start_mint p generation \<Rightarrow>
          (case mint E b s of (minted, t) \<Rightarrow> (map_sum id ct_token minted, finish_get key p generation minted t)))"

definition get_token :: "'w token_env \<Rightarrow> binding \<Rightarrow> 'w token_state \<Rightarrow> (thrown + string) \<times> 'w token_state" where
  "get_token E b s =
     (if \<not> binding_ok b then (Inl invalid_binding, s)
      else case begin_get_now E (token_cache_key b) s of (g, t) \<Rightarrow> end_get E (token_cache_key b) b g t)"

definition get_fresh_token :: "'w token_env \<Rightarrow> binding \<Rightarrow> 'w token_state \<Rightarrow> (thrown + string) \<times> 'w token_state" where
  "get_fresh_token E b s =
     (if \<not> binding_ok b then (Inl invalid_binding, s)
      else let key = token_cache_key b in
        case tk_refreshing s key of
          Some p \<Rightarrow> awaiting (te_await_refresh E p) s
        | None \<Rightarrow>
            (case begin_get_now E key (begin_refresh key s) of (g, t) \<Rightarrow>
             case end_get E key b g (register_refresh key t) of (r, u) \<Rightarrow> (r, finish_refresh key (tk_next t) u)))"

text \<open>A binding that is not valid makes the code throw; every caller has validated its binding before.\<close>

definition invalidate_token :: "binding \<Rightarrow> ('w, 'x) token_state_scheme \<Rightarrow> ('w, 'x) token_state_scheme" where
  "invalidate_token b s = (if binding_ok b then drop_cached (token_cache_key b) s else s)"

section \<open>What the cache sends\<close>

lemma begin_get_trace: "begin_get opts key now s = (g, t) \<Longrightarrow> gh_trace t = gh_trace s"
  by (auto simp: begin_get_def split: option.splits if_splits)

lemma begin_get_now_trace: "begin_get_now E key s = (g, t) \<Longrightarrow> gh_trace t = gh_trace s"
  by (auto simp: begin_get_now_def dest!: begin_get_trace read_clock_trace split: prod.splits if_splits)

lemma finish_get_trace [simp]: "gh_trace (finish_get key p g minted s) = gh_trace s"
  by (simp add: finish_get_def Let_def split: sum.split)

lemma cache_traces [simp]:
  "gh_trace (begin_refresh key s) = gh_trace s" "gh_trace (register_refresh key s) = gh_trace s"
  "gh_trace (finish_refresh key p s) = gh_trace s" "gh_trace (invalidate_token b s) = gh_trace s"
  by (simp_all add: begin_refresh_def register_refresh_def finish_refresh_def invalidate_token_def drop_cached_def)

lemma clock_quiet: "adds (\<lambda>r. quiet) (clock W)"
  by (auto simp: adds_def clock_def dest: read_clock_trace split: prod.splits)

lemma mint_quiet: "adds (\<lambda>r. quiet) (mint E b)"
  unfolding mint_def
  by (intro adds_quiet_bind clock_quiet github_request_quiet) (simp_all add: adds_simple adds_check)

lemma end_get_quiet: "adds (\<lambda>r. quiet) (end_get E key b g)"
proof (rule addsI)
  fix s r t
  assume run: "end_get E key b g s = (r, t)"
  show "\<exists>es. gh_trace t = gh_trace s @ es \<and> quiet es"
  proof (cases g)
    case (Start_mint p n)
    obtain m u where m: "mint E b s = (m, u)"
      by fastforce
    then show ?thesis
      using run Start_mint addsD [OF mint_quiet m] by (auto simp: end_get_def)
  qed (use run in \<open>auto simp: end_get_def awaiting_def split: prod.splits\<close>)
qed

lemma get_token_quiet: "adds (\<lambda>r. quiet) (get_token E b)"
proof (rule addsI)
  fix s r t
  assume run: "get_token E b s = (r, t)"
  show "\<exists>es. gh_trace t = gh_trace s @ es \<and> quiet es"
  proof (cases "binding_ok b")
    case True
    obtain g u where g: "begin_get_now E (token_cache_key b) s = (g, u)"
      by fastforce
    then show ?thesis
      using run True begin_get_now_trace [OF g] addsD [OF end_get_quiet, of E "token_cache_key b" b g u r t]
      by (simp add: get_token_def)
  qed (use run in \<open>auto simp: get_token_def\<close>)
qed

lemma get_fresh_token_quiet: "adds (\<lambda>r. quiet) (get_fresh_token E b)"
proof (rule addsI)
  fix s r t
  assume run: "get_fresh_token E b s = (r, t)"
  let ?key = "token_cache_key b"
  show "\<exists>es. gh_trace t = gh_trace s @ es \<and> quiet es"
  proof (cases "binding_ok b \<and> tk_refreshing s ?key = None")
    case True
    obtain g u where g: "begin_get_now E ?key (begin_refresh ?key s) = (g, u)"
      by fastforce
    obtain q v where v: "end_get E ?key b g (register_refresh ?key u) = (q, v)"
      by fastforce
    show ?thesis
      using run True g v begin_get_now_trace [OF g] addsD [OF end_get_quiet v] by (auto simp: get_fresh_token_def)
  qed (use run in \<open>auto simp: get_fresh_token_def awaiting_def Let_def split: prod.splits if_splits\<close>)
qed

end
