(* ===== verification/Pull_Request.thy ===== *)
theory Pull_Request
  imports Git_Tree Installation_Tokens
begin

text \<open>
  The read-only source of pull requests, \<open>OctokitPullRequestPort\<close> of \<open>packages/github/src/pull-request.ts\<close>:
  the current head, and a snapshot with its changed files, read between two equal readings of the pull
  request. The provider of tokens is a parameter; \<open>production_ports\<close> at the end is what the check-run
  adapter gets in production, this port over the cache of \<open>Installation_Tokens\<close>.
\<close>

section \<open>Answers\<close>

record upstream_repository =
  ur_id :: int
  ur_full_name :: string

record upstream_pull_request =
  up_id :: int
  up_number :: int
  up_state :: string
  up_draft :: bool
  up_title :: string
  up_body :: "string option"
  up_changed_files :: int
  up_userId :: int
  up_userLogin :: string
  up_headSha :: string
  up_headRepo :: "upstream_repository option"
  up_baseSha :: string
  up_baseRepo :: upstream_repository

definition upstream_repository_schema :: "json \<Rightarrow> upstream_repository option" where
  "upstream_repository_schema j =
     (case (guarded github_id_ok (read_int ''id'' j), guarded (length_between 3 201) (read_string ''full_name'' j)) of
        (Some i, Some n) \<Rightarrow> Some \<lparr>ur_id = i, ur_full_name = n\<rparr>
      | _ \<Rightarrow> None)"

definition nullable_repository :: "json \<Rightarrow> upstream_repository option option" where
  "nullable_repository j =
     (case prop_of ''repo'' j of
        None \<Rightarrow> None
      | Some JNull \<Rightarrow> Some None
      | Some r \<Rightarrow> map_option Some (upstream_repository_schema r))"

text \<open>\<open>draft ?? false\<close> is all the code makes of the optional nullable flag.\<close>

definition read_draft :: "json \<Rightarrow> bool option" where
  "read_draft j = (case prop_of ''draft'' j of
     None \<Rightarrow> Some False | Some JNull \<Rightarrow> Some False | Some (JBool b) \<Rightarrow> Some b | _ \<Rightarrow> None)"

definition upstream_pull_request_schema :: "json \<Rightarrow> upstream_pull_request option" where
  "upstream_pull_request_schema j =
     (case (guarded github_id_ok (read_int ''id'' j),
            guarded (\<lambda>n. 0 < n \<and> n \<le> 2147483647) (read_int ''number'' j),
            guarded (\<lambda>s. s \<in> set pull_request_states) (read_string ''state'' j),
            read_draft j,
            guarded (length_between 0 4096) (read_string ''title'' j),
            guarded (is_some_and (length_between 0 65536)) (read_nullable_string ''body'' j),
            guarded (\<lambda>n. 0 \<le> n \<and> n \<le> 10000000) (read_int ''changed_files'' j),
            prop_of ''user'' j, prop_of ''head'' j, prop_of ''base'' j) of
        (Some i, Some n, Some st, Some dr, Some ti, Some bo, Some cf, Some us, Some he, Some ba) \<Rightarrow>
          (case (guarded github_id_ok (read_int ''id'' us), guarded (length_between 1 100) (read_string ''login'' us),
                 guarded sha_ok (read_string ''sha'' he), nullable_repository he,
                 guarded sha_ok (read_string ''sha'' ba),
                 Option.bind (prop_of ''repo'' ba) upstream_repository_schema) of
             (Some ui, Some ul, Some hs, Some hr, Some bs, Some br) \<Rightarrow>
               Some \<lparr>up_id = i, up_number = n, up_state = st, up_draft = dr, up_title = ti, up_body = bo,
                     up_changed_files = cf, up_userId = ui, up_userLogin = ul, up_headSha = hs, up_headRepo = hr,
                     up_baseSha = bs, up_baseRepo = br\<rparr>
           | _ \<Rightarrow> None)
      | _ \<Rightarrow> None)"

definition max_accepted_patch_characters :: nat where
  "max_accepted_patch_characters = 1024 * 1024"

text \<open>An optional text: absent, or within its bounds.\<close>

definition read_optional_string :: "(string \<Rightarrow> bool) \<Rightarrow> string \<Rightarrow> json \<Rightarrow> string option option" where
  "read_optional_string ok k j =
     (case prop_of k j of
        None \<Rightarrow> Some None
      | Some (JStr s) \<Rightarrow> if ok s then Some (Some s) else None
      | _ \<Rightarrow> None)"

definition upstream_changed_file_schema :: "json \<Rightarrow> changed_file option" where
  "upstream_changed_file_schema j =
     (case (guarded (is_some_and sha_ok) (read_nullable_string ''sha'' j),
            guarded (length_between 1 1024) (read_string ''filename'' j),
            read_optional_string (length_between 1 1024) ''previous_filename'' j,
            guarded (\<lambda>s. s \<in> set changed_file_statuses) (read_string ''status'' j),
            guarded (\<lambda>n. 0 \<le> n) (read_int ''additions'' j),
            guarded (\<lambda>n. 0 \<le> n) (read_int ''deletions'' j),
            guarded (\<lambda>n. 0 \<le> n) (read_int ''changes'' j),
            read_optional_string (\<lambda>s. length s \<le> max_accepted_patch_characters) ''patch'' j) of
        (Some sh, Some f, Some pf, Some st, Some ad, Some de, Some ch, Some pa) \<Rightarrow>
          Some \<lparr>cf_sha = sh, cf_filename = f, cf_previousFilename = pf, cf_status = st, cf_additions = ad,
                cf_deletions = de, cf_changes = ch, cf_patch = pa\<rparr>
      | _ \<Rightarrow> None)"

definition upstream_changed_files_schema :: "json \<Rightarrow> changed_file list option" where
  "upstream_changed_files_schema j =
     (case j of JArr l \<Rightarrow> if length l \<le> 100 then parse_all upstream_changed_file_schema l else None | _ \<Rightarrow> None)"

section \<open>Limits\<close>

record patch_limits =
  pm_maxPatchBytesPerFile :: int
  pm_maxTotalPatchBytes :: int

definition max_files :: nat where
  "max_files = 300"

definition resolve_limits :: "int option \<Rightarrow> int option \<Rightarrow> thrown + patch_limits" where
  "resolve_limits perFile allFiles =
     (let p = or_else perFile (128 * 1024); t = or_else allFiles (2 * 1024 * 1024) in
      if 0 < p \<and> p \<le> int max_accepted_patch_characters \<and> 0 < t \<and> t \<le> 16 * 1024 * 1024
      then Inr \<lparr>pm_maxPatchBytesPerFile = p, pm_maxTotalPatchBytes = t\<rparr>
      else Inl (Control (control Invalid_input)))"

section \<open>Comparing and naming\<close>

definition same_snapshot_metadata :: "upstream_pull_request \<Rightarrow> upstream_pull_request \<Rightarrow> bool" where
  "same_snapshot_metadata a b \<longleftrightarrow>
     up_id b = up_id a \<and> up_number b = up_number a \<and> up_state b = up_state a \<and> up_draft b = up_draft a
     \<and> up_title b = up_title a \<and> up_body b = up_body a \<and> up_changed_files b = up_changed_files a
     \<and> up_userId b = up_userId a \<and> up_userLogin b = up_userLogin a \<and> up_headSha b = up_headSha a
     \<and> map_option ur_id (up_headRepo b) = map_option ur_id (up_headRepo a)
     \<and> map_option ur_full_name (up_headRepo b) = map_option ur_full_name (up_headRepo a)
     \<and> up_baseSha b = up_baseSha a \<and> ur_id (up_baseRepo b) = ur_id (up_baseRepo a)
     \<and> ur_full_name (up_baseRepo b) = ur_full_name (up_baseRepo a)"

definition repository_revision :: "string \<Rightarrow> string \<Rightarrow> thrown + revision" where
  "repository_revision fullName commitSha =
     (case split_on (CHR ''/'') fullName of
        [owner, name] \<Rightarrow>
          if owner = [] then Inl bad_response
          else Inr \<lparr>rv_owner = owner, rv_repositoryName = name, rv_commitSha = commitSha\<rparr>
      | _ \<Rightarrow> Inl bad_response)"

definition assert_repository_binding :: "('x) binding_scheme \<Rightarrow> upstream_pull_request \<Rightarrow> thrown + unit" where
  "assert_repository_binding b p =
     (if string_of_int (ur_id (up_baseRepo p)) \<noteq> rb_repositoryId b
         \<or> lowercase (ur_full_name (up_baseRepo p)) \<noteq> lowercase (rb_owner b @ ''/'' @ rb_repositoryName b)
      then Inl bad_response else Inr ())"

section \<open>Changed files\<close>

record file_reading =
  fr_files :: "changed_file list"
  fr_patchBytes :: int
  fr_patchBytesLimitHit :: bool
  fr_patchUnavailable :: bool

definition read_file :: "patch_limits \<Rightarrow> file_reading \<Rightarrow> changed_file \<Rightarrow> thrown + file_reading" where
  "read_file l a f =
     (if cf_filename f \<in> cf_filename ` set (fr_files a) then Inl bad_response
      else case cf_patch f of
          None \<Rightarrow> Inr (a\<lparr>fr_patchUnavailable := True, fr_files := fr_files a @ [f]\<rparr>)
        | Some patch \<Rightarrow>
            let size = int (length (utf8_bytes patch)) in
            if pm_maxPatchBytesPerFile l < size \<or> pm_maxTotalPatchBytes l < fr_patchBytes a + size
            then Inr (a\<lparr>fr_patchBytesLimitHit := True, fr_files := fr_files a @ [f\<lparr>cf_patch := None\<rparr>]\<rparr>)
            else Inr (a\<lparr>fr_patchBytes := fr_patchBytes a + size, fr_files := fr_files a @ [f]\<rparr>))"

definition read_file_page :: "patch_limits \<Rightarrow> nat \<Rightarrow> file_reading \<Rightarrow> json \<Rightarrow> thrown + file_reading" where
  "read_file_page l target a d =
     (case upstream_changed_files_schema d of
        None \<Rightarrow> Inl bad_response
      | Some fs \<Rightarrow> if fs = [] then Inl bad_response
          else fold_result (read_file l) a (take (target - length (fr_files a)) fs))"

lemma read_file_length: "read_file l a f = Inr b \<Longrightarrow> length (fr_files b) = Suc (length (fr_files a))"
  by (auto simp: read_file_def Let_def split: if_splits option.splits)

lemma fold_read_file_length:
  "fold_result (read_file l) a fs = Inr b \<Longrightarrow> length (fr_files b) = length (fr_files a) + length fs"
proof (induction fs arbitrary: a)
  case (Cons f fs)
  then show ?case
    by (auto simp: result_simps dest: read_file_length)
qed simp

lemma read_file_page_grows:
  "read_file_page l target a d = Inr b \<Longrightarrow> length (fr_files a) < target
    \<Longrightarrow> length (fr_files a) < length (fr_files b)"
  by (auto simp: read_file_page_def dest!: fold_read_file_length split: option.splits if_splits)

record 'w pull_request_env =
  pe_outside :: "'w outside"
  pe_policy :: request_options
  pe_limits :: patch_limits
  pe_tree_limits :: tree_limits_input

function read_file_pages ::
  "'w pull_request_env \<Rightarrow> string \<Rightarrow> ('y) head_input_scheme \<Rightarrow> nat \<Rightarrow> int \<Rightarrow> file_reading
     \<Rightarrow> ('w, 'x) github_scheme \<Rightarrow> (thrown + file_reading) \<times> ('w, 'x) github_scheme" where
  "read_file_pages E token i target page a s =
     (if length (fr_files a) < target then
        (case github_request (pe_outside E) (pe_policy E) token
            (List_pull_request_files (rb_owner i) (rb_repositoryName i) (hi_pullNumber i) page 100) s of
           (Inl e, t) \<Rightarrow> (Inl e, t)
         | (Inr d, t) \<Rightarrow>
             (case read_file_page (pe_limits E) target a d of
                Inl e \<Rightarrow> (Inl e, t)
              | Inr b \<Rightarrow> read_file_pages E token i target (page + 1) b t))
      else (Inr a, s))"
  by pat_completeness auto

termination
proof (relation "measure (\<lambda>(E, token, i, target, page, a, s). target - length (fr_files a))", goal_cases)
  case 1
  then show ?case by simp
next
  case (2 E token i target page a s r t d b)
  then have "length (fr_files a) < length (fr_files b)"
    using read_file_page_grows by metis
  then show ?case
    using 2(1) by simp
qed

declare read_file_pages.simps [simp del]

definition read_files ::
  "'w pull_request_env \<Rightarrow> string \<Rightarrow> ('y) head_input_scheme \<Rightarrow> int \<Rightarrow> ('w, 'x) github_scheme
     \<Rightarrow> (thrown + changed_file list \<times> pull_request_limits) \<times> ('w, 'x) github_scheme" where
  "read_files E token i changedFiles =
     (let target = min (nat changedFiles) max_files in
      eff_bind (read_file_pages E token i target 1
          \<lparr>fr_files = [], fr_patchBytes = 0, fr_patchBytesLimitHit = False, fr_patchUnavailable = False\<rparr>) (\<lambda>a.
      eff_bind (eff_check (length (fr_files a) = target) bad_response) (\<lambda>_.
      eff_return (fr_files a, \<lparr>pl_files = int max_files < changedFiles, pl_patchBytes = fr_patchBytesLimitHit a,
        pl_patchUnavailable = fr_patchUnavailable a\<rparr>))))"

section \<open>Reading a pull request\<close>

definition read_pull_request ::
  "'w pull_request_env \<Rightarrow> string \<Rightarrow> ('y) head_input_scheme \<Rightarrow> ('w, 'x) github_scheme
     \<Rightarrow> (thrown + upstream_pull_request) \<times> ('w, 'x) github_scheme" where
  "read_pull_request E token i =
     eff_bind (github_request (pe_outside E) (pe_policy E) token
         (Get_pull_request (rb_owner i) (rb_repositoryName i) (hi_pullNumber i))) (\<lambda>d.
       case upstream_pull_request_schema d of
         None \<Rightarrow> eff_throw bad_response
       | Some p \<Rightarrow> if up_number p \<noteq> hi_pullNumber i then eff_throw bad_response else eff_return p)"

definition resolve_all_kinds ::
  "'w pull_request_env \<Rightarrow> string \<Rightarrow> upstream_pull_request \<Rightarrow> changed_file list \<Rightarrow> ('w, 'x) github_scheme
     \<Rightarrow> (thrown + git_kind list) \<times> ('w, 'x) github_scheme" where
  "resolve_all_kinds E token p fs =
     (let R = \<lparr>re_outside = pe_outside E, re_policy = pe_policy E, re_token = token\<rparr> in
      eff_bind (new_resolver R (pe_tree_limits E)) (\<lambda>r.
      eff_bind (eff_lift (repository_revision (ur_full_name (up_baseRepo p)) (up_headSha p))) (\<lambda>headRev.
      eff_bind (eff_lift (repository_revision (ur_full_name (up_baseRepo p)) (up_baseSha p))) (\<lambda>baseRev s.
        case resolve_kinds R (Some headRev) baseRev fs (r, s) of (ks, (_, t)) \<Rightarrow> (ks, t)))))"

definition snapshot_of ::
  "upstream_pull_request \<Rightarrow> (changed_file \<times> git_kind) list \<Rightarrow> pull_request_limits \<Rightarrow> snapshot" where
  "snapshot_of p fs hit =
     \<lparr>sn_githubPullRequestId = string_of_int (up_id p), sn_number = up_number p, sn_state = up_state p,
      sn_draft = up_draft p, sn_title = up_title p, sn_body = up_body p,
      sn_authorId = string_of_int (up_userId p), sn_authorLogin = up_userLogin p,
      sn_headSha = up_headSha p, sn_baseSha = up_baseSha p, sn_changedFiles = up_changed_files p,
      sn_isFork = (case up_headRepo p of None \<Rightarrow> True | Some r \<Rightarrow> ur_id r \<noteq> ur_id (up_baseRepo p)),
      sn_files = fs, sn_limitsHit = hit\<rparr>"

definition stale_head :: thrown where
  "stale_head = Control (control Stale_head)"

definition load_with_client ::
  "'w pull_request_env \<Rightarrow> read_input \<Rightarrow> string \<Rightarrow> ('w, 'x) github_scheme
     \<Rightarrow> (thrown + snapshot) \<times> ('w, 'x) github_scheme" where
  "load_with_client E i token =
     eff_bind (read_pull_request E token i) (\<lambda>initial.
     eff_bind (eff_lift (assert_repository_binding i initial)) (\<lambda>_.
     eff_bind (eff_check (up_headSha initial = ri_expectedHeadSha i) stale_head) (\<lambda>_.
     eff_bind (read_files E token i (up_changed_files initial)) (\<lambda>(fs, hit).
     eff_bind (resolve_all_kinds E token initial fs) (\<lambda>kinds.
     eff_bind (eff_check (length fs \<le> length kinds) bad_response) (\<lambda>_.
     eff_bind (read_pull_request E token i) (\<lambda>final.
     eff_bind (eff_lift (assert_repository_binding i final)) (\<lambda>_.
     eff_bind (eff_check (up_headSha final = ri_expectedHeadSha i \<and> same_snapshot_metadata initial final) stale_head)
       (\<lambda>_.
     let snapshot = snapshot_of initial (zip fs kinds) hit in
     eff_bind (eff_check (snapshot_ok snapshot) bad_response) (\<lambda>_. eff_return snapshot))))))))))"

section \<open>The port\<close>

text \<open>A provider of installation tokens; one without \<open>getFresh\<close> has none.\<close>

record ('w, 'x) token_provider =
  pv_get :: "binding \<Rightarrow> ('w, 'x) github_scheme \<Rightarrow> (thrown + string) \<times> ('w, 'x) github_scheme"
  pv_getFresh :: "(binding \<Rightarrow> ('w, 'x) github_scheme \<Rightarrow> (thrown + string) \<times> ('w, 'x) github_scheme) option"
  pv_invalidate :: "binding \<Rightarrow> ('w, 'x) github_scheme \<Rightarrow> ('w, 'x) github_scheme"

definition provide_token ::
  "('w, 'x) token_provider \<Rightarrow> bool \<Rightarrow> binding \<Rightarrow> ('w, 'x) github_scheme \<Rightarrow> (thrown + string) \<times> ('w, 'x) github_scheme" where
  "provide_token V fresh b =
     eff_catch
       (if fresh then (case pv_getFresh V of
            None \<Rightarrow> eff_throw (Control (control Invalid_input)) | Some getFresh \<Rightarrow> getFresh b)
        else pv_get V b)
       (\<lambda>e. eff_throw (control_or_unavailable e))"

text \<open>\<open>n\<close> attempts are left; the first of the two may force a fresh token, and a token GitHub rejects there is
  dropped and replaced once.\<close>

fun with_repository_client ::
  "('w, 'x) token_provider \<Rightarrow> binding \<Rightarrow> (string \<Rightarrow> ('w, 'x) github_scheme \<Rightarrow> (thrown + 'a) \<times> ('w, 'x) github_scheme)
     \<Rightarrow> bool \<Rightarrow> nat \<Rightarrow> ('w, 'x) github_scheme \<Rightarrow> (thrown + 'a) \<times> ('w, 'x) github_scheme" where
  "with_repository_client V b operation fresh 0 = eff_throw (Control (control Unavailable))"
| "with_repository_client V b operation fresh (Suc n) =
     eff_bind (provide_token V (fresh \<and> n = 1) b) (\<lambda>token.
     eff_catch (operation token) (\<lambda>e s.
       if is_unauthorized e then
         (let t = pv_invalidate V b (s\<lparr>gh_trace := gh_trace s @ [Token_dropped b]\<rparr>) in
          if n = 1 then with_repository_client V b operation fresh n t else (Inl e, t))
       else (Inl (control_or_unavailable e), s)))"

definition load_with_authorization ::
  "'w pull_request_env \<Rightarrow> ('w, 'x) token_provider \<Rightarrow> bool \<Rightarrow> read_input \<Rightarrow> ('w, 'x) github_scheme
     \<Rightarrow> (thrown + snapshot) \<times> ('w, 'x) github_scheme" where
  "load_with_authorization E V fresh i =
     (if \<not> read_input_ok i then eff_throw (Control (control Invalid_input))
      else with_repository_client V (repository_binding i) (load_with_client E i) fresh 2)"

definition load :: "'w pull_request_env \<Rightarrow> ('w, 'x) token_provider \<Rightarrow> read_input \<Rightarrow> ('w, 'x) github_scheme
    \<Rightarrow> (thrown + snapshot) \<times> ('w, 'x) github_scheme" where
  "load E V = load_with_authorization E V False"

definition load_fresh :: "'w pull_request_env \<Rightarrow> ('w, 'x) token_provider \<Rightarrow> read_input \<Rightarrow> ('w, 'x) github_scheme
    \<Rightarrow> (thrown + snapshot) \<times> ('w, 'x) github_scheme" where
  "load_fresh E V = load_with_authorization E V True"

definition head_with_client ::
  "'w pull_request_env \<Rightarrow> head_input \<Rightarrow> string \<Rightarrow> ('w, 'x) github_scheme
     \<Rightarrow> (thrown + current_head) \<times> ('w, 'x) github_scheme" where
  "head_with_client E i token =
     eff_bind (read_pull_request E token i) (\<lambda>p.
     eff_bind (eff_lift (assert_repository_binding i p)) (\<lambda>_.
     let h = \<lparr>ch_headSha = up_headSha p, ch_baseSha = up_baseSha p, ch_state = up_state p\<rparr> in
     eff_bind (eff_check (current_head_ok h) bad_response) (\<lambda>_. eff_return h)))"

definition get_current_head_with_authorization ::
  "'w pull_request_env \<Rightarrow> ('w, 'x) token_provider \<Rightarrow> bool \<Rightarrow> head_input \<Rightarrow> ('w, 'x) github_scheme
     \<Rightarrow> (thrown + current_head) \<times> ('w, 'x) github_scheme" where
  "get_current_head_with_authorization E V fresh i =
     (if \<not> head_input_ok i then eff_throw (Control (control Invalid_input))
      else with_repository_client V (repository_binding i) (head_with_client E i) fresh 2)"

definition get_current_head :: "'w pull_request_env \<Rightarrow> ('w, 'x) token_provider \<Rightarrow> head_input
    \<Rightarrow> ('w, 'x) github_scheme \<Rightarrow> (thrown + current_head) \<times> ('w, 'x) github_scheme" where
  "get_current_head E V = get_current_head_with_authorization E V False"

definition get_current_head_fresh :: "'w pull_request_env \<Rightarrow> ('w, 'x) token_provider \<Rightarrow> head_input
    \<Rightarrow> ('w, 'x) github_scheme \<Rightarrow> (thrown + current_head) \<times> ('w, 'x) github_scheme" where
  "get_current_head_fresh E V = get_current_head_with_authorization E V True"

section \<open>The ports of production\<close>

definition token_cache_provider :: "'w token_env \<Rightarrow> ('w, _) token_provider" where
  "token_cache_provider T =
     \<lparr>pv_get = get_token T, pv_getFresh = Some (get_fresh_token T), pv_invalidate = invalidate_token\<rparr>"

definition production_ports :: "'w token_env \<Rightarrow> 'w pull_request_env \<Rightarrow> grammars \<Rightarrow> ('w, _) ports" where
  "production_ports T E g =
     \<lparr>po_outside = pe_outside E, po_options = pe_policy E, po_grammars = g,
      po_get_token = get_token T, po_invalidate = invalidate_token,
      po_current_head = get_current_head E (token_cache_provider T)\<rparr>"

section \<open>What the port sends, and what a head it returns rests on\<close>

text \<open>GitHub told this head of this pull request, of the repository the binding names.\<close>

definition told_head :: "head_input \<Rightarrow> current_head \<Rightarrow> event list \<Rightarrow> bool" where
  "told_head i h es \<longleftrightarrow> list_ex (\<lambda>e. case e of
       Sent token call (Resolved d) \<Rightarrow>
         call = Get_pull_request (rb_owner i) (rb_repositoryName i) (hi_pullNumber i)
         \<and> (case upstream_pull_request_schema d of
              Some p \<Rightarrow> up_number p = hi_pullNumber i \<and> assert_repository_binding i p = Inr ()
                \<and> h = \<lparr>ch_headSha = up_headSha p, ch_baseSha = up_baseSha p, ch_state = up_state p\<rparr>
            | None \<Rightarrow> False)
     | _ \<Rightarrow> False) es"

lemma told_head_append [simp]: "told_head i h (es @ fs) \<longleftrightarrow> told_head i h es \<or> told_head i h fs"
  by (simp add: told_head_def)

lemma read_pull_request_adds:
  "adds (\<lambda>r es. quiet es \<and> (\<forall>p. r = Inr p \<longrightarrow> up_number p = hi_pullNumber i
      \<and> (\<exists>d. Sent token (Get_pull_request (rb_owner i) (rb_repositoryName i) (hi_pullNumber i)) (Resolved d) \<in> set es
          \<and> upstream_pull_request_schema d = Some p)))
    (read_pull_request E token i)"
proof (rule addsI)
  fix s r t
  assume run: "read_pull_request E token i s = (r, t)"
  let ?call = "Get_pull_request (rb_owner i) (rb_repositoryName i) (hi_pullNumber i)"
  obtain q u where q: "github_request (pe_outside E) (pe_policy E) token ?call s = (q, u)"
    by fastforce
  then obtain es where es: "gh_trace u = gh_trace s @ es"
      "request_events (nat (min 3 (or_else (ro_maxAttempts (pe_policy E)) 3))) token ?call q es"
    using github_request_trace by blast
  then have "quiet es" "\<And>d. q = Inr d \<Longrightarrow> Sent token ?call (Resolved d) \<in> set es"
    by (auto simp: request_events_def intro: only_this_quiet) (metis last_in_set)
  then show "\<exists>es. gh_trace t = gh_trace s @ es \<and> quiet es \<and> (\<forall>p. r = Inr p \<longrightarrow> up_number p = hi_pullNumber i
      \<and> (\<exists>d. Sent token ?call (Resolved d) \<in> set es \<and> upstream_pull_request_schema d = Some p))"
    using run q es(1)
    by (auto simp: read_pull_request_def eff_bind_def split: sum.splits option.splits if_splits)
qed

lemma head_with_client_adds:
  "adds (\<lambda>r es. quiet es \<and> (\<forall>h. r = Inr h \<longrightarrow> told_head i h es)) (head_with_client E i token)"
proof (rule addsI)
  fix s r t
  assume run: "head_with_client E i token s = (r, t)"
  obtain q u where q: "read_pull_request E token i s = (q, u)"
    by fastforce
  from addsD [OF read_pull_request_adds q] obtain es where es: "gh_trace u = gh_trace s @ es" "quiet es"
      "\<And>p. q = Inr p \<Longrightarrow> up_number p = hi_pullNumber i
      \<and> (\<exists>d. Sent token (Get_pull_request (rb_owner i) (rb_repositoryName i) (hi_pullNumber i)) (Resolved d) \<in> set es
          \<and> upstream_pull_request_schema d = Some p)"
    by blast
  have "t = u"
    using run q by (auto simp: head_with_client_def eff_bind_def Let_def split: sum.splits if_splits)
  moreover have "told_head i h es" if r: "r = Inr h" for h
  proof -
    obtain p where p: "q = Inr p" "assert_repository_binding i p = Inr ()"
        "h = \<lparr>ch_headSha = up_headSha p, ch_baseSha = up_baseSha p, ch_state = up_state p\<rparr>"
      using run q r by (auto simp: head_with_client_def eff_bind_def Let_def split: sum.splits if_splits)
    then obtain d where "up_number p = hi_pullNumber i" "upstream_pull_request_schema d = Some p"
        "Sent token (Get_pull_request (rb_owner i) (rb_repositoryName i) (hi_pullNumber i)) (Resolved d) \<in> set es"
      using es(3) by blast
    with p show ?thesis
      unfolding told_head_def list_ex_iff by (intro bexI) auto
  qed
  ultimately show "\<exists>es. gh_trace t = gh_trace s @ es \<and> quiet es \<and> (\<forall>h. r = Inr h \<longrightarrow> told_head i h es)"
    using es by blast
qed

lemma provide_token_quiet:
  assumes "\<And>b. adds (\<lambda>r. quiet) (pv_get V b)" and "\<And>f b. pv_getFresh V = Some f \<Longrightarrow> adds (\<lambda>r. quiet) (f b)"
  shows "adds (\<lambda>r. quiet) (provide_token V fresh b)"
  unfolding provide_token_def
  by (rule adds_quiet_catch) (use assms in \<open>auto simp: adds_simple split: option.split\<close>)

text \<open>Retrying an operation with a new token keeps what a successful run of it establishes.\<close>

lemma with_repository_client_adds:
  assumes get: "\<And>b. adds (\<lambda>r. quiet) (pv_get V b)" "\<And>f b. pv_getFresh V = Some f \<Longrightarrow> adds (\<lambda>r. quiet) (f b)"
    and silent: "\<And>b s. gh_trace (pv_invalidate V b s) = gh_trace s"
    and run: "\<And>token. adds (\<lambda>r es. quiet es \<and> (\<forall>x. r = Inr x \<longrightarrow> good x es)) (operation token)"
    and mono: "\<And>x es fs. good x es \<Longrightarrow> good x (fs @ es)"
  shows "adds (\<lambda>r es. quiet es \<and> (\<forall>x. r = Inr x \<longrightarrow> good x es)) (with_repository_client V b operation fresh n)"
proof (induction n)
  case 0
  show ?case
    unfolding with_repository_client.simps by (rule adds_simple) simp
next
  case (Suc n)
  let ?Q = "\<lambda>r es. quiet es \<and> (\<forall>x. r = Inr x \<longrightarrow> good x es)"
  let ?h = "\<lambda>e s. if is_unauthorized e then
         (let t = pv_invalidate V b (s\<lparr>gh_trace := gh_trace s @ [Token_dropped b]\<rparr>) in
          if n = 1 then with_repository_client V b operation fresh n t else (Inl e, t))
       else (Inl (control_or_unavailable e), s)"
  have handler: "adds ?Q (?h e)" for e
  proof (rule addsI)
    fix s r t
    assume h: "?h e s = (r, t)"
    let ?t = "pv_invalidate V b (s\<lparr>gh_trace := gh_trace s @ [Token_dropped b]\<rparr>)"
    consider "t = s" "\<exists>e. r = Inl e" | "t = ?t" "\<exists>e. r = Inl e"
      | "with_repository_client V b operation fresh n ?t = (r, t)"
      using h by (auto simp: Let_def split: if_splits)
    then show "\<exists>es. gh_trace t = gh_trace s @ es \<and> ?Q r es"
    proof cases
      case 3
      from addsD [OF Suc.IH 3] obtain es where "gh_trace t = gh_trace ?t @ es" "?Q r es"
        by blast
      then show ?thesis
        using mono by (intro exI [of _ "Token_dropped b # es"]) (auto simp: silent intro: mono [where fs = "[Token_dropped b]", simplified])
    qed (auto simp: silent)
  qed
  have provided: "adds (\<lambda>r. quiet) (provide_token V (fresh \<and> n = 1) b)"
    by (rule provide_token_quiet) (use get in blast)+
  show ?case
    unfolding with_repository_client.simps
  proof (rule adds_bind [OF provided, where R = "\<lambda>_. ?Q"])
    show "adds ?Q (eff_catch (operation token) ?h)" for token
      by (rule adds_catch [OF run handler]) (auto intro: mono)
  qed (auto intro: mono)
qed

lemma current_head_adds:
  "adds (\<lambda>r es. quiet es \<and> (\<forall>h. r = Inr h \<longrightarrow> told_head i h es))
     (get_current_head_with_authorization E (token_cache_provider T) fresh i)"
  unfolding get_current_head_with_authorization_def
  by (auto simp: adds_simple token_cache_provider_def
      intro!: with_repository_client_adds get_token_quiet get_fresh_token_quiet head_with_client_adds)

interpretation production: quiet_ports "production_ports T E g" told_head
  by unfold_locales
    (simp_all add: production_ports_def get_token_quiet get_current_head_def current_head_adds)

end
