(* ===== verification/Check_Life.thy ===== *)
theory Check_Life
  imports Check_Run Pull_Request
begin

text \<open>
  What the check-run adapter writes. Inside \<open>quiet_ports\<close>: the events of each operation; then, over the
  ports of production, when it writes, how often, and what a returned check run shows.
\<close>

section \<open>What an intent writes\<close>

text \<open>The writes of one intent, in order: an update of a known check run, the creation of one, or an
  update and then the creation that supersedes it.\<close>

definition intent_writes :: "('x) check_intent_scheme \<Rightarrow> rest_call list \<Rightarrow> bool" where
  "intent_writes i ws \<longleftrightarrow> ws = [] \<or> ws = [check_create_request i]
     \<or> (\<exists>k. ws = [check_update_request i k] \<or> ws = [check_update_request i k, check_create_request i])"

text \<open>The reference was read from an answer to a write, and the answer shows the intent.\<close>

definition shows_intent :: "('x) check_intent_scheme \<Rightarrow> string \<Rightarrow> event list \<Rightarrow> bool" where
  "shows_intent i ref es \<longleftrightarrow> (\<exists>token call d known remote.
     Sent token call (Resolved d) \<in> set es \<and> is_write call
     \<and> parse_remote_check d i known = Inr remote \<and> remote_matches_intent remote i \<and> ref = rm_checkRunId remote)"

lemma shows_intent_append: "shows_intent i ref fs \<Longrightarrow> shows_intent i ref (es @ fs)"
  unfolding shows_intent_def set_append by blast

lemma shows_intentI:
  "Sent token call (Resolved d) \<in> set es \<Longrightarrow> is_write call \<Longrightarrow> parse_remote_check d i known = Inr remote
    \<Longrightarrow> remote_matches_intent remote i \<Longrightarrow> shows_intent i (rm_checkRunId remote) es"
  unfolding shows_intent_def by blast

lemma check_requests_write [simp]:
  "is_write (check_create_request i)" "is_write (check_update_request i k)"
  by (simp_all add: check_create_request_def check_update_request_def)

definition applied :: "('x) check_intent_scheme \<Rightarrow> 'e + string \<Rightarrow> event list \<Rightarrow> bool" where
  "applied i r es \<longleftrightarrow> intent_writes i (writes es) \<and> (\<forall>ref. r = Inr ref \<longrightarrow> shows_intent i ref es)"

lemma write_create_adds:
  "adds (\<lambda>r es. (writes es = [] \<or> writes es = [check_create_request i]) \<and> (\<forall>ref. r = Inr ref \<longrightarrow> shows_intent i ref es))
     (write_create P token i)"
  unfolding write_create_def
proof (rule adds_bind [OF execute_write_adds, where R = "\<lambda>d r es. es = [] \<and> (\<forall>ref. r = Inr ref \<longrightarrow>
    (\<exists>remote. parse_remote_check d i None = Inr remote \<and> remote_matches_intent remote i \<and> ref = rm_checkRunId remote))"])
  fix d
  show "adds (\<lambda>r es. es = [] \<and> (\<forall>ref. r = Inr ref \<longrightarrow>
      (\<exists>remote. parse_remote_check d i None = Inr remote \<and> remote_matches_intent remote i \<and> ref = rm_checkRunId remote)))
    (eff_bind (eff_lift (parse_remote_check d i None))
      (\<lambda>remote. eff_bind (eff_check (remote_matches_intent remote i) invalid_response)
        (\<lambda>_. eff_return (rm_checkRunId remote))))"
    by (rule adds_pure) (auto simp: eff_bind_def split: sum.splits)
qed (auto simp: written_once_def intro: shows_intentI [OF _ check_requests_write(1)])

lemma write_update_adds:
  "adds (\<lambda>r es. (writes es = [] \<and> (\<exists>e. r = Inl e) \<or> writes es = [check_update_request i k])
      \<and> (\<forall>remote. r = Inr remote \<longrightarrow> (\<exists>d. Sent token (check_update_request i k) (Resolved d) \<in> set es
          \<and> parse_remote_check d i (Some k) = Inr remote)))
     (write_update P token i k)"
  unfolding write_update_def
  by (rule adds_bind [OF execute_write_adds, where R = "\<lambda>d r es. es = [] \<and> r = parse_remote_check d i (Some k)"])
    (auto simp: written_once_def adds_simple)

lemma apply_intent_adds: "adds (applied i) (apply_intent P token i existing)"
proof (cases existing)
  case None
  then show ?thesis
    unfolding apply_intent_def
    by (auto simp: applied_def intent_writes_def intro: adds_mono [OF write_create_adds])
next
  case (Some k)
  let ?follow = "\<lambda>updated. if remote_matches_intent updated i then eff_return (rm_checkRunId updated)
      else if \<not> should_create_superseding_check updated i then eff_throw invalid_response
      else write_create P token i"
  let ?R = "\<lambda>updated r es. (writes es = [] \<or> writes es = [check_create_request i])
      \<and> (\<forall>ref. r = Inr ref \<longrightarrow> es = [] \<and> remote_matches_intent updated i \<and> ref = rm_checkRunId updated \<or> shows_intent i ref es)"
  have "adds (applied i) (eff_bind (write_update P token i k) ?follow)"
  proof (rule adds_bind [OF write_update_adds, where R = ?R])
    show "adds (?R updated) (?follow updated)" for updated
      by (auto simp: adds_simple intro: adds_mono [OF write_create_adds])
  next
    fix x es r fs
    assume u: "(writes es = [] \<and> (\<exists>e. Inr x = Inl e) \<or> writes es = [check_update_request i k])
        \<and> (\<forall>remote. Inr x = Inr remote \<longrightarrow> (\<exists>d. Sent token (check_update_request i k) (Resolved d) \<in> set es
          \<and> parse_remote_check d i (Some k) = Inr remote))"
      and f: "?R x r fs"
    have "shows_intent i ref (es @ fs)" if "r = Inr ref" for ref
    proof (cases "shows_intent i ref fs")
      case False
      then have "remote_matches_intent x i" "ref = rm_checkRunId x"
        using f that by auto
      moreover obtain d where "Sent token (check_update_request i k) (Resolved d) \<in> set es"
          "parse_remote_check d i (Some k) = Inr x"
        using u by auto
      ultimately show ?thesis
        using shows_intentI [of token "check_update_request i k" d "es @ fs" i "Some k" x] by simp
    qed (rule shows_intent_append)
    then show "applied i r (es @ fs)"
      using u f by (auto simp: applied_def intent_writes_def)
  qed (auto simp: applied_def intent_writes_def)
  then show ?thesis
    using Some by (simp add: apply_intent_def)
qed

section \<open>Reading before writing\<close>

lemma find_pages_quiet: "adds (\<lambda>r. quiet) (find_pages P token i page expected n matches)"
proof (rule addsI)
  fix s r t
  assume "find_pages P token i page expected n matches s = (r, t)"
  then show "\<exists>es. gh_trace t = gh_trace s @ es \<and> quiet es"
  proof (induction P token i page expected n matches s arbitrary: r t rule: find_pages.induct)
    case (1 P token i page expected n matches s)
    let ?call = "List_check_runs_for_ref (rb_owner i) (rb_repositoryName i) (ci_headSha i) github_check_name page 100"
    obtain q u where q: "github_request (po_outside P) (po_options P) token ?call s = (q, u)"
      by fastforce
    have "\<not> is_write ?call"
      by simp
    from addsD [OF github_request_quiet [OF this] q] obtain es where es: "gh_trace u = gh_trace s @ es" "quiet es"
      by blast
    show ?case
    proof (cases "\<exists>d announced n' found. q = Inr d \<and> read_page i expected n d = Inr (announced, n', found) \<and> int n' < announced")
      case True
      then obtain d announced n' found where
        next_page: "q = Inr d" "read_page i expected n d = Inr (announced, n', found)" "int n' < announced"
        by blast
      then have "find_pages P token i (page + 1) (Some announced) n' (matches @ found) u = (r, t)"
        using "1.prems" q by (subst (asm) find_pages.simps) simp
      from "1.IH" [OF q [symmetric] next_page(1) next_page(2) refl refl next_page(3) this]
      show ?thesis
        using es by auto
    next
      case False
      then have "t = u"
        using "1.prems" q by (subst (asm) find_pages.simps) (auto split: sum.splits prod.splits if_splits)
      then show ?thesis
        using es by auto
    qed
  qed
qed

lemma find_existing_quiet: "adds (\<lambda>r. quiet) (find_existing_with_client P token i)"
  unfolding find_existing_with_client_def by (intro adds_quiet_bind find_pages_quiet) (simp add: adds_simple)

lemma get_check_run_quiet: "adds (\<lambda>r. quiet) (github_request W opts token (Get_check_run owner repo k))"
  by (rule github_request_quiet) simp

text \<open>The events of an operation that reads first: no write before the head was confirmed.\<close>

definition after_head ::
  "(head_input \<Rightarrow> current_head \<Rightarrow> event list \<Rightarrow> bool) \<Rightarrow> ('x) check_intent_scheme \<Rightarrow> 'e + string \<Rightarrow> event list \<Rightarrow> bool" where
  "after_head seen i r es \<longleftrightarrow> (\<exists>before after. es = before @ after \<and> quiet before \<and> applied i r after
     \<and> (writes after \<noteq> [] \<longrightarrow> (\<exists>us vs. before = us @ vs \<and> seen (head_input_of i) (expected_head i) vs)))"

lemma after_head_quiet: "quiet es \<Longrightarrow> (\<exists>e. r = Inl e) \<Longrightarrow> after_head seen i r es"
  unfolding after_head_def by (intro exI [of _ es] exI [of _ "[]"]) (auto simp: applied_def intent_writes_def)

lemma after_head_prepend: "quiet es \<Longrightarrow> after_head seen i r fs \<Longrightarrow> after_head seen i r (es @ fs)"
  unfolding after_head_def
  by (elim exE conjE, rule_tac x = "es @ before" in exI, rule_tac x = after in exI)
    (auto, metis append_assoc)

lemma after_head_drop: "after_head seen i (Inl e) es \<Longrightarrow> after_head seen i (Inl e) (es @ [Token_dropped b])"
  unfolding after_head_def applied_def
  by (elim exE conjE, rule_tac x = before in exI, rule_tac x = "after @ [Token_dropped b]" in exI) auto

context quiet_ports
begin

lemma head_then_apply:
  "adds (after_head seen i) (eff_bind (assert_head P i (expected_head i)) (\<lambda>_. apply_intent P token i k))"
proof (rule adds_bind [OF assert_head_seen, where R = "\<lambda>_. applied i"])
  show "adds (applied i) (apply_intent P token i k)" for x :: unit
    by (rule apply_intent_adds)
next
  fix x :: unit and es r fs
  assume "quiet es \<and> (Inr x = Inr () \<longrightarrow> seen (head_input_of i) (expected_head i) es)" and "applied i r fs"
  then show "after_head seen i r (es @ fs)"
    unfolding after_head_def by (intro exI [of _ es] exI [of _ fs]) (auto intro: exI [of _ "[]"])
qed (auto intro: after_head_quiet)

lemma quiet_then_adds:
  assumes "adds (\<lambda>r. quiet) m" and "\<And>x. adds (after_head seen i) (f x)"
  shows "adds (after_head seen i) (eff_bind m f)"
  by (rule adds_bind [OF assms]) (auto intro: after_head_quiet after_head_prepend)

lemma checked_then_adds:
  "(\<And>x. adds (after_head seen i) (f x)) \<Longrightarrow> adds (after_head seen i) (eff_bind (eff_check b e) f)"
  by (rule quiet_then_adds) (simp add: adds_check)

lemma lifted_then_adds:
  "(\<And>x. adds (after_head seen i) (f x)) \<Longrightarrow> adds (after_head seen i) (eff_bind (eff_lift q) f)"
  by (rule quiet_then_adds) (simp add: adds_simple)

lemma create_check_adds: "adds (after_head seen i) (create_check P i)"
  unfolding create_check_def
  by (rule head_then_apply checked_then_adds quiet_then_adds create_client_quiet invalidating_adds find_existing_quiet
    | erule after_head_drop)+

lemma update_check_adds: "adds (after_head seen i) (update_check P i)"
  unfolding update_check_def
  by (rule head_then_apply checked_then_adds lifted_then_adds quiet_then_adds create_client_quiet invalidating_adds
      get_check_run_quiet
    | erule after_head_drop)+

end

text \<open>A stale check run is cancelled when GitHub told another head.\<close>

definition moved :: "('x) check_intent_scheme \<Rightarrow> current_head \<Rightarrow> bool" where
  "moved i h \<longleftrightarrow> ch_headSha h \<noteq> ci_headSha i \<or> ch_baseSha h \<noteq> ci_baseSha i"

definition after_move ::
  "(head_input \<Rightarrow> current_head \<Rightarrow> event list \<Rightarrow> bool) \<Rightarrow> check_update \<Rightarrow> 'e + string \<Rightarrow> event list \<Rightarrow> bool" where
  "after_move seen i r es \<longleftrightarrow> (\<exists>before after. es = before @ after \<and> quiet before
     \<and> (writes after = [] \<or> writes after = [check_update_request i (cu_checkRunId i)])
     \<and> (writes after \<noteq> [] \<longrightarrow> (\<exists>h us vs. before = us @ vs \<and> seen (head_input_of i) h vs \<and> moved i h)))"

lemma after_move_quiet: "quiet es \<Longrightarrow> after_move seen i r es"
  unfolding after_move_def by (intro exI [of _ es] exI [of _ "[]"]) auto

lemma after_move_prepend: "quiet es \<Longrightarrow> after_move seen i r fs \<Longrightarrow> after_move seen i r (es @ fs)"
  unfolding after_move_def
  by (elim exE conjE, rule_tac x = "es @ before" in exI, rule_tac x = after in exI)
    (auto, metis append_assoc)

lemma after_move_drop: "after_move seen i r es \<Longrightarrow> after_move seen i r (es @ [Token_dropped b])"
  unfolding after_move_def
  by (elim exE conjE, rule_tac x = before in exI, rule_tac x = "after @ [Token_dropped b]" in exI) auto

context quiet_ports
begin

lemma move_then_cancel:
  "adds (after_move seen i) (eff_bind (po_current_head P (head_input_of i)) (\<lambda>current.
     eff_bind (eff_check (\<not> (ch_headSha current = ci_headSha i \<and> ch_baseSha current = ci_baseSha i))
         (Control (control Stale_head))) (\<lambda>_.
     eff_bind (execute_write (po_outside P) (po_options P) token (check_update_request i (cu_checkRunId i))) (\<lambda>d.
     eff_bind (eff_lift (parse_remote_check d i (Some (cu_checkRunId i)))) (\<lambda>remote.
     eff_bind (eff_check (remote_matches_intent remote i) invalid_response) (\<lambda>_.
     eff_return (rm_checkRunId remote)))))))"
proof (rule adds_bind [OF current_head_seen])
  fix current
  let ?R = "\<lambda>r es. (writes es = [] \<or> writes es = [check_update_request i (cu_checkRunId i)])
      \<and> (writes es \<noteq> [] \<longrightarrow> moved i current)"
  let ?parse = "\<lambda>d. eff_bind (eff_lift (parse_remote_check d i (Some (cu_checkRunId i)))) (\<lambda>remote.
     eff_bind (eff_check (remote_matches_intent remote i) invalid_response) (\<lambda>_.
     eff_return (rm_checkRunId remote)))"
  have parse: "adds (\<lambda>r es. es = []) (?parse d)" for d
    by (rule adds_pure) (auto simp: eff_bind_def split: sum.splits)
  show "adds ?R (eff_bind (eff_check (\<not> (ch_headSha current = ci_headSha i \<and> ch_baseSha current = ci_baseSha i))
         (Control (control Stale_head))) (\<lambda>_.
     eff_bind (execute_write (po_outside P) (po_options P) token (check_update_request i (cu_checkRunId i))) ?parse))"
  proof (rule adds_bind [where Q = "\<lambda>r es. es = [] \<and> (r = Inr () \<longrightarrow> moved i current)"])
    show "adds (\<lambda>r es. es = [] \<and> (r = Inr () \<longrightarrow> moved i current))
        (eff_check (\<not> (ch_headSha current = ci_headSha i \<and> ch_baseSha current = ci_baseSha i))
          (Control (control Stale_head)))"
      by (rule adds_check) (auto simp: moved_def)
  next
    show "adds (\<lambda>r es. writes es = [] \<or> writes es = [check_update_request i (cu_checkRunId i)])
        (eff_bind (execute_write (po_outside P) (po_options P) token (check_update_request i (cu_checkRunId i))) ?parse)" for x :: unit
      by (rule adds_bind [OF execute_write_adds parse]) (auto simp: written_once_def)
  qed (auto simp: moved_def)
next
  fix current es and r :: "thrown + string" and fs
  assume e: "quiet es \<and> (\<forall>h. Inr current = Inr h \<longrightarrow> seen (head_input_of i) h es)"
    and f: "(writes fs = [] \<or> writes fs = [check_update_request i (cu_checkRunId i)])
      \<and> (writes fs \<noteq> [] \<longrightarrow> moved i current)"
  have "\<exists>h us vs. es = us @ vs \<and> seen (head_input_of i) h vs \<and> moved i h" if "writes fs \<noteq> []"
    using e f that by (intro exI [of _ current] exI [of _ "[]"] exI [of _ es]) auto
  then show "after_move seen i r (es @ fs)"
    unfolding after_move_def using e f by (intro exI [of _ es] exI [of _ fs]) auto
qed (auto intro: after_move_quiet)

lemma quiet_then_moves:
  "adds (\<lambda>r. quiet) m \<Longrightarrow> (\<And>x. adds (after_move seen i) (f x)) \<Longrightarrow> adds (after_move seen i) (eff_bind m f)"
  by (rule adds_bind [where Q = "\<lambda>r. quiet" and R = "\<lambda>_. after_move seen i"])
    (auto intro: after_move_quiet after_move_prepend)

lemma checked_then_moves:
  "(\<And>x. adds (after_move seen i) (f x)) \<Longrightarrow> adds (after_move seen i) (eff_bind (eff_check b e) f)"
  by (rule quiet_then_moves) (simp add: adds_check)

lemma lifted_then_moves:
  "(\<And>x. adds (after_move seen i) (f x)) \<Longrightarrow> adds (after_move seen i) (eff_bind (eff_lift q) f)"
  by (rule quiet_then_moves) (simp add: adds_simple)

lemma invalidate_stale_adds: "adds (after_move seen i) (invalidate_stale_check P i)"
  unfolding invalidate_stale_check_def
  by (rule move_then_cancel checked_then_moves lifted_then_moves quiet_then_moves create_client_quiet invalidating_adds
      get_check_run_quiet | erule after_move_drop)+

end

section \<open>The check of a moved pull request\<close>

text \<open>C30: Reporting a check writes nothing before GitHub, asked during the very call, has told exactly the head,
  the base and the state the report is about; and it writes at most an update of a known check run
  followed by the creation of one.\<close>

theorem check_writes_follow_the_head:
  "\<exists>before after. gh_trace (snd (create_check (production_ports T E g) i s)) = gh_trace s @ before @ after
     \<and> writes before = [] \<and> intent_writes i (writes after)
     \<and> (writes after = [] \<or> told_head (head_input_of i) (expected_head i) before)"
proof -
  obtain r t where run: "create_check (production_ports T E g) i s = (r, t)"
    by fastforce
  from addsD [OF production.create_check_adds run] obtain before after where
    "gh_trace t = gh_trace s @ before @ after" "quiet before" "applied i r after"
    "writes after \<noteq> [] \<longrightarrow> (\<exists>us vs. before = us @ vs \<and> told_head (head_input_of i) (expected_head i) vs)"
    unfolding after_head_def by metis
  then show ?thesis
    using run by (intro exI [of _ before] exI [of _ after]) (auto simp: quiet_def applied_def)
qed

text \<open>C31: Invalidating a stale check run writes at most once, and what it then writes is the named check run
  completed as cancelled, only when GitHub told another head or base during the call.\<close>

theorem stale_check_is_cancelled_after_a_move:
  "\<exists>before after. gh_trace (snd (invalidate_stale_check (production_ports T E g) i s)) = gh_trace s @ before @ after
     \<and> writes before = []
     \<and> (writes after = []
        \<or> (\<exists>q. writes after = [Update_check_run q (number_of_decimal (cu_checkRunId i))]
            \<and> q = check_run_request i \<and> cq_status q = ''completed'' \<and> cq_conclusion q = Some ''cancelled'')
          \<and> (\<exists>h. told_head (head_input_of i) h before \<and> moved i h))"
proof -
  obtain r t where run: "invalidate_stale_check (production_ports T E g) i s = (r, t)"
    by fastforce
  have cancelled: "ci_status i = ''completed'' \<and> ci_conclusion i = Some ''cancelled'' \<or> t = s"
    using run by (auto simp: invalidate_stale_check_def eff_bind_def split: if_splits)
  from addsD [OF production.invalidate_stale_adds run] obtain before after where
    "gh_trace t = gh_trace s @ before @ after" "quiet before"
    "writes after = [] \<or> writes after = [check_update_request i (cu_checkRunId i)]"
    "writes after \<noteq> [] \<longrightarrow> (\<exists>h us vs. before = us @ vs \<and> told_head (head_input_of i) h vs \<and> moved i h)"
    unfolding after_move_def by metis
  then show ?thesis
    using run cancelled
    by (intro exI [of _ before] exI [of _ after]) (auto simp: quiet_def check_update_request_def check_run_request_def)
qed

section \<open>What a reference stands for\<close>

lemma matching_gates:
  "remote_matches_intent remote i \<Longrightarrow>
     required_check_satisfies_merge_gate (rm_status remote) (rm_conclusion remote)
     = required_check_satisfies_merge_gate (ci_status i) (ci_conclusion i)"
  by (auto simp: remote_matches_intent_def required_check_satisfies_merge_gate_def split: if_splits)

text \<open>C32: A reference that reporting a check returns was read from GitHub's answer to a write of this call, and
  the check run in that answer lets the pull request be merged exactly if the report does.\<close>

theorem reported_check_gates_like_the_intent:
  assumes "create_check (production_ports T E g) i s = (Inr ref, t)"
  shows "\<exists>es token call d known remote. gh_trace t = gh_trace s @ es
    \<and> Sent token call (Resolved d) \<in> set es \<and> is_write call
    \<and> parse_remote_check d i known = Inr remote \<and> ref = rm_checkRunId remote
    \<and> required_check_satisfies_merge_gate (rm_status remote) (rm_conclusion remote)
      = required_check_satisfies_merge_gate (ci_status i) (ci_conclusion i)"
proof -
  from addsD [OF production.create_check_adds assms] obtain before after where
    es: "gh_trace t = gh_trace s @ before @ after" "applied i (Inr ref :: thrown + string) after"
    unfolding after_head_def by metis
  then have "shows_intent i ref after"
    by (simp add: applied_def)
  then obtain token call d known remote where
    "Sent token call (Resolved d) \<in> set after" "is_write call"
    "parse_remote_check d i known = Inr remote" "remote_matches_intent remote i" "ref = rm_checkRunId remote"
    unfolding shows_intent_def by blast
  then show ?thesis
    using es(1) matching_gates [of remote i]
    by (intro exI [of _ "before @ after"] exI [of _ token] exI [of _ call] exI [of _ d] exI [of _ known] exI [of _ remote]) simp
qed

section \<open>Lost answers\<close>

text \<open>C33: A write is sent at most once; it succeeds only with an answer GitHub gave to it, and its error is never
  a timeout or an unavailability, which a caller could take for a write that did not happen.\<close>

theorem lost_write_is_ambiguous:
  "\<exists>es. gh_trace (snd (execute_write W opts token call s)) = gh_trace s @ es \<and> sent_count es \<le> 1
     \<and> (case fst (execute_write W opts token call s) of
          Inr d \<Rightarrow> Sent token call (Resolved d) \<in> set es
        | Inl e \<Rightarrow> \<exists>c. e = Control c \<and> ce_code c \<noteq> Timeout \<and> ce_code c \<noteq> Unavailable)"
proof -
  let ?o = "opts\<lparr>ro_maxAttempts := Some 1\<rparr>"
  obtain q t where q: "github_request W ?o token call s = (q, t)"
    by fastforce
  then obtain es where "gh_trace t = gh_trace s @ es" "request_events 1 token call q es"
    using github_request_trace [OF q] by auto
  then show ?thesis
    using q
    by (intro exI [of _ es])
      (auto simp: execute_write_def eff_catch_def request_events_def control_def split: sum.splits thrown.splits,
        metis last_in_set)
qed

end
