(* ===== verification/Pr_Comment.thy ===== *)
theory Pr_Comment
  imports Pull_Request
begin

text \<open>
  The comment that leads a contributor to the proof, \<open>OctokitPullRequestCommentAdapter\<close> of
  \<open>packages/github/src/pull-request-comment.ts\<close>: one comment per pull request, owned by the App, found by its
  marker and updated when its text changes.
\<close>

section \<open>Answers\<close>

record issue_comment =
  ic_id :: int
  ic_body :: "string option"
  ic_appId :: "int option"

definition read_app :: "json \<Rightarrow> int option option" where
  "read_app j =
     (case prop_of ''performed_via_github_app'' j of
        None \<Rightarrow> None
      | Some JNull \<Rightarrow> Some None
      | Some a \<Rightarrow> map_option Some (guarded github_id_ok (read_int ''id'' a)))"

definition upstream_issue_comment_schema :: "json \<Rightarrow> issue_comment option" where
  "upstream_issue_comment_schema j =
     (case (guarded github_id_ok (read_int ''id'' j), read_nullable_string ''body'' j, read_app j) of
        (Some i, Some b, Some a) \<Rightarrow> Some \<lparr>ic_id = i, ic_body = b, ic_appId = a\<rparr>
      | _ \<Rightarrow> None)"

definition upstream_issue_comments_schema :: "json \<Rightarrow> issue_comment list option" where
  "upstream_issue_comments_schema j =
     (case j of JArr l \<Rightarrow> if length l \<le> 100 then parse_all upstream_issue_comment_schema l else None | _ \<Rightarrow> None)"

definition comment_app_id_ok :: "string \<Rightarrow> bool" where
  "comment_app_id_ok s \<longleftrightarrow> decimal_id_ok s"

definition max_scanned_comments :: nat where
  "max_scanned_comments = 1000"

definition comment_marker :: string where
  "comment_marker = ''<!-- slopproof:understanding-check -->''"

definition newline :: string where
  "newline = [CHR 0x0A]"

definition build_pull_request_comment_body :: "comment_input \<Rightarrow> string" where
  "build_pull_request_comment_body i =
     comment_marker @ newline
     @ ''## Proof of Understanding'' @ newline @ newline
     @ ''This pull request requires proof of understanding for its current revision.'' @ newline @ newline
     @ ''[Open the contributor flow]('' @ pc_detailsUrl i @ '')'' @ newline @ newline
     @ ''After GitHub authorization, the contributor can choose optional practice or start the required live proof. ''
     @ ''Maintainers can open the protected review from the same UnderstandProof page.'' @ newline @ newline
     @ ''Bound head: `'' @ pc_headSha i @ ''`''"

section \<open>Finding the comment\<close>

definition owned_comment :: "string \<Rightarrow> issue_comment \<Rightarrow> bool" where
  "owned_comment appId c \<longleftrightarrow> ic_appId c = Some (number_of_decimal appId)
     \<and> (case ic_body c of None \<Rightarrow> False | Some b \<Rightarrow> occurs_in comment_marker b)"

definition match_comment :: "string \<Rightarrow> issue_comment option \<Rightarrow> issue_comment \<Rightarrow> thrown + issue_comment option" where
  "match_comment appId found c =
     (if owned_comment appId c then (if found \<noteq> None then Inl bad_response else Inr (Some c)) else Inr found)"

function find_comment ::
  "('w, 'x) ports \<Rightarrow> string \<Rightarrow> string \<Rightarrow> comment_input \<Rightarrow> int \<Rightarrow> nat \<Rightarrow> issue_comment option \<Rightarrow> ('w, 'x) github_scheme
     \<Rightarrow> (thrown + issue_comment option) \<times> ('w, 'x) github_scheme" where
  "find_comment P appId token i page seen found s =
     (if seen < max_scanned_comments then
        (case github_request (po_outside P) (po_options P) token
            (List_issue_comments (rb_owner i) (rb_repositoryName i) (hi_pullNumber i) page 100) s of
           (Inl e, t) \<Rightarrow> (Inl e, t)
         | (Inr d, t) \<Rightarrow>
             (case upstream_issue_comments_schema d of
                None \<Rightarrow> (Inl bad_response, t)
              | Some cs \<Rightarrow>
                  (case fold_result (match_comment appId) found cs of
                     Inl e \<Rightarrow> (Inl e, t)
                   | Inr found' \<Rightarrow>
                       if length cs < 100 then (Inr found', t)
                       else find_comment P appId token i (page + 1) (seen + length cs) found' t)))
      else (Inl limit_exceeded, s))"
  by pat_completeness auto

termination
  by (relation "measure (\<lambda>(P, appId, token, i, page, seen, found, s). max_scanned_comments - seen)") auto

declare find_comment.simps [simp del]

section \<open>Writing it\<close>

definition parse_owned_comment :: "json \<Rightarrow> string \<Rightarrow> string \<Rightarrow> int option \<Rightarrow> thrown + unit" where
  "parse_owned_comment v appId expectedBody expectedCommentId =
     (case upstream_issue_comment_schema v of
        None \<Rightarrow> Inl bad_response
      | Some c \<Rightarrow>
          if ic_appId c \<noteq> Some (number_of_decimal appId) \<or> ic_body c \<noteq> Some expectedBody
             \<or> (expectedCommentId \<noteq> None \<and> Some (ic_id c) \<noteq> expectedCommentId)
          then Inl bad_response else Inr ())"

definition comment_head :: "comment_input \<Rightarrow> current_head" where
  "comment_head i =
     \<lparr>ch_headSha = pc_headSha i, ch_baseSha = pc_baseSha i, ch_state = pc_expectedPullRequestState i\<rparr>"

definition comment_write :: "comment_input \<Rightarrow> string \<Rightarrow> issue_comment option \<Rightarrow> rest_call" where
  "comment_write i body existing =
     (case existing of
        Some c \<Rightarrow> Update_issue_comment (rb_owner i) (rb_repositoryName i) (ic_id c) body
      | None \<Rightarrow> Create_issue_comment (rb_owner i) (rb_repositoryName i) (hi_pullNumber i) body)"

definition write_comment ::
  "('w, 'x) ports \<Rightarrow> string \<Rightarrow> string \<Rightarrow> comment_input \<Rightarrow> issue_comment option \<Rightarrow> ('w, 'x) github_scheme
     \<Rightarrow> (thrown + unit) \<times> ('w, 'x) github_scheme" where
  "write_comment P appId token i existing =
     (let body = build_pull_request_comment_body i in
      if Option.bind existing ic_body = Some body then eff_return ()
      else eff_bind (execute_write (po_outside P) (po_options P) token (comment_write i body existing))
        (\<lambda>d. eff_lift (parse_owned_comment d appId body (map_option ic_id existing))))"

text \<open>The constructor refuses other App ids.\<close>

definition upsert_comment ::
  "('w, 'x) ports \<Rightarrow> string \<Rightarrow> comment_input \<Rightarrow> ('w, 'x) github_scheme \<Rightarrow> (thrown + unit) \<times> ('w, 'x) github_scheme" where
  "upsert_comment P appId i =
     eff_bind (eff_check (comment_app_id_ok appId) (Control (control Invalid_input))) (\<lambda>_.
     eff_bind (eff_check (comment_input_ok (po_grammars P) i) (Control (control Invalid_input))) (\<lambda>_.
     eff_bind (create_client P i) (\<lambda>token.
     invalidating_rejected_token P i (
       eff_bind (find_comment P appId token i 1 0 None) (\<lambda>existing.
       eff_bind (assert_head P i (comment_head i)) (\<lambda>_.
       write_comment P appId token i existing))))))"

section \<open>What it finds\<close>

text \<open>The pages of comments from \<open>page\<close> to the first that is not full, with the comments GitHub listed there.\<close>

fun comments_listed ::
  "string \<Rightarrow> ('y) head_input_scheme \<Rightarrow> int \<Rightarrow> issue_comment list list \<Rightarrow> event list \<Rightarrow> bool" where
  "comments_listed token i page [] es \<longleftrightarrow> False"
| "comments_listed token i page (cs # css) es \<longleftrightarrow> (\<exists>d fs gs. es = fs @ gs
     \<and> reading token (List_issue_comments (rb_owner i) (rb_repositoryName i) (hi_pullNumber i) page 100) d fs
     \<and> upstream_issue_comments_schema d = Some cs
     \<and> (if length cs < 100 then css = [] \<and> gs = [] else comments_listed token i (page + 1) css gs))"

definition at_most_one :: "'a option \<Rightarrow> 'a list" where
  "at_most_one x = (case x of None \<Rightarrow> [] | Some y \<Rightarrow> [y])"

lemma at_most_one_simps [simp]: "at_most_one None = []" "at_most_one (Some y) = [y]"
  by (simp_all add: at_most_one_def)

text \<open>The events end with a listing of all comments of the pull request, and \<open>existing\<close> is the one among
  them that the App owns, if any.\<close>

definition comment_found :: "string \<Rightarrow> ('y) head_input_scheme \<Rightarrow> issue_comment option \<Rightarrow> event list \<Rightarrow> bool" where
  "comment_found appId i existing es \<longleftrightarrow> (\<exists>before listing token css. es = before @ listing
     \<and> comments_listed token i 1 css listing
     \<and> filter (owned_comment appId) (concat css) = at_most_one existing)"

lemma match_comments:
  "fold_result (match_comment appId) found cs = Inr found' \<Longrightarrow>
     at_most_one found' = at_most_one found @ filter (owned_comment appId) cs"
proof (induction cs arbitrary: found)
  case (Cons c cs)
  then obtain f where f: "match_comment appId found c = Inr f" "fold_result (match_comment appId) f cs = Inr found'"
    by (auto simp: result_simps)
  have "at_most_one f = at_most_one found @ filter (owned_comment appId) [c]"
    using f(1) by (auto simp: match_comment_def split: if_splits)
  then show ?case
    using Cons.IH [OF f(2)] by simp
qed simp

lemma find_comment_finds:
  "find_comment P appId token i page n found s = (Inr existing, t) \<Longrightarrow>
     \<exists>es css. gh_trace t = gh_trace s @ es \<and> comments_listed token i page css es
       \<and> at_most_one existing = at_most_one found @ filter (owned_comment appId) (concat css)"
proof (induction P appId token i page n found s arbitrary: t rule: find_comment.induct)
  case (1 P appId token i page n found s)
  let ?call = "List_issue_comments (rb_owner i) (rb_repositoryName i) (hi_pullNumber i) page 100"
  obtain d u cs found' where n: "n < max_scanned_comments"
      and q: "github_request (po_outside P) (po_options P) token ?call s = (Inr d, u)"
      and cs: "upstream_issue_comments_schema d = Some cs"
      and found': "fold_result (match_comment appId) found cs = Inr found'"
      and rest: "if length cs < 100 then existing = found' \<and> t = u
        else find_comment P appId token i (page + 1) (n + length cs) found' u = (Inr existing, t)"
    using "1.prems"
    by (subst (asm) find_comment.simps) (auto split: if_splits prod.splits sum.splits option.splits)
  obtain es where es: "gh_trace u = gh_trace s @ es" "reading token ?call d es"
    using request_reading [OF q] by blast
  note owned = match_comments [OF found']
  show ?case
  proof (cases "length cs < 100")
    case True
    then show ?thesis
      using rest es cs owned by (intro exI [of _ es] exI [of _ "[cs]"]) auto
  next
    case False
    from "1.IH" [OF n q [symmetric] refl cs found' False] rest False obtain fs css where
      fs: "gh_trace t = gh_trace u @ fs" "comments_listed token i (page + 1) css fs"
        "at_most_one existing = at_most_one found' @ filter (owned_comment appId) (concat css)"
      by auto
    then have "comments_listed token i page (cs # css) (es @ fs)"
      using es(2) cs False by auto
    then show ?thesis
      using es(1) fs(1,3) owned by (intro exI [of _ "es @ fs"] exI [of _ "cs # css"]) simp
  qed
qed

section \<open>What it writes\<close>

definition comment_writes :: "comment_input \<Rightarrow> issue_comment option \<Rightarrow> rest_call list \<Rightarrow> bool" where
  "comment_writes i existing ws \<longleftrightarrow> ws = [] \<or>
     ws = [comment_write i (build_pull_request_comment_body i) existing]
     \<and> Option.bind existing ic_body \<noteq> Some (build_pull_request_comment_body i)"

lemma comment_write_writes [simp]: "is_write (comment_write i body existing)"
  by (simp add: comment_write_def split: option.split)

lemma write_comment_adds:
  "adds (\<lambda>r es. comment_writes i existing (writes es)) (write_comment P appId token i existing)"
proof (cases "Option.bind existing ic_body = Some (build_pull_request_comment_body i)")
  case True
  show ?thesis
    unfolding write_comment_def Let_def if_P [OF True] by (rule adds_simple) (simp add: comment_writes_def)
next
  case False
  show ?thesis
    unfolding write_comment_def Let_def if_not_P [OF False]
    by (rule adds_bind [OF execute_write_adds [OF comment_write_writes], where R = "\<lambda>_ r es. es = []"])
      (use False in \<open>auto simp: written_once_def comment_writes_def adds_simple\<close>)
qed

lemma find_comment_quiet: "adds (\<lambda>r. quiet) (find_comment P appId token i page n found)"
proof (rule addsI)
  fix s r t
  assume "find_comment P appId token i page n found s = (r, t)"
  then show "\<exists>es. gh_trace t = gh_trace s @ es \<and> quiet es"
  proof (induction P appId token i page n found s arbitrary: r t rule: find_comment.induct)
    case (1 P appId token i page n found s)
    let ?call = "List_issue_comments (rb_owner i) (rb_repositoryName i) (hi_pullNumber i) page 100"
    obtain q u where q: "github_request (po_outside P) (po_options P) token ?call s = (q, u)"
      by fastforce
    have "\<not> is_write ?call"
      by simp
    from addsD [OF github_request_quiet [OF this] q] obtain es where es: "gh_trace u = gh_trace s @ es" "quiet es"
      by blast
    show ?case
    proof (cases "n < max_scanned_comments \<and> (\<exists>d cs found'. q = Inr d \<and> upstream_issue_comments_schema d = Some cs
        \<and> fold_result (match_comment appId) found cs = Inr found' \<and> \<not> length cs < 100)")
      case True
      then obtain d cs found' where next_page: "n < max_scanned_comments" "q = Inr d"
          "upstream_issue_comments_schema d = Some cs"
          "fold_result (match_comment appId) found cs = Inr found'" "\<not> length cs < 100"
        by blast
      then have "find_comment P appId token i (page + 1) (n + length cs) found' u = (r, t)"
        using "1.prems" q by (subst (asm) find_comment.simps) simp
      from "1.IH" [OF next_page(1) q [symmetric] next_page(2,3,4,5) this]
      show ?thesis
        using es by auto
    next
      case False
      then have "t = u \<or> t = s"
        using "1.prems" q
        by (subst (asm) find_comment.simps) (auto split: sum.splits prod.splits option.splits if_splits)
      then show ?thesis
        using es by auto
    qed
  qed
qed

lemma find_comment_adds:
  "adds (\<lambda>r es. quiet es \<and> (\<forall>existing. r = Inr existing \<longrightarrow> comment_found appId i existing es))
     (find_comment P appId token i 1 0 None)"
proof (rule addsI)
  fix s r t
  assume run: "find_comment P appId token i 1 0 None s = (r, t)"
  from addsD [OF find_comment_quiet run] obtain es where es: "gh_trace t = gh_trace s @ es" "quiet es"
    by blast
  have "comment_found appId i existing es" if "r = Inr existing" for existing
    using find_comment_finds [OF run [unfolded that]] es(1) unfolding comment_found_def
    by (metis append_Nil append_same_eq at_most_one_simps(1) same_append_eq)
  then show "\<exists>es. gh_trace t = gh_trace s @ es \<and> quiet es
      \<and> (\<forall>existing. r = Inr existing \<longrightarrow> comment_found appId i existing es)"
    using es by blast
qed

text \<open>No write but of the comment found, and none before the head was confirmed.\<close>

definition head_then_write ::
  "(head_input \<Rightarrow> current_head \<Rightarrow> event list \<Rightarrow> bool) \<Rightarrow> comment_input \<Rightarrow> issue_comment option \<Rightarrow> event list \<Rightarrow> bool" where
  "head_then_write seen i existing es \<longleftrightarrow> (\<exists>before after. es = before @ after \<and> quiet before
     \<and> comment_writes i existing (writes after)
     \<and> (writes after = [] \<or> seen (head_input_of i) (comment_head i) before))"

definition comment_after_head ::
  "(head_input \<Rightarrow> current_head \<Rightarrow> event list \<Rightarrow> bool) \<Rightarrow> string \<Rightarrow> comment_input \<Rightarrow> event list \<Rightarrow> bool" where
  "comment_after_head seen appId i es \<longleftrightarrow> quiet es \<or> (\<exists>finding rest existing. es = finding @ rest \<and> quiet finding
     \<and> comment_found appId i existing finding \<and> head_then_write seen i existing rest)"

lemma comment_after_head_quiet: "quiet es \<Longrightarrow> comment_after_head seen appId i es"
  by (simp add: comment_after_head_def)

lemma comment_found_prepend: "comment_found appId i existing es \<Longrightarrow> comment_found appId i existing (fs @ es)"
  unfolding comment_found_def by (elim exE conjE) (simp, metis append_assoc)

lemma comment_after_head_prepend:
  "quiet es \<Longrightarrow> comment_after_head seen appId i fs \<Longrightarrow> comment_after_head seen appId i (es @ fs)"
  unfolding comment_after_head_def
  by (elim disjE exE conjE) (simp, metis append_assoc comment_found_prepend quiet_simps(2))

lemma head_then_write_drop: "head_then_write seen i existing es \<Longrightarrow> head_then_write seen i existing (es @ [Token_dropped b])"
  unfolding head_then_write_def
  by (elim exE conjE, rule_tac x = before in exI, rule_tac x = "after @ [Token_dropped b]" in exI) auto

lemma comment_after_head_drop:
  "comment_after_head seen appId i es \<Longrightarrow> comment_after_head seen appId i (es @ [Token_dropped b])"
  unfolding comment_after_head_def
  by (elim disjE exE conjE) (simp, metis append_assoc head_then_write_drop)

context quiet_ports
begin

lemma head_then_comment:
  "adds (\<lambda>r. head_then_write seen i existing)
     (eff_bind (assert_head P i (comment_head i)) (\<lambda>_. write_comment P appId token i existing))"
proof (rule adds_bind [OF assert_head_seen write_comment_adds])
  fix e es
  assume "quiet es \<and> (Inl e = Inr () \<longrightarrow> seen (head_input_of i) (comment_head i) es)"
  then show "head_then_write seen i existing es"
    unfolding head_then_write_def by (intro exI [of _ es] exI [of _ "[]"]) (simp add: comment_writes_def)
next
  fix x :: unit and es r fs
  assume "quiet es \<and> (Inr x = Inr () \<longrightarrow> seen (head_input_of i) (comment_head i) es)"
    and "comment_writes i existing (writes fs)"
  then show "head_then_write seen i existing (es @ fs)"
    unfolding head_then_write_def by (intro exI [of _ es] exI [of _ fs]) auto
qed

lemma found_then_comment:
  "adds (\<lambda>r. comment_after_head seen appId i)
     (eff_bind (find_comment P appId token i 1 0 None) (\<lambda>existing.
       eff_bind (assert_head P i (comment_head i)) (\<lambda>_. write_comment P appId token i existing)))"
  by (rule adds_bind [OF find_comment_adds head_then_comment]) (auto simp: comment_after_head_def)

lemma quiet_then_comments:
  "adds (\<lambda>r. quiet) m \<Longrightarrow> (\<And>x. adds (\<lambda>r. comment_after_head seen appId i) (f x))
    \<Longrightarrow> adds (\<lambda>r. comment_after_head seen appId i) (eff_bind m f)"
  by (rule adds_bind [where Q = "\<lambda>r. quiet" and R = "\<lambda>_ r. comment_after_head seen appId i"])
    (auto intro: comment_after_head_quiet comment_after_head_prepend)

lemma checked_then_comments:
  "(\<And>x. adds (\<lambda>r. comment_after_head seen appId i) (f x))
    \<Longrightarrow> adds (\<lambda>r. comment_after_head seen appId i) (eff_bind (eff_check b e) f)"
  by (rule quiet_then_comments) (simp add: adds_check)

lemma upsert_comment_adds: "adds (\<lambda>r. comment_after_head seen appId i) (upsert_comment P appId i)"
  unfolding upsert_comment_def
  by (rule found_then_comment checked_then_comments quiet_then_comments create_client_quiet invalidating_adds
    | erule comment_after_head_drop)+

end

text \<open>C34: Keeping the comment current writes at most once: after the call has listed all comments of the pull
  request, it updates the one the App owns among them, or creates one when there is none; it writes nothing
  when the text is already there, and only writes after GitHub, asked since that listing, has told
  exactly the head the comment names.\<close>

theorem comment_is_written_once_for_the_head:
  "\<exists>es. gh_trace (snd (upsert_comment (production_ports T E g) appId i s)) = gh_trace s @ es
     \<and> (writes es = [] \<or> (\<exists>finding confirming writing existing. es = finding @ confirming @ writing
          \<and> comment_found appId i existing finding \<and> told_head (head_input_of i) (comment_head i) confirming
          \<and> writes finding = [] \<and> writes confirming = []
          \<and> writes writing = [comment_write i (build_pull_request_comment_body i) existing]
          \<and> Option.bind existing ic_body \<noteq> Some (build_pull_request_comment_body i)))"
proof -
  obtain r t where run: "upsert_comment (production_ports T E g) appId i s = (r, t)"
    by fastforce
  from addsD [OF production.upsert_comment_adds run] obtain es where
    es: "gh_trace t = gh_trace s @ es" "comment_after_head told_head appId i es"
    by blast
  show ?thesis
  proof (cases "writes es = []")
    case True
    then show ?thesis
      using run es(1) by auto
  next
    case False
    then obtain finding confirming writing existing where
      "es = finding @ confirming @ writing" "quiet finding" "comment_found appId i existing finding" "quiet confirming"
      "comment_writes i existing (writes writing)"
      "writes writing = [] \<or> told_head (head_input_of i) (comment_head i) confirming"
      using es(2) unfolding comment_after_head_def head_then_write_def quiet_def by blast
    then show ?thesis
      using run es(1) False by (auto simp: quiet_def comment_writes_def)
  qed
qed

end
