(* ===== verification/Snapshot_Life.thy ===== *)
theory Snapshot_Life
  imports Pull_Request
begin

text \<open>
  What a snapshot of a pull request rests on: two readings of the pull request with equal metadata, and
  between them the pages of its files and then the requests for their kinds, with nothing else sent in
  between; at most 300 files, with distinct names and patches within their budget, each one that GitHub
  listed.
\<close>

section \<open>Files\<close>
















section \<open>Kinds\<close>


























section \<open>The snapshot\<close>






lemma check_InrD: "eff_check b e s = (Inr x, t) \<Longrightarrow> b \<and> t = s"
  by (simp split: if_splits)





end
