(* ===== verification/Tree_Life.thy ===== *)
theory Tree_Life
  imports Git_Tree
begin

text \<open>
  The resolver against a reference. A \<open>store\<close> is what Git has: the tree of a commit and the entries of a
  tree, by their hashes. When GitHub answers from a store, the kinds the resolver returns, with its
  caches, retries and budgets, are those of a plain descent in the store.
\<close>

section \<open>The reference\<close>

record store =
  so_commits :: "string \<Rightarrow> string option"
  so_trees :: "string \<Rightarrow> tree_entry list option"

definition ok_option :: "'e + 'a \<Rightarrow> 'a option" where
  "ok_option r = (case r of Inl _ \<Rightarrow> None | Inr x \<Rightarrow> Some x)"

lemma ok_option_simps [simp]: "ok_option (Inl e) = None" "ok_option (Inr x) = Some x"
  by (simp_all add: ok_option_def)

fun kind_below :: "store \<Rightarrow> string list \<Rightarrow> string \<Rightarrow> git_kind option" where
  "kind_below st [] sha = None"
| "kind_below st (segment # rest) sha =
     Option.bind (so_trees st sha) (\<lambda>es. Option.bind (ok_option (only_entry segment es)) (\<lambda>e.
       if rest = [] then ok_option (leaf_kind e)
       else if is_directory e then kind_below st rest (en_sha e) else None))"

definition kind_at :: "store \<Rightarrow> string \<Rightarrow> string \<Rightarrow> git_kind option" where
  "kind_at st commit path = Option.bind (so_commits st commit) (kind_below st (split_on (CHR ''/'') path))"

definition side_kind :: "store \<Rightarrow> string \<Rightarrow> string option \<Rightarrow> git_kind option option" where
  "side_kind st commit path = (case path of None \<Rightarrow> Some None | Some p \<Rightarrow> map_option Some (kind_at st commit p))"

definition file_kind :: "store \<Rightarrow> string \<Rightarrow> string \<Rightarrow> changed_file \<Rightarrow> git_kind option" where
  "file_kind st headCommit baseCommit f =
     Option.bind (ok_option (required_paths (cf_status f) (cf_filename f) (cf_previousFilename f))) (\<lambda>(headPath, basePath).
     Option.bind (side_kind st headCommit headPath) (\<lambda>headKind.
     Option.bind (side_kind st baseCommit basePath) (\<lambda>baseKind. ok_option (combine_kinds headKind baseKind))))"

text \<open>GitHub answers a request for a commit or a tree from the store.\<close>

definition truthful_answer :: "store \<Rightarrow> rest_call \<Rightarrow> json \<Rightarrow> bool" where
  "truthful_answer st call d =
     (case call of
        Get_git_commit _ _ commit \<Rightarrow> (case git_commit_response_schema d of
            Some (c, t) \<Rightarrow> so_commits st c = Some t | None \<Rightarrow> True)
      | Get_git_tree _ _ sha \<Rightarrow> (case git_tree_response_schema d of
            Some t \<Rightarrow> tr_truncated t \<or> so_trees st (tr_sha t) = Some (tr_tree t) | None \<Rightarrow> True)
      | _ \<Rightarrow> True)"

definition truthful :: "'w outside \<Rightarrow> store \<Rightarrow> bool" where
  "truthful W st \<longleftrightarrow> (\<forall>token call limit w d w'.
     ow_send W token (fst (octokit_request call)) (snd (octokit_request call)) limit w = (Resolved d, w')
       \<longrightarrow> truthful_answer st call d)"

section \<open>Requests\<close>

text \<open>The data of a resolved request is the data of an attempt, and whatever the policy and the attempts keep is
  kept.\<close>

lemma attempts_resolved:
  assumes "attempts lib p request l a allowed n earlier x = (Inr d, y)"
  shows "\<exists>l x y. request l x = (Resolved d, y)"
  using assms
proof (induction n arbitrary: earlier x)
  case (Suc n)
  obtain now x1 where now: "rp_now p x = (now, x1)"
    by (cases "rp_now p x")
  obtain q x2 where one: "one_attempt lib p request (max 1 (min l (a - now))) x1 = (q, x2)"
    by (cases "one_attempt lib p request (max 1 (min l (a - now))) x1")
  show ?case
  proof (cases q)
    case (Inl r)
    then have "q = Inl (Inr d)"
      using Suc.prems now one by (auto simp: Let_def split: if_splits)
    then show ?thesis
      using one by (auto simp: one_attempt_def split: prod.splits attempt_end.splits thrown.splits)
  next
    case (Inr f)
    then show ?thesis
      using Suc now one by (auto simp: Let_def split: prod.splits option.splits if_splits)
  qed
qed simp

locale kept_by_requests =
  fixes p :: "'s request_policy"
    and request :: "int \<Rightarrow> 's \<Rightarrow> attempt_end \<times> 's"
    and view :: "'s \<Rightarrow> 'v"
  assumes keeps: "view (snd (rp_now p s)) = view s" "view (snd (rp_random p s)) = view s"
      "view (rp_sleep p d s) = view s" "view (snd (request l s)) = view s"
begin

lemma kept: "rp_now p s = (x, t) \<Longrightarrow> view t = view s" "rp_random p s = (y, t) \<Longrightarrow> view t = view s"
  "request l s = (r, t) \<Longrightarrow> view t = view s"
  using keeps by (metis snd_conv)+

lemma attempts_keep: "attempts lib p request l a allowed n earlier s = (r, t) \<Longrightarrow> view t = view s"
proof (induction n arbitrary: earlier s)
  case (Suc n)
  obtain now s1 where now: "rp_now p s = (now, s1)"
    by (cases "rp_now p s")
  obtain q s2 where one: "one_attempt lib p request (max 1 (min l (a - now))) s1 = (q, s2)"
    by (cases "one_attempt lib p request (max 1 (min l (a - now))) s1")
  then have 2: "view s1 = view s" "view s2 = view s"
    using kept(1) [OF now]
    by (auto simp: one_attempt_def dest!: kept split: prod.splits attempt_end.splits thrown.splits)
  obtain d s3 where delay: "retry_delay p a (allowed - n) (projr q) s2 = (d, s3)"
    by (cases "retry_delay p a (allowed - n) (projr q) s2")
  then have 3: "view s3 = view s"
    using 2 by (auto simp: retry_delay_def Let_def dest!: kept split: prod.splits)
  show ?case
    using Suc.prems now one 2 delay 3 Suc.IH [of "Some (projr q)" "rp_sleep p (the d) s3"] keeps(3)
    by (cases q; cases d) (auto simp: Let_def split: if_splits)
qed simp

end

text \<open>What a request of the resolver leaves alone: everything but the count of calls.\<close>

definition caches :: "('w, 'x) resolving \<Rightarrow> tree_limits \<times> (string \<Rightarrow> tree_entry list option) \<times> (string \<Rightarrow> string option)" where
  "caches x = (rs_limits (fst x), rs_treeCache (fst x), rs_rootTreeCache (fst x))"

interpretation resolver_caches: kept_by_requests "resolver_policy E n" "budgeted_send E call" caches
  by unfold_locales
    (auto simp: resolver_policy_def budgeted_send_def beside_def caches_def Let_def split: prod.splits if_splits)

lemma beside_clock_caches: "beside (read_clock W) x = (now, z) \<Longrightarrow> caches z = caches x"
  by (auto simp: beside_def caches_def split: prod.splits)

lemma resolver_request_caches: "resolver_request E call x = (r, y) \<Longrightarrow> caches y = caches x"
  by (elim resolver_request_runs)
    (auto dest!: beside_clock_caches resolver_caches.kept(1) resolver_caches.attempts_keep)

lemma budgeted_send_resolved:
  "budgeted_send E call l x = (Resolved d, y) \<Longrightarrow> \<exists>w w'. ow_send (re_outside E) (re_token E)
     (fst (octokit_request call)) (snd (octokit_request call)) l w = (Resolved d, w')"
  by (auto simp: budgeted_send_def beside_def send_def Let_def split: prod.splits if_splits)

lemma resolver_request_truthful:
  assumes "truthful (re_outside E) st" and "resolver_request E call x = (Inr d, y)"
  shows "truthful_answer st call d"
proof -
  have "\<exists>p l a n z. attempts (ow_lib (re_outside E)) p (budgeted_send E call) l a n n None z = (Inr d, y)"
    using assms(2) by (rule resolver_request_runs) (simp, blast)
  then obtain p l a n z where "attempts (ow_lib (re_outside E)) p (budgeted_send E call) l a n n None z = (Inr d, y)"
    by (elim exE)
  from attempts_resolved [OF this] have "\<exists>w l w'. ow_send (re_outside E) (re_token E)
      (fst (octokit_request call)) (snd (octokit_request call)) l w = (Resolved d, w')"
    using budgeted_send_resolved by (elim exE) blast
  then show ?thesis
    using assms(1) unfolding truthful_def by blast
qed

section \<open>The caches\<close>

definition hash_ok :: "string \<Rightarrow> bool" where
  "hash_ok s \<longleftrightarrow> length s = 40"

lemma sha_ok_hash: "sha_ok s \<Longrightarrow> hash_ok s"
  by (simp add: sha_ok_def hash_ok_def)

lemma object_key_inj: "object_key r sha = object_key r' sha' \<Longrightarrow> hash_ok sha \<Longrightarrow> hash_ok sha' \<Longrightarrow> sha = sha'"
proof -
  assume "object_key r sha = object_key r' sha'" "hash_ok sha" "hash_ok sha'"
  then have "(lowercase (rv_owner r) @ ''/'' @ lowercase (rv_repositoryName r) @ '':'') @ sha
      = (lowercase (rv_owner r') @ ''/'' @ lowercase (rv_repositoryName r') @ '':'') @ sha'" "length sha = length sha'"
    by (simp_all add: object_key_def hash_ok_def)
  then show ?thesis
    by (metis append_eq_append_conv)
qed

text \<open>Every cached entry is that of the store.\<close>

definition caches_ok :: "store \<Rightarrow> ('w, 'x) resolving \<Rightarrow> bool" where
  "caches_ok st x \<longleftrightarrow>
     (\<forall>r sha es. hash_ok sha \<longrightarrow> rs_treeCache (fst x) (object_key r sha) = Some es
        \<longrightarrow> so_trees st sha = Some es \<and> list_all (\<lambda>e. sha_ok (en_sha e)) es)
     \<and> (\<forall>r c t. hash_ok c \<longrightarrow> rs_rootTreeCache (fst x) (object_key r c) = Some t
        \<longrightarrow> so_commits st c = Some t \<and> sha_ok t)"

lemma caches_ok_cong: "caches y = caches x \<Longrightarrow> caches_ok st y = caches_ok st x"
  by (simp add: caches_ok_def caches_def)

lemma caches_put_root:
  assumes "caches_ok st x" "hash_ok c" "so_commits st c = Some t" "sha_ok t"
  shows "caches_ok st ((fst x)\<lparr>rs_rootTreeCache := (rs_rootTreeCache (fst x))(object_key rvn c := Some t)\<rparr>, snd x)"
proof -
  have "object_key r c' = object_key rvn c \<Longrightarrow> hash_ok c' \<Longrightarrow> c' = c" for r c'
    using object_key_inj assms(2) by blast
  then show ?thesis
    using assms by (auto simp: caches_ok_def)
qed

lemma caches_put_tree:
  assumes "caches_ok st x" "hash_ok c" "so_trees st c = Some es" "list_all (\<lambda>e. sha_ok (en_sha e)) es"
    and "rs_treeCache (fst y) = (rs_treeCache (fst x))(object_key rvn c := Some es)"
    and "rs_rootTreeCache (fst y) = rs_rootTreeCache (fst x)"
  shows "caches_ok st y"
proof -
  have "object_key r c' = object_key rvn c \<Longrightarrow> hash_ok c' \<Longrightarrow> c' = c" for r c'
    using object_key_inj assms(2) by blast
  then show ?thesis
    using assms by (auto simp: caches_ok_def)
qed

lemma parse_tree_entries: "parse_all git_tree_entry_schema js = Some es \<Longrightarrow> list_all (\<lambda>e. sha_ok (en_sha e)) es"
  by (auto simp: list_all_iff git_tree_entry_schema_def guarded_eq_Some dest!: parse_all_result split: option.splits)

lemma load_root_tree_sha_ok:
  assumes truth: "truthful (re_outside E) st" and ok: "caches_ok st x"
    and run: "load_root_tree_sha E rvn x = (r, y)"
  shows "caches_ok st y \<and> (\<forall>t. r = Inr t \<longrightarrow> so_commits st (rv_commitSha rvn) = Some t \<and> sha_ok t)"
proof (cases "validate_revision rvn \<and> rs_rootTreeCache (fst x) (revision_key rvn) = None")
  case False
  then have "y = x \<and> (r = Inl bad_response \<or> (\<exists>t. r = Inr t \<and> sha_ok (rv_commitSha rvn)
      \<and> rs_rootTreeCache (fst x) (object_key rvn (rv_commitSha rvn)) = Some t))"
    using run by (auto simp: load_root_tree_sha_def revision_key_def validate_revision_def split: if_splits option.splits)
  then show ?thesis
    using ok sha_ok_hash [of "rv_commitSha rvn"] unfolding caches_ok_def by blast
next
  case True
  then have c: "hash_ok (rv_commitSha rvn)"
    by (simp add: validate_revision_def sha_ok_hash)
  let ?call = "Get_git_commit (rv_owner rvn) (rv_repositoryName rvn) (rv_commitSha rvn)"
  obtain q z where q: "resolver_request E ?call x = (q, z)"
    by (cases "resolver_request E ?call x")
  have z: "caches_ok st z"
    using caches_ok_cong [OF resolver_request_caches [OF q]] ok by simp
  show ?thesis
  proof (cases q)
    case (Inl e)
    then show ?thesis
      using run True q z by (auto simp: load_root_tree_sha_def eff_bind_def)
  next
    case (Inr d)
    then have "truthful_answer st ?call d"
      using resolver_request_truthful [OF truth] q by blast
    moreover have "accept_commit rvn d z = (r, y)"
      using run True q Inr by (simp add: load_root_tree_sha_def eff_bind_def)
    moreover have "sha_ok t" if "git_commit_response_schema d = Some (k, t)" for k t
      using that by (auto simp: git_commit_response_schema_def guarded_eq_Some split: option.splits)
    ultimately show ?thesis
      using z c by (auto simp: accept_commit_def truthful_answer_def revision_key_def
          intro: caches_put_root split: option.splits if_splits)
  qed
qed

lemma load_tree_ok:
  assumes truth: "truthful (re_outside E) st" and ok: "caches_ok st x" and sha: "sha_ok sha"
    and run: "load_tree E rvn sha x = (r, y)"
  shows "caches_ok st y \<and> (\<forall>es. r = Inr es \<longrightarrow> so_trees st sha = Some es \<and> list_all (\<lambda>e. sha_ok (en_sha e)) es)"
proof (cases "rs_treeCache (fst x) (object_key rvn sha)")
  case (Some es)
  then show ?thesis
    using run ok sha_ok_hash [OF sha] by (auto simp: load_tree_def caches_ok_def)
next
  case None
  let ?call = "Get_git_tree (rv_owner rvn) (rv_repositoryName rvn) sha"
  obtain q z where q: "resolver_request E ?call x = (q, z)"
    by (cases "resolver_request E ?call x")
  have z: "caches_ok st z"
    using caches_ok_cong [OF resolver_request_caches [OF q]] ok by simp
  show ?thesis
  proof (cases q)
    case (Inl e)
    then show ?thesis
      using run None q z by (auto simp: load_tree_def eff_bind_def)
  next
    case (Inr d)
    then have a: "truthful_answer st ?call d"
      using resolver_request_truthful [OF truth] q by blast
    have acc: "accept_tree rvn sha d z = (r, y)"
      using run None q Inr by (simp add: load_tree_def eff_bind_def)
    show ?thesis
    proof (cases "\<exists>es. r = Inr es")
      case False
      then show ?thesis
        using acc z by (auto simp: accept_tree_def Let_def caches_ok_def split: option.splits if_splits)
    next
      case True
      then obtain t where t: "git_tree_response_schema d = Some t" "tr_sha t = sha" "\<not> tr_truncated t"
          "r = Inr (tr_tree t)"
          "rs_treeCache (fst y) = (rs_treeCache (fst z))(object_key rvn sha := Some (tr_tree t))"
          "rs_rootTreeCache (fst y) = rs_rootTreeCache (fst z)"
        using acc by (auto simp: accept_tree_def Let_def split: option.splits if_splits)
      then have "so_trees st sha = Some (tr_tree t)" "list_all (\<lambda>e. sha_ok (en_sha e)) (tr_tree t)"
        using a parse_tree_entries
        by (auto simp: truthful_answer_def git_tree_response_schema_def guarded_eq_Some bind_eq_Some_conv
            split: option.splits)
      then show ?thesis
        using t(4) caches_put_tree [OF z sha_ok_hash [OF sha] _ _ t(5,6)] by simp
    qed
  qed
qed

section \<open>The descent\<close>

text \<open>\<open>answers st m Q\<close>: from caches of the store \<open>m\<close> leads to caches of the store, and a value it returns
  satisfies \<open>Q\<close>.\<close>

definition answers :: "store \<Rightarrow> (('w, 'x) resolving \<Rightarrow> ('e + 'a) \<times> ('w, 'x) resolving) \<Rightarrow> ('a \<Rightarrow> bool) \<Rightarrow> bool" where
  "answers st m Q \<longleftrightarrow> (\<forall>x r y. caches_ok st x \<longrightarrow> m x = (r, y) \<longrightarrow> caches_ok st y \<and> (\<forall>v. r = Inr v \<longrightarrow> Q v))"

lemma answers_bind:
  assumes "answers st m Q" and "\<And>v. Q v \<Longrightarrow> answers st (f v) R"
  shows "answers st (eff_bind m f) R"
  unfolding answers_def
proof (intro allI impI)
  fix x r y
  assume x: "caches_ok st x" and run: "eff_bind m f x = (r, y)"
  obtain q z where q: "m x = (q, z)"
    by (cases "m x")
  have z: "caches_ok st z" "\<And>v. q = Inr v \<Longrightarrow> Q v"
    using assms(1) x q unfolding answers_def by blast+
  show "caches_ok st y \<and> (\<forall>v. r = Inr v \<longrightarrow> R v)"
  proof (cases q)
    case (Inl e)
    then show ?thesis
      using run q z by (auto simp: eff_bind_def)
  next
    case (Inr v)
    then have "f v z = (r, y)"
      using run q by (simp add: eff_bind_def)
    then show ?thesis
      using assms(2) [OF z(2) [OF Inr]] z(1) unfolding answers_def by blast
  qed
qed

lemma answers_lift: "answers st (eff_lift r) (\<lambda>v. r = Inr v)"
  and answers_throw: "answers st (eff_throw e) Q"
  and answers_return: "Q v \<Longrightarrow> answers st (eff_return v) Q"
  by (simp_all add: answers_def)

lemma answers_mono: "answers st m Q \<Longrightarrow> (\<And>v. Q v \<Longrightarrow> R v) \<Longrightarrow> answers st m R"
  unfolding answers_def by blast

lemma answers_load_tree:
  "truthful (re_outside E) st \<Longrightarrow> sha_ok sha
    \<Longrightarrow> answers st (load_tree E rvn sha) (\<lambda>es. so_trees st sha = Some es \<and> list_all (\<lambda>e. sha_ok (en_sha e)) es)"
  unfolding answers_def using load_tree_ok by blast

lemma answers_load_root:
  "truthful (re_outside E) st
    \<Longrightarrow> answers st (load_root_tree_sha E rvn) (\<lambda>t. so_commits st (rv_commitSha rvn) = Some t \<and> sha_ok t)"
  unfolding answers_def using load_root_tree_sha_ok by blast

lemma only_entry_mem: "only_entry segment es = Inr e \<Longrightarrow> e \<in> set es"
  by (auto simp: only_entry_def filter_eq_Cons_iff split: list.splits)

lemma answers_walk:
  assumes "truthful (re_outside E) st"
  shows "sha_ok sha \<Longrightarrow> answers st (walk_path E rvn segments sha) (\<lambda>k. kind_below st segments sha = Some k)"
proof (induction segments arbitrary: sha)
  case Nil
  show ?case
    unfolding walk_path.simps by (rule answers_throw)
next
  case (Cons segment rest)
  show ?case
    unfolding walk_path.simps
  proof (rule answers_bind [OF answers_load_tree [OF assms Cons.prems]], rule answers_bind [OF answers_lift], goal_cases)
    case (1 es e)
    then have "sha_ok (en_sha e)"
      using only_entry_mem by (auto simp: list_all_iff)
    from Cons.IH [OF this] show ?case
      using 1 by (auto intro: answers_throw answers_mono [OF answers_lift])
  qed
qed

lemma parse_git_path_segments: "parse_git_path path n = Inr segments \<Longrightarrow> segments = split_on (CHR ''/'') path"
  by (auto simp: parse_git_path_def Let_def split: if_splits)

lemma answers_resolve_path:
  assumes "truthful (re_outside E) st"
  shows "answers st (resolve_path E rvn path) (\<lambda>k. kind_at st (rv_commitSha rvn) path = Some k)"
proof -
  have "answers st (eff_bind (eff_lift (parse_git_path path n)) (\<lambda>segments.
      eff_bind (load_root_tree_sha E rvn) (walk_path E rvn segments))) (\<lambda>k. kind_at st (rv_commitSha rvn) path = Some k)" for n
  proof (rule answers_bind [OF answers_lift], rule answers_bind [OF answers_load_root [OF assms]])
    fix segments t
    assume "parse_git_path path n = Inr segments" "so_commits st (rv_commitSha rvn) = Some t \<and> sha_ok t"
    then show "answers st (walk_path E rvn segments t) (\<lambda>k. kind_at st (rv_commitSha rvn) path = Some k)"
      using answers_walk [OF assms, of t rvn segments] parse_git_path_segments
      by (auto simp: kind_at_def elim: answers_mono)
  qed
  then show ?thesis
    unfolding answers_def resolve_path_def by blast
qed

lemma answers_side:
  assumes "truthful (re_outside E) st"
  shows "answers st (resolve_side E (Some rvn) path) (\<lambda>k. side_kind st (rv_commitSha rvn) path = Some k)"
proof (cases path)
  case None
  then show ?thesis
    by (auto simp: resolve_side_def side_kind_def answers_def)
next
  case (Some p)
  have "answers st (eff_bind (resolve_path E rvn p) (\<lambda>k. eff_return (Some k)))
      (\<lambda>k. side_kind st (rv_commitSha rvn) (Some p) = Some k)"
    by (rule answers_bind [OF answers_resolve_path [OF assms] answers_return]) (simp add: side_kind_def)
  then show ?thesis
    using Some by (simp add: resolve_side_def)
qed

lemma answers_file:
  assumes "truthful (re_outside E) st"
  shows "answers st (resolve_file E (Some headRev) baseRev f)
    (\<lambda>k. file_kind st (rv_commitSha headRev) (rv_commitSha baseRev) f = Some k)"
  unfolding resolve_file_def
proof (rule answers_bind [OF answers_lift], clarify)
  fix headPath basePath
  assume paths: "required_paths (cf_status f) (cf_filename f) (cf_previousFilename f) = Inr (headPath, basePath)"
  show "answers st (eff_bind (resolve_side E (Some headRev) headPath) (\<lambda>headKind.
      eff_bind (resolve_side E (Some baseRev) basePath) (\<lambda>baseKind. eff_lift (combine_kinds headKind baseKind))))
    (\<lambda>k. file_kind st (rv_commitSha headRev) (rv_commitSha baseRev) f = Some k)"
    by (rule answers_bind [OF answers_side [OF assms]], rule answers_bind [OF answers_side [OF assms]],
        rule answers_mono [OF answers_lift])
      (simp add: file_kind_def paths)
qed

lemma answers_kinds:
  assumes "truthful (re_outside E) st"
  shows "answers st (resolve_kinds E (Some headRev) baseRev fs)
    (\<lambda>ks. map (file_kind st (rv_commitSha headRev) (rv_commitSha baseRev)) fs = map Some ks)"
proof (induction fs)
  case Nil
  show ?case
    unfolding resolve_kinds.simps by (rule answers_return) simp
next
  case (Cons f fs)
  show ?case
    unfolding resolve_kinds.simps
    by (rule answers_bind [OF answers_file [OF assms]], rule answers_bind [OF Cons.IH], rule answers_return) simp
qed

text \<open>C36: When GitHub answers from a store of Git objects, the kinds a new resolver returns are those a plain
  descent in the store finds at the exact head and base paths: its caches, keyed by repository and
  hash, its retries and its budgets never change an answer.\<close>

theorem resolver_agrees_with_the_store:
  assumes "truthful (re_outside E) st" and "new_resolver E limits s = (Inr r, t)"
    and "resolve_kinds E (Some headRev) baseRev fs (r, t) = (Inr ks, y)"
  shows "map (file_kind st (rv_commitSha headRev) (rv_commitSha baseRev)) fs = map Some ks"
proof -
  have "caches_ok st (r, t)"
    using assms(2) by (auto simp: new_resolver_def Let_def caches_ok_def split: prod.splits if_splits)
  then show ?thesis
    using answers_kinds [OF assms(1), of headRev baseRev fs] assms(3) unfolding answers_def by blast
qed

section \<open>The budget of requests\<close>

interpretation resolver_calls: counted_requests "resolver_policy E n" "budgeted_send E call" "\<lambda>x. nat (rs_apiCalls (fst x))"
  by unfold_locales (auto simp: resolver_policy_def budgeted_send_def beside_def Let_def split: prod.splits if_splits)

text \<open>One request of the resolver costs at most the attempts its policy allows.\<close>

lemma resolver_request_calls:
  fixes E :: "'w resolver_env" and x :: "('w, 'x) resolving"
  shows "nat (rs_apiCalls (fst (snd (resolver_request E call x))))
    \<le> nat (rs_apiCalls (fst x)) + nat (or_else (ro_maxAttempts (re_policy E)) 3)"
proof -
  obtain now y where now: "beside (read_clock (re_outside E)) x = (now, y)"
    by (cases "beside (read_clock (re_outside E)) x")
  then have y: "fst y = fst x"
    by (auto simp: beside_def split: prod.splits)
  show ?thesis
  proof (cases "rs_deadlineAt (fst y) - now < 1")
    case True
    then show ?thesis
      using now y by (simp add: resolver_request_def Let_def)
  next
    case False
    let ?n = "rs_deadlineAt (fst y) - now"
    obtain q z where q: "execute_github_request (ow_lib (re_outside E)) (resolver_policy E ?n) (budgeted_send E call) y = (q, z)"
      by (cases "execute_github_request (ow_lib (re_outside E)) (resolver_policy E ?n) (budgeted_send E call) y")
    have "rp_maxAttempts (resolver_policy E ?n :: ('w, 'x) resolving request_policy) = ro_maxAttempts (re_policy E)"
      by (simp add: resolver_policy_def)
    then have "nat (rs_apiCalls (fst z)) \<le> nat (rs_apiCalls (fst y)) + nat (or_else (ro_maxAttempts (re_policy E)) 3)"
      using resolver_calls.count_execute [of "ow_lib (re_outside E)" E ?n call y] q by simp
    moreover have "snd (resolver_request E call x) = z"
      using now False q by (cases q) (simp_all add: resolver_request_def Let_def)
    ultimately show ?thesis
      using y by simp
  qed
qed

text \<open>What was sent beyond the calls that were counted within the budget.\<close>

definition unbudgeted :: "('w, 'x) resolving \<Rightarrow> int" where
  "unbudgeted x = int (sent_count (gh_trace (snd x))) - min (rs_apiCalls (fst x)) (tl_maxApiCalls (rs_limits (fst x)))"

definition budgeted :: "(('w, 'x) resolving \<Rightarrow> 'a \<times> ('w, 'x) resolving) \<Rightarrow> bool" where
  "budgeted m \<longleftrightarrow> (\<forall>x r y. m x = (r, y) \<longrightarrow> unbudgeted y = unbudgeted x \<and> rs_limits (fst y) = rs_limits (fst x))"

lemma budgetedD: "budgeted m \<Longrightarrow> m x = (r, y) \<Longrightarrow> unbudgeted y = unbudgeted x \<and> rs_limits (fst y) = rs_limits (fst x)"
  unfolding budgeted_def by blast

lemma budgetedI:
  "(\<And>x r y. m x = (r, y) \<Longrightarrow> unbudgeted y = unbudgeted x \<and> rs_limits (fst y) = rs_limits (fst x)) \<Longrightarrow> budgeted m"
  unfolding budgeted_def by blast

lemma budgeted_bind: "budgeted m \<Longrightarrow> (\<And>a. budgeted (f a)) \<Longrightarrow> budgeted (eff_bind m f)"
  unfolding budgeted_def eff_bind_def by (simp split: prod.split sum.split)

lemma budgeted_simple [simp]: "budgeted (eff_return a)" "budgeted (eff_throw e)" "budgeted (eff_lift r)"
  by (auto simp: budgeted_def eff_return_def eff_throw_def eff_lift_def split: sum.splits)

interpretation resolver_budget: kept_by_requests "resolver_policy E n" "budgeted_send E call"
    "\<lambda>x. (unbudgeted x, rs_limits (fst x))"
  by unfold_locales
    (auto simp: resolver_policy_def budgeted_send_def beside_def unbudgeted_def Let_def
      dest!: read_clock_trace draw_random_trace send_trace split: prod.splits if_splits)

lemma resolver_request_budgeted: "budgeted (resolver_request E call)"
proof -
  have clock: "unbudgeted z = unbudgeted x \<and> rs_limits (fst z) = rs_limits (fst x)"
    if "beside (read_clock W) x = (now, z)" for W :: "'w outside" and now z and x :: "('w, 'x) resolving"
    using that by (auto simp: beside_def unbudgeted_def dest!: read_clock_trace split: prod.splits)
  show ?thesis
    unfolding budgeted_def
    by (auto elim!: resolver_request_runs dest!: clock resolver_budget.kept(1) resolver_budget.attempts_keep)
qed

lemma accept_budgeted: "budgeted (accept_commit rvn d)" "budgeted (accept_tree rvn sha d)"
  by (auto simp: budgeted_def accept_commit_def accept_tree_def unbudgeted_def Let_def split: option.splits if_splits)

lemma load_root_tree_sha_budgeted: "budgeted (load_root_tree_sha E rvn)"
proof (rule budgetedI)
  fix x r y
  assume run: "load_root_tree_sha E rvn x = (r, y)"
  have "budgeted (eff_bind (resolver_request E
      (Get_git_commit (rv_owner rvn) (rv_repositoryName rvn) (rv_commitSha rvn))) (accept_commit rvn))"
    by (intro budgeted_bind resolver_request_budgeted accept_budgeted)
  from budgetedD [OF this, of x r y] show "unbudgeted y = unbudgeted x \<and> rs_limits (fst y) = rs_limits (fst x)"
    using run by (auto simp: load_root_tree_sha_def split: if_splits option.splits)
qed

lemma load_tree_budgeted: "budgeted (load_tree E rvn sha)"
proof (rule budgetedI)
  fix x r y
  assume run: "load_tree E rvn sha x = (r, y)"
  have "budgeted (eff_bind (resolver_request E
      (Get_git_tree (rv_owner rvn) (rv_repositoryName rvn) sha)) (accept_tree rvn sha))"
    by (intro budgeted_bind resolver_request_budgeted accept_budgeted)
  from budgetedD [OF this, of x r y] show "unbudgeted y = unbudgeted x \<and> rs_limits (fst y) = rs_limits (fst x)"
    using run by (auto simp: load_tree_def split: if_splits option.splits)
qed

lemma walk_path_budgeted: "budgeted (walk_path E rvn segments sha)"
  by (induction segments arbitrary: sha) (auto intro!: budgeted_bind load_tree_budgeted)

lemma resolve_path_budgeted: "budgeted (resolve_path E rvn path)"
proof (rule budgetedI)
  fix x r y
  assume run: "resolve_path E rvn path x = (r, y)"
  have "budgeted (eff_bind (eff_lift (parse_git_path path n)) (\<lambda>segments.
      eff_bind (load_root_tree_sha E rvn) (walk_path E rvn segments)))" for n
    by (intro budgeted_bind budgeted_simple load_root_tree_sha_budgeted walk_path_budgeted)
  from budgetedD [OF this] show "unbudgeted y = unbudgeted x \<and> rs_limits (fst y) = rs_limits (fst x)"
    using run unfolding resolve_path_def by blast
qed

lemma resolve_file_budgeted: "budgeted (resolve_file E headRev baseRev f)"
  unfolding resolve_file_def resolve_side_def
  by (auto intro!: budgeted_bind resolve_path_budgeted split: option.splits prod.splits)

lemma resolve_kinds_budgeted: "budgeted (resolve_kinds E headRev baseRev fs)"
  by (induction fs; unfold resolve_kinds.simps)
    (intro budgeted_bind resolve_file_budgeted budgeted_simple; assumption?)+

text \<open>C37: Resolving the kinds of any files sends at most the allowed number of requests to GitHub, 1200 unless
  configured and never more than 2000, whether it succeeds or fails, and retries count.\<close>

theorem resolver_stays_within_its_budget:
  assumes "new_resolver E limits s = (Inr r, t)" and "resolve_kinds E headRev baseRev fs (r, t) = (q, (r', u))"
  shows "int (sent_count (gh_trace u)) - int (sent_count (gh_trace s)) \<le> tl_maxApiCalls (tree_limits_of limits)
    \<and> tl_maxApiCalls (tree_limits_of limits) \<le> 2000"
proof -
  have r: "rs_apiCalls r = 0" "rs_limits r = tree_limits_of limits" "tree_limits_ok (tree_limits_of limits)"
      "gh_trace t = gh_trace s"
    using assms(1) by (auto simp: new_resolver_def Let_def dest!: read_clock_trace split: prod.splits if_splits)
  from budgetedD [OF resolve_kinds_budgeted assms(2)]
  have "int (sent_count (gh_trace u)) - min (rs_apiCalls r') (tl_maxApiCalls (tree_limits_of limits))
      = int (sent_count (gh_trace s)) - min 0 (tl_maxApiCalls (tree_limits_of limits))"
    using r by (auto simp: unbudgeted_def)
  moreover have "0 < tl_maxApiCalls (tree_limits_of limits)" "tl_maxApiCalls (tree_limits_of limits) \<le> 2000"
    using r(3) by (simp_all add: tree_limits_ok_def)
  ultimately show ?thesis
    by (simp add: min_def split: if_splits)
qed

end
