(* ===== verification/User_Authorization.thy ===== *)
theory User_Authorization
  imports Github_Adapter Git_Tree
begin

text \<open>
  What a signed-in user may do, asked with the user's own token: \<open>OctokitUserAuthorizationPort\<close> of
  \<open>packages/github/src/user-authorization.ts\<close>. Lists come in pages whose announced total must not change; all
  pages of one call share a deadline.
\<close>

section \<open>Answers\<close>

definition upstream_user_schema :: "json \<Rightarrow> (int \<times> string) option" where
  "upstream_user_schema j =
     (case (guarded github_id_ok (read_int ''id'' j), guarded (length_between 1 100) (read_string ''login'' j)) of
        (Some i, Some l) \<Rightarrow> Some (i, l)
      | _ \<Rightarrow> None)"

record upstream_permission =
  us_permission :: string
  us_role_name :: string
  us_login :: "string option"

definition read_permission_user :: "json \<Rightarrow> string option option" where
  "read_permission_user j =
     (case prop_of ''user'' j of
        None \<Rightarrow> None
      | Some JNull \<Rightarrow> Some None
      | Some u \<Rightarrow> map_option Some (guarded (length_between 1 100) (read_string ''login'' u)))"

definition upstream_permission_schema :: "json \<Rightarrow> upstream_permission option" where
  "upstream_permission_schema j =
     (case (guarded (\<lambda>p. p \<in> set permissions) (read_string ''permission'' j),
            guarded (length_between 1 100) (read_string ''role_name'' j), read_permission_user j) of
        (Some p, Some r, Some u) \<Rightarrow> Some \<lparr>us_permission = p, us_role_name = r, us_login = u\<rparr>
      | _ \<Rightarrow> None)"

definition user_app_installations_page_size :: int where
  "user_app_installations_page_size = 100"

definition max_user_app_installation_pages :: int where
  "max_user_app_installation_pages = 10"

definition user_app_repositories_page_size :: int where
  "user_app_repositories_page_size = 100"

definition max_user_app_repository_pages :: nat where
  "max_user_app_repository_pages = 32"

definition max_user_app_repository_results :: int where
  "max_user_app_repository_results = user_app_repositories_page_size * int max_user_app_repository_pages"

definition default_user_authorization_deadline_ms :: int where
  "default_user_authorization_deadline_ms = 25000"

text \<open>\<open>z.number().int().nonnegative().safe()\<close>\<close>

definition count_ok :: "int \<Rightarrow> bool" where
  "count_ok n \<longleftrightarrow> 0 \<le> n \<and> n \<le> max_safe_integer"

definition page_schema :: "string \<Rightarrow> (json \<Rightarrow> 'a option) \<Rightarrow> json \<Rightarrow> (int \<times> 'a list) option" where
  "page_schema member item j =
     (case (guarded count_ok (read_int ''total_count'' j),
            Option.bind (guarded (\<lambda>l. length l \<le> 100) (read_list member j)) (parse_all item)) of
        (Some n, Some xs) \<Rightarrow> Some (n, xs)
      | _ \<Rightarrow> None)"

definition upstream_installation_page_schema :: "json \<Rightarrow> (int \<times> int list) option" where
  "upstream_installation_page_schema = page_schema ''installations'' (\<lambda>x. guarded github_id_ok (read_int ''id'' x))"

record upstream_writable =
  uw_id :: int
  uw_admin :: bool
  uw_push :: bool
  uw_maintain :: "bool option"

definition read_optional_bool :: "string \<Rightarrow> json \<Rightarrow> bool option option" where
  "read_optional_bool k j = (case prop_of k j of None \<Rightarrow> Some None | Some (JBool b) \<Rightarrow> Some (Some b) | _ \<Rightarrow> None)"

definition upstream_repository_item :: "json \<Rightarrow> upstream_writable option" where
  "upstream_repository_item j =
     (case (guarded github_id_ok (read_int ''id'' j), prop_of ''permissions'' j) of
        (Some i, Some p) \<Rightarrow>
          (case (read_bool ''admin'' p, read_bool ''push'' p, read_optional_bool ''maintain'' p) of
             (Some a, Some w, Some m) \<Rightarrow> Some \<lparr>uw_id = i, uw_admin = a, uw_push = w, uw_maintain = m\<rparr>
           | _ \<Rightarrow> None)
      | _ \<Rightarrow> None)"

definition upstream_repository_page_schema :: "json \<Rightarrow> (int \<times> upstream_writable list) option" where
  "upstream_repository_page_schema = page_schema ''repositories'' upstream_repository_item"

record id_page =
  ip_ids :: "string list"
  ip_pageSize :: nat
  ip_totalCount :: int

definition checked_ids :: "int list \<Rightarrow> string list option" where
  "checked_ids = parse_all (\<lambda>n. if decimal_id_ok (string_of_int n) then Some (string_of_int n) else None)"

definition parse_accessible_app_installation_page :: "json \<Rightarrow> id_page option" where
  "parse_accessible_app_installation_page d =
     (case upstream_installation_page_schema d of
        None \<Rightarrow> None
      | Some (n, is) \<Rightarrow> map_option (\<lambda>ids. \<lparr>ip_ids = ids, ip_pageSize = length is, ip_totalCount = n\<rparr>) (checked_ids is))"

definition may_write :: "upstream_writable \<Rightarrow> bool" where
  "may_write r \<longleftrightarrow> uw_admin r \<or> uw_push r \<or> uw_maintain r = Some True"

definition parse_writable_app_repository_page :: "json \<Rightarrow> id_page option" where
  "parse_writable_app_repository_page d =
     (case upstream_repository_page_schema d of
        None \<Rightarrow> None
      | Some (n, rs) \<Rightarrow> map_option (\<lambda>ids. \<lparr>ip_ids = ids, ip_pageSize = length rs, ip_totalCount = n\<rparr>)
          (checked_ids (map uw_id (filter may_write rs))))"

section \<open>Requests under one deadline\<close>

definition bound_github_request ::
  "'w outside \<Rightarrow> request_options \<Rightarrow> int \<Rightarrow> string \<Rightarrow> rest_call \<Rightarrow> ('w, 'x) github_scheme
     \<Rightarrow> (thrown + json) \<times> ('w, 'x) github_scheme" where
  "bound_github_request W opts deadlineAt token call s =
     (case read_clock W s of (now, t) \<Rightarrow>
      if deadlineAt - now < 1 then (Inl (Control (control Timeout)), t)
      else github_request W (opts\<lparr>ro_deadlineMs := Some (deadlineAt - now)\<rparr>) token call t)"

definition bound_deadline :: "'w outside \<Rightarrow> request_options \<Rightarrow> ('w, 'x) github_scheme \<Rightarrow> (thrown + int) \<times> ('w, 'x) github_scheme" where
  "bound_deadline W opts s =
     (case read_clock W s of (now, t) \<Rightarrow>
        (Inr (now + or_else (ro_deadlineMs opts) default_user_authorization_deadline_ms), t))"

section \<open>The operations\<close>

definition get_authenticated_user ::
  "'w outside \<Rightarrow> request_options \<Rightarrow> string \<Rightarrow> ('w, 'x) github_scheme
     \<Rightarrow> (thrown + authenticated_user) \<times> ('w, 'x) github_scheme" where
  "get_authenticated_user W opts userToken =
     eff_bind (eff_check (user_token_ok userToken) (Control (control Invalid_input))) (\<lambda>_.
     eff_bind (github_request W opts userToken Get_authenticated_user) (\<lambda>d.
       case upstream_user_schema d of
         None \<Rightarrow> eff_throw bad_response
       | Some (i, l) \<Rightarrow>
           (let u = \<lparr>au_id = string_of_int i, au_login = l\<rparr> in
            if authenticated_user_ok u then eff_return u else eff_throw bad_response)))"

definition get_collaborator_permission ::
  "'w outside \<Rightarrow> request_options \<Rightarrow> permission_input \<Rightarrow> ('w, 'x) github_scheme
     \<Rightarrow> (thrown + collaborator_permission) \<times> ('w, 'x) github_scheme" where
  "get_collaborator_permission W opts i =
     eff_bind (eff_check (permission_input_ok i) (Control (control Invalid_input))) (\<lambda>_.
     eff_bind (github_request W opts (pi_userToken i)
         (Get_collaborator_permission_level (pi_owner i) (pi_repositoryName i) (pi_username i))) (\<lambda>d.
       case upstream_permission_schema d of
         None \<Rightarrow> eff_throw bad_response
       | Some u \<Rightarrow>
           if map_option lowercase (us_login u) \<noteq> Some (lowercase (pi_username i)) then eff_throw bad_response
           else (let p = \<lparr>cp_permission = us_permission u, cp_roleName = us_role_name u\<rparr> in
             if collaborator_permission_ok p then eff_return p else eff_throw bad_response)))"

text \<open>A JavaScript \<open>Set\<close> keeps the order of first insertion.\<close>

definition set_add :: "string list \<Rightarrow> string \<Rightarrow> string list" where
  "set_add xs x = (if x \<in> set xs then xs else xs @ [x])"

definition set_of_list :: "string list \<Rightarrow> string list" where
  "set_of_list xs = foldl set_add [] xs"

text \<open>The pages of installations from \<open>page\<close> on, \<open>n\<close> of them left.\<close>

fun installation_pages ::
  "'w outside \<Rightarrow> request_options \<Rightarrow> int \<Rightarrow> string \<Rightarrow> nat \<Rightarrow> int \<Rightarrow> int option \<Rightarrow> nat \<Rightarrow> string list
     \<Rightarrow> ('w, 'x) github_scheme \<Rightarrow> (thrown + string list) \<times> ('w, 'x) github_scheme" where
  "installation_pages W opts deadlineAt token 0 page announced received ids = eff_throw bad_response"
| "installation_pages W opts deadlineAt token (Suc n) page announced received ids =
     eff_bind (bound_github_request W opts deadlineAt token
         (List_installations_for_authenticated_user page user_app_installations_page_size)) (\<lambda>d.
       case parse_accessible_app_installation_page d of
         None \<Rightarrow> eff_throw bad_response
       | Some p \<Rightarrow>
           if announced \<noteq> None \<and> announced \<noteq> Some (ip_totalCount p) then eff_throw bad_response
           else
             let sofar = received + ip_pageSize p in
             if user_app_installations_page_size * max_user_app_installation_pages < ip_totalCount p
                \<or> ip_totalCount p < int sofar \<or> (ip_pageSize p = 0 \<and> int sofar < ip_totalCount p)
             then eff_throw bad_response
             else if int sofar = ip_totalCount p then eff_return (set_of_list (ids @ ip_ids p))
             else installation_pages W opts deadlineAt token n (page + 1) (Some (ip_totalCount p)) sofar (ids @ ip_ids p))"

definition list_accessible_app_installations ::
  "'w outside \<Rightarrow> request_options \<Rightarrow> string \<Rightarrow> ('w, 'x) github_scheme
     \<Rightarrow> (thrown + string list) \<times> ('w, 'x) github_scheme" where
  "list_accessible_app_installations W opts userToken =
     eff_bind (eff_check (user_token_ok userToken) (Control (control Invalid_input))) (\<lambda>_.
     eff_bind (bound_deadline W opts) (\<lambda>deadlineAt.
     installation_pages W opts deadlineAt userToken (nat max_user_app_installation_pages) 1 None 0 []))"

text \<open>Where the reading of repositories stands: all installations together, and the current one.\<close>

record repository_reading =
  ry_ids :: "string list"
  ry_announced :: int
  ry_received :: nat
  ry_total :: "int option"

definition next_repository_page :: "repository_reading \<Rightarrow> json \<Rightarrow> thrown + repository_reading \<times> bool" where
  "next_repository_page a d =
     (case parse_writable_app_repository_page d of
        None \<Rightarrow> Inl bad_response
      | Some p \<Rightarrow>
          let announced = (if ry_total a = None then ry_announced a + ip_totalCount p else ry_announced a);
              received = ry_received a + ip_pageSize p in
          if ry_total a = None \<and> max_user_app_repository_results < announced then Inl bad_response
          else if ry_total a \<noteq> None \<and> ry_total a \<noteq> Some (ip_totalCount p) then Inl bad_response
          else if ip_totalCount p < int received \<or> (ip_pageSize p = 0 \<and> int received < ip_totalCount p)
          then Inl bad_response
          else Inr (a\<lparr>ry_ids := foldl set_add (ry_ids a) (ip_ids p), ry_announced := announced,
                ry_received := received, ry_total := Some (ip_totalCount p)\<rparr>,
              ip_totalCount p \<le> int received))"

text \<open>One page may be read for every page the budget has left; an installation that is done gives way to the
  next one.\<close>

fun repository_pages ::
  "'w outside \<Rightarrow> request_options \<Rightarrow> int \<Rightarrow> string \<Rightarrow> nat \<Rightarrow> string list \<Rightarrow> int \<Rightarrow> repository_reading
     \<Rightarrow> ('w, 'x) github_scheme \<Rightarrow> (thrown + string list) \<times> ('w, 'x) github_scheme" where
  "repository_pages W opts deadlineAt token n [] page a = eff_return (ry_ids a)"
| "repository_pages W opts deadlineAt token 0 (i # is) page a = eff_throw bad_response"
| "repository_pages W opts deadlineAt token (Suc n) (i # is) page a =
     eff_bind (bound_github_request W opts deadlineAt token
         (List_installation_repos_for_authenticated_user (number_of_decimal i) page user_app_repositories_page_size)) (\<lambda>d.
     eff_bind (eff_lift (next_repository_page a d)) (\<lambda>(b, finished).
       if finished
       then repository_pages W opts deadlineAt token n is 1 (b\<lparr>ry_received := 0, ry_total := None\<rparr>)
       else repository_pages W opts deadlineAt token n (i # is) (page + 1) b))"

definition list_writable_app_repositories ::
  "'w outside \<Rightarrow> request_options \<Rightarrow> repositories_input \<Rightarrow> ('w, 'x) github_scheme
     \<Rightarrow> (thrown + string list) \<times> ('w, 'x) github_scheme" where
  "list_writable_app_repositories W opts i =
     eff_bind (eff_check (repositories_input_ok i) (Control (control Invalid_input))) (\<lambda>_.
     eff_bind (bound_deadline W opts) (\<lambda>deadlineAt.
     repository_pages W opts deadlineAt (wi_userToken i) max_user_app_repository_pages (wi_githubInstallationIds i) 1
       \<lparr>ry_ids = [], ry_announced = 0, ry_received = 0, ry_total = None\<rparr>))"

section \<open>Only what was told\<close>

text \<open>GitHub told, in answer to the user's token and for one of these installations, a repository with this id
  that the user may write.\<close>

definition told_writable :: "string \<Rightarrow> string list \<Rightarrow> event list \<Rightarrow> string \<Rightarrow> bool" where
  "told_writable token is es x \<longleftrightarrow> (\<exists>i page d n rs r.
     i \<in> set is
     \<and> Sent token (List_installation_repos_for_authenticated_user (number_of_decimal i) page 100) (Resolved d) \<in> set es
     \<and> upstream_repository_page_schema d = Some (n, rs) \<and> r \<in> set rs \<and> may_write r \<and> x = string_of_int (uw_id r))"

lemma told_writable_mono:
  "told_writable token is es x \<Longrightarrow> set is \<subseteq> set js \<Longrightarrow> set es \<subseteq> set fs \<Longrightarrow> told_writable token js fs x"
  unfolding told_writable_def by blast

lemma set_add_mem [simp]: "set (foldl set_add xs ys) = set xs \<union> set ys"
  by (induction ys arbitrary: xs) (auto simp: set_add_def)

lemma checked_ids_mem: "checked_ids ns = Some ids \<Longrightarrow> x \<in> set ids \<Longrightarrow> \<exists>n \<in> set ns. x = string_of_int n"
  unfolding checked_ids_def by (drule (1) parse_all_result) (auto split: if_splits)

lemma writable_page_ids:
  "parse_writable_app_repository_page d = Some p \<Longrightarrow> x \<in> set (ip_ids p)
    \<Longrightarrow> \<exists>n rs r. upstream_repository_page_schema d = Some (n, rs) \<and> r \<in> set rs \<and> may_write r \<and> x = string_of_int (uw_id r)"
  by (auto simp: parse_writable_app_repository_page_def dest!: checked_ids_mem split: option.splits prod.splits)

lemma bound_github_request_adds:
  assumes "\<not> is_write call"
  shows "adds (\<lambda>r es. quiet es \<and> sent_count es \<le> 3 \<and> (\<forall>d. r = Inr d \<longrightarrow> Sent token call (Resolved d) \<in> set es))
    (bound_github_request W opts deadlineAt token call)"
proof (rule addsI)
  fix s r t
  assume run: "bound_github_request W opts deadlineAt token call s = (r, t)"
  obtain now u where now: "read_clock W s = (now, u)"
    by fastforce
  show "\<exists>es. gh_trace t = gh_trace s @ es \<and> quiet es \<and> sent_count es \<le> 3 \<and> (\<forall>d. r = Inr d \<longrightarrow> Sent token call (Resolved d) \<in> set es)"
  proof (cases "deadlineAt - now < 1")
    case True
    then show ?thesis
      using run now read_clock_trace [OF now] by (auto simp: bound_github_request_def)
  next
    case False
    let ?o = "opts\<lparr>ro_deadlineMs := Some (deadlineAt - now)\<rparr>"
    have "github_request W ?o token call u = (r, t)"
      using run now False by (simp add: bound_github_request_def)
    from github_request_trace [OF this] obtain es where es: "gh_trace t = gh_trace u @ es"
        "request_events (nat (min 3 (or_else (ro_maxAttempts ?o) 3))) token call r es"
      by blast
    then have "quiet es" "sent_count es \<le> 3" "\<And>d. r = Inr d \<Longrightarrow> Sent token call (Resolved d) \<in> set es"
      using only_this_quiet [OF _ assms] by (auto simp: request_events_def) (metis last_in_set)
    then show ?thesis
      using es(1) read_clock_trace [OF now] by auto
  qed
qed

lemma next_repository_page_ids:
  "next_repository_page a d = Inr (b, finished) \<Longrightarrow>
     \<exists>p. parse_writable_app_repository_page d = Some p \<and> set (ry_ids b) = set (ry_ids a) \<union> set (ip_ids p)"
  by (auto simp: next_repository_page_def Let_def split: option.splits if_splits)

definition reads_writable :: "string \<Rightarrow> string list \<Rightarrow> nat \<Rightarrow> string list \<Rightarrow> thrown + string list \<Rightarrow> event list \<Rightarrow> bool" where
  "reads_writable token is n before r es \<longleftrightarrow> quiet es \<and> sent_count es \<le> 3 * n
     \<and> (\<forall>ids. r = Inr ids \<longrightarrow> (\<forall>x \<in> set ids. x \<in> set before \<or> told_writable token is es x))"

lemma reads_writable_step:
  assumes page: "quiet es \<and> sent_count es \<le> 3
      \<and> (\<forall>d'. Inr d = Inr d' \<longrightarrow> Sent token (List_installation_repos_for_authenticated_user (number_of_decimal i) page 100) (Resolved d') \<in> set es)"
    and next_page: "next_repository_page a d = Inr (b, finished)"
    and rest: "reads_writable token js n (ry_ids b) r fs" and js: "set js \<subseteq> set (i # is)"
  shows "reads_writable token (i # is) (Suc n) (ry_ids a) r (es @ fs)"
proof -
  obtain p where p: "parse_writable_app_repository_page d = Some p" "set (ry_ids b) = set (ry_ids a) \<union> set (ip_ids p)"
    using next_repository_page_ids [OF next_page] by blast
  have "told_writable token (i # is) (es @ fs) x" if "x \<in> set (ip_ids p)" for x
    using writable_page_ids [OF p(1) that] page unfolding told_writable_def by fastforce
  moreover have "told_writable token (i # is) (es @ fs) x" if "told_writable token js fs x" for x
    using told_writable_mono [OF that js] by auto
  ultimately show ?thesis
    using page rest p(2) unfolding reads_writable_def by fastforce
qed

lemma repository_pages_adds:
  "adds (reads_writable token is n (ry_ids a)) (repository_pages W opts deadlineAt token n is page a)"
proof (induction W opts deadlineAt token n "is" page a rule: repository_pages.induct)
  case (1 W opts deadlineAt token n page a)
  show ?case
    unfolding repository_pages.simps by (rule adds_simple) (simp add: reads_writable_def)
next
  case (2 W opts deadlineAt token i "is" page a)
  show ?case
    unfolding repository_pages.simps by (rule adds_simple) (simp add: reads_writable_def)
next
  case (3 W opts deadlineAt token n i "is" page a)
  have call: "\<not> is_write (List_installation_repos_for_authenticated_user (number_of_decimal i) page user_app_repositories_page_size)"
    by simp
  show ?case
    unfolding repository_pages.simps
  proof (rule adds_bind [OF bound_github_request_adds [OF call],
        where R = "\<lambda>d r fs. (\<exists>e. r = Inl e) \<and> fs = []
          \<or> (\<exists>b finished js. next_repository_page a d = Inr (b, finished) \<and> set js \<subseteq> set (i # is)
              \<and> reads_writable token js n (ry_ids b) r fs)"], goal_cases)
    case (1 d)
    show ?case
    proof (rule adds_bind [where Q = "\<lambda>q es. es = [] \<and> q = next_repository_page a d"
          and R = "\<lambda>v r fs. (\<exists>js. set js \<subseteq> set (i # is) \<and> reads_writable token js n (ry_ids (fst v)) r fs)"], goal_cases)
      case (2 v)
      obtain b finished where v: "v = (b, finished)"
        by (cases v)
      show ?case
      proof (cases finished)
        case True
        show ?thesis
          unfolding v by (simp add: True, rule adds_mono, rule "3.IH"(1) [OF True, simplified]) auto
      next
        case False
        show ?thesis
          unfolding v by (simp add: False, rule adds_mono, rule "3.IH"(2) [OF False, simplified])
            (rule exI [of _ "i # is"], simp)
      qed
    qed (auto simp: adds_simple, metis+)
  next
    case (3 d es r fs)
    have page: "quiet es \<and> sent_count es \<le> 3 \<and> (\<forall>d'. Inr d = Inr d' \<longrightarrow>
        Sent token (List_installation_repos_for_authenticated_user (number_of_decimal i) page 100) (Resolved d') \<in> set es)"
      using 3(1) by (simp add: user_app_repositories_page_size_def)
    show ?case
      using 3(2)
    proof (elim disjE exE conjE)
      fix e
      assume "r = Inl e" "fs = []"
      then show ?thesis
        using page by (simp add: reads_writable_def)
    next
      fix b finished js
      assume "next_repository_page a d = Inr (b, finished)" "set js \<subseteq> set (i # is)"
        "reads_writable token js n (ry_ids b) r fs"
      then show ?thesis
        by (intro reads_writable_step [OF page])
    qed
  qed (auto simp: reads_writable_def)
qed

lemma bound_deadline_adds: "adds (\<lambda>r es. es = []) (bound_deadline W opts)"
  by (auto simp: adds_def bound_deadline_def dest: read_clock_trace split: prod.splits)

text \<open>C39: A repository id the port returns to a signed-in user is one that GitHub, asked with that user's own token
  during the call and for an installation the caller named, told to be one the user administers, may
  push to or maintains; and however many installations and pages there are, whether the call succeeds
  or fails, it writes nothing and sends at most 96 requests.\<close>

theorem listed_repositories_were_told_writable:
  "\<exists>es. gh_trace (snd (list_writable_app_repositories W opts i s)) = gh_trace s @ es
     \<and> writes es = [] \<and> sent_count es \<le> 96
     \<and> (case fst (list_writable_app_repositories W opts i s) of
          Inl e \<Rightarrow> True
        | Inr ids \<Rightarrow> list_all (told_writable (wi_userToken i) (wi_githubInstallationIds i) es) ids)"
proof -
  obtain r t where run: "list_writable_app_repositories W opts i s = (r, t)"
    by fastforce
  have "adds (\<lambda>r es. quiet es \<and> sent_count es \<le> 96
      \<and> (\<forall>ids. r = Inr ids \<longrightarrow> (\<forall>x \<in> set ids. told_writable (wi_userToken i) (wi_githubInstallationIds i) es x)))
    (list_writable_app_repositories W opts i)"
    unfolding list_writable_app_repositories_def
  proof (rule adds_bind [where Q = "\<lambda>r es. es = []" and R = "\<lambda>_ r es. quiet es \<and> sent_count es \<le> 96
      \<and> (\<forall>ids. r = Inr ids \<longrightarrow> (\<forall>x \<in> set ids. told_writable (wi_userToken i) (wi_githubInstallationIds i) es x))"],
      goal_cases)
    case 2
    show ?case
      by (rule adds_bind [OF bound_deadline_adds repository_pages_adds])
        (auto simp: reads_writable_def max_user_app_repository_pages_def)
  qed (auto simp: adds_check)
  from addsD [OF this run] show ?thesis
    using run by (auto simp: quiet_def list_all_iff split: sum.splits)
qed

end
