(* ===== verification/Webhook.thy ===== *)
theory Webhook
  imports Github_Adapter
begin

text \<open>
  Webhooks of GitHub (\<open>packages/github/src/webhook.ts\<close> and its schemas in \<open>schemas.ts\<close>): the signature over
  the exact bytes, the three families of events that are consumed, and what is read from them.
  HMAC-SHA-256, SHA-256, zod's grammar of UUIDs and the decoding of UTF-8 JSON are parameters; the error
  of a transform, of a schema or of the decoder is the same error to the caller.
\<close>

record webhook_lib =
  wl_hmac :: "bytes \<Rightarrow> bytes \<Rightarrow> bytes"
  wl_sha256 :: "bytes \<Rightarrow> bytes"
  wl_uuid :: "string \<Rightarrow> bool"
  wl_decode_json :: "bytes \<Rightarrow> json option"

datatype webhook_error = Invalid_headers | Invalid_webhook_signature | Invalid_webhook_payload

section \<open>Schemas\<close>

definition pull_request_actions :: "string list" where
  "pull_request_actions = [''opened'', ''reopened'', ''ready_for_review'', ''synchronize'', ''closed'']"

definition installation_actions :: "string list" where
  "installation_actions = [''created'', ''deleted'', ''new_permissions_accepted'', ''suspend'', ''unsuspend'']"

definition installation_repositories_actions :: "string list" where
  "installation_repositories_actions = [''added'', ''removed'']"

definition github_numeric_id :: "json \<Rightarrow> string option" where
  "github_numeric_id j =
     (case j of
        JStr s \<Rightarrow> if decimal_id_ok s then Some s else None
      | JNum n \<Rightarrow> if github_id_ok n then Some (string_of_int n) else None
      | _ \<Rightarrow> None)"

definition read_id :: "string \<Rightarrow> json \<Rightarrow> string option" where
  "read_id k j = Option.bind (prop_of k j) github_numeric_id"

definition read_trimmed :: "nat \<Rightarrow> nat \<Rightarrow> string \<Rightarrow> json \<Rightarrow> string option" where
  "read_trimmed lo hi k j = guarded (length_between lo hi) (map_option js_trim (read_string k j))"

definition nonempty :: "nat \<Rightarrow> string \<Rightarrow> bool" where
  "nonempty n s \<longleftrightarrow> n \<le> length s"

text \<open>\<open>const [owner, name, ...rest] = full_name.split("/")\<close> and its test.\<close>

definition split_full_name :: "string \<Rightarrow> string \<Rightarrow> (string \<times> string) option" where
  "split_full_name fullName expectedName =
     (case split_on (CHR ''/'') fullName of
        [owner, name] \<Rightarrow> if owner = [] \<or> name = [] \<or> name \<noteq> expectedName then None else Some (owner, name)
      | _ \<Rightarrow> None)"

record pull_request_event =
  pq_action :: string
  pq_githubInstallationId :: string
  pq_accountId :: string
  pq_accountLogin :: string
  pq_githubRepositoryId :: string
  pq_owner :: string
  pq_name :: string
  pq_defaultBranch :: string
  pq_githubPullRequestId :: string
  pq_number :: int
  pq_state :: string
  pq_authorId :: string
  pq_headSha :: string
  pq_baseSha :: string

definition read_sha_of :: "string \<Rightarrow> json \<Rightarrow> string option" where
  "read_sha_of k j = guarded sha_ok (Option.bind (prop_of k j) (read_string ''sha''))"

text \<open>The optional flag \<open>draft\<close> is tested and not used.\<close>

definition draft_ok :: "json \<Rightarrow> bool" where
  "draft_ok j = (case prop_of ''draft'' j of None \<Rightarrow> True | Some (JBool _) \<Rightarrow> True | _ \<Rightarrow> False)"

definition read_repository :: "json \<Rightarrow> (string \<times> string \<times> string \<times> string \<times> string \<times> string) option" where
  "read_repository j =
     (case (read_id ''id'' j, guarded (nonempty 1) (read_string ''name'' j), guarded (nonempty 3) (read_string ''full_name'' j),
            guarded (nonempty 1) (read_string ''default_branch'' j),
            Option.bind (prop_of ''owner'' j) (read_id ''id''),
            Option.bind (prop_of ''owner'' j) (\<lambda>u. guarded (nonempty 1) (read_string ''login'' u))) of
        (Some i, Some n, Some f, Some b, Some oi, Some ol) \<Rightarrow> Some (i, n, f, b, oi, ol)
      | _ \<Rightarrow> None)"

definition read_webhook_pull_request ::
  "json \<Rightarrow> (string \<times> int \<times> string \<times> string \<times> string \<times> string) option" where
  "read_webhook_pull_request j =
     (case (read_id ''id'' j, guarded (\<lambda>n. 0 < n) (read_int ''number'' j),
            guarded (\<lambda>s. s \<in> set pull_request_states) (read_string ''state'' j), guarded draft_ok (Some j),
            Option.bind (prop_of ''user'' j) (read_id ''id''),
            Option.bind (prop_of ''user'' j) (\<lambda>u. guarded (nonempty 1) (read_string ''login'' u)),
            read_sha_of ''head'' j, read_sha_of ''base'' j) of
        (Some i, Some n, Some st, Some _, Some a, Some _, Some h, Some b) \<Rightarrow> Some (i, n, st, a, h, b)
      | _ \<Rightarrow> None)"

definition github_pull_request_webhook_schema :: "json \<Rightarrow> pull_request_event option" where
  "github_pull_request_webhook_schema j =
     (case (guarded (\<lambda>a. a \<in> set pull_request_actions) (read_string ''action'' j),
            Option.bind (prop_of ''installation'' j) (read_id ''id''),
            Option.bind (prop_of ''repository'' j) read_repository,
            Option.bind (prop_of ''pull_request'' j) read_webhook_pull_request) of
        (Some action, Some installation, Some (i, n, f, b, oi, ol), Some (pullId, number, st, author, h, ba)) \<Rightarrow>
          map_option (\<lambda>(owner, name).
            \<lparr>pq_action = action, pq_githubInstallationId = installation, pq_accountId = oi, pq_accountLogin = ol,
             pq_githubRepositoryId = i, pq_owner = owner, pq_name = name, pq_defaultBranch = b,
             pq_githubPullRequestId = pullId, pq_number = number, pq_state = st, pq_authorId = author,
             pq_headSha = h, pq_baseSha = ba\<rparr>) (split_full_name f n)
      | _ \<Rightarrow> None)"

definition action_envelope :: "json \<Rightarrow> string option" where
  "action_envelope j = read_trimmed 1 100 ''action'' j"

record lifecycle_repository =
  lr_githubRepositoryId :: string
  lr_owner :: string
  lr_name :: string
  lr_defaultBranch :: "string option"

definition read_default_branch :: "json \<Rightarrow> string option option" where
  "read_default_branch j =
     (case prop_of ''default_branch'' j of
        None \<Rightarrow> Some None
      | Some JNull \<Rightarrow> Some None
      | Some _ \<Rightarrow> map_option Some (read_trimmed 1 255 ''default_branch'' j))"

definition lifecycle_repository_schema :: "json \<Rightarrow> lifecycle_repository option" where
  "lifecycle_repository_schema j =
     (case (read_id ''id'' j, read_trimmed 1 100 ''name'' j, read_trimmed 3 201 ''full_name'' j, read_default_branch j) of
        (Some i, Some n, Some f, Some b) \<Rightarrow>
          map_option (\<lambda>(owner, name).
            \<lparr>lr_githubRepositoryId = i, lr_owner = owner, lr_name = name, lr_defaultBranch = b\<rparr>) (split_full_name f n)
      | _ \<Rightarrow> None)"

record installation_binding =
  ib_githubInstallationId :: string
  ib_accountId :: string
  ib_accountLogin :: string
  ib_senderId :: "string option"

definition read_sender :: "json \<Rightarrow> string option option" where
  "read_sender j = (case prop_of ''sender'' j of None \<Rightarrow> Some None | Some u \<Rightarrow> map_option Some (read_id ''id'' u))"

definition repository_selections :: "string list" where
  "repository_selections = [''all'', ''selected'']"

definition read_installation :: "json \<Rightarrow> (installation_binding \<times> string) option" where
  "read_installation j =
     (case (Option.bind (prop_of ''installation'' j) (read_id ''id''),
            Option.bind (Option.bind (prop_of ''installation'' j) (prop_of ''account'')) (read_id ''id''),
            Option.bind (Option.bind (prop_of ''installation'' j) (prop_of ''account'')) (read_trimmed 1 100 ''login''),
            guarded (\<lambda>s. s \<in> set repository_selections)
              (Option.bind (prop_of ''installation'' j) (read_string ''repository_selection'')),
            read_sender j) of
        (Some i, Some a, Some l, Some sel, Some sender) \<Rightarrow>
          Some (\<lparr>ib_githubInstallationId = i, ib_accountId = a, ib_accountLogin = l, ib_senderId = sender\<rparr>, sel)
      | _ \<Rightarrow> None)"

definition repositories_of :: "json list \<Rightarrow> lifecycle_repository list option" where
  "repositories_of l = (if length l \<le> 1000 then parse_all lifecycle_repository_schema l else None)"

record installation_event =
  ie_action :: string
  ie_installation :: installation_binding
  ie_repositorySelection :: string
  ie_repositories :: "lifecycle_repository list"

definition read_optional_repositories :: "json \<Rightarrow> lifecycle_repository list option" where
  "read_optional_repositories j =
     (case prop_of ''repositories'' j of None \<Rightarrow> Some [] | Some _ \<Rightarrow> Option.bind (read_list ''repositories'' j) repositories_of)"

definition github_installation_webhook_schema :: "json \<Rightarrow> installation_event option" where
  "github_installation_webhook_schema j =
     (case (guarded (\<lambda>a. a \<in> set installation_actions) (read_string ''action'' j), read_installation j,
            read_optional_repositories j) of
        (Some a, Some (b, sel), Some rs) \<Rightarrow>
          Some \<lparr>ie_action = a, ie_installation = b, ie_repositorySelection = sel, ie_repositories = rs\<rparr>
      | _ \<Rightarrow> None)"

record installation_repositories_event =
  ir_action :: string
  ir_installation :: installation_binding
  ir_repositorySelection :: string
  ir_repositoriesAdded :: "lifecycle_repository list"
  ir_repositoriesRemoved :: "lifecycle_repository list"

definition github_installation_repositories_webhook_schema :: "json \<Rightarrow> installation_repositories_event option" where
  "github_installation_repositories_webhook_schema j =
     (case (guarded (\<lambda>a. a \<in> set installation_repositories_actions) (read_string ''action'' j), read_installation j,
            Option.bind (read_list ''repositories_added'' j) repositories_of,
            Option.bind (read_list ''repositories_removed'' j) repositories_of) of
        (Some a, Some (b, sel), Some ad, Some re) \<Rightarrow>
          Some \<lparr>ir_action = a, ir_installation = b, ir_repositorySelection = sel, ir_repositoriesAdded = ad,
                ir_repositoriesRemoved = re\<rparr>
      | _ \<Rightarrow> None)"

record webhook_headers =
  wh_deliveryId :: string
  wh_eventName :: string
  wh_signature :: string

definition signature_ok :: "string \<Rightarrow> bool" where
  "signature_ok s \<longleftrightarrow> take 7 s = ''sha256='' \<and> length s = 71 \<and> all_in lower_hex_chars (drop 7 s)"

definition event_name_ok :: "string \<Rightarrow> bool" where
  "event_name_ok s \<longleftrightarrow> 1 \<le> length s \<and> length s \<le> 64 \<and> hd s \<in> set ''abcdefghijklmnopqrstuvwxyz''
     \<and> all_in ''abcdefghijklmnopqrstuvwxyz0123456789_'' (tl s)"

definition webhook_headers_schema :: "webhook_lib \<Rightarrow> json \<Rightarrow> webhook_headers option" where
  "webhook_headers_schema L j =
     (case j of
        JObj ms \<Rightarrow>
          if \<not> list_all (\<lambda>(k, v). k \<in> {''deliveryId'', ''eventName'', ''signature''}) ms then None
          else (case (guarded (wl_uuid L) (read_string ''deliveryId'' j), guarded event_name_ok (read_string ''eventName'' j),
                      guarded signature_ok (read_string ''signature'' j)) of
              (Some d, Some e, Some s) \<Rightarrow> Some \<lparr>wh_deliveryId = d, wh_eventName = e, wh_signature = s\<rparr>
            | _ \<Rightarrow> None)
      | _ \<Rightarrow> None)"

section \<open>Verification\<close>

definition payload_sha256 :: "webhook_lib \<Rightarrow> bytes \<Rightarrow> string" where
  "payload_sha256 L rawBody = encode_hex (wl_sha256 L rawBody)"

definition verify_webhook_signature :: "webhook_lib \<Rightarrow> bytes \<Rightarrow> string \<Rightarrow> string \<Rightarrow> webhook_error + unit" where
  "verify_webhook_signature L rawBody signatureHeader secret =
     (if \<not> signature_ok signatureHeader then Inl Invalid_webhook_signature
      else
        let supplied = hex_pairs (drop 7 signatureHeader);
            expected = wl_hmac L (utf8_bytes secret) rawBody
        in if length supplied \<noteq> length expected \<or> supplied \<noteq> expected then Inl Invalid_webhook_signature
           else Inr ())"

record signed_webhook =
  sw_deliveryId :: string
  sw_eventName :: string
  sw_payloadHash :: string
  sw_payload :: json

definition parse_signed_github_webhook ::
  "webhook_lib \<Rightarrow> bytes \<Rightarrow> json \<Rightarrow> string \<Rightarrow> webhook_error + signed_webhook" where
  "parse_signed_github_webhook L rawBody rawHeaders secret =
     (case webhook_headers_schema L rawHeaders of
        None \<Rightarrow> Inl Invalid_headers
      | Some h \<Rightarrow>
          bind_result (verify_webhook_signature L rawBody (wh_signature h) secret) (\<lambda>_.
            case wl_decode_json L rawBody of
              Some (JObj ms) \<Rightarrow> Inr \<lparr>sw_deliveryId = wh_deliveryId h, sw_eventName = wh_eventName h,
                sw_payloadHash = payload_sha256 L rawBody, sw_payload = JObj ms\<rparr>
            | _ \<Rightarrow> Inl Invalid_webhook_payload))"

definition parse_pull_request_webhook ::
  "webhook_lib \<Rightarrow> bytes \<Rightarrow> json \<Rightarrow> string \<Rightarrow> webhook_error + pull_request_event \<times> string \<times> string" where
  "parse_pull_request_webhook L rawBody rawHeaders secret =
     bind_result (parse_signed_github_webhook L rawBody rawHeaders secret) (\<lambda>w.
       if sw_eventName w \<noteq> ''pull_request'' then Inl Invalid_webhook_payload
       else (case github_pull_request_webhook_schema (sw_payload w) of
           None \<Rightarrow> Inl Invalid_webhook_payload
         | Some e \<Rightarrow> Inr (e, sw_deliveryId w, sw_payloadHash w)))"

datatype webhook_event =
  Pull_request_event pull_request_event
| Installation_event installation_event
| Installation_repositories_event installation_repositories_event
| Ignored_event

definition supported_event :: "string list \<Rightarrow> (json \<Rightarrow> 'a option) \<Rightarrow> ('a \<Rightarrow> webhook_event) \<Rightarrow> json \<Rightarrow> webhook_error + webhook_event" where
  "supported_event actions schema event payload =
     (case action_envelope payload of
        None \<Rightarrow> Inl Invalid_webhook_payload
      | Some a \<Rightarrow> if a \<notin> set actions then Inr Ignored_event
          else (case schema payload of None \<Rightarrow> Inl Invalid_webhook_payload | Some e \<Rightarrow> Inr (event e)))"

definition event_of_payload :: "string \<Rightarrow> json \<Rightarrow> webhook_error + webhook_event" where
  "event_of_payload eventName payload =
     (if eventName = ''pull_request''
      then supported_event pull_request_actions github_pull_request_webhook_schema Pull_request_event payload
      else if eventName = ''installation''
      then supported_event installation_actions github_installation_webhook_schema Installation_event payload
      else if eventName = ''installation_repositories''
      then supported_event installation_repositories_actions github_installation_repositories_webhook_schema
        Installation_repositories_event payload
      else Inr Ignored_event)"

definition parse_supported_github_webhook ::
  "webhook_lib \<Rightarrow> bytes \<Rightarrow> json \<Rightarrow> string \<Rightarrow> webhook_error + signed_webhook \<times> webhook_event" where
  "parse_supported_github_webhook L rawBody rawHeaders secret =
     bind_result (parse_signed_github_webhook L rawBody rawHeaders secret) (\<lambda>w.
       bind_result (event_of_payload (sw_eventName w) (sw_payload w)) (\<lambda>e. Inr (w, e)))"

section \<open>Only signed bytes are interpreted\<close>

lemma verify_webhook_signature_iff:
  assumes "length (wl_hmac L (utf8_bytes secret) rawBody) = 32"
  shows "verify_webhook_signature L rawBody signature secret = Inr ()
    \<longleftrightarrow> signature = ''sha256='' @ encode_hex (wl_hmac L (utf8_bytes secret) rawBody)" (is "_ \<longleftrightarrow> ?R")
proof
  assume "verify_webhook_signature L rawBody signature secret = Inr ()"
  then have ok: "signature_ok signature" "hex_pairs (drop 7 signature) = wl_hmac L (utf8_bytes secret) rawBody"
    by (auto simp: verify_webhook_signature_def Let_def split: if_splits)
  then have "encode_hex (hex_pairs (drop 7 signature)) = drop 7 signature"
    by (intro hex_pairs_encode) (auto simp: signature_ok_def)
  then show ?R
    using ok append_take_drop_id [of 7 signature] by (simp add: signature_ok_def)
next
  assume r: ?R
  have "length (encode_hex xs) = 2 * length xs" for xs
    by (induction xs) (simp_all add: encode_hex_eq hex_byte_def)
  then show "verify_webhook_signature L rawBody signature secret = Inr ()"
    using assms r encode_hex_ok by (simp add: verify_webhook_signature_def signature_ok_def Let_def)
qed

lemma signed_webhook_verified:
  assumes "parse_signed_github_webhook L rawBody rawHeaders secret = Inr w"
  obtains h where "webhook_headers_schema L rawHeaders = Some h"
    "verify_webhook_signature L rawBody (wh_signature h) secret = Inr ()"
    "sw_payloadHash w = payload_sha256 L rawBody" "wl_decode_json L rawBody = Some (sw_payload w)"
    "sw_deliveryId w = wh_deliveryId h" "sw_eventName w = wh_eventName h"
  using assms
  by (auto simp: parse_signed_github_webhook_def result_simps split: option.splits json.splits)

lemma split_full_name_join:
  "split_full_name f n = Some (owner, name) \<Longrightarrow> f = owner @ ''/'' @ name \<and> name = n \<and> owner \<noteq> [] \<and> CHR ''/'' \<notin> set owner"
proof -
  have join: "join_with ''/'' (split_on (CHR ''/'') f) = f" for f
  proof (induction f)
    case (Cons c f)
    then show ?case
      by (cases "split_on (CHR ''/'') f"; cases "tl (split_on (CHR ''/'') f)") auto
  qed simp
  have no: "x \<in> set (split_on c f) \<Longrightarrow> c \<notin> set x" for c f x
    by (induction f arbitrary: x) (auto split: if_splits list.splits)
  assume "split_full_name f n = Some (owner, name)"
  then have s: "split_on (CHR ''/'') f = [owner, name]" "name = n" "owner \<noteq> []"
    by (auto simp: split_full_name_def split: list.splits if_splits)
  then show ?thesis
    using join [of f] no [of owner "CHR ''/''" f] by simp
qed

lemma read_repository_full_name: "read_repository j = Some (i, n, f, b, oi, ol) \<Longrightarrow> read_string ''full_name'' j = Some f"
  unfolding read_repository_def by (simp split: option.splits add: guarded_eq_Some)

lemma read_webhook_pull_request_head:
  "read_webhook_pull_request j = Some (i, n, st, a, h, b) \<Longrightarrow> read_sha_of ''head'' j = Some h"
  unfolding read_webhook_pull_request_def by (simp split: option.splits)

lemma pull_request_schema_event:
  assumes "github_pull_request_webhook_schema j = Some e"
  obtains f n r p where "prop_of ''repository'' j = Some r" "read_string ''full_name'' r = Some f"
    "split_full_name f n = Some (pq_owner e, pq_name e)"
    "prop_of ''pull_request'' j = Some p" "read_sha_of ''head'' p = Some (pq_headSha e)"
    "pq_action e \<in> set pull_request_actions"
proof -
  from assms obtain action installation i n f b oi ol pullId number st author h ba owner name where
    parts: "guarded (\<lambda>a. a \<in> set pull_request_actions) (read_string ''action'' j) = Some action"
      "Option.bind (prop_of ''repository'' j) read_repository = Some (i, n, f, b, oi, ol)"
      "Option.bind (prop_of ''pull_request'' j) read_webhook_pull_request = Some (pullId, number, st, author, h, ba)"
      "split_full_name f n = Some (owner, name)"
      "pq_action e = action" "pq_owner e = owner" "pq_name e = name" "pq_headSha e = h"
    by (auto simp: github_pull_request_webhook_schema_def split: option.splits prod.splits)
  then obtain r p where "prop_of ''repository'' j = Some r" "read_repository r = Some (i, n, f, b, oi, ol)"
      "prop_of ''pull_request'' j = Some p" "read_webhook_pull_request p = Some (pullId, number, st, author, h, ba)"
    by (auto simp: bind_eq_Some_conv)
  then show thesis
    using parts that [of r f n p]
    by (simp add: guarded_eq_Some read_repository_full_name read_webhook_pull_request_head)
qed

text \<open>C40: An event of a pull request is acted on only when the signature header is the HMAC of exactly the received
  bytes under the secret; the delivery is bound to the hash of those bytes, and the owner and the name
  in the event spell the full name of the repository in that payload, with the head it names.\<close>

theorem webhook_events_are_signed_and_bound:
  assumes "length (wl_hmac L (utf8_bytes secret) rawBody) = 32"
    and "parse_supported_github_webhook L rawBody rawHeaders secret = Inr (w, Pull_request_event e)"
  shows "\<exists>h. webhook_headers_schema L rawHeaders = Some h
    \<and> wh_signature h = ''sha256='' @ encode_hex (wl_hmac L (utf8_bytes secret) rawBody)
    \<and> wh_eventName h = ''pull_request'' \<and> sw_payloadHash w = encode_hex (wl_sha256 L rawBody)
    \<and> wl_decode_json L rawBody = Some (sw_payload w)
    \<and> Option.bind (prop_of ''repository'' (sw_payload w)) (read_string ''full_name'') = Some (pq_owner e @ ''/'' @ pq_name e)
    \<and> Option.bind (prop_of ''pull_request'' (sw_payload w)) (read_sha_of ''head'') = Some (pq_headSha e)
    \<and> pq_action e \<in> set pull_request_actions"
proof -
  have signed: "parse_signed_github_webhook L rawBody rawHeaders secret = Inr w"
    and event: "event_of_payload (sw_eventName w) (sw_payload w) = Inr (Pull_request_event e)"
    using assms(2) by (auto simp: parse_supported_github_webhook_def result_simps)
  from event have name: "sw_eventName w = ''pull_request''"
    and schema: "github_pull_request_webhook_schema (sw_payload w) = Some e"
    by (auto simp: event_of_payload_def supported_event_def split: if_splits option.splits)
  obtain f n r p where parts: "prop_of ''repository'' (sw_payload w) = Some r" "read_string ''full_name'' r = Some f"
    "split_full_name f n = Some (pq_owner e, pq_name e)"
    "prop_of ''pull_request'' (sw_payload w) = Some p" "read_sha_of ''head'' p = Some (pq_headSha e)"
    "pq_action e \<in> set pull_request_actions"
    by (rule pull_request_schema_event [OF schema])
  obtain h where h: "webhook_headers_schema L rawHeaders = Some h"
    "verify_webhook_signature L rawBody (wh_signature h) secret = Inr ()"
    "sw_payloadHash w = payload_sha256 L rawBody" "wl_decode_json L rawBody = Some (sw_payload w)"
    "sw_eventName w = wh_eventName h"
    using signed_webhook_verified [OF signed] by metis
  show ?thesis
    using h parts split_full_name_join [OF parts(3)] verify_webhook_signature_iff [OF assms(1), of "wh_signature h"] name
    by (intro exI [of _ h]) (simp add: payload_sha256_def)
qed

end
