(* ===== verification/Token_Races.thy ===== *)
theory Token_Races
  imports Installation_Tokens
begin

text \<open>
  The cache of installation tokens under interleaved calls. A step is what one call does between two
  awaits, with the pieces of \<open>Installation_Tokens\<close>; mints in flight may land in any order, with a token or an
  error. Two fields only record the history: which mints are in flight, and in which generation
  the mint of the cached token began.
\<close>

record 'w race = "'w token_state" +
  rc_flights :: "(string \<times> nat \<times> nat) list"
  rc_origin :: "string \<Rightarrow> nat"

definition take_off :: "string \<Rightarrow> nat \<Rightarrow> nat \<Rightarrow> 'w race \<Rightarrow> 'w race" where
  "take_off key p g s = s\<lparr>rc_flights := (key, p, g) # rc_flights s\<rparr>"

definition land :: "string \<Rightarrow> nat \<Rightarrow> nat \<Rightarrow> thrown + cached_token \<Rightarrow> 'w race \<Rightarrow> 'w race" where
  "land key p g minted s =
     (finish_get key p g minted s)\<lparr>rc_flights := removeAll (key, p, g) (rc_flights s),
        rc_origin := (if generation_of s key = g \<and> (\<exists>c. minted = Inr c) then (rc_origin s)(key := g) else rc_origin s)\<rparr>"

inductive race_step :: "token_options \<Rightarrow> 'w race \<Rightarrow> 'w race \<Rightarrow> bool" for opts where
  Get_answered: "begin_get opts key now s = (g, t) \<Longrightarrow> \<forall>p n. g \<noteq> Start_mint p n \<Longrightarrow> race_step opts s t"
| Get_mints: "begin_get opts key now s = (Start_mint p n, t) \<Longrightarrow> race_step opts s (take_off key p n t)"
| Refresh: "tk_refreshing s key = None \<Longrightarrow> begin_get opts key now (begin_refresh key s) = (Start_mint p n, t)
    \<Longrightarrow> race_step opts s (take_off key p n (register_refresh key t))"
| Lands: "(key, p, n) \<in> set (rc_flights s) \<Longrightarrow> race_step opts s (land key p n minted s)"
| Refresh_settles: "race_step opts s (finish_refresh key p s)"
| Invalidates: "race_step opts s (drop_cached key s)"

definition race_start :: "'w race \<Rightarrow> bool" where
  "race_start s \<longleftrightarrow> tk_cached s = (\<lambda>_. None) \<and> tk_pending s = (\<lambda>_. None) \<and> tk_refreshing s = (\<lambda>_. None)
     \<and> tk_generations s = (\<lambda>_. None) \<and> rc_flights s = []"

text \<open>What the cache and the pending mint of a key hold belongs to its current generation.\<close>

definition race_inv :: "'w race \<Rightarrow> bool" where
  "race_inv s \<longleftrightarrow>
     (\<forall>key. tk_cached s key \<noteq> None \<longrightarrow> rc_origin s key = generation_of s key)
     \<and> (\<forall>key p. tk_pending s key = Some p \<longrightarrow> (key, p, generation_of s key) \<in> set (rc_flights s))
     \<and> (\<forall>(key, p, n) \<in> set (rc_flights s). p < tk_next s)
     \<and> (\<forall>key p n m. (key, p, n) \<in> set (rc_flights s) \<longrightarrow> (key, p, m) \<in> set (rc_flights s) \<longrightarrow> n = m)"

lemma begin_get_cases:
  assumes "begin_get opts key now s = (g, t)"
  shows "(t = s \<and> (\<forall>p n. g \<noteq> Start_mint p n))
    \<or> (g = Start_mint (tk_next s) (generation_of s key) \<and> tk_pending s key = None
       \<and> t = s\<lparr>tk_pending := (tk_pending s)(key := Some (tk_next s)), tk_next := Suc (tk_next s)\<rparr>)"
proof (cases "tk_cached s key")
  case None
  then show ?thesis
    using assms by (cases "tk_pending s key") (simp_all add: begin_get_def, blast)
next
  case (Some c)
  then show ?thesis
    using assms by (cases "tk_pending s key"; cases "now < ct_expiresAtMs c - expiry_skew_ms opts") (auto simp: begin_get_def)
qed

lemma begin_get_mints:
  assumes "race_inv s" and "begin_get opts key now s = (Start_mint p n, t)"
  shows "race_inv (take_off key p n t)"
proof -
  have "p = tk_next s" "n = generation_of s key"
    "t = s\<lparr>tk_pending := (tk_pending s)(key := Some (tk_next s)), tk_next := Suc (tk_next s)\<rparr>"
    using begin_get_cases [OF assms(2)] by simp_all
  then show ?thesis
    using assms(1) by (fastforce simp: race_inv_def take_off_def generation_of_def)
qed

lemma begin_refresh_inv: "race_inv s \<Longrightarrow> race_inv (begin_refresh key s)"
  by (fastforce simp: race_inv_def begin_refresh_def generation_of_def)

lemma register_refresh_inv: "race_inv (take_off key p n t) \<Longrightarrow> race_inv (take_off key p n (register_refresh key t))"
  by (fastforce simp: race_inv_def take_off_def register_refresh_def generation_of_def)

lemma land_inv:
  assumes "race_inv s" and "(key, p, n) \<in> set (rc_flights s)"
  shows "race_inv (land key p n minted s)"
  using assms
  by (cases minted) (fastforce simp: race_inv_def land_def finish_get_def generation_of_def Let_def)+

interpretation token_races: invariant_system race_start "race_step opts" race_inv
proof
  fix s :: "'a race"
  assume "race_start s"
  then show "race_inv s"
    by (simp add: race_start_def race_inv_def)
next
  fix s t :: "'a race"
  assume "race_inv s" and "race_step opts s t"
  from this(2) this(1) show "race_inv t"
  proof cases
    case (Get_answered key now g)
    then show ?thesis
      using \<open>race_inv s\<close> begin_get_cases [of opts key now s g t] by auto
  next
    case (Get_mints key now p n u)
    then show ?thesis
      using \<open>race_inv s\<close> begin_get_mints by blast
  next
    case (Refresh key now p n u)
    then show ?thesis
      using \<open>race_inv s\<close> begin_get_mints begin_refresh_inv register_refresh_inv by blast
  next
    case (Lands key p n minted)
    then show ?thesis
      using \<open>race_inv s\<close> land_inv by blast
  next
    case (Refresh_settles key p)
    then show ?thesis
      using \<open>race_inv s\<close> by (auto simp: race_inv_def finish_refresh_def generation_of_def)
  next
    case (Invalidates key)
    then show ?thesis
      using \<open>race_inv s\<close> by (auto simp: race_inv_def drop_cached_def generation_of_def)
  qed
qed

text \<open>C38: Whatever the interleaving of calls, mints, forced refreshes and rejections: the cached token of a key and
  the mint its callers wait for began after the last forced refresh of that key, so a mint that a
  refresh has overtaken is never cached nor joined.\<close>

theorem forced_refresh_overtakes_older_mints:
  assumes "race_start s" and "(race_step opts)\<^sup>*\<^sup>* s t"
  shows "(tk_cached t key = None \<or> rc_origin t key = generation_of t key)
    \<and> (\<forall>p. tk_pending t key = Some p \<longrightarrow> (key, p, generation_of t key) \<in> set (rc_flights t))"
  using token_races.inv_reachable [OF assms] by (auto simp: race_inv_def)

text \<open>A mint in flight, overtaken by a forced refresh, lands: it is not cached.\<close>

definition race_example :: "unit race" where
  "race_example = \<lparr>gh_world = (), gh_trace = [], tk_cached = (\<lambda>_. None), tk_pending = (\<lambda>_. None),
     tk_refreshing = (\<lambda>_. None), tk_generations = (\<lambda>_. None), tk_next = 0, rc_flights = [], rc_origin = (\<lambda>_. 0)\<rparr>"

definition race_options :: token_options where
  "race_options = \<lparr>to_appId = ''1'', to_privateKeyPath = ''/key'', to_expirySkewMs = None\<rparr>"

definition race_overtaken :: "unit race" where
  "race_overtaken =
     (let s1 = take_off ''1:2'' 0 0 (snd (begin_get race_options ''1:2'' 0 race_example));
          s2 = take_off ''1:2'' 1 1 (register_refresh ''1:2'' (snd (begin_get race_options ''1:2'' 0 (begin_refresh ''1:2'' s1))))
      in land ''1:2'' 0 0 (Inr \<lparr>ct_token = ''old'', ct_expiresAtMs = 0\<rparr>) s2)"

lemma race_overtaken_reached: "(race_step race_options)\<^sup>*\<^sup>* race_example race_overtaken"
proof -
  let ?s1 = "take_off ''1:2'' 0 0 (snd (begin_get race_options ''1:2'' 0 race_example))"
  let ?s2 = "take_off ''1:2'' 1 1 (register_refresh ''1:2'' (snd (begin_get race_options ''1:2'' 0 (begin_refresh ''1:2'' ?s1))))"
  have 1: "race_step race_options race_example ?s1"
    by (rule Get_mints [where now = 0]) (simp add: begin_get_def race_example_def generation_of_def prod_eq_iff)
  have 2: "race_step race_options ?s1 ?s2"
    by (rule Refresh [where now = 0])
      (simp_all add: begin_get_def begin_refresh_def take_off_def race_example_def generation_of_def prod_eq_iff)
  have 3: "race_step race_options ?s2 race_overtaken"
    unfolding race_overtaken_def Let_def by (rule Lands) (simp add: take_off_def begin_get_def begin_refresh_def
        register_refresh_def race_example_def generation_of_def)
  show ?thesis
    using 1 2 3 by (meson converse_rtranclp_into_rtranclp rtranclp.rtrancl_refl)
qed

theorem forced_refresh_overtakes_older_mints_witness:
  "(tk_cached race_overtaken ''1:2'' = None \<or> rc_origin race_overtaken ''1:2'' = generation_of race_overtaken ''1:2'')
   \<and> tk_cached race_overtaken ''1:2'' = None \<and> tk_pending race_overtaken ''1:2'' = Some 1"
proof -
  have "race_start race_example"
    by (simp add: race_start_def race_example_def)
  from forced_refresh_overtakes_older_mints [OF this race_overtaken_reached, of "''1:2''"]
  have "tk_cached race_overtaken ''1:2'' = None \<or> rc_origin race_overtaken ''1:2'' = generation_of race_overtaken ''1:2''"
    by blast
  moreover have "tk_cached race_overtaken ''1:2'' = None \<and> tk_pending race_overtaken ''1:2'' = Some 1"
    by (simp add: race_overtaken_def Let_def take_off_def begin_get_def begin_refresh_def register_refresh_def
        land_def finish_get_def race_example_def generation_of_def)
  ultimately show ?thesis
    by blast
qed

end
