(* ===== verification/Github_Demo.thy ===== *)
theory Github_Demo
  imports Check_Life Pr_Comment Snapshot_Life Tree_Life User_Authorization Webhook Token_Races
begin

text \<open>
  A small GitHub: one pull request with one added file, no check run yet, one repository its user may push
  to. The witnesses of the properties of the GitHub package run on it.
\<close>

definition demo_head :: string where "demo_head = replicate 40 (CHR ''a'')"
definition demo_base :: string where "demo_base = replicate 40 (CHR ''b'')"
definition demo_tree :: string where "demo_tree = replicate 40 (CHR ''c'')"
definition demo_blob :: string where "demo_blob = replicate 40 (CHR ''d'')"

definition demo_repo_json :: json where
  "demo_repo_json = JObj [(''id'', JNum 2), (''full_name'', JStr ''o/r'')]"

definition demo_pull_json :: json where
  "demo_pull_json = JObj [(''id'', JNum 9), (''number'', JNum 3), (''state'', JStr ''open''), (''title'', JStr ''t''),
     (''body'', JNull), (''changed_files'', JNum 1),
     (''user'', JObj [(''id'', JNum 5), (''login'', JStr ''u'')]),
     (''head'', JObj [(''sha'', JStr demo_head), (''repo'', demo_repo_json)]),
     (''base'', JObj [(''sha'', JStr demo_base), (''repo'', demo_repo_json)])]"

definition demo_check_json :: json where
  "demo_check_json = JObj [(''id'', JNum 7), (''name'', JStr github_check_name), (''head_sha'', JStr demo_head),
     (''external_id'', JStr ''v''), (''status'', JStr ''in_progress''), (''conclusion'', JNull)]"

definition demo_file_json :: json where
  "demo_file_json = JObj [(''sha'', JStr demo_blob), (''filename'', JStr ''f''), (''status'', JStr ''added''),
     (''additions'', JNum 1), (''deletions'', JNum 0), (''changes'', JNum 1), (''patch'', JStr ''+x'')]"

definition demo_answers :: "(string \<times> json) list" where
  "demo_answers = [
     (''checks.listForRef'', JObj [(''total_count'', JNum 0), (''check_runs'', JArr [])]),
     (''checks.create'', demo_check_json),
     (''pulls.get'', demo_pull_json),
     (''pulls.listFiles'', JArr [demo_file_json]),
     (''git.getCommit'', JObj [(''sha'', JStr demo_head), (''tree'', JObj [(''sha'', JStr demo_tree)])]),
     (''git.getTree'', JObj [(''sha'', JStr demo_tree), (''truncated'', JBool False),
        (''tree'', JArr [JObj [(''path'', JStr ''f''), (''mode'', JStr ''100644''), (''type'', JStr ''blob''), (''sha'', JStr demo_blob)]])]),
     (''apps.listInstallationReposForAuthenticatedUser'', JObj [(''total_count'', JNum 1),
        (''repositories'', JArr [JObj [(''id'', JNum 2),
           (''permissions'', JObj [(''admin'', JBool False), (''push'', JBool True)])]])])]"

definition demo_outside :: "unit outside" where
  "demo_outside = \<lparr>ow_now = (\<lambda>w. (0, w)), ow_random = (\<lambda>w. (0, w)), ow_sleep = (\<lambda>d w. w),
     ow_send = (\<lambda>token endpoint params limit w.
       (case map_of demo_answers endpoint of Some d \<Rightarrow> Resolved d | None \<Rightarrow> Timed_out, w)),
     ow_lib = \<lparr>hl_number = (\<lambda>_. None), hl_date_parse = (\<lambda>_. None)\<rparr>\<rparr>"

definition demo_request_options :: request_options where
  "demo_request_options = \<lparr>ro_maxAttempts = None, ro_deadlineMs = None, ro_attemptTimeoutMs = None\<rparr>"

definition demo_grammars :: grammars where
  "demo_grammars = \<lparr>gr_uuid = (\<lambda>_. True), gr_https_url = (\<lambda>_. True)\<rparr>"

definition demo_host :: host where
  "demo_host = \<lparr>ho_isAbsolute = (\<lambda>_. True), ho_realpath = (\<lambda>_. None), ho_open = (\<lambda>_. None), ho_euid = None,
     ho_groups = None, ho_key_type = (\<lambda>_. None), ho_sign = (\<lambda>_ _. None), ho_iso_datetime = (\<lambda>_. True)\<rparr>"

definition demo_token_env :: "unit token_env" where
  "demo_token_env = \<lparr>te_outside = demo_outside, te_options = race_options, te_policy = demo_request_options,
     te_host = demo_host, te_await_mint = (\<lambda>_ s. (Inl invalid_binding, s)),
     te_await_refresh = (\<lambda>_ s. (Inl invalid_binding, s))\<rparr>"

definition demo_patch_limits :: patch_limits where
  "demo_patch_limits = \<lparr>pm_maxPatchBytesPerFile = 131072, pm_maxTotalPatchBytes = 2097152\<rparr>"

definition no_tree_limits :: tree_limits_input where
  "no_tree_limits = \<lparr>ti_maxDepth = None, ti_maxApiCalls = None, ti_maxEntriesPerTree = None,
     ti_maxTotalEntries = None, ti_maxTotalDurationMs = None\<rparr>"

definition demo_pull_env :: "unit pull_request_env" where
  "demo_pull_env = \<lparr>pe_outside = demo_outside, pe_policy = demo_request_options, pe_limits = demo_patch_limits,
     pe_tree_limits = no_tree_limits\<rparr>"

text \<open>The token of the repository is cached.\<close>

definition demo_start :: "unit token_state" where
  "demo_start = \<lparr>gh_world = (), gh_trace = [],
     tk_cached = (\<lambda>key. if key = ''1:2'' then Some \<lparr>ct_token = ''tok'', ct_expiresAtMs = 1000000\<rparr> else None),
     tk_pending = (\<lambda>_. None), tk_refreshing = (\<lambda>_. None), tk_generations = (\<lambda>_. None), tk_next = 0\<rparr>"

definition demo_intent :: check_intent where
  "demo_intent = \<lparr>rb_installationId = ''1'', rb_repositoryId = ''2'', rb_owner = ''o'', rb_repositoryName = ''r'',
     hi_pullNumber = 3, ci_revisionId = ''v'', ci_headSha = demo_head, ci_baseSha = demo_base,
     ci_expectedPullRequestState = ''open'', ci_status = ''in_progress'', ci_conclusion = None,
     ci_summary = ''s'', ci_detailsUrl = ''u''\<rparr>"

section \<open>Requests\<close>

lemma demo_clock: "read_clock demo_outside s = (0, s)"
  by (simp add: read_clock_def demo_outside_def)

lemma demo_send:
  "octokit_request call = (endpoint, params) \<Longrightarrow> map_of demo_answers endpoint = Some d
    \<Longrightarrow> send demo_outside token call l s = (Resolved d, s\<lparr>gh_trace := gh_trace s @ [Sent token call (Resolved d)]\<rparr>)"
  by (simp add: send_def demo_outside_def)

lemma attempts_first:
  "rp_now p s = (now, s1) \<Longrightarrow> now < a \<Longrightarrow> request (max 1 (min l (a - now))) s1 = (Resolved d, s2)
    \<Longrightarrow> 0 < n \<Longrightarrow> attempts lib p request l a allowed n earlier s = (Inr d, s2)"
  by (cases n) (simp_all add: one_attempt_def Let_def)

definition demo_allows :: "request_options \<Rightarrow> bool" where
  "demo_allows opts \<longleftrightarrow> ro_maxAttempts opts \<in> {None, Some 1} \<and> ro_deadlineMs opts \<in> {None, Some 25000}
     \<and> ro_attemptTimeoutMs opts = None"

lemma policy_times [simp]:
  "rp_deadlineMs (policy W opts) = ro_deadlineMs opts"
  "rp_attemptTimeoutMs (policy W opts) = ro_attemptTimeoutMs opts"
  by (simp_all add: policy_def)

lemma demo_request:
  assumes "octokit_request call = (endpoint, params)" and "map_of demo_answers endpoint = Some d" and "demo_allows opts"
  shows "github_request demo_outside opts token call s
    = (Inr d, s\<lparr>gh_trace := gh_trace s @ [Sent token call (Resolved d)]\<rparr>)"
proof -
  have "attempts lib (policy demo_outside opts) (send demo_outside token call) 10000 25000 allowed n None s
      = (Inr d, s\<lparr>gh_trace := gh_trace s @ [Sent token call (Resolved d)]\<rparr>)" if "0 < n" for lib allowed n
    by (rule attempts_first [where now = 0 and ?s1.0 = s, OF _ _ demo_send [OF assms(1,2)] that]) (simp_all add: demo_clock)
  then show ?thesis
    using assms(3)
    by (auto simp: github_request_def execute_github_request_def demo_allows_def demo_clock
        default_max_attempts_def max_attempts_def Let_def simp del: attempts.simps)
qed

lemma demo_write:
  "octokit_request call = (endpoint, params) \<Longrightarrow> map_of demo_answers endpoint = Some d \<Longrightarrow> demo_allows opts
    \<Longrightarrow> execute_write demo_outside opts token call s
      = (Inr d, s\<lparr>gh_trace := gh_trace s @ [Sent token call (Resolved d)]\<rparr>)"
  by (simp add: execute_write_def eff_catch_def demo_request demo_allows_def)

lemma demo_options_allowed: "demo_allows demo_request_options"
  by (simp add: demo_allows_def demo_request_options_def)

section \<open>Answers\<close>

lemma demo_shas: "sha_ok demo_head" "sha_ok demo_base" "sha_ok demo_tree" "sha_ok demo_blob"
  by (simp_all add: sha_ok_def demo_head_def demo_base_def demo_tree_def demo_blob_def all_in_def lower_hex_chars_def
      list_all_iff)

lemma demo_ids: "decimal_id_ok ''1''" "decimal_id_ok ''2''" "decimal_id_ok ''5''" "decimal_id_ok ''7''" "decimal_id_ok ''9''"
  by (simp_all add: decimal_id_ok_def number_of_decimal_def decimal_value_def is_safe_integer_def max_safe_integer_def)

lemma demo_numbers: "string_of_int 2 = ''2''" "string_of_int 5 = ''5''" "string_of_int 7 = ''7''" "string_of_int 9 = ''9''"
  by code_simp+

lemma demo_parts: "repository_part_ok ''o''" "repository_part_ok ''r''"
  by (simp_all add: repository_part_ok_def repository_part_chars_def)

definition demo_pull :: upstream_pull_request where
  "demo_pull = (let r = \<lparr>ur_id = 2, ur_full_name = ''o/r''\<rparr> in
     \<lparr>up_id = 9, up_number = 3, up_state = ''open'', up_draft = False, up_title = ''t'', up_body = None,
      up_changed_files = 1, up_userId = 5, up_userLogin = ''u'', up_headSha = demo_head, up_headRepo = Some r,
      up_baseSha = demo_base, up_baseRepo = r\<rparr>)"

lemmas reading_simps = prop_of_def read_string_def read_nullable_string_def read_int_def read_bool_def read_list_def
  guarded_def github_id_ok_def max_safe_integer_def length_between_def is_some_and_def

lemma demo_repo_read: "upstream_repository_schema demo_repo_json = Some \<lparr>ur_id = 2, ur_full_name = ''o/r''\<rparr>"
  by (simp add: upstream_repository_schema_def demo_repo_json_def reading_simps)

lemma demo_pull_read: "upstream_pull_request_schema demo_pull_json = Some demo_pull"
  unfolding upstream_pull_request_schema_def demo_pull_json_def demo_pull_def nullable_repository_def read_draft_def
  by (simp add: reading_simps demo_shas demo_repo_read pull_request_states_def Let_def)
    (simp add: demo_repo_json_def demo_repo_read [unfolded demo_repo_json_def])

lemma demo_check_read:
  "parse_remote_check demo_check_json demo_intent None
    = Inr \<lparr>rm_checkRunId = ''7'', rm_status = ''in_progress'', rm_conclusion = None\<rparr>"
  by (simp add: parse_remote_check_def upstream_check_run_schema_def demo_check_json_def demo_intent_def reading_simps
      demo_shas demo_numbers demo_ids remote_check_statuses_def)

section \<open>A reported check\<close>

lemma demo_intent_accepted: "check_intent_ok demo_grammars demo_intent"
  by (simp add: check_intent_ok_def demo_intent_def demo_grammars_def head_input_ok_def binding_ok_def demo_ids demo_parts
      demo_shas pull_request_states_def check_statuses_def is_some_and_def length_between_def refine_check_intent_def)

definition demo_at :: "event list \<Rightarrow> unit token_state" where
  "demo_at es = demo_start\<lparr>gh_trace := es\<rparr>"

lemma demo_at_simps [simp]: "gh_trace (demo_at es) = es" "(demo_at es)\<lparr>gh_trace := fs\<rparr> = demo_at fs"
  by (simp_all add: demo_at_def)

definition demo_binding :: binding where
  "demo_binding = \<lparr>rb_installationId = ''1'', rb_repositoryId = ''2'', rb_owner = ''o'', rb_repositoryName = ''r''\<rparr>"

definition demo_head_input :: head_input where
  "demo_head_input = \<lparr>rb_installationId = ''1'', rb_repositoryId = ''2'', rb_owner = ''o'', rb_repositoryName = ''r'',
     hi_pullNumber = 3\<rparr>"

lemma demo_token: "get_token demo_token_env demo_binding (demo_at es) = (Inr ''tok'', demo_at es)"
  by (simp add: get_token_def binding_ok_def demo_binding_def demo_ids demo_parts begin_get_now_def token_cache_key_def
      demo_at_def demo_start_def demo_token_env_def demo_clock begin_get_def expiry_skew_ms_def race_options_def end_get_def)

lemma demo_pull_request:
  assumes "rb_owner i = ''o''" "rb_repositoryName i = ''r''" "hi_pullNumber i = 3"
  shows "read_pull_request demo_pull_env ''tok'' i (demo_at es)
    = (Inr demo_pull, demo_at (es @ [Sent ''tok'' (Get_pull_request ''o'' ''r'' 3) (Resolved demo_pull_json)]))"
proof -
  have "github_request demo_outside demo_request_options ''tok'' (Get_pull_request ''o'' ''r'' 3) (demo_at es)
      = (Inr demo_pull_json, demo_at (es @ [Sent ''tok'' (Get_pull_request ''o'' ''r'' 3) (Resolved demo_pull_json)]))"
    by (subst demo_request [OF octokit_request.simps(2)]) (simp_all add: demo_answers_def demo_options_allowed)
  then show ?thesis
    using assms
    by (simp add: read_pull_request_def demo_pull_env_def eff_bind_def demo_pull_read)
      (simp add: demo_pull_def Let_def)
qed

lemma demo_bound: "assert_repository_binding demo_head_input demo_pull = Inr ()"
  by (simp add: assert_repository_binding_def demo_pull_def demo_head_input_def demo_numbers Let_def)

lemma demo_current_head:
  "get_current_head demo_pull_env (token_cache_provider demo_token_env) demo_head_input (demo_at es)
    = (Inr \<lparr>ch_headSha = demo_head, ch_baseSha = demo_base, ch_state = ''open''\<rparr>,
       demo_at (es @ [Sent ''tok'' (Get_pull_request ''o'' ''r'' 3) (Resolved demo_pull_json)]))"
proof -
  have ok: "head_input_ok demo_head_input"
    by (simp add: head_input_ok_def binding_ok_def demo_head_input_def demo_ids demo_parts)
  have b: "repository_binding demo_head_input = demo_binding"
    by (simp add: repository_binding_def demo_head_input_def demo_binding_def)
  have "head_with_client demo_pull_env demo_head_input ''tok'' (demo_at es)
      = (Inr \<lparr>ch_headSha = demo_head, ch_baseSha = demo_base, ch_state = ''open''\<rparr>,
         demo_at (es @ [Sent ''tok'' (Get_pull_request ''o'' ''r'' 3) (Resolved demo_pull_json)]))"
    using demo_pull_request [of demo_head_input es] demo_bound
    by (simp add: head_with_client_def eff_bind_def Let_def current_head_ok_def demo_shas pull_request_states_def)
      (simp add: demo_head_input_def demo_pull_def Let_def demo_shas eff_bind_def)
  then show ?thesis
    by (simp add: get_current_head_def get_current_head_with_authorization_def ok b numeral_2_eq_2 eff_bind_def
        eff_catch_def provide_token_def token_cache_provider_def demo_token)
qed

abbreviation demo_ports :: "(unit, _) ports" where
  "demo_ports \<equiv> production_ports demo_token_env demo_pull_env demo_grammars"

lemma demo_ports_simps:
  "po_outside demo_ports = demo_outside" "po_options demo_ports = demo_request_options"
  "po_grammars demo_ports = demo_grammars" "po_get_token demo_ports = get_token demo_token_env"
  "po_current_head demo_ports = get_current_head demo_pull_env (token_cache_provider demo_token_env)"
  by (simp_all add: production_ports_def demo_pull_env_def)

lemma demo_no_check:
  "find_existing_with_client demo_ports ''tok'' demo_intent (demo_at es)
    = (Inr None, demo_at (es @ [Sent ''tok'' (List_check_runs_for_ref ''o'' ''r'' demo_head github_check_name 1 100)
        (Resolved (JObj [(''total_count'', JNum 0), (''check_runs'', JArr [])]))]))"
proof -
  have "github_request demo_outside demo_request_options ''tok''
      (List_check_runs_for_ref ''o'' ''r'' demo_head github_check_name 1 100) (demo_at es)
    = (Inr (JObj [(''total_count'', JNum 0), (''check_runs'', JArr [])]),
       demo_at (es @ [Sent ''tok'' (List_check_runs_for_ref ''o'' ''r'' demo_head github_check_name 1 100)
        (Resolved (JObj [(''total_count'', JNum 0), (''check_runs'', JArr [])]))]))"
    by (subst demo_request [OF octokit_request.simps(9)]) (simp_all add: demo_answers_def demo_options_allowed)
  then show ?thesis
    by (simp add: find_existing_with_client_def eff_bind_def find_pages.simps demo_ports_simps demo_intent_def read_page_def
        upstream_check_run_list_schema_def reading_simps max_existing_check_runs_def select_reusable_remote_def)
qed

lemma demo_check_created:
  "write_create demo_ports ''tok'' demo_intent (demo_at es)
    = (Inr ''7'', demo_at (es @ [Sent ''tok'' (check_create_request demo_intent) (Resolved demo_check_json)]))"
proof -
  have "execute_write demo_outside demo_request_options ''tok'' (check_create_request demo_intent) (demo_at es)
      = (Inr demo_check_json, demo_at (es @ [Sent ''tok'' (check_create_request demo_intent) (Resolved demo_check_json)]))"
    unfolding check_create_request_def
    by (subst demo_write [OF octokit_request.simps(6)]) (simp_all add: demo_answers_def demo_options_allowed)
  then show ?thesis
    by (simp add: write_create_def demo_ports_simps eff_bind_def demo_check_read)
      (simp add: remote_matches_intent_def demo_intent_def)
qed

definition demo_reported_events :: "event list" where
  "demo_reported_events =
     [Sent ''tok'' (List_check_runs_for_ref ''o'' ''r'' demo_head github_check_name 1 100)
        (Resolved (JObj [(''total_count'', JNum 0), (''check_runs'', JArr [])])),
      Sent ''tok'' (Get_pull_request ''o'' ''r'' 3) (Resolved demo_pull_json),
      Sent ''tok'' (check_create_request demo_intent) (Resolved demo_check_json)]"

lemma demo_reported:
  "create_check demo_ports demo_intent (demo_at []) = (Inr ''7'', demo_at demo_reported_events)"
proof -
  have input: "repository_binding demo_intent = demo_binding" "head_input_of demo_intent = demo_head_input"
    by (simp_all add: repository_binding_def head_input_of_def demo_intent_def demo_binding_def demo_head_input_def)
  have head: "expected_head demo_intent = \<lparr>ch_headSha = demo_head, ch_baseSha = demo_base, ch_state = ''open''\<rparr>"
    by (simp add: expected_head_def demo_intent_def)
  show ?thesis
    by (simp add: create_check_def demo_ports_simps demo_intent_accepted eff_bind_def eff_catch_def create_client_def
        input head demo_token invalidating_rejected_token_def demo_no_check assert_head_def demo_current_head
        apply_intent_def demo_check_created demo_reported_events_def)
qed

theorem reported_check_gates_like_the_intent_witness:
  "\<exists>es token call d known remote. demo_reported_events = es \<and> Sent token call (Resolved d) \<in> set es \<and> is_write call
    \<and> parse_remote_check d demo_intent known = Inr remote \<and> ''7'' = rm_checkRunId remote
    \<and> required_check_satisfies_merge_gate (rm_status remote) (rm_conclusion remote)
      = required_check_satisfies_merge_gate (ci_status demo_intent) (ci_conclusion demo_intent)"
  using reported_check_gates_like_the_intent [OF demo_reported] by simp

section \<open>The kinds of the files\<close>

definition demo_resolver_env :: "unit resolver_env" where
  "demo_resolver_env = \<lparr>re_outside = demo_outside, re_policy = demo_request_options, re_token = ''tok''\<rparr>"

definition demo_entry :: tree_entry where
  "demo_entry = \<lparr>en_path = ''f'', en_mode = ''100644'', en_type = ''blob'', en_sha = demo_blob\<rparr>"

definition demo_store :: store where
  "demo_store = \<lparr>so_commits = (\<lambda>c. if c = demo_head then Some demo_tree else None),
     so_trees = (\<lambda>t. if t = demo_tree then Some [demo_entry] else None)\<rparr>"

definition demo_revision :: revision where
  "demo_revision = \<lparr>rv_owner = ''o'', rv_repositoryName = ''r'', rv_commitSha = demo_head\<rparr>"

definition demo_base_revision :: revision where
  "demo_base_revision = demo_revision\<lparr>rv_commitSha := demo_base\<rparr>"

definition demo_changed_file :: changed_file where
  "demo_changed_file = \<lparr>cf_sha = Some demo_blob, cf_filename = ''f'', cf_previousFilename = None, cf_status = ''added'',
     cf_additions = 1, cf_deletions = 0, cf_changes = 1, cf_patch = Some ''+x''\<rparr>"

definition demo_commit_json :: json where
  "demo_commit_json = JObj [(''sha'', JStr demo_head), (''tree'', JObj [(''sha'', JStr demo_tree)])]"

definition demo_tree_json :: json where
  "demo_tree_json = JObj [(''sha'', JStr demo_tree), (''truncated'', JBool False),
     (''tree'', JArr [JObj [(''path'', JStr ''f''), (''mode'', JStr ''100644''), (''type'', JStr ''blob''), (''sha'', JStr demo_blob)]])]"

lemma demo_commit_read: "git_commit_response_schema demo_commit_json = Some (demo_head, demo_tree)"
  by (simp add: git_commit_response_schema_def demo_commit_json_def reading_simps demo_shas)

lemma demo_tree_read:
  "git_tree_response_schema demo_tree_json = Some \<lparr>tr_sha = demo_tree, tr_truncated = False, tr_tree = [demo_entry]\<rparr>"
  by (simp add: git_tree_response_schema_def git_tree_entry_schema_def demo_tree_json_def reading_simps demo_shas demo_entry_def)

lemma demo_truthful: "truthful demo_outside demo_store"
proof -
  have "truthful_answer demo_store call d"
    if "map_of demo_answers (fst (octokit_request call)) = Some d" for call d
    using that
    by (cases call) (auto simp: truthful_answer_def demo_answers_def demo_commit_read [unfolded demo_commit_json_def]
        demo_tree_read [unfolded demo_tree_json_def] demo_store_def)
  then show ?thesis
    by (auto simp: truthful_def demo_outside_def split: option.splits)
qed

lemma demo_budgeted:
  assumes "octokit_request call = (endpoint, params)" and "map_of demo_answers endpoint = Some d"
    and "rs_apiCalls r < tl_maxApiCalls (rs_limits r)"
  shows "budgeted_send demo_resolver_env call l (r, s)
    = (Resolved d, (r\<lparr>rs_apiCalls := rs_apiCalls r + 1\<rparr>, s\<lparr>gh_trace := gh_trace s @ [Sent ''tok'' call (Resolved d)]\<rparr>))"
  using assms(3) by (simp add: budgeted_send_def beside_def demo_resolver_env_def demo_send [OF assms(1,2)])

lemma demo_resolver_request:
  assumes "octokit_request call = (endpoint, params)" and "map_of demo_answers endpoint = Some d"
    and "rs_apiCalls r < tl_maxApiCalls (rs_limits r)" and "0 < rs_deadlineAt r"
  shows "resolver_request demo_resolver_env call (r, s)
    = (Inr d, (r\<lparr>rs_apiCalls := rs_apiCalls r + 1\<rparr>, s\<lparr>gh_trace := gh_trace s @ [Sent ''tok'' call (Resolved d)]\<rparr>))"
proof -
  let ?p = "resolver_policy demo_resolver_env (rs_deadlineAt r)"
  have now: "rp_now ?p (r, s) = (0, (r, s))"
    by (simp add: resolver_policy_def beside_def demo_resolver_env_def demo_clock)
  have times: "rp_maxAttempts ?p = None" "rp_deadlineMs ?p = Some (rs_deadlineAt r)" "rp_attemptTimeoutMs ?p = Some (rs_deadlineAt r)"
    by (simp_all add: resolver_policy_def demo_resolver_env_def demo_request_options_def)
  have "attempts lib ?p (budgeted_send demo_resolver_env call) l a n m None (r, s)
      = (Inr d, (r\<lparr>rs_apiCalls := rs_apiCalls r + 1\<rparr>, s\<lparr>gh_trace := gh_trace s @ [Sent ''tok'' call (Resolved d)]\<rparr>))"
    if "0 < m" "0 < a" for lib l a n m
    by (rule attempts_first [OF now that(2) _ that(1)]) (rule demo_budgeted [OF assms(1-3)])
  then show ?thesis
    using assms(4)
    by (simp add: resolver_request_def beside_def demo_resolver_env_def demo_clock execute_github_request_def times
        now [unfolded demo_resolver_env_def] times [unfolded demo_resolver_env_def]
        default_max_attempts_def max_attempts_def Let_def del: attempts.simps)
qed

definition demo_resolver :: resolver where
  "demo_resolver = \<lparr>rs_limits = default_github_git_tree_metadata_limits, rs_treeCache = (\<lambda>_. None),
     rs_rootTreeCache = (\<lambda>_. None), rs_apiCalls = 0, rs_totalEntries = 0, rs_deadlineAt = 20000\<rparr>"

lemma demo_new_resolver: "new_resolver demo_resolver_env no_tree_limits s = (Inr demo_resolver, s)"
  by (simp add: new_resolver_def tree_limits_of_def no_tree_limits_def default_github_git_tree_metadata_limits_def
      tree_limits_ok_def demo_resolver_env_def demo_clock demo_resolver_def)

definition demo_tree_events :: "event list" where
  "demo_tree_events = [Sent ''tok'' (Get_git_commit ''o'' ''r'' demo_head) (Resolved demo_commit_json),
     Sent ''tok'' (Get_git_tree ''o'' ''r'' demo_tree) (Resolved demo_tree_json)]"

lemma demo_answered: "map_of demo_answers ''git.getCommit'' = Some demo_commit_json"
  "map_of demo_answers ''git.getTree'' = Some demo_tree_json"
  by (simp_all add: demo_answers_def demo_commit_json_def demo_tree_json_def)

lemma demo_commit_revision_ok: "validate_revision demo_revision"
  by (simp add: validate_revision_def demo_revision_def demo_parts demo_shas)

definition demo_root_read :: resolver where
  "demo_root_read = demo_resolver\<lparr>rs_apiCalls := 1, rs_rootTreeCache := (\<lambda>_. None)(revision_key demo_revision := Some demo_tree)\<rparr>"

definition demo_all_read :: resolver where
  "demo_all_read = demo_root_read\<lparr>rs_apiCalls := 2, rs_totalEntries := 1,
     rs_treeCache := (\<lambda>_. None)(object_key demo_revision demo_tree := Some [demo_entry])\<rparr>"

lemma demo_root:
  "load_root_tree_sha demo_resolver_env demo_revision (demo_resolver, s)
    = (Inr demo_tree, (demo_root_read,
        s\<lparr>gh_trace := gh_trace s @ [Sent ''tok'' (Get_git_commit ''o'' ''r'' demo_head) (Resolved demo_commit_json)]\<rparr>))"
proof -
  have "resolver_request demo_resolver_env (Get_git_commit ''o'' ''r'' demo_head) (demo_resolver, s)
      = (Inr demo_commit_json, (demo_resolver\<lparr>rs_apiCalls := rs_apiCalls demo_resolver + 1\<rparr>,
          s\<lparr>gh_trace := gh_trace s @ [Sent ''tok'' (Get_git_commit ''o'' ''r'' demo_head) (Resolved demo_commit_json)]\<rparr>))"
    by (rule demo_resolver_request [OF _ demo_answered(1)])
      (simp_all add: demo_resolver_def default_github_git_tree_metadata_limits_def)
  then show ?thesis
    by (simp add: load_root_tree_sha_def demo_commit_revision_ok eff_bind_def accept_commit_def demo_commit_read)
      (simp add: eff_bind_def demo_resolver_def demo_revision_def demo_root_read_def accept_commit_def demo_commit_read)
qed

lemma demo_tree_loaded:
  "load_tree demo_resolver_env demo_revision demo_tree (demo_root_read, s)
    = (Inr [demo_entry], (demo_all_read,
        s\<lparr>gh_trace := gh_trace s @ [Sent ''tok'' (Get_git_tree ''o'' ''r'' demo_tree) (Resolved demo_tree_json)]\<rparr>))"
proof -
  have "resolver_request demo_resolver_env (Get_git_tree ''o'' ''r'' demo_tree) (demo_root_read, s)
      = (Inr demo_tree_json, (demo_root_read\<lparr>rs_apiCalls := rs_apiCalls demo_root_read + 1\<rparr>,
          s\<lparr>gh_trace := gh_trace s @ [Sent ''tok'' (Get_git_tree ''o'' ''r'' demo_tree) (Resolved demo_tree_json)]\<rparr>))"
    by (rule demo_resolver_request [OF _ demo_answered(2)])
      (simp_all add: demo_root_read_def demo_resolver_def default_github_git_tree_metadata_limits_def)
  then show ?thesis
    by (simp add: load_tree_def demo_revision_def eff_bind_def)
      (simp add: eff_bind_def accept_tree_def demo_tree_read demo_root_read_def demo_resolver_def demo_all_read_def demo_revision_def
        default_github_git_tree_metadata_limits_def validate_tree_entries_def entry_valid_def demo_entry_def Let_def)
qed

lemma demo_kinds:
  "resolve_kinds demo_resolver_env (Some demo_revision) demo_base_revision [demo_changed_file] (demo_resolver, s)
    = (Inr [Blob], (demo_all_read, s\<lparr>gh_trace := gh_trace s @ demo_tree_events\<rparr>))"
proof -
  have "resolve_path demo_resolver_env demo_revision ''f'' (demo_resolver, s)
      = (Inr Blob, (demo_all_read, s\<lparr>gh_trace := gh_trace s @ demo_tree_events\<rparr>))"
  proof -
    have "parse_git_path ''f'' (tl_maxDepth (rs_limits demo_resolver)) = Inr [''f'']"
      by (simp add: parse_git_path_def demo_resolver_def default_github_git_tree_metadata_limits_def starts_with_def)
    moreover have "only_entry ''f'' [demo_entry] = Inr demo_entry" "leaf_kind demo_entry = Inr Blob"
      by (simp_all add: only_entry_def leaf_kind_def demo_entry_def)
    ultimately show ?thesis
      by (simp add: resolve_path_def eff_bind_def demo_root demo_tree_loaded demo_tree_events_def)
  qed
  moreover have "required_paths (cf_status demo_changed_file) (cf_filename demo_changed_file) (cf_previousFilename demo_changed_file)
      = Inr (Some ''f'', None)"
    by (simp add: required_paths_def demo_changed_file_def)
  ultimately show ?thesis
    by (simp add: resolve_file_def resolve_side_def eff_bind_def combine_kinds_def)
qed

theorem resolver_agrees_with_the_store_witness:
  "map (file_kind demo_store demo_head demo_base) [demo_changed_file] = [Some Blob]"
  using resolver_agrees_with_the_store [OF _ demo_new_resolver demo_kinds] demo_truthful
  by (simp add: demo_resolver_env_def demo_revision_def demo_base_revision_def)

theorem resolver_stays_within_its_budget_witness:
  "int (sent_count demo_tree_events) \<le> tl_maxApiCalls (tree_limits_of no_tree_limits)
    \<and> tl_maxApiCalls (tree_limits_of no_tree_limits) \<le> 2000"
  using resolver_stays_within_its_budget [OF demo_new_resolver demo_kinds, of "demo_at []"] by simp

section \<open>A snapshot\<close>














section \<open>Repositories of a user\<close>

definition demo_user_token :: string where
  "demo_user_token = replicate 16 (CHR ''t'')"

definition demo_repositories_input :: repositories_input where
  "demo_repositories_input = \<lparr>wi_userToken = demo_user_token, wi_githubInstallationIds = [''1'']\<rparr>"

definition demo_page_json :: json where
  "demo_page_json = JObj [(''total_count'', JNum 1), (''repositories'', JArr [JObj [(''id'', JNum 2),
     (''permissions'', JObj [(''admin'', JBool False), (''push'', JBool True)])]])]"

definition demo_page_event :: event where
  "demo_page_event = Sent demo_user_token (List_installation_repos_for_authenticated_user 1 1 100) (Resolved demo_page_json)"

lemma demo_page_read:
  "parse_writable_app_repository_page demo_page_json = Some \<lparr>ip_ids = [''2''], ip_pageSize = 1, ip_totalCount = 1\<rparr>"
  by (simp add: parse_writable_app_repository_page_def upstream_repository_page_schema_def page_schema_def
      upstream_repository_item_def demo_page_json_def reading_simps count_ok_def read_optional_bool_def may_write_def
      checked_ids_def demo_numbers demo_ids)

lemma demo_user_request:
  "bound_github_request demo_outside demo_request_options 25000 demo_user_token
     (List_installation_repos_for_authenticated_user 1 1 100) s
    = (Inr demo_page_json, s\<lparr>gh_trace := gh_trace s @ [demo_page_event]\<rparr>)"
proof -
  have "demo_allows (demo_request_options\<lparr>ro_deadlineMs := Some 25000\<rparr>)"
    by (simp add: demo_allows_def demo_request_options_def)
  then show ?thesis
    unfolding bound_github_request_def demo_page_event_def
    by (simp add: demo_clock)
      (subst demo_request [OF octokit_request.simps(16)]; simp add: demo_answers_def demo_page_json_def)
qed

lemma demo_listed:
  "list_writable_app_repositories demo_outside demo_request_options demo_repositories_input (demo_at [])
    = (Inr [''2''], demo_at [demo_page_event])"
proof -
  have ok: "repositories_input_ok demo_repositories_input"
    by (simp add: repositories_input_ok_def demo_repositories_input_def user_token_ok_def demo_user_token_def
        length_between_def demo_ids)
  have number: "number_of_decimal ''1'' = 1"
    by code_simp
  have deadline: "bound_deadline demo_outside demo_request_options s = (Inr 25000, s)" for s :: "unit token_state"
    by (simp add: bound_deadline_def demo_clock demo_request_options_def default_user_authorization_deadline_ms_def)
  show ?thesis
    by (simp add: list_writable_app_repositories_def ok eff_bind_def deadline max_user_app_repository_pages_def)
      (simp add: demo_repositories_input_def eff_bind_def number user_app_repositories_page_size_def demo_user_request
        next_repository_page_def demo_page_read max_user_app_repository_results_def max_user_app_repository_pages_def
        set_add_def Let_def numeral_eq_Suc)
qed

theorem listed_repositories_were_told_writable_witness:
  "writes [demo_page_event] = [] \<and> sent_count [demo_page_event] \<le> 96
    \<and> told_writable demo_user_token [''1''] [demo_page_event] ''2''"
  using listed_repositories_were_told_writable [of demo_outside demo_request_options demo_repositories_input "demo_at []"]
  unfolding demo_listed by (simp add: demo_repositories_input_def)

section \<open>A webhook\<close>

definition demo_event_json :: json where
  "demo_event_json = JObj [(''action'', JStr ''opened''), (''installation'', JObj [(''id'', JNum 1)]),
     (''repository'', JObj [(''id'', JNum 2), (''name'', JStr ''r''), (''full_name'', JStr ''o/r''), (''default_branch'', JStr ''main''),
        (''owner'', JObj [(''id'', JNum 5), (''login'', JStr ''o'')])]),
     (''pull_request'', JObj [(''id'', JNum 9), (''number'', JNum 3), (''state'', JStr ''open''), (''user'', JObj [(''id'', JNum 5), (''login'', JStr ''u'')]),
        (''head'', JObj [(''sha'', JStr demo_head)]), (''base'', JObj [(''sha'', JStr demo_base)])])]"

definition demo_webhook_lib :: webhook_lib where
  "demo_webhook_lib = \<lparr>wl_hmac = (\<lambda>_ _. replicate 32 0), wl_sha256 = (\<lambda>_. replicate 32 0), wl_uuid = (\<lambda>_. True),
     wl_decode_json = (\<lambda>_. Some demo_event_json)\<rparr>"

definition demo_headers :: json where
  "demo_headers = JObj [(''deliveryId'', JStr ''d''), (''eventName'', JStr ''pull_request''),
     (''signature'', JStr (''sha256='' @ replicate 64 (CHR ''0'')))]"

definition demo_signed :: signed_webhook where
  "demo_signed = \<lparr>sw_deliveryId = ''d'', sw_eventName = ''pull_request'', sw_payloadHash = replicate 64 (CHR ''0''),
     sw_payload = demo_event_json\<rparr>"

definition demo_opened :: pull_request_event where
  "demo_opened = \<lparr>pq_action = ''opened'', pq_githubInstallationId = ''1'', pq_accountId = ''5'', pq_accountLogin = ''o'',
     pq_githubRepositoryId = ''2'', pq_owner = ''o'', pq_name = ''r'', pq_defaultBranch = ''main'',
     pq_githubPullRequestId = ''9'', pq_number = 3, pq_state = ''open'', pq_authorId = ''5'',
     pq_headSha = demo_head, pq_baseSha = demo_base\<rparr>"

lemma demo_event_read: "github_pull_request_webhook_schema demo_event_json = Some demo_opened"
proof -
  have one: "string_of_int 1 = ''1''"
    by code_simp
  show ?thesis
    by (simp add: github_pull_request_webhook_schema_def demo_event_json_def reading_simps read_repository_def read_id_def
        github_numeric_id_def read_webhook_pull_request_def read_sha_of_def draft_ok_def nonempty_def demo_shas demo_numbers one
        pull_request_actions_def pull_request_states_def split_full_name_def demo_opened_def)
qed

lemma zero_hex: "encode_hex (replicate 32 0) = replicate 64 (CHR ''0'')"
  by code_simp

lemma demo_webhook:
  "parse_supported_github_webhook demo_webhook_lib [] demo_headers ''secret'' = Inr (demo_signed, Pull_request_event demo_opened)"
proof -
  have headers: "webhook_headers_schema demo_webhook_lib demo_headers
      = Some \<lparr>wh_deliveryId = ''d'', wh_eventName = ''pull_request'', wh_signature = ''sha256='' @ replicate 64 (CHR ''0'')\<rparr>"
    by code_simp
  have verified: "verify_webhook_signature demo_webhook_lib [] (''sha256='' @ replicate 64 (CHR ''0'')) ''secret'' = Inr ()"
    by (subst verify_webhook_signature_iff) (simp_all add: demo_webhook_lib_def zero_hex)
  have action: "action_envelope demo_event_json = Some ''opened''"
    by code_simp
  have decoded: "wl_decode_json demo_webhook_lib [] = Some demo_event_json" "payload_sha256 demo_webhook_lib [] = replicate 64 (CHR ''0'')"
    by (simp_all add: demo_webhook_lib_def payload_sha256_def zero_hex)
  have "parse_signed_github_webhook demo_webhook_lib [] demo_headers ''secret'' = Inr demo_signed"
    using decoded verified
    by (simp add: parse_signed_github_webhook_def headers result_simps demo_signed_def demo_event_json_def)
  then show ?thesis
    by (simp add: parse_supported_github_webhook_def result_simps)
      (simp add: demo_signed_def event_of_payload_def supported_event_def action pull_request_actions_def demo_event_read)
qed

theorem webhook_events_are_signed_and_bound_witness:
  "Option.bind (prop_of ''repository'' demo_event_json) (read_string ''full_name'') = Some (''o'' @ ''/'' @ ''r'')
    \<and> Option.bind (prop_of ''pull_request'' demo_event_json) (read_sha_of ''head'') = Some demo_head"
  using webhook_events_are_signed_and_bound [OF _ demo_webhook]
  by (auto simp: demo_webhook_lib_def demo_signed_def demo_opened_def)

end
