(* ===== verification/Spec2Isabelle.thy ===== *)
theory Spec2Isabelle
  imports Attempt_Life Policy Crypto_Life Multipart_Life Auth_Life Limits_Life Planner_Total Context_Demo Semantic_Demo
    Config_Demo Github_Demo
begin

text \<open>
  UnderstandProof: a verification library of the service that turns the understanding of a pull request
  into a required GitHub check.

  The program. A webhook tells that a pull request was opened or moved. The service reads a snapshot of it
  from GitHub, analyzes the patch, plans questions about it, and reports a check that stays pending. The
  contributor starts an attempt on the web, hands it over to a phone, records an explanation that is encrypted in
  the browser and uploaded in parts, and a maintainer decides. Everything is bound to the head commit: a new
  push makes the proof stale.

  Theories and sources, in the order of the flow. Paths are under \<open>src/\<close>; a definition has the name of the
  function, schema or constant it models, in snake case, and the fields of a record have those of the
  object with a prefix.

  \<^item> \<open>Prelude\<close>, \<open>Encoding\<close>, \<open>Json\<close>, \<open>Js_Text\<close>: the parts of JavaScript the sources use. Results are sums with the error
    on the left, loops over lists are \<open>fold_result\<close> and \<open>map_result\<close>, \<open>invariant_system\<close> is the locale of
    systems with an invariant. UTF-8, base64url and hex, \<open>JSON.stringify\<close>, trimming, splitting, sorting.
  \<^item> \<open>Webhook\<close>, \<open>Github_Request\<close>, \<open>Github_Ports\<close>, \<open>Github_Rest\<close>, \<open>Github_Adapter\<close>, \<open>Installation_Tokens\<close>, \<open>Git_Tree\<close>,
    \<open>Pull_Request\<close>, \<open>Check_Run\<close>, \<open>Pr_Comment\<close>, \<open>User_Authorization\<close>: \<open>packages/github/src\<close>. The state of these theories is
    the world outside and a trace of the requests sent with what they came to; the trace is history only, no
    operation reads it.
  \<^item> \<open>Diff_Analysis\<close>, \<open>Analyzer\<close>, \<open>Revision_Source\<close>, \<open>Bounded_Source\<close>, \<open>Generation_Context\<close>: \<open>packages/analysis/src\<close>. The patch is
    scanned into anchors, signals and risks; the material a provider of questions may see is cut to size.
  \<^item> \<open>Planner\<close>, \<open>Semantic_Text\<close>, \<open>Semantic_Content\<close>, \<open>Semantic_Fallback\<close>: \<open>packages/questions/src\<close>. The plan of a proof, the
    rules a provider's questions must follow and the questions that replace them.
  \<^item> \<open>Primitives\<close>, \<open>Attempt\<close>, \<open>Policy\<close>: \<open>packages/domain/src\<close>, \<open>packages/policy/src\<close>. The state machine of an attempt and
    what a repository decides about it.
  \<^item> \<open>Sessions\<close>, \<open>Handoffs\<close>, \<open>Quota_Window\<close>, \<open>OAuth_Start\<close>, \<open>Rate_Limit\<close>: \<open>packages/auth/src\<close>, the session, handoff and
    wrapping tables of \<open>packages/db/src/schema.ts\<close>, and the two limiters of \<open>apps/web/lib\<close>. The state is
    the tables; a transaction returns the tables unchanged when it fails.
  \<^item> \<open>Records\<close>, \<open>Media_Schemas\<close>, \<open>Manifest\<close>, \<open>Multipart\<close>, \<open>Recording_Crypto\<close>: \<open>packages/media/src\<close>. The chunk records of a
    recording, the manifest, the packer and the ledger of parts, encryption.
  \<^item> \<open>Config\<close>, \<open>Config_Rules\<close>, \<open>Config_Load\<close>: \<open>packages/config/src\<close>. Field schemas as data, the rules of each
    service, the environment file and the loaders.

  How they interact. \<open>Pull_Request\<close> gives the snapshot from which the worker makes the revision source
  of \<open>Revision_Source\<close>; \<open>Analyzer\<close> reads its patches, \<open>Planner\<close> its analysis, \<open>Generation_Context\<close> both, and
  \<open>Semantic_Content\<close> and \<open>Semantic_Fallback\<close> the context. \<open>Check_Run\<close> and \<open>Pr_Comment\<close> ask \<open>Pull_Request\<close> for the current head
  before they write, with tokens of \<open>Installation_Tokens\<close>; \<open>production_ports\<close> is this composition. \<open>Attempt\<close> takes its outcome from
  \<open>Policy\<close>; \<open>Handoffs\<close> reads attempts and sessions. \<open>Multipart\<close> packs records of \<open>Records\<close> into the parts
  a manifest of \<open>Manifest\<close> names, and \<open>Recording_Crypto\<close> binds both to their position.

  What the lemmas show. The theories with \<open>_Life\<close>, \<open>_Fit\<close>, \<open>_Total\<close>, \<open>_Races\<close> and \<open>_Facts\<close> in their names hold
  the proofs, those with \<open>_Demo\<close> concrete runs on which the witnesses are evaluated.

  \<^item> \<open>Attempt_Life\<close>: an attempt passes only after review, retries are replayed, the audit trail only grows, every run is
    bounded. \<open>Policy\<close>: no provider decides.
  \<^item> \<open>Check_Life\<close>, \<open>Pr_Comment\<close>, \<open>Snapshot_Life\<close>: what is written to GitHub follows a reading of the head in the same call,
    and a comment is written to what a listing in that call found; the files of a snapshot and their kinds are read
    between two equal readings of the pull request, and its files are those listed there. The locale \<open>quiet_ports\<close> states what the adapters need of their ports and is
    interpreted on the production ports.
  \<^item> \<open>Tree_Life\<close>: the resolver of object kinds refines a descent in a store of Git objects, and sends no more requests
    than its budget. The locales \<open>kept_by_requests\<close> and \<open>counted_requests\<close> say what the attempts of a request keep and cost.
  \<^item> \<open>Token_Races\<close>: under any interleaving of calls the cached token was minted after the last forced refresh.
    A step of the relation \<open>race_step\<close> is what one call does between two awaits.
  \<^item> \<open>User_Authorization\<close>, \<open>Webhook\<close>: listed repositories were told by GitHub as writable; only signed bytes are interpreted.
  \<^item> \<open>Analysis_Life\<close>, \<open>Planner_Life\<close>, \<open>Planner_Total\<close>: an analysis is grounded in its anchors and complete unless it is
    rated mega; a plan follows the policy and exists for every analysis.
  \<^item> \<open>Hunk_Facts\<close>, \<open>Bounded_Life\<close>, \<open>Json_Size\<close>, \<open>Context_Fit\<close>, \<open>Context_Life\<close>: bounded patches are leading hunks, nothing
    is given up without need, and a context verifies exactly against its analysis.
  \<^item> \<open>Pattern_Facts\<close>, \<open>Semantic_Life\<close>, \<open>Fallback_Text\<close>, \<open>Fallback_Life\<close>, \<open>Accepted_Questions\<close>: accepted content is anchored and never
    repeats proof content; exactly when the fallbacks are accepted themselves.
  \<^item> \<open>Auth_Life\<close>, \<open>Limits_Life\<close>: invariants of every run of steps over the tables; tokens are used once, quotas hold
    in every window.
  \<^item> \<open>Multipart_Life\<close>, \<open>Crypto_Life\<close>: packing is lossless and refines the manifest's schema; decryption inverts encryption and is
    bound to its position.
  \<^item> \<open>Config_Life\<close>: secrets stay in the service they belong to, in the environment and in what a file adds to it; the
    environment file is one form of its settings; the endpoints of providers are not known spellings of this host.

  Conventions. Numbers of TypeScript are \<open>int\<close>, \<open>rat\<close> where a fraction can occur, and words where the code works on bits. A
  character is a UTF-16 unit up to U+00FF: texts with other characters are outside the model, and the few the
  code writes itself (the ellipsis) are parameters. A record holds the fields after parsing, so literal members and
  members no code reads are left out. An error keeps what its handler looks at. Calls that the database
  serializes (row locks, advisory locks) are one step.

  Bounds and termination. No loop needs fuel: each is structural, has a measure in its termination proof, or, where the
  code bounds it by a constant, counts the rounds that are left (three attempts of a request, two of a token, ten and 32
  pages of a list, 300 check runs, 1000 comments). The one argument that the source does not have is the number of attempts
  or pages left; when it reaches zero the code leaves its loop too, with the same error.

  Parameters. Code that is not in the repository is an argument of the definitions that use it: SHA-256, HMAC and Web Crypto,
  the RSA implementation, randomness and the clock, the grammars of the validation library (UUID, ISO dates, URLs), Unicode
  normalization, the URL parser, \<open>Number\<close> and \<open>Date.parse\<close> of a text, the UTF-8 decoder and \<open>JSON.parse\<close>, the file system, Octokit with
  GitHub behind it. Properties that rely on one state what they need (a digest of 32 bytes, no collision among given texts,
  decryption that inverts encryption) and have a witness with a concrete function.

  Not modelled. The workers, the GitHub ingestion and control service, the OAuth sign-in and most web handlers are
  compositions of SQL statements, queue calls and streams: their behaviour is decided by PostgreSQL, pg-boss, S3 and ffmpeg, for
  which the repository holds only the calls. The clients of hosted models are prompts and transport; what they return passes
  the content rules modelled here. The React pages, fakes, scripts and infrastructure hold no logic of their own. Of modelled
  files these parts are left out: the tables of \<open>schema.ts\<close> no modelled code uses, \<open>createMasterKey\<close> and \<open>createNoncePrefix\<close>,
  which only fill a buffer with random bytes, and \<open>PublicCheckInputSchema\<close> of the webhook schemas. Floating point rounding of a retry
  delay and time spent inside a synchronous step are not represented.
\<close>

end
